(* ===== verification/AgentFqn.thy ===== *)
theory AgentFqn
  imports Prelude
begin

text \<open>
  Fully-qualified agent and package names (\<open>packages/sdk/src/agent-fqn.ts\<close>): the parser that
  classifies a reference without ever throwing, and its printer.
\<close>

definition shared_sentinel :: string where "shared_sentinel = ''__shared''"

definition reserved_prefix :: string where "reserved_prefix = ''__''"

datatype agent_fqn_kind = Bare | Shared | Owner | Ambiguous | Invalid

record agent_fqn =
  fq_kind :: agent_fqn_kind
  fq_name :: string
  fq_owner_ref :: "string option"
  fq_namespace_ref :: "string option"
  fq_semver :: "string option"
  fq_reason :: "string option"

definition is_reserved_name :: "string \<Rightarrow> bool" where
  "is_reserved_name value = starts_with reserved_prefix (to_lower (trim value))"

text \<open>\<open>/^\d+\.\d+\.\d+(?:-[0-9A-Za-z.-]+)?(?:\+[0-9A-Za-z.-]+)?$/\<close>, read left to right.\<close>

definition is_tag_char :: "char \<Rightarrow> bool" where
  "is_tag_char c \<longleftrightarrow> is_digit c \<or> c \<in> {CHR ''.'', CHR ''-''} \<or>
     (let n = of_char c :: nat in 65 \<le> n \<and> n \<le> 90 \<or> 97 \<le> n \<and> n \<le> 122)"

definition match_digits :: "string \<Rightarrow> string option" where
  "match_digits s = (if takeWhile is_digit s = [] then None else Some (dropWhile is_digit s))"

definition match_char :: "char \<Rightarrow> string \<Rightarrow> string option" where
  "match_char c s = (case s of x # xs \<Rightarrow> if x = c then Some xs else None | [] \<Rightarrow> None)"

definition match_tag :: "char \<Rightarrow> string \<Rightarrow> string" where
  "match_tag c s =
     (case match_char c s of
        Some r \<Rightarrow> if takeWhile is_tag_char r = [] then s else dropWhile is_tag_char r
      | None \<Rightarrow> s)"

definition semver_re :: "string \<Rightarrow> bool" where
  "semver_re s =
     (case Option.bind (match_digits s) (\<lambda>s. Option.bind (match_char (CHR ''.'') s) (\<lambda>s.
           Option.bind (match_digits s) (\<lambda>s. Option.bind (match_char (CHR ''.'') s) match_digits))) of
        None \<Rightarrow> False
      | Some rest \<Rightarrow> match_tag (CHR ''+'') (match_tag (CHR ''-'') rest) = [])"

definition is_semver :: "string \<Rightarrow> bool" where
  "is_semver value = semver_re (trim value)"

definition invalid :: "string \<Rightarrow> agent_fqn" where
  "invalid reason = \<lparr>fq_kind = Invalid, fq_name = [], fq_owner_ref = None,
     fq_namespace_ref = None, fq_semver = None, fq_reason = Some reason\<rparr>"

definition quoted :: "string \<Rightarrow> string" where
  "quoted s = CHR 0x22 # s @ [CHR 0x22]"

definition reserved_reason :: "string \<Rightarrow> string" where
  "reserved_reason s = quoted s @ '' uses the reserved '' @ quoted reserved_prefix @ '' prefix''"

definition fqn :: "agent_fqn_kind \<Rightarrow> string \<Rightarrow> string option \<Rightarrow> string option \<Rightarrow> string option \<Rightarrow> agent_fqn" where
  "fqn kind name owner ns semver = \<lparr>fq_kind = kind, fq_name = name, fq_owner_ref = owner,
     fq_namespace_ref = ns, fq_semver = semver, fq_reason = None\<rparr>"

definition parse_parts :: "string \<Rightarrow> string list \<Rightarrow> agent_fqn" where
  "parse_parts text parts =
     (if \<exists>p \<in> set parts. trim p = [] then
        invalid (''malformed qualified name '' @ quoted text @ '': empty segment'')
      else case parts of
        [name] \<Rightarrow>
          if is_reserved_name name then invalid (reserved_reason name)
          else fqn Bare name None None None
      | [first, second] \<Rightarrow>
          if is_reserved_name first then
            (if to_lower first \<noteq> shared_sentinel then
               invalid (quoted first @ '' is a reserved namespace and is not recognized'')
             else if is_reserved_name second then invalid (reserved_reason second)
             else fqn Shared second None None None)
          else if is_reserved_name second then invalid (reserved_reason second)
          else fqn Ambiguous second (Some first) (Some first) None
      | [first, second, third] \<Rightarrow>
          if is_reserved_name first then
            (if to_lower first \<noteq> shared_sentinel then
               invalid (quoted first @ '' is a reserved namespace and is not recognized'')
             else if is_reserved_name second then invalid (reserved_reason second)
             else if \<not> is_semver third then invalid (quoted third @ '' is not a valid semver'')
             else fqn Shared second None None (Some third))
          else if is_reserved_name second then invalid (reserved_reason second)
          else if \<not> is_semver third then invalid (quoted third @ '' is not a valid semver'')
          else fqn Owner second (Some first) None (Some third)
      | _ \<Rightarrow> invalid (''malformed qualified name '' @ quoted text @ '': too many segments''))"

definition parse_agent_fqn :: "jsval \<Rightarrow> agent_fqn" where
  "parse_agent_fqn raw =
     (case raw of
        JStr s \<Rightarrow>
          let text = trim s
          in if text = [] then invalid ''empty name''
             else parse_parts text (split_on (CHR '':'') text)
      | _ \<Rightarrow> invalid ''name must be a string'')"

definition semver_suffix :: "agent_fqn \<Rightarrow> string" where
  "semver_suffix f = (if truthy_str (fq_semver f) then CHR '':'' # the (fq_semver f) else [])"

definition format_agent_fqn :: "agent_fqn \<Rightarrow> string" where
  "format_agent_fqn f =
     (case fq_kind f of
        Bare \<Rightarrow> fq_name f
      | Shared \<Rightarrow> shared_sentinel @ '':'' @ fq_name f @ semver_suffix f
      | Owner \<Rightarrow> coalesce (fq_owner_ref f) ''undefined'' @ '':'' @ fq_name f @ semver_suffix f
      | Ambiguous \<Rightarrow> coalesce (fq_owner_ref f) ''undefined'' @ '':'' @ fq_name f @ semver_suffix f
      | Invalid \<Rightarrow> [])"

section \<open>Properties\<close>

lemma fqn_simps [simp]:
  "fq_kind (fqn k n r ns v) = k" "fq_name (fqn k n r ns v) = n" "fq_owner_ref (fqn k n r ns v) = r"
  "fq_namespace_ref (fqn k n r ns v) = ns" "fq_semver (fqn k n r ns v) = v"
  "fq_kind (invalid m) = Invalid"
  by (simp_all add: fqn_def invalid_def)

lemma parse_parts_nonempty:
  "fq_kind (parse_parts t parts) \<noteq> Invalid \<Longrightarrow> p \<in> set parts \<Longrightarrow> trim p \<noteq> []"
  by (auto simp: parse_parts_def split: if_splits)

text \<open>The shape of the references the parser accepts, in terms of their segments.\<close>

lemma parse_parts_cases:
  assumes "fq_kind (parse_parts t parts) \<noteq> Invalid"
  obtains (bare) name where "parts = [name]" "\<not> is_reserved_name name"
      "parse_parts t parts = fqn Bare name None None None"
  | (shared2) first name where "parts = [first, name]" "to_lower first = shared_sentinel"
      "is_reserved_name first" "\<not> is_reserved_name name"
      "parse_parts t parts = fqn Shared name None None None"
  | (ambiguous) first name where "parts = [first, name]" "\<not> is_reserved_name first"
      "\<not> is_reserved_name name"
      "parse_parts t parts = fqn Ambiguous name (Some first) (Some first) None"
  | (shared3) first name v where "parts = [first, name, v]" "to_lower first = shared_sentinel"
      "is_reserved_name first" "\<not> is_reserved_name name" "is_semver v"
      "parse_parts t parts = fqn Shared name None None (Some v)"
  | (owner) first name v where "parts = [first, name, v]" "\<not> is_reserved_name first"
      "\<not> is_reserved_name name" "is_semver v"
      "parse_parts t parts = fqn Owner name (Some first) None (Some v)"
proof -
  have ne: "\<not> (\<exists>p \<in> set parts. trim p = [])"
    using parse_parts_nonempty [OF assms] by blast
  consider name where "parts = [name]" | a b where "parts = [a, b]"
    | a b c where "parts = [a, b, c]" | "\<nexists>name. parts = [name]" "\<nexists>a b. parts = [a, b]"
      "\<nexists>a b c. parts = [a, b, c]" by blast
  then show thesis
  proof cases
    case (1 name)
    then show ?thesis using assms ne bare [of name]
      by (simp add: parse_parts_def split: if_splits)
  next
    case (2 a b)
    then show ?thesis using assms ne shared2 [of a b] ambiguous [of a b]
      by (simp add: parse_parts_def split: if_splits)
  next
    case (3 a b c)
    then show ?thesis using assms ne shared3 [of a b c] owner [of a b c]
      by (simp add: parse_parts_def split: if_splits)
  next
    case 4
    then have "fq_kind (parse_parts t parts) = Invalid"
      using ne by (auto simp: parse_parts_def split: list.splits)
    with assms show ?thesis by simp
  qed
qed

lemma parse_agent_fqn_string:
  assumes "fq_kind (parse_agent_fqn raw) \<noteq> Invalid"
  obtains t where "trim t = t" "t \<noteq> []"
    "parse_agent_fqn raw = parse_parts t (split_on (CHR '':'') t)"
proof (cases raw)
  case (JStr s)
  then show ?thesis using assms that [of "trim s"]
    by (auto simp: parse_agent_fqn_def Let_def split: if_splits)
qed (use assms in \<open>auto simp: parse_agent_fqn_def\<close>)

text \<open>The text of a segment list is only read to report an error.\<close>

lemma parse_parts_text:
  assumes "fq_kind (parse_parts t parts) \<noteq> Invalid"
  shows "parse_parts t' parts = parse_parts t parts"
  using assms
proof (cases rule: parse_parts_cases)
qed (use parse_parts_nonempty [OF assms] in \<open>simp_all add: parse_parts_def\<close>)

lemma trim_eq_selfD:
  "trim s = s \<Longrightarrow> s \<noteq> [] \<Longrightarrow> \<not> is_ws (hd s) \<and> \<not> is_ws (last s)"
  using trim_hd [of s] trim_last [of s] by simp

lemma shared_sentinel_facts:
  "is_reserved_name shared_sentinel" "to_lower shared_sentinel = shared_sentinel"
  "CHR '':'' \<notin> set shared_sentinel" "shared_sentinel \<noteq> []" "trim shared_sentinel = shared_sentinel"
  by code_simp+

lemma ws_not_sentinel: "is_reserved_name v \<Longrightarrow> v \<noteq> []"
  by (auto simp: is_reserved_name_def to_lower_def reserved_prefix_def)

lemma hd_join: "xs \<noteq> [] \<Longrightarrow> hd xs \<noteq> [] \<Longrightarrow> hd (join sep xs) = hd (hd xs)"
  by (cases xs rule: list.exhaust; cases "tl xs") (auto simp: neq_Nil_conv)

lemma join_not_Nil: "xs \<noteq> [] \<Longrightarrow> last xs \<noteq> [] \<Longrightarrow> join sep xs \<noteq> []"
  by (induction xs rule: induct_list012) auto

lemma last_join: "xs \<noteq> [] \<Longrightarrow> last xs \<noteq> [] \<Longrightarrow> last (join sep xs) = last (last xs)"
proof (induction xs rule: induct_list012)
  case (3 x y zs)
  then have "join sep (y # zs) \<noteq> []" by (intro join_not_Nil) auto
  with 3 show ?case by auto
qed auto

text \<open>What the parser returns for a text that is the join of its own segments.\<close>

lemma parse_join:
  assumes "xs \<noteq> []" "\<And>w. w \<in> set xs \<Longrightarrow> CHR '':'' \<notin> set w"
    and "hd xs \<noteq> []" "\<not> is_ws (hd (hd xs))" "last xs \<noteq> []" "\<not> is_ws (last (last xs))"
  shows "parse_agent_fqn (JStr (join '':'' xs)) = parse_parts (join '':'' xs) xs"
proof -
  have ne: "join '':'' xs \<noteq> []"
    using assms(1,3) by (cases xs; cases "tl xs") (auto simp: neq_Nil_conv)
  have "trim (join '':'' xs) = join '':'' xs"
    using assms by (intro trim_id) (simp add: hd_join last_join)
  with ne show ?thesis
    using split_on_join [OF assms(1,2)] by (simp add: parse_agent_fqn_def Let_def)
qed

text \<open>
  Printing is a section of parsing: a reference the parser accepts, printed and parsed again,
  gives the same reference (kind, name, owner, namespace and pinned version), so canonical names
  shown to a model or a user always resolve to what they were printed from.
\<close>

theorem parse_format_agent_fqn:
  assumes "fq_kind (parse_agent_fqn raw) \<noteq> Invalid"
  shows "parse_agent_fqn (JStr (format_agent_fqn (parse_agent_fqn raw))) = parse_agent_fqn raw"
proof -
  obtain t where t: "trim t = t" "t \<noteq> []"
    and eq: "parse_agent_fqn raw = parse_parts t (split_on (CHR '':'') t)"
    using parse_agent_fqn_string [OF assms] by blast
  define parts where "parts = split_on (CHR '':'') t"
  note eq = eq [folded parts_def]
  have valid: "fq_kind (parse_parts t parts) \<noteq> Invalid" using assms eq by simp
  have ne: "p \<noteq> []" if "p \<in> set parts" for p
    using parse_parts_nonempty [OF valid that] by auto
  have sep: "CHR '':'' \<notin> set p" if "p \<in> set parts" for p
    using that split_on_no_sep_parts by (auto simp: parts_def)
  have parts: "parts \<noteq> []" "join '':'' parts = t"
    by (simp_all add: parts_def join_split_on)
  have ends: "\<not> is_ws (hd (hd parts))" "\<not> is_ws (last (last parts))"
    using trim_eq_selfD [OF t] hd_join [of parts "'':''"] last_join [of parts "'':''"] parts ne
    by auto
  have again: "parse_agent_fqn (JStr (join '':'' xs)) = parse_parts t xs"
    if "xs \<noteq> []" "\<And>w. w \<in> set xs \<Longrightarrow> CHR '':'' \<notin> set w" "hd xs \<noteq> []" "\<not> is_ws (hd (hd xs))"
      "last xs \<noteq> []" "\<not> is_ws (last (last xs))"
      "fq_kind (parse_parts t xs) \<noteq> Invalid" for xs
    using parse_join [OF that(1-6)] parse_parts_text [OF that(7)] by simp
  have self: "parse_agent_fqn (JStr (join '':'' parts)) = parse_parts t parts"
    using parts sep ne ends valid by (intro again) auto
  note ws = shared_sentinel_facts
  have shared_head: "\<not> is_ws (hd shared_sentinel)"
    using trim_eq_selfD ws by blast
  show ?thesis
    using valid
  proof (cases rule: parse_parts_cases)
    case (bare name)
    then show ?thesis using self eq by (simp add: format_agent_fqn_def)
  next
    case (shared2 first name)
    have "parse_parts t [shared_sentinel, name] = parse_parts t parts"
      using shared2 ws ne valid by (auto simp: parse_parts_def split: if_splits)
    moreover have "parse_agent_fqn (JStr (join '':'' [shared_sentinel, name])) =
        parse_parts t [shared_sentinel, name]"
      using shared2 ws ne sep ends shared_head valid calculation by (intro again) auto
    ultimately show ?thesis using eq shared2 by (simp add: format_agent_fqn_def semver_suffix_def)
  next
    case (ambiguous first name)
    then show ?thesis using self eq by (simp add: format_agent_fqn_def semver_suffix_def)
  next
    case (shared3 first name v)
    have "parse_parts t [shared_sentinel, name, v] = parse_parts t parts"
      using shared3 ws ne valid by (auto simp: parse_parts_def split: if_splits)
    moreover have "parse_agent_fqn (JStr (join '':'' [shared_sentinel, name, v])) =
        parse_parts t [shared_sentinel, name, v]"
      using shared3 ws ne sep ends shared_head valid calculation by (intro again) auto
    ultimately show ?thesis using eq shared3 ne
      by (simp add: format_agent_fqn_def semver_suffix_def)
  next
    case (owner first name v)
    then show ?thesis using self eq ne by (simp add: format_agent_fqn_def semver_suffix_def)
  qed
qed

theorem parse_format_agent_fqn_witness:
  "let f = parse_agent_fqn (JStr '' __Shared:crawler:1.20.3-rc.1 '')
   in fq_kind f = Shared \<and> format_agent_fqn f = ''__shared:crawler:1.20.3-rc.1'' \<and>
      parse_agent_fqn (JStr (format_agent_fqn f)) = f"
proof -
  let ?raw = "JStr '' __Shared:crawler:1.20.3-rc.1 ''"
  have k: "fq_kind (parse_agent_fqn ?raw) = Shared" by code_simp
  have "format_agent_fqn (parse_agent_fqn ?raw) = ''__shared:crawler:1.20.3-rc.1''" by code_simp
  with k parse_format_agent_fqn [of ?raw] show ?thesis by simp
qed

text \<open>
  The reserved namespace cannot be forged: a reference is classified "shared" only when its
  first segment spells the sentinel (in any case), and no accepted reference of any kind carries a
  reserved name, nor a reserved owner or namespace.
\<close>

theorem parse_agent_fqn_reserved:
  "case parse_agent_fqn raw of f \<Rightarrow>
     fq_kind f \<noteq> Invalid \<longrightarrow>
       \<not> is_reserved_name (fq_name f) \<and>
       (\<forall>r. fq_owner_ref f = Some r \<or> fq_namespace_ref f = Some r \<longrightarrow> \<not> is_reserved_name r) \<and>
       (fq_kind f = Shared \<longrightarrow> fq_owner_ref f = None \<and>
          (\<exists>s first. raw = JStr s \<and> to_lower first = shared_sentinel \<and>
             first = hd (split_on (CHR '':'') (trim s))))"
proof -
  have ?thesis if valid: "fq_kind (parse_agent_fqn raw) \<noteq> Invalid"
  proof -
    obtain s where s: "raw = JStr s"
      and eq: "parse_agent_fqn raw = parse_parts (trim s) (split_on (CHR '':'') (trim s))"
      using valid by (cases raw) (auto simp: parse_agent_fqn_def Let_def split: if_splits)
    from valid [unfolded eq] show ?thesis
      unfolding eq by (cases rule: parse_parts_cases) (auto simp: s)
  qed
  then show ?thesis by auto
qed

theorem parse_agent_fqn_reserved_witness:
  "\<not> is_reserved_name (fq_name (parse_agent_fqn (JStr ''__shared:crawler''))) \<and>
   fq_kind (parse_agent_fqn (JStr ''ann:__shared'')) = Invalid"
proof -
  have "fq_kind (parse_agent_fqn (JStr ''__shared:crawler'')) \<noteq> Invalid" by code_simp
  with parse_agent_fqn_reserved [of "JStr ''__shared:crawler''"]
  have "\<not> is_reserved_name (fq_name (parse_agent_fqn (JStr ''__shared:crawler'')))" by simp
  moreover have "fq_kind (parse_agent_fqn (JStr ''ann:__shared'')) = Invalid" by code_simp
  ultimately show ?thesis by blast
qed

end
