(* ===== verification/TranscriptSelection.thy ===== *)
theory TranscriptSelection
  imports Prelude "HOL-Library.Sublist" "HOL-Library.Multiset"
begin

text \<open>
  \<open>packages/sdk/src/transcript-selection.ts\<close>: which messages of a transcript a distiller reads.
  The code indexes into the eligible messages; the model keeps the indices (\<open>nat\<close>), the scores
  by exchange proximity, the two priority tiers with their head and tail halves, and the elisions
  between the kept messages. Scores and fractions are exact rationals with a \<open>+Infinity\<close> on top;
  the code's \<open>Set\<close> of kept indices is a list without repetitions, in insertion order.

  The lemmas bound the selection by the budget, show which messages survive, and relate the
  two-pass scoring loop and the run-length loop of the elisions to direct descriptions.
\<close>

section \<open>Messages, options, results\<close>

datatype role = User | Assistant | System

record selectable_message =
  sm_seq :: int
  sm_role :: role
  sm_text :: string

record selection_options =
  so_budget :: "rat option"
  so_head_fraction :: "rat option"
  so_exchange_window :: "rat option"

record selection_elision =
  el_after_seq :: "int option"
  el_count :: nat
  el_span :: "int \<times> int"

record selection_stats =
  ss_input_total :: nat
  ss_system_dropped :: nat
  ss_eligible :: nat
  ss_selected_count :: nat
  ss_head_selected :: nat
  ss_tail_selected :: nat
  ss_user_kept :: nat
  ss_dropped_count :: nat

record selection_result =
  sr_selected :: "selectable_message list"
  sr_elisions :: "selection_elision list"
  sr_strategy :: string
  sr_stats :: selection_stats

section \<open>Scores\<close>

datatype score = Fin rat | PInf

instantiation score :: linorder
begin

fun less_eq_score :: "score \<Rightarrow> score \<Rightarrow> bool" where
  "less_eq_score (Fin a) (Fin b) = (a \<le> b)"
| "less_eq_score PInf (Fin _) = False"
| "less_eq_score _ PInf = True"

definition less_score :: "score \<Rightarrow> score \<Rightarrow> bool" where
  "less_score a b \<longleftrightarrow> a \<le> b \<and> \<not> b \<le> a"

instance
proof
  fix x y z :: score
  show "x < y \<longleftrightarrow> x \<le> y \<and> \<not> y \<le> x" by (simp add: less_score_def)
  show "x \<le> x" by (cases x) simp_all
  show "x \<le> y \<Longrightarrow> y \<le> z \<Longrightarrow> x \<le> z" by (cases x; cases y; cases z) simp_all
  show "x \<le> y \<Longrightarrow> y \<le> x \<Longrightarrow> x = y" by (cases x; cases y) simp_all
  show "x \<le> y \<or> y \<le> x" by (cases x; cases y) auto
qed

end

lemma PInf_top [simp]: "x \<le> PInf" "PInf \<le> x \<longleftrightarrow> x = PInf" "Fin r < PInf" "\<not> PInf < x"
  by (cases x; auto simp: less_score_def)+

lemma Fin_less [simp]: "Fin a < Fin b \<longleftrightarrow> a < b"
  by (auto simp: less_score_def)

text \<open>
  The distance loops: \<open>d\<close> is infinite (\<open>None\<close>) until a user message, then counts from it. The
  second loop runs the same step from the end.
\<close>

definition next_distance :: "nat option \<Rightarrow> selectable_message \<Rightarrow> nat option" where
  "next_distance d m = (if sm_role m = User then Some 0 else case d of None \<Rightarrow> None | Some k \<Rightarrow> Some (k + 1))"

fun distances :: "nat option \<Rightarrow> selectable_message list \<Rightarrow> nat option list" where
  "distances d [] = []"
| "distances d (m # ms) = next_distance d m # distances (next_distance d m) ms"

definition since_user :: "selectable_message list \<Rightarrow> nat option list" where
  "since_user messages = distances None messages"

definition until_user :: "selectable_message list \<Rightarrow> nat option list" where
  "until_user messages = rev (distances None (rev messages))"

definition decay :: "rat \<Rightarrow> nat option \<Rightarrow> rat" where
  "decay window d = (case d of
       None \<Rightarrow> 0
     | Some k \<Rightarrow> if of_nat k \<le> window then 1 - (of_nat k - 1) / (window + 1) else 0)"

definition score_of :: "rat \<Rightarrow> selectable_message \<Rightarrow> nat option \<Rightarrow> nat option \<Rightarrow> score" where
  "score_of window m since until =
     (if sm_role m = User then PInf
      else Fin (max (max (decay window since) (decay window until * (1 / 2))) 0))"

definition score_by_exchange_proximity :: "selectable_message list \<Rightarrow> rat \<Rightarrow> score list" where
  "score_by_exchange_proximity messages exchange_window =
     (let window = max 1 exchange_window
      in map (\<lambda>(m, since, until). score_of window m since until)
           (zip messages (zip (since_user messages) (until_user messages))))"

section \<open>Picking\<close>

text \<open>A stable sort by a comparison, as \<open>Array.prototype.sort\<close> with a consistent comparator.\<close>

fun insert_by :: "('a \<Rightarrow> 'a \<Rightarrow> bool) \<Rightarrow> 'a \<Rightarrow> 'a list \<Rightarrow> 'a list" where
  "insert_by le x [] = [x]"
| "insert_by le x (y # ys) = (if le x y then x # y # ys else y # insert_by le x ys)"

definition sort_by :: "('a \<Rightarrow> 'a \<Rightarrow> bool) \<Rightarrow> 'a list \<Rightarrow> 'a list" where
  "sort_by le xs = foldr (insert_by le) xs []"

datatype preference = Earliest | Latest

text \<open>The comparator gives a result at most 0: higher score first, then position by preference.\<close>

definition picked_before :: "score list \<Rightarrow> preference \<Rightarrow> nat \<Rightarrow> nat \<Rightarrow> bool" where
  "picked_before scores prefer a b =
     (if scores ! a > scores ! b then True
      else if scores ! b > scores ! a then False
      else case prefer of Earliest \<Rightarrow> a \<le> b | Latest \<Rightarrow> b \<le> a)"

definition take_top_scored :: "nat list \<Rightarrow> score list \<Rightarrow> int \<Rightarrow> preference \<Rightarrow> nat list" where
  "take_top_scored pool scores cnt prefer =
     (if cnt \<le> 0 then []
      else if int (length pool) \<le> cnt then pool
      else sort (take (nat cnt) (sort_by (picked_before scores prefer) pool)))"

text \<open>\<open>Math.round\<close>: half-way values round up.\<close>

definition js_round :: "rat \<Rightarrow> int" where
  "js_round x = \<lfloor>x + 1 / 2\<rfloor>"

definition fill_halves :: "nat list \<Rightarrow> score list \<Rightarrow> int \<Rightarrow> rat \<Rightarrow> nat \<Rightarrow> nat list" where
  "fill_halves pool scores budget head_fraction mid =
     (if budget \<le> 0 \<or> pool = [] then []
      else
        let head = filter (\<lambda>i. i < mid) pool;
            tail = filter (\<lambda>i. i \<ge> mid) pool;
            head_budget = min budget (js_round (of_int budget * head_fraction));
            tail_budget = budget - head_budget;
            head_pick = take_top_scored head scores head_budget Earliest;
            tail_pick = take_top_scored tail scores tail_budget Latest;
            head_slack = head_budget - int (length head_pick);
            tail_slack = tail_budget - int (length tail_pick)
        in if head_slack > 0 \<and> length tail_pick < length tail then
             head_pick @ take_top_scored tail scores (tail_budget + head_slack) Latest
           else if tail_slack > 0 \<and> length head_pick < length head then
             take_top_scored head scores (head_budget + tail_slack) Earliest @ tail_pick
           else head_pick @ tail_pick)"

section \<open>Elisions\<close>

text \<open>
  The loop of \<open>buildElisions\<close> from index \<open>i\<close>: the open run, if any, with its length and first
  seq; the last kept seq; the seq before \<open>i\<close>.
\<close>

definition push_run ::
  "(nat \<times> int) option \<Rightarrow> int option \<Rightarrow> nat \<Rightarrow> int \<Rightarrow> selection_elision list" where
  "push_run run last_kept_seq i prev_seq =
     (case run of
        None \<Rightarrow> []
      | Some (start, start_seq) \<Rightarrow>
          [\<lparr>el_after_seq = last_kept_seq, el_count = i - start, el_span = (start_seq, prev_seq)\<rparr>])"

fun elision_loop ::
  "nat list \<Rightarrow> nat \<Rightarrow> (nat \<times> int) option \<Rightarrow> int option \<Rightarrow> int \<Rightarrow> selectable_message list \<Rightarrow>
   selection_elision list" where
  "elision_loop kept i run last_kept_seq prev_seq [] = push_run run last_kept_seq i prev_seq"
| "elision_loop kept i run last_kept_seq prev_seq (m # ms) =
     (if i \<in> set kept then
        push_run run last_kept_seq i prev_seq
        @ elision_loop kept (i + 1) None (Some (sm_seq m)) (sm_seq m) ms
      else
        elision_loop kept (i + 1) (case run of None \<Rightarrow> Some (i, sm_seq m) | Some r \<Rightarrow> Some r)
          last_kept_seq (sm_seq m) ms)"

definition build_elisions :: "selectable_message list \<Rightarrow> nat list \<Rightarrow> selection_elision list" where
  "build_elisions eligible kept_idx = elision_loop kept_idx 0 None None 0 eligible"

section \<open>The strategy\<close>

definition exchange_clustered_name :: string where
  "exchange_clustered_name = ''exchange-clustered''"

definition finish_selection ::
  "nat \<Rightarrow> selectable_message list \<Rightarrow> nat \<Rightarrow> nat list \<Rightarrow> selection_result" where
  "finish_selection input_total eligible mid kept_idx =
     (let selected = map (\<lambda>i. eligible ! i) kept_idx
      in \<lparr>sr_selected = selected,
          sr_elisions = build_elisions eligible kept_idx,
          sr_strategy = exchange_clustered_name,
          sr_stats = \<lparr>ss_input_total = input_total,
            ss_system_dropped = input_total - length eligible,
            ss_eligible = length eligible,
            ss_selected_count = length selected,
            ss_head_selected = length (filter (\<lambda>i. i < mid) kept_idx),
            ss_tail_selected = length (filter (\<lambda>i. i \<ge> mid) kept_idx),
            ss_user_kept = length (filter (\<lambda>m. sm_role m = User) selected),
            ss_dropped_count = length eligible - length selected\<rparr>\<rparr>)"

text \<open>\<open>Set.add\<close>, and the guarded reservation of the two anchors.\<close>

definition set_add :: "nat \<Rightarrow> nat list \<Rightarrow> nat list" where
  "set_add x kept = (if x \<in> set kept then kept else kept @ [x])"

definition reserve_anchor :: "int \<Rightarrow> nat \<Rightarrow> nat list \<Rightarrow> nat list" where
  "reserve_anchor budget anchor kept =
     (if int (length kept) < budget then set_add anchor kept else kept)"

definition add_all :: "nat list \<Rightarrow> nat list \<Rightarrow> nat list" where
  "add_all xs kept = fold set_add xs kept"

text \<open>The kept indices of an overfull transcript, tier by tier, in ascending order.\<close>

definition tiered_selection ::
  "selectable_message list \<Rightarrow> score list \<Rightarrow> int \<Rightarrow> rat \<Rightarrow> nat \<Rightarrow> nat list" where
  "tiered_selection eligible scores budget head_fraction mid =
     (let n = length eligible;
          kept0 = reserve_anchor budget (n - 1) (reserve_anchor budget 0 []);
          users = filter (\<lambda>i. sm_role (eligible ! i) = User \<and> i \<notin> set kept0) [0..<n];
          kept1 = add_all (fill_halves users scores (budget - int (length kept0)) head_fraction mid) kept0;
          rest = filter (\<lambda>i. i \<notin> set kept1) [0..<n];
          kept2 = add_all (fill_halves rest scores (budget - int (length kept1)) head_fraction mid) kept1
      in sort kept2)"

definition exchange_clustered_select ::
  "selectable_message list \<Rightarrow> selection_options \<Rightarrow> selection_result" where
  "exchange_clustered_select messages options =
     (let budget = max 0 \<lfloor>coalesce (so_budget options) 1000\<rfloor>;
          head_fraction = min 1 (max 0 (coalesce (so_head_fraction options) (1 / 2)));
          exchange_window = max 1 \<lfloor>coalesce (so_exchange_window options) 6\<rfloor>;
          input = sort_key sm_seq messages;
          eligible = filter (\<lambda>m. sm_role m \<noteq> System) input;
          mid = length eligible div 2
      in if int (length eligible) \<le> budget
         then finish_selection (length input) eligible mid [0..<length eligible]
         else finish_selection (length input) eligible mid
                (tiered_selection eligible
                   (score_by_exchange_proximity eligible (of_int exchange_window))
                   budget head_fraction mid))"

section \<open>The registry\<close>

record selection_strategy =
  st_name :: string
  st_select :: "selectable_message list \<Rightarrow> selection_options \<Rightarrow> selection_result"

definition exchange_clustered_strategy :: selection_strategy where
  "exchange_clustered_strategy =
     \<lparr>st_name = exchange_clustered_name, st_select = exchange_clustered_select\<rparr>"

type_synonym strategy_registry = "(string \<times> selection_strategy) list"

definition initial_registry :: strategy_registry where
  "initial_registry = [(st_name exchange_clustered_strategy, exchange_clustered_strategy)]"

text \<open>\<open>Map.set\<close> keeps the position of a key that is already there.\<close>

fun registry_set :: "string \<Rightarrow> selection_strategy \<Rightarrow> strategy_registry \<Rightarrow> strategy_registry" where
  "registry_set k s [] = [(k, s)]"
| "registry_set k s ((k', s') # r) = (if k' = k then (k, s) # r else (k', s') # registry_set k s r)"

definition register_selection_strategy ::
  "selection_strategy \<Rightarrow> strategy_registry \<Rightarrow> strategy_registry" where
  "register_selection_strategy strategy reg = registry_set (st_name strategy) strategy reg"

definition resolve_selection_strategy ::
  "strategy_registry \<Rightarrow> string option \<Rightarrow> selection_strategy" where
  "resolve_selection_strategy reg name =
     (if truthy_str name then
        case map_of reg (the name) of Some found \<Rightarrow> found | None \<Rightarrow> exchange_clustered_strategy
      else exchange_clustered_strategy)"

definition list_selection_strategies :: "strategy_registry \<Rightarrow> selection_strategy list" where
  "list_selection_strategies reg = map snd reg"

definition select_transcript ::
  "strategy_registry \<Rightarrow> selectable_message list \<Rightarrow> selection_options \<Rightarrow> string option \<Rightarrow>
   selection_result" where
  "select_transcript reg messages options strategy =
     st_select (resolve_selection_strategy reg strategy) messages options"

section \<open>Lemmas on picking\<close>

lemma mset_insert_by [simp]: "mset (insert_by le x xs) = add_mset x (mset xs)"
  by (induction xs) auto

lemma mset_sort_by [simp]: "mset (sort_by le xs) = mset xs"
proof -
  have "mset (foldr (insert_by le) xs []) = mset xs" by (induction xs) auto
  then show ?thesis by (simp add: sort_by_def)
qed

lemma set_sort_by [simp]: "set (sort_by le xs) = set xs"
  by (metis mset_sort_by set_mset_mset)

lemma length_sort_by [simp]: "length (sort_by le xs) = length xs"
  by (metis mset_sort_by size_mset)

lemma distinct_sort_by [simp]: "distinct (sort_by le xs) = distinct xs"
  by (metis mset_sort_by mset_eq_imp_distinct_iff)

lemma take_top_scored_subset: "set (take_top_scored pool scores cnt prefer) \<subseteq> set pool"
  by (auto simp: take_top_scored_def dest: in_set_takeD)

lemma take_top_scored_length:
  "length (take_top_scored pool scores cnt prefer) = min (nat cnt) (length pool)"
  by (auto simp: take_top_scored_def)

lemma take_top_scored_distinct:
  "distinct pool \<Longrightarrow> distinct (take_top_scored pool scores cnt prefer)"
  by (auto simp: take_top_scored_def)

lemma take_top_scored_in: "x \<in> set (take_top_scored pool scores cnt prefer) \<Longrightarrow> x \<in> set pool"
  using take_top_scored_subset by fast

lemmas take_top_scored_facts =
  take_top_scored_subset take_top_scored_length take_top_scored_distinct

lemma js_round_bounds:
  assumes "0 < b" "0 \<le> f"
  shows "0 \<le> js_round (of_int b * f)"
proof -
  have "0 \<le> of_int b * f" using assms by simp
  then show ?thesis by (simp add: js_round_def)
qed

lemma fill_halves_subset: "set (fill_halves pool scores budget f mid) \<subseteq> set pool"
  by (auto simp: fill_halves_def Let_def split: if_split_asm dest!: take_top_scored_in)

lemma length_filter_halves:
  "length (filter (\<lambda>i. i < mid) pool) + length (filter (\<lambda>i. i \<ge> mid) pool) = length (pool :: nat list)"
  using sum_length_filter_compl [of "\<lambda>i. i < mid" pool] by (simp add: not_less)

lemma halves_arith:
  fixes hb tb :: int and h t :: nat
  assumes "0 \<le> hb" "0 \<le> tb"
  shows "(if hb - int (min (nat hb) h) > 0 \<and> min (nat tb) t < t
       then min (nat hb) h + min (nat (tb + (hb - int (min (nat hb) h)))) t
       else if tb - int (min (nat tb) t) > 0 \<and> min (nat hb) h < h
       then min (nat (hb + (tb - int (min (nat tb) t)))) h + min (nat tb) t
       else min (nat hb) h + min (nat tb) t) = min (nat (hb + tb)) (h + t)"
proof -
  obtain x y where "hb = int x" "tb = int y" using assms by (metis zero_le_imp_eq_int)
  then show ?thesis
    by (cases "x \<le> h"; cases "y \<le> t") (auto simp: min_def nat_add_distrib)
qed

lemma fill_halves_length:
  assumes "0 \<le> f"
  shows "length (fill_halves pool scores budget f mid) = min (nat budget) (length pool)"
proof (cases "budget \<le> 0 \<or> pool = []")
  case False
  define h where "h = length (filter (\<lambda>i. i < mid) pool)"
  define t where "t = length (filter (\<lambda>i. i \<ge> mid) pool)"
  define hb where "hb = min budget (js_round (of_int budget * f))"
  have "h + t = length pool" by (simp add: h_def t_def length_filter_halves)
  moreover have "0 \<le> hb" "hb \<le> budget" using False assms js_round_bounds [of budget f] by (auto simp: hb_def)
  moreover have "length (fill_halves pool scores budget f mid) =
      (if hb - int (min (nat hb) h) > 0 \<and> min (nat (budget - hb)) t < t
       then min (nat hb) h + min (nat (budget - hb + (hb - int (min (nat hb) h)))) t
       else if budget - hb - int (min (nat (budget - hb)) t) > 0 \<and> min (nat hb) h < h
       then min (nat (hb + (budget - hb - int (min (nat (budget - hb)) t)))) h + min (nat (budget - hb)) t
       else min (nat hb) h + min (nat (budget - hb)) t)"
    using False unfolding fill_halves_def Let_def hb_def [symmetric]
    by (simp add: take_top_scored_length h_def [symmetric] t_def [symmetric] del: nat_diff_distrib')
  ultimately show ?thesis using halves_arith [of hb "budget - hb" h t] by simp
qed (auto simp: fill_halves_def)

lemma fill_halves_distinct:
  assumes "distinct pool"
  shows "distinct (fill_halves pool scores budget f mid)"
proof -
  have "distinct (take_top_scored (filter (\<lambda>i. i < mid) pool) scores a Earliest
      @ take_top_scored (filter (\<lambda>i. i \<ge> mid) pool) scores b Latest)" for a b
    using assms by (auto simp: take_top_scored_distinct dest!: take_top_scored_in)
  then show ?thesis by (simp add: fill_halves_def Let_def)
qed

lemmas fill_halves_facts = fill_halves_subset fill_halves_length fill_halves_distinct

lemma add_all_fresh:
  assumes "distinct xs" "set xs \<inter> set kept = {}"
  shows "add_all xs kept = kept @ xs"
  using assms unfolding add_all_def
  by (induction xs arbitrary: kept) (auto simp: set_add_def)

section \<open>Lemmas on the tiers\<close>

definition anchors :: "nat \<Rightarrow> int \<Rightarrow> nat list" where
  "anchors n budget = reserve_anchor budget (n - 1) (reserve_anchor budget 0 [])"

lemma anchors_facts:
  assumes "0 < n"
  shows "distinct (anchors n budget)" "set (anchors n budget) \<subseteq> {0, n - 1}"
    "int (length (anchors n budget)) \<le> max 0 budget"
    "0 < budget \<Longrightarrow> 0 \<in> set (anchors n budget)"
    "1 < budget \<Longrightarrow> n - 1 \<in> set (anchors n budget)"
  using assms by (auto simp: anchors_def reserve_anchor_def set_add_def)

text \<open>The three tiers as lists: the anchors, the users picked, the others picked.\<close>

lemma tiered_selection_tiers:
  assumes n: "n = length eligible" "0 < n" and b: "0 \<le> budget" and f: "0 \<le> f"
  obtains us rs where
    "mset (tiered_selection eligible scores budget f mid) = mset (anchors n budget @ us @ rs)"
    "distinct (anchors n budget @ us @ rs)" "set us \<union> set rs \<subseteq> {0..<n}"
    "\<forall>i \<in> set us. sm_role (eligible ! i) = User"
    "rs = [] \<or> (\<forall>i < n. sm_role (eligible ! i) = User \<longrightarrow> i \<in> set (anchors n budget @ us))"
    "length (anchors n budget @ us @ rs) = min (nat budget) n"
proof -
  define k0 where "k0 = anchors n budget"
  define users where "users = filter (\<lambda>i. sm_role (eligible ! i) = User \<and> i \<notin> set k0) [0..<n]"
  define us where "us = fill_halves users scores (budget - int (length k0)) f mid"
  define rest where "rest = filter (\<lambda>i. i \<notin> set (k0 @ us)) [0..<n]"
  define rs where "rs = fill_halves rest scores (budget - int (length (k0 @ us))) f mid"
  note a = anchors_facts [OF n(2), of budget, folded k0_def]
  have us: "set us \<subseteq> set users" "distinct us"
    "length us = min (nat (budget - int (length k0))) (length users)"
    using f unfolding us_def by (intro fill_halves_facts; simp add: users_def)+
  have rs: "set rs \<subseteq> set rest" "distinct rs"
    "length rs = min (nat (budget - int (length (k0 @ us)))) (length rest)"
    using f unfolding rs_def by (intro fill_halves_facts; simp add: rest_def)+
  have d1: "distinct (k0 @ us)" using a(1) us by (auto simp: users_def)
  have d2: "distinct (k0 @ us @ rs)" using d1 rs by (auto simp: rest_def)
  have k1: "add_all us k0 = k0 @ us" using us d1 by (intro add_all_fresh) auto
  have k2: "add_all rs (k0 @ us) = k0 @ us @ rs" using rs d2 by (subst add_all_fresh) auto
  have sub: "set (k0 @ us) \<subseteq> {0..<n}" using a(2) us n(2) by (auto simp: users_def)
  have lrest: "length rest + length (k0 @ us) = n"
  proof -
    have "length rest = card ({0..<n} - set (k0 @ us))"
      by (subst distinct_card [symmetric]) (auto simp: rest_def intro!: arg_cong [where f = card])
    also have "\<dots> = n - length (k0 @ us)"
      using sub d1 distinct_card [OF d1] by (subst card_Diff_subset) auto
    moreover have "length (k0 @ us) \<le> n"
      using card_mono [OF _ sub] distinct_card [OF d1] by simp
    ultimately show ?thesis by simp
  qed
  have T: "tiered_selection eligible scores budget f mid = sort (k0 @ us @ rs)"
    unfolding tiered_selection_def Let_def n(1) [symmetric] anchors_def [symmetric] k0_def [symmetric]
      users_def [symmetric] us_def [symmetric] k1 rest_def [symmetric] rs_def [symmetric] k2 ..
  have full: "rs = [] \<or> (\<forall>i < n. sm_role (eligible ! i) = User \<longrightarrow> i \<in> set (k0 @ us))"
  proof (cases "length us = length users")
    case True
    then have "set us = set users"
      using us distinct_card [of us] distinct_card [of users] card_subset_eq [of "set users" "set us"]
      by (simp add: users_def)
    then show ?thesis by (auto simp: users_def)
  next
    case False
    then have "length rs = 0" using us(3) rs(3) by simp
    then show ?thesis by simp
  qed
  show ?thesis
  proof
    show "mset (tiered_selection eligible scores budget f mid) = mset (anchors n budget @ us @ rs)"
      by (simp add: T k0_def)
    show "distinct (anchors n budget @ us @ rs)" using d2 by (simp add: k0_def)
    show "set us \<union> set rs \<subseteq> {0..<n}" using us rs by (auto simp: users_def rest_def)
    show "\<forall>i \<in> set us. sm_role (eligible ! i) = User" using us by (auto simp: users_def)
    show "rs = [] \<or> (\<forall>i < n. sm_role (eligible ! i) = User \<longrightarrow> i \<in> set (anchors n budget @ us))"
      using full by (simp add: k0_def)
    show "length (anchors n budget @ us @ rs) = min (nat budget) n"
      using a(3) us(3) rs(3) lrest b by (auto simp: k0_def [symmetric] min_def split: if_splits)
  qed
qed

section \<open>The kept indices\<close>

definition eligible_of :: "selectable_message list \<Rightarrow> selectable_message list" where
  "eligible_of messages = filter (\<lambda>m. sm_role m \<noteq> System) (sort_key sm_seq messages)"

definition budget_of :: "selection_options \<Rightarrow> int" where
  "budget_of options = max 0 \<lfloor>coalesce (so_budget options) 1000\<rfloor>"

definition kept_indices :: "selectable_message list \<Rightarrow> selection_options \<Rightarrow> nat list" where
  "kept_indices messages options =
     (let eligible = eligible_of messages
      in if int (length eligible) \<le> budget_of options then [0..<length eligible]
         else tiered_selection eligible
                (score_by_exchange_proximity eligible
                   (of_int (max 1 \<lfloor>coalesce (so_exchange_window options) 6\<rfloor>)))
                (budget_of options) (min 1 (max 0 (coalesce (so_head_fraction options) (1 / 2))))
                (length eligible div 2))"

lemma select_kept:
  "exchange_clustered_select messages options =
     finish_selection (length messages) (eligible_of messages) (length (eligible_of messages) div 2)
       (kept_indices messages options)"
  by (simp add: exchange_clustered_select_def kept_indices_def eligible_of_def budget_of_def Let_def)

lemma tiered_selection_sorted: "sorted (tiered_selection eligible scores budget f mid)"
  by (simp add: tiered_selection_def Let_def)

text \<open>Over budget, the kept indices are the anchors, the users picked and the others picked.\<close>

lemma kept_indices_tiers:
  fixes messages options
  defines "e \<equiv> eligible_of messages" and "k \<equiv> kept_indices messages options"
    and "b \<equiv> budget_of options"
  assumes over: "b < int (length e)"
  obtains us rs where
    "sorted k" "mset k = mset (anchors (length e) b @ us @ rs)"
    "distinct (anchors (length e) b @ us @ rs)" "set us \<union> set rs \<subseteq> {0..<length e}"
    "\<forall>i \<in> set us. sm_role (e ! i) = User"
    "rs = [] \<or> (\<forall>i < length e. sm_role (e ! i) = User \<longrightarrow> i \<in> set (anchors (length e) b @ us))"
    "length (anchors (length e) b @ us @ rs) = min (nat b) (length e)"
proof -
  define sc where "sc = score_by_exchange_proximity e (of_int (max 1 \<lfloor>coalesce (so_exchange_window options) 6\<rfloor>))"
  define f where "f = min 1 (max 0 (coalesce (so_head_fraction options) (1 / 2 :: rat)))"
  have k: "k = tiered_selection e sc b f (length e div 2)"
    using over by (simp add: k_def sc_def f_def e_def b_def kept_indices_def Let_def)
  have b: "0 \<le> b" by (simp add: b_def budget_of_def)
  with over have n: "0 < length e" by linarith
  have f: "0 \<le> f" by (simp add: f_def)
  have "sorted k" by (simp add: k tiered_selection_sorted)
  with that show thesis
    unfolding k
    by (metis tiered_selection_tiers [OF refl n b f, of sc "length e div 2"])
qed

lemma kept_indices_facts:
  fixes messages options
  defines "n \<equiv> length (eligible_of messages)" and "k \<equiv> kept_indices messages options"
  shows "sorted_wrt (<) k" "set k \<subseteq> {0..<n}" "length k = min (nat (budget_of options)) n"
proof -
  have "sorted_wrt (<) k \<and> set k \<subseteq> {0..<n} \<and> length k = min (nat (budget_of options)) n"
  proof (cases "int n \<le> budget_of options")
    case True
    then show ?thesis by (simp add: k_def kept_indices_def n_def Let_def)
  next
    case False
    then have over: "budget_of options < int (length (eligible_of messages))" by (simp add: n_def)
    have n0: "0 < n" using False by (auto simp: budget_of_def)
    from kept_indices_tiers [OF over] obtain us rs where t:
      "sorted k" "mset k = mset (anchors n (budget_of options) @ us @ rs)"
      "distinct (anchors n (budget_of options) @ us @ rs)" "set us \<union> set rs \<subseteq> {0..<n}"
      "length (anchors n (budget_of options) @ us @ rs) = min (nat (budget_of options)) n"
      unfolding n_def k_def by metis
    have "set k = set (anchors n (budget_of options) @ us @ rs)" using t(2) by (metis set_mset_mset)
    moreover have "distinct k" using t(2,3) by (metis mset_eq_imp_distinct_iff)
    moreover have "length k = length (anchors n (budget_of options) @ us @ rs)" using t(2) by (metis size_mset)
    ultimately show ?thesis
      using t(1,4,5) n0 anchors_facts(2) [OF n0, of "budget_of options"]
      by (auto simp: strict_sorted_iff)
  qed
  then show "sorted_wrt (<) k" "set k \<subseteq> {0..<n}" "length k = min (nat (budget_of options)) n" by blast+
qed

lemma subseq_nth:
  assumes "sorted_wrt (<) is" "set is \<subseteq> {0..<length xs}"
  shows "subseq (map (\<lambda>i. xs ! i) is) xs"
proof -
  have "filter (\<lambda>i. i \<in> set is) [0..<length xs] = is"
    using assms by (intro sorted_distinct_set_unique) (auto simp: strict_sorted_iff sorted_wrt_filter)
  then have "subseq is [0..<length xs]" by (metis subseq_filter_left)
  from subseq_map [OF this, of "(!) xs"] show ?thesis by (simp add: map_nth)
qed

section \<open>Lemmas on elisions\<close>

text \<open>The maximal runs of equal flags, and the elisions they call for.\<close>

fun segments :: "(bool \<times> selectable_message) list \<Rightarrow> (bool \<times> selectable_message list) list" where
  "segments [] = []"
| "segments ((b, m) # xs) =
     (case segments xs of
        (b', ms) # r \<Rightarrow> if b = b' then (b, m # ms) # r else (b, [m]) # (b', ms) # r
      | [] \<Rightarrow> [(b, [m])])"

fun segment_elisions ::
  "int option \<Rightarrow> (bool \<times> selectable_message list) list \<Rightarrow> selection_elision list" where
  "segment_elisions after [] = []"
| "segment_elisions after ((True, ms) # r) = segment_elisions (Some (sm_seq (last ms))) r"
| "segment_elisions after ((False, ms) # r) =
     \<lparr>el_after_seq = after, el_count = length ms, el_span = (sm_seq (hd ms), sm_seq (last ms))\<rparr>
     # segment_elisions after r"

text \<open>The same, while a run that started earlier is still open.\<close>

fun open_elisions ::
  "int option \<Rightarrow> nat \<Rightarrow> int \<Rightarrow> int \<Rightarrow> (bool \<times> selectable_message list) list \<Rightarrow> selection_elision list" where
  "open_elisions after len start_seq prev_seq ((False, ms) # r) =
     \<lparr>el_after_seq = after, el_count = len + length ms, el_span = (start_seq, sm_seq (last ms))\<rparr>
     # segment_elisions after r"
| "open_elisions after len start_seq prev_seq segs =
     \<lparr>el_after_seq = after, el_count = len, el_span = (start_seq, prev_seq)\<rparr>
     # segment_elisions after segs"

definition flag_from :: "nat list \<Rightarrow> nat \<Rightarrow> selectable_message list \<Rightarrow> (bool \<times> selectable_message) list" where
  "flag_from kept i ms = zip (map (\<lambda>j. j \<in> set kept) [i..<i + length ms]) ms"

lemma flag_from_simps [simp]:
  "flag_from kept i [] = []"
  "flag_from kept i (m # ms) = (i \<in> set kept, m) # flag_from kept (Suc i) ms"
  by (simp_all add: flag_from_def upt_conv_Cons del: upt_Suc)

lemma segments_nonempty: "(b, ms) \<in> set (segments xs) \<Longrightarrow> ms \<noteq> []"
  by (induction xs arbitrary: b ms rule: segments.induct)
    (auto split: list.split_asm prod.split_asm if_split_asm)

lemma segments_cases:
  obtains (Empty) "segments xs = []"
  | (Kept) ms r where "segments xs = (True, ms) # r" "ms \<noteq> []"
  | (Dropped) ms r where "segments xs = (False, ms) # r" "ms \<noteq> []"
proof (cases "segments xs")
  case (Cons s r)
  then show thesis
    using segments_nonempty [of "fst s" "snd s" xs] Kept Dropped by (cases s; cases "fst s") auto
qed (rule Empty)

lemma elision_loop_segments:
  "elision_loop kept i None after prev ms = segment_elisions after (segments (flag_from kept i ms)) \<and>
   (start < i \<longrightarrow> elision_loop kept i (Some (start, sq)) after prev ms =
     open_elisions after (i - start) sq prev (segments (flag_from kept i ms)))"
proof (induction ms arbitrary: i after prev start sq)
  case Nil
  show ?case by (simp add: push_run_def)
next
  case (Cons m ms)
  note IH1 = Cons.IH [THEN conjunct1] and IH2 = Cons.IH [THEN conjunct2, rule_format]
  show ?case
    by (cases rule: segments_cases [of "flag_from kept (Suc i) ms"]; cases "i \<in> set kept")
      (auto simp: push_run_def IH1 IH2 Suc_diff_le)
qed

lemma open_elisions_count:
  "sum_list (map el_count (open_elisions a l s p segs)) =
     l + sum_list (map el_count (segment_elisions a segs))"
  by (induction a l s p segs rule: open_elisions.induct) simp_all

lemma segment_elisions_count:
  "sum_list (map el_count (segment_elisions a (segments xs))) = length (filter (\<lambda>x. \<not> fst x) xs)"
proof (induction xs arbitrary: a rule: segments.induct)
  case (2 b m xs)
  show ?case
    using 2 [of a] 2 [of "Some (sm_seq m)"]
    by (cases rule: segments_cases [of xs]; cases b) auto
qed simp

lemma length_filter_kept:
  assumes "set k \<subseteq> {0..<length e}" "distinct k"
  shows "length (filter P (map (\<lambda>i. e ! i) k)) = card {i \<in> set k. P (e ! i)}"
proof -
  have "length (filter P (map (\<lambda>i. e ! i) k)) = length (filter (\<lambda>i. P (e ! i)) k)"
    by (simp add: filter_map comp_def)
  also have "\<dots> = card (set (filter (\<lambda>i. P (e ! i)) k))"
    by (rule distinct_card [symmetric]) (simp add: assms(2))
  finally show ?thesis by simp
qed

lemma flags_dropped:
  assumes "sorted_wrt (<) k" "set k \<subseteq> {0..<length e}"
  shows "length (filter (\<lambda>x. \<not> fst x) (flag_from k 0 e)) + length k = length e"
proof -
  have "length (filter (\<lambda>x. \<not> fst x) (flag_from k 0 e)) =
      length (filter (\<lambda>x. \<not> x) (map fst (flag_from k 0 e)))"
    by (simp add: filter_map comp_def)
  also have "map fst (flag_from k 0 e) = map (\<lambda>j. j \<in> set k) [0..<length e]"
    by (simp add: flag_from_def)
  also have "length (filter (\<lambda>x. \<not> x) \<dots>) = card ({0..<length e} - set k)"
    by (simp add: filter_map comp_def flip: distinct_card)
      (rule arg_cong [where f = card]; auto)
  also have "\<dots> = length e - length k"
    using assms by (simp add: card_Diff_subset strict_sorted_iff distinct_card)
  moreover have "length k \<le> length e"
    using card_mono [OF _ assms(2)] assms(1) by (simp add: strict_sorted_iff distinct_card)
  ultimately show ?thesis by simp
qed

section \<open>Properties\<close>

text \<open>
  A selection has exactly as many messages as the budget and the transcript allow, they are
  non-system messages in chronological order (a subsequence of the transcript sorted by seq), and
  the reported elisions account for every message left out.
\<close>

theorem select_fills_budget:
  "let r = exchange_clustered_select messages options; e = eligible_of messages
   in length (sr_selected r) = min (nat (budget_of options)) (length e) \<and>
      subseq (sr_selected r) e \<and>
      sum_list (map el_count (sr_elisions r)) + length (sr_selected r) = length e"
proof -
  define k where "k = kept_indices messages options"
  define e where "e = eligible_of messages"
  note kf = kept_indices_facts [of messages options, folded k_def e_def]
  have "sum_list (map el_count (build_elisions e k)) + length k = length e"
    using flags_dropped [OF kf(1,2)] segment_elisions_count [of None "flag_from k 0 e"]
    by (simp add: build_elisions_def elision_loop_segments [THEN conjunct1])
  with kf show ?thesis
    unfolding select_kept k_def [symmetric] e_def [symmetric]
    by (simp add: finish_selection_def Let_def subseq_nth)
qed

text \<open>
  The run-length loop of \<open>buildElisions\<close> reports exactly the maximal runs of dropped
  messages: each with its length, the seqs of its first and last message, and the seq of the
  message kept just before it, if there is one.
\<close>

theorem build_elisions_runs:
  "build_elisions eligible kept_idx =
     segment_elisions None (segments (flag_from kept_idx 0 eligible))"
  by (simp add: build_elisions_def elision_loop_segments [THEN conjunct1])

text \<open>
  User messages are never dropped while there is budget for anything else: either every user
  message is selected, or at most two selected messages (the first and the last of the transcript)
  are not a user's.
\<close>

theorem select_keeps_users:
  "let r = exchange_clustered_select messages options; st = sr_stats r
   in ss_user_kept st = length (filter (\<lambda>m. sm_role m = User) (eligible_of messages)) \<or>
      length (filter (\<lambda>m. sm_role m \<noteq> User) (sr_selected r)) \<le> 2"
proof -
  define k where "k = kept_indices messages options"
  define e where "e = eligible_of messages"
  define U where "U = (\<lambda>m :: selectable_message. sm_role m = User)"
  note kf = kept_indices_facts [of messages options, folded k_def e_def]
  have dk: "distinct k" using kf(1) by (simp add: strict_sorted_iff)
  note count = length_filter_kept [OF kf(2) dk]
  have "card {i \<in> set k. U (e ! i)} = card {i. i < length e \<and> U (e ! i)} \<or>
        card {i \<in> set k. \<not> U (e ! i)} \<le> 2"
  proof (cases "\<forall>i < length e. U (e ! i) \<longrightarrow> i \<in> set k")
    case True
    then have "{i \<in> set k. U (e ! i)} = {i. i < length e \<and> U (e ! i)}" using kf(2) by auto
    then show ?thesis by simp
  next
    case False
    then have over: "budget_of options < int (length e)"
      by (auto simp: k_def e_def kept_indices_def Let_def split: if_split_asm)
    then have n: "0 < length e" by (auto simp: budget_of_def)
    obtain us rs where t: "mset k = mset (anchors (length e) (budget_of options) @ us @ rs)"
      "\<forall>i \<in> set us. U (e ! i)"
      "rs = [] \<or> (\<forall>i < length e. U (e ! i) \<longrightarrow> i \<in> set (anchors (length e) (budget_of options) @ us))"
      using kept_indices_tiers [OF over [unfolded e_def]] unfolding U_def k_def e_def by metis
    have sk: "set k = set (anchors (length e) (budget_of options) @ us @ rs)"
      using t(1) by (metis set_mset_mset)
    then have "rs = []" using t(3) False by auto
    then have "{i \<in> set k. \<not> U (e ! i)} \<subseteq> {0, length e - 1}"
      using sk t(2) anchors_facts(2) [OF n, of "budget_of options"] by auto
    then have "card {i \<in> set k. \<not> U (e ! i)} \<le> card {0, length e - 1}" by (intro card_mono) auto
    also have "\<dots> \<le> 2" by (simp add: card_insert_if)
    finally show ?thesis by simp
  qed
  then have "length (filter U (map (\<lambda>i. e ! i) k)) = length (filter U e) \<or>
      length (filter (\<lambda>m. \<not> U m) (map (\<lambda>i. e ! i) k)) \<le> 2"
    by (simp only: count length_filter_conv_card [of _ e])
  then show ?thesis
    unfolding select_kept k_def [symmetric] e_def [symmetric]
    by (simp add: finish_selection_def Let_def U_def)
qed

text \<open>
  With a budget of two or more, the opening message, which states the mission, and the
  closing message, which states where the work stands, survive every selection, as its first and
  last message.
\<close>

theorem select_keeps_ends:
  assumes "2 \<le> budget_of options" "eligible_of messages \<noteq> []"
  shows "let s = sr_selected (exchange_clustered_select messages options)
         in hd s = hd (eligible_of messages) \<and> last s = last (eligible_of messages)"
proof -
  define k where "k = kept_indices messages options"
  define e where "e = eligible_of messages"
  note kf = kept_indices_facts [of messages options, folded k_def e_def]
  have n: "0 < length e" using assms(2) by (simp add: e_def)
  have ends: "0 \<in> set k \<and> length e - 1 \<in> set k"
  proof (cases "budget_of options < int (length e)")
    case True
    then obtain us rs where "mset k = mset (anchors (length e) (budget_of options) @ us @ rs)"
      using kept_indices_tiers unfolding k_def e_def by metis
    then have "set k = set (anchors (length e) (budget_of options) @ us @ rs)" by (metis set_mset_mset)
    then show ?thesis using anchors_facts(4,5) [OF n, of "budget_of options"] assms(1) by auto
  next
    case False
    then show ?thesis using n by (simp add: k_def e_def kept_indices_def Let_def)
  qed
  then have ne: "k \<noteq> []" by auto
  have "sorted k" "distinct k" using kf(1) by (simp_all add: strict_sorted_iff)
  have "hd k = 0"
    using ends ne \<open>sorted k\<close> by (cases k) auto
  moreover have "last k = length e - 1"
  proof (rule antisym)
    show "last k \<le> length e - 1" using last_in_set [OF ne] kf(2) by fastforce
    obtain i where i: "i < length k" "k ! i = length e - 1" using ends by (metis in_set_conv_nth)
    show "length e - 1 \<le> last k"
      using sorted_nth_mono [OF \<open>sorted k\<close>, of i "length k - 1"] i ne by (simp add: last_conv_nth)
  qed
  ultimately show ?thesis
    unfolding select_kept k_def [symmetric] e_def [symmetric]
    using ne n by (simp add: finish_selection_def Let_def hd_map last_map hd_conv_nth last_conv_nth)
qed

definition example_transcript :: "selectable_message list" where
  "example_transcript =
     [\<lparr>sm_seq = 3, sm_role = Assistant, sm_text = ''done''\<rparr>,
      \<lparr>sm_seq = 1, sm_role = User, sm_text = ''start''\<rparr>,
      \<lparr>sm_seq = 2, sm_role = System, sm_text = ''tick''\<rparr>,
      \<lparr>sm_seq = 5, sm_role = Assistant, sm_text = ''report''\<rparr>,
      \<lparr>sm_seq = 4, sm_role = Assistant, sm_text = ''noise''\<rparr>]"

definition example_options :: selection_options where
  "example_options = \<lparr>so_budget = Some 2, so_head_fraction = None, so_exchange_window = None\<rparr>"

lemma eligible_example:
  "eligible_of example_transcript =
     [\<lparr>sm_seq = 1, sm_role = User, sm_text = ''start''\<rparr>,
      \<lparr>sm_seq = 3, sm_role = Assistant, sm_text = ''done''\<rparr>,
      \<lparr>sm_seq = 4, sm_role = Assistant, sm_text = ''noise''\<rparr>,
      \<lparr>sm_seq = 5, sm_role = Assistant, sm_text = ''report''\<rparr>]"
  by (simp add: eligible_of_def example_transcript_def)

theorem select_keeps_ends_witness:
  "let s = sr_selected (exchange_clustered_select example_transcript example_options)
   in sm_text (hd s) = ''start'' \<and> sm_text (last s) = ''report''"
  using select_keeps_ends [of example_options example_transcript]
  by (simp add: eligible_example budget_of_def example_options_def Let_def)

end
