(* ===== verification/SnapshotProtocol.thy ===== *)
theory SnapshotProtocol
  imports Prelude
begin

text \<open>
  \<open>packages/sdk/src/snapshot-protocol.ts\<close>, with the readiness check of \<open>session-store.ts\<close>: the
  values of the versioned snapshot contract, and the protocol files a worker keeps in a session
  directory (the version marker, the in-progress sentinel, the turn-commit file).

  A session directory is a record: the files the agent runtime keeps there (relative path to
  directory or file content), and the three protocol files. A protocol file is present or not, and
  present it parses (\<open>Json_ok\<close>) or does not (\<open>Json_bad\<close>). A directory that does not exist is
  \<open>None\<close>.
\<close>

section \<open>The contract's values\<close>

record snapshot_marker =
  mk_version :: int
  mk_turn_key :: "string option"
  mk_content_hash :: "string option"
  mk_epoch :: "int option"
  mk_updated_at :: string

record turn_sentinel =
  ts_turn_key :: "string option"
  ts_started_at :: string

record snapshot_probe =
  pr_exists :: bool
  pr_version :: int
  pr_turn_key :: "string option"
  pr_content_hash :: "string option"
  pr_size_bytes :: "int option"
  pr_raw_size_bytes :: "int option"
  pr_legacy :: bool

record snapshot_commit_input =
  ci_base_version :: int
  ci_turn_key :: string

record snapshot_commit_result =
  cr_version :: int
  cr_content_hash :: string
  cr_size_bytes :: "int option"
  cr_raw_size_bytes :: "int option"
  cr_already_committed :: bool

record snapshot_hydrate_result =
  hr_version :: int
  hr_turn_key :: "string option"
  hr_content_hash :: "string option"
  hr_size_bytes :: "int option"
  hr_raw_size_bytes :: "int option"
  hr_legacy :: bool

text \<open>What a store operation throws: the conflict error of the contract, or any other error.\<close>

datatype store_error =
    Snapshot_conflict_error string int int "string option"
  | Store_error string

text \<open>\<open>!epoch || epoch <= 0\<close>\<close>

definition is_legacy_epoch :: "int option \<Rightarrow> bool" where
  "is_legacy_epoch epoch = (case epoch of None \<Rightarrow> True | Some e \<Rightarrow> e \<le> 0)"

section \<open>The session directory\<close>

datatype node = Dir | File string

datatype 'a json_file = Json_ok 'a | Json_bad

record session_dir =
  sd_entries :: "(string \<times> node) list"
  sd_commit :: "(string \<times> jsval) json_file option"
  sd_marker :: "snapshot_marker json_file option"
  sd_sentinel :: "turn_sentinel json_file option"

definition empty_dir :: session_dir where
  "empty_dir = \<lparr>sd_entries = [], sd_commit = None, sd_marker = None, sd_sentinel = None\<rparr>"

definition mkdir_p :: "session_dir option \<Rightarrow> session_dir" where
  "mkdir_p d = coalesce d empty_dir"

definition read_snapshot_marker :: "session_dir option \<Rightarrow> snapshot_marker option" where
  "read_snapshot_marker d = (case d of
       Some x \<Rightarrow> (case sd_marker x of Some (Json_ok m) \<Rightarrow> Some m | _ \<Rightarrow> None)
     | None \<Rightarrow> None)"

definition write_snapshot_marker ::
  "string \<Rightarrow> snapshot_marker \<Rightarrow> session_dir option \<Rightarrow> session_dir option" where
  "write_snapshot_marker now marker d =
     Some ((mkdir_p d)\<lparr>sd_marker := Some (Json_ok (marker\<lparr>mk_updated_at := now\<rparr>))\<rparr>)"

definition read_turn_sentinel :: "session_dir option \<Rightarrow> turn_sentinel option" where
  "read_turn_sentinel d = (case d of
       Some x \<Rightarrow>
         (case sd_sentinel x of
            Some (Json_ok s) \<Rightarrow> Some s
          | Some Json_bad \<Rightarrow> Some \<lparr>ts_turn_key = None, ts_started_at = []\<rparr>
          | None \<Rightarrow> None)
     | None \<Rightarrow> None)"

definition write_turn_sentinel ::
  "string \<Rightarrow> string option \<Rightarrow> session_dir option \<Rightarrow> session_dir option" where
  "write_turn_sentinel now turn_key d =
     Some ((mkdir_p d)\<lparr>sd_sentinel :=
       Some (Json_ok \<lparr>ts_turn_key = if_truthy turn_key, ts_started_at = now\<rparr>)\<rparr>)"

definition clear_turn_sentinel :: "session_dir option \<Rightarrow> session_dir option" where
  "clear_turn_sentinel d = map_option (\<lambda>x. x\<lparr>sd_sentinel := None\<rparr>) d"

text \<open>
  What \<open>JSON.parse(JSON.stringify(v))\<close> is: a property that is undefined is dropped, an undefined array
  element and a number that is not finite become \<open>null\<close>. An undefined \<open>v\<close> that is itself a property
  is dropped by the object that holds it and reads as undefined again.
\<close>

fun json_copy :: "jsval \<Rightarrow> jsval" where
  "json_copy JNaN = JNull"
| "json_copy (JInf b) = JNull"
| "json_copy (JArr xs) = JArr (map (\<lambda>x. if x = JUndef then JNull else json_copy x) xs)"
| "json_copy (JObj kvs) = JObj (map (\<lambda>(k, v). (k, json_copy v)) (filter (\<lambda>(k, v). v \<noteq> JUndef) kvs))"
| "json_copy v = v"

text \<open>The values \<open>JSON\<close> can write.\<close>

fun json_value :: "jsval \<Rightarrow> bool" where
  "json_value JUndef \<longleftrightarrow> False"
| "json_value JNaN \<longleftrightarrow> False"
| "json_value (JInf b) \<longleftrightarrow> False"
| "json_value (JArr xs) \<longleftrightarrow> list_all json_value xs"
| "json_value (JObj kvs) \<longleftrightarrow> list_all (\<lambda>(k, v). json_value v) kvs"
| "json_value v \<longleftrightarrow> True"

lemma json_copy_defined [simp]: "json_copy v = JUndef \<longleftrightarrow> v = JUndef"
  by (cases v) simp_all

lemma json_copy_value: "json_value v \<Longrightarrow> json_copy v = v"
proof (induction v rule: json_copy.induct)
  case (3 xs)
  then show ?case by (force simp: list_all_iff intro!: map_idI)
next
  case (4 kvs)
  have "filter (\<lambda>(k, v). v \<noteq> JUndef) kvs = kvs"
    using 4(2) by (auto simp: list_all_iff filter_id_conv)
  moreover have "map (\<lambda>(k, v). (k, json_copy v)) kvs = kvs"
    using 4 by (force simp: list_all_iff intro!: map_idI)
  ultimately show ?case by simp
qed simp_all

lemma json_copy_writable: "v \<noteq> JUndef \<Longrightarrow> json_value (json_copy v)"
  by (induction v rule: json_copy.induct) (auto simp: list_all_iff)

text \<open>The commit file is written without creating the directory, so a missing one is an error.\<close>

definition write_turn_commit_file ::
  "string \<Rightarrow> jsval \<Rightarrow> session_dir option \<Rightarrow> store_error + session_dir" where
  "write_turn_commit_file turn_key result d = (case d of
       Some x \<Rightarrow> Inr (x\<lparr>sd_commit := Some (Json_ok (turn_key, json_copy result))\<rparr>)
     | None \<Rightarrow> Inl (Store_error ''ENOENT''))"

definition read_turn_commit_file :: "session_dir option \<Rightarrow> (string \<times> jsval) option" where
  "read_turn_commit_file d = (case d of
       Some x \<Rightarrow> (case sd_commit x of Some (Json_ok c) \<Rightarrow> Some c | _ \<Rightarrow> None)
     | None \<Rightarrow> None)"

section \<open>Readiness\<close>

definition last_component :: "string \<Rightarrow> string" where
  "last_component p = last (split_on CHR ''/'' p)"

text \<open>\<open>/^inuse\..+\.lock$/i\<close>\<close>

definition is_ignored_session_entry :: "string \<Rightarrow> bool" where
  "is_ignored_session_entry relative_path =
     (let b = to_lower (last_component relative_path)
      in starts_with ''inuse.'' b \<and> ends_with ''.lock'' b \<and> 12 \<le> length b \<and>
         CHR 0x0A \<notin> set b \<and> CHR 0x0D \<notin> set b)"

definition signal_files :: "string list" where
  "signal_files = [''workspace.yaml'', ''session.db'', ''session.db-wal'', ''session.db-shm'', ''events.jsonl'']"

definition signal_dirs :: "string list" where
  "signal_dirs = [''checkpoints'', ''files'', ''research'']"

definition entry_signals :: "string \<times> node \<Rightarrow> bool" where
  "entry_signals e =
     (let rel = hd (split_on CHR '':'' (fst e))
      in rel \<noteq> [] \<and>
         (snd e \<noteq> Dir \<and> rel \<in> set signal_files \<or> snd e = Dir \<and> rel \<in> set signal_dirs \<or>
          hd (split_on CHR ''/'' rel) \<in> set signal_dirs))"

definition dir_has :: "session_dir \<Rightarrow> string \<Rightarrow> bool" where
  "dir_has d name \<longleftrightarrow> map_of (sd_entries d) name \<noteq> None"

definition check_session_snapshot :: "session_dir option \<Rightarrow> bool" where
  "check_session_snapshot d = (case d of
       None \<Rightarrow> False
     | Some x \<Rightarrow>
         if dir_has x ''workspace.yaml''
         then list_ex entry_signals (filter (\<lambda>e. \<not> is_ignored_session_entry (fst e)) (sd_entries x))
         else dir_has x ''events.jsonl'' \<and> dir_has x ''workspace.yaml'')"

section \<open>What a snapshot holds\<close>

text \<open>
  The tar leaves out the lock files, the marker and the sentinel (\<open>TAR_EXCLUDES\<close>, matched against
  every component of a path), and keeps the commit file. Unpacking gives a directory with neither
  marker nor sentinel.
\<close>

definition tar_excludes_name :: "string \<Rightarrow> bool" where
  "tar_excludes_name c \<longleftrightarrow>
     starts_with ''inuse.'' c \<and> ends_with ''.lock'' c \<and> 11 \<le> length c \<or>
     starts_with ''.ps-snapshot-version'' c \<or> starts_with ''.ps-turn-inprogress'' c"

definition tar_excluded :: "string \<Rightarrow> bool" where
  "tar_excluded p \<longleftrightarrow> list_ex tar_excludes_name (split_on CHR ''/'' p)"

record archived =
  ar_entries :: "(string \<times> node) list"
  ar_commit :: "(string \<times> jsval) json_file option"

definition archive_of :: "session_dir \<Rightarrow> archived" where
  "archive_of d =
     \<lparr>ar_entries = filter (\<lambda>e. \<not> tar_excluded (fst e)) (sd_entries d),
      ar_commit = sd_commit d\<rparr>"

definition unpack :: "archived \<Rightarrow> session_dir" where
  "unpack a = \<lparr>sd_entries = ar_entries a, sd_commit = ar_commit a, sd_marker = None, sd_sentinel = None\<rparr>"

lemma unpack_simps [simp]:
  "sd_marker (unpack a) = None" "sd_sentinel (unpack a) = None" "sd_commit (unpack a) = ar_commit a"
  by (simp_all add: unpack_def)

lemma archive_of_unpack: "archive_of (unpack (archive_of d)) = archive_of d"
  by (simp add: archive_of_def unpack_def)

lemma archive_of_updates [simp]:
  "archive_of (d\<lparr>sd_marker := m\<rparr>) = archive_of d" "archive_of (d\<lparr>sd_sentinel := s\<rparr>) = archive_of d"
  by (simp_all add: archive_of_def)

lemmas protocol_file_defs =
  read_snapshot_marker_def write_snapshot_marker_def read_turn_sentinel_def write_turn_sentinel_def
  clear_turn_sentinel_def write_turn_commit_file_def read_turn_commit_file_def mkdir_p_def

lemma map_of_archive:
  "map_of (sd_entries (unpack (archive_of d))) name =
     (if tar_excluded name then None else map_of (sd_entries d) name)"
proof -
  have "map_of (filter (\<lambda>e. \<not> tar_excluded (fst e)) xs) name =
      (if tar_excluded name then None else map_of xs name)" for xs :: "(string \<times> node) list"
    by (induction xs) auto
  then show ?thesis by (simp add: unpack_def archive_of_def)
qed

lemma workspace_not_excluded: "\<not> tar_excluded ''workspace.yaml''"
  by code_simp

lemma dir_has_unpack: "dir_has (unpack (archive_of d)) ''workspace.yaml'' = dir_has d ''workspace.yaml''"
  by (simp add: dir_has_def map_of_archive workspace_not_excluded)

lemma ready_has_workspace: "check_session_snapshot (Some d) \<Longrightarrow> dir_has d ''workspace.yaml''"
  by (auto simp: check_session_snapshot_def split: if_split_asm)

text \<open>
  A packed and unpacked session directory holds every file of the original but the lock and
  protocol files, keeps the committed turn's result, and never carries the marker or the sentinel
  of the worker that packed it; packing it again gives the same archive.
\<close>

theorem snapshot_roundtrip:
  "let d' = unpack (archive_of d)
   in map_of (sd_entries d') name = (if tar_excluded name then None else map_of (sd_entries d) name) \<and>
      read_turn_commit_file (Some d') = read_turn_commit_file (Some d) \<and>
      read_snapshot_marker (Some d') = None \<and> read_turn_sentinel (Some d') = None \<and>
      archive_of d' = archive_of d"
  by (simp add: map_of_archive archive_of_unpack protocol_file_defs) (simp add: archive_of_def)

section \<open>The store contract\<close>

text \<open>\<open>VersionedSnapshotStore\<close>: the operations of a store, on a state of its own.\<close>

record 'st versioned_snapshot_store =
  vs_probe_snapshot :: "'st \<Rightarrow> string \<Rightarrow> int option \<Rightarrow> store_error + snapshot_probe"
  vs_commit_snapshot ::
    "'st \<Rightarrow> session_dir option \<Rightarrow> string \<Rightarrow> snapshot_commit_input \<Rightarrow> int option \<Rightarrow>
     (store_error + snapshot_commit_result) \<times> 'st"
  vs_hydrate_snapshot ::
    "'st \<Rightarrow> session_dir option \<Rightarrow> string \<Rightarrow> int option \<Rightarrow>
     (store_error + snapshot_hydrate_result) \<times> session_dir option"

text \<open>The abstract value of a chain: nothing, or its last committed snapshot.\<close>

record chain_head =
  ch_version :: int
  ch_turn_key :: "string option"
  ch_content_hash :: "string option"
  ch_content :: archived

definition probe_matches :: "snapshot_probe \<Rightarrow> chain_head option \<Rightarrow> bool" where
  "probe_matches p h \<longleftrightarrow>
     (case h of
        None \<Rightarrow> \<not> pr_exists p
      | Some c \<Rightarrow> pr_exists p \<and> pr_version p = ch_version c \<and> pr_turn_key p = ch_turn_key c \<and>
                  pr_content_hash p = ch_content_hash c \<and> (pr_legacy p \<longleftrightarrow> ch_version c < 1))"

definition hydrated_from :: "snapshot_hydrate_result \<Rightarrow> session_dir option \<Rightarrow> chain_head \<Rightarrow> bool" where
  "hydrated_from r d c \<longleftrightarrow>
     d = Some (unpack (ch_content c)) \<and> hr_version r = ch_version c \<and>
     hr_turn_key r = ch_turn_key c \<and> hr_content_hash r = ch_content_hash c"

text \<open>
  The compare-and-swap contract, on one session and epoch. A store promises it on its valid
  states (\<open>ok\<close>), relative to the chain's head: the probe reads the head; hydrating restores it and
  an error leaves the directory alone; a commit that writes moves the head from \<open>baseVersion\<close> to
  \<open>baseVersion + 1\<close> and to the packed directory; a commit that reports \<open>alreadyCommitted\<close> found its
  own turn key there; an error changes nothing.
\<close>

locale versioned_store =
  fixes S :: "'st versioned_snapshot_store"
    and ok :: "'st \<Rightarrow> bool"
    and head :: "'st \<Rightarrow> chain_head option"
    and sid :: string
    and epoch :: "int option"
  assumes probe_head:
      "ok st \<Longrightarrow> vs_probe_snapshot S st sid epoch = Inr p \<Longrightarrow> probe_matches p (head st)"
    and hydrate_head:
      "ok st \<Longrightarrow> vs_hydrate_snapshot S st d sid epoch = (Inr r, d') \<Longrightarrow>
       \<exists>h. head st = Some h \<and> hydrated_from r d' h"
    and hydrate_error: "vs_hydrate_snapshot S st d sid epoch = (Inl e, d') \<Longrightarrow> d' = d"
    and commit_error:
      "ok st \<Longrightarrow> vs_commit_snapshot S st d sid input epoch = (Inl e, st') \<Longrightarrow>
       ok st' \<and> head st' = head st"
    and commit_already:
      "ok st \<Longrightarrow> vs_commit_snapshot S st d sid input epoch = (Inr c, st') \<Longrightarrow>
       cr_already_committed c \<Longrightarrow>
       ok st' \<and> head st' = head st \<and> cr_version c = ci_base_version input + 1 \<and>
       (\<exists>h. head st = Some h \<and> ch_version h = cr_version c \<and>
            ch_turn_key h = Some (ci_turn_key input))"
    and commit_written:
      "ok st \<Longrightarrow> ci_turn_key input \<noteq> [] \<Longrightarrow> 0 \<le> ci_base_version input \<Longrightarrow>
       vs_commit_snapshot S st d sid input epoch = (Inr c, st') \<Longrightarrow> \<not> cr_already_committed c \<Longrightarrow>
       ok st' \<and> check_session_snapshot d \<and> cr_version c = ci_base_version input + 1 \<and>
       (case head st of None \<Rightarrow> True | Some h \<Rightarrow> ch_version h = ci_base_version input) \<and>
       cr_content_hash c \<noteq> [] \<and>
       head st' = Some \<lparr>ch_version = cr_version c, ch_turn_key = Some (ci_turn_key input),
         ch_content_hash = Some (cr_content_hash c), ch_content = archive_of (the d)\<rparr>"
begin

text \<open>Whatever a commit answers, the chain stays valid and its version never moves back.\<close>

lemma commit_ok:
  assumes "ok st" "ci_turn_key input \<noteq> []" "0 \<le> ci_base_version input"
    and "vs_commit_snapshot S st d sid input epoch = (r, st')"
  shows "ok st'"
proof (cases r)
  case (Inl e) then show ?thesis using assms commit_error by blast
next
  case (Inr c)
  then show ?thesis
    using assms commit_already commit_written by (cases "cr_already_committed c") blast+
qed

lemma commit_version_mono:
  assumes "ok st" "ci_turn_key input \<noteq> []" "0 \<le> ci_base_version input"
    and "vs_commit_snapshot S st d sid input epoch = (r, st')"
    and "head st = Some h"
  shows "\<exists>h'. head st' = Some h' \<and> ch_version h \<le> ch_version h'"
proof (cases r)
  case (Inl e) then show ?thesis using assms commit_error by fastforce
next
  case (Inr c)
  show ?thesis
  proof (cases "cr_already_committed c")
    case True then show ?thesis using assms Inr commit_already by fastforce
  next
    case False then show ?thesis using assms Inr commit_written [of st input d c st'] by auto
  qed
qed

end

end
