(* ===== verification/SnapshotStore.thy ===== *)
theory SnapshotStore
  imports SnapshotProtocol
begin

text \<open>
  The filesystem snapshot store, \<open>FilesystemSessionStore\<close> of \<open>packages/sdk/src/session-store.ts\<close>.

  The store directory maps file names to contents: a tar, or a meta file. \<open>JSON\<close> of a meta file is
  its record; \<open>dehydratedAt\<close> and \<open>worker\<close>, which no operation reads, are left out. Staging files
  have names of their own that no reader accepts, so a staged tar is a value its writer holds.
  The tar and compression programs, the hash and the file sizes are a parameter, \<open>archiver\<close>; the
  laws the proofs need of it (unpacking undoes packing, a hash is not the empty string) are
  \<open>archiver_ok\<close>.

  A commit is written as its three effects, in order: the tar rename, the meta rename (the commit
  point) and the removal of the superseded tar; the theory \<open>SnapshotCluster\<close> interleaves them.
  \<open>commit_snapshot_at\<close> and \<open>hydrate_snapshot_at\<close> run with a given operation of the file system failing
  (\<open>commit_fault\<close>, \<open>hydrate_fault\<close>); \<open>commit_snapshot\<close> and \<open>hydrate_snapshot\<close> are the runs with none.
\<close>

section \<open>Files and the outside programs\<close>

datatype snapshot_codec = Gzip | Brotli

definition default_snapshot_codec :: snapshot_codec where
  "default_snapshot_codec = Brotli"

definition resolve_snapshot_codec :: "string option \<Rightarrow> snapshot_codec" where
  "resolve_snapshot_codec v = (if v = Some ''brotli'' then Brotli else Gzip)"

definition codec_name :: "snapshot_codec \<Rightarrow> string" where
  "codec_name c = (case c of Brotli \<Rightarrow> ''brotli'' | Gzip \<Rightarrow> ''gzip'')"

datatype unpacked = Extract_failed | No_session_directory | Unpacked archived

record 'b archiver =
  av_pack :: "snapshot_codec \<Rightarrow> archived \<Rightarrow> 'b"
  av_unpack :: "snapshot_codec \<Rightarrow> 'b \<Rightarrow> unpacked"
  av_sha :: "'b \<Rightarrow> string"
  av_size :: "'b \<Rightarrow> int"
  av_raw_size :: "archived \<Rightarrow> int"

definition archiver_ok :: "'b archiver \<Rightarrow> bool" where
  "archiver_ok A \<longleftrightarrow> (\<forall>c a. av_unpack A c (av_pack A c a) = Unpacked a) \<and> (\<forall>b. av_sha A b \<noteq> [])"

record session_meta =
  me_session_id :: string
  me_size_bytes :: "int option"
  me_reason :: "string option"
  me_version :: "int option"
  me_turn_key :: "string option"
  me_content_hash :: "string option"
  me_codec :: "string option"
  me_raw_size_bytes :: "int option"
  me_tar_file :: "string option"
  me_epoch :: "int option"

datatype 'b store_file = Tar 'b | Meta session_meta | Unreadable

type_synonym 'b store_files = "string \<Rightarrow> 'b store_file option"

section \<open>Names\<close>

definition tar_file_name :: "string \<Rightarrow> string" where
  "tar_file_name sid = sid @ ''.tar.gz''"

definition versioned_tar_file_name :: "string \<Rightarrow> int \<Rightarrow> snapshot_codec \<Rightarrow> string" where
  "versioned_tar_file_name sid version codec =
     sid @ ''.v'' @ show_int version @ (case codec of Brotli \<Rightarrow> ''.tar.br'' | Gzip \<Rightarrow> ''.tar.gz'')"

definition meta_file_name :: "string \<Rightarrow> string" where
  "meta_file_name sid = sid @ ''.meta.json''"

definition epoch_versioned_tar_file_name :: "string \<Rightarrow> int \<Rightarrow> int \<Rightarrow> string" where
  "epoch_versioned_tar_file_name sid epoch version =
     sid @ ''.e'' @ show_int epoch @ ''.v'' @ show_int version @ ''.tar.br''"

definition epoch_meta_file_name :: "string \<Rightarrow> int \<Rightarrow> string" where
  "epoch_meta_file_name sid epoch = sid @ ''.e'' @ show_int epoch @ ''.meta.json''"

definition meta_path :: "string \<Rightarrow> int option \<Rightarrow> string" where
  "meta_path sid epoch =
     (if is_legacy_epoch epoch then meta_file_name sid else epoch_meta_file_name sid (the epoch))"

datatype epoch_name_kind = Kind_tar | Kind_meta

record epoch_name =
  en_epoch :: nat
  en_version :: "nat option"
  en_kind :: epoch_name_kind

definition parse_epoch_snapshot_name :: "string \<Rightarrow> string \<Rightarrow> epoch_name option" where
  "parse_epoch_snapshot_name sid name =
     (if \<not> starts_with (sid @ ''.e'') name then None
      else
        let rest = drop (length sid + 2) name;
            ds = takeWhile is_digit rest; r = dropWhile is_digit rest;
            vs = takeWhile is_digit (drop 2 r); r2 = dropWhile is_digit (drop 2 r)
        in if ds = [] then None
           else if r = ''.tar.br'' then
             Some \<lparr>en_epoch = digits_val 0 ds, en_version = None, en_kind = Kind_tar\<rparr>
           else if starts_with ''.v'' r \<and> vs \<noteq> [] \<and> r2 = ''.tar.br'' then
             Some \<lparr>en_epoch = digits_val 0 ds, en_version = Some (digits_val 0 vs), en_kind = Kind_tar\<rparr>
           else if r = ''.meta.json'' then
             Some \<lparr>en_epoch = digits_val 0 ds, en_version = None, en_kind = Kind_meta\<rparr>
           else None)"

section \<open>Probe\<close>

definition read_stored_meta :: "'b store_files \<Rightarrow> string \<Rightarrow> int option \<Rightarrow> session_meta option" where
  "read_stored_meta st sid epoch =
     (case st (meta_path sid epoch) of Some (Meta m) \<Rightarrow> Some m | _ \<Rightarrow> None)"

definition stored_codec :: "session_meta option \<Rightarrow> snapshot_codec" where
  "stored_codec meta =
     (case meta of
        None \<Rightarrow> Gzip
      | Some m \<Rightarrow>
          if truthy_str (me_codec m) then resolve_snapshot_codec (me_codec m)
          else if ends_with ''.tar.br'' (coalesce (me_tar_file m) []) then Brotli else Gzip)"

definition current_tar_path :: "string \<Rightarrow> session_meta option \<Rightarrow> string" where
  "current_tar_path sid meta =
     (case meta of
        Some m \<Rightarrow> if truthy_str (me_tar_file m) then last_component (the (me_tar_file m)) else tar_file_name sid
      | None \<Rightarrow> tar_file_name sid)"

definition absent_probe :: snapshot_probe where
  "absent_probe = \<lparr>pr_exists = False, pr_version = 0, pr_turn_key = None, pr_content_hash = None,
     pr_size_bytes = None, pr_raw_size_bytes = None, pr_legacy = False\<rparr>"

definition version_below_1 :: "session_meta \<Rightarrow> bool" where
  "version_below_1 m = (case me_version m of None \<Rightarrow> True | Some v \<Rightarrow> v < 1)"

text \<open>The probe and the meta it was read from (\<open>None\<close> also when the code returns \<open>meta: null\<close>).\<close>

definition probe_unlocked ::
  "'b store_files \<Rightarrow> string \<Rightarrow> int option \<Rightarrow> snapshot_probe \<times> session_meta option" where
  "probe_unlocked st sid epoch =
     (let meta = read_stored_meta st sid epoch
      in if \<not> is_legacy_epoch epoch \<and>
            (case meta of None \<Rightarrow> True | Some m \<Rightarrow> \<not> truthy_str (me_tar_file m) \<or> version_below_1 m)
         then (absent_probe, None)
         else if st (current_tar_path sid meta) = None then (absent_probe, None)
         else case meta of
           None \<Rightarrow> (absent_probe\<lparr>pr_exists := True, pr_legacy := True\<rparr>, None)
         | Some m \<Rightarrow>
             if version_below_1 m
             then (absent_probe\<lparr>pr_exists := True, pr_legacy := True\<rparr>, Some m)
             else (\<lparr>pr_exists = True, pr_version = the (me_version m),
                    pr_turn_key = if_truthy (me_turn_key m),
                    pr_content_hash = if_truthy (me_content_hash m),
                    pr_size_bytes = me_size_bytes m, pr_raw_size_bytes = me_raw_size_bytes m,
                    pr_legacy = False\<rparr>, Some m))"

definition probe_snapshot :: "'b store_files \<Rightarrow> string \<Rightarrow> int option \<Rightarrow> snapshot_probe" where
  "probe_snapshot st sid epoch = fst (probe_unlocked st sid epoch)"

section \<open>Commit\<close>

text \<open>The compare-and-swap decision, under the lock.\<close>

datatype commit_decision =
    Already_committed snapshot_commit_result
  | Conflict store_error
  | Write_version int

definition decide_commit ::
  "string \<Rightarrow> snapshot_commit_input \<Rightarrow> snapshot_probe \<Rightarrow> commit_decision" where
  "decide_commit sid input p =
     (let write = Write_version (if pr_exists p then pr_version p + 1 else ci_base_version input + 1)
      in if pr_exists p \<and> \<not> pr_legacy p then
           (if pr_version p = ci_base_version input + 1 \<and> pr_turn_key p = Some (ci_turn_key input)
            then Already_committed
              \<lparr>cr_version = pr_version p, cr_content_hash = coalesce (pr_content_hash p) [],
               cr_size_bytes = None, cr_raw_size_bytes = None, cr_already_committed = True\<rparr>
            else if pr_version p \<noteq> ci_base_version input
            then Conflict (Snapshot_conflict_error sid (ci_base_version input) (pr_version p) (pr_turn_key p))
            else write)
         else if pr_exists p \<and> pr_legacy p then
           (if ci_base_version input \<noteq> 0
            then Conflict (Snapshot_conflict_error sid (ci_base_version input) 0 None)
            else write)
         else write)"

text \<open>What a writer that was allowed to write is going to do.\<close>

record 'b commit_plan =
  cp_version :: int
  cp_tar_name :: string
  cp_meta_name :: string
  cp_meta :: session_meta
  cp_staged :: 'b
  cp_previous :: "string option"

definition chain_tar_name :: "string \<Rightarrow> int option \<Rightarrow> int \<Rightarrow> string" where
  "chain_tar_name sid epoch version =
     (if is_legacy_epoch epoch then versioned_tar_file_name sid version default_snapshot_codec
      else epoch_versioned_tar_file_name sid (the epoch) version)"

definition plan_commit ::
  "'b archiver \<Rightarrow> string \<Rightarrow> snapshot_commit_input \<Rightarrow> int option \<Rightarrow> 'b \<Rightarrow> int \<Rightarrow>
   snapshot_probe \<times> session_meta option \<Rightarrow> int \<Rightarrow> 'b commit_plan" where
  "plan_commit A sid input epoch staged raw_size p version =
     \<lparr>cp_version = version,
      cp_tar_name = chain_tar_name sid epoch version,
      cp_meta_name = meta_path sid epoch,
      cp_meta = \<lparr>me_session_id = sid, me_size_bytes = Some (av_size A staged),
        me_reason = Some ''turn-commit'', me_version = Some version,
        me_turn_key = Some (ci_turn_key input), me_content_hash = Some (av_sha A staged),
        me_codec = Some (codec_name Brotli), me_raw_size_bytes = Some raw_size,
        me_tar_file = Some (chain_tar_name sid epoch version),
        me_epoch = (if is_legacy_epoch epoch then None else epoch)\<rparr>,
      cp_staged = staged,
      cp_previous = (if pr_exists (fst p) then Some (current_tar_path sid (snd p)) else None)\<rparr>"

definition rename_tar :: "'b commit_plan \<Rightarrow> 'b store_files \<Rightarrow> 'b store_files" where
  "rename_tar pl st = st(cp_tar_name pl \<mapsto> Tar (cp_staged pl))"

definition rename_meta :: "'b commit_plan \<Rightarrow> 'b store_files \<Rightarrow> 'b store_files" where
  "rename_meta pl st = st(cp_meta_name pl \<mapsto> Meta (cp_meta pl))"

definition remove_previous :: "'b commit_plan \<Rightarrow> 'b store_files \<Rightarrow> 'b store_files" where
  "remove_previous pl st = (case cp_previous pl of
       Some prev \<Rightarrow> if prev \<noteq> [] \<and> prev \<noteq> cp_tar_name pl then st(prev := None) else st
     | None \<Rightarrow> st)"

text \<open>
  What the file system can do to a commit: fail while the tar is staged or the lock awaited, at the
  tar's rename, between it and the meta's rename, or after the commit point, where only the fault
  point \<open>store.commit.after-write\<close> throws. The unlink of the superseded tar is caught.
\<close>

datatype commit_fault =
    Staging_fails
  | Tar_rename_fails
  | Meta_rename_fails
  | After_write_fails

definition commit_snapshot_at ::
  "commit_fault option \<Rightarrow> 'b archiver \<Rightarrow> 'b store_files \<Rightarrow> session_dir option \<Rightarrow> string \<Rightarrow>
   snapshot_commit_input \<Rightarrow> int option \<Rightarrow> (store_error + snapshot_commit_result) \<times> 'b store_files" where
  "commit_snapshot_at fault A st d sid input epoch =
     (if \<not> check_session_snapshot d then
        (Inl (Store_error (''Session state directory not ready during commit: '' @ sid)), st)
      else if fault = Some Staging_fails then (Inl (Store_error ''staging failed''), st)
      else
        let content = archive_of (the d);
            staged = av_pack A default_snapshot_codec content;
            p = probe_unlocked st sid epoch
        in case decide_commit sid input (fst p) of
             Already_committed r \<Rightarrow> (Inr r, st)
           | Conflict e \<Rightarrow> (Inl e, st)
           | Write_version version \<Rightarrow>
               let pl = plan_commit A sid input epoch staged (av_raw_size A content) p version
               in case fault of
                    None \<Rightarrow> (Inr \<lparr>cr_version = version, cr_content_hash = av_sha A staged,
                               cr_size_bytes = me_size_bytes (cp_meta pl),
                               cr_raw_size_bytes = Some (av_raw_size A content),
                               cr_already_committed = False\<rparr>,
                             remove_previous pl (rename_meta pl (rename_tar pl st)))
                  | Some Meta_rename_fails \<Rightarrow> (Inl (Store_error ''meta rename failed''), rename_tar pl st)
                  | Some After_write_fails \<Rightarrow>
                      (Inl (Store_error ''store.commit.after-write''), rename_meta pl (rename_tar pl st))
                  | Some _ \<Rightarrow> (Inl (Store_error ''tar rename failed''), st))"

text \<open>The commit when the file system serves it.\<close>

definition commit_snapshot ::
  "'b archiver \<Rightarrow> 'b store_files \<Rightarrow> session_dir option \<Rightarrow> string \<Rightarrow> snapshot_commit_input \<Rightarrow>
   int option \<Rightarrow> (store_error + snapshot_commit_result) \<times> 'b store_files" where
  "commit_snapshot = commit_snapshot_at None"

lemmas commit_snapshot_defs = commit_snapshot_def commit_snapshot_at_def

section \<open>Hydrate\<close>

definition hydrate_result :: "session_meta option \<Rightarrow> snapshot_hydrate_result" where
  "hydrate_result meta =
     (case meta of
        None \<Rightarrow> \<lparr>hr_version = 0, hr_turn_key = None, hr_content_hash = None, hr_size_bytes = None,
                 hr_raw_size_bytes = None, hr_legacy = True\<rparr>
      | Some m \<Rightarrow>
          \<lparr>hr_version = (if version_below_1 m then 0 else the (me_version m)),
           hr_turn_key = if_truthy (me_turn_key m), hr_content_hash = if_truthy (me_content_hash m),
           hr_size_bytes = me_size_bytes m, hr_raw_size_bytes = me_raw_size_bytes m,
           hr_legacy = version_below_1 m\<rparr>)"

text \<open>
  The result, and the session directory afterwards. The file system may fail while the tar is
  copied or unpacked into its temporary root, while the old directory is removed, which leaves
  what was not removed yet, or at the rename that puts the new one in its place, which leaves no
  directory at all.
\<close>

datatype hydrate_fault =
    Unpacking_fails
  | Removal_fails "session_dir option"
  | Swap_fails

definition hydrate_snapshot_at ::
  "hydrate_fault option \<Rightarrow> 'b archiver \<Rightarrow> 'b store_files \<Rightarrow> session_dir option \<Rightarrow> string \<Rightarrow>
   int option \<Rightarrow> (store_error + snapshot_hydrate_result) \<times> session_dir option" where
  "hydrate_snapshot_at fault A st d sid epoch =
     (let (p, meta) = probe_unlocked st sid epoch
      in if \<not> pr_exists p then (Inl (Store_error (''Session archive not found: '' @ sid)), d)
         else case st (current_tar_path sid meta) of
           Some (Tar bytes) \<Rightarrow>
             let expected = (case meta of None \<Rightarrow> None | Some m \<Rightarrow> if_truthy (me_content_hash m))
             in if expected \<noteq> None \<and> expected \<noteq> Some (av_sha A bytes) then
                  (Inl (Store_error (''Snapshot integrity check failed for '' @ sid)), d)
                else (case av_unpack A (stored_codec meta) bytes of
                    Extract_failed \<Rightarrow> (Inl (Store_error ''tar extract failed''), d)
                  | No_session_directory \<Rightarrow>
                      (Inl (Store_error (''Snapshot archive for '' @ sid @
                         '' did not contain the session directory'')), d)
                  | Unpacked content \<Rightarrow>
                      (case fault of
                         None \<Rightarrow> (Inr (hydrate_result meta), Some (unpack content))
                       | Some Unpacking_fails \<Rightarrow> (Inl (Store_error ''copy or extract failed''), d)
                       | Some (Removal_fails left) \<Rightarrow> (Inl (Store_error ''remove failed''), left)
                       | Some Swap_fails \<Rightarrow> (Inl (Store_error ''rename failed''), None)))
         | _ \<Rightarrow> (Inl (Store_error ''tar extract failed''), d))"

definition hydrate_snapshot ::
  "'b archiver \<Rightarrow> 'b store_files \<Rightarrow> session_dir option \<Rightarrow> string \<Rightarrow> int option \<Rightarrow>
   (store_error + snapshot_hydrate_result) \<times> session_dir option" where
  "hydrate_snapshot = hydrate_snapshot_at None"

lemmas hydrate_snapshot_defs = hydrate_snapshot_def hydrate_snapshot_at_def

section \<open>The legacy operations and deletion\<close>

definition has_versioned_snapshot :: "'b store_files \<Rightarrow> string \<Rightarrow> int option \<Rightarrow> bool" where
  "has_versioned_snapshot st sid epoch =
     (let p = probe_snapshot st sid epoch in pr_exists p \<and> \<not> pr_legacy p)"

definition legacy_meta ::
  "'b archiver \<Rightarrow> string \<Rightarrow> string option \<Rightarrow> 'b \<Rightarrow> archived \<Rightarrow> session_meta" where
  "legacy_meta A sid reason staged content =
     \<lparr>me_session_id = sid, me_size_bytes = Some (av_size A staged), me_reason = reason,
      me_version = None, me_turn_key = None, me_content_hash = None,
      me_codec = Some (codec_name default_snapshot_codec),
      me_raw_size_bytes = Some (av_raw_size A content), me_tar_file = None, me_epoch = None\<rparr>"

definition write_legacy ::
  "'b archiver \<Rightarrow> 'b store_files \<Rightarrow> session_dir \<Rightarrow> string \<Rightarrow> string option \<Rightarrow> 'b store_files" where
  "write_legacy A st d sid reason =
     (let content = archive_of d; staged = av_pack A default_snapshot_codec content
      in st(tar_file_name sid \<mapsto> Tar staged,
            meta_path sid None \<mapsto> Meta (legacy_meta A sid reason staged content)))"

definition dehydrate ::
  "'b archiver \<Rightarrow> 'b store_files \<Rightarrow> session_dir option \<Rightarrow> string \<Rightarrow> string option \<Rightarrow> int option \<Rightarrow>
   store_error + 'b store_files \<times> session_dir option" where
  "dehydrate A st d sid reason epoch =
     (if has_versioned_snapshot st sid epoch then Inr (st, None)
      else if \<not> is_legacy_epoch epoch then
        Inl (Store_error (''dehydrate('' @ sid @ '') reached the legacy write path''))
      else if \<not> check_session_snapshot d then
        Inl (Store_error (''Session state directory not ready during dehydrate: '' @ sid))
      else Inr (write_legacy A st (the d) sid reason, None))"

definition hydrate ::
  "'b archiver \<Rightarrow> 'b store_files \<Rightarrow> session_dir option \<Rightarrow> string \<Rightarrow> int option \<Rightarrow>
   store_error option \<times> session_dir option" where
  "hydrate A st d sid epoch =
     (if \<not> is_legacy_epoch epoch then
        (Some (Store_error (''hydrate('' @ sid @ '') is the legacy path'')), d)
      else
        let meta = read_stored_meta st sid None
        in case st (current_tar_path sid meta) of
             None \<Rightarrow> (Some (Store_error (''Session archive not found: '' @ sid)), d)
           | Some (Tar bytes) \<Rightarrow>
               (case av_unpack A (stored_codec meta) bytes of
                  Unpacked content \<Rightarrow> (None, Some (unpack content))
                | No_session_directory \<Rightarrow> (None, None)
                | Extract_failed \<Rightarrow> (Some (Store_error ''tar extract failed''), None))
           | Some _ \<Rightarrow> (Some (Store_error ''tar extract failed''), None))"

definition checkpoint ::
  "'b archiver \<Rightarrow> 'b store_files \<Rightarrow> session_dir option \<Rightarrow> string \<Rightarrow> int option \<Rightarrow>
   store_error + 'b store_files" where
  "checkpoint A st d sid epoch =
     (case d of
        None \<Rightarrow> Inr st
      | Some x \<Rightarrow>
          if has_versioned_snapshot st sid epoch then Inr st
          else if \<not> is_legacy_epoch epoch then
            Inl (Store_error (''checkpoint('' @ sid @ '') reached the legacy write path''))
          else Inr (write_legacy A st x sid (Some ''checkpoint'')))"

definition snapshot_exists :: "'b store_files \<Rightarrow> string \<Rightarrow> int option \<Rightarrow> bool" where
  "snapshot_exists st sid epoch =
     (if \<not> is_legacy_epoch epoch then pr_exists (probe_snapshot st sid epoch)
      else st (current_tar_path sid (read_stored_meta st sid None)) \<noteq> None)"

definition get_snapshot_size_bytes ::
  "'b archiver \<Rightarrow> 'b store_files \<Rightarrow> string \<Rightarrow> int option \<Rightarrow> int option" where
  "get_snapshot_size_bytes A st sid epoch =
     (let meta = read_stored_meta st sid epoch;
          from_meta = (case meta of Some m \<Rightarrow> me_size_bytes m | None \<Rightarrow> None)
      in if from_meta \<noteq> None then from_meta
         else if \<not> is_legacy_epoch epoch \<and>
                 (case meta of None \<Rightarrow> True | Some m \<Rightarrow> \<not> truthy_str (me_tar_file m)) then None
         else case st (current_tar_path sid meta) of Some (Tar b) \<Rightarrow> Some (av_size A b) | _ \<Rightarrow> None)"

definition delete_epoch_objects ::
  "'b store_files \<Rightarrow> string \<Rightarrow> int option \<Rightarrow> 'b store_files" where
  "delete_epoch_objects st sid only_epoch =
     (\<lambda>name. case parse_epoch_snapshot_name sid name of
         None \<Rightarrow> st name
       | Some parsed \<Rightarrow>
           if only_epoch \<noteq> None \<and> only_epoch \<noteq> Some (int (en_epoch parsed)) then st name else None)"

definition delete_snapshot :: "'b store_files \<Rightarrow> string \<Rightarrow> int option \<Rightarrow> 'b store_files" where
  "delete_snapshot st sid epoch =
     (if \<not> is_legacy_epoch epoch then delete_epoch_objects st sid epoch
      else st(current_tar_path sid (read_stored_meta st sid None) := None,
              tar_file_name sid := None, meta_path sid None := None))"

definition delete_all_epochs :: "'b store_files \<Rightarrow> string \<Rightarrow> 'b store_files" where
  "delete_all_epochs st sid = delete_epoch_objects (delete_snapshot st sid None) sid None"

section \<open>Names of different chains never clash\<close>

definition chain_of :: "int option \<Rightarrow> int" where
  "chain_of epoch = (if is_legacy_epoch epoch then 0 else the epoch)"

lemma show_int_chars: "c \<in> set (show_int i) \<Longrightarrow> is_digit c \<or> c = CHR ''-''"
  by (auto simp: show_int_def show_nat_digits split: if_split_asm)

lemma show_int_no_sep [simp]: "CHR ''.'' \<notin> set (show_int i)" "CHR ''/'' \<notin> set (show_int i)"
  using show_int_chars by (auto simp: is_digit_def)

lemma show_nat_no_minus: "show_nat m \<noteq> CHR ''-'' # s"
  using show_nat_digits [of "CHR ''-''" m] by (auto simp: is_digit_def)

lemma show_int_inj: "show_int i = show_int j \<longleftrightarrow> i = j"
proof
  assume "show_int i = show_int j"
  then show "i = j"
    using show_nat_no_minus show_nat_no_minus [symmetric] by (cases "i < 0"; cases "j < 0") (auto simp: show_int_def show_nat_inj)
qed simp

lemma show_int_sep:
  "show_int i @ CHR ''.'' # a = show_int j @ CHR ''.'' # b \<longleftrightarrow> i = j \<and> a = b"
  by (simp add: append_sep_eq_iff show_int_inj)

lemma chain_of_eq:
  "is_legacy_epoch e \<Longrightarrow> is_legacy_epoch e' \<Longrightarrow> (chain_of e = chain_of e') = True"
  "\<not> is_legacy_epoch e \<Longrightarrow> is_legacy_epoch e' \<Longrightarrow> chain_of e \<noteq> chain_of e'"
  "is_legacy_epoch e \<Longrightarrow> \<not> is_legacy_epoch e' \<Longrightarrow> chain_of e \<noteq> chain_of e'"
  "\<not> is_legacy_epoch e \<Longrightarrow> \<not> is_legacy_epoch e' \<Longrightarrow> (chain_of e = chain_of e') = (the e = the e')"
  by (auto simp: chain_of_def is_legacy_epoch_def split: option.splits)

lemmas name_defs =
  meta_path_def meta_file_name_def epoch_meta_file_name_def chain_tar_name_def
  versioned_tar_file_name_def epoch_versioned_tar_file_name_def tar_file_name_def
  default_snapshot_codec_def

lemma meta_path_eq [simp]: "meta_path sid e = meta_path sid e' \<longleftrightarrow> chain_of e = chain_of e'"
  by (cases "is_legacy_epoch e"; cases "is_legacy_epoch e'")
    (simp_all add: name_defs chain_of_eq show_int_sep show_int_inj)

lemma chain_tar_name_eq [simp]:
  "chain_tar_name sid e v = chain_tar_name sid e' v' \<longleftrightarrow> chain_of e = chain_of e' \<and> v = v'"
  by (cases "is_legacy_epoch e"; cases "is_legacy_epoch e'")
    (simp_all add: name_defs chain_of_eq show_int_sep show_int_inj)

lemma names_differ [simp]:
  "meta_path sid e \<noteq> chain_tar_name sid e' v" "chain_tar_name sid e' v \<noteq> meta_path sid e"
  "meta_path sid e \<noteq> tar_file_name sid" "tar_file_name sid \<noteq> meta_path sid e"
  "chain_tar_name sid e v \<noteq> tar_file_name sid" "tar_file_name sid \<noteq> chain_tar_name sid e v"
  "chain_tar_name sid e v \<noteq> []" "tar_file_name sid \<noteq> []"
  by (simp_all add: name_defs)

lemma last_component_flat: "CHR ''/'' \<notin> set s \<Longrightarrow> last_component s = s"
  by (simp add: last_component_def split_on_no_sep)

lemma last_component_chain_tar [simp]:
  "CHR ''/'' \<notin> set sid \<Longrightarrow> last_component (chain_tar_name sid e v) = chain_tar_name sid e v"
  by (rule last_component_flat) (auto simp: name_defs)

section \<open>The store's invariant and its chains\<close>

definition fs_head :: "'b archiver \<Rightarrow> string \<Rightarrow> int option \<Rightarrow> 'b store_files \<Rightarrow> chain_head option" where
  "fs_head A sid epoch st =
     (let (p, meta) = probe_unlocked st sid epoch
      in if \<not> pr_exists p then None
         else case st (current_tar_path sid meta) of
           Some (Tar b) \<Rightarrow>
             (case av_unpack A (stored_codec meta) b of
                Unpacked c \<Rightarrow> Some \<lparr>ch_version = pr_version p, ch_turn_key = pr_turn_key p,
                  ch_content_hash = pr_content_hash p, ch_content = c\<rparr>
              | _ \<Rightarrow> None)
         | _ \<Rightarrow> None)"

text \<open>A versioned meta names a tar of its own chain and version, holding the bytes it hashes.\<close>

definition versioned_meta_ok ::
  "'b archiver \<Rightarrow> string \<Rightarrow> int option \<Rightarrow> 'b store_files \<Rightarrow> session_meta \<Rightarrow> bool" where
  "versioned_meta_ok A sid epoch st m \<longleftrightarrow>
     (\<exists>v k c. 1 \<le> v \<and> k \<noteq> [] \<and> me_version m = Some v \<and> me_turn_key m = Some k \<and>
        me_codec m = Some ''brotli'' \<and> me_tar_file m = Some (chain_tar_name sid epoch v) \<and>
        st (chain_tar_name sid epoch v) = Some (Tar (av_pack A Brotli c)) \<and>
        me_content_hash m = Some (av_sha A (av_pack A Brotli c)))"

text \<open>A legacy snapshot has the fixed tar name and no version.\<close>

definition legacy_meta_ok :: "int option \<Rightarrow> session_meta \<Rightarrow> bool" where
  "legacy_meta_ok epoch m \<longleftrightarrow> is_legacy_epoch epoch \<and> me_version m = None \<and> me_turn_key m = None \<and>
     me_content_hash m = None \<and> me_tar_file m = None"

definition legacy_tar_ok :: "'b archiver \<Rightarrow> string \<Rightarrow> 'b store_files \<Rightarrow> session_meta option \<Rightarrow> bool" where
  "legacy_tar_ok A sid st meta \<longleftrightarrow>
     (case st (tar_file_name sid) of
        None \<Rightarrow> True
      | Some (Tar b) \<Rightarrow> (\<exists>c. av_unpack A (stored_codec meta) b = Unpacked c)
      | _ \<Rightarrow> False)"

definition chain_ok :: "'b archiver \<Rightarrow> string \<Rightarrow> 'b store_files \<Rightarrow> int option \<Rightarrow> bool" where
  "chain_ok A sid st epoch \<longleftrightarrow>
     (case st (meta_path sid epoch) of
        None \<Rightarrow> is_legacy_epoch epoch \<longrightarrow> legacy_tar_ok A sid st None
      | Some (Meta m) \<Rightarrow>
          versioned_meta_ok A sid epoch st m \<or> legacy_meta_ok epoch m \<and> legacy_tar_ok A sid st (Some m)
      | _ \<Rightarrow> False)"

definition store_ok :: "'b archiver \<Rightarrow> string \<Rightarrow> 'b store_files \<Rightarrow> bool" where
  "store_ok A sid st \<longleftrightarrow> (\<forall>epoch. chain_ok A sid st epoch)"

text \<open>The three states of a valid chain, with what the probe and the head are in each.\<close>

lemma probe_cases:
  assumes ok: "chain_ok A sid st epoch" and A: "archiver_ok A" and flat: "CHR ''/'' \<notin> set sid"
  obtains
    (Absent) "pr_exists (fst (probe_unlocked st sid epoch)) = False"
      "fs_head A sid epoch st = None"
      "\<And>m. st (meta_path sid epoch) = Some (Meta m) \<Longrightarrow> legacy_meta_ok epoch m"
  | (Legacy) b c meta where "is_legacy_epoch epoch" "meta = read_stored_meta st sid epoch"
      "probe_unlocked st sid epoch = (absent_probe\<lparr>pr_exists := True, pr_legacy := True\<rparr>, meta)"
      "st (tar_file_name sid) = Some (Tar b)" "av_unpack A (stored_codec meta) b = Unpacked c"
      "current_tar_path sid meta = tar_file_name sid"
      "\<And>m. meta = Some m \<Longrightarrow> legacy_meta_ok epoch m"
      "fs_head A sid epoch st =
         Some \<lparr>ch_version = 0, ch_turn_key = None, ch_content_hash = None, ch_content = c\<rparr>"
  | (Versioned) v k c m where "1 \<le> v" "k \<noteq> []"
      "st (meta_path sid epoch) = Some (Meta m)"
      "probe_unlocked st sid epoch =
         (\<lparr>pr_exists = True, pr_version = v, pr_turn_key = Some k,
           pr_content_hash = Some (av_sha A (av_pack A Brotli c)),
           pr_size_bytes = me_size_bytes m, pr_raw_size_bytes = me_raw_size_bytes m,
           pr_legacy = False\<rparr>, Some m)"
      "current_tar_path sid (Some m) = chain_tar_name sid epoch v" "stored_codec (Some m) = Brotli"
      "st (chain_tar_name sid epoch v) = Some (Tar (av_pack A Brotli c))"
      "me_version m = Some v" "me_turn_key m = Some k"
      "me_content_hash m = Some (av_sha A (av_pack A Brotli c))"
      "fs_head A sid epoch st =
         Some \<lparr>ch_version = v, ch_turn_key = Some k,
           ch_content_hash = Some (av_sha A (av_pack A Brotli c)), ch_content = c\<rparr>"
proof (cases "st (meta_path sid epoch)")
  case None
  then have m: "read_stored_meta st sid epoch = None" by (simp add: read_stored_meta_def)
  show thesis
  proof (cases "\<not> is_legacy_epoch epoch \<or> st (tar_file_name sid) = None")
    case True
    then show thesis
      using None by (intro Absent) (auto simp: probe_unlocked_def fs_head_def Let_def m current_tar_path_def absent_probe_def)
  next
    case False
    then obtain b c where "st (tar_file_name sid) = Some (Tar b)" "av_unpack A (stored_codec None) b = Unpacked c"
      using ok None by (auto simp: chain_ok_def legacy_tar_ok_def split: option.split_asm store_file.split_asm)
    then show thesis
      using False by (intro Legacy [of None b c]) (auto simp: probe_unlocked_def fs_head_def Let_def m current_tar_path_def absent_probe_def)
  qed
next
  case (Some f)
  then obtain m where f: "f = Meta m" using ok by (cases f) (auto simp: chain_ok_def)
  then have m: "read_stored_meta st sid epoch = Some m" using Some by (simp add: read_stored_meta_def)
  consider (V) "versioned_meta_ok A sid epoch st m" | (L) "legacy_meta_ok epoch m" "legacy_tar_ok A sid st (Some m)"
    using ok Some f by (auto simp: chain_ok_def)
  then show thesis
  proof cases
    case V
    then obtain v k c where v: "1 \<le> v" "k \<noteq> []" "me_version m = Some v" "me_turn_key m = Some k"
        "me_codec m = Some ''brotli''" "me_tar_file m = Some (chain_tar_name sid epoch v)"
        "st (chain_tar_name sid epoch v) = Some (Tar (av_pack A Brotli c))"
        "me_content_hash m = Some (av_sha A (av_pack A Brotli c))"
      by (auto simp: versioned_meta_ok_def)
    have ct: "current_tar_path sid (Some m) = chain_tar_name sid epoch v"
      using v flat by (simp add: current_tar_path_def)
    have sc: "stored_codec (Some m) = Brotli"
      using v by (simp add: stored_codec_def resolve_snapshot_codec_def)
    have ne: "av_sha A b \<noteq> []" and un: "av_unpack A Brotli (av_pack A Brotli c) = Unpacked c" for b
      using A by (auto simp: archiver_ok_def)
    have p: "probe_unlocked st sid epoch =
        (\<lparr>pr_exists = True, pr_version = v, pr_turn_key = Some k,
           pr_content_hash = Some (av_sha A (av_pack A Brotli c)),
           pr_size_bytes = me_size_bytes m, pr_raw_size_bytes = me_raw_size_bytes m,
           pr_legacy = False\<rparr>, Some m)"
      using v ne by (simp add: probe_unlocked_def m Let_def ct version_below_1_def if_truthy_def)
    show thesis
      using v f Some ct sc p un by (intro Versioned [of v k m c]) (simp_all add: fs_head_def)
  next
    case L
    then have ct: "current_tar_path sid (Some m) = tar_file_name sid" and vb: "version_below_1 m"
      by (simp_all add: current_tar_path_def legacy_meta_ok_def version_below_1_def)
    have le: "is_legacy_epoch epoch" using L by (simp add: legacy_meta_ok_def)
    show thesis
    proof (cases "st (tar_file_name sid)")
      case None
      then show thesis
        using L Some f le by (intro Absent) (auto simp: probe_unlocked_def fs_head_def Let_def m ct absent_probe_def)
    next
      case (Some g)
      then obtain b c where "g = Tar b" "av_unpack A (stored_codec (Some m)) b = Unpacked c"
        using L by (auto simp: legacy_tar_ok_def split: store_file.split_asm)
      then show thesis
        using Some L le vb
        by (intro Legacy [of "Some m" b c]) (auto simp: probe_unlocked_def fs_head_def Let_def m ct absent_probe_def)
    qed
  qed
qed

text \<open>The names a chain reads and writes; other chains have none of them.\<close>

definition own_name :: "string \<Rightarrow> int option \<Rightarrow> string \<Rightarrow> bool" where
  "own_name sid epoch n \<longleftrightarrow> n = meta_path sid epoch \<or>
     is_legacy_epoch epoch \<and> n = tar_file_name sid \<or> (\<exists>v. n = chain_tar_name sid epoch v)"

lemma own_name_disjoint:
  "chain_of e \<noteq> chain_of e' \<Longrightarrow> own_name sid e n \<Longrightarrow> \<not> own_name sid e' n"
  by (auto simp: own_name_def chain_of_eq)

lemma own_name_simps [simp]:
  "own_name sid e (meta_path sid e)" "own_name sid e (chain_tar_name sid e v)"
  "is_legacy_epoch e \<Longrightarrow> own_name sid e (tar_file_name sid)"
  by (auto simp: own_name_def)

lemma chain_frame:
  assumes ok: "chain_ok A sid st e" and same: "\<And>n. own_name sid e n \<Longrightarrow> st' n = st n"
    and A: "archiver_ok A" and flat: "CHR ''/'' \<notin> set sid"
  shows "chain_ok A sid st' e" "probe_unlocked st' sid e = probe_unlocked st sid e"
    "fs_head A sid e st' = fs_head A sid e st"
proof -
  have m: "read_stored_meta st' sid e = read_stored_meta st sid e"
    by (simp add: read_stored_meta_def same)
  have v: "versioned_meta_ok A sid e st' m = versioned_meta_ok A sid e st m" for m
    by (simp add: versioned_meta_ok_def same)
  have l: "is_legacy_epoch e \<Longrightarrow> legacy_tar_ok A sid st' x = legacy_tar_ok A sid st x" for x
    by (simp add: legacy_tar_ok_def same)
  show ok': "chain_ok A sid st' e"
    using ok l by (auto simp: chain_ok_def same v legacy_meta_ok_def split: option.splits store_file.splits)
  have cur: "is_legacy_epoch e \<or> meta \<noteq> None \<Longrightarrow> meta = read_stored_meta st sid e \<Longrightarrow>
      own_name sid e (current_tar_path sid meta)" for meta
  proof -
    assume *: "is_legacy_epoch e \<or> meta \<noteq> None" "meta = read_stored_meta st sid e"
    show "own_name sid e (current_tar_path sid meta)"
    proof (cases meta)
      case None then show ?thesis using * by (simp add: current_tar_path_def)
    next
      case (Some m)
      then have "st (meta_path sid e) = Some (Meta m)"
        using * by (auto simp: read_stored_meta_def split: option.split_asm store_file.split_asm)
      then have "versioned_meta_ok A sid e st m \<or> legacy_meta_ok e m"
        using ok by (auto simp: chain_ok_def)
      then show ?thesis
        using flat Some by (auto simp: current_tar_path_def versioned_meta_ok_def legacy_meta_ok_def)
    qed
  qed
  have t: "st' (current_tar_path sid (read_stored_meta st sid e)) = st (current_tar_path sid (read_stored_meta st sid e))"
    if "is_legacy_epoch e \<or> read_stored_meta st sid e \<noteq> None"
    using cur [OF that refl] by (rule same)
  show p: "probe_unlocked st' sid e = probe_unlocked st sid e"
    using t by (cases "is_legacy_epoch e"; cases "read_stored_meta st sid e")
      (simp_all add: probe_unlocked_def m Let_def)
  have "st' (current_tar_path sid (snd (probe_unlocked st sid e))) = st (current_tar_path sid (snd (probe_unlocked st sid e)))"
    if "pr_exists (fst (probe_unlocked st sid e))"
    using ok A flat
  proof (cases rule: probe_cases)
    case Absent then show ?thesis using that by simp
  next
    case Legacy then show ?thesis by (simp add: same)
  next
    case Versioned then show ?thesis by (simp add: same)
  qed
  then show "fs_head A sid e st' = fs_head A sid e st"
    by (auto simp: fs_head_def p split: prod.splits)
qed

section \<open>What a permitted write does\<close>

text \<open>The version a permitted commit writes, and that it is free.\<close>

lemma decide_write:
  assumes "decide_commit sid input p = Write_version v"
    and "pr_exists p \<Longrightarrow> pr_legacy p \<Longrightarrow> pr_version p = 0"
  shows "v = ci_base_version input + 1" "pr_exists p \<Longrightarrow> pr_version p = ci_base_version input"
  using assms by (auto simp: decide_commit_def Let_def split: if_split_asm)

definition write_ok ::
  "'b archiver \<Rightarrow> string \<Rightarrow> snapshot_commit_input \<Rightarrow> int option \<Rightarrow> archived \<Rightarrow> 'b store_files \<Rightarrow>
   'b commit_plan \<Rightarrow> bool" where
  "write_ok A sid input epoch content st pl \<longleftrightarrow>
     (\<exists>v. decide_commit sid input (fst (probe_unlocked st sid epoch)) = Write_version v \<and> 1 \<le> v \<and>
        pl = plan_commit A sid input epoch (av_pack A default_snapshot_codec content)
               (av_raw_size A content) (probe_unlocked st sid epoch) v)"

lemma plan_simps [simp]:
  "cp_version (plan_commit A sid input epoch b n p v) = v"
  "cp_tar_name (plan_commit A sid input epoch b n p v) = chain_tar_name sid epoch v"
  "cp_meta_name (plan_commit A sid input epoch b n p v) = meta_path sid epoch"
  "cp_staged (plan_commit A sid input epoch b n p v) = b"
  by (simp_all add: plan_commit_def)

text \<open>The superseded tar belongs to the chain and is not the tar being written.\<close>

lemma previous_name:
  assumes "chain_ok A sid st epoch" "archiver_ok A" "CHR ''/'' \<notin> set sid"
    and w: "write_ok A sid input epoch content st pl" and "cp_previous pl = Some prev"
  shows "own_name sid epoch prev" "prev \<noteq> cp_tar_name pl" "prev \<noteq> cp_meta_name pl"
proof -
  from w obtain v where v: "decide_commit sid input (fst (probe_unlocked st sid epoch)) = Write_version v"
    "pl = plan_commit A sid input epoch (av_pack A default_snapshot_codec content)
               (av_raw_size A content) (probe_unlocked st sid epoch) v"
    by (auto simp: write_ok_def)
  have pe: "pr_exists (fst (probe_unlocked st sid epoch))"
    and pn: "prev = current_tar_path sid (snd (probe_unlocked st sid epoch))"
    using assms(5) v(2) by (auto simp: plan_commit_def split: if_split_asm)
  have "own_name sid epoch prev \<and> prev \<noteq> cp_tar_name pl \<and> prev \<noteq> cp_meta_name pl"
    using assms(1-3)
  proof (cases rule: probe_cases)
    case Absent then show ?thesis using pe by simp
  next
    case Legacy then show ?thesis using pn v by simp
  next
    case (Versioned u k c m)
    then have "v = u + 1" using v(1) by (auto simp: decide_commit_def Let_def split: if_split_asm)
    then show ?thesis using Versioned pn v by simp
  qed
  then show "own_name sid epoch prev" "prev \<noteq> cp_tar_name pl" "prev \<noteq> cp_meta_name pl" by auto
qed


text \<open>Once the meta is in place beside its tar, the chain's head is the committed snapshot.\<close>

definition committed_head ::
  "'b archiver \<Rightarrow> snapshot_commit_input \<Rightarrow> archived \<Rightarrow> int \<Rightarrow> chain_head" where
  "committed_head A input content v =
     \<lparr>ch_version = v, ch_turn_key = Some (ci_turn_key input),
      ch_content_hash = Some (av_sha A (av_pack A default_snapshot_codec content)),
      ch_content = content\<rparr>"

lemma meta_in_place:
  assumes A: "archiver_ok A" "CHR ''/'' \<notin> set sid" and k: "ci_turn_key input \<noteq> []"
    and w: "write_ok A sid input epoch content st0 pl"
    and st: "st (cp_meta_name pl) = Some (Meta (cp_meta pl))" "st (cp_tar_name pl) = Some (Tar (cp_staged pl))"
  shows "chain_ok A sid st epoch" "fs_head A sid epoch st = Some (committed_head A input content (cp_version pl))"
proof -
  from w obtain v p where v: "1 \<le> v" "pl = plan_commit A sid input epoch (av_pack A Brotli content)
               (av_raw_size A content) p v"
    unfolding write_ok_def default_snapshot_codec_def by blast
  define m where "m = cp_meta pl"
  have vm: "versioned_meta_ok A sid epoch st m"
    using v k st by (auto simp: versioned_meta_ok_def m_def plan_commit_def codec_name_def)
  then show ok: "chain_ok A sid st epoch"
    using st(1) v(2) by (simp add: chain_ok_def m_def)
  show "fs_head A sid epoch st = Some (committed_head A input content (cp_version pl))"
    using ok A
  proof (cases rule: probe_cases)
    case Absent
    then show ?thesis using st(1) v(2) by (auto simp: m_def plan_commit_def legacy_meta_ok_def)
  next
    case (Legacy b c meta)
    then show ?thesis using st(1) v(2) Legacy(7) [of m]
      by (auto simp: read_stored_meta_def m_def plan_commit_def legacy_meta_ok_def)
  next
    case (Versioned u k' c m')
    have "m' = m" "u = v" "k' = ci_turn_key input"
      using Versioned(3,8,9) st(1) v(2) by (auto simp: m_def plan_commit_def)
    moreover have "c = content"
    proof -
      have "av_pack A Brotli c = av_pack A Brotli content"
        using Versioned(7) st(2) v(2) \<open>u = v\<close> by simp
      then show ?thesis using A(1) by (metis archiver_ok_def unpacked.inject)
    qed
    ultimately show ?thesis using Versioned v(2) by (simp add: committed_head_def default_snapshot_codec_def)
  qed
qed

lemma commit_steps_other_names:
  assumes "chain_ok A sid st epoch" "archiver_ok A" "CHR ''/'' \<notin> set sid"
    and w: "write_ok A sid input epoch content st pl" and n: "\<not> own_name sid epoch n"
  shows "rename_tar pl st' n = st' n" "rename_meta pl st' n = st' n" "remove_previous pl st' n = st' n"
proof -
  from w have nm: "own_name sid epoch (cp_tar_name pl)" "own_name sid epoch (cp_meta_name pl)"
    by (auto simp: write_ok_def)
  show "rename_tar pl st' n = st' n" "rename_meta pl st' n = st' n"
    using nm n by (auto simp: rename_tar_def rename_meta_def)
  show "remove_previous pl st' n = st' n"
    using previous_name(1) [OF assms(1-4)] n by (auto simp: remove_previous_def split: option.split)
qed

lemma remove_previous_keeps:
  assumes "chain_ok A sid st epoch" "archiver_ok A" "CHR ''/'' \<notin> set sid"
    and w: "write_ok A sid input epoch content st pl"
  shows "remove_previous pl st' (cp_meta_name pl) = st' (cp_meta_name pl)"
    "remove_previous pl st' (cp_tar_name pl) = st' (cp_tar_name pl)"
  using previous_name [OF assms] by (auto simp: remove_previous_def split: option.split)

lemma rename_simps [simp]:
  "rename_meta pl st (cp_meta_name pl) = Some (Meta (cp_meta pl))"
  "rename_tar pl st (cp_tar_name pl) = Some (Tar (cp_staged pl))"
  by (simp_all add: rename_meta_def rename_tar_def)

lemma write_ok_names: "write_ok A sid input epoch content st pl \<Longrightarrow> cp_tar_name pl \<noteq> cp_meta_name pl"
  by (auto simp: write_ok_def)

text \<open>A permitted write, all three effects together.\<close>

lemma write_commits:
  assumes ok: "chain_ok A sid st epoch" and A: "archiver_ok A" "CHR ''/'' \<notin> set sid"
    and k: "ci_turn_key input \<noteq> []" and w: "write_ok A sid input epoch content st pl"
  defines "st' \<equiv> remove_previous pl (rename_meta pl (rename_tar pl st))"
  shows "chain_ok A sid st' epoch"
    "fs_head A sid epoch st' = Some (committed_head A input content (cp_version pl))"
    "\<not> own_name sid epoch n \<Longrightarrow> st' n = st n"
proof -
  have "st' (cp_meta_name pl) = Some (Meta (cp_meta pl))" "st' (cp_tar_name pl) = Some (Tar (cp_staged pl))"
    using write_ok_names [OF w]
    by (simp_all add: st'_def remove_previous_keeps [OF ok A w] rename_meta_def)
  from meta_in_place [OF A k w this]
  show "chain_ok A sid st' epoch"
    "fs_head A sid epoch st' = Some (committed_head A input content (cp_version pl))" .
  show "\<not> own_name sid epoch n \<Longrightarrow> st' n = st n"
    by (simp add: st'_def commit_steps_other_names [OF ok A w])
qed

lemma chain_ok_probe_legacy:
  assumes "chain_ok A sid st epoch" "archiver_ok A" "CHR ''/'' \<notin> set sid"
    and "pr_exists (fst (probe_unlocked st sid epoch))" "pr_legacy (fst (probe_unlocked st sid epoch))"
  shows "pr_version (fst (probe_unlocked st sid epoch)) = 0"
  using assms(1-3)
proof (cases rule: probe_cases)
  case Absent then show ?thesis using assms by simp
next
  case Legacy then show ?thesis by (simp add: absent_probe_def)
next
  case Versioned then show ?thesis using assms by simp
qed

lemma probe_matches_head:
  assumes "chain_ok A sid st epoch" "archiver_ok A" "CHR ''/'' \<notin> set sid"
  shows "probe_matches (fst (probe_unlocked st sid epoch)) (fs_head A sid epoch st)"
  using assms by (cases rule: probe_cases) (auto simp: probe_matches_def absent_probe_def)

lemma hydrate_restores_head:
  assumes "chain_ok A sid st epoch" "archiver_ok A" "CHR ''/'' \<notin> set sid"
  shows "case fs_head A sid epoch st of
      None \<Rightarrow> \<exists>e. hydrate_snapshot A st d sid epoch = (Inl e, d)
    | Some h \<Rightarrow> \<exists>r d'. hydrate_snapshot A st d sid epoch = (Inr r, d') \<and> hydrated_from r d' h"
  using assms
proof (cases rule: probe_cases)
  case Absent
  then show ?thesis by (auto simp: hydrate_snapshot_defs split: prod.splits)
next
  case (Legacy b c meta)
  have h: "meta = None \<or> (\<exists>m. meta = Some m \<and> legacy_meta_ok epoch m)" using Legacy(7) by auto
  then have "(case meta of None \<Rightarrow> None | Some m \<Rightarrow> if_truthy (me_content_hash m)) = None"
    by (auto simp: legacy_meta_ok_def)
  then show ?thesis
    using Legacy h
    by (auto simp: hydrate_snapshot_defs hydrated_from_def hydrate_result_def legacy_meta_ok_def
        absent_probe_def version_below_1_def)
next
  case (Versioned v k c m)
  have "av_unpack A Brotli (av_pack A Brotli c) = Unpacked c" "av_sha A (av_pack A Brotli c) \<noteq> []"
    using assms(2) by (auto simp: archiver_ok_def)
  then show ?thesis
    using Versioned
    by (auto simp: hydrate_snapshot_defs hydrated_from_def hydrate_result_def version_below_1_def if_truthy_def)
qed

text \<open>
  Whatever the file system fails, the directory a hydrate leaves is the old one, none, the head's
  content, or what a failed removal left of the old one; only a success has the head's content.
\<close>

lemma hydrate_fault_cases:
  assumes "chain_ok A sid st epoch" "archiver_ok A" "CHR ''/'' \<notin> set sid"
    and "hydrate_snapshot_at fault A st d sid epoch = (x, d')"
  shows "case x of
      Inr r \<Rightarrow> (\<exists>h. fs_head A sid epoch st = Some h \<and> hydrated_from r d' h)
    | Inl e \<Rightarrow> d' = d \<or> fault = Some Swap_fails \<and> d' = None \<or> fault = Some (Removal_fails d')"
proof -
  obtain p meta where p: "probe_unlocked st sid epoch = (p, meta)" by (cases "probe_unlocked st sid epoch")
  let ?expected = "case meta of None \<Rightarrow> None | Some m \<Rightarrow> if_truthy (me_content_hash m)"
  have "hydrate_snapshot_at fault A st d sid epoch = hydrate_snapshot A st d sid epoch \<or>
      (\<exists>e. x = Inl e \<and> (d' = d \<or> fault = Some Swap_fails \<and> d' = None \<or> fault = Some (Removal_fails d')))"
  proof (cases "\<exists>b c. pr_exists p \<and> st (current_tar_path sid meta) = Some (Tar b) \<and>
      \<not> (?expected \<noteq> None \<and> ?expected \<noteq> Some (av_sha A b)) \<and> av_unpack A (stored_codec meta) b = Unpacked c")
    case True
    then obtain b c where "pr_exists p" "st (current_tar_path sid meta) = Some (Tar b)"
      "(?expected \<noteq> None \<and> ?expected \<noteq> Some (av_sha A b)) = False" "av_unpack A (stored_codec meta) b = Unpacked c"
      by blast
    then show ?thesis
      using assms(4) by (cases fault rule: option.exhaust; cases "the fault") (auto simp: hydrate_snapshot_defs p)
  next
    case False
    have "hydrate_snapshot_at fault A st d sid epoch = hydrate_snapshot_at None A st d sid epoch"
    proof (cases "pr_exists p")
      case True
      then show ?thesis
        using False
        by (cases "st (current_tar_path sid meta)"; cases "the (st (current_tar_path sid meta))")
          (auto simp: hydrate_snapshot_at_def p Let_def split: unpacked.split)
    qed (simp add: hydrate_snapshot_at_def p)
    then show ?thesis by (simp add: hydrate_snapshot_def)
  qed
  then show ?thesis
    using hydrate_restores_head [OF assms(1-3), of d] assms(4) by (auto split: option.splits sum.splits)
qed

text \<open>A commit that wrote: its plan was permitted, and its effects are those of the plan.\<close>

lemma commit_snapshot_written:
  assumes c: "commit_snapshot A st d sid input epoch = (Inr r, st')" "\<not> cr_already_committed r"
    and ok: "chain_ok A sid st epoch" "archiver_ok A" "CHR ''/'' \<notin> set sid"
    and base: "0 \<le> ci_base_version input"
  obtains pl where "check_session_snapshot d"
    "write_ok A sid input epoch (archive_of (the d)) st pl" "cp_version pl = cr_version r"
    "cr_version r = ci_base_version input + 1"
    "pr_exists (fst (probe_unlocked st sid epoch)) \<longrightarrow>
     pr_version (fst (probe_unlocked st sid epoch)) = ci_base_version input"
    "cr_content_hash r = av_sha A (av_pack A default_snapshot_codec (archive_of (the d)))"
    "st' = remove_previous pl (rename_meta pl (rename_tar pl st))"
proof -
  define p where "p = probe_unlocked st sid epoch"
  have rdy: "check_session_snapshot d" using c by (auto simp: commit_snapshot_defs split: if_split_asm)
  obtain v where v: "decide_commit sid input (fst p) = Write_version v"
    using c rdy by (auto simp: commit_snapshot_defs Let_def p_def decide_commit_def
        split: commit_decision.split_asm if_split_asm)
  have legacy0: "pr_exists (fst p) \<Longrightarrow> pr_legacy (fst p) \<Longrightarrow> pr_version (fst p) = 0"
    using chain_ok_probe_legacy [OF ok] by (simp add: p_def)
  note dw = decide_write [OF v legacy0]
  define pl where "pl = plan_commit A sid input epoch (av_pack A default_snapshot_codec (archive_of (the d)))
      (av_raw_size A (archive_of (the d))) p v"
  have "write_ok A sid input epoch (archive_of (the d)) st pl"
    using v dw base by (auto simp: write_ok_def pl_def p_def)
  moreover have "r = \<lparr>cr_version = v,
        cr_content_hash = av_sha A (av_pack A default_snapshot_codec (archive_of (the d))),
        cr_size_bytes = me_size_bytes (cp_meta pl),
        cr_raw_size_bytes = Some (av_raw_size A (archive_of (the d))), cr_already_committed = False\<rparr>"
    "st' = remove_previous pl (rename_meta pl (rename_tar pl st))"
    using c rdy v by (auto simp: commit_snapshot_defs Let_def pl_def p_def)
  ultimately show thesis using that [of pl] rdy dw by (auto simp: pl_def p_def)
qed

lemma commit_snapshot_unwritten:
  "commit_snapshot A st d sid input epoch = (Inl e, st') \<Longrightarrow> st' = st"
  "commit_snapshot A st d sid input epoch = (Inr r, st') \<Longrightarrow> cr_already_committed r \<Longrightarrow>
   st' = st \<and> pr_exists (fst (probe_unlocked st sid epoch)) \<and> \<not> pr_legacy (fst (probe_unlocked st sid epoch)) \<and>
   cr_version r = ci_base_version input + 1 \<and>
   pr_version (fst (probe_unlocked st sid epoch)) = cr_version r \<and>
   pr_turn_key (fst (probe_unlocked st sid epoch)) = Some (ci_turn_key input)"
  by (auto simp: commit_snapshot_defs Let_def decide_commit_def split: if_split_asm)

text \<open>Epochs naming the same chain read the same files.\<close>

lemma same_chain:
  assumes "chain_of e = chain_of epoch"
  shows "chain_ok A sid st e = chain_ok A sid st epoch" "fs_head A sid e st = fs_head A sid epoch st"
proof -
  have leg: "is_legacy_epoch e = is_legacy_epoch epoch" using assms chain_of_eq(2,3) by blast
  then have "\<not> is_legacy_epoch e \<Longrightarrow> the e = the epoch" using assms chain_of_eq(4) by blast
  with leg have eqs: "chain_tar_name sid e = chain_tar_name sid epoch" "meta_path sid e = meta_path sid epoch"
    using assms by (auto simp: chain_tar_name_def fun_eq_iff)
  show "chain_ok A sid st e = chain_ok A sid st epoch"
    by (simp only: chain_ok_def versioned_meta_ok_def legacy_meta_ok_def leg eqs)
  have "probe_unlocked st sid e = probe_unlocked st sid epoch"
    by (simp only: probe_unlocked_def read_stored_meta_def leg eqs)
  then show "fs_head A sid e st = fs_head A sid epoch st" by (simp only: fs_head_def)
qed

text \<open>A write confined to one chain, which leaves it valid, leaves the store valid and the other heads.\<close>

lemma confined_write:
  assumes ok: "store_ok A sid st" "archiver_ok A" "CHR ''/'' \<notin> set sid"
    and other: "\<And>n. \<not> own_name sid epoch n \<Longrightarrow> st' n = st n" and new: "chain_ok A sid st' epoch"
  shows "store_ok A sid st'" "chain_of e \<noteq> chain_of epoch \<Longrightarrow> fs_head A sid e st' = fs_head A sid e st"
proof -
  have *: "chain_ok A sid st' e \<and> fs_head A sid e st' = fs_head A sid e st" if "chain_of e \<noteq> chain_of epoch" for e
  proof -
    have "own_name sid e n \<Longrightarrow> st' n = st n" for n
      using own_name_disjoint [OF that] other by blast
    moreover have "chain_ok A sid st e" using ok(1) by (simp add: store_ok_def)
    ultimately show ?thesis using chain_frame(1,3) ok(2,3) by blast
  qed
  then show "store_ok A sid st'"
    unfolding store_ok_def using new same_chain(1) by metis
  show "chain_of e \<noteq> chain_of epoch \<Longrightarrow> fs_head A sid e st' = fs_head A sid e st"
    using * by blast
qed

lemma commit_snapshot_keeps_ok:
  assumes "store_ok A sid st" "archiver_ok A" "CHR ''/'' \<notin> set sid" "ci_turn_key input \<noteq> []"
    and "0 \<le> ci_base_version input" "commit_snapshot A st d sid input epoch = (r, st')"
  shows "store_ok A sid st' \<and> (\<forall>e. chain_of e \<noteq> chain_of epoch \<longrightarrow> fs_head A sid e st' = fs_head A sid e st)"
proof (cases "\<exists>c. r = Inr c \<and> \<not> cr_already_committed c")
  case False
  then have "st' = st" using assms(6) commit_snapshot_unwritten by (cases r) blast+
  then show ?thesis using assms(1) by simp
next
  case True
  then obtain c where r: "r = Inr c" "\<not> cr_already_committed c" by blast
  have ok: "chain_ok A sid st e" for e using assms(1) by (simp add: store_ok_def)
  obtain pl where pl: "write_ok A sid input epoch (archive_of (the d)) st pl"
    "st' = remove_previous pl (rename_meta pl (rename_tar pl st))"
    using commit_snapshot_written [OF assms(6) [unfolded r(1)] r(2) ok assms(2,3,5)] by metis
  note wc = write_commits [OF ok assms(2,3,4) pl(1), folded pl(2)]
  show ?thesis
    using confined_write [OF assms(1-3), of epoch st'] wc(1,3) by blast
qed

section \<open>The contract holds\<close>

definition filesystem_store :: "'b archiver \<Rightarrow> 'b store_files versioned_snapshot_store" where
  "filesystem_store A =
     \<lparr>vs_probe_snapshot = (\<lambda>st sid epoch. Inr (probe_snapshot st sid epoch)),
      vs_commit_snapshot = commit_snapshot A, vs_hydrate_snapshot = hydrate_snapshot A\<rparr>"

definition fs_valid :: "'b archiver \<Rightarrow> string \<Rightarrow> 'b store_files \<Rightarrow> bool" where
  "fs_valid A sid st \<longleftrightarrow> archiver_ok A \<and> CHR ''/'' \<notin> set sid \<and> store_ok A sid st"

interpretation fs: versioned_store "filesystem_store A" "fs_valid A sid" "fs_head A sid epoch" sid epoch
  for A :: "'b archiver" and sid epoch
proof
  fix st :: "'b store_files" and p
  assume "fs_valid A sid st" "vs_probe_snapshot (filesystem_store A) st sid epoch = Inr p"
  then show "probe_matches p (fs_head A sid epoch st)"
    using probe_matches_head [of A sid st epoch]
    by (auto simp: fs_valid_def store_ok_def filesystem_store_def probe_snapshot_def)
next
  fix st :: "'b store_files" and d r d'
  assume "fs_valid A sid st" "vs_hydrate_snapshot (filesystem_store A) st d sid epoch = (Inr r, d')"
  then show "\<exists>h. fs_head A sid epoch st = Some h \<and> hydrated_from r d' h"
    using hydrate_restores_head [of A sid st epoch d]
    by (auto simp: fs_valid_def store_ok_def filesystem_store_def split: option.split_asm)
next
  fix st :: "'b store_files" and d e d'
  assume "vs_hydrate_snapshot (filesystem_store A) st d sid epoch = (Inl e, d')"
  then show "d' = d"
    by (auto simp: filesystem_store_def hydrate_snapshot_defs Let_def
        split: prod.split_asm option.split_asm store_file.split_asm unpacked.split_asm if_split_asm)
next
  fix st st' :: "'b store_files" and d input e
  assume "fs_valid A sid st" "vs_commit_snapshot (filesystem_store A) st d sid input epoch = (Inl e, st')"
  then show "fs_valid A sid st' \<and> fs_head A sid epoch st' = fs_head A sid epoch st"
    using commit_snapshot_unwritten(1) by (fastforce simp: filesystem_store_def)
next
  fix st st' :: "'b store_files" and d input c
  assume *: "fs_valid A sid st" "vs_commit_snapshot (filesystem_store A) st d sid input epoch = (Inr c, st')"
    "cr_already_committed c"
  then have u: "st' = st" "pr_exists (probe_snapshot st sid epoch)" "cr_version c = ci_base_version input + 1"
      "pr_version (probe_snapshot st sid epoch) = cr_version c"
      "pr_turn_key (probe_snapshot st sid epoch) = Some (ci_turn_key input)"
    using commit_snapshot_unwritten(2) [of A st d sid input epoch c st']
    by (auto simp: filesystem_store_def probe_snapshot_def)
  have "probe_matches (probe_snapshot st sid epoch) (fs_head A sid epoch st)"
    using * probe_matches_head [of A sid st epoch] by (simp add: fs_valid_def store_ok_def probe_snapshot_def)
  then show "fs_valid A sid st' \<and> fs_head A sid epoch st' = fs_head A sid epoch st \<and>
      cr_version c = ci_base_version input + 1 \<and>
      (\<exists>h. fs_head A sid epoch st = Some h \<and> ch_version h = cr_version c \<and>
           ch_turn_key h = Some (ci_turn_key input))"
    using u * by (auto simp: probe_matches_def split: option.split_asm)
next
  fix st st' :: "'b store_files" and d input c
  assume v: "fs_valid A sid st" and k: "ci_turn_key input \<noteq> []" "0 \<le> ci_base_version input"
    and c: "vs_commit_snapshot (filesystem_store A) st d sid input epoch = (Inr c, st')" "\<not> cr_already_committed c"
  then have ok: "chain_ok A sid st epoch" "archiver_ok A" "CHR ''/'' \<notin> set sid" "store_ok A sid st"
    by (auto simp: fs_valid_def store_ok_def)
  have c': "commit_snapshot A st d sid input epoch = (Inr c, st')" using c(1) by (simp add: filesystem_store_def)
  obtain pl where pl: "check_session_snapshot d"
    "write_ok A sid input epoch (archive_of (the d)) st pl" "cp_version pl = cr_version c"
    "cr_version c = ci_base_version input + 1"
    "pr_exists (fst (probe_unlocked st sid epoch)) \<longrightarrow>
     pr_version (fst (probe_unlocked st sid epoch)) = ci_base_version input"
    "cr_content_hash c = av_sha A (av_pack A default_snapshot_codec (archive_of (the d)))"
    "st' = remove_previous pl (rename_meta pl (rename_tar pl st))"
    by (rule commit_snapshot_written [OF c' c(2) ok(1-3) k(2)])
  have "case fs_head A sid epoch st of None \<Rightarrow> True | Some h \<Rightarrow> ch_version h = ci_base_version input"
    using pl(5) probe_matches_head [OF ok(1-3)] by (auto simp: probe_matches_def split: option.splits)
  moreover have "cr_content_hash c \<noteq> []" using pl(6) ok(2) by (simp add: archiver_ok_def)
  moreover have "fs_valid A sid st'"
    using commit_snapshot_keeps_ok [OF ok(4,2,3) k c'] ok by (simp add: fs_valid_def)
  moreover have "fs_head A sid epoch st' = Some (committed_head A input (archive_of (the d)) (cr_version c))"
    using write_commits(2) [OF ok(1-3) k(1) pl(2)] by (simp add: pl)
  ultimately show "fs_valid A sid st' \<and> check_session_snapshot d \<and>
      cr_version c = ci_base_version input + 1 \<and>
      (case fs_head A sid epoch st of None \<Rightarrow> True | Some h \<Rightarrow> ch_version h = ci_base_version input) \<and>
      cr_content_hash c \<noteq> [] \<and>
      fs_head A sid epoch st' = Some \<lparr>ch_version = cr_version c, ch_turn_key = Some (ci_turn_key input),
         ch_content_hash = Some (cr_content_hash c), ch_content = archive_of (the d)\<rparr>"
    using pl by (simp add: committed_head_def)
qed

section \<open>Properties\<close>

text \<open>A concrete archiver and session, for the witnesses.\<close>

definition plain_archiver :: "(snapshot_codec \<times> archived) archiver" where
  "plain_archiver =
     \<lparr>av_pack = Pair, av_unpack = (\<lambda>c (c', a). if c = c' then Unpacked a else Extract_failed),
      av_sha = (\<lambda>_. ''abc''), av_size = (\<lambda>_. 3), av_raw_size = (\<lambda>_. 7)\<rparr>"

definition sample_dir :: session_dir where
  "sample_dir = \<lparr>sd_entries = [(''workspace.yaml'', File ''cwd'')],
     sd_commit = Some (Json_ok (''turn-1'', JStr ''done'')), sd_marker = None, sd_sentinel = None\<rparr>"

lemma plain_archiver_ok: "archiver_ok plain_archiver"
  by (simp add: archiver_ok_def plain_archiver_def)

lemma empty_store_valid: "fs_valid plain_archiver ''s'' (\<lambda>_. None)"
  by (simp add: fs_valid_def plain_archiver_ok store_ok_def chain_ok_def legacy_tar_ok_def)

lemma sample_dir_ready: "check_session_snapshot (Some sample_dir)"
  by code_simp





text \<open>
  A commit into one transcript epoch, whoever makes it, leaves the chain of every other epoch
  as it was: a late commit of a dead epoch cannot disturb the living one.
\<close>

theorem commit_snapshot_other_epochs:
  assumes "fs_valid A sid st" "ci_turn_key input \<noteq> []" "0 \<le> ci_base_version input"
    and "chain_of e \<noteq> chain_of epoch"
  shows "fs_head A sid e (snd (commit_snapshot A st d sid input epoch)) = fs_head A sid e st"
  using commit_snapshot_keeps_ok [where A = A and sid = sid and st = st and input = input and d = d and epoch = epoch] assms
  by (cases "commit_snapshot A st d sid input epoch") (auto simp: fs_valid_def)

theorem commit_snapshot_other_epochs_witness:
  "fs_head plain_archiver ''s'' (Some 1)
     (snd (commit_snapshot plain_archiver (\<lambda>_. None) (Some sample_dir) ''s''
        \<lparr>ci_base_version = 0, ci_turn_key = ''turn-1''\<rparr> None)) =
   fs_head plain_archiver ''s'' (Some 1) (\<lambda>_. None)"
  by (rule commit_snapshot_other_epochs [OF empty_store_valid])
    (simp_all add: chain_of_def is_legacy_epoch_def)

text \<open>
  C35. What a commit wrote, any worker can restore and no one needs to write again: hydrating the
  same chain afterwards replaces the directory with the packed one and reports the committed
  version, and committing the same turn again, from any directory that is ready, changes nothing
  and reports it as already committed.
\<close>

theorem commit_then_hydrate:
  assumes valid: "fs_valid A sid st" "ci_turn_key input \<noteq> []" "0 \<le> ci_base_version input"
    and c: "commit_snapshot A st d sid input epoch = (Inr r, st')" "\<not> cr_already_committed r"
    and ready: "check_session_snapshot d2"
  shows "(\<exists>hr. hydrate_snapshot A st' d3 sid epoch = (Inr hr, Some (unpack (archive_of (the d)))) \<and>
           hr_version hr = cr_version r) \<and>
    (\<exists>r2. commit_snapshot A st' d2 sid input epoch = (Inr r2, st') \<and> cr_already_committed r2 \<and>
           cr_version r2 = cr_version r)"
proof -
  have op: "vs_commit_snapshot (filesystem_store A) st d sid input epoch = (Inr r, st')"
    using c by (simp add: filesystem_store_def)
  note w = fs.commit_written [OF valid op c(2)]
  then have ok: "chain_ok A sid st' epoch" "archiver_ok A" "CHR ''/'' \<notin> set sid"
    by (auto simp: fs_valid_def store_ok_def)
  have h: "\<exists>hr. hydrate_snapshot A st' d3 sid epoch = (Inr hr, Some (unpack (archive_of (the d)))) \<and>
           hr_version hr = cr_version r"
    using hydrate_restores_head [OF ok, of d3] w by (auto simp: hydrated_from_def)
  have m: "probe_matches (fst (probe_unlocked st' sid epoch)) (fs_head A sid epoch st')"
    by (rule probe_matches_head [OF ok])
  have "decide_commit sid input (fst (probe_unlocked st' sid epoch)) = Already_committed
     \<lparr>cr_version = cr_version r, cr_content_hash = cr_content_hash r, cr_size_bytes = None,
      cr_raw_size_bytes = None, cr_already_committed = True\<rparr>"
    using m w valid(3) by (simp add: probe_matches_def decide_commit_def)
  then show ?thesis using h ready by (simp add: commit_snapshot_defs Let_def)
qed

theorem commit_then_hydrate_witness:
  "let inp = \<lparr>ci_base_version = 0, ci_turn_key = ''turn-1''\<rparr>;
       st' = snd (commit_snapshot plain_archiver (\<lambda>_. None) (Some sample_dir) ''s'' inp (Some 1))
   in \<exists>hr. hydrate_snapshot plain_archiver st' None ''s'' (Some 1) =
        (Inr hr, Some (unpack (archive_of sample_dir)))"
proof -
  define inp where "inp = \<lparr>ci_base_version = 0, ci_turn_key = ''turn-1''\<rparr>"
  have p: "probe_unlocked (\<lambda>_. None) ''s'' (Some 1) = (absent_probe, None)"
    by (simp add: probe_unlocked_def read_stored_meta_def is_legacy_epoch_def Let_def)
  obtain r st' where "commit_snapshot plain_archiver (\<lambda>_. None) (Some sample_dir) ''s'' inp (Some 1) = (Inr r, st')"
    "\<not> cr_already_committed r"
    by (simp add: commit_snapshot_defs sample_dir_ready p decide_commit_def absent_probe_def Let_def inp_def)
  with commit_then_hydrate [OF empty_store_valid _ _ this, of "Some sample_dir" None] show ?thesis
    by (auto simp: inp_def [symmetric] sample_dir_ready) (auto simp: inp_def)
qed

end
