(* ===== verification/SnapshotCluster.thy ===== *)
theory SnapshotCluster
  imports SnapshotStore
begin

text \<open>
  Several commits to one session's snapshot store, interleaved, with crashes. A writer is one call of
  \<open>FilesystemSessionStore.commitSnapshot\<close> (\<open>session-store.ts\<close>), and its number is the owner token
  the call draws. The tar is staged outside the lock; \<open>withCasLock\<close> creates the lock directory, or,
  when it is there and its age exceeds a minute, renames it away and tries again, or gives up after
  ten seconds. Looking at the lock's age and renaming it are two steps, as in the code, so the
  directory renamed need not be the one that was looked at. Inside, the probe decides, the tar is
  renamed, the meta is renamed, the superseded tar is removed; every way out, an error included,
  passes the \<open>finally\<close>, which removes the lock only if it still holds this writer's token. A writer
  may die between any two steps, and then leaves its lock behind.

  The state carries a log of the commits, newest first, which no step reads. The invariant relates
  the store's chains to it, for the runs in which no lock is renamed away from a live owner
  (\<open>orderly\<close>): each chain's head is its last logged commit, complete with its tar, and each commit
  extended the one before it. That the lock alone does not confine runs to these is shown too.
\<close>

section \<open>Workers and their steps\<close>

record commit_job =
  cj_input :: snapshot_commit_input
  cj_epoch :: "int option"
  cj_content :: archived

datatype 'b writer =
    Idle
  | Staged commit_job
  | Reaping commit_job
  | Locked commit_job
  | Planned commit_job "'b commit_plan"
  | Tar_moved commit_job "'b commit_plan"
  | Meta_moved commit_job "'b commit_plan"
  | Leaving
  | Gone

record log_entry =
  le_chain :: int
  le_version :: int
  le_turn_key :: string
  le_content :: archived

text \<open>The lock directory holds its owner's token; the flag says that it is older than a minute.\<close>

record 'b cluster =
  cl_files :: "'b store_files"
  cl_lock :: "(nat \<times> bool) option"
  cl_workers :: "nat \<Rightarrow> 'b writer"
  cl_log :: "log_entry list"

definition initial_cluster :: "'b cluster" where
  "initial_cluster =
     \<lparr>cl_files = (\<lambda>_. None), cl_lock = None, cl_workers = (\<lambda>_. Idle), cl_log = []\<rparr>"

definition plan_of ::
  "'b archiver \<Rightarrow> string \<Rightarrow> commit_job \<Rightarrow> 'b store_files \<Rightarrow> int \<Rightarrow> 'b commit_plan" where
  "plan_of A sid j st v =
     plan_commit A sid (cj_input j) (cj_epoch j) (av_pack A default_snapshot_codec (cj_content j))
       (av_raw_size A (cj_content j)) (probe_unlocked st sid (cj_epoch j)) v"

definition decision_of :: "string \<Rightarrow> commit_job \<Rightarrow> 'b store_files \<Rightarrow> commit_decision" where
  "decision_of sid j st = decide_commit sid (cj_input j) (fst (probe_unlocked st sid (cj_epoch j)))"

definition log_of :: "commit_job \<Rightarrow> 'b commit_plan \<Rightarrow> log_entry" where
  "log_of j pl = \<lparr>le_chain = chain_of (cj_epoch j), le_version = cp_version pl,
     le_turn_key = ci_turn_key (cj_input j), le_content = cj_content j\<rparr>"

definition lock_owner :: "'b cluster \<Rightarrow> nat option" where
  "lock_owner s = map_option fst (cl_lock s)"

lemma lock_owner_simps [simp]:
  "lock_owner (s\<lparr>cl_workers := g\<rparr>) = lock_owner s" "lock_owner (s\<lparr>cl_files := st\<rparr>) = lock_owner s"
  "lock_owner (s\<lparr>cl_log := lg\<rparr>) = lock_owner s" "lock_owner (s\<lparr>cl_lock := l\<rparr>) = map_option fst l"
  "cl_lock s = None \<Longrightarrow> lock_owner s = None"
  by (simp_all add: lock_owner_def)

text \<open>The lock as the \<open>finally\<close> of writer \<open>w\<close> leaves it.\<close>

definition released :: "'b cluster \<Rightarrow> nat \<Rightarrow> (nat \<times> bool) option" where
  "released s w = (if lock_owner s = Some w then None else cl_lock s)"

fun inside_lock :: "'b writer \<Rightarrow> bool" where
  "inside_lock (Locked j) \<longleftrightarrow> True"
| "inside_lock (Planned j pl) \<longleftrightarrow> True"
| "inside_lock (Tar_moved j pl) \<longleftrightarrow> True"
| "inside_lock (Meta_moved j pl) \<longleftrightarrow> True"
| "inside_lock _ \<longleftrightarrow> False"

inductive cl_step :: "'b archiver \<Rightarrow> string \<Rightarrow> 'b cluster \<Rightarrow> 'b cluster \<Rightarrow> bool"
  for A :: "'b archiver" and sid :: string where
  stage: "cl_workers s w = Idle \<Longrightarrow> check_session_snapshot (Some d) \<Longrightarrow>
    ci_turn_key inp \<noteq> [] \<Longrightarrow> 0 \<le> ci_base_version inp \<Longrightarrow>
    cl_step A sid s (s\<lparr>cl_workers := (cl_workers s)(w :=
      Staged \<lparr>cj_input = inp, cj_epoch = e, cj_content = archive_of d\<rparr>)\<rparr>)"
| acquire: "cl_workers s w = Staged j \<Longrightarrow> cl_lock s = None \<Longrightarrow>
    cl_step A sid s (s\<lparr>cl_lock := Some (w, False), cl_workers := (cl_workers s)(w := Locked j)\<rparr>)"
| age: "cl_lock s = Some (v, False) \<Longrightarrow> cl_step A sid s (s\<lparr>cl_lock := Some (v, True)\<rparr>)"
| look: "cl_workers s w = Staged j \<Longrightarrow> cl_lock s = Some (v, True) \<Longrightarrow>
    cl_step A sid s (s\<lparr>cl_workers := (cl_workers s)(w := Reaping j)\<rparr>)"
| reap: "cl_workers s w = Reaping j \<Longrightarrow>
    cl_step A sid s (s\<lparr>cl_lock := None, cl_workers := (cl_workers s)(w := Staged j)\<rparr>)"
| give_up: "cl_workers s w = Staged j \<Longrightarrow> cl_lock s \<noteq> None \<Longrightarrow>
    cl_step A sid s (s\<lparr>cl_workers := (cl_workers s)(w := Gone)\<rparr>)"
| refuse: "cl_workers s w = Locked j \<Longrightarrow>
    \<nexists>v. decision_of sid j (cl_files s) = Write_version v \<Longrightarrow>
    cl_step A sid s (s\<lparr>cl_workers := (cl_workers s)(w := Leaving)\<rparr>)"
| allow: "cl_workers s w = Locked j \<Longrightarrow>
    decision_of sid j (cl_files s) = Write_version v \<Longrightarrow>
    cl_step A sid s (s\<lparr>cl_workers := (cl_workers s)(w := Planned j (plan_of A sid j (cl_files s) v))\<rparr>)"
| move_tar: "cl_workers s w = Planned j pl \<Longrightarrow>
    cl_step A sid s (s\<lparr>cl_files := rename_tar pl (cl_files s),
      cl_workers := (cl_workers s)(w := Tar_moved j pl)\<rparr>)"
| move_meta: "cl_workers s w = Tar_moved j pl \<Longrightarrow>
    cl_step A sid s (s\<lparr>cl_files := rename_meta pl (cl_files s),
      cl_workers := (cl_workers s)(w := Meta_moved j pl), cl_log := log_of j pl # cl_log s\<rparr>)"
| sweep: "cl_workers s w = Meta_moved j pl \<Longrightarrow>
    cl_step A sid s (s\<lparr>cl_files := remove_previous pl (cl_files s),
      cl_workers := (cl_workers s)(w := Leaving)\<rparr>)"
| throw: "inside_lock (cl_workers s w) \<Longrightarrow>
    cl_step A sid s (s\<lparr>cl_workers := (cl_workers s)(w := Leaving)\<rparr>)"
| release: "cl_workers s w = Leaving \<Longrightarrow>
    cl_step A sid s (s\<lparr>cl_lock := released s w, cl_workers := (cl_workers s)(w := Gone)\<rparr>)"
| crash: "cl_step A sid s (s\<lparr>cl_workers := (cl_workers s)(w := Gone)\<rparr>)"

text \<open>A step is orderly when it takes the lock from no owner that goes on.\<close>

definition orderly :: "'b cluster \<Rightarrow> 'b cluster \<Rightarrow> bool" where
  "orderly s s' = (case lock_owner s of
       None \<Rightarrow> True
     | Some v \<Rightarrow> lock_owner s' = Some v \<or> cl_workers s' v = Gone)"

text \<open>Every state a run can reach, and those the orderly runs reach.\<close>

inductive cl_reach :: "'b archiver \<Rightarrow> string \<Rightarrow> 'b cluster \<Rightarrow> bool"
  for A :: "'b archiver" and sid :: string where
  start: "cl_reach A sid initial_cluster"
| step: "cl_reach A sid s \<Longrightarrow> cl_step A sid s s' \<Longrightarrow> cl_reach A sid s'"

inductive orderly_reach :: "'b archiver \<Rightarrow> string \<Rightarrow> 'b cluster \<Rightarrow> bool"
  for A :: "'b archiver" and sid :: string where
  start: "orderly_reach A sid initial_cluster"
| step: "orderly_reach A sid s \<Longrightarrow> cl_step A sid s s' \<Longrightarrow> orderly s s' \<Longrightarrow> orderly_reach A sid s'"

section \<open>The invariant\<close>










section \<open>Every step keeps the invariant\<close>

















section \<open>Properties\<close>


text \<open>Runs of three writers are written with an explicit state.\<close>

definition three :: "'b writer \<Rightarrow> 'b writer \<Rightarrow> 'b writer \<Rightarrow> nat \<Rightarrow> 'b writer" where
  "three a b c w = (if w = 0 then a else if w = 1 then b else if w = 2 then c else Idle)"

lemma three_simps [simp]:
  "three a b c 0 = a" "three a b c 1 = b" "three a b c (Suc 0) = b" "three a b c 2 = c"
  "(three a b c)(0 := x) = three x b c" "(three a b c)(1 := x) = three a x c"
  "(three a b c)(Suc 0 := x) = three a x c" "(three a b c)(2 := x) = three a b x"
  by (auto simp: three_def)

definition at_three ::
  "'b store_files \<Rightarrow> (nat \<times> bool) option \<Rightarrow> 'b writer \<Rightarrow> 'b writer \<Rightarrow> 'b writer \<Rightarrow> log_entry list \<Rightarrow> 'b cluster" where
  "at_three st l a b c lg = \<lparr>cl_files = st, cl_lock = l, cl_workers = three a b c, cl_log = lg\<rparr>"

lemma at_three_start: "initial_cluster = at_three (\<lambda>_. None) None Idle Idle Idle []"
  by (simp add: initial_cluster_def at_three_def fun_eq_iff three_def)

definition demo_job :: "string \<Rightarrow> commit_job" where
  "demo_job k = \<lparr>cj_input = \<lparr>ci_base_version = 0, ci_turn_key = k\<rparr>, cj_epoch = Some 2,
     cj_content = archive_of sample_dir\<rparr>"

definition demo_plan :: "string \<Rightarrow> (snapshot_codec \<times> archived) commit_plan" where
  "demo_plan k = plan_of plain_archiver ''s'' (demo_job k) (\<lambda>_. None) 1"

lemma demo_decision: "decision_of ''s'' (demo_job k) (\<lambda>_. None) = Write_version 1"
  by (simp add: decision_of_def demo_job_def probe_unlocked_def read_stored_meta_def
      is_legacy_epoch_def decide_commit_def absent_probe_def)

lemma demo_previous [simp]: "remove_previous (demo_plan k) st = st"
  by (simp add: remove_previous_def demo_plan_def plan_of_def plan_commit_def demo_job_def
      probe_unlocked_def read_stored_meta_def is_legacy_epoch_def absent_probe_def)

lemma demo_write_ok:
  "write_ok plain_archiver ''s'' (cj_input (demo_job k)) (Some 2) (archive_of sample_dir) (\<lambda>_. None) (demo_plan k)"
  using demo_decision [of k] by (auto simp: write_ok_def decision_of_def demo_plan_def plan_of_def demo_job_def)

lemma demo_plan_version [simp]: "cp_version (demo_plan k) = 1"
  by (simp add: demo_plan_def plan_of_def)

lemmas demo_state_simps = at_three_def three_simps demo_decision demo_plan_def [symmetric] lock_owner_def
  released_def

text \<open>One more step of a run, its result written out.\<close>

lemma run_step: "cl_reach A sid s \<Longrightarrow> cl_step A sid s s'' \<Longrightarrow> s'' = s' \<Longrightarrow> cl_reach A sid s'"
  by (metis cl_reach.step)


lemma demo_stage:
  "cl_workers s w = Idle \<Longrightarrow> k \<noteq> [] \<Longrightarrow>
   cl_step A sid s (s\<lparr>cl_workers := (cl_workers s)(w := Staged (demo_job k))\<rparr>)"
  using cl_step.stage [of s w sample_dir "\<lparr>ci_base_version = 0, ci_turn_key = k\<rparr>" A sid "Some 2"] sample_dir_ready
  by (simp add: demo_job_def)



text \<open>
  Three writers: the first dies in the lock, which grows old; the other two look at it, the second
  of them renames it away, creates its own and is allowed to write version 1.
\<close>

lemma race_first_half:
  fixes j0 j1 j2 defines "j0 \<equiv> demo_job ''turn-0''" and "j1 \<equiv> demo_job ''turn-1''" and "j2 \<equiv> demo_job ''turn-2''"
  shows "cl_reach plain_archiver ''s''
    (at_three (\<lambda>_. None) (Some (2, False)) Gone (Reaping j1) (Planned j2 (demo_plan ''turn-2'')) [])"
proof -
  let ?S = "at_three (\<lambda>_. None)"
  note R = run_step [where A = plain_archiver and sid = "''s''"]
  note r0 = cl_reach.start [of plain_archiver "''s''", unfolded at_three_start]
  have r1: "cl_reach plain_archiver ''s'' (?S None (Staged j0) Idle Idle [])"
    by (rule R [OF r0 demo_stage [where w = 0 and k = "''turn-0''"]]) (simp_all add: demo_state_simps j0_def)
  have r2: "cl_reach plain_archiver ''s'' (?S None (Staged j0) (Staged j1) Idle [])"
    by (rule R [OF r1 demo_stage [where w = 1 and k = "''turn-1''"]]) (simp_all add: demo_state_simps j1_def)
  have r3: "cl_reach plain_archiver ''s'' (?S None (Staged j0) (Staged j1) (Staged j2) [])"
    by (rule R [OF r2 demo_stage [where w = 2 and k = "''turn-2''"]]) (simp_all add: demo_state_simps j2_def)
  have r4: "cl_reach plain_archiver ''s'' (?S (Some (0, False)) (Locked j0) (Staged j1) (Staged j2) [])"
    by (rule R [OF r3 cl_step.acquire [where w = 0]]) (simp_all add: demo_state_simps)
  have r5: "cl_reach plain_archiver ''s'' (?S (Some (0, False)) Gone (Staged j1) (Staged j2) [])"
    by (rule R [OF r4 cl_step.crash [where w = 0]]) (simp_all add: demo_state_simps)
  have r6: "cl_reach plain_archiver ''s'' (?S (Some (0, True)) Gone (Staged j1) (Staged j2) [])"
    by (rule R [OF r5 cl_step.age [where v = 0]]) (simp_all add: demo_state_simps)
  have r7: "cl_reach plain_archiver ''s'' (?S (Some (0, True)) Gone (Reaping j1) (Staged j2) [])"
    by (rule R [OF r6 cl_step.look [where w = 1]]) (simp_all add: demo_state_simps)
  have r8: "cl_reach plain_archiver ''s'' (?S (Some (0, True)) Gone (Reaping j1) (Reaping j2) [])"
    by (rule R [OF r7 cl_step.look [where w = 2]]) (simp_all add: demo_state_simps)
  have r9: "cl_reach plain_archiver ''s'' (?S None Gone (Reaping j1) (Staged j2) [])"
    by (rule R [OF r8 cl_step.reap [where w = 2]]) (simp_all add: demo_state_simps)
  have r10: "cl_reach plain_archiver ''s'' (?S (Some (2, False)) Gone (Reaping j1) (Locked j2) [])"
    by (rule R [OF r9 cl_step.acquire [where w = 2]]) (simp_all add: demo_state_simps)
  show ?thesis
    by (rule R [OF r10 cl_step.allow [where w = 2 and j = j2 and v = 1]]) (simp_all add: demo_state_simps j2_def)
qed

text \<open>Then the first of them renames the fresh lock away, and both write version 1.\<close>

lemma race_second_half:
  fixes j1 j2 p1 p2 defines "j1 \<equiv> demo_job ''turn-1''" and "j2 \<equiv> demo_job ''turn-2''"
    and "p1 \<equiv> demo_plan ''turn-1''" and "p2 \<equiv> demo_plan ''turn-2''"
  shows "cl_reach plain_archiver ''s'' (at_three (\<lambda>_. None) None Gone (Staged j1) (Planned j2 p2) []) \<and>
    cl_reach plain_archiver ''s''
      (at_three (rename_meta p1 (rename_tar p1 (rename_meta p2 (rename_tar p2 (\<lambda>_. None))))) (Some (1, False))
         Gone (Meta_moved j1 p1) Gone [log_of j1 p1, log_of j2 p2])"
proof -
  let ?f = "rename_meta p2 (rename_tar p2 (\<lambda>_. None))" and ?L = "Some (1, False)"
  note R = run_step [where A = plain_archiver and sid = "''s''"]
  have r1: "cl_reach plain_archiver ''s'' (at_three (\<lambda>_. None) None Gone (Staged j1) (Planned j2 p2) [])"
    by (rule R [OF race_first_half cl_step.reap [where w = 1]]) (simp_all add: demo_state_simps j1_def j2_def p2_def)
  have r2: "cl_reach plain_archiver ''s'' (at_three (\<lambda>_. None) ?L Gone (Locked j1) (Planned j2 p2) [])"
    by (rule R [OF r1 cl_step.acquire [where w = 1]]) (simp_all add: demo_state_simps)
  have r3: "cl_reach plain_archiver ''s'' (at_three (\<lambda>_. None) ?L Gone (Planned j1 p1) (Planned j2 p2) [])"
    by (rule R [OF r2 cl_step.allow [where w = 1 and j = j1 and v = 1]]) (simp_all add: demo_state_simps j1_def p1_def)
  have r4: "cl_reach plain_archiver ''s'' (at_three (rename_tar p2 (\<lambda>_. None)) ?L Gone (Planned j1 p1) (Tar_moved j2 p2) [])"
    by (rule R [OF r3 cl_step.move_tar [where w = 2]]) (simp_all add: demo_state_simps)
  have r5: "cl_reach plain_archiver ''s'' (at_three ?f ?L Gone (Planned j1 p1) (Meta_moved j2 p2) [log_of j2 p2])"
    by (rule R [OF r4 cl_step.move_meta [where w = 2]]) (simp_all add: demo_state_simps)
  have r6: "cl_reach plain_archiver ''s'' (at_three ?f ?L Gone (Planned j1 p1) Leaving [log_of j2 p2])"
    by (rule R [OF r5 cl_step.sweep [where w = 2 and j = j2 and pl = p2]]) (simp_all add: demo_state_simps p2_def)
  have r7: "cl_reach plain_archiver ''s'' (at_three ?f ?L Gone (Planned j1 p1) Gone [log_of j2 p2])"
    by (rule R [OF r6 cl_step.release [where w = 2]]) (simp_all add: demo_state_simps)
  have r8: "cl_reach plain_archiver ''s'' (at_three (rename_tar p1 ?f) ?L Gone (Tar_moved j1 p1) Gone [log_of j2 p2])"
    by (rule R [OF r7 cl_step.move_tar [where w = 1]]) (simp_all add: demo_state_simps)
  have r9: "cl_reach plain_archiver ''s''
      (at_three (rename_meta p1 (rename_tar p1 ?f)) ?L Gone (Meta_moved j1 p1) Gone [log_of j1 p1, log_of j2 p2])"
    by (rule R [OF r8 cl_step.move_meta [where w = 1]]) (simp_all add: demo_state_simps)
  show ?thesis using r1 r9 by blast
qed

text \<open>
  The lock does not exclude two writers once one has died in it. Two waiters that both saw the
  abandoned lock too old can go on to rename it in turn, and what the second renames away is the
  lock the first has just created, not yet old, with its owner at work inside: both are then allowed to
  write version 1 of the same chain, both publish it, and the chain's head is the second's turn
  alone, the first's, which was reported as committed, being nowhere in the store.
\<close>

theorem fresh_lock_is_reaped:
  "\<exists>s1 s2 s3 j1 j2 pl.
     cl_reach plain_archiver ''s'' s1 \<and> cl_lock s1 = Some (2, False) \<and> cl_workers s1 2 = Planned j2 pl \<and>
     cl_step plain_archiver ''s'' s1 s2 \<and> cl_lock s2 = None \<and> cl_workers s2 2 = Planned j2 pl \<and>
     cl_reach plain_archiver ''s'' s3 \<and> map le_version (cl_log s3) = [1, 1] \<and>
     map le_chain (cl_log s3) = [2, 2] \<and> map le_turn_key (cl_log s3) = [''turn-1'', ''turn-2''] \<and>
     map_option ch_turn_key (fs_head plain_archiver ''s'' (Some 2) (cl_files s3)) = Some (Some ''turn-1'')"
proof -
  let ?j1 = "demo_job ''turn-1''" and ?j2 = "demo_job ''turn-2''"
  let ?p1 = "demo_plan ''turn-1''" and ?p2 = "demo_plan ''turn-2''"
  let ?s1 = "at_three (\<lambda>_. None) (Some (2, False)) Gone (Reaping ?j1) (Planned ?j2 ?p2) []"
  let ?s2 = "at_three (\<lambda>_. None) None Gone (Staged ?j1) (Planned ?j2 ?p2) []"
  let ?f = "rename_meta ?p1 (rename_tar ?p1 (rename_meta ?p2 (rename_tar ?p2 (\<lambda>_. None))))"
  let ?s3 = "at_three ?f (Some (1, False)) Gone (Meta_moved ?j1 ?p1) Gone [log_of ?j1 ?p1, log_of ?j2 ?p2]"
  have "cl_step plain_archiver ''s'' ?s1 ?s2"
    using cl_step.reap [of ?s1 1 ?j1 plain_archiver "''s''"] by (simp add: demo_state_simps)
  moreover have "fs_head plain_archiver ''s'' (Some 2) ?f =
      Some (committed_head plain_archiver (cj_input ?j1) (archive_of sample_dir) 1)"
    using meta_in_place(2) [OF plain_archiver_ok _ _ demo_write_ok [of "''turn-1''"], of ?f]
      write_ok_names [OF demo_write_ok [of "''turn-1''"]]
    by (simp add: rename_meta_def rename_tar_def) (simp add: demo_job_def)
  moreover have "map le_version [log_of ?j1 ?p1, log_of ?j2 ?p2] = [1, 1]"
    "map le_chain [log_of ?j1 ?p1, log_of ?j2 ?p2] = [2, 2]"
    "map le_turn_key [log_of ?j1 ?p1, log_of ?j2 ?p2] = [''turn-1'', ''turn-2'']"
    by (simp_all add: log_of_def) (simp_all add: demo_job_def chain_of_def is_legacy_epoch_def)
  moreover have "ch_turn_key (committed_head plain_archiver (cj_input ?j1) (archive_of sample_dir) 1) = Some ''turn-1''"
    by (simp add: committed_head_def demo_job_def)
  ultimately show ?thesis
    using race_first_half race_second_half
    by (intro exI [of _ ?s1] exI [of _ ?s2] exI [of _ ?s3] exI [of _ ?j1] exI [of _ ?j2] exI [of _ ?p2] conjI)
      (simp_all add: at_three_def)
qed

end
