(* ===== verification/SessionLifecycle.thy ===== *)
theory SessionLifecycle
  imports SnapshotStore
begin

text \<open>
  \<open>packages/sdk/src/session-lifecycle.ts\<close>: what a turn does before and after its body. The
  preamble reconciles the worker's session directory with the snapshot store (the store wins);
  the commit publishes the turn's directory by compare-and-swap, with up to three attempts.

  The operations take a store through the contract's record of operations and thread a state: the
  store, the worker's directory of the session, and whether the worker holds the session in
  memory. Traces and the back-off sleeps are left out; the clock is a field of the context.

  The client lemmas are proved once, in the context of the contract \<open>versioned_store\<close>; the
  properties are theirs on the filesystem store.
\<close>

section \<open>Context, state, outcomes\<close>

record 'st turn_lifecycle_context =
  lc_store :: "'st versioned_snapshot_store"
  lc_session_id :: string
  lc_transcript_epoch :: int
  lc_expected_version :: int
  lc_turn_key :: string
  lc_now :: string

record 'st lifecycle_state =
  ls_store :: 'st
  ls_dir :: "session_dir option"
  ls_warm_session :: bool

datatype turn_preamble_outcome =
    Warm int
  | Hydrated int bool "(int \<times> int) option"
  | Already_committed_turn int jsval
  | Fresh int bool

datatype unpublished_reason = Stopped | Superseded

record turn_commit_outcome =
  to_version :: int
  to_content_hash :: string
  to_size_bytes :: "int option"
  to_raw_size_bytes :: "int option"
  to_already_committed :: bool
  to_stored_result :: "jsval option"
  to_published :: bool
  to_unpublished_reason :: "unpublished_reason option"
  to_observed_store_version :: "int option"
  to_observed_store_turn_key :: "string option"

section \<open>Helpers\<close>

definition has_usable_session_layout :: "session_dir option \<Rightarrow> bool" where
  "has_usable_session_layout d = (case d of None \<Rightarrow> False | Some x \<Rightarrow> dir_has x ''workspace.yaml'')"

definition content_matches :: "string option \<Rightarrow> string option \<Rightarrow> bool" where
  "content_matches marker_hash probe_hash =
     (if truthy_str marker_hash \<and> truthy_str probe_hash then marker_hash = probe_hash else True)"

text \<open>The marker both kinds of write leave; the epoch is recorded only for epoch chains.\<close>

definition lifecycle_marker ::
  "'st turn_lifecycle_context \<Rightarrow> int \<Rightarrow> string option \<Rightarrow> string option \<Rightarrow> snapshot_marker" where
  "lifecycle_marker ctx version turn_key content_hash =
     \<lparr>mk_version = version, mk_turn_key = turn_key, mk_content_hash = content_hash,
      mk_epoch = (if lc_transcript_epoch ctx > 0 then Some (lc_transcript_epoch ctx) else None),
      mk_updated_at = []\<rparr>"

definition marker_from_hydrate ::
  "'st turn_lifecycle_context \<Rightarrow> snapshot_hydrate_result \<Rightarrow> session_dir option \<Rightarrow> session_dir option" where
  "marker_from_hydrate ctx hydrated d =
     write_snapshot_marker (lc_now ctx)
       (lifecycle_marker ctx (hr_version hydrated) (if_truthy (hr_turn_key hydrated))
          (if_truthy (hr_content_hash hydrated))) d"

definition drop_warm_session :: "'st lifecycle_state \<Rightarrow> 'st lifecycle_state" where
  "drop_warm_session s = s\<lparr>ls_warm_session := False\<rparr>"

text \<open>Drop the warm session, hydrate, write the marker, clear the sentinel: the restoring sequence.\<close>

definition restore_from_store ::
  "'st turn_lifecycle_context \<Rightarrow> 'st lifecycle_state \<Rightarrow>
   (store_error + snapshot_hydrate_result) \<times> 'st lifecycle_state" where
  "restore_from_store ctx s =
     (let s1 = drop_warm_session s
      in case vs_hydrate_snapshot (lc_store ctx) (ls_store s1) (ls_dir s1) (lc_session_id ctx)
                (Some (lc_transcript_epoch ctx)) of
           (Inl e, d) \<Rightarrow> (Inl e, s1\<lparr>ls_dir := d\<rparr>)
         | (Inr h, d) \<Rightarrow> (Inr h, s1\<lparr>ls_dir := clear_turn_sentinel (marker_from_hydrate ctx h d)\<rparr>))"

definition recover_already_committed ::
  "'st turn_lifecycle_context \<Rightarrow> 'st lifecycle_state \<Rightarrow>
   (store_error + turn_preamble_outcome) \<times> 'st lifecycle_state" where
  "recover_already_committed ctx s =
     (case restore_from_store ctx s of
        (Inl e, s1) \<Rightarrow> (Inl e, s1)
      | (Inr h, s1) \<Rightarrow>
          (case read_turn_commit_file (ls_dir s1) of
             Some (key, result) \<Rightarrow>
               if key = lc_turn_key ctx then (Inr (Already_committed_turn (hr_version h) result), s1)
               else (Inr (Hydrated (hr_version h) False None), s1)
           | None \<Rightarrow> (Inr (Hydrated (hr_version h) False None), s1)))"

definition resolve_from_store ::
  "'st turn_lifecycle_context \<Rightarrow> (int \<times> int) option \<Rightarrow> 'st lifecycle_state \<Rightarrow>
   (store_error + turn_preamble_outcome) \<times> 'st lifecycle_state" where
  "resolve_from_store ctx regressed s =
     (case restore_from_store ctx s of
        (Inl e, s1) \<Rightarrow> (Inl e, s1)
      | (Inr h, s1) \<Rightarrow>
          (Inr (Hydrated (hr_version h) (hr_version h < lc_expected_version ctx) regressed), s1))"

section \<open>Preamble\<close>

definition epoch_mismatch :: "'st turn_lifecycle_context \<Rightarrow> snapshot_marker option \<Rightarrow> bool" where
  "epoch_mismatch ctx marker =
     (let marker_epoch = (case marker of None \<Rightarrow> 0 | Some m \<Rightarrow> coalesce (mk_epoch m) 0)
      in if lc_transcript_epoch ctx > 0
         then marker = None \<or> marker_epoch \<noteq> lc_transcript_epoch ctx
         else marker_epoch \<noteq> 0)"

definition local_trusted :: "'st turn_lifecycle_context \<Rightarrow> session_dir option \<Rightarrow> bool" where
  "local_trusted ctx d =
     (read_turn_sentinel d = None \<and> has_usable_session_layout d \<and>
      \<not> epoch_mismatch ctx (read_snapshot_marker d))"

definition marker_version :: "snapshot_marker option \<Rightarrow> int \<Rightarrow> int" where
  "marker_version marker dflt = (case marker of None \<Rightarrow> dflt | Some m \<Rightarrow> mk_version m)"

definition regressed_info :: "snapshot_marker option \<Rightarrow> snapshot_probe \<Rightarrow> (int \<times> int) option" where
  "regressed_info marker p = (case marker of
       None \<Rightarrow> None
     | Some m \<Rightarrow> if pr_version p < mk_version m then Some (mk_version m, pr_version p) else None)"

text \<open>The version the warm fast path trusts, if it applies.\<close>

definition warm_version :: "snapshot_marker option \<Rightarrow> snapshot_probe \<Rightarrow> int option" where
  "warm_version marker p = (case marker of
       None \<Rightarrow> None
     | Some m \<Rightarrow> if mk_version m = pr_version p \<and> content_matches (mk_content_hash m) (pr_content_hash p)
                then Some (mk_version m) else None)"

definition run_turn_preamble ::
  "'st turn_lifecycle_context \<Rightarrow> 'st lifecycle_state \<Rightarrow>
   (store_error + turn_preamble_outcome) \<times> 'st lifecycle_state" where
  "run_turn_preamble ctx s =
     (let marker = read_snapshot_marker (ls_dir s); trusted = local_trusted ctx (ls_dir s)
      in case vs_probe_snapshot (lc_store ctx) (ls_store s) (lc_session_id ctx)
                (Some (lc_transcript_epoch ctx)) of
           Inl e \<Rightarrow> (Inl e, s)
         | Inr probe \<Rightarrow>
             if pr_exists probe \<and> truthy_str (pr_turn_key probe) \<and> pr_turn_key probe = Some (lc_turn_key ctx)
             then recover_already_committed ctx s
             else if \<not> pr_exists probe then
               (if trusted then (Inr (Warm (marker_version marker 0)), s)
                else (Inr (Fresh 0 (marker_version marker (lc_expected_version ctx) > 0)),
                      (drop_warm_session s)\<lparr>ls_dir := None\<rparr>))
             else if pr_legacy probe then
               (if trusted then (Inr (Warm (marker_version marker 0)), s)
                else resolve_from_store ctx None s)
             else case (if trusted then warm_version marker probe else None) of
               Some v \<Rightarrow> (Inr (Warm v), s)
             | None \<Rightarrow> resolve_from_store ctx (regressed_info marker probe) s)"

definition attempt_store_recovery ::
  "'st turn_lifecycle_context \<Rightarrow> 'st lifecycle_state \<Rightarrow>
   (store_error + int option) \<times> 'st lifecycle_state" where
  "attempt_store_recovery ctx s =
     (case vs_probe_snapshot (lc_store ctx) (ls_store s) (lc_session_id ctx)
             (Some (lc_transcript_epoch ctx)) of
        Inl e \<Rightarrow> (Inl e, s)
      | Inr probe \<Rightarrow>
          if \<not> pr_exists probe then (Inr None, s)
          else case restore_from_store ctx s of
            (Inl e, s1) \<Rightarrow> (Inl e, s1)
          | (Inr h, s1) \<Rightarrow> (Inr (Some (hr_version h)), s1))"

section \<open>Commit\<close>

definition unpublished :: "int \<Rightarrow> unpublished_reason \<Rightarrow> turn_commit_outcome" where
  "unpublished base reason =
     \<lparr>to_version = base, to_content_hash = [], to_size_bytes = None, to_raw_size_bytes = None,
      to_already_committed = False, to_stored_result = None, to_published = False,
      to_unpublished_reason = Some reason, to_observed_store_version = None,
      to_observed_store_turn_key = None\<rparr>"

text \<open>A racing attempt of this turn committed first: its snapshot and result are adopted.\<close>

definition adopt_committed ::
  "'st turn_lifecycle_context \<Rightarrow> snapshot_commit_result \<Rightarrow> 'st lifecycle_state \<Rightarrow>
   (store_error + turn_commit_outcome) \<times> 'st lifecycle_state" where
  "adopt_committed ctx committed s =
     (case restore_from_store ctx s of
        (Inl e, s1) \<Rightarrow> (Inl e, s1)
      | (Inr h, s1) \<Rightarrow>
          (Inr \<lparr>to_version = cr_version committed,
                to_content_hash = coalesce (hr_content_hash h) (cr_content_hash committed),
                to_size_bytes = hr_size_bytes h, to_raw_size_bytes = hr_raw_size_bytes h,
                to_already_committed = True,
                to_stored_result = (case read_turn_commit_file (ls_dir s1) of
                     Some (key, result) \<Rightarrow> if key = lc_turn_key ctx then Some result else None
                   | None \<Rightarrow> None),
                to_published = True, to_unpublished_reason = None,
                to_observed_store_version = None, to_observed_store_turn_key = None\<rparr>, s1))"

definition mark_committed ::
  "'st turn_lifecycle_context \<Rightarrow> snapshot_commit_result \<Rightarrow> 'st lifecycle_state \<Rightarrow>
   turn_commit_outcome \<times> 'st lifecycle_state" where
  "mark_committed ctx committed s =
     (\<lparr>to_version = cr_version committed, to_content_hash = cr_content_hash committed,
       to_size_bytes = cr_size_bytes committed, to_raw_size_bytes = cr_raw_size_bytes committed,
       to_already_committed = False, to_stored_result = None, to_published = True,
       to_unpublished_reason = None, to_observed_store_version = None,
       to_observed_store_turn_key = None\<rparr>,
      s\<lparr>ls_dir := clear_turn_sentinel (write_snapshot_marker (lc_now ctx)
          (lifecycle_marker ctx (cr_version committed) (Some (lc_turn_key ctx))
             (Some (cr_content_hash committed))) (ls_dir s))\<rparr>)"

text \<open>The body of the \<open>try\<close>; an error it returns is what the \<open>catch\<close> sees.\<close>

definition commit_attempt ::
  "'st turn_lifecycle_context \<Rightarrow> int \<Rightarrow> 'st lifecycle_state \<Rightarrow>
   (store_error + turn_commit_outcome) \<times> 'st lifecycle_state" where
  "commit_attempt ctx base s =
     (case vs_commit_snapshot (lc_store ctx) (ls_store s) (ls_dir s) (lc_session_id ctx)
             \<lparr>ci_base_version = base, ci_turn_key = lc_turn_key ctx\<rparr>
             (Some (lc_transcript_epoch ctx)) of
        (Inl e, st) \<Rightarrow> (Inl e, s\<lparr>ls_store := st\<rparr>)
      | (Inr committed, st) \<Rightarrow>
          let s1 = s\<lparr>ls_store := st\<rparr>
          in if cr_already_committed committed then adopt_committed ctx committed s1
             else let (out, s2) = mark_committed ctx committed s1 in (Inr out, s2))"

text \<open>The loop: a conflict gives up, any other error is retried while attempts remain.\<close>

fun commit_attempts ::
  "'st turn_lifecycle_context \<Rightarrow> int \<Rightarrow> nat \<Rightarrow> store_error \<Rightarrow> 'st lifecycle_state \<Rightarrow>
   (store_error + turn_commit_outcome) \<times> 'st lifecycle_state" where
  "commit_attempts ctx base 0 last_error s = (Inl last_error, s)"
| "commit_attempts ctx base (Suc n) last_error s =
     (case commit_attempt ctx base s of
        (Inr out, s1) \<Rightarrow> (Inr out, s1)
      | (Inl (Snapshot_conflict_error sid b v k), s1) \<Rightarrow>
          (Inr ((unpublished base Superseded)\<lparr>to_observed_store_version := Some v,
                  to_observed_store_turn_key := if_truthy k\<rparr>), s1)
      | (Inl (Store_error m), s1) \<Rightarrow> commit_attempts ctx base n (Store_error m) s1)"

definition commit_transient_retries :: nat where
  "commit_transient_retries = 3"

definition run_turn_commit ::
  "'st turn_lifecycle_context \<Rightarrow> int \<Rightarrow> jsval \<Rightarrow> 'st lifecycle_state \<Rightarrow>
   (store_error + turn_commit_outcome) \<times> 'st lifecycle_state" where
  "run_turn_commit ctx base result s =
     (if jget ''type'' result = JStr ''stopped'' then (Inr (unpublished base Stopped), s)
      else case write_turn_commit_file (lc_turn_key ctx) result (ls_dir s) of
        Inl e \<Rightarrow> (Inl e, s)
      | Inr d \<Rightarrow> commit_attempts ctx base commit_transient_retries (Store_error [])
                   (s\<lparr>ls_dir := Some d\<rparr>))"

section \<open>What the preamble promises\<close>

text \<open>The directory a restore leaves: the head's files, its marker, no sentinel.\<close>

definition restored_dir :: "'st turn_lifecycle_context \<Rightarrow> chain_head \<Rightarrow> session_dir" where
  "restored_dir ctx h =
     (unpack (ch_content h))\<lparr>sd_marker := Some (Json_ok
        ((lifecycle_marker ctx (ch_version h) (if_truthy (ch_turn_key h)) (if_truthy (ch_content_hash h)))
           \<lparr>mk_updated_at := lc_now ctx\<rparr>))\<rparr>"

text \<open>When local files may be trusted, given the chain's head.\<close>

definition warm_justified ::
  "'st turn_lifecycle_context \<Rightarrow> chain_head option \<Rightarrow> session_dir option \<Rightarrow> int \<Rightarrow> bool" where
  "warm_justified ctx head d v \<longleftrightarrow> local_trusted ctx d \<and>
     v = marker_version (read_snapshot_marker d) 0 \<and>
     (case head of
        None \<Rightarrow> True
      | Some h \<Rightarrow> ch_version h < 1 \<or>
          ch_version h = v \<and> (\<exists>m. read_snapshot_marker d = Some m \<and>
            content_matches (mk_content_hash m) (ch_content_hash h)))"

definition preamble_post ::
  "'st turn_lifecycle_context \<Rightarrow> chain_head option \<Rightarrow> session_dir option \<Rightarrow>
   turn_preamble_outcome \<Rightarrow> session_dir option \<Rightarrow> bool" where
  "preamble_post ctx head d out d' \<longleftrightarrow>
     (case out of
        Warm v \<Rightarrow> d' = d \<and> warm_justified ctx head d v
      | Hydrated v behind regressed \<Rightarrow> (\<exists>h. head = Some h \<and> v = ch_version h \<and> d' = Some (restored_dir ctx h))
      | Already_committed_turn v result \<Rightarrow>
          (\<exists>h. head = Some h \<and> v = ch_version h \<and> ch_turn_key h = Some (lc_turn_key ctx) \<and>
               ar_commit (ch_content h) = Some (Json_ok (lc_turn_key ctx, result)) \<and>
               d' = Some (restored_dir ctx h))
      | Fresh v lossy \<Rightarrow> head = None \<and> v = 0 \<and> d' = None)"

lemma restored_dir_simps [simp]:
  "read_turn_sentinel (Some (restored_dir ctx h)) = None"
  "read_turn_commit_file (Some (restored_dir ctx h)) =
     (case ar_commit (ch_content h) of Some (Json_ok c) \<Rightarrow> Some c | _ \<Rightarrow> None)"
  "sd_entries (restored_dir ctx h) = ar_entries (ch_content h)"
  by (simp_all add: restored_dir_def protocol_file_defs unpack_def)

lemma restored_dir_eq:
  assumes "hydrated_from r d h"
  shows "clear_turn_sentinel (marker_from_hydrate ctx r d) = Some (restored_dir ctx h)"
  using assms
  by (simp add: hydrated_from_def marker_from_hydrate_def protocol_file_defs restored_dir_def unpack_def)

section \<open>What the commit promises\<close>

definition committed_dir ::
  "'st turn_lifecycle_context \<Rightarrow> session_dir \<Rightarrow> int \<Rightarrow> string \<Rightarrow> session_dir" where
  "committed_dir ctx y v hash =
     y\<lparr>sd_sentinel := None, sd_marker := Some (Json_ok
        ((lifecycle_marker ctx v (Some (lc_turn_key ctx)) (Some hash))\<lparr>mk_updated_at := lc_now ctx\<rparr>))\<rparr>"

lemma committed_dir_clean [simp]: "read_turn_sentinel (Some (committed_dir ctx y v h)) = None"
  by (simp add: committed_dir_def protocol_file_defs)

text \<open>\<open>y\<close> is the directory with this turn's commit file in it.\<close>

definition commit_post ::
  "'st turn_lifecycle_context \<Rightarrow> int \<Rightarrow> session_dir \<Rightarrow> chain_head option \<Rightarrow> chain_head option \<Rightarrow>
   turn_commit_outcome \<Rightarrow> session_dir option \<Rightarrow> bool" where
  "commit_post ctx base y head head' out d' \<longleftrightarrow>
     (if to_published out then
        to_version out = base + 1 \<and>
        (\<exists>h. head' = Some h \<and> ch_version h = base + 1 \<and> ch_turn_key h = Some (lc_turn_key ctx) \<and>
           (if to_already_committed out then head' = head \<and> d' = Some (restored_dir ctx h)
            else (case head of None \<Rightarrow> True | Some h0 \<Rightarrow> ch_version h0 = base) \<and>
                 check_session_snapshot (Some y) \<and> ch_content h = archive_of y \<and>
                 to_content_hash out \<noteq> [] \<and> ch_content_hash h = Some (to_content_hash out) \<and>
                 d' = Some (committed_dir ctx y (base + 1) (to_content_hash out))))
      else to_version out = base \<and> head' = head \<and> d' = Some y)"

section \<open>The client of the store contract\<close>

locale lifecycle_client = versioned_store S ok head sid epoch
  for S :: "'st versioned_snapshot_store" and ok head sid epoch +
  fixes ctx :: "'st turn_lifecycle_context"
  assumes ctx_store: "lc_store ctx = S"
    and ctx_sid: "lc_session_id ctx = sid"
    and ctx_epoch: "epoch = Some (lc_transcript_epoch ctx)"
begin

lemma restore_ok:
  assumes "ok (ls_store s)" "restore_from_store ctx s = (Inr r, s')"
  shows "\<exists>h. head (ls_store s) = Some h \<and> hr_version r = ch_version h \<and> hr_content_hash r = ch_content_hash h \<and>
    s' = s\<lparr>ls_dir := Some (restored_dir ctx h), ls_warm_session := False\<rparr>"
proof -
  obtain x d' where e: "vs_hydrate_snapshot S (ls_store s) (ls_dir s) sid epoch = (x, d')"
    by (cases "vs_hydrate_snapshot S (ls_store s) (ls_dir s) sid epoch")
  then have x: "x = Inr r" "s' = s\<lparr>ls_dir := clear_turn_sentinel (marker_from_hydrate ctx r d'), ls_warm_session := False\<rparr>"
    using assms(2) by (auto simp: restore_from_store_def drop_warm_session_def ctx_store ctx_sid
        ctx_epoch [symmetric] Let_def split: sum.split_asm)
  from hydrate_head [OF assms(1) e [unfolded x(1)]] obtain h where
    h: "head (ls_store s) = Some h" "hydrated_from r d' h" by blast
  then show ?thesis
    using restored_dir_eq [OF h(2), of ctx] x(2) by (auto simp: hydrated_from_def)
qed

lemma restore_error:
  assumes "restore_from_store ctx s = (Inl e, s')"
  shows "s' = s\<lparr>ls_warm_session := False\<rparr>"
proof -
  obtain x d' where x: "vs_hydrate_snapshot S (ls_store s) (ls_dir s) sid epoch = (x, d')"
    by (cases "vs_hydrate_snapshot S (ls_store s) (ls_dir s) sid epoch")
  then have "x = Inl e" "s' = s\<lparr>ls_dir := d', ls_warm_session := False\<rparr>"
    using assms by (auto simp: restore_from_store_def drop_warm_session_def ctx_store ctx_sid
        ctx_epoch [symmetric] Let_def split: sum.split_asm)
  then show ?thesis using hydrate_error [of "ls_store s" "ls_dir s" e d'] x by simp
qed

lemma preamble_ok:
  assumes ok: "ok (ls_store s)" and r: "run_turn_preamble ctx s = (Inr out, s')"
  shows "ls_store s' = ls_store s \<and>
    preamble_post ctx (head (ls_store s)) (ls_dir s) out (ls_dir s')"
proof -
  obtain p where p: "vs_probe_snapshot S (ls_store s) sid epoch = Inr p"
    using r by (auto simp: run_turn_preamble_def ctx_store ctx_sid ctx_epoch [symmetric] Let_def
        split: sum.split_asm)
  note m = probe_head [OF ok p]
  define recovered where "recovered = recover_already_committed ctx s"
  define resolved where "resolved = (\<lambda>x. resolve_from_store ctx x s)"
  have recovery: "ls_store s' = ls_store s \<and> preamble_post ctx (head (ls_store s)) (ls_dir s) out (ls_dir s')"
    if *: "recovered = (Inr out, s')" "pr_exists p" "pr_turn_key p = Some (lc_turn_key ctx)"
  proof -
    obtain h' where "restore_from_store ctx s = (Inr h', s')"
      using * by (auto simp: recovered_def recover_already_committed_def
          split: prod.split_asm sum.split_asm option.split_asm if_split_asm)
    with restore_ok [OF ok this] * m show ?thesis
      by (auto simp: recovered_def recover_already_committed_def preamble_post_def probe_matches_def
          split: option.split_asm if_split_asm json_file.split_asm)
  qed
  have resolution: "ls_store s' = ls_store s \<and> preamble_post ctx (head (ls_store s)) (ls_dir s) out (ls_dir s')"
    if *: "resolved x = (Inr out, s')" for x
  proof -
    obtain h' where "restore_from_store ctx s = (Inr h', s')"
      using * by (auto simp: resolved_def resolve_from_store_def split: prod.split_asm sum.split_asm)
    with restore_ok [OF ok this] * show ?thesis
      by (auto simp: resolved_def resolve_from_store_def preamble_post_def)
  qed
  show ?thesis
  proof (cases "head (ls_store s)")
    case None
    then have "\<not> pr_exists p" using m by (simp add: probe_matches_def)
    then show ?thesis
      using r p None
      by (auto simp: run_turn_preamble_def ctx_store ctx_sid ctx_epoch [symmetric] Let_def
          preamble_post_def warm_justified_def drop_warm_session_def split: if_split_asm)
  next
    case (Some h)
    then have ph: "pr_exists p" "pr_version p = ch_version h" "pr_turn_key p = ch_turn_key h"
      "pr_content_hash p = ch_content_hash h" "pr_legacy p \<longleftrightarrow> ch_version h < 1"
      using m by (auto simp: probe_matches_def)
    have run: "run_turn_preamble ctx s =
      (if truthy_str (pr_turn_key p) \<and> pr_turn_key p = Some (lc_turn_key ctx) then recovered
       else if pr_legacy p then
         (if local_trusted ctx (ls_dir s)
          then (Inr (Warm (marker_version (read_snapshot_marker (ls_dir s)) 0)), s) else resolved None)
       else case (if local_trusted ctx (ls_dir s) then warm_version (read_snapshot_marker (ls_dir s)) p else None) of
         Some v \<Rightarrow> (Inr (Warm v), s)
       | None \<Rightarrow> resolved (regressed_info (read_snapshot_marker (ls_dir s)) p))"
      unfolding run_turn_preamble_def Let_def ctx_store ctx_sid ctx_epoch [symmetric] p
      by (simp only: recovered_def resolved_def sum.case ph(1) simp_thms if_False not_True_eq_False)
    define own where "own \<longleftrightarrow> truthy_str (pr_turn_key p) \<and> pr_turn_key p = Some (lc_turn_key ctx)"
    define trusted where "trusted = local_trusted ctx (ls_dir s)"
    define w where "w = (if trusted then warm_version (read_snapshot_marker (ls_dir s)) p else None)"
    note run' = r [unfolded run, folded own_def trusted_def, folded w_def]
    show ?thesis
    proof (cases own)
      case True
      note run1 = run' [unfolded if_P [OF True]]
      show ?thesis using recovery [OF run1 ph(1)] True by (simp add: own_def)
    next
      case False
      note run2 = run' [unfolded if_not_P [OF False]]
      show ?thesis
      proof (cases "pr_legacy p")
        case True
        note run3 = run2 [unfolded if_P [OF True]]
        show ?thesis
        proof (cases trusted)
          case t: True
          then show ?thesis
            using run3 Some ph True by (auto simp: preamble_post_def warm_justified_def trusted_def)
        next
          case False
          then show ?thesis using run3 resolution by simp
        qed
      next
        case False
        note run3 = run2 [unfolded if_not_P [OF False]]
        show ?thesis
        proof (cases w)
          case None
          then show ?thesis using run3 resolution by simp
        next
          case v: (Some v)
          then have *: "out = Warm v" "s' = s" using run3 by auto
          obtain m where "read_snapshot_marker (ls_dir s) = Some m" "mk_version m = v" "trusted"
            "pr_version p = v" "content_matches (mk_content_hash m) (pr_content_hash p)"
            using v by (auto simp: w_def warm_version_def split: if_split_asm option.split_asm)
          then show ?thesis
            using * Some ph by (simp add: preamble_post_def warm_justified_def marker_version_def trusted_def)
        qed
      qed
    qed
  qed
qed

lemma commit_attempt_ok:
  assumes ok: "ok (ls_store s)" and k: "lc_turn_key ctx \<noteq> []" "0 \<le> base" and d: "ls_dir s = Some y"
    and r: "commit_attempt ctx base s = (x, s')"
  shows "ok (ls_store s') \<and>
    (case x of
       Inl e \<Rightarrow> head (ls_store s') = head (ls_store s) \<and> ls_dir s' = Some y
     | Inr out \<Rightarrow> to_published out \<and>
         commit_post ctx base y (head (ls_store s)) (head (ls_store s')) out (ls_dir s'))"
proof -
  define inp where "inp = \<lparr>ci_base_version = base, ci_turn_key = lc_turn_key ctx\<rparr>"
  have ki: "ci_turn_key inp \<noteq> []" "0 \<le> ci_base_version inp" using k by (simp_all add: inp_def)
  obtain z st where c: "vs_commit_snapshot S (ls_store s) (ls_dir s) sid inp epoch = (z, st)"
    by (cases "vs_commit_snapshot S (ls_store s) (ls_dir s) sid inp epoch")
  define s1 where "s1 = s\<lparr>ls_store := st\<rparr>"
  have run: "(x, s') = (case z of Inl e \<Rightarrow> (Inl e, s1)
      | Inr committed \<Rightarrow> if cr_already_committed committed then adopt_committed ctx committed s1
          else (case mark_committed ctx committed s1 of (out, s2) \<Rightarrow> (Inr out, s2)))"
    using r c unfolding commit_attempt_def inp_def [symmetric] ctx_store ctx_sid ctx_epoch [symmetric]
    by (cases z) (simp_all add: s1_def Let_def split: if_split_asm)
  show ?thesis
  proof (cases z)
    case (Inl e)
    then show ?thesis using run commit_error [OF ok c [unfolded Inl]] d by (simp add: s1_def)
  next
    case (Inr cm)
    show ?thesis
    proof (cases "cr_already_committed cm")
      case True
      note a = commit_already [OF ok c [unfolded Inr] True]
      have ad: "adopt_committed ctx cm s1 = (x, s')" using run Inr True by simp
      show ?thesis
      proof (cases "restore_from_store ctx s1")
        case (Pair w s2)
        show ?thesis
        proof (cases w)
          case (Inl e)
          then have "x = Inl e" "s' = s2" using ad Pair by (simp_all add: adopt_committed_def)
          then show ?thesis
            using restore_error [OF Pair [unfolded Inl]] a d by (simp add: s1_def)
        next
          case (Inr h)
          have "ok (ls_store s1)" using a by (simp add: s1_def)
          from restore_ok [OF this Pair [unfolded Inr]] ad Pair Inr a show ?thesis
            by (auto simp: adopt_committed_def commit_post_def s1_def inp_def)
        qed
      qed
    next
      case False
      have "ci_base_version inp = base" by (simp add: inp_def)
      note w = commit_written [OF ok ki c [unfolded Inr] False, unfolded this]
      have "x = Inr (fst (mark_committed ctx cm s1))" "s' = snd (mark_committed ctx cm s1)"
        using run Inr False by (auto split: prod.split_asm)
      then show ?thesis
        using w d
        by (simp add: mark_committed_def commit_post_def s1_def inp_def protocol_file_defs committed_dir_def)
    qed
  qed
qed

lemma commit_attempts_ok:
  assumes "ok (ls_store s)" "lc_turn_key ctx \<noteq> []" "0 \<le> base" "ls_dir s = Some y"
    and "commit_attempts ctx base n e s = (Inr out, s')"
  shows "ok (ls_store s') \<and> commit_post ctx base y (head (ls_store s)) (head (ls_store s')) out (ls_dir s')"
  using assms
proof (induction n arbitrary: e s)
  case (Suc n)
  obtain x s1 where x: "commit_attempt ctx base s = (x, s1)" by (cases "commit_attempt ctx base s")
  note a = commit_attempt_ok [OF Suc.prems(1-4) x]
  show ?case
  proof (cases x)
    case (Inr o1)
    then show ?thesis using Suc.prems(5) x a by simp
  next
    case (Inl er)
    show ?thesis
    proof (cases er)
      case (Snapshot_conflict_error w b v k)
      then show ?thesis using Suc.prems(5) x a Inl by (auto simp: commit_post_def unpublished_def)
    next
      case (Store_error m)
      then have "commit_attempts ctx base n (Store_error m) s1 = (Inr out, s')"
        using Suc.prems(5) x Inl by simp
      from Suc.IH [OF _ Suc.prems(2,3) _ this] a Inl show ?thesis by simp
    qed
  qed
qed simp

lemma commit_ok_post:
  assumes ok: "ok (ls_store s)" "lc_turn_key ctx \<noteq> []" "0 \<le> base"
    and r: "run_turn_commit ctx base result s = (Inr out, s')"
  shows "ok (ls_store s') \<and>
    (if to_unpublished_reason out = Some Stopped then s' = s \<and> \<not> to_published out
     else \<exists>d. ls_dir s = Some d \<and>
       commit_post ctx base (d\<lparr>sd_commit := Some (Json_ok (lc_turn_key ctx, json_copy result))\<rparr>)
         (head (ls_store s)) (head (ls_store s')) out (ls_dir s'))"
proof (cases "jget ''type'' result = JStr ''stopped''")
  case True
  then show ?thesis using r ok by (auto simp: run_turn_commit_def unpublished_def)
next
  case False
  then obtain d where d: "ls_dir s = Some d"
    using r by (auto simp: run_turn_commit_def write_turn_commit_file_def split: option.split_asm)
  define y where "y = d\<lparr>sd_commit := Some (Json_ok (lc_turn_key ctx, json_copy result))\<rparr>"
  have a: "commit_attempts ctx base commit_transient_retries (Store_error []) (s\<lparr>ls_dir := Some y\<rparr>) = (Inr out, s')"
    using r d False by (simp add: run_turn_commit_def write_turn_commit_file_def y_def)
  have "to_unpublished_reason out \<noteq> Some Stopped" if "commit_attempts ctx base n e s2 = (Inr out, s')" for n e s2
    using that
  proof (induction n arbitrary: e s2)
    case (Suc n)
    have *: "commit_attempt ctx base s2 = (Inr o1, s3) \<Longrightarrow> to_unpublished_reason o1 = None" for o1 s3
      by (auto simp: commit_attempt_def adopt_committed_def mark_committed_def Let_def
          split: prod.split_asm sum.split_asm if_split_asm)
    show ?case using Suc.prems
      by (auto simp: unpublished_def split: prod.split_asm sum.split_asm store_error.split_asm
          dest: * Suc.IH)
  qed simp
  with commit_attempts_ok [OF _ ok(2,3) _ a, of y] a ok(1) d show ?thesis
    by (simp add: y_def)
qed

end

section \<open>On the filesystem store\<close>

definition fs_context ::
  "'b archiver \<Rightarrow> 'b store_files turn_lifecycle_context \<Rightarrow> 'b store_files turn_lifecycle_context" where
  "fs_context A c = c\<lparr>lc_store := filesystem_store A\<rparr>"

definition fs_chain :: "'b archiver \<Rightarrow> 'b store_files turn_lifecycle_context \<Rightarrow> 'b store_files \<Rightarrow> chain_head option" where
  "fs_chain A c = fs_head A (lc_session_id c) (Some (lc_transcript_epoch c))"

lemma fs_context_simps [simp]:
  "lc_store (fs_context A c) = filesystem_store A" "lc_session_id (fs_context A c) = lc_session_id c"
  "lc_transcript_epoch (fs_context A c) = lc_transcript_epoch c"
  "lc_turn_key (fs_context A c) = lc_turn_key c" "lc_now (fs_context A c) = lc_now c"
  "lc_expected_version (fs_context A c) = lc_expected_version c"
  by (simp_all add: fs_context_def)

interpretation fsl: lifecycle_client "filesystem_store A" "fs_valid A (lc_session_id c)" "fs_chain A c"
    "lc_session_id c" "Some (lc_transcript_epoch c)" "fs_context A c"
  for A :: "'b archiver" and c
  unfolding fs_chain_def by unfold_locales simp_all

lemma fs_probe_matches:
  "fs_valid A (lc_session_id c) st \<Longrightarrow>
   probe_matches (probe_snapshot st (lc_session_id c) (Some (lc_transcript_epoch c))) (fs_chain A c st)"
  using fs.probe_head [of A "lc_session_id c" st] by (simp add: filesystem_store_def fs_chain_def)

lemma fs_restore_total:
  assumes "fs_valid A (lc_session_id c) (ls_store s)" "fs_chain A c (ls_store s) = Some h"
  shows "\<exists>r. restore_from_store (fs_context A c) s =
      (Inr r, s\<lparr>ls_dir := Some (restored_dir (fs_context A c) h), ls_warm_session := False\<rparr>) \<and>
    hr_version r = ch_version h"
proof -
  have ok: "chain_ok A (lc_session_id c) (ls_store s) (Some (lc_transcript_epoch c))" "archiver_ok A"
      "CHR ''/'' \<notin> set (lc_session_id c)"
    using assms(1) by (auto simp: fs_valid_def store_ok_def)
  obtain r d' where "hydrate_snapshot A (ls_store s) (ls_dir s) (lc_session_id c)
      (Some (lc_transcript_epoch c)) = (Inr r, d')" "hydrated_from r d' h"
    using hydrate_restores_head [OF ok, of "ls_dir s"] assms(2) by (auto simp: fs_chain_def)
  moreover from this(2) have "hr_version r = ch_version h" by (simp add: hydrated_from_def)
  ultimately show ?thesis
    using restored_dir_eq [of r d' h "fs_context A c"]
    by (simp add: restore_from_store_def drop_warm_session_def filesystem_store_def Let_def)
qed

lemma fs_preamble_total:
  assumes v: "fs_valid A (lc_session_id c) (ls_store s)"
  shows "\<exists>out s'. run_turn_preamble (fs_context A c) s = (Inr out, s')"
proof -
  define p where "p = probe_snapshot (ls_store s) (lc_session_id c) (Some (lc_transcript_epoch c))"
  have m: "probe_matches p (fs_chain A c (ls_store s))" using fs_probe_matches [OF v] by (simp add: p_def)
  have pr: "vs_probe_snapshot (lc_store (fs_context A c)) (ls_store s) (lc_session_id (fs_context A c))
      (Some (lc_transcript_epoch (fs_context A c))) = Inr p"
    by (simp add: filesystem_store_def p_def)
  have "\<exists>out s'. run_turn_preamble (fs_context A c) s = (Inr out, s')" if "\<not> pr_exists p"
    using that unfolding run_turn_preamble_def pr by (auto simp: Let_def)
  moreover have "\<exists>out s'. run_turn_preamble (fs_context A c) s = (Inr out, s')" if ex: "pr_exists p"
  proof -
    obtain h where "fs_chain A c (ls_store s) = Some h"
      using m ex by (auto simp: probe_matches_def split: option.split_asm)
    from fs_restore_total [OF v this] have
      "\<exists>out s'. recover_already_committed (fs_context A c) s = (Inr out, s')"
      "\<exists>out s'. resolve_from_store (fs_context A c) x s = (Inr out, s')" for x
      by (auto simp: recover_already_committed_def resolve_from_store_def split: option.split)
    then show ?thesis
      using ex unfolding run_turn_preamble_def pr by (auto simp: Let_def split: option.split)
  qed
  ultimately show ?thesis by blast
qed

section \<open>Properties\<close>

text \<open>
  Before a turn, the store wins. The preamble always returns, writes nothing to the store, and
  leaves the local directory in one of four states: untouched, and then it is clean, of this epoch
  and (unless the chain is empty or unversioned) it bears the stored version and content; replaced
  by the stored snapshot; replaced by the snapshot this very turn committed earlier, whose result
  it returns; or absent, when the store holds nothing.
\<close>

theorem preamble_store_wins:
  assumes "fs_valid A (lc_session_id c) (ls_store s)"
  shows "\<exists>out s'. run_turn_preamble (fs_context A c) s = (Inr out, s') \<and> ls_store s' = ls_store s \<and>
    preamble_post (fs_context A c) (fs_chain A c (ls_store s)) (ls_dir s) out (ls_dir s')"
  using fs_preamble_total [OF assms] fsl.preamble_ok [OF assms] by blast

definition sample_context :: "string \<Rightarrow> int \<Rightarrow> (snapshot_codec \<times> archived) store_files turn_lifecycle_context" where
  "sample_context key epoch =
     \<lparr>lc_store = filesystem_store plain_archiver, lc_session_id = ''s'', lc_transcript_epoch = epoch,
      lc_expected_version = 0, lc_turn_key = key, lc_now = ''now''\<rparr>"

definition sample_state :: "(snapshot_codec \<times> archived) store_files lifecycle_state" where
  "sample_state = \<lparr>ls_store = (\<lambda>_. None), ls_dir = Some (sample_dir\<lparr>sd_sentinel :=
       Some (Json_ok \<lparr>ts_turn_key = Some ''turn-1'', ts_started_at = ''now''\<rparr>)\<rparr>), ls_warm_session = True\<rparr>"

lemma sample_valid: "fs_valid plain_archiver (lc_session_id (sample_context key e)) (ls_store sample_state)"
  by (simp add: sample_context_def sample_state_def empty_store_valid)

theorem preamble_store_wins_witness:
  "\<exists>out s'. run_turn_preamble (fs_context plain_archiver (sample_context ''turn-1'' 1)) sample_state = (Inr out, s') \<and>
     ls_store s' = (\<lambda>_. None)"
  using preamble_store_wins [OF sample_valid, of "''turn-1''" 1] by (auto simp: sample_state_def)

text \<open>
  The outcome of a commit tells the truth. Published, the chain's head is the turn's, at
  \<open>baseVersion + 1\<close>, and the local directory is clean and marked with it: the directory the turn
  left, or, when a racing attempt had committed the turn first, that attempt's snapshot.
  Unpublished, the store's head and the directory, sentinel included, are what they were.
\<close>

theorem run_turn_commit_outcome:
  assumes "fs_valid A (lc_session_id c) (ls_store s)" "lc_turn_key c \<noteq> []" "0 \<le> base"
    and "run_turn_commit (fs_context A c) base result s = (Inr out, s')"
  shows "fs_valid A (lc_session_id c) (ls_store s') \<and>
    (if to_unpublished_reason out = Some Stopped then s' = s \<and> \<not> to_published out
     else \<exists>d. ls_dir s = Some d \<and>
       commit_post (fs_context A c) base (d\<lparr>sd_commit := Some (Json_ok (lc_turn_key c, json_copy result))\<rparr>)
         (fs_chain A c (ls_store s)) (fs_chain A c (ls_store s')) out (ls_dir s'))"
  using fsl.commit_ok_post [OF assms(1) _ assms(3,4), unfolded fs_context_simps] assms(2) by blast

lemma sample_commit:
  "\<exists>out s'. run_turn_commit (fs_context plain_archiver (sample_context ''turn-1'' 1)) 0 (JStr ''done'') sample_state =
     (Inr out, s') \<and> to_published out \<and> \<not> to_already_committed out \<and> to_unpublished_reason out = None"
proof -
  have p: "probe_unlocked (\<lambda>_. None) ''s'' (Some 1) = (absent_probe, None)"
    by (simp add: probe_unlocked_def read_stored_meta_def is_legacy_epoch_def Let_def)
  have r: "check_session_snapshot (Some (sample_dir
      \<lparr>sd_sentinel := x, sd_commit := y\<rparr>))" for x y
    by (simp add: check_session_snapshot_def sample_dir_def dir_has_def) code_simp
  show ?thesis
    by (simp add: run_turn_commit_def write_turn_commit_file_def sample_state_def sample_context_def
        fs_context_def commit_transient_retries_def numeral_3_eq_3 commit_attempt_def
        filesystem_store_def commit_snapshot_defs r p decide_commit_def absent_probe_def
        mark_committed_def Let_def)
qed

theorem run_turn_commit_outcome_witness:
  "\<exists>s' :: (snapshot_codec \<times> archived) store_files lifecycle_state.
     fs_valid plain_archiver ''s'' (ls_store s') \<and> read_turn_sentinel (ls_dir s') = None \<and>
     (\<exists>h. fs_chain plain_archiver (sample_context ''turn-1'' 1) (ls_store s') = Some h \<and> ch_version h = 1)"
proof -
  obtain out s' where r: "run_turn_commit (fs_context plain_archiver (sample_context ''turn-1'' 1)) 0
      (JStr ''done'') sample_state = (Inr out, s')" "to_published out" "\<not> to_already_committed out"
      "to_unpublished_reason out = None"
    using sample_commit by blast
  note outcome = run_turn_commit_outcome [OF sample_valid _ _ r(1)]
  show ?thesis
    by (rule exI [of _ s']) (use outcome r in \<open>auto simp: commit_post_def sample_context_def\<close>)
qed

text \<open>A published commit of the worker's own, as facts about the state it leaves.\<close>

lemma published_commit:
  assumes v: "fs_valid A (lc_session_id c) (ls_store s)" "lc_turn_key c \<noteq> []" "0 \<le> base"
    and r: "run_turn_commit (fs_context A c) base result s = (Inr out, s')"
    and p: "to_published out" "\<not> to_already_committed out"
  obtains y hash where "fs_valid A (lc_session_id c) (ls_store s')"
    "fs_chain A c (ls_store s') = Some \<lparr>ch_version = base + 1, ch_turn_key = Some (lc_turn_key c),
       ch_content_hash = Some hash, ch_content = archive_of y\<rparr>"
    "hash \<noteq> []" "check_session_snapshot (Some y)"
    "sd_commit y = Some (Json_ok (lc_turn_key c, json_copy result))"
    "ls_dir s' = Some (committed_dir (fs_context A c) y (base + 1) hash)"
proof -
  have post: "fs_valid A (lc_session_id c) (ls_store s') \<and>
    (if to_unpublished_reason out = Some Stopped then s' = s \<and> \<not> to_published out
     else \<exists>d. ls_dir s = Some d \<and>
       commit_post (fs_context A c) base (d\<lparr>sd_commit := Some (Json_ok (lc_turn_key c, json_copy result))\<rparr>)
         (fs_chain A c (ls_store s)) (fs_chain A c (ls_store s')) out (ls_dir s'))"
    using fsl.commit_ok_post [OF v(1) _ v(3) r, unfolded fs_context_simps] v(2) by blast
  then obtain d h where "fs_chain A c (ls_store s') = Some h" "ch_version h = base + 1"
      "ch_turn_key h = Some (lc_turn_key c)" "ch_content_hash h = Some (to_content_hash out)"
      "to_content_hash out \<noteq> []"
      "check_session_snapshot (Some (d\<lparr>sd_commit := Some (Json_ok (lc_turn_key c, json_copy result))\<rparr>))"
      "ch_content h = archive_of (d\<lparr>sd_commit := Some (Json_ok (lc_turn_key c, json_copy result))\<rparr>)"
      "ls_dir s' = Some (committed_dir (fs_context A c) (d\<lparr>sd_commit := Some (Json_ok (lc_turn_key c, json_copy result))\<rparr>)
         (base + 1) (to_content_hash out))"
    using p by (auto simp: commit_post_def split: if_split_asm)
  then show thesis
    using that [of "to_content_hash out" "d\<lparr>sd_commit := Some (Json_ok (lc_turn_key c, json_copy result))\<rparr>"] post
    by (cases h) simp
qed

text \<open>
  C2. As long as the commit a turn published is the head of its chain, the turn is not run again.
  Whatever worker retries it, with whatever it finds on its own disk and whatever has happened to
  the other chains since, its preamble, when the file system serves it, returns the recorded result
  instead of letting the body run. The result is what \<open>JSON\<close> keeps of the one that was
  recorded (\<open>json_copy\<close>): itself, when it holds no undefined field and no number that is not finite.
  This is for the commit that wrote the snapshot, not for one that found the turn already there.
\<close>

theorem committed_turn_never_reruns:
  assumes v: "fs_valid A (lc_session_id c) (ls_store s)" "lc_turn_key c \<noteq> []" "0 \<le> base"
    and r: "run_turn_commit (fs_context A c) base result s = (Inr out, s')"
    and p: "to_published out" "\<not> to_already_committed out"
    and retry: "fs_valid A (lc_session_id c) (ls_store s2)"
      "fs_chain A c (ls_store s2) = fs_chain A c (ls_store s')"
  shows "fst (run_turn_preamble (fs_context A c) s2) =
      Inr (Already_committed_turn (base + 1) (json_copy result)) \<and>
    (json_value result \<longrightarrow> json_copy result = result)"
proof -
  obtain y hash where h: "fs_valid A (lc_session_id c) (ls_store s')"
    "fs_chain A c (ls_store s') = Some \<lparr>ch_version = base + 1, ch_turn_key = Some (lc_turn_key c),
       ch_content_hash = Some hash, ch_content = archive_of y\<rparr>"
    "sd_commit y = Some (Json_ok (lc_turn_key c, json_copy result))"
    by (rule published_commit [OF v r p])
  define pr where "pr = probe_snapshot (ls_store s2) (lc_session_id c) (Some (lc_transcript_epoch c))"
  have "probe_matches pr (fs_chain A c (ls_store s'))"
    using fs_probe_matches [OF retry(1)] retry(2) by (simp add: pr_def)
  then have pk: "pr_exists pr" "pr_turn_key pr = Some (lc_turn_key c)"
    using h(2) by (simp_all add: probe_matches_def)
  have pb: "vs_probe_snapshot (filesystem_store A) (ls_store s2) (lc_session_id c)
      (Some (lc_transcript_epoch c)) = Inr pr"
    by (simp add: filesystem_store_def pr_def)
  have "run_turn_preamble (fs_context A c) s2 = recover_already_committed (fs_context A c) s2"
    using pk v(2) by (simp add: run_turn_preamble_def pb Let_def)
  moreover have "fst (recover_already_committed (fs_context A c) s2) =
      Inr (Already_committed_turn (base + 1) (json_copy result))"
    using fs_restore_total [OF retry(1)] h retry(2)
    by (auto simp: recover_already_committed_def archive_of_def)
  ultimately show ?thesis by (simp add: json_copy_value)
qed

theorem committed_turn_never_reruns_witness:
  "\<exists>st. fst (run_turn_preamble (fs_context plain_archiver (sample_context ''turn-1'' 1))
        \<lparr>ls_store = st, ls_dir = None, ls_warm_session = False\<rparr>) =
      Inr (Already_committed_turn 1 (JStr ''done''))"
proof -
  obtain out s' where r: "run_turn_commit (fs_context plain_archiver (sample_context ''turn-1'' 1)) 0
      (JStr ''done'') sample_state = (Inr out, s')" "to_published out" "\<not> to_already_committed out"
    using sample_commit by blast
  have ok: "fs_valid plain_archiver (lc_session_id (sample_context ''turn-1'' 1)) (ls_store s')"
    using published_commit [OF sample_valid _ _ r] by (auto simp: sample_context_def)
  show ?thesis
    using committed_turn_never_reruns
        [where ?s2.0 = "\<lparr>ls_store = ls_store s', ls_dir = None, ls_warm_session = False\<rparr>",
         OF sample_valid _ _ r] ok
    by (auto simp: sample_context_def)
qed

text \<open>
  After a published commit, if nobody else advanced the chain, the same worker starts the
  session's next turn warm: its preamble neither reads the snapshot back nor touches the
  directory, and bases the next commit on the version just published.
\<close>

theorem next_turn_is_warm:
  assumes v: "fs_valid A (lc_session_id c) (ls_store s)" "lc_turn_key c \<noteq> []" "0 \<le> base"
    and r: "run_turn_commit (fs_context A c) base result s = (Inr out, s')"
    and p: "to_published out" "\<not> to_already_committed out"
    and n: "lc_turn_key c2 \<noteq> lc_turn_key c" "lc_session_id c2 = lc_session_id c"
      "lc_transcript_epoch c2 = lc_transcript_epoch c"
  shows "run_turn_preamble (fs_context A c2) s' = (Inr (Warm (base + 1)), s')"
proof -
  obtain y hash where h: "fs_valid A (lc_session_id c) (ls_store s')"
    "fs_chain A c (ls_store s') = Some \<lparr>ch_version = base + 1, ch_turn_key = Some (lc_turn_key c),
       ch_content_hash = Some hash, ch_content = archive_of y\<rparr>"
    "hash \<noteq> []" "check_session_snapshot (Some y)"
    "ls_dir s' = Some (committed_dir (fs_context A c) y (base + 1) hash)"
    by (rule published_commit [OF v r p])
  define pr where "pr = probe_snapshot (ls_store s') (lc_session_id c) (Some (lc_transcript_epoch c))"
  define m where "m = (lifecycle_marker (fs_context A c) (base + 1) (Some (lc_turn_key c)) (Some hash))
      \<lparr>mk_updated_at := lc_now c\<rparr>"
  have mk: "read_snapshot_marker (ls_dir s') = Some m"
    by (simp add: h(5) committed_dir_def protocol_file_defs m_def)
  have "probe_matches pr (fs_chain A c (ls_store s'))"
    using fs_probe_matches [OF h(1)] by (simp add: pr_def)
  then have pk: "pr_exists pr" "pr_turn_key pr = Some (lc_turn_key c)" "\<not> pr_legacy pr"
      "pr_version pr = base + 1" "pr_content_hash pr = Some hash"
    using h(2) v(3) by (simp_all add: probe_matches_def)
  have pb: "vs_probe_snapshot (filesystem_store A) (ls_store s') (lc_session_id c)
      (Some (lc_transcript_epoch c)) = Inr pr"
    by (simp add: filesystem_store_def pr_def)
  have "read_turn_sentinel (ls_dir s') = None" by (simp add: h(5))
  moreover have "has_usable_session_layout (ls_dir s')"
    using ready_has_workspace [OF h(4)]
    by (simp add: h(5) has_usable_session_layout_def committed_dir_def dir_has_def)
  moreover have "\<not> epoch_mismatch (fs_context A c2) (Some m)"
    by (simp add: epoch_mismatch_def m_def lifecycle_marker_def n)
  ultimately have "local_trusted (fs_context A c2) (ls_dir s')"
    using mk by (simp add: local_trusted_def)
  moreover have "warm_version (Some m) pr = Some (base + 1)"
    using pk by (simp add: warm_version_def m_def lifecycle_marker_def content_matches_def)
  ultimately show ?thesis
    using pk n mk by (simp add: run_turn_preamble_def pb Let_def)
qed

theorem next_turn_is_warm_witness:
  "\<exists>s'. run_turn_preamble (fs_context plain_archiver (sample_context ''turn-2'' 1)) s' = (Inr (Warm 1), s')"
proof -
  obtain out s' where r: "run_turn_commit (fs_context plain_archiver (sample_context ''turn-1'' 1)) 0
      (JStr ''done'') sample_state = (Inr out, s')" "to_published out" "\<not> to_already_committed out"
    using sample_commit by blast
  show ?thesis
    using next_turn_is_warm [where ?c2.0 = "sample_context ''turn-2'' 1", OF sample_valid _ _ r]
    by (auto simp: sample_context_def)
qed

text \<open>
  A turn whose commit was not published, because the user stopped it or because another writer
  had advanced the chain, is not resumed from its local files: if the turn had marked the
  directory with its sentinel, no later preamble trusts it.
\<close>

theorem unpublished_turn_is_not_trusted:
  assumes v: "fs_valid A (lc_session_id c) (ls_store s)" "lc_turn_key c \<noteq> []" "0 \<le> base"
    and r: "run_turn_commit (fs_context A c) base result s = (Inr out, s')"
    and p: "\<not> to_published out" and sentinel: "read_turn_sentinel (ls_dir s) \<noteq> None"
    and s2: "ls_dir s2 = ls_dir s'"
  shows "fst (run_turn_preamble (fs_context A c2) s2) \<noteq> Inr (Warm w)"
proof -
  have "read_turn_sentinel (ls_dir s') \<noteq> None"
    using fsl.commit_ok_post [OF v(1) _ v(3) r, unfolded fs_context_simps] v(2) p sentinel
    by (auto simp: commit_post_def protocol_file_defs split: if_split_asm)
  then have "\<not> local_trusted (fs_context A c2) (ls_dir s2)"
    by (auto simp: local_trusted_def s2)
  moreover have "fst (recover_already_committed ctx s2) \<noteq> Inr (Warm w)"
    "fst (resolve_from_store ctx x s2) \<noteq> Inr (Warm w)" for ctx :: "'a store_files turn_lifecycle_context" and x
    by (auto simp: recover_already_committed_def resolve_from_store_def
        split: prod.splits sum.splits option.splits)
  ultimately show ?thesis
    by (auto simp: run_turn_preamble_def Let_def split: sum.splits)
qed

theorem unpublished_turn_is_not_trusted_witness:
  "fst (run_turn_preamble (fs_context plain_archiver (sample_context ''turn-2'' 1)) sample_state) \<noteq> Inr (Warm 0)"
proof -
  have r: "run_turn_commit (fs_context plain_archiver (sample_context ''turn-1'' 1)) 0
      (JObj [(''type'', JStr ''stopped'')]) sample_state = (Inr (unpublished 0 Stopped), sample_state)"
    by (simp add: run_turn_commit_def)
  show ?thesis
    using unpublished_turn_is_not_trusted [where ?s2.0 = sample_state, OF sample_valid _ _ r]
    by (auto simp: sample_context_def unpublished_def sample_state_def protocol_file_defs)
qed

section \<open>Two surprises\<close>

text \<open>
  The \<open>regressed\<close> flag compares versions of different epochs. When a directory left by an
  earlier epoch is found, its marker names a version of that epoch's chain; any resolution from the
  current epoch's chain, which counts from 1 again, is then reported as a regression of the store
  although the store lost nothing.
\<close>

theorem regressed_flag_ignores_epoch:
  assumes "fs_valid A (lc_session_id c) (ls_store s)"
    and "fs_chain A c (ls_store s) = Some h" "1 \<le> ch_version h" "ch_turn_key h \<noteq> Some (lc_turn_key c)"
    and "read_snapshot_marker (ls_dir s) = Some m" "mk_epoch m = Some e" "e \<noteq> lc_transcript_epoch c"
    and "0 < lc_transcript_epoch c" "ch_version h < mk_version m"
  shows "\<exists>behind. fst (run_turn_preamble (fs_context A c) s) =
     Inr (Hydrated (ch_version h) behind (Some (mk_version m, ch_version h)))"
proof -
  define pr where "pr = probe_snapshot (ls_store s) (lc_session_id c) (Some (lc_transcript_epoch c))"
  have "probe_matches pr (fs_chain A c (ls_store s))"
    using fs_probe_matches [OF assms(1)] by (simp add: pr_def)
  then have pk: "pr_exists pr" "pr_turn_key pr = ch_turn_key h" "\<not> pr_legacy pr" "pr_version pr = ch_version h"
    using assms(2,3) by (simp_all add: probe_matches_def)
  have pb: "vs_probe_snapshot (filesystem_store A) (ls_store s) (lc_session_id c)
      (Some (lc_transcript_epoch c)) = Inr pr"
    by (simp add: filesystem_store_def pr_def)
  have "\<not> local_trusted (fs_context A c) (ls_dir s)"
    using assms(5-8) by (auto simp: local_trusted_def epoch_mismatch_def)
  then have "run_turn_preamble (fs_context A c) s =
      resolve_from_store (fs_context A c) (Some (mk_version m, ch_version h)) s"
    using pk assms(4,5,9) by (auto simp: run_turn_preamble_def pb Let_def regressed_info_def)
  then show ?thesis
    using fs_restore_total [OF assms(1,2)] by (auto simp: resolve_from_store_def)
qed

text \<open>The store of the sample session after a first commit in epoch 2; the directory is epoch 1's.\<close>

lemma sample_epoch2:
  "\<exists>st h. fs_valid plain_archiver ''s'' st \<and>
     fs_chain plain_archiver (sample_context ''turn-9'' 2) st = Some h \<and> ch_version h = 1 \<and>
     ch_turn_key h = Some ''turn-1''"
proof -
  have c: "case commit_snapshot plain_archiver (\<lambda>_. None) (Some sample_dir) ''s''
          \<lparr>ci_base_version = 0, ci_turn_key = ''turn-1''\<rparr> (Some 2) of
      (Inl e, st') \<Rightarrow> st' = (\<lambda>_. None)
    | (Inr r, st') \<Rightarrow> fs_valid plain_archiver ''s'' st'"
    using commit_snapshot_keeps_ok [where A = plain_archiver and sid = "''s''" and st = "\<lambda>_. None"
        and input = "\<lparr>ci_base_version = 0, ci_turn_key = ''turn-1''\<rparr>" and d = "Some sample_dir" and epoch = "Some 2"]
      empty_store_valid commit_snapshot_unwritten(1)
    by (cases "commit_snapshot plain_archiver (\<lambda>_. None) (Some sample_dir) ''s''
          \<lparr>ci_base_version = 0, ci_turn_key = ''turn-1''\<rparr> (Some 2)")
      (fastforce simp: fs_valid_def split: sum.split)
  have p: "probe_unlocked (\<lambda>_. None) ''s'' (Some 2) = (absent_probe, None)"
    by (simp add: probe_unlocked_def read_stored_meta_def is_legacy_epoch_def Let_def)
  obtain r st where w: "commit_snapshot plain_archiver (\<lambda>_. None) (Some sample_dir) ''s''
          \<lparr>ci_base_version = 0, ci_turn_key = ''turn-1''\<rparr> (Some 2) = (Inr r, st)" "\<not> cr_already_committed r"
    by (simp add: commit_snapshot_defs sample_dir_ready p decide_commit_def absent_probe_def Let_def)
  then have op: "vs_commit_snapshot (filesystem_store plain_archiver) (\<lambda>_. None) (Some sample_dir) ''s''
      \<lparr>ci_base_version = 0, ci_turn_key = ''turn-1''\<rparr> (Some 2) = (Inr r, st)"
    by (simp add: filesystem_store_def)
  from fs.commit_written [OF empty_store_valid _ _ op w(2)] show ?thesis
    by (auto simp: fs_chain_def sample_context_def)
qed

theorem regressed_flag_ignores_epoch_witness:
  "\<exists>s behind. fst (run_turn_preamble (fs_context plain_archiver (sample_context ''turn-9'' 2)) s) =
     Inr (Hydrated 1 behind (Some (30, 1)))"
proof -
  obtain st h where h: "fs_valid plain_archiver ''s'' st"
    "fs_chain plain_archiver (sample_context ''turn-9'' 2) st = Some h" "ch_version h = 1"
    "ch_turn_key h = Some ''turn-1''"
    using sample_epoch2 by blast
  define m where "m = \<lparr>mk_version = 30, mk_turn_key = None, mk_content_hash = None, mk_epoch = Some 1,
     mk_updated_at = []\<rparr>"
  define s where "s = \<lparr>ls_store = st, ls_dir = Some (sample_dir\<lparr>sd_marker := Some (Json_ok m)\<rparr>),
     ls_warm_session = False\<rparr>"
  have "\<exists>behind. fst (run_turn_preamble (fs_context plain_archiver (sample_context ''turn-9'' 2)) s) =
     Inr (Hydrated (ch_version h) behind (Some (mk_version m, ch_version h)))"
    by (rule regressed_flag_ignores_epoch [where e = 1])
      (use h in \<open>simp_all add: s_def m_def sample_context_def protocol_file_defs\<close>)
  then show ?thesis using h(3) by (auto simp: m_def)
qed

text \<open>
  A clean local directory over a legacy snapshot is taken as warm at its own marker's version,
  while the commit of a legacy chain accepts only base 0. A turn that starts from a marker with a
  positive version therefore always ends unpublished, although nobody raced it.
\<close>

theorem warm_over_legacy_never_publishes:
  assumes v: "fs_valid A (lc_session_id c) (ls_store s)"
    and h: "fs_chain A c (ls_store s) = Some h" "ch_version h < 1"
    and w: "run_turn_preamble (fs_context A c) s = (Inr (Warm base), s)" "0 < base"
    and b: "ls_store s2 = ls_store s" "ls_dir s2 = Some d"
      "check_session_snapshot (Some (d\<lparr>sd_commit := Some (Json_ok (lc_turn_key c, json_copy result))\<rparr>))"
      "jget ''type'' result \<noteq> JStr ''stopped''"
  shows "\<exists>out s'. run_turn_commit (fs_context A c) base result s2 = (Inr out, s') \<and>
     to_unpublished_reason out = Some Superseded"
proof -
  define pr where "pr = probe_snapshot (ls_store s) (lc_session_id c) (Some (lc_transcript_epoch c))"
  have "probe_matches pr (fs_chain A c (ls_store s))"
    using fs_probe_matches [OF v] by (simp add: pr_def)
  then have pk: "pr_exists pr" "pr_legacy pr" using h by (simp_all add: probe_matches_def)
  then show ?thesis
    using b w(2)
    by (simp add: run_turn_commit_def write_turn_commit_file_def commit_transient_retries_def numeral_3_eq_3
        commit_attempt_def filesystem_store_def commit_snapshot_defs decide_commit_def unpublished_def
        Let_def pr_def probe_snapshot_def)
qed

text \<open>A legacy snapshot in the store, and a worker whose marker says version 3.\<close>

definition legacy_files :: "(snapshot_codec \<times> archived) store_files" where
  "legacy_files = (\<lambda>n. if n = ''s.tar.gz'' then Some (Tar (Gzip, archive_of sample_dir)) else None)"

definition marked_dir :: session_dir where
  "marked_dir = sample_dir\<lparr>sd_marker := Some (Json_ok \<lparr>mk_version = 3, mk_turn_key = None,
     mk_content_hash = None, mk_epoch = None, mk_updated_at = []\<rparr>)\<rparr>"

lemma legacy_meta_path: "meta_path ''s'' e \<noteq> ''s.tar.gz''"
  using names_differ(3) [of "''s''" e] by (simp add: tar_file_name_def)

lemma legacy_files_valid: "fs_valid plain_archiver ''s'' legacy_files"
proof -
  have "chain_ok plain_archiver ''s'' legacy_files e" for e
    using legacy_meta_path [of e]
    by (simp add: chain_ok_def legacy_files_def legacy_tar_ok_def tar_file_name_def plain_archiver_def
        stored_codec_def)
  then show ?thesis by (simp add: fs_valid_def store_ok_def plain_archiver_ok)
qed

lemma legacy_probe:
  "probe_unlocked legacy_files ''s'' (Some 0) = (absent_probe\<lparr>pr_exists := True, pr_legacy := True\<rparr>, None)"
  by (simp add: probe_unlocked_def read_stored_meta_def legacy_files_def is_legacy_epoch_def meta_path_def
      meta_file_name_def current_tar_path_def tar_file_name_def Let_def)

lemma legacy_chain:
  "fs_chain plain_archiver (sample_context ''turn-4'' 0) legacy_files =
     Some \<lparr>ch_version = 0, ch_turn_key = None, ch_content_hash = None, ch_content = archive_of sample_dir\<rparr>"
  by (simp add: fs_chain_def fs_head_def sample_context_def legacy_probe current_tar_path_def)
    (simp add: legacy_files_def tar_file_name_def plain_archiver_def stored_codec_def absent_probe_def)

theorem warm_over_legacy_never_publishes_witness:
  "\<exists>out s'. run_turn_commit (fs_context plain_archiver (sample_context ''turn-4'' 0)) 3 (JStr ''done'')
       \<lparr>ls_store = legacy_files, ls_dir = Some marked_dir, ls_warm_session = True\<rparr> = (Inr out, s') \<and>
     to_unpublished_reason out = Some Superseded"
proof -
  define s where "s = \<lparr>ls_store = legacy_files, ls_dir = Some marked_dir, ls_warm_session = True\<rparr>"
  have lt: "local_trusted (fs_context plain_archiver (sample_context ''turn-4'' 0)) (Some marked_dir)"
    by (simp add: local_trusted_def has_usable_session_layout_def epoch_mismatch_def protocol_file_defs
        marked_dir_def sample_dir_def dir_has_def sample_context_def fs_context_def)
  have "run_turn_preamble (fs_context plain_archiver (sample_context ''turn-4'' 0)) s = (Inr (Warm 3), s)"
    using lt
    by (simp add: run_turn_preamble_def s_def filesystem_store_def probe_snapshot_def sample_context_def
        legacy_probe absent_probe_def Let_def fs_context_def)
      (simp add: marked_dir_def sample_dir_def protocol_file_defs marker_version_def)
  moreover have "check_session_snapshot (Some (marked_dir\<lparr>sd_commit := x\<rparr>))" for x
    by (simp add: check_session_snapshot_def marked_dir_def sample_dir_def dir_has_def) code_simp
  ultimately show ?thesis
    using warm_over_legacy_never_publishes [where A = plain_archiver and c = "sample_context ''turn-4'' 0"
        and s = s and ?s2.0 = s and d = marked_dir and base = 3 and result = "JStr ''done''"]
      legacy_files_valid legacy_chain
    by (auto simp: s_def sample_context_def)
qed

end
