(* ===== verification/ProviderBudgets.thy ===== *)
theory ProviderBudgets
  imports Prelude "HOL-Library.Word"
begin

text \<open>
  Provider budgets, the runtime's half (\<open>packages/sdk/src/provider-budgets.ts\<close>): how long a
  session paused by its provider's budget sleeps, the sentence it shows, and the conversion of
  the database's admission verdict into the \<open>wait\<close> result that parks the session.

  \<open>Date.parse\<close> accepts implementation-defined formats, so it is an argument (\<open>date_parse\<close>, with
  \<open>None\<close> for \<open>NaN\<close>); every result holds for any such function. Products and quotients of doubles
  (\<open>waitMs * 0.1\<close>, \<open>normalized / 997 * cap\<close>) are computed exactly.
\<close>

datatype budget_period = Day | Week | Month

datatype budget_pause_kind = Limit | Allowance | Hold | NoProvider

record budget_pause =
  bp_kind :: budget_pause_kind
  bp_provider :: "string option"
  bp_period :: "budget_period option"
  bp_model_qualified :: "string option"
  bp_resets_at_utc :: "string option"

record turn_admission =
  ta_verdict :: string
  ta_provider_name :: "string option"
  ta_exempt :: bool
  ta_pause :: "budget_pause option"

definition max_budget_wait_seconds :: int where
  "max_budget_wait_seconds = 6 * 60 * 60"

definition min_budget_wait_seconds :: int where
  "min_budget_wait_seconds = 5"

fun period_label :: "budget_period \<Rightarrow> string" where
  "period_label Day = ''daily''"
| "period_label Week = ''weekly''"
| "period_label Month = ''monthly''"

text \<open>The hash is a signed 32-bit value: \<open>(h * 31 + c) | 0\<close> wraps.\<close>

definition budget_jitter_seed :: "string \<Rightarrow> int" where
  "budget_jitter_seed session_id =
     \<bar>sint (fold (\<lambda>c h. h * 31 + of_char c) session_id (0 :: 32 word))\<bar>"

definition budget_wake_jitter_ms :: "int \<Rightarrow> int \<Rightarrow> int" where
  "budget_wake_jitter_ms wait_ms seed =
     (let cap = min (5 * 60 * 1000) (max 1000 (wait_ms div 10));
          normalized = js_rem (js_rem seed 997 + 997) 997
      in normalized * cap div 997)"

definition budget_wait_seconds ::
  "(string \<Rightarrow> int option) \<Rightarrow> budget_pause \<Rightarrow> int \<Rightarrow> string \<Rightarrow> int" where
  "budget_wait_seconds date_parse pause now_ms session_id =
     (let reset_ms = (if truthy_str (bp_resets_at_utc pause)
                      then date_parse (the (bp_resets_at_utc pause)) else None);
          seconds = (case reset_ms of
                       None \<Rightarrow> max_budget_wait_seconds
                     | Some r \<Rightarrow>
                         let remaining_ms = max 0 (r - now_ms);
                             jittered = remaining_ms +
                               budget_wake_jitter_ms remaining_ms (budget_jitter_seed session_id)
                         in ceil_div jittered 1000)
      in max min_budget_wait_seconds (min max_budget_wait_seconds seconds))"

text \<open>\<open>s.replace(/\.\d{3}Z$/, "Z")\<close> and \<open>s.replace("T", " ")\<close> (its first occurrence).\<close>

definition drop_millis :: "string \<Rightarrow> string" where
  "drop_millis s =
     (let n = length s; tl5 = drop (n - 5) s
      in if 5 \<le> n \<and> tl5 ! 0 = CHR ''.'' \<and> is_digit (tl5 ! 1) \<and> is_digit (tl5 ! 2)
            \<and> is_digit (tl5 ! 3) \<and> tl5 ! 4 = CHR ''Z''
         then take (n - 5) s @ ''Z'' else s)"

fun replace_first :: "char \<Rightarrow> char \<Rightarrow> string \<Rightarrow> string" where
  "replace_first a b [] = []"
| "replace_first a b (c # cs) = (if c = a then b # cs else c # replace_first a b cs)"

definition when_clause :: "budget_pause \<Rightarrow> string" where
  "when_clause pause =
     (if \<not> truthy_str (bp_resets_at_utc pause) then []
      else '' Resets '' @ replace_first (CHR ''T'') (CHR '' '') (drop_millis (the (bp_resets_at_utc pause)))
           @ ''.'')"

definition budget_wait_reason :: "budget_pause \<Rightarrow> string" where
  "budget_wait_reason pause =
     (let provider = the (or_else (bp_provider pause) (Some (''this session'' @ [CHR 0x27] @ ''s provider'')));
          period = (case bp_period pause of Some p \<Rightarrow> period_label p | None \<Rightarrow> [])
      in case bp_kind pause of
           NoProvider \<Rightarrow>
             if truthy_str (bp_provider pause)
             then ''No provider named '' @ the (bp_provider pause) @ ''. This session waits until that name exists again, or until it is switched to another provider and model.''
             else ''This session'' @ [CHR 0x27] @ ''s model does not name a provider, so nothing can pay for it. Switch it to a provider and model.''
         | Hold \<Rightarrow>
             if truthy_str (bp_resets_at_utc pause)
             then provider @ '' is on hold.'' @ when_clause pause
             else provider @ '' is on hold until an administrator releases it.''
         | Allowance \<Rightarrow>
             ''Your '' @ period @ '' allowance on '' @ provider @ '' is used up. The provider has room; your share of it does not.'' @ when_clause pause
         | Limit \<Rightarrow>
             (let scope = (if truthy_str (bp_model_qualified pause)
                           then '' for '' @ the (bp_model_qualified pause) else [])
              in provider @ '' has reached its '' @ period @ '' limit'' @ scope @ ''.''
                 @ when_clause pause))"

record budget_wait =
  bw_seconds :: int
  bw_reason :: string
  bw_budget :: bool

definition admission_to_wait ::
  "(string \<Rightarrow> int option) \<Rightarrow> turn_admission \<Rightarrow> string \<Rightarrow> int \<Rightarrow> budget_wait option" where
  "admission_to_wait date_parse admission session_id now_ms =
     (if ta_exempt admission then None
      else if ta_verdict admission = ''clear'' then None
      else let pause = (case ta_pause admission of
                          Some p \<Rightarrow> p
                        | None \<Rightarrow> \<lparr>bp_kind = Limit, bp_provider = ta_provider_name admission,
                                   bp_period = None, bp_model_qualified = None,
                                   bp_resets_at_utc = None\<rparr>)
           in Some \<lparr>bw_seconds = budget_wait_seconds date_parse pause now_ms session_id,
                    bw_reason = budget_wait_reason pause, bw_budget = True\<rparr>)"

section \<open>Properties\<close>

lemma js_rem_nonneg: "0 \<le> a \<Longrightarrow> 0 < b \<Longrightarrow> js_rem a b = a mod b"
  by (cases "a = 0") (auto simp: js_rem_def)

lemma normalized_seed_bounds: "0 \<le> js_rem (js_rem s 997 + 997) 997 \<and> js_rem (js_rem s 997 + 997) 997 < 997"
proof -
  have "\<bar>js_rem s 997\<bar> < 997" by (auto simp: js_rem_def abs_mult sgn_if)
  then show ?thesis by (simp add: js_rem_nonneg)
qed

text \<open>The jitter is below its cap, and within a tenth of the wait unless the wait is under ten seconds.\<close>

lemma budget_wake_jitter_bounds:
  "0 \<le> budget_wake_jitter_ms w s \<and>
   budget_wake_jitter_ms w s \<le> min 300000 (max 1000 (w div 10))"
proof -
  define cap where "cap = min 300000 (max 1000 (w div 10))"
  define n where "n = js_rem (js_rem s 997 + 997) 997"
  have n: "0 \<le> n" "n < 997" using normalized_seed_bounds [of s] by (auto simp: n_def)
  have cap: "0 \<le> cap" by (simp add: cap_def)
  have j: "budget_wake_jitter_ms w s = n * cap div 997"
    by (simp add: budget_wake_jitter_ms_def cap_def n_def)
  have "n * cap div 997 \<le> 997 * cap div 997"
    using n cap by (intro zdiv_mono1 mult_right_mono) auto
  moreover have "0 \<le> n * cap div 997" using n cap by (simp add: pos_imp_zdiv_nonneg_iff)
  ultimately show ?thesis unfolding j by (simp add: cap_def)
qed

text \<open>
  A paused session always sleeps between five seconds and six hours, and it never wakes before
  the budget resets except at the six-hour backstop: whenever the pause names a reset time that
  parses and the wait is shorter than six hours, the timer fires at or after that time, and less
  than a tenth of the remaining wait (or one second) plus one second late.
\<close>

theorem budget_wait_seconds_bounds:
  fixes date_parse pause now_ms session_id
  defines "s \<equiv> budget_wait_seconds date_parse pause now_ms session_id"
  shows "5 \<le> s \<and> s \<le> 21600 \<and>
    (\<forall>reset. bp_resets_at_utc pause = Some reset \<and> reset \<noteq> [] \<longrightarrow>
       (\<forall>r. date_parse reset = Some r \<and> 5 < s \<and> s < 21600 \<longrightarrow>
          r \<le> now_ms + s * 1000 \<and>
          now_ms + s * 1000 < max now_ms r + max 1000 ((r - now_ms) div 10) + 1000))"
proof -
  have "5 \<le> s" "s \<le> 21600"
    by (auto simp: s_def budget_wait_seconds_def min_budget_wait_seconds_def
        max_budget_wait_seconds_def Let_def)
  moreover have "r \<le> now_ms + s * 1000 \<and>
      now_ms + s * 1000 < max now_ms r + max 1000 ((r - now_ms) div 10) + 1000"
    if "bp_resets_at_utc pause = Some reset" "reset \<noteq> []" "date_parse reset = Some r"
      "5 < s" "s < 21600" for reset r
  proof -
    define rem where "rem = max 0 (r - now_ms)"
    define j where "j = budget_wake_jitter_ms rem (budget_jitter_seed session_id)"
    have s: "s = ceil_div (rem + j) 1000"
      using that by (auto simp: s_def budget_wait_seconds_def min_budget_wait_seconds_def
          max_budget_wait_seconds_def rem_def j_def Let_def max_def min_def split: if_splits)
    have j: "0 \<le> j" "j \<le> max 1000 (rem div 10)"
      using budget_wake_jitter_bounds [of rem] by (auto simp: j_def)
    have c: "rem + j \<le> s * 1000" "s * 1000 < rem + j + 1000"
      using ceil_div_bounds [of 1000 "rem + j"] by (auto simp: s)
    have "max 1000 (rem div 10) = max 1000 ((r - now_ms) div 10)"
      by (auto simp: rem_def max_def)
    then show ?thesis using c j by (auto simp: rem_def max_def split: if_splits)
  qed
  ultimately show ?thesis by blast
qed

theorem budget_wait_seconds_bounds_witness:
  "let p = \<lparr>bp_kind = Limit, bp_provider = Some ''acme'', bp_period = Some Day,
            bp_model_qualified = None, bp_resets_at_utc = Some ''t''\<rparr>
   in 60 * 1000 \<le> budget_wait_seconds (\<lambda>_. Some 60000) p 0 [] * 1000"
proof -
  let ?p = "\<lparr>bp_kind = Limit, bp_provider = Some ''acme'', bp_period = Some Day,
            bp_model_qualified = None, bp_resets_at_utc = Some ''t''\<rparr>"
  have "budget_wait_seconds (\<lambda>_. Some 60000) ?p 0 [] = 60"
    by (simp add: budget_wait_seconds_def budget_wake_jitter_ms_def budget_jitter_seed_def
        js_rem_def ceil_div_def min_budget_wait_seconds_def max_budget_wait_seconds_def)
  with budget_wait_seconds_bounds [of "\<lambda>_. Some 60000" ?p 0 "[]"] show ?thesis by simp
qed

text \<open>
  The gate parks a session exactly when it is neither exempt nor cleared, always as a wait
  flagged \<open>budget\<close> with a bounded duration; in particular a system session is never parked and a
  cleared session never waits.
\<close>

theorem admission_to_wait_cases:
  "case admission_to_wait date_parse a session_id now_ms of
     None \<Rightarrow> ta_exempt a \<or> ta_verdict a = ''clear''
   | Some w \<Rightarrow> \<not> ta_exempt a \<and> ta_verdict a \<noteq> ''clear'' \<and> bw_budget w \<and>
       bw_reason w \<noteq> [] \<and> 5 \<le> bw_seconds w \<and> bw_seconds w \<le> 21600"
proof -
  have "budget_wait_reason p \<noteq> []" for p
    by (auto simp: budget_wait_reason_def Let_def split: budget_pause_kind.splits)
  then show ?thesis
    by (auto simp: admission_to_wait_def Let_def budget_wait_seconds_def
        min_budget_wait_seconds_def max_budget_wait_seconds_def split: option.splits)
qed

end
