(* ===== verification/OrchUtils.thy ===== *)
theory OrchUtils
  imports Prelude
begin

text \<open>
  \<open>packages/sdk/src/orchestration/utils.ts\<close>: merging prompts and the system context that rides at
  the end of a prompt, the reduction of runtime events into the context-usage record, and the
  error texts. An optional string is \<open>None\<close> when the property is absent; the code's truthiness
  tests treat the empty string like an absent one. Numbers are rationals (\<open>finiteNumber\<close> keeps the
  finite ones only).
\<close>

section \<open>Prompts and system context\<close>

definition system_open :: string where "system_open = ''[SYSTEM:''"
definition blank_line :: string where "blank_line = [CHR 0x0A, CHR 0x0A]"
definition system_marker :: string where "system_marker = blank_line @ system_open"

definition merge_prompt :: "string option \<Rightarrow> string option \<Rightarrow> string option" where
  "merge_prompt existing new =
     (if \<not> truthy_str existing then new
      else if \<not> truthy_str new then existing
      else Some (the existing @ blank_line @ the new))"

text \<open>\<open>s.lastIndexOf(pat)\<close>, \<open>None\<close> for -1.\<close>

fun last_index_of :: "string \<Rightarrow> string \<Rightarrow> nat option" where
  "last_index_of pat [] = (if pat = [] then Some 0 else None)"
| "last_index_of pat (c # cs) =
     (case last_index_of pat cs of
        Some i \<Rightarrow> Some (Suc i)
      | None \<Rightarrow> if starts_with pat (c # cs) then Some 0 else None)"

text \<open>\<open>s.slice("[SYSTEM:".length, -1).trim()\<close>\<close>

definition strip_system :: "string \<Rightarrow> string" where
  "strip_system s = trim (drop (length system_open) (butlast s))"

record extracted_prompt =
  ep_prompt :: "string option"
  ep_system_prompt :: "string option"

definition extract_prompt_system_context :: "string option \<Rightarrow> extracted_prompt" where
  "extract_prompt_system_context raw =
     (if \<not> truthy_str raw then \<lparr>ep_prompt = None, ep_system_prompt = None\<rparr>
      else
        let raw_prompt = the raw; trimmed = trim raw_prompt
        in if starts_with system_open trimmed \<and> ends_with '']'' trimmed then
             \<lparr>ep_prompt = None, ep_system_prompt = Some (strip_system trimmed)\<rparr>
           else case last_index_of system_marker raw_prompt of
             Some marker \<Rightarrow>
               if ends_with '']'' (trim_end raw_prompt) then
                 (let prompt = trim (take marker raw_prompt);
                      system_prompt = trim (drop (marker + 2) raw_prompt)
                  in \<lparr>ep_prompt = (if prompt \<noteq> [] then Some prompt else None),
                      ep_system_prompt = Some (strip_system system_prompt)\<rparr>)
               else \<lparr>ep_prompt = raw, ep_system_prompt = None\<rparr>
           | None \<Rightarrow> \<lparr>ep_prompt = raw, ep_system_prompt = None\<rparr>)"

definition append_system_context :: "string option \<Rightarrow> string option \<Rightarrow> string option" where
  "append_system_context raw extra =
     (if \<not> truthy_str extra then raw
      else
        let extracted = extract_prompt_system_context raw;
            merged = merge_prompt (ep_system_prompt extracted) extra
        in if \<not> truthy_str merged then (if ep_prompt extracted \<noteq> None then ep_prompt extracted else raw)
           else if truthy_str (ep_prompt extracted) then
             Some (the (ep_prompt extracted) @ blank_line @ ''[SYSTEM: '' @ the merged @ '']'')
           else Some (''[SYSTEM: '' @ the merged @ '']''))"

fun valid_client_message_ids :: "jsval \<Rightarrow> string list" where
  "valid_client_message_ids (JArr xs) =
     concat (map (\<lambda>v. case v of JStr s \<Rightarrow> if s \<noteq> [] then [s] else [] | _ \<Rightarrow> []) xs)"
| "valid_client_message_ids _ = []"

section \<open>Context usage\<close>

datatype compaction_state = Comp_idle | Comp_running | Comp_succeeded | Comp_failed

record compaction_snapshot =
  cp_state :: compaction_state
  cp_started_at :: "rat option"
  cp_completed_at :: "rat option"
  cp_error :: "string option"
  cp_pre_compaction_tokens :: "rat option"
  cp_post_compaction_tokens :: "rat option"
  cp_pre_compaction_messages_length :: "rat option"
  cp_messages_removed :: "rat option"
  cp_tokens_removed :: "rat option"
  cp_system_tokens :: "rat option"
  cp_conversation_tokens :: "rat option"
  cp_tool_definitions_tokens :: "rat option"
  cp_input_tokens :: "rat option"
  cp_output_tokens :: "rat option"
  cp_cached_input_tokens :: "rat option"

definition idle_compaction :: compaction_snapshot where
  "idle_compaction = \<lparr>cp_state = Comp_idle, cp_started_at = None, cp_completed_at = None,
     cp_error = None, cp_pre_compaction_tokens = None, cp_post_compaction_tokens = None,
     cp_pre_compaction_messages_length = None, cp_messages_removed = None, cp_tokens_removed = None,
     cp_system_tokens = None, cp_conversation_tokens = None, cp_tool_definitions_tokens = None,
     cp_input_tokens = None, cp_output_tokens = None, cp_cached_input_tokens = None\<rparr>"

record context_usage =
  cu_token_limit :: rat
  cu_current_tokens :: rat
  cu_utilization :: rat
  cu_messages_length :: rat
  cu_system_tokens :: "rat option"
  cu_conversation_tokens :: "rat option"
  cu_tool_definitions_tokens :: "rat option"
  cu_is_initial :: "bool option"
  cu_last_input_tokens :: "rat option"
  cu_last_output_tokens :: "rat option"
  cu_last_cache_read_tokens :: "rat option"
  cu_last_cache_write_tokens :: "rat option"
  cu_updated_at :: "rat option"
  cu_compaction :: "compaction_snapshot option"

fun finite_number :: "jsval \<Rightarrow> rat option" where
  "finite_number (JNum r) = Some r"
| "finite_number _ = None"

fun optional_boolean :: "jsval \<Rightarrow> bool option" where
  "optional_boolean (JBool b) = Some b"
| "optional_boolean _ = None"

text \<open>\<open>if (x != null) target.field = x\<close>: keep the old value unless there is a new one.\<close>

definition set_if :: "'a option \<Rightarrow> 'a option \<Rightarrow> 'a option" where
  "set_if new old = (case new of Some x \<Rightarrow> Some x | None \<Rightarrow> old)"

definition utilization :: "rat \<Rightarrow> rat \<Rightarrow> rat" where
  "utilization current limit = (if limit > 0 then current / limit else 0)"

definition empty_usage :: "rat \<Rightarrow> rat \<Rightarrow> rat \<Rightarrow> context_usage" where
  "empty_usage limit current messages =
     \<lparr>cu_token_limit = limit, cu_current_tokens = current, cu_utilization = utilization current limit,
      cu_messages_length = messages, cu_system_tokens = None, cu_conversation_tokens = None,
      cu_tool_definitions_tokens = None, cu_is_initial = None, cu_last_input_tokens = None,
      cu_last_output_tokens = None, cu_last_cache_read_tokens = None,
      cu_last_cache_write_tokens = None, cu_updated_at = None, cu_compaction = None\<rparr>"

text \<open>\<open>session.usage_info\<close>\<close>

definition usage_info :: "context_usage option \<Rightarrow> jsval \<Rightarrow> rat \<Rightarrow> context_usage option" where
  "usage_info prev data observed_at =
     (case (finite_number (jget ''tokenLimit'' data), finite_number (jget ''currentTokens'' data),
            finite_number (jget ''messagesLength'' data)) of
        (Some limit, Some current, Some messages) \<Rightarrow>
          let base = (case prev of None \<Rightarrow> empty_usage limit current messages | Some u \<Rightarrow> u)
          in Some (base\<lparr>cu_token_limit := limit, cu_current_tokens := current,
               cu_utilization := utilization current limit, cu_messages_length := messages,
               cu_updated_at := Some observed_at,
               cu_system_tokens := set_if (finite_number (jget ''systemTokens'' data)) (cu_system_tokens base),
               cu_conversation_tokens :=
                 set_if (finite_number (jget ''conversationTokens'' data)) (cu_conversation_tokens base),
               cu_tool_definitions_tokens :=
                 set_if (finite_number (jget ''toolDefinitionsTokens'' data)) (cu_tool_definitions_tokens base),
               cu_is_initial := set_if (optional_boolean (jget ''isInitial'' data)) (cu_is_initial base)\<rparr>)
      | _ \<Rightarrow> prev)"

text \<open>\<open>assistant.usage\<close>\<close>

definition assistant_usage :: "context_usage \<Rightarrow> jsval \<Rightarrow> rat \<Rightarrow> context_usage" where
  "assistant_usage u data observed_at =
     u\<lparr>cu_last_input_tokens := set_if (finite_number (jget ''inputTokens'' data)) (cu_last_input_tokens u),
       cu_last_output_tokens := set_if (finite_number (jget ''outputTokens'' data)) (cu_last_output_tokens u),
       cu_last_cache_read_tokens :=
         set_if (finite_number (jget ''cacheReadTokens'' data)) (cu_last_cache_read_tokens u),
       cu_last_cache_write_tokens :=
         set_if (finite_number (jget ''cacheWriteTokens'' data)) (cu_last_cache_write_tokens u),
       cu_updated_at := Some observed_at\<rparr>"

text \<open>\<open>session.compaction_start\<close>\<close>

definition compaction_start :: "context_usage \<Rightarrow> rat \<Rightarrow> context_usage" where
  "compaction_start u observed_at =
     u\<lparr>cu_compaction := Some ((coalesce (cu_compaction u) idle_compaction)
          \<lparr>cp_state := Comp_running, cp_started_at := Some observed_at, cp_completed_at := None,
           cp_error := None\<rparr>),
       cu_updated_at := Some observed_at\<rparr>"

text \<open>\<open>session.compaction_complete\<close>: the snapshot, then the usage figures it updates.\<close>

definition completed_compaction :: "compaction_snapshot \<Rightarrow> jsval \<Rightarrow> rat \<Rightarrow> compaction_snapshot" where
  "completed_compaction c data observed_at =
     (let used = jget ''compactionTokensUsed'' data;
          num = (\<lambda>k. finite_number (jget k data)); unum = (\<lambda>k. finite_number (jget k used))
      in c\<lparr>cp_state := (if jget ''success'' data = JBool False then Comp_failed else Comp_succeeded),
           cp_completed_at := Some observed_at,
           cp_error := (case jget ''error'' data of JStr s \<Rightarrow> if s \<noteq> [] then Some s else None | _ \<Rightarrow> None),
           cp_pre_compaction_tokens := set_if (num ''preCompactionTokens'') (cp_pre_compaction_tokens c),
           cp_post_compaction_tokens := set_if (num ''postCompactionTokens'') (cp_post_compaction_tokens c),
           cp_pre_compaction_messages_length :=
             set_if (num ''preCompactionMessagesLength'') (cp_pre_compaction_messages_length c),
           cp_messages_removed := set_if (num ''messagesRemoved'') (cp_messages_removed c),
           cp_tokens_removed := set_if (num ''tokensRemoved'') (cp_tokens_removed c),
           cp_system_tokens := set_if (num ''systemTokens'') (cp_system_tokens c),
           cp_conversation_tokens := set_if (num ''conversationTokens'') (cp_conversation_tokens c),
           cp_tool_definitions_tokens := set_if (num ''toolDefinitionsTokens'') (cp_tool_definitions_tokens c),
           cp_input_tokens := set_if (unum ''input'') (cp_input_tokens c),
           cp_output_tokens := set_if (unum ''output'') (cp_output_tokens c),
           cp_cached_input_tokens := set_if (unum ''cachedInput'') (cp_cached_input_tokens c)\<rparr>)"

definition compaction_complete :: "context_usage \<Rightarrow> jsval \<Rightarrow> rat \<Rightarrow> context_usage" where
  "compaction_complete u data observed_at =
     (let num = (\<lambda>k. finite_number (jget k data));
          u1 = (case num ''postCompactionTokens'' of
                  Some t \<Rightarrow> u\<lparr>cu_current_tokens := t, cu_utilization := utilization t (cu_token_limit u)\<rparr>
                | None \<Rightarrow> u);
          u2 = (case (num ''preCompactionMessagesLength'', num ''messagesRemoved'') of
                  (Some p, Some r) \<Rightarrow> u1\<lparr>cu_messages_length := max 0 (p - r)\<rparr>
                | _ \<Rightarrow> u1)
      in u2\<lparr>cu_system_tokens := set_if (num ''systemTokens'') (cu_system_tokens u2),
            cu_conversation_tokens := set_if (num ''conversationTokens'') (cu_conversation_tokens u2),
            cu_tool_definitions_tokens := set_if (num ''toolDefinitionsTokens'') (cu_tool_definitions_tokens u2),
            cu_compaction :=
              Some (completed_compaction (coalesce (cu_compaction u) idle_compaction) data observed_at),
            cu_updated_at := Some observed_at\<rparr>)"

text \<open>One event: \<open>typeof data !== "object"\<close> lets arrays through, whose fields are all undefined.\<close>

definition usage_event :: "rat \<Rightarrow> context_usage option \<Rightarrow> jsval \<Rightarrow> context_usage option" where
  "usage_event observed_at prev event =
     (let event_type = jget ''eventType'' event; data = jget ''data'' event
      in if \<not> truthy event_type \<or> (case data of JObj _ \<Rightarrow> False | JArr _ \<Rightarrow> False | _ \<Rightarrow> True) then prev
         else if event_type = JStr ''session.usage_info'' then usage_info prev data observed_at
         else case prev of
           None \<Rightarrow> None
         | Some u \<Rightarrow>
             if event_type = JStr ''assistant.usage'' then Some (assistant_usage u data observed_at)
             else if event_type = JStr ''session.compaction_start'' then Some (compaction_start u observed_at)
             else if event_type = JStr ''session.compaction_complete''
             then Some (compaction_complete u data observed_at)
             else Some u)"

definition update_context_usage_from_events ::
  "context_usage option \<Rightarrow> jsval list \<Rightarrow> rat \<Rightarrow> context_usage option" where
  "update_context_usage_from_events previous events observed_at =
     foldl (usage_event observed_at) previous events"

section \<open>Error texts\<close>

definition copilot_connection_closed_max_retries :: nat where
  "copilot_connection_closed_max_retries = 3"

definition copilot_connection_closed_retry_delay_seconds :: nat where
  "copilot_connection_closed_retry_delay_seconds = 15"

definition build_connection_closed_retry_detail :: "nat \<Rightarrow> string" where
  "build_connection_closed_retry_detail retry_attempt =
     ''Live Copilot connection lost; retry '' @ show_nat retry_attempt @ ''/'' @
     show_nat copilot_connection_closed_max_retries @ '' in '' @
     show_nat copilot_connection_closed_retry_delay_seconds @ ''s.''"

definition build_lossy_handoff_summary :: "string \<Rightarrow> string" where
  "build_lossy_handoff_summary message =
     ''Live Copilot connection stayed closed after '' @ show_nat copilot_connection_closed_max_retries @
     '' retries; dehydrating for handoff to a new worker. Last error: '' @ message"

definition build_lossy_handoff_rehydration_message :: "string \<Rightarrow> string" where
  "build_lossy_handoff_rehydration_message message =
     ''The previous worker lost the live Copilot connection and handed this session off after '' @
     show_nat copilot_connection_closed_max_retries @
     '' retries. The LLM conversation history is preserved. Review the latest durable context and '' @
     ''continue carefully. Last transport error: '' @ message"

section \<open>Properties of the prompt operations\<close>

lemma last_index_of_append:
  "last_index_of pat s = Some i \<Longrightarrow> last_index_of pat (a @ s) = Some (length a + i)"
  by (induction a) auto

lemma last_index_of_snoc:
  "last_index_of pat s = None \<Longrightarrow> pat \<noteq> [] \<Longrightarrow> last pat \<noteq> c \<Longrightarrow> last_index_of pat (s @ [c]) = None"
proof (induction s)
  case Nil
  then show ?case by (cases pat; cases "tl pat") auto
next
  case (Cons x s)
  have "\<not> starts_with pat (x # s)" using Cons.prems(1) by (auto split: option.split_asm if_split_asm)
  moreover have "starts_with pat (x # s) \<or> pat = x # s @ [c]" if sw: "starts_with pat (x # s @ [c])"
  proof -
    obtain t where "x # s @ [c] = pat @ t" using sw unfolding starts_with_iff by blast
    then show ?thesis
      by (cases t rule: rev_cases) (auto simp: starts_with_iff simp flip: append_Cons append_assoc)
  qed
  ultimately have "\<not> starts_with pat (x # s @ [c])" using Cons.prems(3) by fastforce
  then show ?case using Cons by (auto split: option.split_asm if_split_asm)
qed

lemma last_index_system:
  assumes "last_index_of system_marker extra = None"
  shows "last_index_of system_marker (p @ blank_line @ ''[SYSTEM: '' @ extra @ '']'') = Some (length p)"
proof -
  have "last_index_of system_marker (extra @ '']'') = None"
    by (rule last_index_of_snoc [OF assms]) (simp_all add: system_marker_def blank_line_def system_open_def)
  then have "last_index_of system_marker (blank_line @ ''[SYSTEM: '' @ extra @ '']'') = Some 0"
    by (simp add: blank_line_def system_marker_def system_open_def)
  from last_index_of_append [OF this, of p] show ?thesis by simp
qed

lemma starts_with_before: "starts_with q (p @ c # r) \<Longrightarrow> c \<notin> set q \<Longrightarrow> starts_with q p"
  by (induction q p rule: starts_with.induct) auto

lemma trim_edges: "trim p = p \<Longrightarrow> p \<noteq> [] \<Longrightarrow> \<not> is_ws (hd p) \<and> \<not> is_ws (last p)"
  using trim_hd [of p] trim_last [of p] by simp

lemma bracket_not_ws [simp]: "\<not> is_ws CHR '']''" "\<not> is_ws CHR ''[''" "is_ws CHR '' ''"
  by (simp_all add: is_ws_def)

lemma trim_end_id: "s \<noteq> [] \<Longrightarrow> \<not> is_ws (last s) \<Longrightarrow> trim_end s = s"
  by (simp add: trim_end_def dropWhile_idle hd_rev)

lemma ends_with_snoc [simp]: "ends_with [c] (s @ [c])"
  by (auto simp: ends_with_iff)

lemma strip_system_wrapped:
  assumes "trim extra = extra"
  shows "strip_system (''[SYSTEM: '' @ extra @ '']'') = extra"
proof -
  have "trim (CHR '' '' # extra) = trim extra" by (simp add: trim_def trim_start_def)
  then show ?thesis
    using assms by (simp add: strip_system_def system_open_def butlast_append)
qed

lemma append_plain:
  assumes "extract_prompt_system_context (Some p) = \<lparr>ep_prompt = Some p, ep_system_prompt = None\<rparr>"
    and "p \<noteq> []" "extra \<noteq> []"
  shows "append_system_context (Some p) (Some extra) =
    Some (p @ blank_line @ ''[SYSTEM: '' @ extra @ '']'')"
  using assms by (simp add: append_system_context_def merge_prompt_def)

text \<open>
  System context appended to a prompt is recovered from it: for a trimmed prompt without system
  context of its own that does not begin like one, and a trimmed note that contains no further
  marker, extracting what appending built gives back exactly the prompt and the note.
\<close>

theorem extract_append_system_context:
  assumes plain: "extract_prompt_system_context (Some p) = \<lparr>ep_prompt = Some p, ep_system_prompt = None\<rparr>"
    and p: "trim p = p" "p \<noteq> []" "\<not> starts_with system_open p"
    and e: "trim extra = extra" "extra \<noteq> []" "last_index_of system_marker extra = None"
  shows "extract_prompt_system_context (append_system_context (Some p) (Some extra)) =
    \<lparr>ep_prompt = Some p, ep_system_prompt = Some extra\<rparr>"
proof -
  define s where "s = p @ blank_line @ ''[SYSTEM: '' @ extra @ '']''"
  have a: "append_system_context (Some p) (Some extra) = Some s"
    using append_plain [OF plain p(2) e(2)] by (simp add: s_def)
  have ne: "s \<noteq> []" and lst: "\<not> is_ws (last s)" and hd: "hd s = hd p"
    using p(2) by (simp_all add: s_def)
  have tr: "trim s = s" using trim_edges [OF p(1,2)] ne lst hd by (intro trim_id) simp
  have te: "trim_end s = s" by (rule trim_end_id [OF ne lst])
  have en: "ends_with '']'' s" unfolding s_def by (auto simp: ends_with_iff)
  have ns: "\<not> starts_with system_open s"
    using p(3) starts_with_before [of system_open p "CHR 0x0A"]
    by (auto simp: s_def blank_line_def system_open_def)
  have mk: "last_index_of system_marker s = Some (length p)"
    unfolding s_def by (rule last_index_system [OF e(3)])
  have tail: "trim (drop (length p + 2) s) = ''[SYSTEM: '' @ extra @ '']''"
    unfolding s_def by (simp add: blank_line_def trim_id)
  have hdp: "take (length p) s = p" by (simp add: s_def)
  show ?thesis
    unfolding a extract_prompt_system_context_def
    using ne tr te en ns mk p tail hdp strip_system_wrapped [OF e(1)]
    by (simp add: Let_def)
qed

theorem extract_append_system_context_witness:
  "extract_prompt_system_context (append_system_context (Some ''hi'') (Some ''be brief'')) =
    \<lparr>ep_prompt = Some ''hi'', ep_system_prompt = Some ''be brief''\<rparr>"
  by (rule extract_append_system_context) code_simp+

text \<open>
  A prompt that itself begins with a system block loses its own text when a note is appended:
  the result begins with the opening and ends with the closing bracket of the two blocks, so
  extraction takes all of it for system context and reports no prompt.
\<close>

theorem append_swallows_system_prefixed_prompt:
  assumes "trim p = p" "starts_with system_open p" "extra \<noteq> []"
    and "extract_prompt_system_context (Some p) = \<lparr>ep_prompt = Some p, ep_system_prompt = None\<rparr>"
  shows "ep_prompt (extract_prompt_system_context (append_system_context (Some p) (Some extra))) = None"
proof -
  have p: "p \<noteq> []" using assms(2) by (auto simp: system_open_def)
  define s where "s = p @ blank_line @ ''[SYSTEM: '' @ extra @ '']''"
  have a: "append_system_context (Some p) (Some extra) = Some s"
    using append_plain [OF assms(4) p assms(3)] by (simp add: s_def)
  have tr: "trim s = s" using trim_edges [OF assms(1) p] p by (intro trim_id) (simp add: s_def)
  have "starts_with system_open s" using assms(2) by (auto simp: s_def starts_with_iff)
  moreover have "ends_with '']'' s" unfolding s_def by (auto simp: ends_with_iff)
  moreover have "s \<noteq> []" by (simp add: s_def p)
  ultimately show ?thesis using tr by (simp add: a extract_prompt_system_context_def Let_def)
qed

theorem append_swallows_system_prefixed_prompt_witness:
  "ep_prompt (extract_prompt_system_context
     (append_system_context (Some ''[SYSTEM: a] do it'') (Some ''note''))) = None"
  by (rule append_swallows_system_prefixed_prompt) code_simp+

section \<open>Properties of the usage reduction\<close>

definition usage_ok :: "context_usage \<Rightarrow> bool" where
  "usage_ok u \<longleftrightarrow> cu_utilization u = utilization (cu_current_tokens u) (cu_token_limit u)"

lemma usage_event_ok:
  assumes "pred_option usage_ok prev"
  shows "pred_option usage_ok (usage_event t prev e)"
proof -
  have info: "pred_option usage_ok (usage_info prev d t)" for d
    using assms by (auto simp: usage_info_def usage_ok_def Let_def split: option.splits)
  have comp: "usage_ok u \<Longrightarrow> usage_ok (compaction_complete u d t)" for u d
    by (auto simp: compaction_complete_def usage_ok_def Let_def split: option.splits)
  show ?thesis
    using assms info comp
    by (auto simp: usage_event_def Let_def assistant_usage_def compaction_start_def usage_ok_def
        split: option.splits)
qed

text \<open>
  The utilization published with a session is never stale: whatever events are folded in, in
  whatever order, it is the current token count over the token limit (0 without a limit).
\<close>

theorem update_context_usage_consistent:
  assumes "pred_option usage_ok previous"
  shows "pred_option usage_ok (update_context_usage_from_events previous events t)"
  using assms unfolding update_context_usage_from_events_def
  by (induction events arbitrary: previous) (simp_all add: usage_event_ok)

definition usage_events_example :: "jsval list" where
  "usage_events_example =
     [JObj [(''eventType'', JStr ''session.usage_info''),
            (''data'', JObj [(''tokenLimit'', JNum 200), (''currentTokens'', JNum 150), (''messagesLength'', JNum 9)])],
      JObj [(''eventType'', JStr ''session.compaction_complete''),
            (''data'', JObj [(''postCompactionTokens'', JNum 50)])]]"

theorem update_context_usage_consistent_witness:
  "pred_option usage_ok (update_context_usage_from_events None usage_events_example 7)"
  by (rule update_context_usage_consistent) simp

end
