(* ===== verification/MessageSender.thy ===== *)
theory MessageSender
  imports Prelude
begin

text \<open>
  Message sender identity (\<open>packages/sdk/src/message-sender.ts\<close>): validation of the untyped
  sender a message payload carries, the identity key used to count distinct writers, and the
  attribution line shown to the agent.
\<close>

section \<open>The record and its vocabularies\<close>

datatype sender_kind = User | Agent | System

datatype sender_relation = Owner | Collaborator | Admin

datatype sender_origin = Portal | Tui | Mcp | Api

record message_sender =
  ms_kind :: sender_kind
  ms_provider :: "string option"
  ms_subject :: "string option"
  ms_display :: "string option"
  ms_relation :: "sender_relation option"
  ms_session_id :: "string option"
  ms_origin :: "sender_origin option"

definition sender_kinds :: "string \<Rightarrow> sender_kind option" where
  "sender_kinds s =
     (if s = ''user'' then Some User else if s = ''agent'' then Some Agent
      else if s = ''system'' then Some System else None)"

definition sender_relations :: "string \<Rightarrow> sender_relation option" where
  "sender_relations s =
     (if s = ''owner'' then Some Owner else if s = ''collaborator'' then Some Collaborator
      else if s = ''admin'' then Some Admin else None)"

definition sender_origins :: "string \<Rightarrow> sender_origin option" where
  "sender_origins s =
     (if s = ''portal'' then Some Portal else if s = ''tui'' then Some Tui
      else if s = ''mcp'' then Some Mcp else if s = ''api'' then Some Api else None)"

fun kind_text :: "sender_kind \<Rightarrow> string" where
  "kind_text User = ''user''"
| "kind_text Agent = ''agent''"
| "kind_text System = ''system''"

fun relation_text :: "sender_relation \<Rightarrow> string" where
  "relation_text Owner = ''owner''"
| "relation_text Collaborator = ''collaborator''"
| "relation_text Admin = ''admin''"

fun origin_text :: "sender_origin \<Rightarrow> string" where
  "origin_text Portal = ''portal''"
| "origin_text Tui = ''tui''"
| "origin_text Mcp = ''mcp''"
| "origin_text Api = ''api''"

section \<open>Operations\<close>

fun clamp_string :: "jsval \<Rightarrow> nat \<Rightarrow> string option" where
  "clamp_string (JStr s) max_length =
     (let trimmed = trim s
      in if trimmed = [] then None
         else Some (if length trimmed > max_length then take max_length trimmed else trimmed))"
| "clamp_string _ _ = None"

definition normalize_message_sender :: "jsval \<Rightarrow> message_sender option" where
  "normalize_message_sender sender =
     (if \<not> is_plain_object sender then None
      else
        case Option.bind (as_string (jget ''kind'' sender)) sender_kinds of
          None \<Rightarrow> None
        | Some kind \<Rightarrow>
            let provider = clamp_string (jget ''provider'' sender) 100;
                subject = clamp_string (jget ''subject'' sender) 200;
                display = clamp_string (jget ''display'' sender) 200;
                relation = Option.bind (as_string (jget ''relation'' sender)) sender_relations;
                session_id = clamp_string (jget ''sessionId'' sender) 200;
                origin = Option.bind (as_string (jget ''origin'' sender)) sender_origins;
                normalized = \<lparr>ms_kind = kind, ms_provider = provider, ms_subject = subject,
                  ms_display = display, ms_relation = relation, ms_session_id = session_id,
                  ms_origin = origin\<rparr>
            in if kind = User \<and> (\<not> truthy_str provider \<or> \<not> truthy_str subject) then None
               else Some normalized)"

definition message_sender_key :: "message_sender option \<Rightarrow> string option" where
  "message_sender_key sender =
     (case sender of
        None \<Rightarrow> None
      | Some s \<Rightarrow>
          if ms_kind s = User \<and> truthy_str (ms_provider s) \<and> truthy_str (ms_subject s)
          then Some (''user:'' @ the (ms_provider s) @ ''/'' @ the (ms_subject s))
          else if ms_kind s = Agent \<and> truthy_str (ms_session_id s)
          then Some (''agent:'' @ the (ms_session_id s))
          else if ms_kind s = System then Some ''system'' else None)"

definition format_sender_attribution :: "message_sender \<Rightarrow> string" where
  "format_sender_attribution sender =
     (let name = coalesce (or_else (ms_display sender)
                   (or_else (ms_subject sender) (Some ''unknown''))) [];
          relation = (case ms_relation sender of
                        Some r \<Rightarrow> relation_text r
                      | None \<Rightarrow> if ms_kind sender = User then ''collaborator''
                                else kind_text (ms_kind sender))
      in ''[FROM: '' @ name @ '' ('' @ relation @ '')]'')"

section \<open>Well-formed senders\<close>

text \<open>What the rest of the system may assume of a sender: bounded, trimmed, and a user is identified.\<close>

definition clamped :: "nat \<Rightarrow> string option \<Rightarrow> bool" where
  "clamped n s = (case s of None \<Rightarrow> True | Some t \<Rightarrow> t \<noteq> [] \<and> length t \<le> n \<and> \<not> is_ws (hd t))"

definition wf_sender :: "message_sender \<Rightarrow> bool" where
  "wf_sender s \<longleftrightarrow>
     clamped 100 (ms_provider s) \<and> clamped 200 (ms_subject s) \<and> clamped 200 (ms_display s) \<and>
     clamped 200 (ms_session_id s) \<and>
     (ms_kind s = User \<longrightarrow> ms_provider s \<noteq> None \<and> ms_subject s \<noteq> None)"

text \<open>The JSON object a sender is serialised to when it rides the durable queue.\<close>

definition opt_field :: "string \<Rightarrow> string option \<Rightarrow> (string \<times> jsval) list" where
  "opt_field k v = (case v of None \<Rightarrow> [] | Some s \<Rightarrow> [(k, JStr s)])"

definition sender_json :: "message_sender \<Rightarrow> jsval" where
  "sender_json s = JObj ((''kind'', JStr (kind_text (ms_kind s)))
     # opt_field ''provider'' (ms_provider s) @ opt_field ''subject'' (ms_subject s)
     @ opt_field ''display'' (ms_display s)
     @ opt_field ''relation'' (map_option relation_text (ms_relation s))
     @ opt_field ''sessionId'' (ms_session_id s)
     @ opt_field ''origin'' (map_option origin_text (ms_origin s)))"

lemma clamp_string_clamped: "0 < n \<Longrightarrow> clamped n (clamp_string v n)"
  using trim_hd
  by (cases v) (auto simp: clamped_def Let_def hd_take)

lemma clamp_string_None_iff:
  "clamp_string v n = None \<longleftrightarrow> (\<forall>s. v = JStr s \<longrightarrow> trim s = [])"
  by (cases v) (auto simp: Let_def)

lemma texts_round_trip [simp]:
  "sender_kinds (kind_text k) = Some k"
  "sender_relations (relation_text r) = Some r"
  "sender_origins (origin_text p) = Some p"
  by (cases k; cases r; cases p; simp add: sender_kinds_def sender_relations_def sender_origins_def)+

lemma clamped_truthy: "clamped n s \<Longrightarrow> truthy_str s \<longleftrightarrow> s \<noteq> None"
  by (cases s) (auto simp: clamped_def)

lemma normalize_cases:
  assumes "normalize_message_sender v = Some s"
  shows "is_plain_object v" "as_string (jget ''kind'' v) = Some (kind_text (ms_kind s))"
    "ms_provider s = clamp_string (jget ''provider'' v) 100"
    "ms_subject s = clamp_string (jget ''subject'' v) 200"
    "ms_display s = clamp_string (jget ''display'' v) 200"
    "ms_session_id s = clamp_string (jget ''sessionId'' v) 200"
    "ms_kind s = User \<Longrightarrow> truthy_str (ms_provider s) \<and> truthy_str (ms_subject s)"
  using assms
  by (auto simp: normalize_message_sender_def Let_def sender_kinds_def bind_eq_Some_conv
      split: if_splits option.splits)

lemma truthy_str_not_None: "truthy_str s \<Longrightarrow> s \<noteq> None"
  by (cases s) auto

text \<open>
  Whatever arrives as a sender (any JSON value), a record that comes out of
  \<open>normalizeMessageSender\<close> is well formed: every text field is non-empty, starts with no white
  space and respects its length limit, and a user sender always has a provider and a subject.
\<close>

theorem normalize_message_sender_wf:
  "case normalize_message_sender v of None \<Rightarrow> True | Some s \<Rightarrow> wf_sender s"
proof (cases "normalize_message_sender v")
  case (Some s)
  note c = normalize_cases [OF Some]
  show ?thesis
    using c(7) truthy_str_not_None
    by (auto simp: Some wf_sender_def c(3-6) clamp_string_clamped)
qed simp

lemma map_of_opt_field: "map_of (opt_field k v) j = (if j = k then map_option JStr v else None)"
  by (auto simp: opt_field_def split: option.splits)

lemma jget_sender_json:
  "jget ''kind'' (sender_json s) = JStr (kind_text (ms_kind s))"
  "jget ''provider'' (sender_json s) = (case ms_provider s of None \<Rightarrow> JUndef | Some x \<Rightarrow> JStr x)"
  "jget ''subject'' (sender_json s) = (case ms_subject s of None \<Rightarrow> JUndef | Some x \<Rightarrow> JStr x)"
  "jget ''display'' (sender_json s) = (case ms_display s of None \<Rightarrow> JUndef | Some x \<Rightarrow> JStr x)"
  "jget ''relation'' (sender_json s) =
     (case ms_relation s of None \<Rightarrow> JUndef | Some x \<Rightarrow> JStr (relation_text x))"
  "jget ''sessionId'' (sender_json s) = (case ms_session_id s of None \<Rightarrow> JUndef | Some x \<Rightarrow> JStr x)"
  "jget ''origin'' (sender_json s) =
     (case ms_origin s of None \<Rightarrow> JUndef | Some x \<Rightarrow> JStr (origin_text x))"
  by (auto simp: sender_json_def map_of_opt_field map_add_def split: option.splits)

text \<open>
  Senders whose text fields also end in no white space: the ones validation maps to themselves.
  (A field cut at its length limit may end in white space, and is trimmed again by a second pass.)
\<close>

definition trimmed_sender :: "message_sender \<Rightarrow> bool" where
  "trimmed_sender s \<longleftrightarrow>
     (\<forall>f \<in> set [ms_provider s, ms_subject s, ms_display s, ms_session_id s].
        case f of None \<Rightarrow> True | Some t \<Rightarrow> trim t = t)"

lemma clamp_string_fixed:
  "clamped n f \<Longrightarrow> (case f of None \<Rightarrow> True | Some t \<Rightarrow> trim t = t) \<Longrightarrow>
   clamp_string (case f of None \<Rightarrow> JUndef | Some x \<Rightarrow> JStr x) n = f"
  by (cases f) (auto simp: clamped_def Let_def)

text \<open>
  Validation is the inverse of serialisation on well-formed, fully trimmed senders: a sender
  written to the durable queue as JSON is read back unchanged, field by field.
\<close>

theorem normalize_sender_json:
  assumes wf: "wf_sender s" and tr: "trimmed_sender s"
  shows "normalize_message_sender (sender_json s) = Some s"
proof -
  have fixed:
    "clamp_string (jget ''provider'' (sender_json s)) 100 = ms_provider s"
    "clamp_string (jget ''subject'' (sender_json s)) 200 = ms_subject s"
    "clamp_string (jget ''display'' (sender_json s)) 200 = ms_display s"
    "clamp_string (jget ''sessionId'' (sender_json s)) 200 = ms_session_id s"
    using wf tr unfolding jget_sender_json wf_sender_def trimmed_sender_def
    by (auto intro: clamp_string_fixed simp del: clamp_string.simps)
  have vocab:
    "Option.bind (as_string (jget ''relation'' (sender_json s))) sender_relations = ms_relation s"
    "Option.bind (as_string (jget ''origin'' (sender_json s))) sender_origins = ms_origin s"
    "Option.bind (as_string (jget ''kind'' (sender_json s))) sender_kinds = Some (ms_kind s)"
    unfolding jget_sender_json by (auto split: option.splits)
  have "ms_kind s = User \<longrightarrow> truthy_str (ms_provider s) \<and> truthy_str (ms_subject s)"
    using wf by (auto simp: wf_sender_def clamped_def)
  moreover have "is_plain_object (sender_json s)"
    by (simp add: sender_json_def)
  ultimately show ?thesis
    unfolding normalize_message_sender_def fixed vocab by (auto simp: Let_def)
qed

theorem normalize_sender_json_witness:
  "let s = \<lparr>ms_kind = User, ms_provider = Some ''github'', ms_subject = Some ''42'',
      ms_display = Some ''Ann Lee'', ms_relation = Some Owner, ms_session_id = None,
      ms_origin = Some Portal\<rparr>
   in normalize_message_sender (sender_json s) = Some s"
  unfolding Let_def
  by (rule normalize_sender_json; code_simp)

text \<open>
  Identity keys separate users: two validated user senders whose provider ids carry no slash
  have the same key exactly when they are the same (provider, subject), and no agent or system
  sender ever has a key that counts as a user.
\<close>

theorem message_sender_key_identifies:
  assumes "wf_sender s" "wf_sender t" "ms_kind s = User"
    and "CHR ''/'' \<notin> set (the (ms_provider s))" "CHR ''/'' \<notin> set (the (ms_provider t))"
  shows "message_sender_key (Some s) = message_sender_key (Some t) \<longleftrightarrow>
    ms_kind t = User \<and> ms_provider s = ms_provider t \<and> ms_subject s = ms_subject t"
proof -
  obtain p a where s: "ms_provider s = Some p" "ms_subject s = Some a" "p \<noteq> []" "a \<noteq> []"
    using assms(1,3) by (auto simp: wf_sender_def clamped_def)
  show ?thesis
  proof (cases "ms_kind t = User")
    case True
    then obtain q b where "ms_provider t = Some q" "ms_subject t = Some b" "q \<noteq> []" "b \<noteq> []"
      using assms(2) by (auto simp: wf_sender_def clamped_def)
    then show ?thesis using assms s True by (auto simp: message_sender_key_def append_sep_eq_iff)
  next
    case False
    then show ?thesis using assms s by (auto simp: message_sender_key_def)
  qed
qed

theorem message_sender_key_identifies_witness:
  "let s = \<lparr>ms_kind = User, ms_provider = Some ''github'', ms_subject = Some ''42'',
      ms_display = None, ms_relation = None, ms_session_id = None, ms_origin = None\<rparr>
   in message_sender_key (Some s) \<noteq> message_sender_key (Some (s\<lparr>ms_subject := Some ''43''\<rparr>))"
proof -
  let ?s = "\<lparr>ms_kind = User, ms_provider = Some ''github'', ms_subject = Some ''42'',
      ms_display = None, ms_relation = None, ms_session_id = None, ms_origin = None\<rparr>"
  have "wf_sender ?s" "wf_sender (?s\<lparr>ms_subject := Some ''43''\<rparr>)"
    by (simp_all add: wf_sender_def clamped_def is_ws_def)
  from message_sender_key_identifies [OF this] show ?thesis by simp
qed

lemma message_sender_key_user_prefix:
  "message_sender_key (Some s) = Some k \<Longrightarrow> starts_with ''user:'' k \<longleftrightarrow> ms_kind s = User"
  by (auto simp: message_sender_key_def split: if_splits)

end
