(* ===== verification/JsDate.thy ===== *)
theory JsDate
  imports Prelude
begin

text \<open>
  The part of JavaScript's \<open>Date\<close> the program uses, on the proleptic Gregorian calendar: the
  day number of a year and month (\<open>MakeDay\<close>), \<open>Date.UTC\<close>, the UTC field getters, and the ISO
  format of \<open>toISOString\<close> and \<open>Date.parse\<close>. Times are integers, milliseconds since 1970.
\<close>

section \<open>Day numbers\<close>

definition day_from_year :: "int \<Rightarrow> int" where
  "day_from_year y = 365 * (y - 1970) + (y - 1969) div 4 - (y - 1901) div 100 + (y - 1601) div 400"

definition is_leap :: "int \<Rightarrow> bool" where
  "is_leap y \<longleftrightarrow> y mod 4 = 0 \<and> (y mod 100 \<noteq> 0 \<or> y mod 400 = 0)"

text \<open>Days of the year before month \<open>m\<close> (0 to 11).\<close>

definition month_start :: "bool \<Rightarrow> nat \<Rightarrow> int" where
  "month_start leap m =
     [0, 31, 59, 90, 120, 151, 181, 212, 243, 273, 304, 334] ! m + (if leap \<and> 2 \<le> m then 1 else 0)"

definition make_day :: "int \<Rightarrow> int \<Rightarrow> int \<Rightarrow> int" where
  "make_day year month date =
     (let ym = year + month div 12; mn = nat (month mod 12)
      in day_from_year ym + month_start (is_leap ym) mn + date - 1)"

definition ms_per_day :: int where "ms_per_day = 86400000"

definition date_utc :: "int \<Rightarrow> int \<Rightarrow> int \<Rightarrow> int \<Rightarrow> int \<Rightarrow> int \<Rightarrow> int" where
  "date_utc year month date hour minute second =
     (let yr = (if 0 \<le> year \<and> year \<le> 99 then 1900 + year else year)
      in make_day yr month date * ms_per_day + hour * 3600000 + minute * 60000 + second * 1000)"

section \<open>Fields of a time value\<close>

text \<open>
  The year of a day number, by the 400, 100, 4 and 1 year cycles counted from the year 1
  (whose first day is day \<open>-719162\<close>).
\<close>

definition year_from_day :: "int \<Rightarrow> int" where
  "year_from_day day =
     (let n = day + 719162; n400 = n div 146097; r400 = n mod 146097;
          n100 = min 3 (r400 div 36524); r100 = r400 - n100 * 36524;
          n4 = r100 div 1461; r4 = r100 mod 1461;
          n1 = min 3 (r4 div 365)
      in 1 + 400 * n400 + 100 * n100 + 4 * n4 + n1)"

definition day_in_year :: "int \<Rightarrow> int" where
  "day_in_year day = day - day_from_year (year_from_day day)"

definition month_from_day :: "int \<Rightarrow> nat" where
  "month_from_day day =
     length (filter (\<lambda>m. month_start (is_leap (year_from_day day)) m \<le> day_in_year day) [1..<12])"

definition date_from_day :: "int \<Rightarrow> int" where
  "date_from_day day =
     day_in_year day - month_start (is_leap (year_from_day day)) (month_from_day day) + 1"

record date_parts =
  dp_year :: int
  dp_month :: int
  dp_day :: int
  dp_hour :: int
  dp_minute :: int
  dp_second :: int
  dp_weekday :: int

text \<open>The UTC getters; months count from 1 as the program uses them, Sunday is weekday 0.\<close>

definition utc_parts :: "int \<Rightarrow> date_parts" where
  "utc_parts ms =
     (let day = ms div ms_per_day; t = ms mod ms_per_day
      in \<lparr>dp_year = year_from_day day, dp_month = int (month_from_day day) + 1,
          dp_day = date_from_day day, dp_hour = t div 3600000,
          dp_minute = t mod 3600000 div 60000, dp_second = t mod 60000 div 1000,
          dp_weekday = (day + 4) mod 7\<rparr>)"

section \<open>Lemmas\<close>

lemma day_from_year_eq:
  "day_from_year y = 365 * (y - 1) + (y - 1) div 4 - (y - 1) div 100 + (y - 1) div 400 - 719162"
proof -
  have "(y - 1 + 4 * (- 492)) div 4 = - 492 + (y - 1) div 4"
    "(y - 1 + 100 * (- 19)) div 100 = - 19 + (y - 1) div 100"
    "(y - 1 + 400 * (- 4)) div 400 = - 4 + (y - 1) div 400"
    by (rule div_mult_self2, simp)+
  then show ?thesis by (simp add: day_from_year_def)
qed

lemma div_pred: "0 < k \<Longrightarrow> y div k = (y - 1) div k + (if y mod k = 0 then 1 else 0)" for y k :: int
proof (cases "y mod k = 0")
  case True
  assume "0 < k"
  have "y = k * (y div k)" using True by (metis add.right_neutral mult_div_mod_eq)
  then have "y - 1 = k * (y div k - 1) + (k - 1)" by (simp add: algebra_simps)
  from int_div_pos_eq [OF this] \<open>0 < k\<close> True show ?thesis by simp
next
  case False
  assume "0 < k"
  then have "0 < y mod k" "y mod k < k" using False pos_mod_sign [of k y] pos_mod_bound [of k y]
    by linarith+
  moreover have "y - 1 = k * (y div k) + (y mod k - 1)" by simp
  ultimately show ?thesis using False by (simp add: int_div_pos_eq [of "y - 1" k "y div k" "y mod k - 1"])
qed

lemma day_from_year_Suc:
  "day_from_year (y + 1) = day_from_year y + (if is_leap y then 366 else 365)"
proof -
  define p q r where "p = (y - 1) div 4" and "q = (y - 1) div 100" and "r = (y - 1) div 400"
  have a: "y div 4 = p + (if y mod 4 = 0 then 1 else 0)"
    "y div 100 = q + (if y mod 100 = 0 then 1 else 0)"
    "y div 400 = r + (if y mod 400 = 0 then 1 else 0)"
    unfolding p_def q_def r_def by (rule div_pred, simp)+
  have b: "y mod 400 = 0 \<longrightarrow> y mod 100 = 0" "y mod 100 = 0 \<longrightarrow> y mod 4 = 0"
    by (simp_all flip: dvd_eq_mod_eq_0) (auto elim: dvd_trans [rotated])
  obtain A B C where abc: "(y mod 4 = 0) = A" "(y mod 100 = 0) = B" "(y mod 400 = 0) = C"
    by blast
  have "day_from_year (y + 1) = 365 * y + y div 4 - y div 100 + y div 400 - 719162"
    by (simp add: day_from_year_eq)
  note succ = this [unfolded a, unfolded abc]
  have pred: "day_from_year y = 365 * (y - 1) + p - q + r - 719162"
    by (simp add: day_from_year_eq p_def q_def r_def)
  have leap: "is_leap y = (A \<and> (\<not> B \<or> C))" unfolding is_leap_def abc ..
  have "C \<longrightarrow> B" "B \<longrightarrow> A" using b unfolding abc by blast+
  then show ?thesis unfolding succ pred leap by (cases A; cases B; cases C) simp_all
qed

lemma day_from_year_mono: "x \<le> y \<Longrightarrow> day_from_year x + 365 * (y - x) \<le> day_from_year y"
proof (induction y rule: int_ge_induct)
  case (step i)
  then have "day_from_year x + 365 * (i + 1 - x) \<le> day_from_year i + 365"
    by (simp add: algebra_simps)
  also have "\<dots> \<le> day_from_year (i + 1)" by (simp add: day_from_year_Suc)
  finally show ?case .
qed simp

lemma day_from_year_cycles:
  assumes "0 \<le> b" "b \<le> 3" "0 \<le> c" "c \<le> 24" "0 \<le> d" "d \<le> 3"
  shows "day_from_year (1 + 400 * a + 100 * b + 4 * c + d) =
    146097 * a + 36524 * b + 1461 * c + 365 * d - 719162"
proof -
  let ?n = "400 * a + 100 * b + 4 * c + d"
  have days: "day_from_year (1 + n) = 365 * n + n div 4 - n div 100 + n div 400 - 719162" for n
    by (simp add: day_from_year_eq)
  have h4: "?n div 4 = 100 * a + 25 * b + c"
    by (rule int_div_pos_eq [where r = d]) (use assms in simp_all)
  have h100: "?n div 100 = 4 * a + b"
    by (rule int_div_pos_eq [where r = "4 * c + d"]) (use assms in simp_all)
  have h400: "?n div 400 = a"
    by (rule int_div_pos_eq [where r = "100 * b + 4 * c + d"]) (use assms in simp_all)
  have "day_from_year (1 + ?n) = 146097 * a + 36524 * b + 1461 * c + 365 * d - 719162"
    unfolding days h4 h100 h400 by simp
  then show ?thesis by (simp only: add.assoc)
qed

lemma year_from_day_le: "day_from_year (year_from_day day) \<le> day"
  and day_lt_next_year: "day < day_from_year (year_from_day day + 1)"
proof -
  define n where "n = day + 719162"
  define a where "a = n div 146097"
  define r where "r = n mod 146097"
  define b where "b = min 3 (r div 36524)"
  define r1 where "r1 = r - b * 36524"
  define c where "c = r1 div 1461"
  define r2 where "r2 = r1 mod 1461"
  define d where "d = min 3 (r2 div 365)"
  have r: "0 \<le> r" "r < 146097" by (auto simp: r_def)
  have b: "0 \<le> b" "b \<le> 3" using r by (auto simp: b_def)
  have r1: "0 \<le> r1 \<and> r1 < 36525 \<and> (r1 = 36524 \<longrightarrow> b = 3)"
  proof (cases "r div 36524 \<le> 3")
    case True
    then have "r1 = r mod 36524" by (simp add: r1_def b_def minus_div_mult_eq_mod)
    moreover have "0 \<le> r mod 36524" "r mod 36524 < 36524" by simp_all
    ultimately show ?thesis by linarith
  next
    case False
    then have b3: "b = 3" by (simp add: b_def)
    have "r = 36524 * (r div 36524) + r mod 36524" by simp
    then have "4 * 36524 \<le> r" using False pos_mod_sign [of 36524 r] by linarith
    with b3 r show ?thesis by (simp add: r1_def)
  qed
  have c: "0 \<le> c" using r1 by (simp add: c_def pos_imp_zdiv_nonneg_iff)
  have r1c: "r1 = 1461 * c + r2" by (simp add: c_def r2_def)
  have r2: "0 \<le> r2" "r2 < 1461" by (auto simp: r2_def)
  have c24: "c \<le> 24" using r1 r1c r2 by linarith
  have d: "0 \<le> d" "d \<le> 3" using r2 by (auto simp: d_def pos_imp_zdiv_nonneg_iff)
  have r3: "0 \<le> r2 - 365 * d \<and> r2 - 365 * d \<le> 365 \<and> (r2 - 365 * d = 365 \<longrightarrow> d = 3)"
  proof (cases "r2 div 365 \<le> 3")
    case True
    then have "r2 - 365 * d = r2 mod 365" by (simp add: d_def minus_mult_div_eq_mod)
    moreover have "0 \<le> r2 mod 365" "r2 mod 365 < 365" by simp_all
    ultimately show ?thesis by linarith
  next
    case False
    then have d3: "d = 3" by (simp add: d_def)
    have "r2 = 365 * (r2 div 365) + r2 mod 365" by simp
    then have "4 * 365 \<le> r2" using False pos_mod_sign [of 365 r2] by linarith
    with d3 r2 show ?thesis by simp
  qed
  have n: "n = 146097 * a + r" by (simp add: a_def r_def)
  note r1_eq = r1c
  have y: "year_from_day day = 1 + 400 * a + 100 * b + 4 * c + d"
    by (simp add: year_from_day_def Let_def flip: n_def a_def r_def)
      (simp flip: b_def, simp flip: r1_def, simp flip: c_def r2_def, simp flip: d_def)
  have start: "day_from_year (year_from_day day) = 146097 * a + 36524 * b + 1461 * c + 365 * d - 719162"
    unfolding y using b c c24 d by (rule day_from_year_cycles)
  have rest: "day - day_from_year (year_from_day day) = r2 - 365 * d"
    using start n r1_eq by (simp add: n_def r1_def)
  show "day_from_year (year_from_day day) \<le> day" using rest r3 by linarith
  have leap: "is_leap (year_from_day day)" if "r2 - 365 * d = 365"
  proof -
    have d3: "d = 3" using that r3 by simp
    have "c = 24 \<longrightarrow> b = 3" using r1 r1_eq that d3 r2 by auto
    have "(4 * (100 * a + 25 * b + c + 1)) mod 4 = 0" by simp
    moreover have "(4 * (100 * a + 25 * b + c + 1)) mod 100 \<noteq> 0 \<or>
        (4 * (100 * a + 25 * b + c + 1)) mod 400 = 0"
    proof (cases "c = 24")
      case True
      then have "4 * (100 * a + 25 * b + c + 1) = 400 * (a + 1)"
        using \<open>c = 24 \<longrightarrow> b = 3\<close> by simp
      then show ?thesis by (simp only: mod_mult_self1_is_0) simp
    next
      case False
      have "4 * (100 * a + 25 * b + c + 1) = (4 * c + 4) + 100 * (4 * a + b)" by simp
      then have "4 * (100 * a + 25 * b + c + 1) mod 100 = (4 * c + 4) mod 100"
        by (metis mod_mult_self2)
      also have "\<dots> = 4 * c + 4" using c c24 False by simp
      finally show ?thesis using c by simp
    qed
    moreover have "year_from_day day = 4 * (100 * a + 25 * b + c + 1)" by (simp add: y d3)
    ultimately show ?thesis by (simp add: is_leap_def)
  qed
  then show "day < day_from_year (year_from_day day + 1)"
  proof (cases "is_leap (year_from_day day)")
    case True
    then show ?thesis using rest r3 by (simp add: day_from_year_Suc)
  next
    case False
    then have "r2 - 365 * d < 365" using leap r3 by linarith
    then show ?thesis using rest False by (simp add: day_from_year_Suc)
  qed
qed

lemma day_in_year_bounds:
  "0 \<le> day_in_year day" "day_in_year day < (if is_leap (year_from_day day) then 366 else 365)"
  using year_from_day_le [of day] day_lt_next_year [of day]
  by (auto simp: day_in_year_def day_from_year_Suc split: if_splits)

lemma year_from_day_unique:
  assumes "day_from_year y \<le> day" "day < day_from_year (y + 1)"
  shows "year_from_day day = y"
proof (rule ccontr)
  assume "year_from_day day \<noteq> y"
  then consider "year_from_day day + 1 \<le> y" | "y + 1 \<le> year_from_day day" by linarith
  then show False
  proof cases
    case 1
    then have "0 \<le> 365 * (y - (year_from_day day + 1))" by simp
    with day_from_year_mono [OF 1] assms(1) day_lt_next_year [of day] show False by linarith
  next
    case 2
    then have "0 \<le> 365 * (year_from_day day - (y + 1))" by simp
    with day_from_year_mono [OF 2] assms(2) year_from_day_le [of day] show False by linarith
  qed
qed

lemma month_from_day_less [simp]: "month_from_day day < 12"
  unfolding month_from_day_def
  by (rule le_less_trans [OF length_filter_le]) simp

text \<open>A day number is recovered from its year, month and date.\<close>

lemma make_day_parts:
  "make_day (year_from_day day) (int (month_from_day day)) (date_from_day day) = day"
  by (simp add: make_day_def Let_def date_from_day_def day_in_year_def)

end
