(* ===== verification/CronAt.thy ===== *)
theory CronAt
  imports JsDate
begin

text \<open>
  Wall-clock schedules (\<open>packages/sdk/src/cron-at.ts\<close>): validation of the tool input, local
  wall-clock parts, the bisection that finds the UTC instant of a local time, the computation of
  the next fire, and the texts derived from a schedule.

  The IANA time-zone data of the host (\<open>Intl.DateTimeFormat\<close>) is an argument of the model:
  \<open>tz_known tz\<close> says whether the host recognises a zone, and \<open>tz_offset tz ms\<close> is the offset,
  in milliseconds, of the zone's local time from UTC at the instant \<open>ms\<close>. Nothing is assumed
  of either.
\<close>

section \<open>Schedules and their validation\<close>

record cron_at_schedule =
  cs_minute :: int
  cs_hour :: "int option"
  cs_day_of_week :: "int option"
  cs_day_of_month :: "int option"
  cs_tz :: string
  cs_reason :: string
  cs_max_fires :: "int option"
  cs_fires_completed :: int
  cs_last_occurrence_key :: "string option"
  cs_next_fire_at_ms :: "int option"
  cs_next_occurrence_key :: "string option"

record cron_at_input =
  ci_minute :: jsval
  ci_hour :: jsval
  ci_day_of_week :: jsval
  ci_day_of_month :: jsval
  ci_tz :: jsval
  ci_max_fires :: jsval
  ci_reason :: jsval

record cron_at_next_fire =
  nf_next_fire_at_ms :: int
  nf_occurrence_key :: string
  nf_local_time :: string
  nf_skipped_occurrences :: nat

datatype cron_at_recurrence = Hourly | Daily | Weekly | Monthly

definition classify_recurrence :: "cron_at_schedule \<Rightarrow> cron_at_recurrence" where
  "classify_recurrence s =
     (if cs_hour s = None then Hourly
      else if cs_day_of_week s \<noteq> None then Weekly
      else if cs_day_of_month s \<noteq> None then Monthly
      else Daily)"

text \<open>
  The three outcomes of \<open>coerceInt\<close>: \<open>undefined\<close>, an integer, \<open>NaN\<close>. Integers are exact. \<open>Number\<close> rounds those beyond \<open>2\<^sup>5\<^sup>3\<close>,
  and a text of more than 308 digits becomes infinite, which the callers refuse as no integer; such a value is out of the range
  of every field but \<open>max_fires\<close>, which is refused or rounded there and taken as it is here.
\<close>

datatype coerced = CUndef | CInt int | CNaN

text \<open>\<open>/^-?\d+$/\<close>\<close>

definition is_int_literal :: "string \<Rightarrow> bool" where
  "is_int_literal s =
     (let ds = (case s of c # cs \<Rightarrow> if c = CHR ''-'' then cs else s | [] \<Rightarrow> [])
      in ds \<noteq> [] \<and> list_all is_digit ds)"

definition absent :: "jsval \<Rightarrow> bool" where
  "absent v \<longleftrightarrow> v \<in> {JUndef, JNull, JStr []}"

definition coerce_int :: "jsval \<Rightarrow> coerced" where
  "coerce_int v =
     (if absent v then CUndef
      else case v of
        JNum r \<Rightarrow> if of_int \<lfloor>r\<rfloor> = r then CInt \<lfloor>r\<rfloor> else CNaN
      | JStr s \<Rightarrow> if is_int_literal (trim s) then CInt (parse_int (trim s)) else CNaN
      | _ \<Rightarrow> CNaN)"

text \<open>
  The block repeated for \<open>hour\<close>, \<open>day_of_week\<close> and \<open>day_of_month\<close>: an absent field stays
  undefined, a present one must be an integer in range.
\<close>

definition bounded_field :: "jsval \<Rightarrow> int \<Rightarrow> int \<Rightarrow> string \<Rightarrow> string \<Rightarrow> string + int option" where
  "bounded_field v lo hi not_int out_of_range =
     (if absent v then Inr None
      else case coerce_int v of
        CInt n \<Rightarrow> if n < lo \<or> n > hi then Inl out_of_range else Inr (Some n)
      | _ \<Rightarrow> Inl not_int)"

definition cron_err :: "string \<Rightarrow> string \<Rightarrow> string" where
  "cron_err field rest = ''cron_at '' @ [CHR 0x27] @ field @ [CHR 0x27] @ rest"

fun text_field :: "jsval \<Rightarrow> string" where
  "text_field (JStr s) = trim s"
| "text_field _ = []"

text \<open>The second half of the validation: the combination rules, \<open>tz\<close>, \<open>reason\<close> and \<open>max_fires\<close>.\<close>

definition normalize_rest ::
  "(string \<Rightarrow> bool) \<Rightarrow> cron_at_input \<Rightarrow> int \<Rightarrow> int option \<Rightarrow> int option \<Rightarrow> int option \<Rightarrow>
   string + cron_at_schedule" where
  "normalize_rest tz_known input minute hour day_of_week day_of_month =
     (if day_of_week \<noteq> None \<and> day_of_month \<noteq> None then
        Inl (''cron_at cannot combine '' @ [CHR 0x27] @ ''day_of_week'' @ [CHR 0x27] @ '' and ''
             @ [CHR 0x27] @ ''day_of_month'' @ [CHR 0x27] @ ''.'')
      else if (day_of_week \<noteq> None \<or> day_of_month \<noteq> None) \<and> hour = None then
        Inl (cron_err ''day_of_week'' ('' / '' @ [CHR 0x27] @ ''day_of_month'' @ [CHR 0x27]
             @ '' require '' @ [CHR 0x27] @ ''hour'' @ [CHR 0x27] @ ''.''))
      else
        let tz = text_field (ci_tz input); reason = text_field (ci_reason input);
            sched = (\<lambda>max_fires. \<lparr>cs_minute = minute, cs_hour = hour,
                  cs_day_of_week = day_of_week, cs_day_of_month = day_of_month,
                  cs_tz = tz, cs_reason = reason, cs_max_fires = max_fires,
                  cs_fires_completed = 0, cs_last_occurrence_key = None,
                  cs_next_fire_at_ms = None, cs_next_occurrence_key = None\<rparr>)
        in if tz = [] then
             Inl (''cron_at requires '' @ [CHR 0x27] @ ''tz'' @ [CHR 0x27] @ '' (IANA timezone, e.g. ''
               @ [CHR 0x27] @ ''UTC'' @ [CHR 0x27] @ '' or '' @ [CHR 0x27] @ ''America/Los_Angeles''
               @ [CHR 0x27] @ '').'')
           else if \<not> tz_known tz then
             Inl (cron_err ''tz'' ('' is not a recognized IANA timezone: '' @ tz))
           else if reason = [] then
             Inl (''cron_at requires a non-empty '' @ [CHR 0x27] @ ''reason'' @ [CHR 0x27] @ ''.'')
           else if absent (ci_max_fires input) then Inr (sched None)
           else case coerce_int (ci_max_fires input) of
             CInt n \<Rightarrow> if n \<le> 0 then Inl (cron_err ''max_fires'' '' must be a positive integer.'')
                       else Inr (sched (Some n))
           | _ \<Rightarrow> Inl (cron_err ''max_fires'' '' must be a positive integer.''))"

definition normalize_cron_at_input ::
  "(string \<Rightarrow> bool) \<Rightarrow> cron_at_input \<Rightarrow> string + cron_at_schedule" where
  "normalize_cron_at_input tz_known input =
     (case coerce_int (ci_minute input) of
        CUndef \<Rightarrow> Inl (''cron_at requires '' @ [CHR 0x27] @ ''minute'' @ [CHR 0x27] @ ''.'')
      | CNaN \<Rightarrow> Inl (cron_err ''minute'' '' must be an integer.'')
      | CInt minute \<Rightarrow>
          if minute < 0 \<or> minute > 59 then Inl (cron_err ''minute'' '' must be 0-59.'')
          else case bounded_field (ci_hour input) 0 23
                 (cron_err ''hour'' '' must be an integer.'') (cron_err ''hour'' '' must be 0-23.'') of
            Inl e \<Rightarrow> Inl e
          | Inr hour \<Rightarrow>
              (case bounded_field (ci_day_of_week input) 0 6
                 (cron_err ''day_of_week'' '' must be an integer (0=Sunday).'')
                 (cron_err ''day_of_week'' '' must be 0-6 (Sunday=0).'') of
                 Inl e \<Rightarrow> Inl e
               | Inr day_of_week \<Rightarrow>
                   (case bounded_field (ci_day_of_month input) 1 31
                      (cron_err ''day_of_month'' '' must be an integer.'')
                      (cron_err ''day_of_month'' '' must be 1-31.'') of
                      Inl e \<Rightarrow> Inl e
                    | Inr day_of_month \<Rightarrow>
                        normalize_rest tz_known input minute hour day_of_week day_of_month)))"

section \<open>Local wall-clock time\<close>

definition get_local_parts :: "(string \<Rightarrow> int \<Rightarrow> int) \<Rightarrow> int \<Rightarrow> string \<Rightarrow> date_parts" where
  "get_local_parts tz_offset utc_ms tz = utc_parts (utc_ms + tz_offset tz utc_ms)"

record wall_time =
  wt_year :: int
  wt_month :: int
  wt_day :: int
  wt_hour :: int
  wt_minute :: int

text \<open>The comparison of the instant's local parts with the target, field by field.\<close>

definition cmp_wall :: "date_parts \<Rightarrow> wall_time \<Rightarrow> int" where
  "cmp_wall p target =
     (if dp_year p \<noteq> wt_year target then dp_year p - wt_year target
      else if dp_month p \<noteq> wt_month target then dp_month p - wt_month target
      else if dp_day p \<noteq> wt_day target then dp_day p - wt_day target
      else if dp_hour p \<noteq> wt_hour target then dp_hour p - wt_hour target
      else dp_minute p - wt_minute target)"

definition local_cmp ::
  "(string \<Rightarrow> int \<Rightarrow> int) \<Rightarrow> string \<Rightarrow> wall_time \<Rightarrow> int \<Rightarrow> int" where
  "local_cmp tz_offset tz target utc_ms = cmp_wall (get_local_parts tz_offset utc_ms tz) target"

lemma bisect_mid:
  fixes lo hi :: int
  assumes "lo + 60000 < hi" "lo + (hi - lo) div 120000 * 60000 \<noteq> lo"
  shows "lo < lo + (hi - lo) div 120000 * 60000" "lo + (hi - lo) div 120000 * 60000 < hi"
proof -
  define k where "k = (hi - lo) div 120000"
  have "0 \<le> k" using assms(1) by (simp add: k_def pos_imp_zdiv_nonneg_iff)
  moreover have "k \<noteq> 0" using assms(2) by (simp add: k_def)
  moreover have "k * 120000 \<le> hi - lo"
    using minus_mod_eq_div_mult [of "hi - lo" 120000] pos_mod_sign [of 120000 "hi - lo"]
    unfolding k_def by linarith
  ultimately show "lo < lo + (hi - lo) div 120000 * 60000" "lo + (hi - lo) div 120000 * 60000 < hi"
    unfolding k_def [symmetric] by linarith+
qed

text \<open>
  The bisection keeps the smallest minute whose comparison is not negative in \<open>hi\<close>; it stops
  when the interval is a minute wide, or cannot be split on a minute.
\<close>

function bisect :: "(int \<Rightarrow> int) \<Rightarrow> int \<Rightarrow> int \<Rightarrow> int" where
  "bisect cmp lo hi =
     (if lo + 60000 < hi then
        let mid = lo + (hi - lo) div 120000 * 60000
        in if mid = lo then hi
           else if cmp mid < 0 then bisect cmp mid hi else bisect cmp lo mid
      else hi)"
  by pat_completeness auto

termination
  by (relation "measure (\<lambda>(cmp, lo, hi). nat (hi - lo))")
    (use bisect_mid in \<open>auto simp: Let_def\<close>)

declare bisect.simps [simp del]

definition find_utc_for_local_wall_time ::
  "(string \<Rightarrow> int \<Rightarrow> int) \<Rightarrow> wall_time \<Rightarrow> string \<Rightarrow> int option" where
  "find_utc_for_local_wall_time tz_offset target tz =
     (let naive = date_utc (wt_year target) (wt_month target - 1) (wt_day target)
                    (wt_hour target) (wt_minute target) 0;
          lo = naive - 26 * 60 * 60 * 1000;
          hi = naive + 26 * 60 * 60 * 1000;
          cmp = local_cmp tz_offset tz target
      in if cmp lo > 0 then None
         else if cmp hi < 0 then None
         else let h = bisect cmp lo hi
              in if cmp h \<noteq> 0 then None
                 else let snapped = h div 60000 * 60000
                      in if cmp snapped \<noteq> 0 then None else Some snapped)"

text \<open>\<open>new Date(Date.UTC(year, month, 0)).getUTCDate()\<close>: day 0 of the following month.\<close>

definition days_in_month :: "int \<Rightarrow> int \<Rightarrow> int" where
  "days_in_month year month = dp_day (utc_parts (date_utc year month 0 0 0 0))"

section \<open>The next fire\<close>

definition pad2 :: "int \<Rightarrow> string" where
  "pad2 n = pad_start 2 (show_int n)"

fun show_opt :: "int option \<Rightarrow> string" where
  "show_opt None = ''undefined''"
| "show_opt (Some n) = show_int n"

definition build_occurrence_key ::
  "wall_time \<Rightarrow> cron_at_recurrence \<Rightarrow> string \<Rightarrow> cron_at_schedule \<Rightarrow> string" where
  "build_occurrence_key parts recurrence tz schedule =
     (let ymd = show_int (wt_year parts) @ ''-'' @ pad2 (wt_month parts) @ ''-'' @ pad2 (wt_day parts);
          hm = pad2 (wt_hour parts) @ '':'' @ pad2 (wt_minute parts);
          rec = (case recurrence of
                   Hourly \<Rightarrow> ''H'' | Daily \<Rightarrow> ''D''
                 | Weekly \<Rightarrow> ''W'' @ show_opt (cs_day_of_week schedule)
                 | Monthly \<Rightarrow> ''M'' @ show_opt (cs_day_of_month schedule))
      in rec @ ''|'' @ tz @ ''|'' @ ymd @ ''T'' @ hm)"

definition format_local_time :: "wall_time \<Rightarrow> string \<Rightarrow> string" where
  "format_local_time parts tz =
     show_int (wt_year parts) @ ''-'' @ pad2 (wt_month parts) @ ''-'' @ pad2 (wt_day parts) @ ''T''
     @ pad2 (wt_hour parts) @ '':'' @ pad2 (wt_minute parts) @ '':00 '' @ tz"

text \<open>Moving the candidate's date by a number of days through \<open>Date.UTC\<close>.\<close>

definition add_days :: "int \<Rightarrow> wall_time \<Rightarrow> wall_time" where
  "add_days n c =
     (let d = utc_parts (date_utc (wt_year c) (wt_month c - 1) (wt_day c) 0 0 0 + n * ms_per_day)
      in c\<lparr>wt_year := dp_year d, wt_month := dp_month d, wt_day := dp_day d\<rparr>)"

definition step_candidate :: "cron_at_recurrence \<Rightarrow> cron_at_schedule \<Rightarrow> wall_time \<Rightarrow> wall_time" where
  "step_candidate recurrence schedule c =
     (case recurrence of
        Hourly \<Rightarrow>
          (let d = utc_parts (date_utc (wt_year c) (wt_month c - 1) (wt_day c) (wt_hour c) 0 0 + 60 * 60 * 1000)
           in c\<lparr>wt_year := dp_year d, wt_month := dp_month d, wt_day := dp_day d, wt_hour := dp_hour d\<rparr>)
      | Daily \<Rightarrow> add_days 1 c
      | Weekly \<Rightarrow> add_days 1 c
      | Monthly \<Rightarrow>
          (let m = wt_month c + 1
           in c\<lparr>wt_year := (if m > 12 then wt_year c + 1 else wt_year c),
                wt_month := (if m > 12 then 1 else m),
                wt_day := coalesce (cs_day_of_month schedule) (wt_day c)\<rparr>))"

definition initial_candidate ::
  "cron_at_recurrence \<Rightarrow> cron_at_schedule \<Rightarrow> date_parts \<Rightarrow> wall_time" where
  "initial_candidate recurrence schedule after_local =
     (let c0 = \<lparr>wt_year = dp_year after_local, wt_month = dp_month after_local,
                wt_day = dp_day after_local,
                wt_hour = (if recurrence = Hourly then dp_hour after_local
                           else coalesce (cs_hour schedule) 0),
                wt_minute = cs_minute schedule\<rparr>;
          c1 = (case cs_day_of_month schedule of
                  Some d \<Rightarrow> if recurrence = Monthly then c0\<lparr>wt_day := d\<rparr> else c0
                | None \<Rightarrow> c0)
      in case cs_day_of_week schedule of
           Some target_weekday \<Rightarrow>
             if recurrence = Weekly then
               (let days_ahead = js_rem (target_weekday - dp_weekday after_local + 7) 7
                in if days_ahead > 0 then add_days days_ahead c1 else c1)
             else c1
         | None \<Rightarrow> c1)"

text \<open>One pass of the search loop per unit of the counter; \<open>None\<close> is the final \<open>throw\<close>.\<close>

fun next_fire_loop ::
  "(string \<Rightarrow> int \<Rightarrow> int) \<Rightarrow> cron_at_recurrence \<Rightarrow> cron_at_schedule \<Rightarrow> int \<Rightarrow> string option \<Rightarrow>
   nat \<Rightarrow> nat \<Rightarrow> wall_time \<Rightarrow> cron_at_next_fire option" where
  "next_fire_loop tz_offset recurrence schedule after_utc_ms last_key 0 skipped c = None"
| "next_fire_loop tz_offset recurrence schedule after_utc_ms last_key (Suc n) skipped c =
     (let tz = cs_tz schedule; c' = step_candidate recurrence schedule c
      in if recurrence = Monthly \<and>
            (case cs_day_of_month schedule of
               Some d \<Rightarrow> d > days_in_month (wt_year c) (wt_month c) | None \<Rightarrow> False)
         then next_fire_loop tz_offset recurrence schedule after_utc_ms last_key n (Suc skipped) c'
         else case find_utc_for_local_wall_time tz_offset c tz of
           None \<Rightarrow> next_fire_loop tz_offset recurrence schedule after_utc_ms last_key n (Suc skipped) c'
         | Some utc_ms \<Rightarrow>
             if utc_ms \<le> after_utc_ms
             then next_fire_loop tz_offset recurrence schedule after_utc_ms last_key n skipped c'
             else let key = build_occurrence_key c recurrence tz schedule
               in if truthy_str last_key \<and> last_key = Some key
                  then next_fire_loop tz_offset recurrence schedule after_utc_ms last_key n (Suc skipped) c'
                  else if recurrence = Weekly \<and>
                          (case cs_day_of_week schedule of
                             Some w \<Rightarrow> dp_weekday (get_local_parts tz_offset utc_ms tz) \<noteq> w
                           | None \<Rightarrow> False)
                  then next_fire_loop tz_offset recurrence schedule after_utc_ms last_key n skipped c'
                  else Some \<lparr>nf_next_fire_at_ms = utc_ms, nf_occurrence_key = key,
                             nf_local_time = format_local_time c tz,
                             nf_skipped_occurrences = skipped\<rparr>)"

definition compute_cron_at_next_fire ::
  "(string \<Rightarrow> int \<Rightarrow> int) \<Rightarrow> cron_at_schedule \<Rightarrow> int \<Rightarrow> string option \<Rightarrow> cron_at_next_fire option" where
  "compute_cron_at_next_fire tz_offset schedule after_utc_ms last_occurrence_key =
     (let recurrence = classify_recurrence schedule;
          after_local = get_local_parts tz_offset after_utc_ms (cs_tz schedule)
      in next_fire_loop tz_offset recurrence schedule after_utc_ms last_occurrence_key 400 0
           (initial_candidate recurrence schedule after_local))"

definition describe_cron_at :: "cron_at_schedule \<Rightarrow> string" where
  "describe_cron_at schedule =
     (let hour = coalesce (cs_hour schedule) 0;
          time = pad2 hour @ '':'' @ pad2 (cs_minute schedule) @ '' '' @ cs_tz schedule;
          names = [''Sun'', ''Mon'', ''Tue'', ''Wed'', ''Thu'', ''Fri'', ''Sat''];
          w = coalesce (cs_day_of_week schedule) 0
      in case classify_recurrence schedule of
           Hourly \<Rightarrow> ''hourly at :'' @ pad2 (cs_minute schedule) @ '' ('' @ cs_tz schedule @ '')''
         | Daily \<Rightarrow> ''daily at '' @ time
         | Weekly \<Rightarrow> ''weekly on '' @ (if 0 \<le> w \<and> w < 7 then names ! nat w else ''undefined'')
                       @ '' at '' @ time
         | Monthly \<Rightarrow> ''monthly on day '' @ show_opt (cs_day_of_month schedule) @ '' at '' @ time)"

section \<open>Properties of validation\<close>

definition valid_schedule :: "(string \<Rightarrow> bool) \<Rightarrow> cron_at_schedule \<Rightarrow> bool" where
  "valid_schedule tz_known s \<longleftrightarrow>
     0 \<le> cs_minute s \<and> cs_minute s \<le> 59 \<and>
     (\<forall>h. cs_hour s = Some h \<longrightarrow> 0 \<le> h \<and> h \<le> 23) \<and>
     (\<forall>w. cs_day_of_week s = Some w \<longrightarrow> 0 \<le> w \<and> w \<le> 6) \<and>
     (\<forall>d. cs_day_of_month s = Some d \<longrightarrow> 1 \<le> d \<and> d \<le> 31) \<and>
     \<not> (cs_day_of_week s \<noteq> None \<and> cs_day_of_month s \<noteq> None) \<and>
     (cs_day_of_week s \<noteq> None \<or> cs_day_of_month s \<noteq> None \<longrightarrow> cs_hour s \<noteq> None) \<and>
     tz_known (cs_tz s) \<and> cs_tz s \<noteq> [] \<and> cs_reason s \<noteq> [] \<and>
     (\<forall>n. cs_max_fires s = Some n \<longrightarrow> 0 < n) \<and> cs_fires_completed s = 0"

lemma bounded_field_Inr:
  "bounded_field v lo hi e1 e2 = Inr (Some n) \<Longrightarrow> lo \<le> n \<and> n \<le> hi"
  by (auto simp: bounded_field_def split: coerced.splits if_splits)

lemma bounded_field_Inr_iff:
  "bounded_field v lo hi e1 e2 = Inr r \<longleftrightarrow>
     (if absent v then r = None
      else \<exists>n. coerce_int v = CInt n \<and> lo \<le> n \<and> n \<le> hi \<and> r = Some n)"
  by (auto simp: bounded_field_def split: coerced.splits if_splits)

lemma normalize_rest_Inr:
  assumes "normalize_rest tz_known input m h w d = Inr s"
  shows "cs_minute s = m \<and> cs_hour s = h \<and> cs_day_of_week s = w \<and> cs_day_of_month s = d \<and>
    \<not> (w \<noteq> None \<and> d \<noteq> None) \<and> (w \<noteq> None \<or> d \<noteq> None \<longrightarrow> h \<noteq> None) \<and>
    tz_known (cs_tz s) \<and> cs_tz s \<noteq> [] \<and> cs_reason s \<noteq> [] \<and>
    (\<forall>n. cs_max_fires s = Some n \<longrightarrow> 0 < n) \<and> cs_fires_completed s = 0"
  using assms unfolding normalize_rest_def Let_def
  by (simp split: coerced.split_asm if_split_asm) auto

text \<open>The fields an accepted input has been read as.\<close>

lemma normalize_cron_at_input_Inr:
  assumes "normalize_cron_at_input tz_known input = Inr s"
  obtains m h w d where "coerce_int (ci_minute input) = CInt m" "0 \<le> m" "m \<le> 59"
    "\<exists>e1 e2. bounded_field (ci_hour input) 0 23 e1 e2 = Inr h"
    "\<exists>e1 e2. bounded_field (ci_day_of_week input) 0 6 e1 e2 = Inr w"
    "\<exists>e1 e2. bounded_field (ci_day_of_month input) 1 31 e1 e2 = Inr d"
    "normalize_rest tz_known input m h w d = Inr s"
  using assms unfolding normalize_cron_at_input_def
  by (simp split: coerced.split_asm if_split_asm sum.split_asm) blast

text \<open>
  C38. Whatever untyped input the \<open>cron_at\<close> tool is called with, an accepted schedule is valid: its
  fields are integers in range, it never combines a day of week with a day of month, both need an
  hour, its zone is known to the host, its reason is not empty and its fire limit is positive; and
  the minute is the one the input named.
\<close>

theorem normalize_cron_at_input_valid:
  "case normalize_cron_at_input tz_known input of
     Inl e \<Rightarrow> e \<noteq> []
   | Inr s \<Rightarrow> valid_schedule tz_known s \<and> coerce_int (ci_minute input) = CInt (cs_minute s)"
proof (cases "normalize_cron_at_input tz_known input")
  case (Inl e)
  have nr: "normalize_rest tz_known input m h w d \<noteq> Inl []" for m h w d
    by (auto simp: normalize_rest_def cron_err_def Let_def split: coerced.splits)
  have bf: "e1 \<noteq> [] \<Longrightarrow> e2 \<noteq> [] \<Longrightarrow> bounded_field v lo hi e1 e2 \<noteq> Inl []" for v lo hi e1 e2
    by (auto simp: bounded_field_def split: coerced.splits)
  have ce: "cron_err a b \<noteq> []" for a b by (simp add: cron_err_def)
  from Inl have "e \<noteq> []"
    unfolding normalize_cron_at_input_def
    by (auto simp: nr bf ce split: coerced.split_asm if_split_asm sum.split_asm)
  with Inl show ?thesis by simp
next
  case (Inr s)
  from normalize_cron_at_input_Inr [OF this] obtain m h w d where
    f: "coerce_int (ci_minute input) = CInt m" "0 \<le> m" "m \<le> 59"
      "\<exists>e1 e2. bounded_field (ci_hour input) 0 23 e1 e2 = Inr h"
      "\<exists>e1 e2. bounded_field (ci_day_of_week input) 0 6 e1 e2 = Inr w"
      "\<exists>e1 e2. bounded_field (ci_day_of_month input) 1 31 e1 e2 = Inr d"
      "normalize_rest tz_known input m h w d = Inr s" by metis
  note r = normalize_rest_Inr [OF f(7)]
  have "\<forall>x. h = Some x \<longrightarrow> 0 \<le> x \<and> x \<le> 23" "\<forall>x. w = Some x \<longrightarrow> 0 \<le> x \<and> x \<le> 6"
    "\<forall>x. d = Some x \<longrightarrow> 1 \<le> x \<and> x \<le> 31"
    using f(4-6) bounded_field_Inr by blast+
  with r f(1-3) Inr show ?thesis by (simp add: valid_schedule_def)
qed

section \<open>Properties of the next fire\<close>

definition matches_wall :: "date_parts \<Rightarrow> wall_time \<Rightarrow> bool" where
  "matches_wall p c \<longleftrightarrow> dp_year p = wt_year c \<and> dp_month p = wt_month c \<and> dp_day p = wt_day c \<and>
     dp_hour p = wt_hour c \<and> dp_minute p = wt_minute c"

definition wall_of :: "date_parts \<Rightarrow> wall_time" where
  "wall_of p = \<lparr>wt_year = dp_year p, wt_month = dp_month p, wt_day = dp_day p,
                wt_hour = dp_hour p, wt_minute = dp_minute p\<rparr>"

lemma cmp_wall_zero: "cmp_wall p c = 0 \<longleftrightarrow> matches_wall p c"
  by (auto simp: cmp_wall_def matches_wall_def)

text \<open>The bisection keeps a non-negative comparison at the point it returns.\<close>

lemma bisect_nonneg:
  assumes "0 \<le> cmp hi"
  shows "0 \<le> cmp (bisect cmp lo hi)"
  using assms
proof (induction cmp lo hi rule: bisect.induct)
  case (1 cmp lo hi)
  then show ?case
    by (subst bisect.simps) (auto simp: Let_def)
qed

lemma find_utc_SomeD:
  assumes "find_utc_for_local_wall_time tz_offset c tz = Some u"
  shows "60000 dvd u" "matches_wall (get_local_parts tz_offset u tz) c"
  using assms unfolding find_utc_for_local_wall_time_def Let_def local_cmp_def
  by (auto simp: cmp_wall_zero split: if_split_asm)

text \<open>
  What every candidate of the search has: the schedule's minute, its hour unless it is hourly, its
  day of month if it is monthly.
\<close>

definition candidate_ok :: "cron_at_recurrence \<Rightarrow> cron_at_schedule \<Rightarrow> wall_time \<Rightarrow> bool" where
  "candidate_ok recurrence s c \<longleftrightarrow> wt_minute c = cs_minute s \<and>
     (recurrence \<noteq> Hourly \<longrightarrow> wt_hour c = coalesce (cs_hour s) 0) \<and>
     (\<forall>d. recurrence = Monthly \<and> cs_day_of_month s = Some d \<longrightarrow> wt_day c = d)"

lemma step_candidate_ok:
  "candidate_ok r s c \<Longrightarrow> candidate_ok r s (step_candidate r s c)"
  by (cases r) (auto simp: candidate_ok_def step_candidate_def add_days_def Let_def)

lemma initial_candidate_ok: "candidate_ok r s (initial_candidate r s p)"
  by (auto simp: candidate_ok_def initial_candidate_def add_days_def Let_def split: option.splits)

definition fire_ok ::
  "(string \<Rightarrow> int \<Rightarrow> int) \<Rightarrow> cron_at_recurrence \<Rightarrow> cron_at_schedule \<Rightarrow> int \<Rightarrow> string option \<Rightarrow>
   cron_at_next_fire \<Rightarrow> bool" where
  "fire_ok tz_offset r s after last_key nf \<longleftrightarrow>
     after < nf_next_fire_at_ms nf \<and> 60000 dvd nf_next_fire_at_ms nf \<and>
     (truthy_str last_key \<longrightarrow> last_key \<noteq> Some (nf_occurrence_key nf)) \<and>
     (let p = get_local_parts tz_offset (nf_next_fire_at_ms nf) (cs_tz s); w = wall_of p
      in dp_minute p = cs_minute s \<and>
         (r \<noteq> Hourly \<longrightarrow> dp_hour p = coalesce (cs_hour s) 0) \<and>
         (\<forall>d. r = Weekly \<and> cs_day_of_week s = Some d \<longrightarrow> dp_weekday p = d) \<and>
         (\<forall>d. r = Monthly \<and> cs_day_of_month s = Some d \<longrightarrow> dp_day p = d) \<and>
         nf_occurrence_key nf = build_occurrence_key w r (cs_tz s) s \<and>
         nf_local_time nf = format_local_time w (cs_tz s))"

lemma matches_wall_eq: "matches_wall p c \<Longrightarrow> wall_of p = c"
  by (simp add: matches_wall_def wall_of_def)

lemma next_fire_loop_ok:
  assumes "next_fire_loop tz_offset r s after last_key n skipped c = Some nf" "candidate_ok r s c"
  shows "fire_ok tz_offset r s after last_key nf"
  using assms
proof (induction n arbitrary: skipped c)
  case (Suc n)
  note ok = step_candidate_ok [OF Suc.prems(2)]
  note IH = Suc.IH [OF _ ok]
  show ?case
  proof (cases "next_fire_loop tz_offset r s after last_key n (Suc skipped) (step_candidate r s c) = Some nf
      \<or> next_fire_loop tz_offset r s after last_key n skipped (step_candidate r s c) = Some nf")
    case True then show ?thesis using IH by blast
  next
    case False
    then obtain u where u: "find_utc_for_local_wall_time tz_offset c (cs_tz s) = Some u" "after < u"
      "\<not> (truthy_str last_key \<and> last_key = Some (build_occurrence_key c r (cs_tz s) s))"
      "\<forall>w. r = Weekly \<and> cs_day_of_week s = Some w \<longrightarrow> dp_weekday (get_local_parts tz_offset u (cs_tz s)) = w"
      "nf = \<lparr>nf_next_fire_at_ms = u, nf_occurrence_key = build_occurrence_key c r (cs_tz s) s,
             nf_local_time = format_local_time c (cs_tz s), nf_skipped_occurrences = skipped\<rparr>"
      using Suc.prems(1)
      by (simp add: Let_def split: if_split_asm option.split_asm)
    note f = find_utc_SomeD [OF u(1)]
    note wc = matches_wall_eq [OF f(2)]
    show ?thesis
      using u f Suc.prems(2) unfolding fire_ok_def Let_def
      by (auto simp: wc candidate_ok_def matches_wall_def)
  qed
qed simp

text \<open>
  C37. A computed next fire is an occurrence of the schedule: it lies strictly after the anchor, on
  a whole minute, and the local clock then shows the schedule's minute, its hour, its weekday or
  its day of the month, as its recurrence asks. The occurrence key and the local-time label are
  those of the local clock at the fire, and the key differs from the last one fired.
\<close>

theorem compute_cron_at_next_fire_sound:
  assumes "compute_cron_at_next_fire tz_offset s after last_key = Some nf"
  shows "fire_ok tz_offset (classify_recurrence s) s after last_key nf"
  using assms unfolding compute_cron_at_next_fire_def Let_def
  by (rule next_fire_loop_ok) (rule initial_candidate_ok)

definition weekly_example :: cron_at_schedule where
  "weekly_example = \<lparr>cs_minute = 30, cs_hour = Some 9, cs_day_of_week = Some 1,
     cs_day_of_month = None, cs_tz = ''UTC'', cs_reason = ''standup'', cs_max_fires = None,
     cs_fires_completed = 0, cs_last_occurrence_key = None, cs_next_fire_at_ms = None,
     cs_next_occurrence_key = None\<rparr>"

text \<open>Anchored on 1 January 1970 00:00 UTC, a Thursday, the schedule fires on Monday the 5th at 09:30.\<close>

lemma weekly_example_fire:
  "compute_cron_at_next_fire (\<lambda>_ _. 0) weekly_example 0 None =
     Some \<lparr>nf_next_fire_at_ms = 379800000, nf_occurrence_key = ''W1|UTC|1970-01-05T09:30'',
           nf_local_time = ''1970-01-05T09:30:00 UTC'', nf_skipped_occurrences = 0\<rparr>"
  by code_simp

theorem compute_cron_at_next_fire_sound_witness:
  "fire_ok (\<lambda>_ _. 0) Weekly weekly_example 0 None
     \<lparr>nf_next_fire_at_ms = 379800000, nf_occurrence_key = ''W1|UTC|1970-01-05T09:30'',
      nf_local_time = ''1970-01-05T09:30:00 UTC'', nf_skipped_occurrences = 0\<rparr>"
  using compute_cron_at_next_fire_sound [OF weekly_example_fire]
  by (simp add: classify_recurrence_def weekly_example_def)

end
