(* ===== verification/OrchState.thy ===== *)
theory OrchState
  imports OrchUtils MessageSender CronAt
begin

text \<open>
  \<open>packages/sdk/src/orchestration/state.ts\<close>: the mutable state of the durable session
  orchestration, its options, and their construction from an orchestration input; with the input's
  types of \<open>types.ts\<close>.

  Values the orchestration only passes along (the session config, tool actions, a pending question)
  stay untyped (\<open>jsval\<close>), and are truthy when present.
  A \<open>Set\<close> of strings is a HOL set.
\<close>

section \<open>Parts of the state\<close>

datatype timer_type =
  Timer_wait | Timer_cron | Timer_cron_at | Timer_idle | Timer_agent_poll | Timer_input_grace

record active_timer =
  at_deadline_ms :: int
  at_original_duration_ms :: int
  at_reason :: string
  at_type :: timer_type
  at_should_rehydrate :: bool
  at_wait_plan :: "jsval option"
  at_content :: "string option"
  at_question :: "string option"
  at_choices :: "string list option"
  at_allow_freeform :: "bool option"
  at_agent_ids :: "string list option"
  at_budget :: bool

record active_timer_state =
  ts_remaining_ms :: int
  ts_reason :: string
  ts_type :: timer_type
  ts_original_duration_ms :: "int option"
  ts_should_rehydrate :: bool
  ts_wait_plan :: "jsval option"
  ts_content :: "string option"
  ts_question :: "string option"
  ts_choices :: "string list option"
  ts_allow_freeform :: "bool option"
  ts_agent_ids :: "string list option"

record child_update_entry =
  ue_session_id :: string
  ue_update_type :: string
  ue_content :: "string option"
  ue_cycle_origin :: "string option"
  ue_cycle_status :: "string option"
  ue_verdict :: "string option"
  ue_observed_at_ms :: int

record pending_child_digest =
  cd_started_at_ms :: int
  cd_ready :: bool
  cd_updates :: "child_update_entry list"

record sub_agent_entry =
  sa_orch_id :: string
  sa_session_id :: string
  sa_task :: string
  sa_status :: string
  sa_result :: "string option"
  sa_expects_report :: bool
  sa_agent_id :: "string option"
  sa_contract :: jsval

record cron_schedule =
  sched_interval_seconds :: int
  sched_reason :: string

record blocked_error =
  be_message :: string
  be_auth_failure :: bool

record interrupted_wait_timer =
  iw_remaining_sec :: int
  iw_reason :: string
  iw_should_rehydrate :: bool
  iw_wait_plan :: "jsval option"
  iw_interrupt_kind :: "string option"
  iw_budget :: bool

record interrupted_cron_timer =
  ic_remaining_ms :: int
  ic_reason :: string
  ic_original_duration_ms :: "int option"
  ic_should_rehydrate :: bool

record budget_stashed_prompt =
  bs_prompt :: string
  bs_client_message_ids :: "string list option"
  bs_required_tool :: "string option"

record prompt_attachment_ref =
  pa_filename :: string
  pa_content_type :: string
  pa_size_bytes :: rat

text \<open>A graceful shutdown under way, a session regeneration, and the boundary a flip leaves to commit.\<close>

datatype shutdown_mode = Mode_done | Mode_cancel | Mode_delete

record pending_shutdown_state =
  psd_mode :: shutdown_mode
  psd_reason :: string
  psd_started_at_ms :: int
  psd_deadline_at_ms :: int
  psd_target_agent_ids :: "string list"
  psd_command_id :: "string option"
  psd_requested_by :: "string option"

datatype regen_stage =
  Stage_requested | Stage_archived | Stage_distilling | Stage_distilled | Stage_flipping

record regen_state =
  rg_attempt_id :: string
  rg_stage :: regen_stage
  rg_requested_at_ms :: int
  rg_trigger :: string
  rg_requested_by :: "string option"
  rg_handoff :: "string option"
  rg_instructions :: "string option"
  rg_distill_mode :: string
  rg_distiller_reasoning_effort :: "string option"
  rg_distiller_context_tier :: "string option"
  rg_distiller_model :: "string option"
  rg_distiller_model_resolved :: "string option"
  rg_distiller_session_id :: "string option"
  rg_distill_started_at_ms :: "int option"
  rg_model :: "string option"
  rg_archive_artifact_id :: "string option"
  rg_package_artifact_id :: "string option"
  rg_bootstrap :: "string option"
  rg_selection_strategy :: "string option"
  rg_elided_count :: rat
  rg_archive_chunk_ids :: "string list"
  rg_archive_ms :: rat
  rg_turns_archived :: rat
  rg_compactions_archived :: rat
  rg_distill_ms :: rat
  rg_distill_mode_final :: "string option"

record pending_epoch_commit =
  ec_from_epoch :: int
  ec_to_epoch :: int
  ec_attempt_id :: string
  ec_trigger :: string
  ec_requested_at_ms :: int
  ec_archive_artifact_id :: "string option"
  ec_archive_chunk_ids :: "string list"
  ec_package_artifact_id :: "string option"
  ec_turns_archived :: "rat option"
  ec_compactions_archived :: "rat option"
  ec_archive_ms :: "rat option"
  ec_distill_ms :: "rat option"
  ec_distill_mode :: "string option"
  ec_distiller_model :: "string option"
  ec_distiller_session_id :: "string option"

type_synonym config_obj = "(string \<times> jsval) list"

record durable_session_state =
  ds_config :: config_obj
  ds_affinity_key :: string
  ds_iteration :: int
  ds_loop_iteration :: int
  ds_retry_count :: int
  ds_needs_hydration :: bool
  ds_snapshot_version :: int
  ds_preserve_affinity_on_hydrate :: bool
  ds_blob_enabled :: bool
  ds_pending_rehydration_message :: "string option"
  ds_pending_prompt :: "string option"
  ds_pending_attachments :: "prompt_attachment_ref list"
  ds_pending_required_tool :: "string option"
  ds_pending_system_prompt :: "string option"
  ds_runtime_model_notice :: "string option"
  ds_blocked_error :: "blocked_error option"
  ds_pending_cycle_origin :: "string option"
  ds_bootstrap_prompt :: bool
  ds_pending_tool_actions :: "jsval list"
  ds_sub_agents :: "sub_agent_entry list"
  ds_reported_first_completion :: bool
  ds_task_context :: "string option"
  ds_cron_schedule :: "cron_schedule option"
  ds_cron_at_schedule :: "cron_at_schedule option"
  ds_next_summarize_at :: int
  ds_context_usage :: "context_usage option"
  ds_active_timer :: "active_timer option"
  ds_pending_input_question :: "jsval option"
  ds_waiting_for_agent_ids :: "string list option"
  ds_interrupted_wait_timer :: "interrupted_wait_timer option"
  ds_budget_stash :: "budget_stashed_prompt list option"
  ds_interrupted_cron_timer :: "interrupted_cron_timer option"
  ds_pending_child_digest :: "pending_child_digest option"
  ds_pending_shutdown :: "pending_shutdown_state option"
  ds_last_response_version :: int
  ds_last_command_version :: int
  ds_last_command_id :: "string option"
  ds_cancelled_message_ids :: "string set"
  ds_emitted_cancelled_message_ids :: "string set"
  ds_recent_client_message_ids :: "string list"
  ds_legacy_pending_message :: jsval
  ds_orchestration_result :: "string option"
  ds_observed_sender_keys :: "string list"
  ds_multi_writer :: bool
  ds_shared_preamble_sent :: bool
  ds_owner_display :: "string option"
  ds_transcript_epoch :: int
  ds_epoch_start_pending :: bool
  ds_regen :: "regen_state option"
  ds_epoch_start_iteration :: int
  ds_last_regen_at_ms :: int
  ds_pending_epoch_commit :: "pending_epoch_commit option"

record durable_session_options =
  do_idle_timeout :: int
  do_input_grace_period :: int
  do_is_system :: bool
  do_parent_session_id :: "string option"
  do_nesting_level :: int
  do_base_system_message :: jsval

record orchestration_input =
  oi_session_id :: string
  oi_config :: config_obj
  oi_iteration :: "int option"
  oi_transcript_epoch :: "int option"
  oi_epoch_start_pending :: bool
  oi_regen :: "regen_state option"
  oi_pending_epoch_commit :: "pending_epoch_commit option"
  oi_epoch_start_iteration :: "int option"
  oi_last_regen_at_ms :: "int option"
  oi_affinity_key :: "string option"
  oi_preserve_affinity_on_hydrate :: "bool option"
  oi_needs_hydration :: "bool option"
  oi_blob_enabled :: "bool option"
  oi_prompt :: "string option"
  oi_attachments :: "prompt_attachment_ref list option"
  oi_required_tool :: "string option"
  oi_system_prompt :: "string option"
  oi_runtime_model_notice :: "string option"
  oi_blocked_error :: "blocked_error option"
  oi_bootstrap_prompt :: "bool option"
  oi_cycle_origin :: "string option"
  oi_idle_timeout :: "int option"
  oi_input_grace_period :: "int option"
  oi_snapshot_version :: "int option"
  oi_next_summarize_at :: "int option"
  oi_retry_count :: "int option"
  oi_task_context :: "string option"
  oi_base_system_message :: jsval
  oi_rehydration_message :: "string option"
  oi_cron_schedule :: "cron_schedule option"
  oi_cron_at_schedule :: "cron_at_schedule option"
  oi_context_usage :: "context_usage option"
  oi_recent_client_message_ids :: jsval
  oi_observed_sender_keys :: "string list option"
  oi_multi_writer :: bool
  oi_shared_preamble_sent :: bool
  oi_owner_display :: "string option"
  oi_active_timer_state :: "active_timer_state option"
  oi_waiting_for_agent_ids :: "string list option"
  oi_pending_input_question :: "jsval option"
  oi_budget_stash :: "budget_stashed_prompt list option"
  oi_interrupted_wait_timer :: "interrupted_wait_timer option"
  oi_interrupted_cron_timer :: "interrupted_cron_timer option"
  oi_pending_child_digest :: "pending_child_digest option"
  oi_pending_shutdown :: "pending_shutdown_state option"
  oi_sub_agents :: "sub_agent_entry list option"
  oi_reported_first_completion :: bool
  oi_pending_tool_actions :: "jsval list option"
  oi_parent_session_id :: "string option"
  oi_parent_orch_id :: "string option"
  oi_nesting_level :: "int option"
  oi_is_system :: "bool option"
  oi_agent_id :: "string option"
  oi_source_orchestration_version :: "string option"

section \<open>Constants\<close>

definition child_update_batch_min_ms :: int where "child_update_batch_min_ms = 30000"
definition child_update_batch_max_ms :: int where "child_update_batch_max_ms = 300000"
definition child_digest_coalesce_ms :: int where "child_digest_coalesce_ms = 60000"
definition fifo_bucket_count :: nat where "fifo_bucket_count = 20"
definition max_bucket_bytes :: nat where "max_bucket_bytes = 14 * 1024"
definition recent_client_message_id_limit :: nat where "recent_client_message_id_limit = 20"
definition attachments_max_count :: nat where "attachments_max_count = 4"

definition internal_system_turn_prompt :: string where
  "internal_system_turn_prompt =
     ''Internal orchestration wake-up. The user did not send a new message. '' @
     ''Continue with the latest system instructions.''"

text \<open>\<open>childUpdateBatchMs\<close> on a count of children, which is a list's length wherever it is called.\<close>

definition child_update_batch_ms :: "nat \<Rightarrow> int" where
  "child_update_batch_ms n =
     min child_update_batch_max_ms (max child_update_batch_min_ms (15000 * int n))"

section \<open>Recently accepted message ids\<close>

fun add_fresh_strings :: "string list \<Rightarrow> jsval list \<Rightarrow> string list" where
  "add_fresh_strings ids [] = ids"
| "add_fresh_strings ids (raw # rest) =
     (case raw of
        JStr s \<Rightarrow> if s = [] \<or> s \<in> set ids then add_fresh_strings ids rest
                  else add_fresh_strings (ids @ [s]) rest
      | _ \<Rightarrow> add_fresh_strings ids rest)"

fun normalize_recent_client_message_ids :: "jsval \<Rightarrow> string list" where
  "normalize_recent_client_message_ids (JArr xs) =
     slice_last recent_client_message_id_limit (add_fresh_strings [] xs)"
| "normalize_recent_client_message_ids _ = []"

text \<open>\<open>ids.filter((id, index) => Boolean(id) && ids.indexOf(id) === index)\<close>\<close>

definition first_occurrences :: "string list \<Rightarrow> string list" where
  "first_occurrences ids = filter (\<lambda>id. id \<noteq> []) (rev (remdups (rev ids)))"

definition touch_recent_client_message_ids ::
  "string list \<Rightarrow> durable_session_state \<Rightarrow> durable_session_state" where
  "touch_recent_client_message_ids ids state =
     (let valid_ids = first_occurrences ids
      in if valid_ids = [] then state
         else state\<lparr>ds_recent_client_message_ids :=
           slice_last recent_client_message_id_limit
             (filter (\<lambda>id. id \<notin> set valid_ids) (ds_recent_client_message_ids state) @ valid_ids)\<rparr>)"

section \<open>Initial state\<close>

definition well_formed_ref :: "prompt_attachment_ref \<Rightarrow> bool" where
  "well_formed_ref a \<longleftrightarrow> pa_filename a \<noteq> [] \<and> pa_content_type a \<noteq> [] \<and> 0 < pa_size_bytes a"

definition sanitize_prompt_attachment_refs ::
  "prompt_attachment_ref list option \<Rightarrow> prompt_attachment_ref list" where
  "sanitize_prompt_attachment_refs raw =
     take attachments_max_count (filter well_formed_ref
       (map (\<lambda>a. a\<lparr>pa_filename := trim (pa_filename a),
                   pa_content_type := to_lower (trim (pa_content_type a))\<rparr>) (coalesce raw [])))"

fun obj_set :: "string \<Rightarrow> jsval \<Rightarrow> config_obj \<Rightarrow> config_obj" where
  "obj_set k v [] = [(k, v)]"
| "obj_set k v ((k', v') # r) = (if k' = k then (k, v) # r else (k', v') # obj_set k v r)"

text \<open>\<open>typeof m === "string" ? m : m?.content ?? ""\<close>\<close>

definition base_text :: "jsval \<Rightarrow> string" where
  "base_text m = (case m of
       JStr s \<Rightarrow> s
     | _ \<Rightarrow> (case jget ''content'' m of JStr s \<Rightarrow> s | _ \<Rightarrow> []))"

definition recurring_task_message :: "jsval \<Rightarrow> string \<Rightarrow> string" where
  "recurring_task_message base_message task_context =
     (let base = base_text base_message
      in base @ (if base \<noteq> [] then blank_line else []) @
         ''[RECURRING TASK]'' @ [CHR 0x0A] @
         ''Original user request (always remember, even if conversation history is truncated):'' @
         [CHR 0x0A, CHR 0x22] @ task_context @ [CHR 0x22])"

definition initial_config ::
  "config_obj \<Rightarrow> string option \<Rightarrow> string option \<Rightarrow> jsval \<Rightarrow> config_obj" where
  "initial_config config task_context agent_id base_message =
     (let c1 = (if truthy_str task_context
                then obj_set ''systemMessage'' (JStr (recurring_task_message base_message (the task_context))) config
                else config)
      in if truthy_str agent_id then obj_set ''agentIdentity'' (JStr (the agent_id)) c1 else c1)"

definition create_initial_state ::
  "orchestration_input \<Rightarrow> durable_session_options \<Rightarrow> durable_session_state" where
  "create_initial_state input options =
     \<lparr>ds_config = initial_config (oi_config input) (oi_task_context input) (oi_agent_id input)
        (do_base_system_message options),
      ds_affinity_key = coalesce (oi_affinity_key input) (oi_session_id input),
      ds_iteration = coalesce (oi_iteration input) 0,
      ds_loop_iteration = 0,
      ds_retry_count = coalesce (oi_retry_count input) 0,
      ds_needs_hydration = coalesce (oi_needs_hydration input) False,
      ds_snapshot_version = coalesce (oi_snapshot_version input) 0,
      ds_preserve_affinity_on_hydrate = coalesce (oi_preserve_affinity_on_hydrate input) False,
      ds_blob_enabled = coalesce (oi_blob_enabled input) False,
      ds_pending_rehydration_message = oi_rehydration_message input,
      ds_pending_prompt = oi_prompt input,
      ds_pending_attachments = sanitize_prompt_attachment_refs (oi_attachments input),
      ds_pending_required_tool = oi_required_tool input,
      ds_pending_system_prompt = oi_system_prompt input,
      ds_runtime_model_notice = oi_runtime_model_notice input,
      ds_blocked_error = oi_blocked_error input,
      ds_pending_cycle_origin = oi_cycle_origin input,
      ds_bootstrap_prompt = coalesce (oi_bootstrap_prompt input) False,
      ds_pending_tool_actions = coalesce (oi_pending_tool_actions input) [],
      ds_sub_agents = coalesce (oi_sub_agents input) [],
      ds_reported_first_completion = oi_reported_first_completion input,
      ds_task_context = oi_task_context input,
      ds_cron_schedule = oi_cron_schedule input,
      ds_cron_at_schedule = oi_cron_at_schedule input,
      ds_next_summarize_at = coalesce (oi_next_summarize_at input) 0,
      ds_context_usage = oi_context_usage input,
      ds_active_timer = None,
      ds_pending_input_question = oi_pending_input_question input,
      ds_waiting_for_agent_ids = oi_waiting_for_agent_ids input,
      ds_interrupted_wait_timer = oi_interrupted_wait_timer input,
      ds_budget_stash = oi_budget_stash input,
      ds_interrupted_cron_timer = oi_interrupted_cron_timer input,
      ds_pending_child_digest = oi_pending_child_digest input,
      ds_pending_shutdown = oi_pending_shutdown input,
      ds_last_response_version = 0,
      ds_last_command_version = 0,
      ds_last_command_id = None,
      ds_cancelled_message_ids = {},
      ds_emitted_cancelled_message_ids = {},
      ds_recent_client_message_ids = normalize_recent_client_message_ids (oi_recent_client_message_ids input),
      ds_legacy_pending_message = JUndef,
      ds_orchestration_result = None,
      ds_observed_sender_keys = coalesce (oi_observed_sender_keys input) [],
      ds_multi_writer = oi_multi_writer input,
      ds_shared_preamble_sent = oi_shared_preamble_sent input,
      ds_owner_display = oi_owner_display input,
      ds_transcript_epoch = coalesce (oi_transcript_epoch input) 0,
      ds_epoch_start_pending = oi_epoch_start_pending input,
      ds_regen = oi_regen input,
      ds_epoch_start_iteration = coalesce (oi_epoch_start_iteration input) 0,
      ds_last_regen_at_ms = coalesce (oi_last_regen_at_ms input) 0,
      ds_pending_epoch_commit = oi_pending_epoch_commit input\<rparr>"

text \<open>\<open>s.replace(/^session-/, "")\<close>\<close>

definition strip_session_prefix :: "string \<Rightarrow> string" where
  "strip_session_prefix s = (if starts_with ''session-'' s then drop 8 s else s)"

definition derive_options :: "orchestration_input \<Rightarrow> durable_session_options" where
  "derive_options input =
     \<lparr>do_idle_timeout =
        (case oi_idle_timeout input of None \<Rightarrow> 1800 | Some t \<Rightarrow> if t = 60 then 1800 else t),
      do_input_grace_period = coalesce (oi_input_grace_period input) 30,
      do_is_system = coalesce (oi_is_system input) False,
      do_parent_session_id =
        (case oi_parent_session_id input of
           Some p \<Rightarrow> Some p
         | None \<Rightarrow> (case oi_parent_orch_id input of
             Some orch \<Rightarrow> if orch \<noteq> [] then Some (strip_session_prefix orch) else None
           | None \<Rightarrow> None)),
      do_nesting_level = coalesce (oi_nesting_level input) 0,
      do_base_system_message =
        (if is_nullish (oi_base_system_message input) then jget ''systemMessage'' (JObj (oi_config input))
         else oi_base_system_message input)\<rparr>"

section \<open>A new session\<close>

text \<open>The input of a session that carries only its id and configuration.\<close>

definition new_session_input :: "string \<Rightarrow> config_obj \<Rightarrow> orchestration_input" where
  "new_session_input sid config =
     \<lparr>oi_session_id = sid, oi_config = config, oi_iteration = None, oi_transcript_epoch = None,
      oi_epoch_start_pending = False, oi_regen = None, oi_pending_epoch_commit = None,
      oi_epoch_start_iteration = None, oi_last_regen_at_ms = None, oi_affinity_key = None,
      oi_preserve_affinity_on_hydrate = None, oi_needs_hydration = None, oi_blob_enabled = None,
      oi_prompt = None, oi_attachments = None, oi_required_tool = None, oi_system_prompt = None,
      oi_runtime_model_notice = None, oi_blocked_error = None, oi_bootstrap_prompt = None,
      oi_cycle_origin = None, oi_idle_timeout = None, oi_input_grace_period = None,
      oi_snapshot_version = None, oi_next_summarize_at = None, oi_retry_count = None,
      oi_task_context = None, oi_base_system_message = JUndef, oi_rehydration_message = None,
      oi_cron_schedule = None, oi_cron_at_schedule = None, oi_context_usage = None,
      oi_recent_client_message_ids = JUndef, oi_observed_sender_keys = None, oi_multi_writer = False,
      oi_shared_preamble_sent = False, oi_owner_display = None, oi_active_timer_state = None,
      oi_waiting_for_agent_ids = None, oi_pending_input_question = None, oi_budget_stash = None,
      oi_interrupted_wait_timer = None, oi_interrupted_cron_timer = None,
      oi_pending_child_digest = None, oi_pending_shutdown = None, oi_sub_agents = None,
      oi_reported_first_completion = False, oi_pending_tool_actions = None,
      oi_parent_session_id = None, oi_parent_orch_id = None, oi_nesting_level = None,
      oi_is_system = None, oi_agent_id = None, oi_source_orchestration_version = None\<rparr>"

definition new_session_state :: durable_session_state where
  "new_session_state =
     create_initial_state (new_session_input ''s1'' []) (derive_options (new_session_input ''s1'' []))"

lemma new_session_state_fields [simp]:
  "ds_recent_client_message_ids new_session_state = []"
  "ds_observed_sender_keys new_session_state = []"
  "ds_multi_writer new_session_state = False"
  "ds_shared_preamble_sent new_session_state = False"
  by (simp_all add: new_session_state_def create_initial_state_def new_session_input_def)

end
