(* ===== verification/OrchTracking.thy ===== *)
theory OrchTracking
  imports OrchState
begin

text \<open>
  What the orchestration remembers of the messages it admits: the window of recently accepted client
  message ids (\<open>touchRecentClientMessageIds\<close> of \<open>state.ts\<close>), and who writes to the session
  (\<open>noteMessageSender\<close> and \<open>maybeQueueSharedPreamble\<close> of \<open>utils.ts\<close>). Shown: the window's
  invariant and how long an id stays in it; multi-writer detection is exact.
\<close>

section \<open>The window of recently accepted ids\<close>

definition recent_ok :: "string list \<Rightarrow> bool" where
  "recent_ok ids \<longleftrightarrow> distinct ids \<and> [] \<notin> set ids \<and> length ids \<le> recent_client_message_id_limit"

definition recent_touch :: "string list \<Rightarrow> string list \<Rightarrow> string list" where
  "recent_touch ids window =
     slice_last recent_client_message_id_limit
       (filter (\<lambda>mid. mid \<notin> set (first_occurrences ids)) window @ first_occurrences ids)"

lemma first_occurrences_distinct [simp]: "distinct (first_occurrences ids)"
  by (simp add: first_occurrences_def)

lemma set_first_occurrences [simp]: "set (first_occurrences ids) = set ids - {[]}"
  by (auto simp: first_occurrences_def)

lemma touch_is_recent_touch:
  "ds_recent_client_message_ids (touch_recent_client_message_ids ids s) =
     (if set ids \<subseteq> {[]} then ds_recent_client_message_ids s
      else recent_touch ids (ds_recent_client_message_ids s))"
proof -
  have "first_occurrences ids = [] \<longleftrightarrow> set ids \<subseteq> {[]}"
    using set_first_occurrences [of ids] by (cases "first_occurrences ids") auto
  then show ?thesis
    by (simp add: touch_recent_client_message_ids_def recent_touch_def Let_def)
qed

lemma recent_touch_ok: "recent_ok w \<Longrightarrow> recent_ok (recent_touch ids w)"
proof -
  assume w: "recent_ok w"
  let ?l = "filter (\<lambda>mid. mid \<notin> set (first_occurrences ids)) w @ first_occurrences ids"
  have "distinct ?l" "[] \<notin> set ?l" using w by (auto simp: recent_ok_def)
  moreover have "recent_touch ids w = slice_last recent_client_message_id_limit ?l"
    by (simp add: recent_touch_def)
  ultimately show ?thesis
    using set_slice_last [of recent_client_message_id_limit ?l]
    by (auto simp: recent_ok_def distinct_slice_last)
qed

lemma add_fresh_strings_ok:
  "distinct ids \<Longrightarrow> [] \<notin> set ids \<Longrightarrow>
   distinct (add_fresh_strings ids xs) \<and> [] \<notin> set (add_fresh_strings ids xs)"
  by (induction ids xs rule: add_fresh_strings.induct) (auto split: jsval.splits)

lemma normalize_recent_ok: "recent_ok (normalize_recent_client_message_ids v)"
proof (cases v)
  case (JArr xs)
  then show ?thesis
    using add_fresh_strings_ok [of "[]" xs]
      set_slice_last [of recent_client_message_id_limit "add_fresh_strings [] xs"]
    by (auto simp: recent_ok_def distinct_slice_last)
qed (auto simp: recent_ok_def)

text \<open>Reading the window newest first, the ids newer than \<open>mid\<close>.\<close>

definition newer :: "string \<Rightarrow> string list \<Rightarrow> string set" where
  "newer mid w = set (takeWhile (\<lambda>x. x \<noteq> mid) (rev w))"

lemma rev_slice_last: "rev (slice_last n xs) = take n (rev xs)"
  by (simp add: slice_last_def take_rev)

lemma takeWhile_take: "takeWhile P (take n xs) = take n (takeWhile P xs)"
  by (induction xs arbitrary: n) (auto simp: take_Cons' split: nat.splits)

lemma member_take_iff:
  "x \<in> set xs \<Longrightarrow> length (takeWhile (\<lambda>y. y \<noteq> x) xs) < n \<Longrightarrow> x \<in> set (take n xs)"
proof (induction xs arbitrary: n)
  case (Cons a xs)
  then show ?case by (cases n) (auto split: if_splits)
qed simp

lemma recent_touch_step:
  assumes w: "recent_ok w" and mid: "mid \<in> set w" and new: "newer mid w \<subseteq> S"
    and fin: "finite S" and few: "card (S \<union> (set ids - {[]})) < recent_client_message_id_limit"
    and other: "mid \<notin> set ids"
  shows "mid \<in> set (recent_touch ids w) \<and> newer mid (recent_touch ids w) \<subseteq> S \<union> (set ids - {[]})"
proof -
  let ?fo = "first_occurrences ids"
  let ?keep = "filter (\<lambda>x. x \<notin> set ?fo) w"
  let ?all = "rev ?fo @ rev ?keep"
  let ?tw = "takeWhile (\<lambda>x. x \<noteq> mid) ?all"
  have nofo: "mid \<notin> set ?fo" using other by simp
  have tw_filter: "set (takeWhile (\<lambda>x. x \<noteq> mid) (filter Q xs)) \<subseteq> set (takeWhile (\<lambda>x. x \<noteq> mid) xs)"
    if "Q mid" for Q xs
    using that by (induction xs) auto
  have "?tw = rev ?fo @ takeWhile (\<lambda>x. x \<noteq> mid) (rev ?keep)"
    using nofo by (subst takeWhile_append2) auto
  then have sub: "set ?tw \<subseteq> S \<union> (set ids - {[]})"
    using tw_filter [of "\<lambda>x. x \<notin> set ?fo" "rev w"] nofo new
    by (auto simp: newer_def rev_filter dest!: subsetD)
  have "distinct ?all" using w by (auto simp: recent_ok_def)
  then have "length ?tw = card (set ?tw)"
    by (metis distinct_card distinct_takeWhile)
  also have "\<dots> \<le> card (S \<union> (set ids - {[]}))" using sub fin by (intro card_mono) auto
  finally have len: "length ?tw < recent_client_message_id_limit" using few by simp
  have "mid \<in> set ?all" using mid nofo by auto
  then have "mid \<in> set (take recent_client_message_id_limit ?all)" by (rule member_take_iff) (rule len)
  moreover have rt: "rev (recent_touch ids w) = take recent_client_message_id_limit ?all"
    by (simp add: recent_touch_def rev_slice_last)
  ultimately have "mid \<in> set (recent_touch ids w)" by (metis set_rev)
  moreover have "newer mid (recent_touch ids w) \<subseteq> set ?tw"
    by (simp only: newer_def rt takeWhile_take set_take_subset)
  ultimately show ?thesis using sub by blast
qed

lemma recent_touch_head:
  assumes "mid \<in> set ids" "mid \<noteq> []" "length (first_occurrences ids) \<le> recent_client_message_id_limit"
  shows "mid \<in> set (recent_touch ids w) \<and> newer mid (recent_touch ids w) \<subseteq> set ids - {[]}"
proof -
  let ?fo = "first_occurrences ids"
  have mid: "mid \<in> set ?fo" using assms by simp
  have rt: "recent_touch ids w =
      slice_last (recent_client_message_id_limit - length ?fo) (filter (\<lambda>x. x \<notin> set ?fo) w) @ ?fo"
    unfolding recent_touch_def by (rule slice_last_append) (rule assms(3))
  have "takeWhile (\<lambda>x. x \<noteq> mid) (rev (recent_touch ids w)) = takeWhile (\<lambda>x. x \<noteq> mid) (rev ?fo)"
    using mid unfolding rt rev_append by (intro takeWhile_append1 [of mid]) auto
  then have "newer mid (recent_touch ids w) \<subseteq> set ?fo"
    by (metis newer_def set_rev set_takeWhileD subsetI)
  then show ?thesis using mid by (auto simp: rt)
qed

text \<open>
  The window after a run of accepted prompts, each with its ids.
\<close>

definition touch_all ::
  "string list list \<Rightarrow> durable_session_state \<Rightarrow> durable_session_state" where
  "touch_all idss s = fold touch_recent_client_message_ids idss s"

lemma touch_all_window:
  "recent_ok (ds_recent_client_message_ids s) \<Longrightarrow>
   recent_ok (ds_recent_client_message_ids (touch_all idss s))"
  unfolding touch_all_def
  by (induction idss arbitrary: s) (auto simp: touch_is_recent_touch recent_touch_ok)

lemma touch_all_keeps:
  assumes "recent_ok (ds_recent_client_message_ids s)" "mid \<in> set (ds_recent_client_message_ids s)"
    "newer mid (ds_recent_client_message_ids s) \<subseteq> S" "finite S"
    "card (S \<union> (\<Union>ids \<in> set idss. set ids)) < recent_client_message_id_limit"
    "\<forall>ids \<in> set idss. mid \<notin> set ids"
  shows "mid \<in> set (ds_recent_client_message_ids (touch_all idss s))"
  using assms
proof (induction idss arbitrary: s S)
  case Nil
  then show ?case by (simp add: touch_all_def)
next
  case (Cons ids idss)
  let ?s = "touch_recent_client_message_ids ids s"
  let ?S = "S \<union> (set ids - {[]})"
  have fin: "finite (S \<union> (\<Union>i \<in> set (ids # idss). set i))" using Cons.prems by auto
  have "card ?S \<le> card (S \<union> (\<Union>i \<in> set (ids # idss). set i))"
    by (rule card_mono [OF fin]) auto
  then have few: "card ?S < recent_client_message_id_limit" using Cons.prems(5) by simp
  have "card (?S \<union> (\<Union>i \<in> set idss. set i)) \<le> card (S \<union> (\<Union>i \<in> set (ids # idss). set i))"
    by (rule card_mono [OF fin]) auto
  then have few2: "card (?S \<union> (\<Union>i \<in> set idss. set i)) < recent_client_message_id_limit"
    using Cons.prems(5) by simp
  have "mid \<in> set (ds_recent_client_message_ids ?s) \<and>
        newer mid (ds_recent_client_message_ids ?s) \<subseteq> ?S \<and>
        recent_ok (ds_recent_client_message_ids ?s)"
    using recent_touch_step [OF Cons.prems(1-4) few] Cons.prems
    by (auto simp: touch_is_recent_touch recent_touch_ok)
  then have "mid \<in> set (ds_recent_client_message_ids (touch_all idss ?s))"
    using Cons.IH [of ?s ?S] few2 Cons.prems by auto
  then show ?case by (simp add: touch_all_def)
qed


text \<open>
  Duplicate suppression: an accepted message id is still recognised as a duplicate as long as
  fewer than twenty different ids were accepted since, however they were grouped into prompts and
  however often each was repeated; and the window never holds an id twice nor more than twenty.
\<close>

theorem recent_ids_remember:
  assumes "recent_ok (ds_recent_client_message_ids s)"
    "mid \<in> set ids" "mid \<noteq> []" "length (first_occurrences ids) \<le> recent_client_message_id_limit"
    "card (set ids \<union> (\<Union>later \<in> set laters. set later)) < recent_client_message_id_limit"
    "\<forall>later \<in> set laters. mid \<notin> set later"
  shows "mid \<in> set (ds_recent_client_message_ids
           (touch_all laters (touch_recent_client_message_ids ids s))) \<and>
    recent_ok (ds_recent_client_message_ids
           (touch_all laters (touch_recent_client_message_ids ids s)))"
proof (intro conjI)
  let ?s = "touch_recent_client_message_ids ids s"
  have "\<not> set ids \<subseteq> {[]}" using assms by auto
  then have w: "ds_recent_client_message_ids ?s = recent_touch ids (ds_recent_client_message_ids s)"
    by (simp add: touch_is_recent_touch)
  have ok: "recent_ok (ds_recent_client_message_ids ?s)"
    using assms(1) by (simp add: w recent_touch_ok)
  have "mid \<in> set (ds_recent_client_message_ids ?s) \<and>
        newer mid (ds_recent_client_message_ids ?s) \<subseteq> set ids"
    using recent_touch_head [OF assms(2-4)] unfolding w by blast
  then show "mid \<in> set (ds_recent_client_message_ids (touch_all laters ?s))"
    using touch_all_keeps [OF ok, of mid "set ids" laters] assms(5,6) by auto
  show "recent_ok (ds_recent_client_message_ids (touch_all laters ?s))"
    using ok by (rule touch_all_window)
qed

theorem recent_ids_remember_witness:
  "''a'' \<in> set (ds_recent_client_message_ids
      (touch_all [[''c'', ''d''], [''c'']] (touch_recent_client_message_ids [''b'', ''a''] new_session_state)))"
  using recent_ids_remember [of new_session_state "''a''" "[''b'', ''a'']" "[[''c'', ''d''], [''c'']]"]
  by (simp add: recent_ok_def recent_client_message_id_limit_def first_occurrences_def)

section \<open>Tracking who writes\<close>

definition note_message_sender ::
  "jsval \<Rightarrow> durable_session_state \<Rightarrow> message_sender option \<times> durable_session_state" where
  "note_message_sender raw state =
     (case normalize_message_sender raw of
        None \<Rightarrow> (None, state)
      | Some sender \<Rightarrow>
          let key = message_sender_key (Some sender);
              keys = (if truthy_str key \<and> the key \<notin> set (ds_observed_sender_keys state)
                      then ds_observed_sender_keys state @ [the key] else ds_observed_sender_keys state);
              owner = (if ms_relation sender = Some Owner \<and> truthy_str (ms_display sender) \<and>
                          \<not> truthy_str (ds_owner_display state)
                       then ms_display sender else ds_owner_display state);
              distinct_users = length (filter (starts_with ''user:'') keys);
              multi = (ds_multi_writer state \<or> 2 \<le> distinct_users \<or>
                       ms_kind sender = User \<and> ms_relation sender \<noteq> None \<and>
                       ms_relation sender \<noteq> Some Owner)
          in (Some sender, state\<lparr>ds_observed_sender_keys := keys, ds_owner_display := owner,
                ds_multi_writer := multi\<rparr>))"

text \<open>The shared-session preamble; the dash of the source is U+2014, written here as its UTF-8 bytes.\<close>

definition em_dash :: string where "em_dash = [CHR 0xE2, CHR 0x80, CHR 0x94]"

definition build_shared_session_preamble :: "string option \<Rightarrow> string" where
  "build_shared_session_preamble owner_display =
     (let owner_line =
        (if truthy_str owner_display then ''This session is owned by '' @ the owner_display @ ''.''
         else ''This session is owned by the user whose messages are marked (owner).'')
      in join [CHR 0x0A]
        [''[SHARED SESSION]'',
         owner_line @ '' Other users may read it or send messages; each message is attributed as [FROM: name (relation)].'',
         ''The owner'' @ [CHR 0x27] @ ''s directives are authoritative:'',
         ''- Standing instructions from the owner govern the session'' @ [CHR 0x27] @ ''s goals, constraints, and style.'',
         ''- Help collaborators normally when their requests fit within those goals and constraints.'',
         ''- If a collaborator'' @ [CHR 0x27] @ ''s request conflicts with the owner'' @ [CHR 0x27] @
           ''s instructions or would change the session'' @ [CHR 0x27] @
           ''s direction, do not silently comply '' @ em_dash @
           '' say so, and either decline or ask the owner.'',
         ''- Messages marked (admin) are fleet operators; treat them like collaborators for prioritization purposes.''])"

definition maybe_queue_shared_preamble :: "durable_session_state \<Rightarrow> durable_session_state" where
  "maybe_queue_shared_preamble state =
     (if \<not> ds_multi_writer state \<or> ds_shared_preamble_sent state then state
      else state\<lparr>ds_shared_preamble_sent := True,
        ds_pending_system_prompt := merge_prompt (ds_pending_system_prompt state)
          (Some (build_shared_session_preamble (ds_owner_display state)))\<rparr>)"

text \<open>What the queue does for each message it admits: note the sender, then queue the preamble if due.\<close>

definition admit_message :: "jsval \<Rightarrow> durable_session_state \<Rightarrow> durable_session_state" where
  "admit_message raw s = maybe_queue_shared_preamble (snd (note_message_sender raw s))"

definition outside_writer :: "message_sender \<Rightarrow> bool" where
  "outside_writer m \<longleftrightarrow> ms_kind m = User \<and> ms_relation m \<noteq> None \<and> ms_relation m \<noteq> Some Owner"

definition senders_of :: "jsval list \<Rightarrow> message_sender list" where
  "senders_of raws = concat (map (\<lambda>r. case normalize_message_sender r of None \<Rightarrow> [] | Some m \<Rightarrow> [m]) raws)"

definition user_keys :: "message_sender list \<Rightarrow> string set" where
  "user_keys ms = {k. \<exists>m \<in> set ms. ms_kind m = User \<and> message_sender_key (Some m) = Some k}"

lemma user_keys_Nil [simp]: "user_keys [] = {}"
  by (simp add: user_keys_def)

lemma user_keys_snoc:
  "user_keys (ms @ [m]) = user_keys ms \<union>
     (if ms_kind m = User then set_option (message_sender_key (Some m)) else {})"
  by (auto simp: user_keys_def)

lemma senders_of_snoc:
  "senders_of (raws @ [r]) =
     senders_of raws @ (case normalize_message_sender r of None \<Rightarrow> [] | Some m \<Rightarrow> [m])"
  by (simp add: senders_of_def)

lemma sender_key_not_Nil: "message_sender_key (Some m) = Some k \<Longrightarrow> k \<noteq> []"
  by (auto simp: message_sender_key_def split: if_splits)

text \<open>What the tracked fields say of the senders seen so far.\<close>

definition writers_tracked :: "message_sender list \<Rightarrow> durable_session_state \<Rightarrow> bool" where
  "writers_tracked ms s \<longleftrightarrow>
     distinct (ds_observed_sender_keys s) \<and>
     {k \<in> set (ds_observed_sender_keys s). starts_with ''user:'' k} = user_keys ms \<and>
     ds_multi_writer s = (2 \<le> card (user_keys ms) \<or> (\<exists>m \<in> set ms. outside_writer m))"

lemma length_user_keys:
  "distinct ks \<Longrightarrow>
   length (filter (starts_with ''user:'') ks) = card {k \<in> set ks. starts_with ''user:'' k}"
  using distinct_card [of "filter (starts_with ''user:'') ks"] by simp

lemma writers_tracked_note:
  assumes t: "writers_tracked ms s" and n: "normalize_message_sender raw = Some m"
  shows "writers_tracked (ms @ [m]) (snd (note_message_sender raw s))"
proof -
  let ?s = "snd (note_message_sender raw s)"
  let ?key = "message_sender_key (Some m)"
  let ?ks = "ds_observed_sender_keys s"
  let ?ks' = "if truthy_str ?key \<and> the ?key \<notin> set ?ks then ?ks @ [the ?key] else ?ks"
  have ks: "ds_observed_sender_keys ?s = ?ks'"
    by (simp add: note_message_sender_def n Let_def)
  have d: "distinct ?ks'" using t by (simp add: writers_tracked_def)
  have set': "set ?ks' = set ?ks \<union> set_option ?key"
    using sender_key_not_Nil [of m] by (cases ?key) (auto simp: if_truthy_Some)
  have "{k \<in> set ?ks'. starts_with ''user:'' k} =
        {k \<in> set ?ks. starts_with ''user:'' k} \<union> {k. ?key = Some k \<and> starts_with ''user:'' k}"
    unfolding set' by auto
  also have "\<dots> = user_keys ms \<union> (if ms_kind m = User then set_option ?key else {})"
    using t message_sender_key_user_prefix [of m] by (auto simp: writers_tracked_def)
  finally have keys: "{k \<in> set ?ks'. starts_with ''user:'' k} = user_keys (ms @ [m])"
    by (simp only: user_keys_snoc)
  have card: "length (filter (starts_with ''user:'') ?ks') = card (user_keys (ms @ [m]))"
    using length_user_keys [OF d] keys by simp
  have fin: "finite (user_keys (ms @ [m]))" unfolding keys [symmetric] by simp
  have mono: "card (user_keys ms) \<le> card (user_keys (ms @ [m]))"
    by (rule card_mono [OF fin]) (auto simp: user_keys_snoc)
  have "ds_multi_writer ?s =
     (ds_multi_writer s \<or> 2 \<le> length (filter (starts_with ''user:'') ?ks') \<or> outside_writer m)"
    by (simp add: note_message_sender_def n Let_def outside_writer_def)
  then have "ds_multi_writer ?s =
     (2 \<le> card (user_keys (ms @ [m])) \<or> (\<exists>m' \<in> set (ms @ [m]). outside_writer m'))"
    using t mono unfolding card by (auto simp: writers_tracked_def)
  then show ?thesis using d keys by (simp add: writers_tracked_def ks)
qed

lemma maybe_queue_keeps [simp]:
  "ds_observed_sender_keys (maybe_queue_shared_preamble s) = ds_observed_sender_keys s"
  "ds_multi_writer (maybe_queue_shared_preamble s) = ds_multi_writer s"
  "ds_shared_preamble_sent (maybe_queue_shared_preamble s) =
     (ds_shared_preamble_sent s \<or> ds_multi_writer s)"
  by (auto simp: maybe_queue_shared_preamble_def)

lemma admit_message_fields:
  "ds_observed_sender_keys (admit_message r s) = ds_observed_sender_keys (snd (note_message_sender r s))"
  "ds_multi_writer (admit_message r s) = ds_multi_writer (snd (note_message_sender r s))"
  "ds_shared_preamble_sent (admit_message r s) =
     (ds_shared_preamble_sent (snd (note_message_sender r s)) \<or>
      ds_multi_writer (snd (note_message_sender r s)))"
  by (simp_all add: admit_message_def)

lemma note_message_sender_keeps [simp]:
  "ds_shared_preamble_sent (snd (note_message_sender raw s)) = ds_shared_preamble_sent s"
  "ds_pending_system_prompt (snd (note_message_sender raw s)) = ds_pending_system_prompt s"
  by (auto simp: note_message_sender_def Let_def split: option.splits)

lemma admit_all_tracks:
  "writers_tracked [] s \<Longrightarrow> writers_tracked (senders_of raws) (fold admit_message raws s)"
proof (induction raws rule: rev_induct)
  case Nil
  then show ?case by (simp add: senders_of_def)
next
  case (snoc r raws)
  let ?t = "fold admit_message raws s"
  have t: "writers_tracked (senders_of raws) ?t" using snoc by simp
  have "writers_tracked (senders_of (raws @ [r])) (snd (note_message_sender r ?t))"
  proof (cases "normalize_message_sender r")
    case None
    then show ?thesis using t by (simp add: senders_of_snoc note_message_sender_def)
  next
    case (Some m)
    then show ?thesis using writers_tracked_note [OF t Some] by (simp add: senders_of_snoc)
  qed
  then show ?case by (simp add: admit_message_fields writers_tracked_def)
qed

text \<open>
  Shared-session detection is exact: starting from a state that has seen no sender, after any run
  of admitted messages the session is multi-writer iff two different user identities have written or
  a user who is not the owner has, whatever junk senders came between; each identity is recorded
  once, and the preamble has been queued iff the session is multi-writer.
\<close>

theorem multi_writer_exact:
  assumes "ds_observed_sender_keys s = []" "\<not> ds_multi_writer s" "\<not> ds_shared_preamble_sent s"
  shows "(ds_multi_writer (fold admit_message raws s) \<longleftrightarrow>
      2 \<le> card (user_keys (senders_of raws)) \<or> (\<exists>m \<in> set (senders_of raws). outside_writer m)) \<and>
    distinct (ds_observed_sender_keys (fold admit_message raws s)) \<and>
    ds_shared_preamble_sent (fold admit_message raws s) =
         ds_multi_writer (fold admit_message raws s)"
proof (intro conjI)
  have t: "writers_tracked (senders_of raws) (fold admit_message raws s)"
    by (rule admit_all_tracks) (simp add: writers_tracked_def assms)
  then show "ds_multi_writer (fold admit_message raws s) \<longleftrightarrow>
      2 \<le> card (user_keys (senders_of raws)) \<or> (\<exists>m \<in> set (senders_of raws). outside_writer m)"
    "distinct (ds_observed_sender_keys (fold admit_message raws s))"
    by (simp_all add: writers_tracked_def)
  have mono: "ds_multi_writer s' \<Longrightarrow> ds_multi_writer (snd (note_message_sender r s'))" for r s'
    by (auto simp: note_message_sender_def Let_def split: option.splits)
  show "ds_shared_preamble_sent (fold admit_message raws s) =
         ds_multi_writer (fold admit_message raws s)"
  proof (induction raws rule: rev_induct)
    case Nil
    then show ?case using assms by simp
  next
    case (snoc r raws)
    then show ?case using mono [of "fold admit_message raws s" r] by (auto simp: admit_message_fields)
  qed
qed


definition bob_writes :: jsval where
  "bob_writes = JObj [(''kind'', JStr ''user''), (''provider'', JStr ''gh''), (''subject'', JStr ''2''),
     (''relation'', JStr ''collaborator'')]"

theorem multi_writer_exact_witness:
  "ds_multi_writer (fold admit_message [JNull, bob_writes] new_session_state) \<and>
   ds_shared_preamble_sent (fold admit_message [JNull, bob_writes] new_session_state)"
proof -
  have n: "senders_of [JNull, bob_writes] =
      [\<lparr>ms_kind = User, ms_provider = Some ''gh'', ms_subject = Some ''2'', ms_display = None,
        ms_relation = Some Collaborator, ms_session_id = None, ms_origin = None\<rparr>]"
    unfolding bob_writes_def by code_simp
  have "outside_writer \<lparr>ms_kind = User, ms_provider = Some ''gh'', ms_subject = Some ''2'',
      ms_display = None, ms_relation = Some Collaborator, ms_session_id = None, ms_origin = None\<rparr>"
    by (simp add: outside_writer_def)
  then show ?thesis
    using multi_writer_exact [of new_session_state "[JNull, bob_writes]"] unfolding n by simp
qed

end
