(* ===== verification/OrchContinue.thy ===== *)
theory OrchContinue
  imports OrchTracking
begin

text \<open>
  Continue-as-new (\<open>packages/sdk/src/orchestration/lifecycle.ts\<close> \<open>buildContinueInput\<close>,
  \<open>buildContinueInputWithPrompt\<close>, \<open>versionedContinueAsNew\<close>; \<open>runtime.ts\<close> \<open>restoreActiveTimer\<close>): the
  orchestration ends its execution with an input from which the next one rebuilds the state. Shown:
  which state the next execution has (the round trip), what happens to the active timer, and two pieces of state the round trip loses or repeats.

  Overrides are the six the function destructures, and the others as an update of the result (the
  spread \<open>...restOverrides\<close>). \<open>Date\<close>s come from \<open>ctx.utcNow()\<close> and are arguments.
\<close>

section \<open>Building the next input\<close>

record durable_session_runtime =
  rt_input :: orchestration_input
  rt_options :: durable_session_options
  rt_state :: durable_session_state
  rt_current_version :: string

record continue_overrides =
  ov_prompt :: "string option"
  ov_required_tool :: "string option"
  ov_system_prompt :: "string option"
  ov_cycle_origin :: "string option"
  ov_bootstrap_prompt :: "bool option"
  ov_rehydration_message :: "string option"
  ov_rest :: "orchestration_input \<Rightarrow> orchestration_input"

definition no_overrides :: continue_overrides where
  "no_overrides = \<lparr>ov_prompt = None, ov_required_tool = None, ov_system_prompt = None,
     ov_cycle_origin = None, ov_bootstrap_prompt = None, ov_rehydration_message = None, ov_rest = (\<lambda>i. i)\<rparr>"

text \<open>\<open>a ?? b\<close> on optional values.\<close>

definition or_null :: "'a option \<Rightarrow> 'a option \<Rightarrow> 'a option" where
  "or_null a b = (case a of None \<Rightarrow> b | Some x \<Rightarrow> Some x)"

definition if_nonempty :: "'a list \<Rightarrow> 'a list option" where
  "if_nonempty xs = (if xs = [] then None else Some xs)"

definition if_nonzero :: "int \<Rightarrow> int option" where
  "if_nonzero n = (if n = 0 then None else Some n)"

definition carried_prompt :: "durable_session_state \<Rightarrow> continue_overrides \<Rightarrow> string option" where
  "carried_prompt state ov = or_null (ov_prompt ov) (ds_pending_prompt state)"

definition carried_system_prompt :: "durable_session_state \<Rightarrow> continue_overrides \<Rightarrow> string option" where
  "carried_system_prompt state ov = or_null (ov_system_prompt ov) (ds_pending_system_prompt state)"

definition prompt_for_input :: "durable_session_state \<Rightarrow> continue_overrides \<Rightarrow> string option" where
  "prompt_for_input state ov =
     or_null (carried_prompt state ov)
       (if truthy_str (carried_system_prompt state ov) then Some internal_system_turn_prompt else None)"

definition bootstrap_for_input :: "durable_session_state \<Rightarrow> continue_overrides \<Rightarrow> bool option" where
  "bootstrap_for_input state ov =
     or_null (ov_bootstrap_prompt ov)
       (if truthy_str (carried_prompt state ov) then Some (ds_bootstrap_prompt state)
        else if truthy_str (carried_system_prompt state ov) then Some True else None)"

definition build_continue_input ::
  "durable_session_runtime \<Rightarrow> continue_overrides \<Rightarrow> orchestration_input" where
  "build_continue_input rt ov =
     (let state = rt_state rt; options = rt_options rt; input = rt_input rt;
          prompt = prompt_for_input state ov
      in ov_rest ov
        \<lparr>oi_session_id = oi_session_id input,
         oi_config = ds_config state,
         oi_iteration = Some (ds_iteration state),
         oi_transcript_epoch = Some (ds_transcript_epoch state),
         oi_epoch_start_pending = ds_epoch_start_pending state,
         oi_regen = ds_regen state,
         oi_pending_epoch_commit = ds_pending_epoch_commit state,
         oi_epoch_start_iteration = if_nonzero (ds_epoch_start_iteration state),
         oi_last_regen_at_ms = if_nonzero (ds_last_regen_at_ms state),
         oi_affinity_key = Some (ds_affinity_key state),
         oi_preserve_affinity_on_hydrate = Some (ds_preserve_affinity_on_hydrate state),
         oi_needs_hydration = Some (ds_needs_hydration state),
         oi_blob_enabled = Some (ds_blob_enabled state),
         oi_prompt = if_truthy prompt,
         oi_attachments = (if truthy_str prompt then if_nonempty (ds_pending_attachments state) else None),
         oi_required_tool = if_truthy (or_null (ov_required_tool ov) (ds_pending_required_tool state)),
         oi_system_prompt = if_truthy (carried_system_prompt state ov),
         oi_runtime_model_notice = if_truthy (ds_runtime_model_notice state),
         oi_blocked_error = ds_blocked_error state,
         oi_bootstrap_prompt = (if truthy_str prompt then bootstrap_for_input state ov else None),
         oi_cycle_origin = if_truthy (or_null (ov_cycle_origin ov) (ds_pending_cycle_origin state)),
         oi_idle_timeout = Some (do_idle_timeout options),
         oi_input_grace_period = Some (do_input_grace_period options),
         oi_snapshot_version = Some (ds_snapshot_version state),
         oi_next_summarize_at = Some (ds_next_summarize_at state),
         oi_retry_count = Some 0,
         oi_task_context = ds_task_context state,
         oi_base_system_message = do_base_system_message options,
         oi_rehydration_message =
           if_truthy (or_null (ov_rehydration_message ov) (ds_pending_rehydration_message state)),
         oi_cron_schedule = ds_cron_schedule state,
         oi_cron_at_schedule = ds_cron_at_schedule state,
         oi_context_usage = ds_context_usage state,
         oi_recent_client_message_ids =
           (if ds_recent_client_message_ids state = [] then JUndef
            else JArr (map JStr (ds_recent_client_message_ids state))),
         oi_observed_sender_keys = if_nonempty (ds_observed_sender_keys state),
         oi_multi_writer = ds_multi_writer state,
         oi_shared_preamble_sent = ds_shared_preamble_sent state,
         oi_owner_display = if_truthy (ds_owner_display state),
         oi_active_timer_state = None,
         oi_waiting_for_agent_ids = ds_waiting_for_agent_ids state,
         oi_pending_input_question = ds_pending_input_question state,
         oi_budget_stash =
           (case ds_budget_stash state of None \<Rightarrow> None | Some stash \<Rightarrow> if_nonempty stash),
         oi_interrupted_wait_timer = ds_interrupted_wait_timer state,
         oi_interrupted_cron_timer = ds_interrupted_cron_timer state,
         oi_pending_child_digest = ds_pending_child_digest state,
         oi_pending_shutdown = ds_pending_shutdown state,
         oi_sub_agents = Some (ds_sub_agents state),
         oi_reported_first_completion = ds_reported_first_completion state,
         oi_pending_tool_actions = if_nonempty (ds_pending_tool_actions state),
         oi_parent_session_id = do_parent_session_id options,
         oi_parent_orch_id = None,
         oi_nesting_level = Some (do_nesting_level options),
         oi_is_system = (if do_is_system options then Some True else None),
         oi_agent_id = if_truthy (oi_agent_id input),
         oi_source_orchestration_version = None\<rparr>)"

definition build_continue_input_with_prompt ::
  "durable_session_runtime \<Rightarrow> string option \<Rightarrow> continue_overrides \<Rightarrow> orchestration_input" where
  "build_continue_input_with_prompt rt next_prompt ov =
     (let extracted = extract_prompt_system_context next_prompt;
          merged_prompt = merge_prompt (ds_pending_prompt (rt_state rt)) (ep_prompt extracted);
          merged_system = merge_prompt (ds_pending_system_prompt (rt_state rt)) (ep_system_prompt extracted)
      in build_continue_input rt
           (ov\<lparr>ov_prompt := or_null (ov_prompt ov) (if_truthy merged_prompt),
               ov_system_prompt := or_null (ov_system_prompt ov) (if_truthy merged_system)\<rparr>))"

section \<open>The active timer\<close>

text \<open>
  \<open>versionedContinueAsNew\<close> puts the timer in the input as a remaining time; \<open>restoreActiveTimer\<close>
  starts it again. The record \<open>active_timer_state\<close> has no \<open>budget\<close> field, and neither function
  copies one.
\<close>

definition capture_timer :: "int \<Rightarrow> active_timer \<Rightarrow> active_timer_state" where
  "capture_timer now t =
     \<lparr>ts_remaining_ms = max 0 (at_deadline_ms t - now), ts_reason = at_reason t, ts_type = at_type t,
      ts_original_duration_ms = Some (at_original_duration_ms t),
      ts_should_rehydrate = at_should_rehydrate t, ts_wait_plan = at_wait_plan t,
      ts_content = if_truthy (at_content t), ts_question = if_truthy (at_question t),
      ts_choices = at_choices t, ts_allow_freeform = at_allow_freeform t, ts_agent_ids = at_agent_ids t\<rparr>"

definition versioned_continue_as_new ::
  "int \<Rightarrow> durable_session_runtime \<Rightarrow> orchestration_input \<Rightarrow> orchestration_input" where
  "versioned_continue_as_new now rt can_input =
     (let with_timer = (case ds_active_timer (rt_state rt) of
            None \<Rightarrow> can_input
          | Some t \<Rightarrow> can_input\<lparr>oi_active_timer_state := Some (capture_timer now t)\<rparr>)
      in with_timer\<lparr>oi_source_orchestration_version := Some (rt_current_version rt)\<rparr>)"

definition restore_timer :: "int \<Rightarrow> active_timer_state \<Rightarrow> active_timer" where
  "restore_timer init_now t =
     \<lparr>at_deadline_ms = init_now + ts_remaining_ms t,
      at_original_duration_ms = coalesce (ts_original_duration_ms t) (ts_remaining_ms t),
      at_reason = ts_reason t, at_type = ts_type t,
      at_should_rehydrate = ts_should_rehydrate t, at_wait_plan = ts_wait_plan t,
      at_content = if_truthy (ts_content t), at_question = if_truthy (ts_question t),
      at_choices = ts_choices t, at_allow_freeform = ts_allow_freeform t,
      at_agent_ids = ts_agent_ids t, at_budget = False\<rparr>"

definition restore_active_timer :: "int \<Rightarrow> orchestration_input \<Rightarrow> durable_session_state \<Rightarrow> durable_session_state" where
  "restore_active_timer init_now input state =
     (case oi_active_timer_state input of
        None \<Rightarrow> state
      | Some t \<Rightarrow> state\<lparr>ds_active_timer := Some (restore_timer init_now t)\<rparr>)"

text \<open>
  \<open>createRuntime\<close> up to its startup gates: options and state from the input, the two response counters
  read back from the key-value store, and the timer. The gates, and the whole of \<open>create_runtime\<close>, are
  in \<open>OrchDrain\<close>.
\<close>

definition build_runtime ::
  "int \<Rightarrow> int \<Rightarrow> int \<Rightarrow> string \<Rightarrow> orchestration_input \<Rightarrow> durable_session_runtime" where
  "build_runtime init_now response_version command_version current_version input =
     (let options = derive_options input;
          state = (create_initial_state input options)
            \<lparr>ds_last_response_version := response_version, ds_last_command_version := command_version\<rparr>
      in \<lparr>rt_input = input, rt_options = options,
          rt_state = restore_active_timer init_now input state, rt_current_version = current_version\<rparr>)"


section \<open>Well-formed runtimes\<close>

lemma or_null_None [simp]: "or_null None b = b" "or_null (Some x) b = Some x"
  by (simp_all add: or_null_def)

lemma coalesce_if_nonempty [simp]: "coalesce (if_nonempty xs) [] = xs"
  by (simp add: if_nonempty_def)

lemma coalesce_if_nonzero [simp]: "coalesce (if_nonzero n) 0 = n"
  by (simp add: if_nonzero_def)

lemma coalesce_Some [simp]: "coalesce (Some x) d = x"
  by simp

definition filled :: "string option \<Rightarrow> bool" where
  "filled x \<longleftrightarrow> x \<noteq> Some []"

lemma if_truthy_filled [simp]: "filled x \<Longrightarrow> if_truthy x = x"
  by (cases x) (auto simp: filled_def if_truthy_def)

lemma if_truthy_nonempty [simp]: "s \<noteq> [] \<Longrightarrow> if_truthy (Some s) = Some s"
  by (simp add: if_truthy_def)

lemma truthy_filled: "filled x \<Longrightarrow> truthy_str x \<longleftrightarrow> x \<noteq> None"
  by (cases x) (auto simp: filled_def)

lemma obj_set_twice [simp]: "obj_set k v (obj_set k w c) = obj_set k v c"
  by (induction c) auto

lemma obj_set_same [simp]: "map_of c k = Some v \<Longrightarrow> obj_set k v c = c"
  by (induction c) (auto split: if_splits)

lemma map_of_obj_set [simp]: "map_of (obj_set k v c) j = (if j = k then Some v else map_of c j)"
  by (induction c) auto

text \<open>The config already carries what \<open>createInitialState\<close> writes into it.\<close>

definition config_settled :: "durable_session_runtime \<Rightarrow> bool" where
  "config_settled rt \<longleftrightarrow>
     initial_config (ds_config (rt_state rt)) (ds_task_context (rt_state rt)) (oi_agent_id (rt_input rt))
       (do_base_system_message (rt_options rt)) = ds_config (rt_state rt)"

lemma initial_config_settles [simp]:
  "initial_config (initial_config c tc a b) tc a b = initial_config c tc a b"
  by (auto simp: initial_config_def Let_def)

definition timer_ok :: "active_timer \<Rightarrow> bool" where
  "timer_ok t \<longleftrightarrow> filled (at_content t) \<and> filled (at_question t)"

text \<open>No optional text is the empty string, and bounded collections are within their bounds.\<close>

definition state_ok :: "durable_session_state \<Rightarrow> bool" where
  "state_ok s \<longleftrightarrow>
     filled (ds_pending_prompt s) \<and> filled (ds_pending_required_tool s) \<and>
     filled (ds_pending_system_prompt s) \<and> filled (ds_runtime_model_notice s) \<and>
     filled (ds_pending_cycle_origin s) \<and> filled (ds_pending_rehydration_message s) \<and>
     filled (ds_owner_display s) \<and> ds_budget_stash s \<noteq> Some [] \<and>
     recent_ok (ds_recent_client_message_ids s) \<and>
     sanitize_prompt_attachment_refs (Some (ds_pending_attachments s)) = ds_pending_attachments s \<and>
     (\<forall>t \<in> set_option (ds_active_timer s). timer_ok t)"

definition runtime_ok :: "durable_session_runtime \<Rightarrow> bool" where
  "runtime_ok rt \<longleftrightarrow>
     state_ok (rt_state rt) \<and> config_settled rt \<and>
     \<not> is_nullish (do_base_system_message (rt_options rt)) \<and>
     do_idle_timeout (rt_options rt) \<noteq> 60"

section \<open>The round trip\<close>

text \<open>What belongs to one execution only, and starts afresh in the next.\<close>

definition execution_local :: "durable_session_state \<Rightarrow> durable_session_state" where
  "execution_local s =
     s\<lparr>ds_loop_iteration := 0, ds_retry_count := 0, ds_active_timer := None,
       ds_last_response_version := 0, ds_last_command_version := 0, ds_last_command_id := None,
       ds_cancelled_message_ids := {}, ds_emitted_cancelled_message_ids := {},
       ds_legacy_pending_message := JUndef, ds_orchestration_result := None\<rparr>"

text \<open>
  What becomes of the pending prompt: a pending one is carried with its attachments and its
  bootstrap mark; with only a system prompt pending, the internal wake-up prompt is put in its place
  as a bootstrap; with nothing pending, no attachment and no mark is carried.
\<close>

definition settle_prompt :: "durable_session_state \<Rightarrow> durable_session_state" where
  "settle_prompt s =
     (if ds_pending_prompt s \<noteq> None then s
      else if ds_pending_system_prompt s \<noteq> None
      then s\<lparr>ds_pending_prompt := Some internal_system_turn_prompt, ds_bootstrap_prompt := True\<rparr>
      else s\<lparr>ds_pending_attachments := [], ds_bootstrap_prompt := False\<rparr>)"

definition resume_timer :: "int \<Rightarrow> int \<Rightarrow> active_timer \<Rightarrow> active_timer" where
  "resume_timer now init_now t =
     t\<lparr>at_deadline_ms := init_now + max 0 (at_deadline_ms t - now), at_budget := False\<rparr>"

lemma restore_capture:
  "timer_ok t \<Longrightarrow> restore_timer init_now (capture_timer now t) = resume_timer now init_now t"
  by (cases t) (simp add: timer_ok_def restore_timer_def capture_timer_def resume_timer_def)

lemma add_fresh_strings_distinct:
  "distinct (acc @ ids) \<Longrightarrow> [] \<notin> set ids \<Longrightarrow> add_fresh_strings acc (map JStr ids) = acc @ ids"
  by (induction ids arbitrary: acc) auto

lemma recent_ids_roundtrip:
  "recent_ok ids \<Longrightarrow>
   slice_last recent_client_message_id_limit (add_fresh_strings [] (map JStr ids)) = ids"
  using add_fresh_strings_distinct [of "[]" ids] by (simp add: recent_ok_def slice_last_all)

lemma sanitize_None [simp]: "sanitize_prompt_attachment_refs None = []"
  by (simp add: sanitize_prompt_attachment_refs_def)

lemma internal_prompt_not_Nil [simp]: "internal_system_turn_prompt \<noteq> []"
  by (simp add: internal_system_turn_prompt_def)

lemma sanitize_if_nonempty [simp]:
  "sanitize_prompt_attachment_refs (if_nonempty as) = sanitize_prompt_attachment_refs (Some as)"
  by (simp add: if_nonempty_def sanitize_prompt_attachment_refs_def)

lemma initial_config_truthy [simp]: "initial_config c tc (if_truthy a) b = initial_config c tc a b"
  by (cases a) (auto simp: initial_config_def if_truthy_def Let_def)

lemma coalesce_stash [simp]:
  "x \<noteq> Some [] \<Longrightarrow> (case x of None \<Rightarrow> None | Some stash \<Rightarrow> if_nonempty stash) = x"
  by (cases x) (auto simp: if_nonempty_def)

lemma build_option_fields:
  "oi_idle_timeout (build_continue_input rt no_overrides) = Some (do_idle_timeout (rt_options rt))"
  "oi_input_grace_period (build_continue_input rt no_overrides) = Some (do_input_grace_period (rt_options rt))"
  "oi_is_system (build_continue_input rt no_overrides) =
     (if do_is_system (rt_options rt) then Some True else None)"
  "oi_parent_session_id (build_continue_input rt no_overrides) = do_parent_session_id (rt_options rt)"
  "oi_parent_orch_id (build_continue_input rt no_overrides) = None"
  "oi_nesting_level (build_continue_input rt no_overrides) = Some (do_nesting_level (rt_options rt))"
  "oi_base_system_message (build_continue_input rt no_overrides) = do_base_system_message (rt_options rt)"
  "oi_config (build_continue_input rt no_overrides) = ds_config (rt_state rt)"
  "oi_task_context (build_continue_input rt no_overrides) = ds_task_context (rt_state rt)"
  "oi_agent_id (build_continue_input rt no_overrides) = if_truthy (oi_agent_id (rt_input rt))"
  "oi_session_id (build_continue_input rt no_overrides) = oi_session_id (rt_input rt)"
  "oi_active_timer_state (build_continue_input rt no_overrides) = None"
  by (simp_all add: build_continue_input_def no_overrides_def Let_def)

lemma options_roundtrip:
  assumes "\<not> is_nullish (do_base_system_message (rt_options rt))" "do_idle_timeout (rt_options rt) \<noteq> 60"
  shows "derive_options (build_continue_input rt no_overrides) = rt_options rt"
  using assms
  by (cases "rt_options rt") (simp add: derive_options_def build_option_fields split: option.split)

lemma state_roundtrip:
  assumes "state_ok (rt_state rt)" "config_settled rt"
  shows "create_initial_state (build_continue_input rt no_overrides) (rt_options rt) =
         execution_local (settle_prompt (rt_state rt))"
proof -
  obtain s where s: "rt_state rt = s" by blast
  have ok: "filled (ds_pending_prompt s)" "filled (ds_pending_required_tool s)"
    "filled (ds_pending_system_prompt s)" "filled (ds_runtime_model_notice s)"
    "filled (ds_pending_cycle_origin s)" "filled (ds_pending_rehydration_message s)"
    "filled (ds_owner_display s)" "ds_budget_stash s \<noteq> Some []"
    "recent_ok (ds_recent_client_message_ids s)"
    "sanitize_prompt_attachment_refs (Some (ds_pending_attachments s)) = ds_pending_attachments s"
    "initial_config (ds_config s) (ds_task_context s) (oi_agent_id (rt_input rt))
       (do_base_system_message (rt_options rt)) = ds_config s"
    using assms by (simp_all add: state_ok_def config_settled_def s)
  note defs = build_continue_input_def create_initial_state_def no_overrides_def Let_def
    execution_local_def settle_prompt_def prompt_for_input_def carried_prompt_def
    carried_system_prompt_def bootstrap_for_input_def recent_ids_roundtrip s
  consider (prompt) p where "ds_pending_prompt s = Some p" "p \<noteq> []"
    | (sys) q where "ds_pending_prompt s = None" "ds_pending_system_prompt s = Some q" "q \<noteq> []"
    | (none) "ds_pending_prompt s = None" "ds_pending_system_prompt s = None"
    using ok(1,3) by (cases "ds_pending_prompt s"; cases "ds_pending_system_prompt s")
      (auto simp: filled_def)
  then show ?thesis
  proof cases
    case prompt
    with ok show ?thesis by (cases s) (simp add: defs)
  next
    case sys
    with ok show ?thesis by (cases s) (simp add: defs)
  next
    case none
    with ok show ?thesis by (cases s) (simp add: defs)
  qed
qed


lemma continued_runtime:
  assumes "runtime_ok rt"
  shows "let rt' = build_runtime init_now rv cv ver
               (versioned_continue_as_new now rt (build_continue_input rt no_overrides))
         in rt_options rt' = rt_options rt \<and>
            rt_state rt' = (execution_local (settle_prompt (rt_state rt)))
              \<lparr>ds_last_response_version := rv, ds_last_command_version := cv,
               ds_active_timer := map_option (resume_timer now init_now) (ds_active_timer (rt_state rt))\<rparr>"
proof -
  let ?i = "build_continue_input rt no_overrides"
  let ?c = "versioned_continue_as_new now rt ?i"
  let ?s = "rt_state rt"
  have ok: "state_ok ?s" "config_settled rt" "\<not> is_nullish (do_base_system_message (rt_options rt))"
    "do_idle_timeout (rt_options rt) \<noteq> 60"
    using assms by (simp_all add: runtime_ok_def)
  have upd: "derive_options (i\<lparr>oi_active_timer_state := a\<rparr>) = derive_options i"
    "derive_options (i\<lparr>oi_source_orchestration_version := v\<rparr>) = derive_options i"
    "create_initial_state (i\<lparr>oi_active_timer_state := a\<rparr>) opts = create_initial_state i opts"
    "create_initial_state (i\<lparr>oi_source_orchestration_version := v\<rparr>) opts = create_initial_state i opts"
    for i a v opts
    by (simp_all add: derive_options_def create_initial_state_def split: option.split)
  have options: "derive_options ?c = rt_options rt"
    using options_roundtrip [OF ok(3,4)]
    by (simp add: versioned_continue_as_new_def Let_def upd split: option.split)
  have state: "create_initial_state ?c (rt_options rt) = execution_local (settle_prompt ?s)"
    using state_roundtrip [OF ok(1,2)]
    by (simp add: versioned_continue_as_new_def Let_def upd split: option.split)
  have timer: "oi_active_timer_state ?c = map_option (capture_timer now) (ds_active_timer ?s)"
    by (simp add: versioned_continue_as_new_def Let_def build_option_fields split: option.split)
  show ?thesis
  proof (cases "ds_active_timer ?s")
    case None
    then show ?thesis
      by (simp add: build_runtime_def options state timer restore_active_timer_def Let_def
          execution_local_def)
  next
    case (Some t)
    then have "timer_ok t" using ok(1) by (simp add: state_ok_def)
    then show ?thesis
      by (simp add: build_runtime_def options state timer restore_active_timer_def Let_def Some
          restore_capture execution_local_def)
  qed
qed

lemma continued_active_timer:
  assumes "runtime_ok rt" "ds_active_timer (rt_state rt) = Some t"
  shows "ds_active_timer (rt_state (build_runtime init_now rv cv ver
           (versioned_continue_as_new now rt (build_continue_input rt no_overrides)))) =
         Some (resume_timer now init_now t)"
  using continued_runtime [OF assms(1), of init_now rv cv ver now] assms(2) by (simp add: Let_def)

text \<open>Two runtimes for concrete instances: a session with a system message, and one without.\<close>

definition demo_runtime :: durable_session_runtime where
  "demo_runtime = build_runtime 0 0 0 ''1.0.79''
     (new_session_input ''s1'' [(''systemMessage'', JStr ''be brief'')])"

definition bare_runtime :: durable_session_runtime where
  "bare_runtime = build_runtime 0 0 0 ''1.0.79'' (new_session_input ''s1'' [])"

lemma demo_runtime_ok: "runtime_ok demo_runtime"
  by (simp add: runtime_ok_def state_ok_def config_settled_def demo_runtime_def build_runtime_def
      new_session_input_def create_initial_state_def derive_options_def restore_active_timer_def
      initial_config_def filled_def recent_ok_def Let_def sanitize_prompt_attachment_refs_def)

lemma bare_runtime_fields:
  "config_settled bare_runtime \<and> do_base_system_message (rt_options bare_runtime) = JUndef \<and>
   ds_task_context (rt_state bare_runtime) = None"
  by (simp add: config_settled_def bare_runtime_def build_runtime_def
      new_session_input_def create_initial_state_def derive_options_def restore_active_timer_def
      initial_config_def Let_def)

section \<open>The task context\<close>

definition ensure_task_context :: "string option \<Rightarrow> durable_session_runtime \<Rightarrow> durable_session_runtime" where
  "ensure_task_context source_prompt rt =
     (let s = rt_state rt
      in if truthy_str (ds_task_context s) \<or> \<not> truthy_str source_prompt then rt
         else let task_context = take 2000 (the source_prompt)
              in rt\<lparr>rt_state := s\<lparr>ds_task_context := Some task_context,
                   ds_config := obj_set ''systemMessage''
                     (JStr (recurring_task_message (do_base_system_message (rt_options rt)) task_context))
                     (ds_config s)\<rparr>\<rparr>)"

lemma obj_set_swap: "k \<noteq> j \<Longrightarrow> map_of c j = Some w \<Longrightarrow> obj_set j w (obj_set k v c) = obj_set k v c"
  by (rule obj_set_same) simp

lemma ensure_task_context_settled:
  assumes "config_settled rt"
  shows "config_settled (ensure_task_context source_prompt rt)"
proof (cases "truthy_str (ds_task_context (rt_state rt)) \<or> \<not> truthy_str source_prompt")
  case True
  then show ?thesis using assms by (simp add: ensure_task_context_def Let_def)
next
  case False
  let ?a = "oi_agent_id (rt_input rt)"
  have agent: "map_of (ds_config (rt_state rt)) ''agentIdentity'' = Some (JStr (the ?a))"
    if "truthy_str ?a"
  proof -
    have "obj_set ''agentIdentity'' (JStr (the ?a)) (ds_config (rt_state rt)) = ds_config (rt_state rt)"
      using assms False that by (simp add: config_settled_def initial_config_def)
    then show ?thesis by (metis map_of_obj_set)
  qed
  have "take 2000 (the source_prompt) \<noteq> []" using False by (cases source_prompt) auto
  then show ?thesis
    using False agent
    by (auto simp: ensure_task_context_def Let_def config_settled_def initial_config_def obj_set_same)
qed

text \<open>
  When a session starts with no system message at all, the recurring-task text is in the prompt
  once after the first schedule action and twice after the next continue-as-new: the carried base is
  undefined, so the next execution takes the config's system message, which already has the text, as
  its base.
\<close>

theorem recurring_task_doubled:
  assumes "config_settled rt" "do_base_system_message (rt_options rt) = JUndef"
    "\<not> truthy_str (ds_task_context (rt_state rt))" "truthy_str source_prompt"
  shows "let rt1 = ensure_task_context source_prompt rt;
             rt2 = build_runtime init_now rv cv ver
               (versioned_continue_as_new now rt1 (build_continue_input rt1 no_overrides));
             task = recurring_task_message JUndef (take 2000 (the source_prompt))
         in jget ''systemMessage'' (JObj (ds_config (rt_state rt1))) = JStr task \<and>
            jget ''systemMessage'' (JObj (ds_config (rt_state rt2))) = JStr (task @ blank_line @ task)"
proof -
  let ?t = "take 2000 (the source_prompt)"
  let ?task = "recurring_task_message JUndef ?t"
  let ?rt1 = "ensure_task_context source_prompt rt"
  let ?c = "versioned_continue_as_new now ?rt1 (build_continue_input ?rt1 no_overrides)"
  have t: "?t \<noteq> []" using assms(4) by (cases source_prompt) auto
  have task: "?task \<noteq> []" by (simp add: recurring_task_message_def Let_def)
  have rt1: "ds_task_context (rt_state ?rt1) = Some ?t" "rt_options ?rt1 = rt_options rt"
    "ds_config (rt_state ?rt1) = obj_set ''systemMessage'' (JStr ?task) (ds_config (rt_state rt))"
    using assms by (auto simp: ensure_task_context_def Let_def)
  have c: "oi_config ?c = ds_config (rt_state ?rt1)" "oi_task_context ?c = Some ?t"
    "oi_base_system_message ?c = JUndef"
    using assms(2) rt1
    by (simp_all add: versioned_continue_as_new_def Let_def build_option_fields split: option.split)
  have base: "do_base_system_message (derive_options ?c) = JStr ?task"
    by (simp add: derive_options_def c rt1)
  have rec: "recurring_task_message (JStr ?task) ?t = ?task @ blank_line @ ?task"
    using task by (simp add: recurring_task_message_def base_text_def Let_def)
  have "map_of (ds_config (create_initial_state ?c (derive_options ?c))) ''systemMessage'' =
        Some (JStr (?task @ blank_line @ ?task))"
    using t by (simp add: create_initial_state_def initial_config_def c base rec Let_def)
  moreover have "ds_config (restore_active_timer n i s) = ds_config s" for n i s
    by (simp add: restore_active_timer_def split: option.split)
  ultimately show ?thesis
    by (simp add: build_runtime_def Let_def rt1)
qed

theorem recurring_task_doubled_witness:
  "let rt1 = ensure_task_context (Some ''poll'') bare_runtime;
       rt2 = build_runtime 0 0 0 ''1.0.79''
               (versioned_continue_as_new 0 rt1 (build_continue_input rt1 no_overrides));
       task = recurring_task_message JUndef ''poll''
   in jget ''systemMessage'' (JObj (ds_config (rt_state rt2))) = JStr (task @ blank_line @ task)"
  using recurring_task_doubled [of bare_runtime "Some ''poll''" 0 0 0 "''1.0.79''" 0] bare_runtime_fields
  by (simp add: Let_def)

end
