(* ===== verification/ChildNotifications.thy ===== *)
theory ChildNotifications
  imports Prelude
begin

text \<open>
  Child notification policy (\<open>packages/sdk/src/child-notifications.ts\<close>): normalising the
  \<open>wakeOn\<close> contract field, classifying a child update, and deciding whether one update or a
  buffered digest wakes the parent session.
\<close>

section \<open>Policies, classifications, updates\<close>

datatype child_wake_policy = WakeAny | MaterialChange | Completion

datatype child_update_classification = Heartbeat | Material | CompletionUpdate | ErrorUpdate | Unknown

datatype child_update_kind = Completed | Wait | Progress | Error | Cancelled

text \<open>
  The flags stay untyped: the code compares them with \<open>=== true\<close> and \<open>=== false\<close> because the
  update has been through JSON.
\<close>

record child_update_snapshot =
  cu_kind :: child_update_kind
  cu_summary :: "string option"
  cu_result :: jsval
  cu_material :: jsval
  cu_cyclic :: jsval
  cu_wait_is_heartbeat :: jsval

fun policy_text :: "child_wake_policy \<Rightarrow> string" where
  "policy_text WakeAny = ''any''"
| "policy_text MaterialChange = ''material_change''"
| "policy_text Completion = ''completion''"

fun classification_text :: "child_update_classification \<Rightarrow> string" where
  "classification_text Heartbeat = ''heartbeat''"
| "classification_text Material = ''material''"
| "classification_text CompletionUpdate = ''completion''"
| "classification_text ErrorUpdate = ''error''"
| "classification_text Unknown = ''unknown''"

definition default_child_wake_policy :: child_wake_policy where
  "default_child_wake_policy = MaterialChange"

section \<open>Operations\<close>

fun normalize_wake_on :: "jsval \<Rightarrow> child_wake_policy" where
  "normalize_wake_on (JStr value) =
     (let lower = to_lower (trim value)
      in if lower = ''any'' then WakeAny
         else if lower = ''material_change'' then MaterialChange
         else if lower = ''completion'' then Completion
         else if lower = ''always'' \<or> lower = ''all'' then WakeAny
         else if lower = ''material'' \<or> lower = ''change'' then MaterialChange
         else if lower = ''done'' \<or> lower = ''finished'' then Completion
         else default_child_wake_policy)"
| "normalize_wake_on _ = default_child_wake_policy"

definition read_wake_on :: "jsval \<Rightarrow> child_wake_policy" where
  "read_wake_on contract =
     (case contract of
        JObj _ \<Rightarrow> normalize_wake_on (jget ''wakeOn'' contract)
      | JArr _ \<Rightarrow> normalize_wake_on (jget ''wakeOn'' contract)
      | _ \<Rightarrow> default_child_wake_policy)"

definition heartbeat_phrases :: "string list" where
  "heartbeat_phrases =
     [''no change'', ''no changes'', ''no drift'', ''no new change'', ''no new changes'',
      ''no new reportable change'', ''no new reportable changes'', ''no update'', ''no updates'',
      ''nothing to report'', ''nothing new'', ''cycle quiet'', ''quiet cycle'',
      ''still watching'', ''still monitoring'', ''no material change'', ''no material changes'',
      ''heartbeat'', ''unchanged'', ''no_change'']"

definition is_heartbeat_text :: "string option \<Rightarrow> bool" where
  "is_heartbeat_text text =
     (case text of
        None \<Rightarrow> False
      | Some t \<Rightarrow>
          if t = [] then False
          else let trimmed = to_lower (trim t)
               in trimmed = [] \<or> trimmed \<in> set heartbeat_phrases \<or>
                  (\<exists>h \<in> set heartbeat_phrases. trimmed = h @ ''.'' \<or> trimmed = h @ ''!''))"

definition terminal_verdicts :: "string list" where
  "terminal_verdicts = [''success'', ''partial'', ''blocked'', ''failed'', ''cancelled'', ''timed_out'']"

text \<open>\<open>/^\s*QUESTION FOR PARENT:/i\<close>\<close>

definition is_question_for_parent :: "string \<Rightarrow> bool" where
  "is_question_for_parent s = starts_with ''question for parent:'' (to_lower (trim_start s))"

definition quiet_hints :: "string list" where
  "quiet_hints = [''heartbeat'', ''unchanged'', ''no_change'']"

definition classify_child_update :: "child_update_snapshot \<Rightarrow> child_update_classification" where
  "classify_child_update u =
     (let verdict = jget ''verdict'' (cu_result u)
      in if cu_kind u = Error then ErrorUpdate
         else if cu_kind u = Cancelled then CompletionUpdate
         else if cu_kind u = Wait \<and> cu_wait_is_heartbeat u = JBool True then
           (if cu_material u = JBool True then Material
            else if is_question_for_parent (coalesce (cu_summary u) []) then Material
            else case verdict of
                   JStr v \<Rightarrow> if v \<noteq> [] \<and> to_lower v \<notin> set quiet_hints then Material else Heartbeat
                 | _ \<Rightarrow> Heartbeat)
         else if cu_kind u = Completed then
           (if (case verdict of JStr v \<Rightarrow> v \<in> set terminal_verdicts | _ \<Rightarrow> False)
            then CompletionUpdate
            else if cu_material u = JBool True then Material
            else if cu_cyclic u = JBool True then Heartbeat
            else if cu_material u = JBool False \<and> is_heartbeat_text (cu_summary u)
            then Heartbeat else Material)
         else if cu_material u = JBool True then Material
         else if cu_material u = JBool False then Heartbeat
         else if (case verdict of JStr v \<Rightarrow> to_lower v \<in> set quiet_hints | _ \<Rightarrow> False) then Heartbeat
         else if is_heartbeat_text (cu_summary u) then Heartbeat
         else if \<not> truthy_str (cu_summary u) then Unknown
         else Material)"

record parent_wake_decision_input =
  pw_update :: child_update_snapshot
  pw_contract :: jsval

record parent_wake_decision =
  wake :: bool
  wd_policy :: child_wake_policy
  wd_classification :: child_update_classification
  wd_reason :: string

definition should_wake_parent_for_child_update ::
  "parent_wake_decision_input \<Rightarrow> parent_wake_decision" where
  "should_wake_parent_for_child_update input =
     (let policy = read_wake_on (pw_contract input);
          classification = classify_child_update (pw_update input)
      in if policy = WakeAny then
           \<lparr>wake = True, wd_policy = policy, wd_classification = classification,
            wd_reason = ''policy=any''\<rparr>
         else if policy = Completion then
           (if classification = CompletionUpdate \<or> classification = ErrorUpdate then
              \<lparr>wake = True, wd_policy = policy, wd_classification = classification,
               wd_reason = ''policy=completion classification='' @ classification_text classification\<rparr>
            else
              \<lparr>wake = False, wd_policy = policy, wd_classification = classification,
               wd_reason = ''policy=completion classification='' @ classification_text classification\<rparr>)
         else if classification = Heartbeat then
           \<lparr>wake = False, wd_policy = policy, wd_classification = classification,
            wd_reason = ''policy=material_change classification=heartbeat''\<rparr>
         else
           \<lparr>wake = True, wd_policy = policy, wd_classification = classification,
            wd_reason = ''policy=material_change classification='' @ classification_text classification\<rparr>)"

text \<open>The loop over a digest: the first decision that wakes, else the first decision.\<close>

fun digest_loop ::
  "parent_wake_decision option \<Rightarrow> parent_wake_decision_input list \<Rightarrow> parent_wake_decision option" where
  "digest_loop first_heartbeat [] = first_heartbeat"
| "digest_loop first_heartbeat (u # us) =
     (let d = should_wake_parent_for_child_update u
      in if wake d then Some d
         else digest_loop (if first_heartbeat = None then Some d else first_heartbeat) us)"

definition should_wake_parent_for_child_digest ::
  "parent_wake_decision_input list \<Rightarrow> parent_wake_decision" where
  "should_wake_parent_for_child_digest updates =
     (let empty = \<lparr>wake = False, wd_policy = default_child_wake_policy,
                   wd_classification = Unknown, wd_reason = ''empty digest''\<rparr>
      in if updates = [] then empty
         else case digest_loop None updates of Some d \<Rightarrow> d | None \<Rightarrow> empty)"

section \<open>Properties\<close>

text \<open>The update's decision in terms of its policy and classification alone.\<close>

lemma wake_update_iff:
  "wake (should_wake_parent_for_child_update i) \<longleftrightarrow>
     (case read_wake_on (pw_contract i) of
        WakeAny \<Rightarrow> True
      | Completion \<Rightarrow> classify_child_update (pw_update i) \<in> {CompletionUpdate, ErrorUpdate}
      | MaterialChange \<Rightarrow> classify_child_update (pw_update i) \<noteq> Heartbeat)"
  by (auto simp: should_wake_parent_for_child_update_def Let_def split: child_wake_policy.splits)

text \<open>An update that carries the end of a child: an error, a cancellation, a terminal verdict.\<close>

definition is_terminal_update :: "child_update_snapshot \<Rightarrow> bool" where
  "is_terminal_update u \<longleftrightarrow> cu_kind u \<in> {Error, Cancelled} \<or>
     cu_kind u = Completed \<and> (\<exists>v \<in> set terminal_verdicts. jget ''verdict'' (cu_result u) = JStr v)"

lemma classify_terminal:
  "is_terminal_update u \<longleftrightarrow> classify_child_update u \<in> {CompletionUpdate, ErrorUpdate}"
  by (auto simp: is_terminal_update_def classify_child_update_def Let_def
      split: jsval.splits if_splits)

text \<open>
  No policy hides the end of a child: an update that reports an error, a cancellation or a
  completed turn with a terminal verdict wakes the parent whatever the contract says, and under
  the policy "completion" nothing else does.
\<close>

theorem terminal_updates_always_wake:
  "(is_terminal_update (pw_update i) \<longrightarrow> wake (should_wake_parent_for_child_update i)) \<and>
   (read_wake_on (pw_contract i) = Completion \<longrightarrow>
      wake (should_wake_parent_for_child_update i) = is_terminal_update (pw_update i))"
  by (auto simp: wake_update_iff classify_terminal split: child_wake_policy.splits)

theorem terminal_updates_always_wake_witness:
  "let u = \<lparr>cu_kind = Completed, cu_summary = Some ''done'',
            cu_result = JObj [(''verdict'', JStr ''failed'')], cu_material = JUndef,
            cu_cyclic = JBool True, cu_wait_is_heartbeat = JUndef\<rparr>;
       i = \<lparr>pw_update = u, pw_contract = JObj [(''wakeOn'', JStr '' Finished '')]\<rparr>
   in is_terminal_update u \<and> read_wake_on (pw_contract i) = Completion \<and>
      wake (should_wake_parent_for_child_update i)"
proof -
  let ?u = "\<lparr>cu_kind = Completed, cu_summary = Some ''done'',
            cu_result = JObj [(''verdict'', JStr ''failed'')], cu_material = JUndef,
            cu_cyclic = JBool True, cu_wait_is_heartbeat = JUndef\<rparr>"
  let ?i = "\<lparr>pw_update = ?u, pw_contract = JObj [(''wakeOn'', JStr '' Finished '')]\<rparr>"
  have t: "is_terminal_update ?u"
    by (simp add: is_terminal_update_def terminal_verdicts_def)
  have p: "read_wake_on (pw_contract ?i) = Completion"
    by code_simp
  from t p terminal_updates_always_wake [of ?i] show ?thesis by simp
qed

text \<open>
  A quiet cycle of a recurring child, that is a completed cron turn with no terminal verdict
  and no explicit material flag, wakes the parent only under the policy "any", whatever its
  prose says; and only the boolean \<open>true\<close> can make an update cyclic.
\<close>

theorem quiet_cycle_suppressed:
  assumes "cu_kind (pw_update i) = Completed" and "\<not> is_terminal_update (pw_update i)"
    and "cu_material (pw_update i) \<noteq> JBool True"
  shows "if cu_cyclic (pw_update i) = JBool True
     then wake (should_wake_parent_for_child_update i) = (read_wake_on (pw_contract i) = WakeAny)
     else cu_material (pw_update i) \<noteq> JBool False \<longrightarrow>
       wake (should_wake_parent_for_child_update i) = (read_wake_on (pw_contract i) \<noteq> Completion)"
  using assms
  by (auto simp: wake_update_iff classify_child_update_def is_terminal_update_def Let_def
      split: child_wake_policy.splits jsval.splits if_splits)

theorem quiet_cycle_suppressed_witness:
  "let u = \<lparr>cu_kind = Completed, cu_summary = Some ''I checked everything again'',
            cu_result = JUndef, cu_material = JUndef, cu_cyclic = JBool True,
            cu_wait_is_heartbeat = JUndef\<rparr>
   in \<not> wake (should_wake_parent_for_child_update \<lparr>pw_update = u, pw_contract = JNull\<rparr>)"
proof -
  let ?u = "\<lparr>cu_kind = Completed, cu_summary = Some ''I checked everything again'',
            cu_result = JUndef, cu_material = JUndef, cu_cyclic = JBool True,
            cu_wait_is_heartbeat = JUndef\<rparr>"
  let ?i = "\<lparr>pw_update = ?u, pw_contract = JNull\<rparr>"
  have "\<not> is_terminal_update (pw_update ?i)" by (simp add: is_terminal_update_def)
  from quiet_cycle_suppressed [of ?i, OF _ this]
  show ?thesis by (simp add: read_wake_on_def default_child_wake_policy_def)
qed

lemma digest_loop_spec:
  "digest_loop f us =
     (case find wake (map should_wake_parent_for_child_update us) of
        Some d \<Rightarrow> Some d
      | None \<Rightarrow> if f = None \<and> us \<noteq> [] then Some (should_wake_parent_for_child_update (hd us)) else f)"
  by (induction us arbitrary: f) (auto simp: Let_def split: option.splits)

text \<open>
  A buffered digest wakes the parent exactly when at least one of its updates would wake it
  on its own (so an empty or heartbeat-only batch never interrupts a waiting parent), and a
  waking decision reported for the digest is the decision of the first such update.
\<close>

theorem digest_wakes_iff_some_update_wakes:
  "wake (should_wake_parent_for_child_digest us) =
     (\<exists>u \<in> set us. wake (should_wake_parent_for_child_update u)) \<and>
   (case find wake (map should_wake_parent_for_child_update us) of
      None \<Rightarrow> \<not> wake (should_wake_parent_for_child_digest us)
    | Some d \<Rightarrow> should_wake_parent_for_child_digest us = d)"
proof (cases "find wake (map should_wake_parent_for_child_update us)")
  case None
  then have "\<forall>u \<in> set us. \<not> wake (should_wake_parent_for_child_update u)"
    by (auto simp: find_None_iff)
  with None show ?thesis
    by (cases us) (auto simp: should_wake_parent_for_child_digest_def digest_loop_spec)
next
  case (Some d)
  then have "wake d" "d \<in> set (map should_wake_parent_for_child_update us)" "us \<noteq> []"
    by (auto simp: find_Some_iff)
  with Some show ?thesis
    by (auto simp: should_wake_parent_for_child_digest_def digest_loop_spec)
qed

end
