(* ===== verification/OrchChildren.thy ===== *)
theory OrchChildren
  imports OrchContinue ChildNotifications
begin

text \<open>
  What a parent session keeps of its children: parsing a child's update message
  (\<open>packages/sdk/src/orchestration/agents.ts\<close>), applying it to the tracked sub-agent, buffering it in
  the pending digest (\<open>lifecycle.ts\<close>), and when the digest is due (\<open>queue.ts\<close>). Shown: what the digest
  holds of any run of updates, that a terminal report survives later noise, when a digest wakes the
  parent, and that a wait on children ends exactly when all of them are settled.

  The status probe (\<open>getSessionStatus\<close>) is an argument: \<open>None\<close> when it throws, else the parsed value.
\<close>

section \<open>Statuses\<close>

definition is_sub_agent_terminal_status :: "string \<Rightarrow> bool" where
  "is_sub_agent_terminal_status status \<longleftrightarrow> status \<in> {''completed'', ''failed'', ''cancelled''}"

definition get_child_result_from_status :: "jsval \<Rightarrow> string option \<Rightarrow> string option" where
  "get_child_result_from_status child previous =
     (case jget ''result'' child of
        JStr r \<Rightarrow>
          if r = [] then previous
          else if jget ''resultSource'' child = JStr ''orchestration'' then previous
          else Some r
      | _ \<Rightarrow> previous)"

definition is_agent_wait_settled_status :: "string \<Rightarrow> bool" where
  "is_agent_wait_settled_status status \<longleftrightarrow>
     is_sub_agent_terminal_status status \<or> status = ''idle'' \<or> status = ''input_required''"

section \<open>Parsing an update\<close>

record child_update =
  chu_session_id :: string
  chu_update_type :: string
  chu_content :: string
  chu_cycle_origin :: "string option"
  chu_cycle_status :: "string option"
  chu_verdict :: "string option"

text \<open>The non-empty tokens of \<open>s.split(/\s+/)\<close>; the code skips an empty token.\<close>

fun tokens_from :: "string \<Rightarrow> string \<Rightarrow> string list" where
  "tokens_from cur [] = (if cur = [] then [] else [rev cur])"
| "tokens_from cur (c # cs) =
     (if is_ws c then (if cur = [] then tokens_from [] cs else rev cur # tokens_from [] cs)
      else tokens_from (c # cur) cs)"

text \<open>The header's fields: a token without \<open>=\<close> or without a key is skipped, the last value of a key wins.\<close>

definition set_field :: "string \<Rightarrow> (string \<rightharpoonup> string) \<Rightarrow> (string \<rightharpoonup> string)" where
  "set_field token fs =
     (case split_on CHR ''='' token of
        key # rest \<Rightarrow> if key = [] \<or> rest = [] then fs else fs(key \<mapsto> join ''='' rest)
      | [] \<Rightarrow> fs)"

definition one_of :: "string list \<Rightarrow> string option \<Rightarrow> string option" where
  "one_of allowed v = (case v of Some s \<Rightarrow> if s \<in> set allowed then Some s else None | None \<Rightarrow> None)"

definition update_tag :: string where "update_tag = ''[CHILD_UPDATE''"

text \<open>
  \<open>/^\[CHILD_UPDATE\s+([^\]]+)\]/\<close>: the captured header. Where the header is only white space the
  code goes on with no field, and returns null like here.
\<close>

definition update_header :: "string \<Rightarrow> string option" where
  "update_header s =
     (let r = drop (length update_tag) s
      in if starts_with update_tag s \<and> r \<noteq> [] \<and> is_ws (hd r) \<and> CHR '']'' \<in> set r
         then Some (takeWhile (\<lambda>c. c \<noteq> CHR '']'') r) else None)"

definition parse_child_update :: "string option \<Rightarrow> child_update option" where
  "parse_child_update prompt_text =
     (case Option.bind prompt_text update_header of
        None \<Rightarrow> None
      | Some header \<Rightarrow>
          let fs = fold set_field (tokens_from [] header) Map.empty;
              session_id = coalesce (fs ''from'') [];
              update_type = coalesce (fs ''type'') []
          in if session_id = [] \<or> update_type = [] then None
             else Some \<lparr>chu_session_id = session_id, chu_update_type = update_type,
               chu_content = trim (join [CHR 0x0A] (drop 1 (split_on (CHR 0x0A) (the prompt_text)))),
               chu_cycle_origin = one_of [''cron'', ''cron_at''] (fs ''cycle''),
               chu_cycle_status = one_of [''quiet'', ''material'', ''blocked''] (fs ''status''),
               chu_verdict = one_of terminal_verdicts (fs ''verdict'')\<rparr>)"

section \<open>Tracked sub-agents\<close>

definition find_tracked_agent_by_orch_id :: "sub_agent_entry list \<Rightarrow> string \<Rightarrow> sub_agent_entry option" where
  "find_tracked_agent_by_orch_id sub_agents orch_id = List.find (\<lambda>a. sa_orch_id a = orch_id) sub_agents"

definition are_tracked_agents_terminal :: "sub_agent_entry list \<Rightarrow> string list \<Rightarrow> bool" where
  "are_tracked_agents_terminal sub_agents agent_ids =
     list_all (\<lambda>i. case find_tracked_agent_by_orch_id sub_agents i of
         Some a \<Rightarrow> is_sub_agent_terminal_status (sa_status a) | None \<Rightarrow> False) agent_ids"

definition get_still_running_agent_ids :: "sub_agent_entry list \<Rightarrow> string list \<Rightarrow> string list" where
  "get_still_running_agent_ids sub_agents agent_ids =
     filter (\<lambda>i. case find_tracked_agent_by_orch_id sub_agents i of
         Some a \<Rightarrow> \<not> is_sub_agent_terminal_status (sa_status a) | None \<Rightarrow> False) agent_ids"

text \<open>What the probe adds to an agent whose update has been applied.\<close>

definition probed_status :: "string \<Rightarrow> string \<Rightarrow> jsval \<Rightarrow> string" where
  "probed_status update_type status parsed =
     (let p = jget ''status'' parsed
      in if p = JStr ''failed'' then ''failed''
         else if p = JStr ''completed'' then ''completed''
         else if p = JStr ''cancelled'' then ''cancelled''
         else if p = JStr ''waiting'' \<and> update_type \<noteq> ''completed'' then ''waiting''
         else if p = JStr ''idle'' \<and> \<not> is_sub_agent_terminal_status status \<and> update_type \<noteq> ''completed''
         then ''idle''
         else if p = JStr ''input_required'' \<and> \<not> is_sub_agent_terminal_status status
         then ''input_required''
         else status)"

definition updated_agent :: "child_update \<Rightarrow> jsval option \<Rightarrow> sub_agent_entry \<Rightarrow> sub_agent_entry" where
  "updated_agent update probe agent =
     (let result = (if chu_content update \<noteq> [] then Some (take 2000 (chu_content update))
                    else sa_result agent);
          ty = chu_update_type update;
          status = (if ty = ''completed'' then ''completed''
                    else if ty = ''cancelled'' \<or> ty = ''deleted'' then ''cancelled''
                    else if ty = ''failed'' then ''failed'' else sa_status agent);
          a = agent\<lparr>sa_result := result, sa_expects_report := False, sa_status := status\<rparr>
      in case probe of
           None \<Rightarrow> a
         | Some JNull \<Rightarrow> a
         | Some parsed \<Rightarrow>
             a\<lparr>sa_status := probed_status ty status parsed,
               sa_result := map_option (take 2000) (get_child_result_from_status parsed result)\<rparr>)"

text \<open>\<open>applyChildUpdate\<close>: the first agent of that session, changed in place; an untracked one is ignored.\<close>

fun update_first :: "('a \<Rightarrow> bool) \<Rightarrow> ('a \<Rightarrow> 'a) \<Rightarrow> 'a list \<Rightarrow> 'a list" where
  "update_first P f [] = []"
| "update_first P f (x # xs) = (if P x then f x # xs else x # update_first P f xs)"

definition apply_child_update ::
  "child_update \<Rightarrow> jsval option \<Rightarrow> durable_session_state \<Rightarrow> bool \<times> durable_session_state" where
  "apply_child_update update probe state =
     (if \<not> list_ex (\<lambda>a. sa_session_id a = chu_session_id update) (ds_sub_agents state) then (False, state)
      else (True, state\<lparr>ds_sub_agents :=
        update_first (\<lambda>a. sa_session_id a = chu_session_id update) (updated_agent update probe)
          (ds_sub_agents state)\<rparr>))"

section \<open>Waiting for children\<close>

definition describe_status :: "sub_agent_entry \<Rightarrow> string" where
  "describe_status agent =
     (if sa_status agent = ''idle'' then
        ''idle '' @ em_dash @ '' went quiet after answering; treat its last message as its result '' @
        ''(message_agent to re-task it, complete_agent to finish it)''
      else if sa_status agent = ''input_required'' then
        ''input_required '' @ em_dash @ '' blocked waiting for an answer; relay the question to the user '' @
        ''or answer it via message_agent''
      else sa_status agent)"

definition agent_summary :: "sub_agent_entry \<Rightarrow> string" where
  "agent_summary agent = join [CHR 0x0A]
     [''  - Agent '' @ sa_orch_id agent,
      ''    Task: '' @ [CHR 0x22] @ take 120 (sa_task agent) @ [CHR 0x22],
      ''    Status: '' @ describe_status agent,
      ''    Result: '' @ coalesce (sa_result agent) ''(no result)'']"

definition build_wait_for_agents_followup :: "sub_agent_entry list \<Rightarrow> string list \<Rightarrow> string" where
  "build_wait_for_agents_followup sub_agents target_ids =
     (let summaries = map agent_summary
            (concat (map (\<lambda>i. case find_tracked_agent_by_orch_id sub_agents i of
                None \<Rightarrow> [] | Some a \<Rightarrow> [a]) target_ids))
      in case summaries of
           [] \<Rightarrow> ''[SYSTEM: No tracked sub-agents produced a completion summary.]''
         | [s] \<Rightarrow> ''[SYSTEM: Sub-agent completed. If the user asked you to relay the child'' @ [CHR 0x27] @
                  ''s final output, return the single sub-agent Result text verbatim.'' @ [CHR 0x0A] @ s @ '']''
         | _ \<Rightarrow> ''[SYSTEM: Sub-agents completed:'' @ [CHR 0x0A] @ join [CHR 0x0A] summaries @ '']'')"

definition queue_followup :: "string \<Rightarrow> durable_session_state \<Rightarrow> durable_session_state" where
  "queue_followup next_prompt state =
     (let trimmed = trim next_prompt;
          followup = (if starts_with system_open trimmed \<and> ends_with '']'' trimmed
                      then strip_system trimmed else next_prompt)
      in state\<lparr>ds_pending_prompt := merge_prompt (ds_pending_prompt state) (Some followup)\<rparr>)"

definition clear_pending_child_digest :: "durable_session_state \<Rightarrow> durable_session_state" where
  "clear_pending_child_digest state = state\<lparr>ds_pending_child_digest := None\<rparr>"

text \<open>
  \<open>maybeResolveAgentWaitCompletion\<close>. With a shutdown pending the session is finalized instead
  (\<open>finalizePendingShutdown\<close>, in theory \<open>OrchShutdown\<close>), which the outcome says.
\<close>

datatype wait_resolution = Still_waiting | Finalize_shutdown | Wait_resolved durable_session_state

definition agent_settled :: "sub_agent_entry list \<Rightarrow> string \<Rightarrow> bool" where
  "agent_settled sub_agents target =
     (case find_tracked_agent_by_orch_id sub_agents target of
        Some a \<Rightarrow> is_agent_wait_settled_status (sa_status a) | None \<Rightarrow> True)"

definition maybe_resolve_agent_wait_completion :: "durable_session_state \<Rightarrow> wait_resolution" where
  "maybe_resolve_agent_wait_completion state =
     (case ds_waiting_for_agent_ids state of
        None \<Rightarrow> Still_waiting
      | Some targets \<Rightarrow>
          if \<not> list_all (agent_settled (ds_sub_agents state)) targets then Still_waiting
          else if ds_pending_shutdown state \<noteq> None then Finalize_shutdown
          else Wait_resolved
            (clear_pending_child_digest
               (queue_followup (build_wait_for_agents_followup (ds_sub_agents state) targets) state)
               \<lparr>ds_waiting_for_agent_ids := None, ds_active_timer := None\<rparr>))"

section \<open>The pending digest\<close>

definition child_update_rank :: "string \<Rightarrow> nat" where
  "child_update_rank update_type =
     (if update_type \<in> {''failed'', ''cancelled'', ''deleted'', ''completed''} then 2 else 1)"

definition digest_entry :: "child_update \<Rightarrow> int \<Rightarrow> child_update_entry" where
  "digest_entry update observed_at_ms =
     \<lparr>ue_session_id = chu_session_id update, ue_update_type = chu_update_type update,
      ue_content = (if chu_content update \<noteq> [] then Some (take 2000 (chu_content update)) else None),
      ue_cycle_origin = if_truthy (chu_cycle_origin update),
      ue_cycle_status = if_truthy (chu_cycle_status update),
      ue_verdict = if_truthy (chu_verdict update), ue_observed_at_ms = observed_at_ms\<rparr>"

definition buffer_entry :: "child_update_entry \<Rightarrow> child_update_entry list \<Rightarrow> child_update_entry list" where
  "buffer_entry next_entry updates =
     (if list_ex (\<lambda>e. ue_session_id e = ue_session_id next_entry) updates then
        update_first (\<lambda>e. ue_session_id e = ue_session_id next_entry)
          (\<lambda>existing. if child_update_rank (ue_update_type next_entry) \<ge> child_update_rank (ue_update_type existing)
                      then next_entry else existing) updates
      else updates @ [next_entry])"

definition buffer_child_update ::
  "child_update \<Rightarrow> int \<Rightarrow> durable_session_state \<Rightarrow> durable_session_state" where
  "buffer_child_update update observed_at_ms state =
     (let digest = coalesce (ds_pending_child_digest state)
            \<lparr>cd_started_at_ms = observed_at_ms, cd_ready = False, cd_updates = []\<rparr>
      in state\<lparr>ds_pending_child_digest :=
           Some (digest\<lparr>cd_updates := buffer_entry (digest_entry update observed_at_ms) (cd_updates digest)\<rparr>)\<rparr>)"

definition pending_child_digest_has_error :: "durable_session_state \<Rightarrow> bool" where
  "pending_child_digest_has_error state =
     (case ds_pending_child_digest state of
        None \<Rightarrow> False
      | Some d \<Rightarrow> list_ex (\<lambda>e. ue_update_type e \<in> {''failed'', ''cancelled'', ''deleted''}) (cd_updates d))"

definition digest_line :: "sub_agent_entry list \<Rightarrow> child_update_entry \<Rightarrow> string" where
  "digest_line sub_agents update =
     (let agent = List.find (\<lambda>a. sa_session_id a = ue_session_id update) sub_agents;
          label = (case agent of Some a \<Rightarrow> sa_orch_id a | None \<Rightarrow> ue_session_id update);
          task = (case agent of
                    Some a \<Rightarrow> if sa_task a \<noteq> []
                      then ''Task: '' @ [CHR 0x22] @ take 120 (sa_task a) @ [CHR 0x22, CHR 0x0A] else []
                  | None \<Rightarrow> []);
          status = (case agent of Some a \<Rightarrow> sa_status a | None \<Rightarrow> ue_update_type update);
          result_text = trim (coalesce (or_else (ue_content update)
            (or_else (case agent of Some a \<Rightarrow> sa_result a | None \<Rightarrow> None) (Some []))) []);
          result = (if result_text \<noteq> [] then take 240 result_text else ''(no summary)'')
      in ''  - Agent '' @ label @ [CHR 0x0A] @ ''    '' @ task @
         ''    Update: '' @ ue_update_type update @ [CHR 0x0A] @
         ''    Status: '' @ status @ [CHR 0x0A] @ ''    Result: '' @ result)"

definition build_pending_child_digest_system_prompt :: "durable_session_state \<Rightarrow> string option" where
  "build_pending_child_digest_system_prompt state =
     (case ds_pending_child_digest state of
        None \<Rightarrow> None
      | Some d \<Rightarrow>
          if cd_updates d = [] then None
          else Some (''Buffered child updates arrived during the last 30 seconds:'' @ [CHR 0x0A] @
            join [CHR 0x0A] (map (digest_line (ds_sub_agents state)) (cd_updates d)) @ [CHR 0x0A] @
            ''Review the updates and continue your task.''))"

definition flush_pending_child_digest_into_prompt ::
  "string option \<Rightarrow> durable_session_state \<Rightarrow> string option \<times> durable_session_state" where
  "flush_pending_child_digest_into_prompt raw_prompt state =
     (case build_pending_child_digest_system_prompt state of
        None \<Rightarrow> (raw_prompt, state)
      | Some p \<Rightarrow> (append_system_context raw_prompt (Some p), clear_pending_child_digest state))"

definition mark_digest_ready_if_all_agents_settled :: "durable_session_state \<Rightarrow> durable_session_state" where
  "mark_digest_ready_if_all_agents_settled state =
     (case ds_pending_child_digest state of
        None \<Rightarrow> state
      | Some d \<Rightarrow>
          if ds_waiting_for_agent_ids state \<noteq> None \<or> cd_updates d = [] \<or> ds_sub_agents state = [] \<or>
             \<not> list_all (\<lambda>a. is_agent_wait_settled_status (sa_status a)) (ds_sub_agents state) then state
          else state\<lparr>ds_pending_child_digest := Some (d\<lparr>cd_ready := True\<rparr>)\<rparr>)"

section \<open>When the digest is due\<close>

datatype timer_candidate = Active_candidate int active_timer | Digest_candidate int

definition remaining_ms :: "timer_candidate \<Rightarrow> int" where
  "remaining_ms c = (case c of Active_candidate r _ \<Rightarrow> r | Digest_candidate r \<Rightarrow> r)"

definition turn_running_timer_types :: "timer_type list" where
  "turn_running_timer_types = [Timer_wait, Timer_cron, Timer_cron_at]"

definition hold_for_timer :: "active_timer option \<Rightarrow> int \<Rightarrow> bool \<Rightarrow> bool" where
  "hold_for_timer active now digest_has_error =
     (case active of
        None \<Rightarrow> False
      | Some t \<Rightarrow> at_type t \<in> set turn_running_timer_types \<and>
          at_deadline_ms t - now \<le> child_digest_coalesce_ms \<and> \<not> digest_has_error)"

text \<open>
  The two candidates are sorted by the time they have left with a stable sort, so the active timer
  wins a tie.
\<close>

definition next_timer_candidate ::
  "active_timer option \<Rightarrow> pending_child_digest option \<Rightarrow> int \<Rightarrow> int \<Rightarrow> bool \<Rightarrow> timer_candidate option" where
  "next_timer_candidate active digest now batch_ms digest_has_error =
     (let a = (case active of None \<Rightarrow> []
               | Some t \<Rightarrow> [Active_candidate (max 0 (at_deadline_ms t - now)) t]);
          d = (case digest of None \<Rightarrow> []
               | Some g \<Rightarrow>
                   if \<not> cd_ready g \<and> cd_updates g \<noteq> [] \<and> \<not> hold_for_timer active now digest_has_error
                   then [Digest_candidate (max 0 (cd_started_at_ms g + batch_ms - now))] else [])
      in case sort_key remaining_ms (a @ d) of [] \<Rightarrow> None | c # _ \<Rightarrow> Some c)"

definition has_ready_pending_child_digest :: "durable_session_state \<Rightarrow> bool" where
  "has_ready_pending_child_digest state =
     (case ds_pending_child_digest state of
        None \<Rightarrow> False | Some d \<Rightarrow> cd_ready d \<and> cd_updates d \<noteq> [])"


section \<open>What the digest holds\<close>

lemma update_first_map:
  "distinct cs \<Longrightarrow> (\<And>c. c \<in> set cs \<Longrightarrow> P (f c) \<longleftrightarrow> c = d) \<Longrightarrow>
   update_first P g (map f cs) = map (\<lambda>c. if c = d then g (f c) else f c) cs"
  by (induction cs) (auto intro!: map_cong)

definition first_seen :: "'a list \<Rightarrow> 'a list" where
  "first_seen xs = rev (remdups (rev xs))"

lemma set_first_seen [simp]: "set (first_seen xs) = set xs"
  by (simp add: first_seen_def)

lemma distinct_first_seen [simp]: "distinct (first_seen xs)"
  by (simp add: first_seen_def)

lemma first_seen_snoc:
  "first_seen (xs @ [x]) = (if x \<in> set xs then first_seen xs else first_seen xs @ [x])"
proof (cases "x \<in> set xs")
  case True
  have "remdups (x # rev xs) = remdups (rev xs)" using True by simp
  then show ?thesis using True by (simp add: first_seen_def)
qed (simp add: first_seen_def)

text \<open>A child's entry: its latest terminal report if it made one, else its latest update.\<close>

definition report_of :: "string \<Rightarrow> child_update_entry list \<Rightarrow> child_update_entry" where
  "report_of c es =
     (let mine = filter (\<lambda>e. ue_session_id e = c) es;
          final = filter (\<lambda>e. child_update_rank (ue_update_type e) = 2) mine
      in last (if final = [] then mine else final))"

lemma rank_cases: "child_update_rank t = 1 \<or> child_update_rank t = 2"
  by (simp add: child_update_rank_def)

lemma report_of_in:
  assumes "c \<in> ue_session_id ` set es"
  shows "report_of c es \<in> set es \<and> ue_session_id (report_of c es) = c"
proof -
  let ?mine = "filter (\<lambda>e. ue_session_id e = c) es"
  let ?final = "filter (\<lambda>e. child_update_rank (ue_update_type e) = 2) ?mine"
  have "?mine \<noteq> []" using assms by (auto simp: filter_empty_conv)
  then have "(if ?final = [] then ?mine else ?final) \<noteq> []" by simp
  then have "report_of c es \<in> set (if ?final = [] then ?mine else ?final)"
    unfolding report_of_def Let_def by (rule last_in_set)
  then show ?thesis by (auto split: if_splits)
qed

lemma report_of_snoc_other: "ue_session_id e \<noteq> c \<Longrightarrow> report_of c (es @ [e]) = report_of c es"
  by (simp add: report_of_def)

lemma report_of_snoc_new:
  "ue_session_id e = c \<Longrightarrow> c \<notin> ue_session_id ` set es \<Longrightarrow> report_of c (es @ [e]) = e"
proof -
  assume e: "ue_session_id e = c" and new: "c \<notin> ue_session_id ` set es"
  have "filter (\<lambda>e. ue_session_id e = c) es = []" using new by (auto simp: filter_empty_conv)
  then show ?thesis using e by (simp add: report_of_def)
qed

lemma report_of_snoc_same:
  assumes "ue_session_id e = c" "c \<in> ue_session_id ` set es"
  shows "report_of c (es @ [e]) =
    (if child_update_rank (ue_update_type (report_of c es)) \<le> child_update_rank (ue_update_type e)
     then e else report_of c es)"
proof -
  let ?mine = "filter (\<lambda>e. ue_session_id e = c) es"
  let ?final = "filter (\<lambda>e. child_update_rank (ue_update_type e) = 2) ?mine"
  have ne: "?mine \<noteq> []" using assms(2) by (auto simp: filter_empty_conv)
  have r: "child_update_rank (ue_update_type (report_of c es)) = (if ?final = [] then 1 else 2)"
  proof (cases "?final = []")
    case True
    then have "child_update_rank (ue_update_type x) = 1" if "x \<in> set ?mine" for x
      using that rank_cases [of "ue_update_type x"] by (auto simp: filter_empty_conv)
    then show ?thesis using True last_in_set [OF ne] by (simp add: report_of_def)
  next
    case False
    then show ?thesis using last_in_set [OF False] by (simp add: report_of_def)
  qed
  show ?thesis
    using assms(1) rank_cases [of "ue_update_type e"] r by (auto simp: report_of_def)
qed

definition buffer_entries :: "child_update_entry list \<Rightarrow> child_update_entry list" where
  "buffer_entries es = fold buffer_entry es []"

lemma buffer_entries_reports:
  "buffer_entries es = map (\<lambda>c. report_of c es) (first_seen (map ue_session_id es))"
proof (induction es rule: rev_induct)
  case Nil
  then show ?case by (simp add: buffer_entries_def first_seen_def)
next
  case (snoc e es)
  let ?d = "ue_session_id e"
  let ?cs = "first_seen (map ue_session_id es)"
  have step: "buffer_entries (es @ [e]) = buffer_entry e (map (\<lambda>c. report_of c es) ?cs)"
    using snoc by (simp add: buffer_entries_def)
  have session: "ue_session_id (report_of c es) = c" if "c \<in> set ?cs" for c
    using report_of_in [of c es] that by simp
  show ?case
  proof (cases "?d \<in> ue_session_id ` set es")
    case True
    have ex: "list_ex (\<lambda>x. ue_session_id x = ?d) (map (\<lambda>c. report_of c es) ?cs)"
      using True session by (auto simp: list_ex_iff image_iff intro!: bexI [of _ ?d])
    have "buffer_entry e (map (\<lambda>c. report_of c es) ?cs) =
        map (\<lambda>c. if c = ?d then (if child_update_rank (ue_update_type e)
              \<ge> child_update_rank (ue_update_type (report_of c es)) then e else report_of c es)
           else report_of c es) ?cs"
      unfolding buffer_entry_def using ex session
      by (simp only: if_True) (rule update_first_map, auto)
    also have "\<dots> = map (\<lambda>c. report_of c (es @ [e])) ?cs"
      using True by (intro map_cong refl) (auto simp: report_of_snoc_same report_of_snoc_other)
    finally show ?thesis using True by (simp add: step first_seen_snoc)
  next
    case False
    have none: "\<not> list_ex (\<lambda>x. ue_session_id x = ?d) (map (\<lambda>c. report_of c es) ?cs)"
      using False session by (auto simp: list_ex_iff)
    have "buffer_entries (es @ [e]) = map (\<lambda>c. report_of c es) ?cs @ [e]"
      unfolding step buffer_entry_def using none by (simp only: if_False)
    also have "map (\<lambda>c. report_of c es) ?cs = map (\<lambda>c. report_of c (es @ [e])) ?cs"
      using False by (intro map_cong refl) (metis report_of_snoc_other set_first_seen list.set_map)
    finally show ?thesis
      using False by (simp add: first_seen_snoc report_of_snoc_new)
  qed
qed

definition buffer_all ::
  "(child_update \<times> int) list \<Rightarrow> durable_session_state \<Rightarrow> durable_session_state" where
  "buffer_all us s = fold (\<lambda>(u, tm). buffer_child_update u tm) us s"

lemma buffer_all_digest:
  "ds_pending_child_digest s = None \<Longrightarrow> us \<noteq> [] \<Longrightarrow>
   ds_pending_child_digest (buffer_all us s) =
     Some \<lparr>cd_started_at_ms = snd (hd us), cd_ready = False,
           cd_updates = buffer_entries (map (\<lambda>(u, tm). digest_entry u tm) us)\<rparr>"
proof (induction us rule: rev_induct)
  case (snoc ua us)
  then show ?case
    by (cases "us = []") (auto simp: buffer_all_def buffer_child_update_def buffer_entries_def
        Let_def split: prod.splits)
qed simp

text \<open>
  The child digest: after any run of updates into an empty digest there is one entry per child, in
  order of first report; a child that reported a terminal state (completed, failed, cancelled,
  deleted) is shown with its latest terminal report whatever waits and progress notes came after it,
  and every other child with its latest update; the batch window starts at the first update.
\<close>

theorem digest_holds_reports:
  assumes "ds_pending_child_digest s = None" "us \<noteq> []"
  shows "let es = map (\<lambda>(u, tm). digest_entry u tm) us
         in ds_pending_child_digest (buffer_all us s) =
              Some \<lparr>cd_started_at_ms = snd (hd us), cd_ready = False,
                cd_updates = map (\<lambda>c. report_of c es) (first_seen (map ue_session_id es))\<rparr>"
  using buffer_all_digest [OF assms] by (simp add: buffer_entries_reports Let_def)

theorem digest_holds_reports_witness:
  "let u = (\<lambda>ty. \<lparr>chu_session_id = ''a'', chu_update_type = ty, chu_content = [],
         chu_cycle_origin = None, chu_cycle_status = None, chu_verdict = None\<rparr>);
       us = [(u ''progress'', 1), (u ''completed'', 2), (u ''wait'', 3)]
   in map_option (map ue_update_type \<circ> cd_updates)
        (ds_pending_child_digest (buffer_all us (new_session_state\<lparr>ds_pending_child_digest := None\<rparr>))) =
      Some [''completed'']"
proof -
  define u where "u = (\<lambda>ty. \<lparr>chu_session_id = ''a'', chu_update_type = ty, chu_content = [],
         chu_cycle_origin = None, chu_cycle_status = None, chu_verdict = None\<rparr>)"
  let ?us = "[(u ''progress'', 1), (u ''completed'', 2), (u ''wait'', 3)]"
  show ?thesis
    using digest_holds_reports [of "new_session_state\<lparr>ds_pending_child_digest := None\<rparr>" ?us]
    by (simp add: Let_def u_def digest_entry_def report_of_def first_seen_def child_update_rank_def)
qed

section \<open>The digest is due in time\<close>

text \<open>
  A buffered digest that is not ready wakes the parent in time: there is always a candidate, and
  it is due no later than the end of the batch window, or, when the digest holds no failure, than
  the parent's own wait or schedule, if that fires within the coalescing minute (that turn takes
  the digest along). With a failure in it the digest never waits for a timer beyond its window.
\<close>

theorem digest_due_in_time:
  assumes "\<not> cd_ready g" "cd_updates g \<noteq> []"
  shows "\<exists>c. next_timer_candidate active (Some g) now batch_ms has_error = Some c \<and>
     (remaining_ms c \<le> max 0 (cd_started_at_ms g + batch_ms - now) \<or>
      \<not> has_error \<and> remaining_ms c \<le> child_digest_coalesce_ms \<and>
      (\<exists>t. active = Some t \<and> c = Active_candidate (max 0 (at_deadline_ms t - now)) t \<and>
           at_type t \<in> set turn_running_timer_types))"
proof (cases active)
  case None
  then show ?thesis
    using assms by (simp add: next_timer_candidate_def hold_for_timer_def remaining_ms_def Let_def)
next
  case (Some t)
  let ?a = "Active_candidate (max 0 (at_deadline_ms t - now)) t"
  let ?d = "Digest_candidate (max 0 (cd_started_at_ms g + batch_ms - now))"
  show ?thesis
  proof (cases "hold_for_timer active now has_error")
    case True
    then show ?thesis
      using Some assms
      by (auto simp: next_timer_candidate_def hold_for_timer_def remaining_ms_def Let_def
          child_digest_coalesce_ms_def)
  next
    case False
    have "sort_key remaining_ms [?a, ?d] = (if remaining_ms ?a \<le> remaining_ms ?d then [?a, ?d] else [?d, ?a])"
      by simp
    then show ?thesis
      using Some assms False
      by (auto simp: next_timer_candidate_def remaining_ms_def Let_def)
  qed
qed

theorem digest_due_in_time_witness:
  "let e = \<lparr>ue_session_id = ''a'', ue_update_type = ''progress'', ue_content = None, ue_cycle_origin = None,
             ue_cycle_status = None, ue_verdict = None, ue_observed_at_ms = 0\<rparr>;
       g = \<lparr>cd_started_at_ms = 0, cd_ready = False, cd_updates = [e]\<rparr>
   in \<exists>c. next_timer_candidate None (Some g) 10000 30000 False = Some c \<and> remaining_ms c \<le> 20000"
  using digest_due_in_time [of "\<lparr>cd_started_at_ms = 0, cd_ready = False, cd_updates =
      [\<lparr>ue_session_id = ''a'', ue_update_type = ''progress'', ue_content = None, ue_cycle_origin = None,
        ue_cycle_status = None, ue_verdict = None, ue_observed_at_ms = 0\<rparr>]\<rparr>" None 10000 30000 False]
  by (auto simp: Let_def)

section \<open>Children settle\<close>

lemma find_update_first:
  assumes "\<And>a. sa_orch_id (f a) = sa_orch_id a" "distinct (map sa_orch_id as)"
  shows "find_tracked_agent_by_orch_id (update_first P f as) i =
     (case find_tracked_agent_by_orch_id as i of None \<Rightarrow> None
      | Some a \<Rightarrow> if List.find P as = Some a then Some (f a) else Some a)"
  using assms(2)
proof (induction as)
  case (Cons a as)
  have "x \<in> set as" if "List.find P as = Some x" for x using that by (auto simp: find_Some_iff)
  moreover have "x \<in> set as" if "find_tracked_agent_by_orch_id as i = Some x" for x
    using that by (auto simp: find_tracked_agent_by_orch_id_def find_Some_iff)
  ultimately show ?case
    using Cons assms(1) by (auto simp: find_tracked_agent_by_orch_id_def split: option.splits)
qed (simp add: find_tracked_agent_by_orch_id_def)

lemma find_tracked_distinct:
  "distinct (map sa_orch_id as) \<Longrightarrow> a \<in> set as \<Longrightarrow>
   find_tracked_agent_by_orch_id as (sa_orch_id a) = Some a"
  by (induction as) (auto simp: find_tracked_agent_by_orch_id_def)

lemma updated_agent_orch_id [simp]: "sa_orch_id (updated_agent u p a) = sa_orch_id a"
  by (simp add: updated_agent_def Let_def split: option.split jsval.split)

lemma trim_not_Nil: "c \<in> set s \<Longrightarrow> \<not> is_ws c \<Longrightarrow> trim s \<noteq> []"
proof -
  assume c: "c \<in> set s" "\<not> is_ws c"
  then have ne: "dropWhile is_ws s \<noteq> []" by (auto simp: dropWhile_eq_Nil_conv)
  have "hd (dropWhile is_ws s) \<in> set (dropWhile is_ws s) \<and> \<not> is_ws (hd (dropWhile is_ws s))"
    using hd_dropWhile_not [OF ne] hd_in_set [OF ne] by blast
  then show ?thesis
    by (auto simp: trim_def trim_start_def trim_end_def dropWhile_eq_Nil_conv)
qed

lemma followup_shape:
  "\<exists>c r. build_wait_for_agents_followup as ts = ''[SYSTEM: '' @ c # r @ '']'' \<and> \<not> is_ws c"
  by (auto simp: build_wait_for_agents_followup_def Let_def is_ws_def split: list.split)

lemma queue_followup_truthy:
  assumes "s = ''[SYSTEM: '' @ c # r @ '']''" "\<not> is_ws c"
  shows "truthy_str (ds_pending_prompt (queue_followup s st))"
proof -
  have "trim s = s" unfolding assms(1) by (rule trim_id) simp
  moreover have "strip_system s \<noteq> []"
    using assms trim_not_Nil [of c "CHR '' '' # c # r"]
    by (auto simp: strip_system_def system_open_def butlast_append)
  ultimately show ?thesis
    using assms(1) by (auto simp: queue_followup_def merge_prompt_def Let_def)
qed

lemma probed_terminal:
  "is_sub_agent_terminal_status (probed_status ''completed'' ''completed'' p)"
  by (simp add: probed_status_def is_sub_agent_terminal_status_def Let_def)

lemma completed_update_terminal:
  "chu_update_type u = ''completed'' \<Longrightarrow> is_sub_agent_terminal_status (sa_status (updated_agent u p a))"
  using probed_terminal
  by (auto simp: updated_agent_def Let_def is_sub_agent_terminal_status_def split: option.split jsval.split)

lemma completion_resolves_wait:
  assumes "ds_waiting_for_agent_ids s = Some targets"
    "distinct (map sa_orch_id (ds_sub_agents s))"
    "List.find (\<lambda>a. sa_session_id a = chu_session_id u) (ds_sub_agents s) = Some child"
    "chu_update_type u = ''completed''"
    "\<forall>t \<in> set targets. t \<noteq> sa_orch_id child \<longrightarrow> agent_settled (ds_sub_agents s) t"
  shows "let s' = snd (apply_child_update u probe s)
         in fst (apply_child_update u probe s) \<and>
            (case maybe_resolve_agent_wait_completion s' of
               Still_waiting \<Rightarrow> False
             | Finalize_shutdown \<Rightarrow> ds_pending_shutdown s \<noteq> None
             | Wait_resolved s'' \<Rightarrow> ds_pending_shutdown s = None \<and> ds_waiting_for_agent_ids s'' = None \<and>
                 ds_active_timer s'' = None \<and> ds_pending_child_digest s'' = None \<and>
                 truthy_str (ds_pending_prompt s''))"
proof -
  let ?P = "\<lambda>a. sa_session_id a = chu_session_id u"
  let ?as = "update_first ?P (updated_agent u probe) (ds_sub_agents s)"
  let ?s = "s\<lparr>ds_sub_agents := ?as\<rparr>"
  have ex: "list_ex ?P (ds_sub_agents s)"
    using assms(3) by (auto simp: list_ex_iff find_Some_iff)
  have applied: "apply_child_update u probe s = (True, ?s)"
    using ex by (simp add: apply_child_update_def)
  have child: "child \<in> set (ds_sub_agents s)" using assms(3) by (auto simp: find_Some_iff)
  have "agent_settled ?as t" if t: "t \<in> set targets" for t
  proof (cases "t = sa_orch_id child")
    case True
    have "find_tracked_agent_by_orch_id (ds_sub_agents s) t = Some child"
      using find_tracked_distinct [OF assms(2) child] True by simp
    then show ?thesis
      using assms(3) completed_update_terminal [OF assms(4)]
      by (simp add: agent_settled_def find_update_first [OF _ assms(2)] is_agent_wait_settled_status_def)
  next
    case False
    then have "agent_settled (ds_sub_agents s) t" using assms(5) t by blast
    moreover have "sa_orch_id a = t" if "find_tracked_agent_by_orch_id (ds_sub_agents s) t = Some a" for a
      using that by (auto simp: find_tracked_agent_by_orch_id_def find_Some_iff)
    ultimately show ?thesis
      using assms(3) False
      by (auto simp: agent_settled_def find_update_first [OF _ assms(2)] split: option.splits)
  qed
  then have all: "list_all (agent_settled ?as) targets" by (simp add: list_all_iff)
  have "truthy_str (ds_pending_prompt (queue_followup (build_wait_for_agents_followup ?as targets) ?s))"
    using followup_shape [of ?as targets] queue_followup_truthy by blast
  then show ?thesis
    using all assms(1)
    by (auto simp: applied maybe_resolve_agent_wait_completion_def Let_def
        clear_pending_child_digest_def)
qed

text \<open>
  A child's completion ends the parent's wait: whatever its status probe says (even a concurrent
  "waiting" or a failed probe), once a tracked child reports "completed" and every other awaited
  child is settled, the wait is over: the parent is given the summary and neither timer nor digest
  is left behind, or a pending shutdown is finalized.
\<close>

theorem child_completion_ends_wait:
  assumes "ds_waiting_for_agent_ids s = Some targets"
    "distinct (map sa_orch_id (ds_sub_agents s))"
    "List.find (\<lambda>a. sa_session_id a = chu_session_id u) (ds_sub_agents s) = Some child"
    "chu_update_type u = ''completed''"
    "\<forall>t \<in> set targets. t \<noteq> sa_orch_id child \<longrightarrow> agent_settled (ds_sub_agents s) t"
  shows "let s' = snd (apply_child_update u probe s)
         in fst (apply_child_update u probe s) \<and>
            (case maybe_resolve_agent_wait_completion s' of
               Still_waiting \<Rightarrow> False
             | Finalize_shutdown \<Rightarrow> ds_pending_shutdown s \<noteq> None
             | Wait_resolved s'' \<Rightarrow> ds_pending_shutdown s = None \<and> ds_waiting_for_agent_ids s'' = None \<and>
                 ds_active_timer s'' = None \<and> ds_pending_child_digest s'' = None \<and>
                 truthy_str (ds_pending_prompt s''))"
  using completion_resolves_wait [OF assms] .

theorem child_completion_ends_wait_witness:
  "let agent = \<lparr>sa_orch_id = ''session-a'', sa_session_id = ''a'', sa_task = ''t'', sa_status = ''waiting'',
         sa_result = None, sa_expects_report = True, sa_agent_id = None, sa_contract = JUndef\<rparr>;
       u = \<lparr>chu_session_id = ''a'', chu_update_type = ''completed'', chu_content = ''done'',
         chu_cycle_origin = None, chu_cycle_status = None, chu_verdict = None\<rparr>;
       s = new_session_state\<lparr>ds_sub_agents := [agent], ds_waiting_for_agent_ids := Some [''session-a'']\<rparr>
   in maybe_resolve_agent_wait_completion
        (snd (apply_child_update u (Some (JObj [(''status'', JStr ''waiting'')])) s)) \<noteq> Still_waiting"
proof -
  let ?agent = "\<lparr>sa_orch_id = ''session-a'', sa_session_id = ''a'', sa_task = ''t'', sa_status = ''waiting'',
         sa_result = None, sa_expects_report = True, sa_agent_id = None, sa_contract = JUndef\<rparr>"
  let ?u = "\<lparr>chu_session_id = ''a'', chu_update_type = ''completed'', chu_content = ''done'',
         chu_cycle_origin = None, chu_cycle_status = None, chu_verdict = None\<rparr>"
  let ?s = "new_session_state\<lparr>ds_sub_agents := [?agent], ds_waiting_for_agent_ids := Some [''session-a'']\<rparr>"
  show ?thesis
    using child_completion_ends_wait [of ?s "[''session-a'']" ?u ?agent "Some (JObj [(''status'', JStr ''waiting'')])"]
    by (simp add: Let_def split: wait_resolution.splits)
qed

end
