(* ===== verification/SessionStatus.thy ===== *)
theory SessionStatus
  imports Prelude
begin

text \<open>
  Session status derivation (\<open>packages/sdk/src/session-status.ts\<close>), the write-back of a derived
  terminal status to the catalog row (\<open>management-client.ts\<close>), and the wait-handling plans of
  \<open>wait-affinity.ts\<close>. Status texts stay strings: they come from database rows and from the
  orchestration's published JSON, and an absent or null one is \<open>None\<close>.
\<close>

section \<open>Terminal status\<close>

record terminal_session_like =
  ts_parent_session_id :: "string option"
  ts_is_system :: bool
  ts_row_state :: "string option"
  ts_status :: "string option"
  ts_orchestration_status :: "string option"
  ts_cron_active :: bool
  ts_cron_interval :: "rat option"
  ts_turn_result_type :: "string option"
  ts_latest_response_type :: "string option"

definition is_completed_terminal_session :: "terminal_session_like \<Rightarrow> bool" where
  "is_completed_terminal_session input =
     (let has_parent = truthy_str (ts_parent_session_id input)
      in if \<not> has_parent \<or> ts_is_system input then False
         else if ts_cron_active input then False
         else if (case ts_cron_interval input of Some n \<Rightarrow> n > 0 | None \<Rightarrow> False) then False
         else if ts_status input = Some ''completed'' \<or> ts_row_state input = Some ''completed''
         then True
         else if ts_orchestration_status input \<noteq> Some ''Completed'' then False
         else ts_turn_result_type input = Some ''completed''
              \<or> ts_latest_response_type input = Some ''completed'')"

definition derive_session_status :: "terminal_session_like \<Rightarrow> string" where
  "derive_session_status input =
     (if ts_orchestration_status input = Some ''Failed'' then ''failed''
      else if is_completed_terminal_session input then ''completed''
      else if ts_orchestration_status input = Some ''Running'' \<and> \<not> truthy_str (ts_status input)
              \<and> (ts_row_state input = Some ''error'' \<or> ts_row_state input = Some ''failed''
                 \<or> ts_row_state input = Some ''completed'')
      then ''running''
      else the (or_else (ts_status input) (or_else (ts_row_state input) (Some ''pending''))))"

definition should_sync_completed_status :: "terminal_session_like \<Rightarrow> bool" where
  "should_sync_completed_status input \<longleftrightarrow>
     is_completed_terminal_session input \<and> ts_row_state input \<noteq> Some ''completed''"

definition should_sync_failed_status :: "terminal_session_like \<Rightarrow> bool" where
  "should_sync_failed_status input \<longleftrightarrow>
     ts_orchestration_status input = Some ''Failed'' \<and> ts_row_state input \<noteq> Some ''failed''"

record session_row =
  row_parent_session_id :: "string option"
  row_is_system :: bool
  row_state :: "string option"

definition derive_status_from_cms_and_runtime ::
  "session_row option \<Rightarrow> jsval \<Rightarrow> string option \<Rightarrow> string option \<Rightarrow> string" where
  "derive_status_from_cms_and_runtime row custom_status latest_response_type orchestration_status =
     derive_session_status
       \<lparr>ts_parent_session_id = Option.bind row row_parent_session_id,
        ts_is_system = (case row of Some r \<Rightarrow> row_is_system r | None \<Rightarrow> False),
        ts_row_state = Option.bind row row_state,
        ts_status = as_string (jget ''status'' custom_status),
        ts_orchestration_status = orchestration_status,
        ts_cron_active = (jget ''cronActive'' custom_status = JBool True),
        ts_cron_interval =
          (case jget ''cronInterval'' custom_status of JNum n \<Rightarrow> Some n | _ \<Rightarrow> None),
        ts_turn_result_type = as_string (jget ''type'' (jget ''turnResult'' custom_status)),
        ts_latest_response_type = latest_response_type\<rparr>"

definition resolve_stale_running_row_recovery ::
  "string option \<Rightarrow> string option \<Rightarrow> string option \<Rightarrow> string option" where
  "resolve_stale_running_row_recovery row_state' status orchestration_status =
     (if orchestration_status \<noteq> Some ''Running'' then None
      else if row_state' \<noteq> Some ''error'' \<and> row_state' \<noteq> Some ''failed'' then None
      else let s = coalesce status []
           in if s = ''error'' \<or> s = ''failed'' then None
              else Some (if s \<noteq> [] then s else ''running''))"

record pending_question =
  pq_question :: jsval
  pq_choices :: jsval
  pq_allow_freeform :: jsval
  pq_iteration :: jsval

definition resolve_pending_question ::
  "string \<Rightarrow> jsval \<Rightarrow> jsval \<Rightarrow> pending_question option" where
  "resolve_pending_question status custom_status latest_response =
     (if status \<noteq> ''input_required'' then None
      else if truthy (jget ''pendingQuestion'' custom_status) then
        Some \<lparr>pq_question = jget ''pendingQuestion'' custom_status,
              pq_choices = jget ''choices'' custom_status,
              pq_allow_freeform = jget ''allowFreeform'' custom_status,
              pq_iteration =
                (if is_nullish (jget ''questionIteration'' custom_status)
                 then jget ''iteration'' custom_status
                 else jget ''questionIteration'' custom_status)\<rparr>
      else if jget ''type'' latest_response = JStr ''input_required''
              \<and> truthy (jget ''question'' latest_response) then
        Some \<lparr>pq_question = jget ''question'' latest_response,
              pq_choices = jget ''choices'' latest_response,
              pq_allow_freeform = jget ''allowFreeform'' latest_response,
              pq_iteration = jget ''iteration'' latest_response\<rparr>
      else None)"

section \<open>Writing the derived status back to the row\<close>

text \<open>
  One read of a session: the row state the management client writes back, if any. The other
  columns it touches (error and wait texts) do not influence the derivation.
\<close>

definition sync_session_row :: "terminal_session_like \<Rightarrow> string option" where
  "sync_session_row input =
     (if should_sync_completed_status input then Some ''completed''
      else if should_sync_failed_status input then Some ''failed''
      else resolve_stale_running_row_recovery (ts_row_state input) (ts_status input)
             (ts_orchestration_status input))"

text \<open>The input of the next read, the runtime's half unchanged.\<close>

definition after_sync :: "terminal_session_like \<Rightarrow> terminal_session_like" where
  "after_sync input =
     (case sync_session_row input of None \<Rightarrow> input
      | Some st \<Rightarrow> input\<lparr>ts_row_state := Some st\<rparr>)"

lemmas status_defs =
  is_completed_terminal_session_def should_sync_completed_status_def
  should_sync_failed_status_def resolve_stale_running_row_recovery_def sync_session_row_def

lemma is_completed_terminal_cases:
  "is_completed_terminal_session input \<Longrightarrow>
     ts_status input = Some ''completed'' \<or> ts_row_state input = Some ''completed'' \<or>
     ts_orchestration_status input = Some ''Completed''"
  by (auto simp: is_completed_terminal_session_def Let_def split: if_splits)

lemma stale_recovery_SomeD:
  assumes "resolve_stale_running_row_recovery rs st os = Some r"
  shows "os = Some ''Running''" "rs = Some ''error'' \<or> rs = Some ''failed''"
    "r \<noteq> ''error''" "r \<noteq> ''failed''"
  using assms
  by (auto simp: resolve_stale_running_row_recovery_def Let_def split: if_splits)

text \<open>
  Reads converge: unless the runtime reports a failed orchestration together with a
  "completed" status, one read writes at most one correction to the catalog row and every later
  read of the same runtime state leaves the row alone.
\<close>

theorem sync_session_row_converges:
  assumes "\<not> (ts_orchestration_status input = Some ''Failed'' \<and> ts_status input = Some ''completed'')"
  shows "sync_session_row (after_sync input) = None"
proof (cases "should_sync_completed_status input")
  case True
  have "ts_orchestration_status input \<noteq> Some ''Failed''"
    using True assms by (auto simp: should_sync_completed_status_def dest: is_completed_terminal_cases)
  then show ?thesis
    using True by (simp add: after_sync_def sync_session_row_def should_sync_completed_status_def
        should_sync_failed_status_def resolve_stale_running_row_recovery_def)
next
  case ncomp: False
  show ?thesis
  proof (cases "should_sync_failed_status input")
    case True
    then have failed: "ts_orchestration_status input = Some ''Failed''"
      by (simp add: should_sync_failed_status_def)
    then have "\<not> is_completed_terminal_session (input\<lparr>ts_row_state := Some ''failed''\<rparr>)"
      using assms by (auto dest: is_completed_terminal_cases)
    with True ncomp failed show ?thesis
      by (simp add: after_sync_def sync_session_row_def should_sync_completed_status_def
          should_sync_failed_status_def resolve_stale_running_row_recovery_def)
  next
    case nfail: False
    show ?thesis
    proof (cases "resolve_stale_running_row_recovery (ts_row_state input) (ts_status input)
        (ts_orchestration_status input)")
      case None
      with ncomp nfail show ?thesis by (simp add: after_sync_def sync_session_row_def)
    next
      case (Some st)
      note st = stale_recovery_SomeD [OF Some]
      have "\<not> is_completed_terminal_session input"
        using ncomp st(2) by (auto simp: should_sync_completed_status_def)
      then have nc: "\<not> should_sync_completed_status (input\<lparr>ts_row_state := Some st\<rparr>)"
        by (auto simp: should_sync_completed_status_def is_completed_terminal_session_def Let_def
            split: if_splits)
      show ?thesis using ncomp nfail Some st nc
        by (simp add: after_sync_def sync_session_row_def should_sync_failed_status_def
            resolve_stale_running_row_recovery_def)
    qed
  qed
qed

theorem sync_session_row_converges_witness:
  "let input = \<lparr>ts_parent_session_id = Some ''p'', ts_is_system = False,
      ts_row_state = Some ''error'', ts_status = Some ''waiting'',
      ts_orchestration_status = Some ''Running'', ts_cron_active = False,
      ts_cron_interval = None, ts_turn_result_type = None, ts_latest_response_type = None\<rparr>
   in sync_session_row input = Some ''waiting'' \<and> sync_session_row (after_sync input) = None"
  unfolding Let_def
  by (intro conjI sync_session_row_converges) (simp_all add: status_defs)

text \<open>
  The excluded case does not converge: for a non-system child session without a schedule whose
  orchestration failed after it published "completed", every read rewrites the row, alternating
  "completed" and "failed", while the status shown to the caller stays "failed".
\<close>

theorem failed_completed_row_flaps:
  assumes "truthy_str (ts_parent_session_id input)" and "\<not> ts_is_system input"
    and "\<not> ts_cron_active input" and "ts_cron_interval input = None"
    and "ts_orchestration_status input = Some ''Failed''" and "ts_status input = Some ''completed''"
  shows "derive_session_status input = ''failed'' \<and>
    sync_session_row (input\<lparr>ts_row_state := Some ''failed''\<rparr>) = Some ''completed'' \<and>
    sync_session_row (input\<lparr>ts_row_state := Some ''completed''\<rparr>) = Some ''failed''"
  using assms by (simp add: derive_session_status_def status_defs)

theorem failed_completed_row_flaps_witness:
  "let input = \<lparr>ts_parent_session_id = Some ''p'', ts_is_system = False,
      ts_row_state = Some ''failed'', ts_status = Some ''completed'',
      ts_orchestration_status = Some ''Failed'', ts_cron_active = False,
      ts_cron_interval = None, ts_turn_result_type = None, ts_latest_response_type = None\<rparr>
   in after_sync (after_sync input) = input \<and> after_sync input \<noteq> input"
proof -
  let ?i = "\<lparr>ts_parent_session_id = Some ''p'', ts_is_system = False,
      ts_row_state = Some ''failed'', ts_status = Some ''completed'',
      ts_orchestration_status = Some ''Failed'', ts_cron_active = False,
      ts_cron_interval = None, ts_turn_result_type = None, ts_latest_response_type = None\<rparr>"
  have "sync_session_row (?i\<lparr>ts_row_state := Some ''failed''\<rparr>) = Some ''completed'' \<and>
    sync_session_row (?i\<lparr>ts_row_state := Some ''completed''\<rparr>) = Some ''failed''"
    using failed_completed_row_flaps [of ?i] by simp
  then show ?thesis by (simp add: after_sync_def)
qed

text \<open>
  A session reported "completed" by the derivation itself (rather than by an explicit status or
  row) is a child without a live schedule, and a failed orchestration is never reported as
  anything but "failed".
\<close>

theorem derive_session_status_completed:
  "derive_session_status input = ''completed'' \<longrightarrow>
     ts_orchestration_status input \<noteq> Some ''Failed'' \<and>
     (is_completed_terminal_session input \<and> truthy_str (ts_parent_session_id input)
        \<and> \<not> ts_is_system input \<and> \<not> ts_cron_active input
      \<or> ts_status input = Some ''completed''
      \<or> ts_row_state input = Some ''completed''
        \<and> ts_orchestration_status input \<noteq> Some ''Running'')"
  by (auto simp: derive_session_status_def is_completed_terminal_session_def or_else_def Let_def
      split: if_splits option.splits elim!: truthy_str.elims)

theorem derive_session_status_completed_witness:
  "let input = \<lparr>ts_parent_session_id = Some ''p'', ts_is_system = False,
      ts_row_state = Some ''running'', ts_status = Some ''idle'',
      ts_orchestration_status = Some ''Completed'', ts_cron_active = False,
      ts_cron_interval = None, ts_turn_result_type = Some ''completed'',
      ts_latest_response_type = None\<rparr>
   in derive_session_status input = ''completed'' \<and> is_completed_terminal_session input"
proof -
  let ?i = "\<lparr>ts_parent_session_id = Some ''p'', ts_is_system = False,
      ts_row_state = Some ''running'', ts_status = Some ''idle'',
      ts_orchestration_status = Some ''Completed'', ts_cron_active = False,
      ts_cron_interval = None, ts_turn_result_type = Some ''completed'',
      ts_latest_response_type = None\<rparr>"
  have "derive_session_status ?i = ''completed''"
    by (simp add: derive_session_status_def is_completed_terminal_session_def)
  with derive_session_status_completed [of ?i] show ?thesis by simp
qed

section \<open>Wait handling plans\<close>

record wait_handling_plan =
  should_dehydrate :: bool
  reset_affinity_on_dehydrate :: bool
  preserve_affinity_on_hydrate :: bool

definition plan_wait_handling :: "bool \<Rightarrow> rat \<Rightarrow> rat \<Rightarrow> bool option \<Rightarrow> wait_handling_plan" where
  "plan_wait_handling blob_enabled seconds dehydrate_threshold preserve_worker_affinity =
     (let dehydrate = blob_enabled \<and> seconds > dehydrate_threshold;
          preserve = dehydrate \<and> preserve_worker_affinity = Some True
      in \<lparr>should_dehydrate = dehydrate,
          reset_affinity_on_dehydrate = (if dehydrate then \<not> preserve else False),
          preserve_affinity_on_hydrate = preserve\<rparr>)"

definition plan_hold_release :: "bool \<Rightarrow> rat \<Rightarrow> rat \<Rightarrow> bool" where
  "plan_hold_release blob_enabled seconds hold_window_seconds =
     (let hold_window = (if hold_window_seconds > 0 then hold_window_seconds else 1800)
      in blob_enabled \<and> seconds > hold_window)"

text \<open>A dehydrating wait either resets or preserves the affinity, and a warm wait does neither.\<close>

lemma plan_wait_handling_partition:
  "let p = plan_wait_handling blob s t keep
   in (should_dehydrate p \<longrightarrow> reset_affinity_on_dehydrate p \<noteq> preserve_affinity_on_hydrate p) \<and>
      (\<not> should_dehydrate p \<longrightarrow> \<not> reset_affinity_on_dehydrate p \<and> \<not> preserve_affinity_on_hydrate p)"
  by (auto simp: plan_wait_handling_def Let_def)

lemma plan_hold_release_mono:
  "plan_hold_release blob s w \<Longrightarrow> s \<le> s' \<Longrightarrow> plan_hold_release blob s' w"
  by (auto simp: plan_hold_release_def Let_def)

end
