(* ===== verification/OrchTimers.thy ===== *)
theory OrchTimers
  imports OrchChildren SessionStatus
begin

text \<open>
  The session's timers (\<open>packages/sdk/src/orchestration/lifecycle.ts\<close>, \<open>queue.ts\<close>, \<open>turn.ts\<close>): what a
  user's prompt, a model switch and a child digest do to the active timer, the schedule actions, and
  how the continuation after a turn resumes the interrupted timer, re-arms the schedule or parks the
  session. Shown: an interrupted wait and an interrupted schedule are resumed with the time they had
  left; and where that fails: a wait interrupted in its last half second, and a budget pause
  interrupted by a model switch or a child digest, or carried by a continue-as-new.

  What a generator yields to the runtime (custom status, recorded events) is a list of effects, in
  order; \<open>ctx.utcNow()\<close> and \<open>ctx.newGuid()\<close> are arguments. A recorded event keeps the values its data
  is made of.
\<close>

section \<open>Effects\<close>

datatype cron_signal =
    Cron_off
  | Cron_interval int string
  | Cron_wall_clock string "int option" string "int option" int

record question_signal =
  qs_question :: jsval
  qs_iteration :: jsval
  qs_choices :: jsval
  qs_allow_freeform :: jsval

record status_signal =
  sg_status :: string
  sg_iteration :: int
  sg_response_version :: "int option"
  sg_command_version :: "int option"
  sg_command_id :: "string option"
  sg_cron :: cron_signal
  sg_context_usage :: "context_usage option"
  sg_extra :: config_obj
  sg_question :: "question_signal option"

text \<open>
  \<open>CommandMessage\<close> and \<open>CommandResponse\<close> of \<open>types.ts\<close>; the \<open>contextUsage\<close> in the result of
  \<open>get_info\<close> is kept typed beside it.
\<close>

record command_message =
  cm_cmd :: string
  cm_id :: string
  cm_args :: jsval
  cm_sender :: jsval
  cm_requested_by :: "string option"

record command_response =
  rsp_id :: string
  rsp_cmd :: string
  rsp_result :: jsval
  rsp_error :: "string option"
  rsp_context_usage :: "context_usage option"

text \<open>\<open>Event_recorded\<close> names the session the event is recorded for, its type and its data.\<close>

datatype orch_effect =
    Publish status_signal
  | Affinity_released string int
  | Cron_started cron_schedule
  | Cron_at_started "cron_at_schedule option" int
  | Cron_at_completed cron_at_schedule
  | Cron_at_scheduled cron_at_schedule cron_at_next_fire
  | Cron_at_cancelled
  | Messages_cancelled "string list" string
  | Child_update_suppressed parent_wake_decision nat
  | Event_recorded string string config_obj
  | Cms_state string "string option"
  | Message_sent string string
  | Session_destroyed
  | Command_answered command_response int
  | Command_sent string command_message
  | Session_deleted string string
  | Session_model_updated string "string option" "string option" string
  | Distiller_cancelled string
  | Response_written int int config_obj
  | Turn_dispatched string bool int config_obj
  | Turn_aborted string int
  | Hydrated string
  | Slept int
  | Knowledge_index_loaded
  | Session_summarized
  | Epoch_regenerated config_obj
  | Child_spawned config_obj config_obj

definition positive :: "int \<Rightarrow> int option" where
  "positive n = (if 0 < n then Some n else None)"

definition publish_status :: "durable_session_state \<Rightarrow> string \<Rightarrow> config_obj \<Rightarrow> orch_effect" where
  "publish_status state status extra =
     Publish \<lparr>sg_status = status, sg_iteration = ds_iteration state,
       sg_response_version = positive (ds_last_response_version state),
       sg_command_version = positive (ds_last_command_version state),
       sg_command_id = if_truthy (ds_last_command_id state),
       sg_cron = (case ds_cron_at_schedule state of
           Some c \<Rightarrow> Cron_wall_clock (cs_reason c) (cs_next_fire_at_ms c) (cs_tz c) (cs_max_fires c)
                      (cs_fires_completed c)
         | None \<Rightarrow> (case ds_cron_schedule state of
             Some c \<Rightarrow> Cron_interval (sched_interval_seconds c) (sched_reason c)
           | None \<Rightarrow> Cron_off)),
       sg_context_usage = ds_context_usage state, sg_extra = extra,
       sg_question =
         (case ds_pending_input_question state of
            Some q \<Rightarrow>
              if status = ''input_required''
              then Some \<lparr>qs_question = jget ''question'' q,
                qs_iteration = (if is_nullish (jget ''iteration'' q) then JNum (of_int (ds_iteration state))
                                else jget ''iteration'' q),
                qs_choices = jget ''choices'' q, qs_allow_freeform = jget ''allowFreeform'' q\<rparr>
              else None
          | None \<Rightarrow> None)\<rparr>"

definition wait_extra :: "int \<Rightarrow> string \<Rightarrow> int \<Rightarrow> config_obj" where
  "wait_extra seconds reason started_at =
     [(''waitSeconds'', JNum (of_int seconds)), (''waitReason'', JStr reason),
      (''waitStartedAt'', JNum (of_int started_at))]"

text \<open>\<open>Math.round(ms / 1000)\<close> and \<open>Math.ceil(ms / 1000)\<close>\<close>

definition round_sec :: "int \<Rightarrow> int" where "round_sec ms = (ms + 500) div 1000"
definition ceil_sec :: "int \<Rightarrow> int" where "ceil_sec ms = ceil_div ms 1000"

section \<open>Interrupting a timer\<close>

definition wrap_with_resume_context ::
  "string \<Rightarrow> string option \<Rightarrow> durable_session_state \<Rightarrow> string \<times> durable_session_state" where
  "wrap_with_resume_context user_prompt extra state =
     (let base = coalesce (ds_pending_rehydration_message state)
            (''The session was dehydrated and has been rehydrated on a new worker. '' @
             ''The LLM conversation history is preserved.'')
      in (join [CHR 0x0A]
            ([user_prompt, [], ''[SYSTEM: '' @ base] @
             (if truthy_str extra then [the extra] else []) @ ['']'']),
          state\<lparr>ds_pending_rehydration_message := None\<rparr>))"

text \<open>\<open>date.toISOString()\<close> for a date of a four-digit year.\<close>

definition iso_string :: "int \<Rightarrow> string" where
  "iso_string ms =
     (let p = utc_parts ms; d2 = (\<lambda>n. pad_start 2 (show_int n))
      in pad_start 4 (show_int (dp_year p)) @ ''-'' @ d2 (dp_month p) @ ''-'' @ d2 (dp_day p) @ ''T'' @
         d2 (dp_hour p) @ '':'' @ d2 (dp_minute p) @ '':'' @ d2 (dp_second p) @ ''.'' @
         pad_start 3 (show_int (ms mod 1000)) @ ''Z'')"

definition scheduled_at_text :: "cron_at_schedule option \<Rightarrow> string" where
  "scheduled_at_text schedule =
     (case Option.bind schedule cs_next_fire_at_ms of
        Some ms \<Rightarrow> if ms \<noteq> 0 then iso_string ms else ''unknown''
      | None \<Rightarrow> ''unknown'')"

definition quoted :: "string \<Rightarrow> string" where "quoted s = [CHR 0x22] @ s @ [CHR 0x22]"

definition timer_remaining :: "int \<Rightarrow> active_timer \<Rightarrow> int" where
  "timer_remaining now t = max 0 (at_deadline_ms t - now)"

text \<open>The note a prompt that interrupts a wait carries: \<open>total\<close>, \<open>elapsed\<close> and remaining seconds.\<close>

definition wait_note :: "string \<Rightarrow> active_timer \<Rightarrow> int \<Rightarrow> string" where
  "wait_note lead t remaining =
     lead @ show_int (round_sec (at_original_duration_ms t)) @ ''s timer (reason: '' @ quoted (at_reason t) @
     '') was interrupted by the above message. '' @
     show_int (round_sec (at_original_duration_ms t - remaining)) @ ''s elapsed, '' @
     show_int (round_sec remaining) @ ''s remain. '' @
     ''Reply to the message. The timer will be automatically resumed after your reply.''"

definition plain_wait_note :: "active_timer \<Rightarrow> int \<Rightarrow> string" where
  "plain_wait_note t remaining =
     ''[SYSTEM: The above is a message that interrupted your '' @
     show_int (round_sec (at_original_duration_ms t)) @ ''s timer (reason: '' @ quoted (at_reason t) @ ''). '' @
     show_int (round_sec (at_original_duration_ms t - remaining)) @ ''s elapsed, '' @
     show_int (round_sec remaining) @ ''s remain. '' @
     ''Reply to the message. The timer will be automatically resumed after your reply.]''"

definition cron_resume_note :: "cron_schedule option \<Rightarrow> active_timer \<Rightarrow> int \<Rightarrow> string" where
  "cron_resume_note schedule t remaining =
     ''This is an internal recurring schedule, not a new user prompt. '' @
     ''There is an active recurring schedule every '' @
     (case schedule of Some c \<Rightarrow> show_int (sched_interval_seconds c) | None \<Rightarrow> ''?'') @ '' seconds for '' @
     quoted (case schedule of Some c \<Rightarrow> sched_reason c | None \<Rightarrow> at_reason t) @ ''. '' @
     ''The next cron wake-up will keep the original schedule and resume after the remaining '' @
     show_int (round_sec remaining) @ '' seconds unless you explicitly reset cron. '' @
     ''Do NOT call wait() just to keep the recurring loop alive. '' @
     ''Call cron(action='' @ quoted ''cancel'' @ '') only if you need to stop it.''"

definition cron_at_resume_note :: "cron_at_schedule option \<Rightarrow> active_timer \<Rightarrow> string" where
  "cron_at_resume_note schedule t =
     ''This is an internal wall-clock recurring schedule, not a new user prompt. '' @
     ''There is an active wall-clock schedule for '' @
     quoted (case schedule of Some c \<Rightarrow> cs_reason c | None \<Rightarrow> at_reason t) @ ''. '' @
     ''The pending scheduled fire ('' @ scheduled_at_text schedule @
     '') is preserved and will run after this turn completes; '' @
     ''if the scheduled time passes while you respond, it will fire immediately afterward '' @
     ''unless you explicitly cancel or reset the schedule. '' @
     ''Do NOT call wait() just to keep the recurring loop alive. '' @
     ''Call cron_at(action='' @ quoted ''cancel'' @ '') only if you need to stop it.''"

definition noted_prompt ::
  "bool \<Rightarrow> string \<Rightarrow> string \<Rightarrow> string \<Rightarrow> durable_session_state \<Rightarrow> string \<times> durable_session_state" where
  "noted_prompt rehydrate user_prompt wrapped_note plain_note state =
     (if rehydrate then wrap_with_resume_context user_prompt (Some wrapped_note) state
      else (user_prompt @ blank_line @ plain_note, state))"

text \<open>
  \<open>drain\<close>, the branch for an incoming prompt: the active timer is interrupted, and a buffered digest
  rides in the prompt. An input-grace timer keeps running.
\<close>

definition interrupt_timer_for_prompt ::
  "int \<Rightarrow> string \<Rightarrow> durable_session_state \<Rightarrow> string \<times> durable_session_state" where
  "interrupt_timer_for_prompt now user_prompt state0 =
     (let state = state0\<lparr>ds_blocked_error := None\<rparr>
      in case ds_active_timer state of
           None \<Rightarrow> (user_prompt, state)
         | Some t \<Rightarrow>
             let remaining = timer_remaining now t
             in (case at_type t of
                  Timer_wait \<Rightarrow>
                    let s = state\<lparr>ds_interrupted_wait_timer := Some
                          \<lparr>iw_remaining_sec = round_sec remaining, iw_reason = at_reason t,
                           iw_should_rehydrate = at_should_rehydrate t, iw_wait_plan = at_wait_plan t,
                           iw_interrupt_kind = Some ''user'', iw_budget = at_budget t\<rparr>\<rparr>;
                        (p, s') = noted_prompt (at_should_rehydrate t) user_prompt
                          (wait_note ''Your '' t remaining) (plain_wait_note t remaining) s
                    in (p, s'\<lparr>ds_active_timer := None\<rparr>)
                | Timer_cron \<Rightarrow>
                    let s = state\<lparr>ds_interrupted_cron_timer := Some
                          \<lparr>ic_remaining_ms = remaining, ic_reason = at_reason t,
                           ic_original_duration_ms = Some (at_original_duration_ms t),
                           ic_should_rehydrate = at_should_rehydrate t\<rparr>\<rparr>;
                        note = cron_resume_note (ds_cron_schedule state) t remaining;
                        (p, s') = noted_prompt (at_should_rehydrate t) user_prompt note
                          (''[SYSTEM: '' @ note @ '']'') s
                    in (p, s'\<lparr>ds_active_timer := None\<rparr>)
                | Timer_cron_at \<Rightarrow>
                    let note = cron_at_resume_note (ds_cron_at_schedule state) t;
                        (p, s') = noted_prompt (at_should_rehydrate t) user_prompt note
                          (''[SYSTEM: '' @ note @ '']'') state
                    in (p, s'\<lparr>ds_active_timer := None\<rparr>)
                | Timer_idle \<Rightarrow> (user_prompt, state\<lparr>ds_active_timer := None\<rparr>)
                | Timer_agent_poll \<Rightarrow>
                    (user_prompt, state\<lparr>ds_waiting_for_agent_ids := None, ds_active_timer := None\<rparr>)
                | Timer_input_grace \<Rightarrow> (user_prompt, state)))"

definition admit_prompt ::
  "int \<Rightarrow> string \<Rightarrow> durable_session_state \<Rightarrow> string option \<times> durable_session_state" where
  "admit_prompt now user_prompt state =
     (let (p, s) = interrupt_timer_for_prompt now user_prompt state
      in case ds_pending_child_digest s of
           Some d \<Rightarrow> if cd_updates d \<noteq> [] then flush_pending_child_digest_into_prompt (Some p) s else (Some p, s)
         | None \<Rightarrow> (Some p, s))"

text \<open>A model switch: the interrupted wait is saved without the budget flag.\<close>

definition capture_model_switch_interrupted_timer ::
  "int \<Rightarrow> durable_session_state \<Rightarrow> durable_session_state" where
  "capture_model_switch_interrupted_timer now state =
     (case ds_active_timer state of
        None \<Rightarrow> state
      | Some t \<Rightarrow>
          let remaining = timer_remaining now t
          in (case at_type t of
               Timer_wait \<Rightarrow> state\<lparr>ds_interrupted_wait_timer := Some
                   \<lparr>iw_remaining_sec = max 1 (round_sec remaining), iw_reason = at_reason t,
                    iw_should_rehydrate = at_should_rehydrate t, iw_wait_plan = at_wait_plan t,
                    iw_interrupt_kind = None, iw_budget = False\<rparr>, ds_active_timer := None\<rparr>
             | Timer_cron \<Rightarrow> state\<lparr>ds_interrupted_cron_timer := Some
                   \<lparr>ic_remaining_ms = remaining, ic_reason = at_reason t,
                    ic_original_duration_ms = Some (at_original_duration_ms t),
                    ic_should_rehydrate = at_should_rehydrate t\<rparr>, ds_active_timer := None\<rparr>
             | _ \<Rightarrow> state\<lparr>ds_active_timer := None\<rparr>))"


section \<open>Dispatching the child digest\<close>

definition entry_kind :: "string \<Rightarrow> child_update_kind" where
  "entry_kind ty =
     (if ty = ''wait'' then Wait else if ty = ''failed'' then Error
      else if ty = ''cancelled'' \<or> ty = ''deleted'' then Cancelled
      else if ty = ''completed'' then Completed else Progress)"

definition wake_input :: "sub_agent_entry list \<Rightarrow> child_update_entry \<Rightarrow> parent_wake_decision_input" where
  "wake_input sub_agents e =
     \<lparr>pw_update =
        \<lparr>cu_kind = entry_kind (ue_update_type e), cu_summary = ue_content e,
         cu_result = (if truthy_str (ue_verdict e) then JObj [(''verdict'', JStr (the (ue_verdict e)))]
                      else if ue_cycle_status e = Some ''blocked'' then JObj [(''verdict'', JStr ''blocked'')]
                      else JUndef),
         cu_material = (if ue_cycle_status e = Some ''material'' \<or> ue_cycle_status e = Some ''blocked''
                        then JBool True
                        else if ue_cycle_status e = Some ''quiet'' then JBool False else JUndef),
         cu_cyclic = (if truthy_str (ue_cycle_origin e) then JBool True else JUndef),
         cu_wait_is_heartbeat = JUndef\<rparr>,
      pw_contract = (case List.find (\<lambda>a. sa_session_id a = ue_session_id e) sub_agents of
          Some a \<Rightarrow> sa_contract a | None \<Rightarrow> JUndef)\<rparr>"

text \<open>
  \<open>processPendingChildDigest\<close>: nothing to say, suppressed by the wake policy, or a bootstrap turn with
  this prompt. A wait it interrupts is saved without the budget flag.
\<close>

datatype digest_dispatch = Digest_empty | Digest_suppressed parent_wake_decision nat | Digest_turn string

definition wake_up_prefix :: string where
  "wake_up_prefix =
     ''[SYSTEM: This is an internal orchestration wake-up caused by child session updates; '' @
     ''the user did not send a new message. ''"

definition digest_turn ::
  "int \<Rightarrow> string \<Rightarrow> durable_session_state \<Rightarrow> digest_dispatch \<times> durable_session_state" where
  "digest_turn now digest_prompt state =
     (let cleared = clear_pending_child_digest state;
          plain = Digest_turn (''[SYSTEM: '' @ digest_prompt @ '']'')
      in case ds_active_timer state of
           None \<Rightarrow> (plain, cleared)
         | Some t \<Rightarrow>
             let remaining = timer_remaining now t
             in (case at_type t of
                  Timer_wait \<Rightarrow>
                    (Digest_turn
                       (''[SYSTEM: Buffered child updates interrupted your '' @
                        show_int (round_sec (at_original_duration_ms t)) @ ''s timer (reason: '' @
                        quoted (at_reason t) @ ''). '' @
                        show_int (round_sec (at_original_duration_ms t - remaining)) @ ''s elapsed, '' @
                        show_int (round_sec remaining) @ ''s remain. '' @
                        ''Review the updates and continue your task now. '' @
                        ''The remaining wait will be resumed automatically after this turn completes.'' @
                        blank_line @ digest_prompt @ '']''),
                     cleared\<lparr>ds_interrupted_wait_timer := Some
                       \<lparr>iw_remaining_sec = round_sec remaining, iw_reason = at_reason t,
                        iw_should_rehydrate = at_should_rehydrate t, iw_wait_plan = at_wait_plan t,
                        iw_interrupt_kind = Some ''child'', iw_budget = False\<rparr>, ds_active_timer := None\<rparr>)
                | Timer_cron \<Rightarrow>
                    (Digest_turn
                       (wake_up_prefix @
                        ''Buffered child updates arrived while your recurring schedule was waiting for the next wake-up'' @
                        (case ds_cron_schedule state of
                           Some c \<Rightarrow> '' ('' @ quoted (sched_reason c) @ '')'' | None \<Rightarrow> []) @
                        ''. Review the updates and continue your task now. '' @
                        ''The recurring cron schedule remains active and will be re-armed automatically after this turn completes.'' @
                        blank_line @ digest_prompt @ '']''),
                     cleared\<lparr>ds_interrupted_cron_timer := Some
                       \<lparr>ic_remaining_ms = remaining, ic_reason = at_reason t,
                        ic_original_duration_ms = Some (at_original_duration_ms t),
                        ic_should_rehydrate = at_should_rehydrate t\<rparr>, ds_active_timer := None\<rparr>)
                | Timer_cron_at \<Rightarrow>
                    (Digest_turn
                       (wake_up_prefix @
                        ''Buffered child updates arrived while your wall-clock schedule was waiting for its next fire'' @
                        (case ds_cron_at_schedule state of
                           Some c \<Rightarrow> '' ('' @ quoted (cs_reason c) @ '', scheduled '' @
                                     scheduled_at_text (Some c) @ '')''
                         | None \<Rightarrow> []) @
                        ''. Review the updates and continue your task now. '' @
                        ''The wall-clock cron schedule remains active and will be re-armed automatically after this turn completes.'' @
                        blank_line @ digest_prompt @ '']''),
                     cleared\<lparr>ds_active_timer := None\<rparr>)
                | Timer_idle \<Rightarrow> (plain, cleared\<lparr>ds_active_timer := None\<rparr>)
                | Timer_agent_poll \<Rightarrow>
                    (plain, cleared\<lparr>ds_waiting_for_agent_ids := None, ds_active_timer := None\<rparr>)
                | Timer_input_grace \<Rightarrow> (plain, cleared)))"

definition process_pending_child_digest ::
  "int \<Rightarrow> durable_session_state \<Rightarrow> digest_dispatch \<times> durable_session_state" where
  "process_pending_child_digest now state =
     (case (build_pending_child_digest_system_prompt state, ds_pending_child_digest state) of
        (Some digest_prompt, Some d) \<Rightarrow>
          let decision = should_wake_parent_for_child_digest (map (wake_input (ds_sub_agents state)) (cd_updates d))
          in if \<not> wake decision
             then (Digest_suppressed decision (length (cd_updates d)), clear_pending_child_digest state)
             else digest_turn now digest_prompt state
      | _ \<Rightarrow> (Digest_empty, clear_pending_child_digest state))"

section \<open>Schedule actions\<close>

datatype schedule_action =
    Set_cron int string
  | Cancel_cron
  | Set_cron_at cron_at_schedule
  | Cancel_cron_at

definition apply_cron_action ::
  "schedule_action \<Rightarrow> string option \<Rightarrow> durable_session_runtime \<Rightarrow> durable_session_runtime" where
  "apply_cron_action action source_prompt rt =
     (let rt0 = rt\<lparr>rt_state := (rt_state rt)\<lparr>ds_interrupted_cron_timer := None\<rparr>\<rparr>
      in case action of
           Set_cron seconds reason \<Rightarrow>
             let rt1 = ensure_task_context source_prompt rt0
             in rt1\<lparr>rt_state := (rt_state rt1)\<lparr>ds_cron_at_schedule := None,
                  ds_cron_schedule := Some \<lparr>sched_interval_seconds = seconds, sched_reason = reason\<rparr>\<rparr>\<rparr>
         | _ \<Rightarrow> rt0\<lparr>rt_state := (rt_state rt0)\<lparr>ds_cron_schedule := None, ds_cron_at_schedule := None\<rparr>\<rparr>)"

text \<open>\<open>None\<close> when the next-fire computation throws.\<close>

definition apply_cron_at_action ::
  "(string \<Rightarrow> int \<Rightarrow> int) \<Rightarrow> int \<Rightarrow> schedule_action \<Rightarrow> string option \<Rightarrow> durable_session_runtime \<Rightarrow>
   (orch_effect list \<times> durable_session_runtime) option" where
  "apply_cron_at_action tz_offset now action source_prompt rt =
     (let rt0 = rt\<lparr>rt_state := (rt_state rt)\<lparr>ds_interrupted_cron_timer := None\<rparr>\<rparr>
      in case action of
           Set_cron_at schedule \<Rightarrow>
             let rt1 = ensure_task_context source_prompt rt0
             in (case compute_cron_at_next_fire tz_offset schedule now (cs_last_occurrence_key schedule) of
                  None \<Rightarrow> None
                | Some next_fire \<Rightarrow>
                    let next = schedule\<lparr>cs_next_fire_at_ms := Some (nf_next_fire_at_ms next_fire),
                          cs_next_occurrence_key := Some (nf_occurrence_key next_fire)\<rparr>
                    in Some ([Cron_at_scheduled next next_fire],
                         rt1\<lparr>rt_state := (rt_state rt1)\<lparr>ds_cron_schedule := None,
                           ds_cron_at_schedule := Some next\<rparr>\<rparr>))
         | _ \<Rightarrow> Some ([Cron_at_cancelled],
             rt0\<lparr>rt_state := (rt_state rt0)\<lparr>ds_cron_at_schedule := None, ds_cron_schedule := None\<rparr>\<rparr>))"

section \<open>After a turn\<close>

definition release_affinity ::
  "string \<Rightarrow> string \<Rightarrow> durable_session_state \<Rightarrow> orch_effect list \<times> durable_session_state" where
  "release_affinity new_guid reason state =
     ([Affinity_released reason (ds_snapshot_version state)],
      state\<lparr>ds_active_timer := None, ds_affinity_key := new_guid\<rparr>)"

definition release_if ::
  "bool \<Rightarrow> string \<Rightarrow> string \<Rightarrow> durable_session_state \<Rightarrow> orch_effect list \<times> durable_session_state" where
  "release_if should_release new_guid reason state =
     (if should_release then release_affinity new_guid reason state else ([], state))"

definition new_timer :: "timer_type \<Rightarrow> int \<Rightarrow> int \<Rightarrow> string \<Rightarrow> active_timer" where
  "new_timer ty now duration_ms reason =
     \<lparr>at_deadline_ms = now + duration_ms, at_original_duration_ms = duration_ms, at_reason = reason,
      at_type = ty, at_should_rehydrate = False, at_wait_plan = None, at_content = None,
      at_question = None, at_choices = None, at_allow_freeform = None, at_agent_ids = None,
      at_budget = False\<rparr>"

text \<open>Release the affinity if the plan says so, publish "waiting", arm the timer.\<close>

definition park ::
  "durable_session_options \<Rightarrow> string \<Rightarrow> int \<Rightarrow> string \<Rightarrow> timer_type \<Rightarrow> int \<Rightarrow> int \<Rightarrow> string \<Rightarrow>
   orch_effect list \<Rightarrow> durable_session_state \<Rightarrow> orch_effect list \<times> durable_session_state" where
  "park options new_guid now release_reason ty seconds duration_ms reason events state =
     (let (released, s) = release_if
            (plan_hold_release (ds_blob_enabled state) (of_int seconds) (of_int (do_idle_timeout options)))
            new_guid release_reason state
      in (released @ events @ [publish_status s ''waiting'' (wait_extra seconds reason now)],
          s\<lparr>ds_active_timer := Some (new_timer ty now duration_ms reason)\<rparr>))"

definition continue_cron_at ::
  "(string \<Rightarrow> int \<Rightarrow> int) \<Rightarrow> durable_session_options \<Rightarrow> string \<Rightarrow> int \<Rightarrow> cron_at_schedule \<Rightarrow>
   durable_session_state \<Rightarrow> (orch_effect list \<times> durable_session_state) option" where
  "continue_cron_at tz_offset options new_guid now schedule state =
     (if (case cs_max_fires schedule of Some m \<Rightarrow> m \<le> cs_fires_completed schedule | None \<Rightarrow> False)
      then Some ([Cron_at_completed schedule], state\<lparr>ds_cron_at_schedule := None\<rparr>)
      else
        let known = (coalesce (cs_next_fire_at_ms schedule) 0 \<noteq> 0 \<and>
                     truthy_str (cs_next_occurrence_key schedule));
            fire = (if known then Some schedule
                    else map_option (\<lambda>f. schedule\<lparr>cs_next_fire_at_ms := Some (nf_next_fire_at_ms f),
                             cs_next_occurrence_key := Some (nf_occurrence_key f)\<rparr>)
                           (compute_cron_at_next_fire tz_offset schedule now (cs_last_occurrence_key schedule)))
        in case fire of
             None \<Rightarrow> None
           | Some next \<Rightarrow>
               if \<not> truthy_str (cs_next_occurrence_key next) then None
               else
                 let s = state\<lparr>ds_cron_at_schedule := Some next\<rparr>;
                     wait_ms = max 0 (coalesce (cs_next_fire_at_ms next) 0 - now)
                 in Some (park options new_guid now ''cron_at'' Timer_cron_at (max 0 (ceil_sec wait_ms)) wait_ms
                      (cs_reason schedule)
                      [Cron_at_started (ds_cron_at_schedule s) (coalesce (cs_next_fire_at_ms next) 0)] s))"

definition continue_schedules ::
  "(string \<Rightarrow> int \<Rightarrow> int) \<Rightarrow> durable_session_options \<Rightarrow> string \<Rightarrow> int \<Rightarrow> durable_session_state \<Rightarrow>
   (orch_effect list \<times> durable_session_state) option" where
  "continue_schedules tz_offset options new_guid now state =
     (if (case ds_interrupted_cron_timer state of Some c \<Rightarrow> 0 < ic_remaining_ms c | None \<Rightarrow> False) then
        let c = the (ds_interrupted_cron_timer state); remaining = max 0 (ic_remaining_ms c)
        in Some (park options new_guid now ''cron'' Timer_cron (max 1 (round_sec remaining)) remaining
             (ic_reason c) [] (state\<lparr>ds_interrupted_cron_timer := None\<rparr>))
      else case ds_cron_schedule state of
        Some c \<Rightarrow> Some (park options new_guid now ''cron'' Timer_cron (sched_interval_seconds c)
             (sched_interval_seconds c * 1000) (sched_reason c) [Cron_started c] state)
      | None \<Rightarrow>
          (case ds_cron_at_schedule state of
             Some schedule \<Rightarrow> continue_cron_at tz_offset options new_guid now schedule state
           | None \<Rightarrow>
               if \<not> ds_blob_enabled state \<or> do_idle_timeout options < 0 then Some ([], state)
               else Some ([publish_status state ''idle'' []],
                 state\<lparr>ds_active_timer := Some (new_timer Timer_idle now (do_idle_timeout options * 1000)
                   ''idle timeout'')\<rparr>)))"

definition schedule_post_turn_continuation ::
  "(string \<Rightarrow> int \<Rightarrow> int) \<Rightarrow> durable_session_options \<Rightarrow> string \<Rightarrow> int \<Rightarrow> durable_session_state \<Rightarrow>
   (orch_effect list \<times> durable_session_state) option" where
  "schedule_post_turn_continuation tz_offset options new_guid now state0 =
     (let state = (case ds_interrupted_wait_timer state0 of
            Some w \<Rightarrow> if iw_budget w then state0\<lparr>ds_interrupted_wait_timer := None\<rparr> else state0
          | None \<Rightarrow> state0)
      in case ds_interrupted_wait_timer state of
           Some w \<Rightarrow>
             if 0 < iw_remaining_sec w then
               Some (park options new_guid now ''timer'' Timer_wait (iw_remaining_sec w)
                 (iw_remaining_sec w * 1000) (iw_reason w) [] (state\<lparr>ds_interrupted_wait_timer := None\<rparr>))
             else continue_schedules tz_offset options new_guid now state
         | None \<Rightarrow> continue_schedules tz_offset options new_guid now state)"

section \<open>Interrupted timers come back\<close>

lemma park_timer [simp]:
  "ds_active_timer (snd (park opts guid now why ty secs ms reason evs s)) = Some (new_timer ty now ms reason)"
  "ds_interrupted_wait_timer (snd (park opts guid now why ty secs ms reason evs s)) = ds_interrupted_wait_timer s"
  "ds_interrupted_cron_timer (snd (park opts guid now why ty secs ms reason evs s)) = ds_interrupted_cron_timer s"
  by (simp_all add: park_def release_if_def release_affinity_def split: prod.split)

lemma parked: "park opts guid now why ty secs ms reason evs s = (evs', s') \<Longrightarrow>
    ds_active_timer s' = Some (new_timer ty now ms reason)"
  by (metis park_timer(1) snd_conv)

lemma round_sec_close: "\<bar>round_sec ms * 1000 - ms\<bar> \<le> 500"
  unfolding round_sec_def by linarith

lemma round_sec_pos: "500 \<le> ms \<Longrightarrow> 0 < round_sec ms"
  unfolding round_sec_def by linarith

lemma round_sec_small: "0 \<le> ms \<Longrightarrow> ms < 500 \<Longrightarrow> round_sec ms = 0"
  unfolding round_sec_def by linarith

lemma timer_remaining_nonneg [simp]: "0 \<le> timer_remaining now t"
  by (simp add: timer_remaining_def)

definition saved_wait :: "durable_session_state \<Rightarrow> (int \<times> string \<times> bool) option" where
  "saved_wait s = map_option (\<lambda>w. (iw_remaining_sec w, iw_reason w, iw_budget w)) (ds_interrupted_wait_timer s)"

lemma noted_prompt_keeps [simp]:
  "ds_interrupted_wait_timer (snd (noted_prompt r p a b s)) = ds_interrupted_wait_timer s"
  "ds_interrupted_cron_timer (snd (noted_prompt r p a b s)) = ds_interrupted_cron_timer s"
  "ds_cron_schedule (snd (noted_prompt r p a b s)) = ds_cron_schedule s"
  "ds_cron_at_schedule (snd (noted_prompt r p a b s)) = ds_cron_at_schedule s"
  "ds_blob_enabled (snd (noted_prompt r p a b s)) = ds_blob_enabled s"
  by (simp_all add: noted_prompt_def wrap_with_resume_context_def Let_def)

lemma interrupt_by_prompt_wait:
  assumes "ds_active_timer s = Some t" "at_type t = Timer_wait"
  shows "saved_wait (snd (interrupt_timer_for_prompt now p s)) =
     Some (round_sec (timer_remaining now t), at_reason t, at_budget t)"
    "ds_active_timer (snd (interrupt_timer_for_prompt now p s)) = None"
  using assms
  by (simp_all add: interrupt_timer_for_prompt_def saved_wait_def Let_def case_prod_beta)

lemma interrupt_by_prompt_cron:
  assumes "ds_active_timer s = Some t" "at_type t = Timer_cron"
  shows "map_option (\<lambda>c. (ic_remaining_ms c, ic_reason c))
       (ds_interrupted_cron_timer (snd (interrupt_timer_for_prompt now p s))) =
       Some (timer_remaining now t, at_reason t)"
    "ds_interrupted_wait_timer (snd (interrupt_timer_for_prompt now p s)) = ds_interrupted_wait_timer s"
  using assms
  by (simp_all add: interrupt_timer_for_prompt_def Let_def case_prod_beta)

lemma interrupt_by_prompt_keeps:
  assumes "ds_active_timer s = Some t" "at_type t = Timer_wait"
  shows "ds_interrupted_cron_timer (snd (interrupt_timer_for_prompt now p s)) = ds_interrupted_cron_timer s"
    "ds_cron_schedule (snd (interrupt_timer_for_prompt now p s)) = ds_cron_schedule s"
    "ds_cron_at_schedule (snd (interrupt_timer_for_prompt now p s)) = ds_cron_at_schedule s"
  using assms
  by (simp_all add: interrupt_timer_for_prompt_def Let_def case_prod_beta)

lemma interrupt_by_digest_wait:
  assumes "ds_active_timer s = Some t" "at_type t = Timer_wait"
  shows "saved_wait (snd (digest_turn now p s)) = Some (round_sec (timer_remaining now t), at_reason t, False)"
  using assms by (simp add: digest_turn_def saved_wait_def Let_def)

lemma interrupt_by_model_switch_wait:
  assumes "ds_active_timer s = Some t" "at_type t = Timer_wait"
  shows "saved_wait (capture_model_switch_interrupted_timer now s) =
     Some (max 1 (round_sec (timer_remaining now t)), at_reason t, False)"
  using assms by (simp add: capture_model_switch_interrupted_timer_def saved_wait_def Let_def)

lemma interrupt_cron_others:
  assumes "ds_active_timer s = Some t" "at_type t = Timer_cron"
  shows "map_option (\<lambda>c. (ic_remaining_ms c, ic_reason c))
       (ds_interrupted_cron_timer (snd (digest_turn now p s))) = Some (timer_remaining now t, at_reason t)"
    "ds_interrupted_wait_timer (snd (digest_turn now p s)) = ds_interrupted_wait_timer s"
    "map_option (\<lambda>c. (ic_remaining_ms c, ic_reason c))
       (ds_interrupted_cron_timer (capture_model_switch_interrupted_timer now s)) =
       Some (timer_remaining now t, at_reason t)"
    "ds_interrupted_wait_timer (capture_model_switch_interrupted_timer now s) = ds_interrupted_wait_timer s"
  using assms
  by (simp_all add: digest_turn_def capture_model_switch_interrupted_timer_def Let_def
      clear_pending_child_digest_def)

text \<open>The continuation on a saved wait, and without one.\<close>

lemma continuation_resumes_wait:
  assumes "saved_wait s = Some (secs, reason, False)" "0 < secs"
  shows "\<exists>evs s'. schedule_post_turn_continuation tz opts guid now s = Some (evs, s') \<and>
     ds_active_timer s' = Some (new_timer Timer_wait now (secs * 1000) reason)"
proof -
  obtain w where w: "ds_interrupted_wait_timer s = Some w" "iw_remaining_sec w = secs"
    "iw_reason w = reason" "\<not> iw_budget w"
    using assms(1) by (auto simp: saved_wait_def)
  let ?p = "park opts guid now ''timer'' Timer_wait secs (secs * 1000) reason []
      (s\<lparr>ds_interrupted_wait_timer := None\<rparr>)"
  have "schedule_post_turn_continuation tz opts guid now s = Some ?p"
    using w assms(2) by (simp add: schedule_post_turn_continuation_def Let_def)
  moreover obtain evs s' where "?p = (evs, s')" by (cases ?p)
  ultimately show ?thesis using parked by metis
qed

lemma continuation_drops_budget_wait:
  assumes "saved_wait s = Some (secs, reason, True)"
  shows "schedule_post_turn_continuation tz opts guid now s =
     continue_schedules tz opts guid now (s\<lparr>ds_interrupted_wait_timer := None\<rparr>)"
  using assms
  by (auto simp: schedule_post_turn_continuation_def saved_wait_def Let_def)

lemma continuation_without_wait:
  assumes "case ds_interrupted_wait_timer s of None \<Rightarrow> True | Some w \<Rightarrow> \<not> iw_budget w \<and> iw_remaining_sec w \<le> 0"
  shows "schedule_post_turn_continuation tz opts guid now s = continue_schedules tz opts guid now s"
  using assms
  by (auto simp: schedule_post_turn_continuation_def Let_def split: option.splits)

lemma continue_schedules_timer_type:
  assumes "continue_schedules tz opts guid now s = Some (evs, s')" "ds_active_timer s = None"
  shows "\<forall>t. ds_active_timer s' = Some t \<longrightarrow> at_type t \<noteq> Timer_wait"
  using assms
  by (auto simp: continue_schedules_def continue_cron_at_def Let_def new_timer_def
      split: if_splits option.splits dest!: parked)

text \<open>
  C34. An interrupted wait comes back: when a user's prompt, a child digest or a model switch takes over
  an agent's own wait that has at least half a second left, the continuation after the turn arms a
  wait with the same reason for the time that was left, to the nearest second.
\<close>

theorem interrupted_wait_resumes:
  assumes "ds_active_timer s = Some t" "at_type t = Timer_wait" "\<not> at_budget t"
    "500 \<le> timer_remaining now t"
    "s1 = snd (interrupt_timer_for_prompt now p s) \<or> s1 = snd (digest_turn now d s) \<or>
     s1 = capture_model_switch_interrupted_timer now s"
  shows "\<exists>evs s2 t2. schedule_post_turn_continuation tz opts guid later s1 = Some (evs, s2) \<and>
     ds_active_timer s2 = Some t2 \<and> at_type t2 = Timer_wait \<and> at_reason t2 = at_reason t \<and>
     \<bar>(at_deadline_ms t2 - later) - timer_remaining now t\<bar> \<le> 500"
proof -
  let ?r = "round_sec (timer_remaining now t)"
  have r: "0 < ?r" using assms(4) by (rule round_sec_pos)
  then have "max 1 ?r = ?r" by simp
  then have saved: "saved_wait s1 = Some (?r, at_reason t, False)"
    using assms interrupt_by_prompt_wait(1) [OF assms(1,2), of now p]
      interrupt_by_digest_wait [OF assms(1,2), of now d] interrupt_by_model_switch_wait [OF assms(1,2), of now]
    by auto
  obtain evs s2 where s2: "schedule_post_turn_continuation tz opts guid later s1 = Some (evs, s2)"
    "ds_active_timer s2 = Some (new_timer Timer_wait later (?r * 1000) (at_reason t))"
    using continuation_resumes_wait [OF saved r] by blast
  have "\<bar>?r * 1000 - timer_remaining now t\<bar> \<le> 500" by (rule round_sec_close)
  then show ?thesis using s2 by (simp add: new_timer_def)
qed

definition demo_wait :: "bool \<Rightarrow> active_timer" where
  "demo_wait budget = (new_timer Timer_wait 0 60000 ''build'')\<lparr>at_budget := budget\<rparr>"

definition demo_options :: durable_session_options where
  "demo_options = derive_options (new_session_input ''s1'' [])"

theorem interrupted_wait_resumes_witness:
  "\<exists>evs s2 t2. schedule_post_turn_continuation (\<lambda>_ _. 0) demo_options ''g'' 30000
     (snd (interrupt_timer_for_prompt 20000 ''hi'' (new_session_state\<lparr>ds_active_timer := Some (demo_wait False)\<rparr>))) =
       Some (evs, s2) \<and>
     ds_active_timer s2 = Some t2 \<and> at_type t2 = Timer_wait \<and> at_reason t2 = ''build'' \<and>
     \<bar>(at_deadline_ms t2 - 30000) - 40000\<bar> \<le> 500"
proof -
  let ?s = "new_session_state\<lparr>ds_active_timer := Some (demo_wait False)\<rparr>"
  have t: "timer_remaining 20000 (demo_wait False) = 40000" "at_type (demo_wait False) = Timer_wait"
    "at_reason (demo_wait False) = ''build''" "\<not> at_budget (demo_wait False)"
    by (simp_all add: timer_remaining_def demo_wait_def new_timer_def)
  then show ?thesis
    using interrupted_wait_resumes [of ?s "demo_wait False" 20000 "snd (interrupt_timer_for_prompt 20000 ''hi'' ?s)"
        "''hi''" "[]" "\<lambda>_ _. 0" demo_options "''g''" 30000]
    by simp
qed

text \<open>
  A wait that a user's prompt interrupts in its last half second is not resumed: its remaining time
  rounds to zero seconds, which the continuation takes for no wait at all, although the prompt told
  the agent that the timer will be resumed. (The model switch rounds up to one second.)
\<close>

theorem nearly_expired_wait_is_lost:
  assumes "ds_active_timer s = Some t" "at_type t = Timer_wait" "timer_remaining now t < 500"
    "schedule_post_turn_continuation tz opts guid later (snd (interrupt_timer_for_prompt now p s)) = Some (evs, s2)"
    "ds_active_timer s2 = Some t2"
  shows "at_type t2 \<noteq> Timer_wait"
proof -
  let ?s1 = "snd (interrupt_timer_for_prompt now p s)"
  have zero: "round_sec (timer_remaining now t) = 0"
    using assms(3) by (simp add: round_sec_small)
  have saved: "saved_wait ?s1 = Some (0, at_reason t, at_budget t)" "ds_active_timer ?s1 = None"
    using interrupt_by_prompt_wait [OF assms(1,2), of now p] zero by simp_all
  have other: "at_type t2 \<noteq> Timer_wait" if "continue_schedules tz opts guid later s' = Some (evs, s2)"
    "ds_active_timer s' = None" for s'
    using continue_schedules_timer_type [OF that] assms(5) by blast
  show ?thesis
  proof (cases "at_budget t")
    case True
    then show ?thesis
      using other [of "?s1\<lparr>ds_interrupted_wait_timer := None\<rparr>"] assms(4) saved
        continuation_drops_budget_wait [of ?s1 0 "at_reason t"] by simp
  next
    case False
    then have "schedule_post_turn_continuation tz opts guid later ?s1 = continue_schedules tz opts guid later ?s1"
      using saved(1) by (intro continuation_without_wait) (auto simp: saved_wait_def split: option.splits)
    then show ?thesis using other [of ?s1] assms(4) saved(2) by simp
  qed
qed

theorem nearly_expired_wait_is_lost_witness:
  "let s = new_session_state\<lparr>ds_active_timer := Some (demo_wait False), ds_blob_enabled := True\<rparr>
   in \<exists>evs s2 t2. schedule_post_turn_continuation (\<lambda>_ _. 0) demo_options ''g'' 61000
             (snd (interrupt_timer_for_prompt 59600 ''hi'' s)) = Some (evs, s2) \<and>
        ds_active_timer s2 = Some t2 \<and> at_type t2 \<noteq> Timer_wait"
proof -
  let ?s = "new_session_state\<lparr>ds_active_timer := Some (demo_wait False), ds_blob_enabled := True\<rparr>"
  let ?r = "schedule_post_turn_continuation (\<lambda>_ _. 0) demo_options ''g'' 61000
             (snd (interrupt_timer_for_prompt 59600 ''hi'' ?s))"
  have t: "timer_remaining 59600 (demo_wait False) = 400" "at_type (demo_wait False) = Timer_wait"
    by (simp_all add: timer_remaining_def demo_wait_def new_timer_def)
  have "\<exists>evs s2 t2. ?r = Some (evs, s2) \<and> ds_active_timer s2 = Some t2"
    by (simp add: schedule_post_turn_continuation_def interrupt_timer_for_prompt_def noted_prompt_def
        case_prod_beta Let_def demo_wait_def new_timer_def timer_remaining_def round_sec_def
        continue_schedules_def new_session_state_def new_session_input_def create_initial_state_def
        derive_options_def demo_options_def)
  then obtain evs s2 t2 where r: "?r = Some (evs, s2)" "ds_active_timer s2 = Some t2" by blast
  have "at_type t2 \<noteq> Timer_wait"
    using nearly_expired_wait_is_lost [OF _ t(2) _ r] t(1) by simp
  then show ?thesis using r by (auto simp: Let_def)
qed

text \<open>
  A provider-budget pause, which is meant to be asked for again by each turn and never re-armed, is
  re-armed as an ordinary wait when a model switch or a child digest interrupts it: both save it
  without its budget flag. Interrupted by a user's prompt it keeps the flag and is dropped, as meant.
\<close>

theorem budget_pause_rearmed:
  assumes "ds_active_timer s = Some t" "at_type t = Timer_wait" "at_budget t"
    "500 \<le> timer_remaining now t"
    "s1 = snd (digest_turn now d s) \<or> s1 = capture_model_switch_interrupted_timer now s"
  shows "(\<exists>evs s2 t2. schedule_post_turn_continuation tz opts guid later s1 = Some (evs, s2) \<and>
       ds_active_timer s2 = Some t2 \<and> at_type t2 = Timer_wait \<and> at_reason t2 = at_reason t) \<and>
     (\<forall>evs s2 t2. schedule_post_turn_continuation tz opts guid later
         (snd (interrupt_timer_for_prompt now p s)) = Some (evs, s2) \<longrightarrow>
       ds_active_timer s2 = Some t2 \<longrightarrow> at_type t2 \<noteq> Timer_wait)"
proof (intro conjI allI impI)
  let ?r = "round_sec (timer_remaining now t)"
  have r: "0 < ?r" using assms(4) by (rule round_sec_pos)
  then have "max 1 ?r = ?r" by simp
  then have saved: "saved_wait s1 = Some (?r, at_reason t, False)"
    using assms(5) interrupt_by_digest_wait [OF assms(1,2), of now d]
      interrupt_by_model_switch_wait [OF assms(1,2), of now]
    by auto
  obtain evs s2 where "schedule_post_turn_continuation tz opts guid later s1 = Some (evs, s2)"
    "ds_active_timer s2 = Some (new_timer Timer_wait later (?r * 1000) (at_reason t))"
    using continuation_resumes_wait [OF saved r] by blast
  then show "\<exists>evs s2 t2. schedule_post_turn_continuation tz opts guid later s1 = Some (evs, s2) \<and>
       ds_active_timer s2 = Some t2 \<and> at_type t2 = Timer_wait \<and> at_reason t2 = at_reason t"
    by (simp add: new_timer_def)
next
  fix evs s2 t2
  let ?s1 = "snd (interrupt_timer_for_prompt now p s)"
  assume e: "schedule_post_turn_continuation tz opts guid later ?s1 = Some (evs, s2)"
    "ds_active_timer s2 = Some t2"
  have saved: "saved_wait ?s1 = Some (round_sec (timer_remaining now t), at_reason t, True)"
    "ds_active_timer ?s1 = None"
    using interrupt_by_prompt_wait [OF assms(1,2), of now p] assms(3) by simp_all
  have "continue_schedules tz opts guid later (?s1\<lparr>ds_interrupted_wait_timer := None\<rparr>) = Some (evs, s2)"
    using e(1) by (simp add: continuation_drops_budget_wait [OF saved(1)])
  from continue_schedules_timer_type [OF this] show "at_type t2 \<noteq> Timer_wait"
    using e(2) saved(2) by simp
qed

theorem budget_pause_rearmed_witness:
  "let s1 = capture_model_switch_interrupted_timer 20000
             (new_session_state\<lparr>ds_active_timer := Some (demo_wait True)\<rparr>)
   in \<exists>evs s2 t2. schedule_post_turn_continuation (\<lambda>_ _. 0) demo_options ''g'' 30000 s1 =
        Some (evs, s2) \<and> ds_active_timer s2 = Some t2 \<and> at_type t2 = Timer_wait \<and> at_reason t2 = ''build''"
proof -
  let ?s = "new_session_state\<lparr>ds_active_timer := Some (demo_wait True)\<rparr>"
  have t: "timer_remaining 20000 (demo_wait True) = 40000" "at_type (demo_wait True) = Timer_wait"
    "at_reason (demo_wait True) = ''build''" "at_budget (demo_wait True)"
    by (simp_all add: timer_remaining_def demo_wait_def new_timer_def)
  then show ?thesis
    using budget_pause_rearmed [of ?s "demo_wait True" 20000 "capture_model_switch_interrupted_timer 20000 ?s"
        "[]" "\<lambda>_ _. 0" demo_options "''g''" 30000 "''hi''"]
    by (simp add: Let_def)
qed

text \<open>
  Continue-as-new forgets that a wait is a budget pause: the runtime restored from the carried
  input never has the flag, so a prompt that arrives afterwards saves the wait as an ordinary one
  and the continuation re-arms it, where without the continue-as-new it would have been dropped.
\<close>

theorem continue_as_new_forgets_budget:
  assumes "runtime_ok rt" "ds_active_timer (rt_state rt) = Some t" "at_type t = Timer_wait" "at_budget t"
    "500 \<le> at_deadline_ms t - now"
  shows "let rt' = build_runtime init_now rv cv ver
               (versioned_continue_as_new now rt (build_continue_input rt no_overrides));
             s1 = snd (interrupt_timer_for_prompt init_now p (rt_state rt'))
         in \<exists>evs s2 t2. schedule_post_turn_continuation tz (rt_options rt') guid later s1 = Some (evs, s2) \<and>
              ds_active_timer s2 = Some t2 \<and> at_type t2 = Timer_wait \<and> at_reason t2 = at_reason t"
proof -
  let ?rt' = "build_runtime init_now rv cv ver
               (versioned_continue_as_new now rt (build_continue_input rt no_overrides))"
  let ?t = "resume_timer now init_now t"
  have active: "ds_active_timer (rt_state ?rt') = Some ?t"
    by (rule continued_active_timer [OF assms(1,2)])
  have t: "at_type ?t = Timer_wait" "\<not> at_budget ?t" "500 \<le> timer_remaining init_now ?t"
    "at_reason ?t = at_reason t"
    using assms(3,5) by (simp_all add: resume_timer_def timer_remaining_def)
  let ?r = "round_sec (timer_remaining init_now ?t)"
  have saved: "saved_wait (snd (interrupt_timer_for_prompt init_now p (rt_state ?rt'))) =
      Some (?r, at_reason t, False)"
    using interrupt_by_prompt_wait(1) [OF active t(1)] t by simp
  obtain evs s2 where "schedule_post_turn_continuation tz (rt_options ?rt') guid later
        (snd (interrupt_timer_for_prompt init_now p (rt_state ?rt'))) = Some (evs, s2)"
    "ds_active_timer s2 = Some (new_timer Timer_wait later (?r * 1000) (at_reason t))"
    using continuation_resumes_wait [OF saved round_sec_pos [OF t(3)]] by blast
  then show ?thesis unfolding Let_def by (simp add: new_timer_def)
qed

end
