(* ===== verification/OrchQueue.thy ===== *)
theory OrchQueue
  imports OrchTimers
begin

text \<open>
  The orchestration's work queue (\<open>packages/sdk/src/orchestration/queue.ts\<close>, lines 43 to 262): items
  are kept in twenty key-value buckets, each a JSON array of at most \<open>MAX_BUCKET_BYTES\<close>. Shown: read as
  the concatenation of its buckets the store is a list queue; dispatching takes the interactive items
  first and otherwise keeps the order; an append keeps every item while buckets are left. And where
  it fails: an item put back at the head can land at the end, and an overflow drops a prompt whose
  id has been counted as accepted.

  The value of a key is its parsed array (a key whose text does not parse reads as a missing one).
\<close>

section \<open>The length of serialized values\<close>

text \<open>
  \<open>JSON.stringify(v).length\<close>, for the characters and numbers of the model.
\<close>

definition escaped_length :: "char \<Rightarrow> nat" where
  "escaped_length c =
     (if c = CHR 0x22 \<or> c = CHR 0x5C \<or> c \<in> {CHR 0x08, CHR 0x09, CHR 0x0A, CHR 0x0C, CHR 0x0D} then 2
      else if of_char c < (32 :: nat) then 6 else 1)"

definition string_length :: "string \<Rightarrow> nat" where
  "string_length s = 2 + sum_list (map escaped_length s)"

definition number_length :: "rat \<Rightarrow> nat" where
  "number_length q = length (number_text q)"

lemma size_entry: "(k, v) \<in> set kvs \<Longrightarrow> size v \<le> size_list (size_prod (\<lambda>x. 0) size) kvs"
  by (rule size_list_estimation') auto

function json_length :: "jsval \<Rightarrow> nat" where
  "json_length JUndef = 4"
| "json_length JNull = 4"
| "json_length (JBool b) = (if b then 4 else 5)"
| "json_length (JNum q) = number_length q"
| "json_length JNaN = 4"
| "json_length (JInf b) = 4"
| "json_length (JStr s) = string_length s"
| "json_length (JArr xs) = 2 + (length xs - 1) + sum_list (map json_length xs)"
| "json_length (JObj kvs) =
     (let present = filter (\<lambda>kv. snd kv \<noteq> JUndef) kvs
      in 2 + (length present - 1) +
         sum_list (map (\<lambda>kv. string_length (fst kv) + 1 + json_length (snd kv)) present))"
  by pat_completeness auto
termination
  by (relation "measure size") (auto simp: less_Suc_eq_le size_list_estimation' size_entry)

section \<open>Queue items\<close>

record prompt_item =
  pi_prompt :: string
  pi_bootstrap :: bool
  pi_required_tool :: "string option"
  pi_client_message_ids :: "string list option"
  pi_sender :: jsval
  pi_attachments :: "prompt_attachment_ref list option"

record answer_item =
  ai_expected_question :: jsval
  ai_answer :: jsval
  ai_was_freeform :: jsval
  ai_sender :: jsval

datatype fifo_item =
    Prompt_item prompt_item
  | Answer_item answer_item
  | Timer_item active_timer int
  | Agents_done_item string
  | Unknown_item string

definition opt_entry :: "string \<Rightarrow> jsval option \<Rightarrow> config_obj" where
  "opt_entry k v = (case v of None \<Rightarrow> [] | Some x \<Rightarrow> [(k, x)])"

definition attachment_json :: "prompt_attachment_ref \<Rightarrow> jsval" where
  "attachment_json a = JObj [(''filename'', JStr (pa_filename a)),
     (''contentType'', JStr (pa_content_type a)), (''sizeBytes'', JNum (pa_size_bytes a))]"

fun timer_type_text :: "timer_type \<Rightarrow> string" where
  "timer_type_text Timer_wait = ''wait''"
| "timer_type_text Timer_cron = ''cron''"
| "timer_type_text Timer_cron_at = ''cron_at''"
| "timer_type_text Timer_idle = ''idle''"
| "timer_type_text Timer_agent_poll = ''agent-poll''"
| "timer_type_text Timer_input_grace = ''input-grace''"

definition timer_json :: "active_timer \<Rightarrow> jsval" where
  "timer_json t = JObj
     ([(''deadlineMs'', JNum (of_int (at_deadline_ms t))),
       (''originalDurationMs'', JNum (of_int (at_original_duration_ms t))),
       (''reason'', JStr (at_reason t)), (''type'', JStr (timer_type_text (at_type t)))] @
      (if at_should_rehydrate t then [(''shouldRehydrate'', JBool True)] else []) @
      opt_entry ''waitPlan'' (at_wait_plan t) @
      opt_entry ''content'' (map_option JStr (at_content t)) @
      opt_entry ''question'' (map_option JStr (at_question t)) @
      opt_entry ''choices'' (map_option (JArr \<circ> map JStr) (at_choices t)) @
      opt_entry ''allowFreeform'' (map_option JBool (at_allow_freeform t)) @
      opt_entry ''agentIds'' (map_option (JArr \<circ> map JStr) (at_agent_ids t)) @
      (if at_budget t then [(''budget'', JBool True)] else []))"

fun item_json :: "fifo_item \<Rightarrow> jsval" where
  "item_json (Prompt_item p) = JObj
     ([(''kind'', JStr ''prompt''), (''prompt'', JStr (pi_prompt p)), (''bootstrap'', JBool (pi_bootstrap p))] @
      opt_entry ''requiredTool'' (map_option JStr (pi_required_tool p)) @
      opt_entry ''clientMessageIds'' (map_option (JArr \<circ> map JStr) (pi_client_message_ids p)) @
      [(''sender'', pi_sender p)] @
      opt_entry ''attachments'' (map_option (JArr \<circ> map attachment_json) (pi_attachments p)))"
| "item_json (Answer_item a) = JObj
     [(''kind'', JStr ''answer''), (''expectedQuestion'', ai_expected_question a),
      (''answer'', ai_answer a), (''wasFreeform'', ai_was_freeform a), (''sender'', ai_sender a)]"
| "item_json (Timer_item t fired_at) = JObj
     [(''kind'', JStr ''timer''), (''timer'', timer_json t), (''firedAtMs'', JNum (of_int fired_at))]"
| "item_json (Agents_done_item s) = JObj [(''kind'', JStr ''agents-done''), (''summary'', JStr s)]"
| "item_json (Unknown_item k) = JObj [(''kind'', JStr k)]"

section \<open>Buckets\<close>

type_synonym fifo_kv = "nat \<rightharpoonup> fifo_item list"

definition bucket_length :: "fifo_item list \<Rightarrow> nat" where
  "bucket_length items = json_length (JArr (map item_json items))"

definition read_fifo_bucket :: "fifo_kv \<Rightarrow> nat \<Rightarrow> fifo_item list" where
  "read_fifo_bucket kv i = (case kv i of None \<Rightarrow> [] | Some items \<Rightarrow> items)"

definition write_fifo_bucket :: "nat \<Rightarrow> fifo_item list \<Rightarrow> fifo_kv \<Rightarrow> fifo_kv" where
  "write_fifo_bucket i items kv = (if items = [] then kv(i := None) else kv(i \<mapsto> items))"

definition head_bucket :: "fifo_kv \<Rightarrow> nat option" where
  "head_bucket kv = List.find (\<lambda>i. read_fifo_bucket kv i \<noteq> []) [0..<fifo_bucket_count]"

definition last_bucket :: "fifo_kv \<Rightarrow> nat option" where
  "last_bucket kv = List.find (\<lambda>i. read_fifo_bucket kv i \<noteq> []) (rev [0..<fifo_bucket_count])"

fun append_from :: "nat \<Rightarrow> fifo_item list \<Rightarrow> fifo_kv \<Rightarrow> fifo_kv" where
  "append_from i [] kv = kv"
| "append_from i (item # rest) kv =
     (let bucket = read_fifo_bucket kv i
      in if bucket_length (bucket @ [item]) > max_bucket_bytes then
           (let kv' = write_fifo_bucket i bucket kv
            in if Suc i \<ge> fifo_bucket_count then kv'
               else append_from (Suc i) rest (write_fifo_bucket (Suc i) [item] kv'))
         else append_from i rest (write_fifo_bucket i (bucket @ [item]) kv))"

definition append_to_fifo :: "fifo_item list \<Rightarrow> fifo_kv \<Rightarrow> fifo_kv" where
  "append_to_fifo items kv = append_from (coalesce (last_bucket kv) 0) items kv"

definition prepend_to_fifo :: "fifo_item \<Rightarrow> fifo_kv \<Rightarrow> fifo_kv" where
  "prepend_to_fifo item kv =
     (let head = coalesce (head_bucket kv) 0; bucket = item # read_fifo_bucket kv head
      in if bucket_length bucket \<le> max_bucket_bytes then write_fifo_bucket head bucket kv
         else append_to_fifo [item] kv)"

definition pop_fifo_item :: "fifo_kv \<Rightarrow> (fifo_item \<times> fifo_kv) option" where
  "pop_fifo_item kv =
     (case head_bucket kv of
        None \<Rightarrow> None
      | Some i \<Rightarrow> (case read_fifo_bucket kv i of
          [] \<Rightarrow> None
        | first # rest \<Rightarrow> Some (first, write_fifo_bucket i rest kv)))"

definition pop_first_fifo_item_matching ::
  "(fifo_item \<Rightarrow> bool) \<Rightarrow> fifo_kv \<Rightarrow> (fifo_item \<times> fifo_kv) option" where
  "pop_first_fifo_item_matching P kv =
     (case List.find (\<lambda>i. list_ex P (read_fifo_bucket kv i)) [0..<fifo_bucket_count] of
        None \<Rightarrow> None
      | Some i \<Rightarrow> (case List.extract P (read_fifo_bucket kv i) of
          None \<Rightarrow> None
        | Some (before, item, after) \<Rightarrow> Some (item, write_fifo_bucket i (before @ after) kv)))"

fun interactive_item :: "fifo_item \<Rightarrow> bool" where
  "interactive_item (Prompt_item _) = True"
| "interactive_item (Answer_item _) = True"
| "interactive_item _ = False"

definition pop_next_dispatch_fifo_item :: "fifo_kv \<Rightarrow> (fifo_item \<times> fifo_kv) option" where
  "pop_next_dispatch_fifo_item kv =
     (case pop_first_fifo_item_matching interactive_item kv of
        Some r \<Rightarrow> Some r
      | None \<Rightarrow> pop_fifo_item kv)"

definition has_fifo_items :: "fifo_kv \<Rightarrow> bool" where
  "has_fifo_items kv = list_ex (\<lambda>i. read_fifo_bucket kv i \<noteq> []) [0..<fifo_bucket_count]"

section \<open>Accepting prompts\<close>

definition touch_item_ids :: "fifo_item \<Rightarrow> durable_session_state \<Rightarrow> durable_session_state" where
  "touch_item_ids item state =
     (case item of
        Prompt_item p \<Rightarrow> touch_recent_client_message_ids
          (filter (\<lambda>mid. mid \<noteq> []) (coalesce (pi_client_message_ids p) [])) state
      | _ \<Rightarrow> state)"

definition append_prompt_stash_to_fifo ::
  "fifo_item list \<Rightarrow> fifo_kv \<times> durable_session_state \<Rightarrow> fifo_kv \<times> durable_session_state" where
  "append_prompt_stash_to_fifo stash s = (append_to_fifo stash (fst s), fold touch_item_ids stash (snd s))"

definition duplicate_client_message_ids ::
  "durable_session_state \<Rightarrow> string list \<Rightarrow> string set \<Rightarrow> string list" where
  "duplicate_client_message_ids state ids pending_ids =
     filter (\<lambda>mid. mid \<in> set (ds_recent_client_message_ids state) \<or> mid \<in> pending_ids) ids"

definition needs_blocking_dequeue :: "fifo_kv \<Rightarrow> durable_session_state \<Rightarrow> bool" where
  "needs_blocking_dequeue kv state \<longleftrightarrow>
     ds_legacy_pending_message state = JUndef \<and> ds_active_timer state = None \<and>
     \<not> has_ready_pending_child_digest state \<and> ds_pending_tool_actions state = [] \<and>
     \<not> truthy_str (ds_pending_prompt state) \<and> \<not> has_fifo_items kv"

section \<open>The store as a list\<close>

definition fifo_items :: "fifo_kv \<Rightarrow> fifo_item list" where
  "fifo_items kv = concat (map (read_fifo_bucket kv) [0..<fifo_bucket_count])"

lemma read_write [simp]:
  "read_fifo_bucket (write_fifo_bucket i items kv) j = (if j = i then items else read_fifo_bucket kv j)"
  by (simp add: read_fifo_bucket_def write_fifo_bucket_def)

definition items_before :: "nat \<Rightarrow> fifo_kv \<Rightarrow> fifo_item list" where
  "items_before i kv = concat (map (read_fifo_bucket kv) [0..<i])"

definition items_after :: "nat \<Rightarrow> fifo_kv \<Rightarrow> fifo_item list" where
  "items_after i kv = concat (map (read_fifo_bucket kv) [Suc i..<fifo_bucket_count])"

lemma items_around_write [simp]:
  "items_before i (write_fifo_bucket i items kv) = items_before i kv"
  "items_after i (write_fifo_bucket i items kv) = items_after i kv"
  by (auto simp: items_before_def items_after_def intro!: arg_cong [where f = concat])

lemma fifo_split:
  "i < fifo_bucket_count \<Longrightarrow> fifo_items kv = items_before i kv @ read_fifo_bucket kv i @ items_after i kv"
proof -
  assume i: "i < fifo_bucket_count"
  then have "[0..<fifo_bucket_count] = [0..<i] @ i # [Suc i..<fifo_bucket_count]"
    using upt_add_eq_append [of 0 i "fifo_bucket_count - i"] upt_conv_Cons [of i fifo_bucket_count] by simp
  then show ?thesis by (simp add: fifo_items_def items_before_def items_after_def)
qed

lemma items_before_Nil: "\<forall>j < i. read_fifo_bucket kv j = [] \<Longrightarrow> items_before i kv = []"
  by (simp add: items_before_def)

lemma items_after_Nil:
  "\<forall>j. i < j \<and> j < fifo_bucket_count \<longrightarrow> read_fifo_bucket kv j = [] \<Longrightarrow> items_after i kv = []"
  by (simp add: items_after_def)

lemma fifo_items_Nil: "fifo_items kv = [] \<longleftrightarrow> (\<forall>i < fifo_bucket_count. read_fifo_bucket kv i = [])"
  by (auto simp: fifo_items_def)

lemma head_bucket_None: "head_bucket kv = None \<longleftrightarrow> fifo_items kv = []"
  by (auto simp: head_bucket_def find_None_iff fifo_items_Nil)

lemma find_upt: "List.find P [0..<n] = Some i \<Longrightarrow> i < n \<and> P i \<and> (\<forall>j < i. \<not> P j)"
  by (auto simp: find_Some_iff)

lemma head_bucket_Some:
  assumes "head_bucket kv = Some i"
  shows "i < fifo_bucket_count" "read_fifo_bucket kv i \<noteq> []"
    "fifo_items kv = read_fifo_bucket kv i @ items_after i kv"
  using find_upt [of "\<lambda>i. read_fifo_bucket kv i \<noteq> []" fifo_bucket_count i] assms
    fifo_split [of i kv] items_before_Nil [of i kv]
  by (auto simp: head_bucket_def)

lemma pop_fifo_item_None: "pop_fifo_item kv = None \<longleftrightarrow> fifo_items kv = []"
  using head_bucket_Some [of kv] head_bucket_None [of kv]
  by (auto simp: pop_fifo_item_def split: option.splits list.splits)

lemma pop_fifo_item_Some:
  assumes "pop_fifo_item kv = Some (x, kv')"
  shows "fifo_items kv = x # fifo_items kv'"
proof -
  obtain i xs where i: "head_bucket kv = Some i" "read_fifo_bucket kv i = x # xs"
      "kv' = write_fifo_bucket i xs kv"
    using assms by (auto simp: pop_fifo_item_def split: option.splits list.splits)
  have "items_before i kv = []"
    using head_bucket_Some [OF i(1)] fifo_split [of i kv] by simp
  then show ?thesis
    using head_bucket_Some [OF i(1)] fifo_split [of i kv'] i by simp
qed

lemma extract_split:
  "List.extract P xs = Some (ys, x, zs) \<longleftrightarrow> xs = ys @ x # zs \<and> P x \<and> (\<forall>y \<in> set ys. \<not> P y)"
  by (auto simp: extract_Some_iff list_ex_iff)

lemma pop_matching_None:
  "pop_first_fifo_item_matching P kv = None \<longleftrightarrow> (\<forall>x \<in> set (fifo_items kv). \<not> P x)"
proof -
  have "(\<exists>x \<in> set (fifo_items kv). P x) \<longleftrightarrow>
      (\<exists>i < fifo_bucket_count. list_ex P (read_fifo_bucket kv i))"
    by (auto simp: fifo_items_def list_ex_iff)
  moreover have "pop_first_fifo_item_matching P kv = None \<longleftrightarrow>
      (\<forall>i < fifo_bucket_count. \<not> list_ex P (read_fifo_bucket kv i))"
  proof (cases "List.find (\<lambda>i. list_ex P (read_fifo_bucket kv i)) [0..<fifo_bucket_count]")
    case None
    then show ?thesis
      using None [unfolded find_None_iff] by (simp add: pop_first_fifo_item_matching_def)
  next
    case (Some i)
    then have "i < fifo_bucket_count" "list_ex P (read_fifo_bucket kv i)"
      using find_upt by blast+
    moreover from this(2) obtain r where "List.extract P (read_fifo_bucket kv i) = Some r"
      using extract_None_iff [of P "read_fifo_bucket kv i"] by (auto simp: list_ex_iff)
    ultimately show ?thesis
      using Some by (auto simp: pop_first_fifo_item_matching_def split: prod.splits)
  qed
  ultimately show ?thesis by blast
qed

lemma pop_matching_Some:
  assumes "pop_first_fifo_item_matching P kv = Some (x, kv')"
  shows "\<exists>pre post. fifo_items kv = pre @ x # post \<and> P x \<and> (\<forall>y \<in> set pre. \<not> P y) \<and>
    fifo_items kv' = pre @ post"
proof -
  obtain i before after where i: "List.find (\<lambda>i. list_ex P (read_fifo_bucket kv i)) [0..<fifo_bucket_count] = Some i"
      and b: "List.extract P (read_fifo_bucket kv i) = Some (before, x, after)"
      and kv': "kv' = write_fifo_bucket i (before @ after) kv"
    using assms by (auto simp: pop_first_fifo_item_matching_def split: option.splits)
  have lt: "i < fifo_bucket_count" and none: "\<forall>j < i. \<not> list_ex P (read_fifo_bucket kv j)"
    using find_upt [OF i] by auto
  have "\<forall>y \<in> set (items_before i kv). \<not> P y"
    using none by (auto simp: items_before_def list_ex_iff)
  then show ?thesis
    using fifo_split [OF lt, of kv] fifo_split [OF lt, of kv'] b
    by (intro exI [of _ "items_before i kv @ before"] exI [of _ "after @ items_after i kv"])
      (auto simp: kv' extract_split)
qed

lemma has_fifo_items_iff: "has_fifo_items kv \<longleftrightarrow> fifo_items kv \<noteq> []"
  by (auto simp: has_fifo_items_def fifo_items_Nil list_ex_iff)

lemma last_bucket_empty_after:
  assumes "j < fifo_bucket_count" "coalesce (last_bucket kv) 0 < j"
  shows "read_fifo_bucket kv j = []"
proof (cases "last_bucket kv")
  case None
  then show ?thesis using assms by (auto simp: last_bucket_def find_None_iff)
next
  case (Some i)
  then obtain k where k: "k < fifo_bucket_count" "i = rev [0..<fifo_bucket_count] ! k"
      "\<forall>m < k. read_fifo_bucket kv (rev [0..<fifo_bucket_count] ! m) = []"
    by (auto simp: last_bucket_def find_Some_iff)
  have "i = fifo_bucket_count - Suc k" using k by (simp add: rev_nth)
  then have "fifo_bucket_count - Suc j < k" using assms Some k by simp
  then have "read_fifo_bucket kv (rev [0..<fifo_bucket_count] ! (fifo_bucket_count - Suc j)) = []"
    using k by blast
  then show ?thesis using assms by (simp add: rev_nth Suc_diff_Suc)
qed

lemma last_bucket_less: "coalesce (last_bucket kv) 0 < fifo_bucket_count"
proof (cases "last_bucket kv")
  case None
  then show ?thesis by (simp add: fifo_bucket_count_def)
next
  case (Some i)
  then have "i \<in> set (rev [0..<fifo_bucket_count])"
    unfolding last_bucket_def find_Some_iff by (metis nth_mem)
  then show ?thesis using Some by simp
qed

section \<open>A queue that serves urgent items first\<close>

fun serve :: "('q \<Rightarrow> ('i \<times> 'q) option) \<Rightarrow> nat \<Rightarrow> 'q \<Rightarrow> 'i list" where
  "serve pop 0 q = []"
| "serve pop (Suc n) q = (case pop q of None \<Rightarrow> [] | Some (x, q') \<Rightarrow> x # serve pop n q')"

locale urgent_queue =
  fixes items :: "'q \<Rightarrow> 'i list"
    and pop :: "'q \<Rightarrow> ('i \<times> 'q) option"
    and urgent :: "'i \<Rightarrow> bool"
  assumes pop_empty: "pop q = None \<longleftrightarrow> items q = []"
    and pop_urgent: "pop q = Some (x, q') \<Longrightarrow> \<exists>y \<in> set (items q). urgent y \<Longrightarrow>
      \<exists>pre post. items q = pre @ x # post \<and> urgent x \<and> (\<forall>y \<in> set pre. \<not> urgent y) \<and> items q' = pre @ post"
    and pop_first: "pop q = Some (x, q') \<Longrightarrow> \<forall>y \<in> set (items q). \<not> urgent y \<Longrightarrow> items q = x # items q'"
begin

lemma pop_length: "pop q = Some (x, q') \<Longrightarrow> length (items q) = Suc (length (items q'))"
  using pop_urgent [of q x q'] pop_first [of q x q'] by fastforce

lemma pop_order:
  assumes "pop q = Some (x, q')"
  shows "filter urgent (items q) @ filter (\<lambda>i. \<not> urgent i) (items q) =
    x # filter urgent (items q') @ filter (\<lambda>i. \<not> urgent i) (items q')"
proof (cases "\<exists>y \<in> set (items q). urgent y")
  case True
  then obtain pre post where "items q = pre @ x # post" "urgent x" "\<forall>y \<in> set pre. \<not> urgent y"
      "items q' = pre @ post"
    using pop_urgent [OF assms] by blast
  then show ?thesis by simp
next
  case False
  then show ?thesis using pop_first [OF assms] by (auto simp: filter_empty_conv)
qed

lemma serve_order:
  "length (items q) \<le> n \<Longrightarrow>
   serve pop n q = filter urgent (items q) @ filter (\<lambda>i. \<not> urgent i) (items q)"
proof (induction n arbitrary: q)
  case 0
  then show ?case by simp
next
  case (Suc n)
  show ?case
  proof (cases "pop q")
    case None
    then have "items q = []" using pop_empty by blast
    then show ?thesis using None by simp
  next
    case (Some r)
    then obtain x q' where r: "pop q = Some (x, q')" by (cases r) auto
    then show ?thesis using Suc pop_length [OF r] pop_order [OF r] by simp
  qed
qed

end

interpretation arrival: urgent_queue fifo_items pop_fifo_item "\<lambda>i. False"
  by unfold_locales (simp_all add: pop_fifo_item_None pop_fifo_item_Some)

lemma dispatch_None: "pop_next_dispatch_fifo_item kv = None \<longleftrightarrow> fifo_items kv = []"
proof (cases "pop_first_fifo_item_matching interactive_item kv")
  case None
  then show ?thesis by (simp add: pop_next_dispatch_fifo_item_def pop_fifo_item_None)
next
  case (Some r)
  then have "fifo_items kv \<noteq> []" using pop_matching_None [of interactive_item kv] by fastforce
  then show ?thesis using Some by (simp add: pop_next_dispatch_fifo_item_def)
qed

lemma dispatch_interactive:
  "pop_next_dispatch_fifo_item kv = Some r \<Longrightarrow> \<exists>y \<in> set (fifo_items kv). interactive_item y \<Longrightarrow>
   pop_first_fifo_item_matching interactive_item kv = Some r"
  using pop_matching_None [of interactive_item kv]
  by (auto simp: pop_next_dispatch_fifo_item_def split: option.splits)

lemma dispatch_first:
  "pop_next_dispatch_fifo_item kv = Some r \<Longrightarrow> \<forall>y \<in> set (fifo_items kv). \<not> interactive_item y \<Longrightarrow>
   pop_fifo_item kv = Some r"
  using pop_matching_None [of interactive_item kv] by (simp add: pop_next_dispatch_fifo_item_def)

interpretation dispatch: urgent_queue fifo_items pop_next_dispatch_fifo_item interactive_item
proof
  show "pop_next_dispatch_fifo_item q = None \<longleftrightarrow> fifo_items q = []" for q
    by (rule dispatch_None)
  show "\<exists>pre post. fifo_items q = pre @ x # post \<and> interactive_item x \<and>
      (\<forall>y \<in> set pre. \<not> interactive_item y) \<and> fifo_items q' = pre @ post"
    if "pop_next_dispatch_fifo_item q = Some (x, q')" "\<exists>y \<in> set (fifo_items q). interactive_item y" for q x q'
    using pop_matching_Some dispatch_interactive [OF that] by blast
  show "fifo_items q = x # fifo_items q'"
    if "pop_next_dispatch_fifo_item q = Some (x, q')" "\<forall>y \<in> set (fifo_items q). \<not> interactive_item y" for q x q'
    using pop_fifo_item_Some dispatch_first [OF that] by blast
qed

text \<open>
  C29. Dispatching until the store is empty hands out every queued item once: first the prompts and
  answers in the order they were queued, then the rest in theirs.
\<close>

theorem dispatch_order:
  assumes "length (fifo_items kv) \<le> n"
  shows "serve pop_next_dispatch_fifo_item n kv =
    filter interactive_item (fifo_items kv) @ filter (\<lambda>i. \<not> interactive_item i) (fifo_items kv)"
  using assms by (rule dispatch.serve_order)

definition text_prompt :: "string \<Rightarrow> fifo_item" where
  "text_prompt s = Prompt_item \<lparr>pi_prompt = s, pi_bootstrap = False, pi_required_tool = None,
     pi_client_message_ids = None, pi_sender = JUndef, pi_attachments = None\<rparr>"

theorem dispatch_order_witness:
  "serve pop_next_dispatch_fifo_item 9
     [0 \<mapsto> [Agents_done_item ''x'', text_prompt ''a''], 3 \<mapsto> [text_prompt ''b'']] =
   [text_prompt ''a'', text_prompt ''b'', Agents_done_item ''x'']"
proof -
  let ?kv = "[0 \<mapsto> [Agents_done_item ''x'', text_prompt ''a''], 3 \<mapsto> [text_prompt ''b'']]"
  have "fifo_items ?kv = [Agents_done_item ''x'', text_prompt ''a'', text_prompt ''b'']"
    by (simp add: fifo_items_def read_fifo_bucket_def fifo_bucket_count_def upt_rec)
  then show ?thesis using dispatch_order [of ?kv 9] by (simp add: text_prompt_def)
qed

section \<open>Appending\<close>

lemma fifo_items_cong:
  "(\<And>i. i < fifo_bucket_count \<Longrightarrow> read_fifo_bucket kv i = read_fifo_bucket kv' i) \<Longrightarrow>
   fifo_items kv = fifo_items kv'"
  by (auto simp: fifo_items_def intro!: arg_cong [where f = concat])

definition empty_after :: "nat \<Rightarrow> fifo_kv \<Rightarrow> bool" where
  "empty_after i kv \<longleftrightarrow> i < fifo_bucket_count \<and>
     (\<forall>j. i < j \<and> j < fifo_bucket_count \<longrightarrow> read_fifo_bucket kv j = [])"

lemma empty_after_last: "empty_after (coalesce (last_bucket kv) 0) kv"
  using last_bucket_less last_bucket_empty_after by (simp add: empty_after_def)

lemma write_at_end:
  "empty_after i kv \<Longrightarrow>
   fifo_items (write_fifo_bucket i (read_fifo_bucket kv i @ [x]) kv) = fifo_items kv @ [x]"
  using fifo_split [of i] items_after_Nil [of i kv] by (simp add: empty_after_def)

lemma rewrite_bucket: "fifo_items (write_fifo_bucket i (read_fifo_bucket kv i) kv) = fifo_items kv"
  by (rule fifo_items_cong) simp

lemma write_next_bucket:
  assumes "empty_after i kv" "Suc i < fifo_bucket_count"
  shows "fifo_items (write_fifo_bucket (Suc i) [x] (write_fifo_bucket i (read_fifo_bucket kv i) kv)) =
    fifo_items kv @ [x]"
proof -
  let ?kv = "write_fifo_bucket i (read_fifo_bucket kv i) kv"
  have "empty_after (Suc i) ?kv" "read_fifo_bucket ?kv (Suc i) = []"
    using assms by (auto simp: empty_after_def)
  from write_at_end [OF this(1), of x] this(2) show ?thesis by (simp add: rewrite_bucket)
qed

text \<open>The queue is full for an item: it does not fit the last bucket.\<close>

definition fifo_full :: "fifo_item \<Rightarrow> fifo_kv \<Rightarrow> bool" where
  "fifo_full item kv \<longleftrightarrow>
     max_bucket_bytes < bucket_length (read_fifo_bucket kv (fifo_bucket_count - 1) @ [item])"

lemma append_from_items:
  assumes "empty_after i kv"
  shows "\<exists>n \<le> length items. fifo_items (append_from i items kv) = fifo_items kv @ take n items \<and>
    (n < length items \<longrightarrow> fifo_full (items ! n) (append_from i items kv)) \<and>
    (i + length items < fifo_bucket_count \<longrightarrow> n = length items)"
  using assms
proof (induction i items kv rule: append_from.induct)
  case (1 i kv)
  then show ?case by simp
next
  case (2 i item rest kv)
  let ?b = "read_fifo_bucket kv i"
  have step: ?case
    if f: "fifo_items kv1 = fifo_items kv @ [item]" and a: "append_from i (item # rest) kv = append_from k rest kv1"
      and ih: "\<exists>n \<le> length rest. fifo_items (append_from k rest kv1) = fifo_items kv1 @ take n rest \<and>
        (n < length rest \<longrightarrow> fifo_full (rest ! n) (append_from k rest kv1)) \<and>
        (k + length rest < fifo_bucket_count \<longrightarrow> n = length rest)" and k: "k \<le> Suc i" for kv1 k
  proof -
    from ih obtain n where "n \<le> length rest" "fifo_items (append_from k rest kv1) = fifo_items kv1 @ take n rest"
      "n < length rest \<longrightarrow> fifo_full (rest ! n) (append_from k rest kv1)"
      "k + length rest < fifo_bucket_count \<longrightarrow> n = length rest" by blast
    then show ?thesis using f a k by (intro exI [of _ "Suc n"]) auto
  qed
  show ?case
  proof (cases "max_bucket_bytes < bucket_length (?b @ [item])")
    case fits: False
    show ?thesis
      by (rule step [of "write_fifo_bucket i (?b @ [item]) kv" i])
        (use 2 fits in \<open>auto simp: write_at_end empty_after_def\<close>)
  next
    case True
    show ?thesis
    proof (cases "Suc i < fifo_bucket_count")
      case True': True
      show ?thesis
        by (rule step [of "write_fifo_bucket (Suc i) [item] (write_fifo_bucket i ?b kv)" "Suc i"])
          (use 2 True True' in \<open>auto simp: write_next_bucket empty_after_def\<close>)
    next
      case False
      then have "i = fifo_bucket_count - 1" using 2 by (auto simp: empty_after_def)
      then show ?thesis using True False by (intro exI [of _ 0]) (auto simp: rewrite_bucket fifo_full_def)
    qed
  qed
qed

text \<open>
  Appending adds the items at the end, in order. Some prefix is kept; the first item that is not kept
  does not fit the twentieth bucket; and nothing is dropped while there are more unused buckets than
  new items.
\<close>

theorem append_keeps_prefix:
  "\<exists>n \<le> length items. fifo_items (append_to_fifo items kv) = fifo_items kv @ take n items \<and>
    (n = length items \<or> fifo_full (items ! n) (append_to_fifo items kv)) \<and>
    (coalesce (last_bucket kv) 0 + length items \<ge> fifo_bucket_count \<or> n = length items)"
  unfolding append_to_fifo_def using append_from_items [OF empty_after_last [of kv], of items]
  by (metis le_neq_implies_less not_le)

section \<open>What a bucket holds\<close>

definition bucket_ok :: "fifo_item list \<Rightarrow> bool" where
  "bucket_ok items \<longleftrightarrow> bucket_length items \<le> max_bucket_bytes \<or> length items \<le> 1"

definition fifo_ok :: "fifo_kv \<Rightarrow> bool" where
  "fifo_ok kv \<longleftrightarrow> dom kv \<subseteq> {..<fifo_bucket_count} \<and>
     (\<forall>i items. kv i = Some items \<longrightarrow> items \<noteq> [] \<and> bucket_ok items)"

lemma bucket_length_remove: "bucket_length (before @ after) \<le> bucket_length (before @ x # after)"
  by (simp add: bucket_length_def)

lemma bucket_ok_remove: "bucket_ok (before @ x # after) \<Longrightarrow> bucket_ok (before @ after)"
  using bucket_length_remove [of before after x] by (auto simp: bucket_ok_def)

lemma bucket_ok_small [simp]: "bucket_ok []" "bucket_ok [x]"
  by (simp_all add: bucket_ok_def)

lemma fifo_ok_read: "fifo_ok kv \<Longrightarrow> bucket_ok (read_fifo_bucket kv i)"
  by (auto simp: fifo_ok_def read_fifo_bucket_def split: option.split)

lemma fifo_ok_write:
  "fifo_ok kv \<Longrightarrow> i < fifo_bucket_count \<Longrightarrow> bucket_ok items \<Longrightarrow> fifo_ok (write_fifo_bucket i items kv)"
  by (auto simp: fifo_ok_def write_fifo_bucket_def split: if_splits)

lemma append_from_ok: "fifo_ok kv \<Longrightarrow> i < fifo_bucket_count \<Longrightarrow> fifo_ok (append_from i items kv)"
proof (induction i items kv rule: append_from.induct)
  case (1 i kv)
  then show ?case by simp
next
  case (2 i item rest kv)
  show ?case
  proof (cases "max_bucket_bytes < bucket_length (read_fifo_bucket kv i @ [item])")
    case True
    then show ?thesis
      using "2.IH"(1) [OF refl True refl] "2.prems" fifo_ok_write fifo_ok_read [OF "2.prems"(1)]
      by (auto simp: Let_def not_le)
  next
    case False
    then have "bucket_ok (read_fifo_bucket kv i @ [item])" by (simp add: bucket_ok_def)
    then show ?thesis
      using "2.IH"(2) [OF refl False] "2.prems" fifo_ok_write False by (auto simp: Let_def)
  qed
qed

lemma append_ok: "fifo_ok kv \<Longrightarrow> fifo_ok (append_to_fifo items kv)"
  by (simp add: append_to_fifo_def append_from_ok last_bucket_less)

lemma head_bucket_less: "coalesce (head_bucket kv) 0 < fifo_bucket_count"
  using head_bucket_Some(1) [of kv] by (cases "head_bucket kv") (auto simp: fifo_bucket_count_def)

lemma prepend_ok: "fifo_ok kv \<Longrightarrow> fifo_ok (prepend_to_fifo item kv)"
  using head_bucket_less [of kv]
  by (auto simp: prepend_to_fifo_def Let_def append_ok fifo_ok_write bucket_ok_def)

lemma pop_ok: "fifo_ok kv \<Longrightarrow> pop_fifo_item kv = Some (x, kv') \<Longrightarrow> fifo_ok kv'"
proof -
  assume ok: "fifo_ok kv" and "pop_fifo_item kv = Some (x, kv')"
  then obtain i xs where i: "head_bucket kv = Some i" "read_fifo_bucket kv i = x # xs"
      "kv' = write_fifo_bucket i xs kv"
    by (auto simp: pop_fifo_item_def split: option.splits list.splits)
  have "bucket_ok xs"
    using fifo_ok_read [OF ok, of i] bucket_ok_remove [of "[]" x xs] i(2) by simp
  then show ?thesis using ok i(3) head_bucket_Some(1) [OF i(1)] by (simp add: fifo_ok_write)
qed

lemma pop_matching_ok:
  assumes "fifo_ok kv" "pop_first_fifo_item_matching P kv = Some (x, kv')"
  shows "fifo_ok kv'"
proof -
  obtain i before after where i: "List.find (\<lambda>i. list_ex P (read_fifo_bucket kv i)) [0..<fifo_bucket_count] = Some i"
      and b: "List.extract P (read_fifo_bucket kv i) = Some (before, x, after)"
      and kv': "kv' = write_fifo_bucket i (before @ after) kv"
    using assms by (auto simp: pop_first_fifo_item_matching_def split: option.splits)
  have "bucket_ok (before @ after)"
    using fifo_ok_read [OF assms(1), of i] b bucket_ok_remove by (simp add: extract_split)
  then show ?thesis using find_upt [OF i] assms(1) by (simp add: kv' fifo_ok_write)
qed

lemma dispatch_ok:
  "fifo_ok kv \<Longrightarrow> pop_next_dispatch_fifo_item kv = Some (x, kv') \<Longrightarrow> fifo_ok kv'"
  using pop_matching_ok [of kv interactive_item x kv'] pop_ok [of kv x kv']
  by (auto simp: pop_next_dispatch_fifo_item_def split: option.splits)

datatype fifo_op = Op_append "fifo_item list" | Op_prepend fifo_item | Op_pop | Op_dispatch

fun run_fifo_op :: "fifo_op \<Rightarrow> fifo_kv \<Rightarrow> fifo_kv" where
  "run_fifo_op (Op_append items) kv = append_to_fifo items kv"
| "run_fifo_op (Op_prepend item) kv = prepend_to_fifo item kv"
| "run_fifo_op Op_pop kv = (case pop_fifo_item kv of None \<Rightarrow> kv | Some r \<Rightarrow> snd r)"
| "run_fifo_op Op_dispatch kv = (case pop_next_dispatch_fifo_item kv of None \<Rightarrow> kv | Some r \<Rightarrow> snd r)"

lemma run_fifo_op_ok: "fifo_ok kv \<Longrightarrow> fifo_ok (run_fifo_op op kv)"
proof (cases op)
  case Op_pop
  then show "fifo_ok kv \<Longrightarrow> ?thesis" by (cases "pop_fifo_item kv") (auto intro: pop_ok)
next
  case Op_dispatch
  then show "fifo_ok kv \<Longrightarrow> ?thesis"
    by (cases "pop_next_dispatch_fifo_item kv") (auto intro: dispatch_ok)
qed (simp_all add: append_ok prepend_ok)

text \<open>
  C30. Whatever operations run on an empty queue, only the twenty bucket keys exist, no key holds an empty
  array, and a bucket larger than \<open>MAX_BUCKET_BYTES\<close> holds one item.
\<close>

theorem fifo_invariant: "fifo_ok (fold run_fifo_op ops (\<lambda>i. None))"
proof -
  have "fifo_ok kv \<Longrightarrow> fifo_ok (fold run_fifo_op ops kv)" for kv
    by (induction ops arbitrary: kv) (simp_all add: run_fifo_op_ok)
  moreover have "fifo_ok (\<lambda>i. None)" by (simp add: fifo_ok_def)
  ultimately show ?thesis by blast
qed

section \<open>Putting an item back\<close>

text \<open>
  An item put back becomes the first one if it fits the head bucket. Otherwise it goes to the end of
  the queue: popping the only item of a bucket and putting it back, as the merging of prompts does,
  moves it behind every other item when it does not fit the next bucket.
\<close>

theorem prepend_can_reorder:
  assumes "bucket_length [a] \<le> max_bucket_bytes" "bucket_length [b] \<le> max_bucket_bytes"
    "max_bucket_bytes < bucket_length [a, b]" "max_bucket_bytes < bucket_length [b, a]"
  shows "let kv = append_to_fifo [a, b] (\<lambda>i. None)
    in fifo_items kv = [a, b] \<and>
       (\<exists>kv'. pop_fifo_item kv = Some (a, kv') \<and> fifo_items (prepend_to_fifo a kv') = [b, a])"
proof -
  let ?none = "(\<lambda>i. None) :: fifo_kv"
  have "last_bucket ?none = None"
    by (simp add: last_bucket_def find_None_iff read_fifo_bucket_def)
  moreover have "append_from 0 [a, b] ?none = [0 \<mapsto> [a], 1 \<mapsto> [b]]"
    using assms by (simp add: read_fifo_bucket_def write_fifo_bucket_def fifo_bucket_count_def not_le)
  ultimately have kv: "append_to_fifo [a, b] ?none = [0 \<mapsto> [a], 1 \<mapsto> [b]]"
    by (simp add: append_to_fifo_def)
  have head: "head_bucket [0 \<mapsto> [a], 1 \<mapsto> [b]] = Some 0" "head_bucket [Suc 0 \<mapsto> [b]] = Some 1"
    by (simp_all add: head_bucket_def read_fifo_bucket_def fifo_bucket_count_def upt_rec)
  have last: "last_bucket [Suc 0 \<mapsto> [b]] = Some 1"
    by (simp add: last_bucket_def read_fifo_bucket_def fifo_bucket_count_def upt_rec)
  have pop: "pop_fifo_item [0 \<mapsto> [a], 1 \<mapsto> [b]] = Some (a, [Suc 0 \<mapsto> [b]])"
    using head by (auto simp: pop_fifo_item_def read_fifo_bucket_def write_fifo_bucket_def)
  have "prepend_to_fifo a [Suc 0 \<mapsto> [b]] = append_to_fifo [a] [Suc 0 \<mapsto> [b]]"
    using assms head by (simp add: prepend_to_fifo_def read_fifo_bucket_def)
  also have "\<dots> = [Suc 0 \<mapsto> [b], 2 \<mapsto> [a]]"
    using assms last
    by (simp add: append_to_fifo_def read_fifo_bucket_def write_fifo_bucket_def fifo_bucket_count_def
      numeral_2_eq_2)
  finally have "fifo_items (prepend_to_fifo a [Suc 0 \<mapsto> [b]]) = [b, a]"
    by (simp add: fifo_items_def read_fifo_bucket_def fifo_bucket_count_def upt_rec)
  moreover have "fifo_items [0 \<mapsto> [a], 1 \<mapsto> [b]] = [a, b]"
    by (simp add: fifo_items_def read_fifo_bucket_def fifo_bucket_count_def upt_rec)
  ultimately show ?thesis unfolding kv Let_def using pop by blast
qed

definition long_prompt :: "char \<Rightarrow> fifo_item" where
  "long_prompt c = text_prompt (replicate 8000 c)"

lemma text_prompt_length:
  "json_length (item_json (text_prompt s)) = 47 + sum_list (map escaped_length s)"
  by (simp add: text_prompt_def opt_entry_def string_length_def escaped_length_def)

lemma long_prompt_length:
  "escaped_length c = 1 \<Longrightarrow> json_length (item_json (long_prompt c)) = 8047"
  by (simp only: long_prompt_def text_prompt_length map_replicate sum_list_replicate) simp

theorem prepend_can_reorder_witness:
  "\<exists>kv'. pop_fifo_item (append_to_fifo [long_prompt CHR ''a'', long_prompt CHR ''b''] (\<lambda>i. None)) =
       Some (long_prompt CHR ''a'', kv') \<and>
     fifo_items (prepend_to_fifo (long_prompt CHR ''a'') kv') = [long_prompt CHR ''b'', long_prompt CHR ''a'']"
  using prepend_can_reorder [of "long_prompt CHR ''a''" "long_prompt CHR ''b''"]
  by (simp add: bucket_length_def long_prompt_length max_bucket_bytes_def escaped_length_def Let_def)

section \<open>Overflow\<close>

lemma full_append_drops:
  assumes "last_bucket kv = Some (fifo_bucket_count - 1)" "fifo_full item kv"
  shows "fifo_items (append_to_fifo [item] kv) = fifo_items kv"
proof -
  have "append_to_fifo [item] kv =
      write_fifo_bucket (fifo_bucket_count - 1) (read_fifo_bucket kv (fifo_bucket_count - 1)) kv"
    using assms by (simp add: append_to_fifo_def fifo_full_def fifo_bucket_count_def)
  then show ?thesis by (simp add: rewrite_bucket)
qed

lemma touched_id:
  assumes "recent_ok (ds_recent_client_message_ids s)" "mid \<noteq> []"
  shows "mid \<in> set (ds_recent_client_message_ids (touch_recent_client_message_ids [mid] s))"
proof -
  have f: "first_occurrences [mid] = [mid]" using assms by (simp add: first_occurrences_def)
  then show ?thesis
    by (simp add: touch_recent_client_message_ids_def Let_def f slice_last_def
      recent_client_message_id_limit_def)
qed

text \<open>
  When the twentieth bucket is full a prompt is dropped, with a trace line only; but its message id is
  still recorded as accepted, so the client's retry of the lost prompt is suppressed as a duplicate.
\<close>

theorem overflow_loses_accepted_prompt:
  assumes "last_bucket kv = Some (fifo_bucket_count - 1)" "fifo_full (Prompt_item p) kv"
    "pi_client_message_ids p = Some [mid]" "mid \<noteq> []" "recent_ok (ds_recent_client_message_ids s)"
  shows "let (kv', s') = append_prompt_stash_to_fifo [Prompt_item p] (kv, s)
    in fifo_items kv' = fifo_items kv \<and> duplicate_client_message_ids s' [mid] {} = [mid]"
  using full_append_drops [OF assms(1,2)] touched_id [OF assms(5,4)] assms(3,4)
  by (simp add: append_prompt_stash_to_fifo_def touch_item_ids_def duplicate_client_message_ids_def)

definition retried_prompt :: prompt_item where
  "retried_prompt = \<lparr>pi_prompt = replicate 8000 CHR ''a'', pi_bootstrap = False, pi_required_tool = None,
     pi_client_message_ids = Some [''m1''], pi_sender = JUndef, pi_attachments = None\<rparr>"

theorem overflow_loses_accepted_prompt_witness:
  "let (kv', s') = append_prompt_stash_to_fifo [Prompt_item retried_prompt]
         ([19 \<mapsto> [long_prompt CHR ''b'']], new_session_state)
   in fifo_items kv' = [long_prompt CHR ''b''] \<and> duplicate_client_message_ids s' [''m1''] {} = [''m1'']"
proof -
  let ?kv = "[19 \<mapsto> [long_prompt CHR ''b'']] :: fifo_kv"
  have 1: "last_bucket ?kv = Some (fifo_bucket_count - 1)"
    by (simp add: last_bucket_def read_fifo_bucket_def fifo_bucket_count_def upt_rec)
  have 2: "fifo_full (Prompt_item retried_prompt) ?kv"
    by (simp add: fifo_full_def bucket_length_def read_fifo_bucket_def fifo_bucket_count_def
      long_prompt_length escaped_length_def max_bucket_bytes_def retried_prompt_def opt_entry_def
      string_length_def map_replicate_const sum_list_replicate)
  have 3: "fifo_items ?kv = [long_prompt CHR ''b'']"
    by (simp add: fifo_items_def read_fifo_bucket_def fifo_bucket_count_def upt_rec)
  show ?thesis
    using overflow_loses_accepted_prompt [OF 1 2, of "''m1''" new_session_state]
    by (simp add: 3 retried_prompt_def recent_ok_def)
qed

end
