(* ===== verification/OrchShutdown.thy ===== *)
theory OrchShutdown
  imports OrchTimers
begin

text \<open>
  Ending a session (\<open>packages/sdk/src/orchestration/agents.ts\<close>, lines 86 to 106 and 281 to 640; the
  agent poll of \<open>processTimer\<close> in \<open>turn.ts\<close>): refreshing the tracked children, the cascade of a
  \<open>done\<close>, \<open>cancel\<close> or \<open>delete\<close> command to the live children, the poll that waits for them, and the
  completion, cancellation or failure the session ends with. Shown: a shutdown ends within twelve
  polls, and what a session reports to its parent is understood by the parent. And where it fails: a
  prompt that arrives during the wait leaves a session no command can end, and a child that is only
  idle counts as ended.

  An activity whose failure the code catches is an effect (the call was made) or, where its value is
  used, an optional value; \<open>None\<close> says that it threw. The \<open>command\<close> counter of the key-value store is
  the state's copy of it: both are written together, and a new execution reads the copy back.
\<close>

section \<open>Sequencing effects\<close>

definition followed_by ::
  "orch_effect list \<times> 's \<Rightarrow> ('s \<Rightarrow> orch_effect list \<times> 's) \<Rightarrow> orch_effect list \<times> 's" where
  "followed_by m f = (fst m @ fst (f (snd m)), snd (f (snd m)))"

lemma snd_followed_by [simp]: "snd (followed_by m f) = snd (f (snd m))"
  by (simp add: followed_by_def)

section \<open>Answering a command\<close>

definition write_command_response ::
  "string \<Rightarrow> command_response \<Rightarrow> durable_session_state \<Rightarrow> orch_effect list \<times> durable_session_state" where
  "write_command_response sid response state =
     (let version = ds_last_command_version state + 1
      in ([Command_answered response version,
           Event_recorded sid ''session.command_completed''
             [(''cmd'', JStr (rsp_cmd response)), (''id'', JStr (rsp_id response))]],
          state\<lparr>ds_last_command_version := version, ds_last_command_id := Some (rsp_id response)\<rparr>))"

definition command_ok :: "string \<Rightarrow> string \<Rightarrow> config_obj \<Rightarrow> command_response" where
  "command_ok cmd cmd_id result =
     \<lparr>rsp_id = cmd_id, rsp_cmd = cmd, rsp_result = JObj ((''ok'', JBool True) # result), rsp_error = None, rsp_context_usage = None\<rparr>"

definition command_error :: "string \<Rightarrow> string \<Rightarrow> string \<Rightarrow> command_response" where
  "command_error cmd cmd_id error =
     \<lparr>rsp_id = cmd_id, rsp_cmd = cmd, rsp_result = JUndef, rsp_error = Some error,
      rsp_context_usage = None\<rparr>"

section \<open>The tracked children\<close>

text \<open>A row of \<open>listChildSessions\<close>; \<open>chs_row\<close> is the parsed row, from which the result is taken.\<close>

record child_session =
  chs_orch_id :: string
  chs_session_id :: string
  chs_title :: "string option"
  chs_status :: "string option"
  chs_is_system :: bool
  chs_agent_id :: "string option"
  chs_contract :: jsval
  chs_row :: jsval

definition normalized_child_status :: "string \<Rightarrow> string" where
  "normalized_child_status raw =
     (if raw \<in> {''failed'', ''cancelled'', ''waiting'', ''completed''} then raw else ''running'')"

definition refreshed_agent :: "bool \<Rightarrow> sub_agent_entry list \<Rightarrow> child_session \<Rightarrow> sub_agent_entry" where
  "refreshed_agent preserve_terminal agents child =
     (let existing = List.find (\<lambda>a. sa_session_id a = chs_session_id child \<or>
                                    sa_orch_id a = chs_orch_id child) agents;
          local_status = map_option sa_status existing;
          status = (case local_status of
              Some s \<Rightarrow>
                if preserve_terminal \<and> is_sub_agent_terminal_status s then s
                else normalized_child_status (coalesce (chs_status child) s)
            | None \<Rightarrow> normalized_child_status (coalesce (chs_status child) ''running''))
      in \<lparr>sa_orch_id = chs_orch_id child, sa_session_id = chs_session_id child,
          sa_task = (case existing of Some a \<Rightarrow> sa_task a
                     | None \<Rightarrow> coalesce (chs_title child) ''(spawned sub-agent)''),
          sa_status = status,
          sa_result = get_child_result_from_status (chs_row child) (Option.bind existing sa_result),
          sa_expects_report = False,
          sa_agent_id = (case chs_agent_id child of Some a \<Rightarrow> Some a
                         | None \<Rightarrow> Option.bind existing sa_agent_id),
          sa_contract = (if is_nullish (chs_contract child)
                         then (case existing of Some a \<Rightarrow> sa_contract a | None \<Rightarrow> JUndef)
                         else chs_contract child)\<rparr>)"

definition refresh_tracked_sub_agents ::
  "bool \<Rightarrow> child_session list option \<Rightarrow> durable_session_state \<Rightarrow> durable_session_state" where
  "refresh_tracked_sub_agents preserve_terminal children state =
     (case children of
        None \<Rightarrow> state
      | Some rows \<Rightarrow> state\<lparr>ds_sub_agents :=
          map (refreshed_agent preserve_terminal (ds_sub_agents state))
            (filter (\<lambda>c. \<not> chs_is_system c) rows)\<rparr>)"

section \<open>Ending the session\<close>

fun default_shutdown_reason :: "shutdown_mode \<Rightarrow> string" where
  "default_shutdown_reason Mode_done = ''Completed by user''"
| "default_shutdown_reason Mode_cancel = ''Cancelled by user''"
| "default_shutdown_reason Mode_delete = ''Deleted by user''"

fun shutdown_mode_text :: "shutdown_mode \<Rightarrow> string" where
  "shutdown_mode_text Mode_done = ''done''"
| "shutdown_mode_text Mode_cancel = ''cancel''"
| "shutdown_mode_text Mode_delete = ''delete''"

definition build_shutdown_wait_reason :: "pending_shutdown_state \<Rightarrow> string" where
  "build_shutdown_wait_reason shutdown =
     ''Waiting for '' @ show_nat (length (psd_target_agent_ids shutdown)) @
     (case psd_mode shutdown of
        Mode_done \<Rightarrow> '' child session(s) to complete before closing.''
      | Mode_cancel \<Rightarrow> '' child session(s) to cancel before closing.''
      | Mode_delete \<Rightarrow> '' child session(s) to cancel before deletion.'')"

definition terminal_child_update :: "string \<Rightarrow> int \<Rightarrow> string \<Rightarrow> string \<Rightarrow> string" where
  "terminal_child_update sid iteration update_type reason =
     ''[CHILD_UPDATE from='' @ sid @ '' type='' @ update_type @ '' iter='' @ show_int iteration @
     '' verdict='' @ (if update_type = ''completed'' then ''success'' else ''cancelled'') @ '']'' @
     [CHR 0x0A] @ reason"

definition notify_parent_of_terminal_state ::
  "string \<Rightarrow> durable_session_options \<Rightarrow> durable_session_state \<Rightarrow> string \<Rightarrow> string \<Rightarrow>
   string option \<Rightarrow> string option \<Rightarrow> orch_effect list" where
  "notify_parent_of_terminal_state sid opts state update_type reason command_id requested_by =
     (case if_truthy (do_parent_session_id opts) of
        None \<Rightarrow> []
      | Some parent \<Rightarrow>
          if truthy_str command_id \<and> requested_by = Some parent then
            [Event_recorded parent ''session.child_cleanup_completed''
               [(''childSessionId'', JStr sid), (''commandId'', JStr (the command_id)),
                (''requestedBy'', JStr parent), (''status'', JStr update_type)]]
          else [Message_sent parent (terminal_child_update sid (ds_iteration state) update_type reason)])"

text \<open>What the three endings reset first.\<close>

definition end_waits :: "durable_session_state \<Rightarrow> durable_session_state" where
  "end_waits state = (clear_pending_child_digest
     (state\<lparr>ds_pending_shutdown := None, ds_waiting_for_agent_ids := None\<rparr>))\<lparr>ds_active_timer := None\<rparr>"

definition answer_if :: "string \<Rightarrow> command_response option \<Rightarrow> durable_session_state \<Rightarrow>
  orch_effect list \<times> durable_session_state" where
  "answer_if sid response state =
     (case response of None \<Rightarrow> ([], state) | Some r \<Rightarrow> write_command_response sid r state)"

definition complete_session ::
  "string \<Rightarrow> durable_session_options \<Rightarrow> string \<Rightarrow> string option \<Rightarrow> string option \<Rightarrow>
   durable_session_state \<Rightarrow> orch_effect list \<times> durable_session_state" where
  "complete_session sid opts reason command_id requested_by state0 =
     (let state = end_waits state0
      in followed_by
           ([Cms_state ''completed'' None, publish_status state ''completed'' []] @
            notify_parent_of_terminal_state sid opts state ''completed'' reason command_id requested_by @
            [Session_destroyed], state)
         (\<lambda>s. followed_by
           (answer_if sid (map_option (\<lambda>c. command_ok ''done'' c [(''message'', JStr ''Session completed'')])
              (if_truthy command_id)) s)
         (\<lambda>s. ([], s\<lparr>ds_orchestration_result := Some ''done''\<rparr>))))"

definition cancel_session ::
  "string \<Rightarrow> durable_session_options \<Rightarrow> string list \<Rightarrow> string \<Rightarrow> string option \<Rightarrow> bool \<Rightarrow> string option \<Rightarrow>
   durable_session_state \<Rightarrow> orch_effect list \<times> durable_session_state" where
  "cancel_session sid opts descendants reason command_id delete_after requested_by state0 =
     (let state = end_waits state0;
          delete_reason = (if reason = [] then ''Deleted by user'' else reason);
          ok = (if delete_after
                then (\<lambda>c. command_ok ''delete'' c [(''message'', JStr ''Session deleted'')])
                else (\<lambda>c. command_ok ''cancel'' c [(''message'', JStr ''Session cancelled'')]))
      in followed_by
           ((if delete_after then []
             else [Cms_state ''cancelled'' None, publish_status state ''cancelled'' []]) @
            notify_parent_of_terminal_state sid opts state ''cancelled'' reason command_id requested_by @
            [Session_destroyed], state)
         (\<lambda>s. followed_by (answer_if sid (map_option ok (if_truthy command_id)) s)
         (\<lambda>s. if delete_after then
               (map (\<lambda>d. Session_deleted d (''Ancestor '' @ sid @ '' deleted: '' @ delete_reason)) descendants @
                [Session_deleted sid delete_reason],
                s\<lparr>ds_orchestration_result := Some ''deleted''\<rparr>)
             else ([], s\<lparr>ds_orchestration_result := Some ''cancelled''\<rparr>))))"

definition fail_pending_shutdown ::
  "string \<Rightarrow> string \<Rightarrow> durable_session_state \<Rightarrow> orch_effect list \<times> durable_session_state" where
  "fail_pending_shutdown sid error_message state0 =
     (let shutdown = ds_pending_shutdown state0; state = end_waits state0;
          response = (case shutdown of
            None \<Rightarrow> None
          | Some p \<Rightarrow> map_option (\<lambda>c. command_error (shutdown_mode_text (psd_mode p)) c error_message)
                        (if_truthy (psd_command_id p)))
      in followed_by ([Session_destroyed], state)
         (\<lambda>s. followed_by (answer_if sid response s)
         (\<lambda>s. ([publish_status s ''failed'' [(''error'', JStr error_message)],
                Cms_state ''failed'' (Some error_message)],
               s\<lparr>ds_orchestration_result := Some ''failed''\<rparr>))))"

definition cancel_in_flight_distiller :: "durable_session_state \<Rightarrow> orch_effect list" where
  "cancel_in_flight_distiller state =
     (case ds_regen state of
        None \<Rightarrow> []
      | Some r \<Rightarrow>
          if rg_stage r = Stage_distilling \<and> truthy_str (rg_distiller_session_id r)
          then [Distiller_cancelled (the (rg_distiller_session_id r))] else [])"

definition finalize_pending_shutdown ::
  "string \<Rightarrow> durable_session_options \<Rightarrow> string list \<Rightarrow> durable_session_state \<Rightarrow>
   orch_effect list \<times> durable_session_state" where
  "finalize_pending_shutdown sid opts descendants state =
     (case ds_pending_shutdown state of
        None \<Rightarrow> ([], state)
      | Some p \<Rightarrow> followed_by (cancel_in_flight_distiller state, state)
          (if psd_mode p = Mode_done
           then complete_session sid opts (psd_reason p) (psd_command_id p) (psd_requested_by p)
           else cancel_session sid opts descendants (psd_reason p) (psd_command_id p)
                  (psd_mode p = Mode_delete) (psd_requested_by p)))"

section \<open>The cascade\<close>

definition shutdown_timeout_ms :: int where "shutdown_timeout_ms = 60000"
definition shutdown_poll_interval_ms :: int where "shutdown_poll_interval_ms = 5000"

definition shutdown_extra :: "pending_shutdown_state \<Rightarrow> int \<Rightarrow> config_obj" where
  "shutdown_extra p seconds =
     [(''waitReason'', JStr (build_shutdown_wait_reason p)),
      (''waitStartedAt'', JNum (of_int (psd_started_at_ms p))), (''waitSeconds'', JNum (of_int seconds))]"

definition shutdown_poll_timer :: "pending_shutdown_state \<Rightarrow> string list \<Rightarrow> int \<Rightarrow> int \<Rightarrow> active_timer" where
  "shutdown_poll_timer p ids now duration_ms =
     (new_timer Timer_agent_poll now duration_ms (build_shutdown_wait_reason p))\<lparr>at_agent_ids := Some ids\<rparr>"

definition cascade_command ::
  "string \<Rightarrow> shutdown_mode \<Rightarrow> string \<Rightarrow> command_message \<Rightarrow> int \<Rightarrow> sub_agent_entry \<Rightarrow> orch_effect" where
  "cascade_command sid mode reason cmd iteration child =
     Command_sent (sa_session_id child)
       \<lparr>cm_cmd = (if mode = Mode_done then ''done'' else ''cancel''),
        cm_id = cm_cmd cmd @ ''-cascade-'' @ show_int iteration @ ''-'' @ take 8 (sa_session_id child),
        cm_args = JObj [(''reason'', JStr reason)], cm_sender = JUndef, cm_requested_by = Some sid\<rparr>"

definition begin_graceful_shutdown ::
  "string \<Rightarrow> durable_session_options \<Rightarrow> int \<Rightarrow> child_session list option \<Rightarrow> string list \<Rightarrow>
   shutdown_mode \<Rightarrow> command_message \<Rightarrow> durable_session_state \<Rightarrow>
   orch_effect list \<times> durable_session_state" where
  "begin_graceful_shutdown sid opts now children descendants mode cmd state0 =
     (case ds_pending_shutdown state0 of
        Some p \<Rightarrow>
          followed_by
            (write_command_response sid (command_ok (cm_cmd cmd) (cm_id cmd)
               [(''message'', JStr (''Shutdown already in progress ('' @ shutdown_mode_text (psd_mode p) @ '').''))])
               state0)
            (\<lambda>s. ([publish_status s ''waiting''
                     (shutdown_extra p (max 0 (ceil_sec (psd_deadline_at_ms p - now))))], s))
      | None \<Rightarrow>
          let state = refresh_tracked_sub_agents False children state0;
              reason = (if truthy (jget ''reason'' (cm_args cmd)) then js_string (jget ''reason'' (cm_args cmd))
                        else default_shutdown_reason mode);
              requested_by = (if cm_requested_by cmd \<noteq> None \<and>
                                 cm_requested_by cmd = do_parent_session_id opts \<and> trim (cm_id cmd) \<noteq> []
                              then cm_requested_by cmd else None);
              targets = filter (\<lambda>a. \<not> is_sub_agent_terminal_status (sa_status a)) (ds_sub_agents state)
          in if targets = [] then
               (if mode = Mode_done
                then complete_session sid opts reason (Some (cm_id cmd)) requested_by state
                else cancel_session sid opts descendants reason (Some (cm_id cmd)) (mode = Mode_delete)
                       requested_by state)
             else
               let child_reason = (if mode = Mode_done then ''Parent session completing'' else reason);
                   ids = map sa_orch_id targets;
                   p = \<lparr>psd_mode = mode, psd_reason = reason, psd_started_at_ms = now,
                        psd_deadline_at_ms = now + shutdown_timeout_ms, psd_target_agent_ids = ids,
                        psd_command_id = Some (cm_id cmd), psd_requested_by = requested_by\<rparr>;
                   s = (clear_pending_child_digest (state\<lparr>ds_pending_shutdown := Some p,
                          ds_waiting_for_agent_ids := Some ids\<rparr>))
                         \<lparr>ds_active_timer := Some (shutdown_poll_timer p ids now shutdown_poll_interval_ms)\<rparr>
               in (map (cascade_command sid mode child_reason cmd (ds_iteration state)) targets @
                   [publish_status s ''waiting'' (shutdown_extra p (ceil_sec shutdown_timeout_ms))], s))"

section \<open>The poll\<close>

text \<open>What a probed status does to a polled agent: nothing if the probe threw or returned \<open>null\<close>.\<close>

definition polled_agent :: "jsval option \<Rightarrow> sub_agent_entry \<Rightarrow> sub_agent_entry" where
  "polled_agent probe agent =
     (case probe of
        None \<Rightarrow> agent
      | Some JNull \<Rightarrow> agent
      | Some parsed \<Rightarrow> agent
          \<lparr>sa_status := (case jget ''status'' parsed of
               JStr st \<Rightarrow> if st \<in> {''failed'', ''completed'', ''cancelled'', ''waiting'', ''idle'', ''input_required''}
                          then st else sa_status agent
             | _ \<Rightarrow> sa_status agent),
           sa_result := map_option (take 2000) (get_child_result_from_status parsed (sa_result agent))\<rparr>)"

definition poll_target ::
  "(string \<Rightarrow> jsval option) \<Rightarrow> string \<Rightarrow> sub_agent_entry list \<Rightarrow> sub_agent_entry list" where
  "poll_target probe target agents =
     (case find_tracked_agent_by_orch_id agents target of
        None \<Rightarrow> agents
      | Some a \<Rightarrow>
          if is_sub_agent_terminal_status (sa_status a) then agents
          else update_first (\<lambda>a. sa_orch_id a = target) (polled_agent (probe (sa_session_id a))) agents)"

definition process_agent_poll ::
  "string \<Rightarrow> durable_session_options \<Rightarrow> int \<Rightarrow> (string \<Rightarrow> jsval option) \<Rightarrow> string list \<Rightarrow>
   durable_session_state \<Rightarrow> orch_effect list \<times> durable_session_state" where
  "process_agent_poll sid opts now probe descendants state0 =
     (case ds_waiting_for_agent_ids state0 of
        None \<Rightarrow> ([], state0)
      | Some ids \<Rightarrow>
          let state = state0\<lparr>ds_sub_agents :=
                fold (poll_target probe) (get_still_running_agent_ids (ds_sub_agents state0) ids)
                  (ds_sub_agents state0)\<rparr>
          in (case maybe_resolve_agent_wait_completion state of
               Wait_resolved s \<Rightarrow> ([], s)
             | Finalize_shutdown \<Rightarrow> finalize_pending_shutdown sid opts descendants state
             | Still_waiting \<Rightarrow>
                 let running = get_still_running_agent_ids (ds_sub_agents state) ids
                 in (case ds_pending_shutdown state of
                      Some p \<Rightarrow>
                        if now \<ge> psd_deadline_at_ms p then
                          fail_pending_shutdown sid
                            (''Graceful '' @ shutdown_mode_text (psd_mode p) @ '' timed out after '' @
                             show_int (round_sec shutdown_timeout_ms) @ ''s waiting for '' @
                             show_nat (length running) @ '' child session(s): '' @
                             (if join '', '' running = [] then ''unknown'' else join '', '' running)) state
                        else
                          let remaining = max 0 (psd_deadline_at_ms p - now);
                              s = state\<lparr>ds_active_timer := Some (shutdown_poll_timer p ids now
                                    (min shutdown_poll_interval_ms remaining))\<rparr>
                          in ([publish_status s ''waiting'' (shutdown_extra p (ceil_sec remaining))], s)
                    | None \<Rightarrow>
                        let reason = ''waiting for '' @ show_nat (length running) @ '' agent(s)'';
                            s = state\<lparr>ds_active_timer :=
                                  Some ((new_timer Timer_agent_poll now 30000 reason)\<lparr>at_agent_ids := Some ids\<rparr>)\<rparr>
                        in ([publish_status s ''waiting''
                              [(''waitReason'', JStr reason), (''waitStartedAt'', JNum (of_int now))]], s))))"

section \<open>A shutdown ends\<close>

lemma end_waits_fields [simp]:
  "ds_pending_shutdown (end_waits s) = None" "ds_waiting_for_agent_ids (end_waits s) = None"
  "ds_active_timer (end_waits s) = None" "ds_pending_child_digest (end_waits s) = None"
  by (simp_all add: end_waits_def clear_pending_child_digest_def)

lemma answer_keeps [simp]:
  "ds_pending_shutdown (snd (answer_if sid r s)) = ds_pending_shutdown s"
  "ds_waiting_for_agent_ids (snd (answer_if sid r s)) = ds_waiting_for_agent_ids s"
  "ds_active_timer (snd (answer_if sid r s)) = ds_active_timer s"
  "ds_orchestration_result (snd (answer_if sid r s)) = ds_orchestration_result s"
  by (auto simp: answer_if_def write_command_response_def Let_def split: option.split)

lemma write_command_response_keeps [simp]:
  "ds_pending_shutdown (snd (write_command_response sid r s)) = ds_pending_shutdown s"
  "ds_waiting_for_agent_ids (snd (write_command_response sid r s)) = ds_waiting_for_agent_ids s"
  "ds_active_timer (snd (write_command_response sid r s)) = ds_active_timer s"
  "ds_orchestration_result (snd (write_command_response sid r s)) = ds_orchestration_result s"
  by (simp_all add: write_command_response_def Let_def)

fun shutdown_result :: "shutdown_mode \<Rightarrow> string" where
  "shutdown_result Mode_done = ''done''"
| "shutdown_result Mode_cancel = ''cancelled''"
| "shutdown_result Mode_delete = ''deleted''"

definition session_ended :: "string \<Rightarrow> durable_session_state \<Rightarrow> bool" where
  "session_ended result s \<longleftrightarrow> ds_orchestration_result s = Some result \<and> ds_pending_shutdown s = None \<and>
     ds_waiting_for_agent_ids s = None \<and> ds_active_timer s = None"

lemma complete_session_ends: "session_ended ''done'' (snd (complete_session sid opts r c b s))"
  by (simp add: complete_session_def session_ended_def Let_def)

lemma cancel_session_ends:
  "session_ended (if del then ''deleted'' else ''cancelled'') (snd (cancel_session sid opts ds r c del b s))"
  by (simp add: cancel_session_def session_ended_def Let_def)


lemma finalize_ends:
  assumes "ds_pending_shutdown s = Some p"
  shows "session_ended (shutdown_result (psd_mode p)) (snd (finalize_pending_shutdown sid opts ds s))"
  using assms complete_session_ends cancel_session_ends [where del = True] cancel_session_ends [where del = False]
  by (cases "psd_mode p") (simp_all add: finalize_pending_shutdown_def)

text \<open>What can reach a session from outside while its shutdown waits, and the end of a turn.\<close>

datatype outside_event =
    Prompt_arrives int string
  | Command_arrives int "child_session list option" "string list" shutdown_mode command_message
  | Child_reports child_update "jsval option"
  | Poll_fires int "string \<Rightarrow> jsval option" "string list"
  | Model_switches int
  | Turn_ends "string \<Rightarrow> int \<Rightarrow> int" string int

text \<open>A child's report during a shutdown, as \<open>drain\<close> handles it: applied, not buffered.\<close>

definition report_in_shutdown ::
  "string \<Rightarrow> durable_session_options \<Rightarrow> string list \<Rightarrow> child_update \<Rightarrow> jsval option \<Rightarrow>
   durable_session_state \<Rightarrow> durable_session_state" where
  "report_in_shutdown sid opts ds u probe s =
     (let (tracked, s') = apply_child_update u probe s
      in if tracked \<and> ds_waiting_for_agent_ids s' \<noteq> None then
           (case maybe_resolve_agent_wait_completion s' of
              Still_waiting \<Rightarrow> s'
            | Finalize_shutdown \<Rightarrow> snd (finalize_pending_shutdown sid opts ds s')
            | Wait_resolved s'' \<Rightarrow> s'')
         else s')"

fun outside :: "string \<Rightarrow> durable_session_options \<Rightarrow> outside_event \<Rightarrow> durable_session_state \<Rightarrow> durable_session_state" where
  "outside sid opts (Prompt_arrives now msg) s = snd (admit_prompt now msg s)"
| "outside sid opts (Command_arrives now children ds mode cmd) s =
     snd (begin_graceful_shutdown sid opts now children ds mode cmd s)"
| "outside sid opts (Child_reports u probe) s = report_in_shutdown sid opts [] u probe s"
| "outside sid opts (Poll_fires now probe ds) s = snd (process_agent_poll sid opts now probe ds s)"
| "outside sid opts (Model_switches now) s = capture_model_switch_interrupted_timer now s"
| "outside sid opts (Turn_ends tz guid now) s =
     (case schedule_post_turn_continuation tz opts guid now s of None \<Rightarrow> s | Some r \<Rightarrow> snd r)"
















definition demo_child :: sub_agent_entry where
  "demo_child = \<lparr>sa_orch_id = ''session-a'', sa_session_id = ''a'', sa_task = ''t'', sa_status = ''running'',
     sa_result = None, sa_expects_report = True, sa_agent_id = None, sa_contract = JUndef\<rparr>"

definition demo_parent :: durable_session_state where
  "demo_parent = new_session_state\<lparr>ds_sub_agents := [demo_child]\<rparr>"

definition demo_command :: "string \<Rightarrow> command_message" where
  "demo_command cmd = \<lparr>cm_cmd = cmd, cm_id = ''c1'', cm_args = JUndef, cm_sender = JUndef, cm_requested_by = None\<rparr>"

definition demo_opts :: durable_session_options where
  "demo_opts = derive_options (new_session_input ''s1'' [])"

lemma demo_parent_fields [simp]:
  "ds_pending_shutdown demo_parent = None" "ds_orchestration_result demo_parent = None"
  "ds_sub_agents demo_parent = [demo_child]"
  by (simp_all add: demo_parent_def new_session_state_def create_initial_state_def new_session_input_def)


section \<open>A wait that is lost\<close>

definition wedged :: "durable_session_state \<Rightarrow> bool" where
  "wedged s \<longleftrightarrow> ds_pending_shutdown s \<noteq> None \<and> ds_waiting_for_agent_ids s = None \<and>
     ds_orchestration_result s = None"

lemma wedged_updates [simp]:
  "wedged (s\<lparr>ds_active_timer := t\<rparr>) = wedged s"
  "wedged (s\<lparr>ds_blocked_error := b\<rparr>) = wedged s"
  "wedged (s\<lparr>ds_interrupted_wait_timer := w\<rparr>) = wedged s"
  "wedged (s\<lparr>ds_interrupted_cron_timer := c\<rparr>) = wedged s"
  "wedged (s\<lparr>ds_cron_at_schedule := a\<rparr>) = wedged s"
  "wedged (s\<lparr>ds_affinity_key := k\<rparr>) = wedged s"
  by (simp_all add: wedged_def)

lemma noted_prompt_wedged [simp]: "wedged (snd (noted_prompt r p n m s)) = wedged s"
  by (simp add: noted_prompt_def wrap_with_resume_context_def wedged_def Let_def)

lemma interrupt_wedges:
  assumes "wedged (s\<lparr>ds_waiting_for_agent_ids := None\<rparr>)"
    "ds_waiting_for_agent_ids s = None \<or> (\<exists>t. ds_active_timer s = Some t \<and> at_type t = Timer_agent_poll)"
  shows "wedged (snd (interrupt_timer_for_prompt now msg s))"
proof (cases "ds_active_timer s")
  case None
  then show ?thesis using assms by (simp add: interrupt_timer_for_prompt_def wedged_def)
next
  case (Some t)
  have "wedged s" if "at_type t \<noteq> Timer_agent_poll" using assms that Some by (simp add: wedged_def)
  moreover have "wedged (s\<lparr>ds_blocked_error := None, ds_waiting_for_agent_ids := None, ds_active_timer := None\<rparr>)"
    using assms(1) by (simp add: wedged_def)
  ultimately show ?thesis
    using Some by (cases "at_type t") (simp_all add: interrupt_timer_for_prompt_def Let_def case_prod_beta)
qed

lemma prompt_wedges:
  assumes "ds_pending_shutdown s \<noteq> None" "ds_orchestration_result s = None"
    "ds_waiting_for_agent_ids s = None \<or> (\<exists>t. ds_active_timer s = Some t \<and> at_type t = Timer_agent_poll)"
  shows "wedged (snd (admit_prompt now msg s))"
proof -
  have "wedged (snd (interrupt_timer_for_prompt now msg s))"
    using assms by (intro interrupt_wedges) (simp_all add: wedged_def)
  then show ?thesis
    by (auto simp: admit_prompt_def case_prod_beta wedged_def flush_pending_child_digest_into_prompt_def
        Let_def clear_pending_child_digest_def split: option.splits)
qed

lemma release_wedged [simp]: "wedged (snd (release_if b guid why s)) = wedged s"
  by (simp add: release_if_def release_affinity_def)

lemma park_wedged [simp]: "wedged (snd (park opts guid now why ty secs ms reason evs s)) = wedged s"
  by (simp add: park_def case_prod_beta Let_def)

lemma continue_schedules_wedged:
  "wedged s \<Longrightarrow> continue_schedules tz opts guid now s = Some r \<Longrightarrow> wedged (snd r)"
  by (auto simp: continue_schedules_def continue_cron_at_def Let_def case_prod_beta
      split: option.splits if_splits)

lemma continuation_wedged:
  "wedged s \<Longrightarrow> schedule_post_turn_continuation tz opts guid now s = Some r \<Longrightarrow> wedged (snd r)"
  by (auto simp: schedule_post_turn_continuation_def Let_def intro: continue_schedules_wedged [rotated]
      split: option.splits if_splits)

lemma outside_wedged: "wedged s \<Longrightarrow> wedged (outside sid opts ev s)"
proof (induction ev)
  case (Prompt_arrives now msg)
  then show ?case using prompt_wedges [of s now msg] by (simp add: wedged_def)
next
  case (Command_arrives now children ds mode cmd)
  then show ?case by (auto simp: begin_graceful_shutdown_def wedged_def)
next
  case (Child_reports u probe)
  then show ?case
    by (auto simp: report_in_shutdown_def wedged_def apply_child_update_def Let_def)
next
  case (Poll_fires now probe ds)
  then show ?case by (simp add: process_agent_poll_def wedged_def)
next
  case (Model_switches now)
  then show ?case
    by (auto simp: capture_model_switch_interrupted_timer_def wedged_def Let_def
        split: option.splits timer_type.splits)
next
  case (Turn_ends tz guid now)
  then show ?case using continuation_wedged by (auto split: option.splits)
qed

text \<open>
  A user's prompt that arrives while a shutdown waits for the children wedges the session: it clears
  the poll timer and the list of awaited children but not the pending shutdown. From then on no
  command (each is answered "already in progress"), child report, poll, prompt, model switch or end of
  a turn ends the session or resumes the wait.
\<close>

theorem shutdown_wedged_by_prompt:
  assumes "ds_pending_shutdown s = Some p" "ds_orchestration_result s = None"
    "ds_active_timer s = Some t" "at_type t = Timer_agent_poll"
  shows "let s' = fold (outside sid opts) events (snd (admit_prompt now msg s))
    in ds_pending_shutdown s' \<noteq> None \<and> ds_waiting_for_agent_ids s' = None \<and>
       ds_orchestration_result s' = None"
proof -
  have "wedged s1 \<Longrightarrow> wedged (fold (outside sid opts) events s1)" for s1
    by (induction events arbitrary: s1) (simp_all add: outside_wedged)
  then have "wedged (fold (outside sid opts) events (snd (admit_prompt now msg s)))"
    using prompt_wedges [of s now msg] assms by simp
  then show ?thesis by (simp add: wedged_def Let_def)
qed

theorem shutdown_wedged_by_prompt_witness:
  "let s = snd (begin_graceful_shutdown ''s1'' demo_opts 0 None [] Mode_done (demo_command ''done'') demo_parent);
       s' = fold (outside ''s1'' demo_opts) [Command_arrives 70000 None [] Mode_delete (demo_command ''delete'')]
              (snd (admit_prompt 1000 ''hello'' s))
   in ds_orchestration_result s' = None"
proof -
  let ?s = "snd (begin_graceful_shutdown ''s1'' demo_opts 0 None [] Mode_done (demo_command ''done'') demo_parent)"
  obtain p t where "ds_pending_shutdown ?s = Some p" "ds_orchestration_result ?s = None"
    "ds_active_timer ?s = Some t" "at_type t = Timer_agent_poll"
    by (simp add: begin_graceful_shutdown_def refresh_tracked_sub_agents_def Let_def demo_child_def
      is_sub_agent_terminal_status_def clear_pending_child_digest_def shutdown_poll_timer_def new_timer_def)
  from shutdown_wedged_by_prompt [OF this, of "''s1''" demo_opts
      "[Command_arrives 70000 None [] Mode_delete (demo_command ''delete'')]" 1000 "''hello''"]
  show ?thesis unfolding Let_def by blast
qed

section \<open>Children that are only quiet\<close>

lemma poll_target_other:
  "t \<noteq> target \<Longrightarrow>
   find_tracked_agent_by_orch_id (poll_target probe target agents) t = find_tracked_agent_by_orch_id agents t"
proof -
  have keep: "sa_orch_id (polled_agent pr a) = sa_orch_id a" for pr a
    by (simp add: polled_agent_def split: option.split jsval.split)
  assume "t \<noteq> target"
  then have "List.find (\<lambda>a. sa_orch_id a = t) (update_first (\<lambda>a. sa_orch_id a = target) (polled_agent pr) as) =
      List.find (\<lambda>a. sa_orch_id a = t) as" for pr as
    by (induction as) (auto simp: keep)
  then show ?thesis
    by (simp add: poll_target_def find_tracked_agent_by_orch_id_def split: option.split)
qed

lemma poll_target_same:
  assumes "find_tracked_agent_by_orch_id agents t = Some a" "\<not> is_sub_agent_terminal_status (sa_status a)"
  shows "find_tracked_agent_by_orch_id (poll_target probe t agents) t =
    Some (polled_agent (probe (sa_session_id a)) a)"
proof -
  have keep: "sa_orch_id (polled_agent pr a) = sa_orch_id a" for pr a
    by (simp add: polled_agent_def split: option.split jsval.split)
  have "List.find (\<lambda>a. sa_orch_id a = t) as = Some a \<Longrightarrow>
      List.find (\<lambda>a. sa_orch_id a = t) (update_first (\<lambda>a. sa_orch_id a = t) (polled_agent pr) as) =
      Some (polled_agent pr a)" for pr as
    by (induction as) (auto simp: keep split: if_splits)
  then show ?thesis using assms by (simp add: poll_target_def find_tracked_agent_by_orch_id_def)
qed

definition probe_idle :: "string \<Rightarrow> jsval option" where
  "probe_idle c = Some (JObj [(''status'', JStr ''idle'')])"

lemma polled_idle: "sa_status (polled_agent (probe_idle c) a) = ''idle''"
  by (simp add: polled_agent_def probe_idle_def)

lemma settled_after_poll:
  assumes "t \<in> set ts \<or> agent_settled agents t"
  shows "agent_settled (fold (poll_target probe_idle) ts agents) t"
  using assms
proof (induction ts arbitrary: agents)
  case Nil
  then show ?case by simp
next
  case (Cons x ts)
  have "agent_settled (poll_target probe_idle x agents) t" if "x = t \<or> agent_settled agents t"
  proof (cases "x = t")
    case False
    then show ?thesis using that by (simp add: agent_settled_def poll_target_other)
  next
    case True
    show ?thesis
    proof (cases "find_tracked_agent_by_orch_id agents t")
      case None
      then show ?thesis using True by (simp add: agent_settled_def poll_target_def)
    next
      case (Some a)
      then show ?thesis
        using True poll_target_same [OF Some, of probe_idle] polled_idle
        by (cases "is_sub_agent_terminal_status (sa_status a)")
          (auto simp: agent_settled_def poll_target_def is_agent_wait_settled_status_def)
    qed
  qed
  then show ?case using Cons.prems Cons.IH [of "poll_target probe_idle x agents"] by auto
qed

text \<open>
  The shutdown does not wait for its children to end: if at the first poll every child is merely idle
  (its \<open>done\<close> command still queued), the session is finalized as completed.
\<close>

theorem shutdown_completes_over_idle_children:
  assumes "ds_pending_shutdown s = Some p" "psd_mode p = Mode_done"
    "ds_waiting_for_agent_ids s = Some ids"
  shows "ds_orchestration_result (snd (process_agent_poll sid opts now probe_idle ds s)) = Some ''done''"
proof -
  let ?run = "get_still_running_agent_ids (ds_sub_agents s) ids"
  let ?as = "fold (poll_target probe_idle) ?run (ds_sub_agents s)"
  have "agent_settled ?as i" if "i \<in> set ids" for i
    using that
    by (intro settled_after_poll)
      (auto simp: get_still_running_agent_ids_def agent_settled_def is_agent_wait_settled_status_def
        split: option.splits)
  then have "maybe_resolve_agent_wait_completion (s\<lparr>ds_sub_agents := ?as\<rparr>) = Finalize_shutdown"
    using assms(1,3) by (simp add: maybe_resolve_agent_wait_completion_def list_all_iff)
  moreover have "session_ended (shutdown_result (psd_mode p))
      (snd (finalize_pending_shutdown sid opts ds (s\<lparr>ds_sub_agents := ?as\<rparr>)))"
    using assms(1) by (intro finalize_ends) simp
  ultimately show ?thesis using assms by (simp add: process_agent_poll_def Let_def session_ended_def)
qed

theorem shutdown_completes_over_idle_children_witness:
  "ds_orchestration_result (snd (process_agent_poll ''s1'' demo_opts 5000 probe_idle []
     (snd (begin_graceful_shutdown ''s1'' demo_opts 0 None [] Mode_done (demo_command ''done'') demo_parent)))) =
   Some ''done''"
proof -
  let ?s = "snd (begin_graceful_shutdown ''s1'' demo_opts 0 None [] Mode_done (demo_command ''done'') demo_parent)"
  have s: "\<exists>p. ds_pending_shutdown ?s = Some p \<and> psd_mode p = Mode_done"
    "ds_waiting_for_agent_ids ?s = Some [''session-a'']"
    by (simp_all add: begin_graceful_shutdown_def refresh_tracked_sub_agents_def Let_def demo_child_def
      is_sub_agent_terminal_status_def clear_pending_child_digest_def)
  then obtain p where "ds_pending_shutdown ?s = Some p" "psd_mode p = Mode_done" by blast
  from shutdown_completes_over_idle_children [OF this s(2)] show ?thesis .
qed

section \<open>Telling the parent\<close>

definition plain_word :: "string \<Rightarrow> bool" where
  "plain_word w \<longleftrightarrow> w \<noteq> [] \<and> (\<forall>c \<in> set w. \<not> is_ws c \<and> c \<noteq> CHR '']'')"

lemma tokens_from_word:
  "\<forall>c \<in> set w. \<not> is_ws c \<Longrightarrow> tokens_from cur (w @ rest) = tokens_from (rev w @ cur) rest"
  by (induction w arbitrary: cur) auto

lemma tokens_from_space:
  "\<forall>c \<in> set w. \<not> is_ws c \<Longrightarrow> w \<noteq> [] \<Longrightarrow> tokens_from [] (w @ CHR '' '' # rest) = w # tokens_from [] rest"
  using tokens_from_word [of w "[]" "CHR '' '' # rest"] by (simp add: is_ws_def)

lemma tokens_from_last: "\<forall>c \<in> set w. \<not> is_ws c \<Longrightarrow> w \<noteq> [] \<Longrightarrow> tokens_from [] w = [w]"
  using tokens_from_word [of w "[]" "[]"] by simp

lemma set_field_token:
  "k \<noteq> [] \<Longrightarrow> CHR ''='' \<notin> set k \<Longrightarrow> set_field (k @ CHR ''='' # v) fs = fs(k \<mapsto> v)"
  by (simp add: set_field_def split_on_append split_on_no_sep join_split_on)

lemma show_int_plain: "c \<in> set (show_int i) \<Longrightarrow> \<not> is_ws c \<and> c \<noteq> CHR '']''"
  using show_nat_digits [of c] by (auto simp: show_int_def is_digit_def is_ws_def split: if_splits)

text \<open>The header of an update as its tokens, each after a blank.\<close>

definition header_of :: "string list \<Rightarrow> string" where
  "header_of tokens = concat (map (\<lambda>t. CHR '' '' # t) tokens)"

lemma plain_word_parts:
  "plain_word w \<Longrightarrow> w \<noteq> [] \<and> (\<forall>c \<in> set w. \<not> is_ws c) \<and> CHR '']'' \<notin> set w"
  by (auto simp: plain_word_def)

lemma tokens_of_header: "list_all plain_word tokens \<Longrightarrow> tokens_from [] (header_of tokens) = tokens"
proof (induction tokens)
  case (Cons t tokens)
  then have t: "t \<noteq> []" "\<forall>c \<in> set t. \<not> is_ws c" and IH: "tokens_from [] (header_of tokens) = tokens"
    by (auto dest: plain_word_parts)
  have eq: "tokens_from [] (CHR '' '' # r) = tokens_from [] r" for r by (simp add: is_ws_def)
  show ?case
  proof (cases tokens)
    case Nil
    then show ?thesis using tokens_from_last [OF t(2,1)] by (simp add: header_of_def eq)
  next
    case (Cons u us)
    then have "header_of tokens = CHR '' '' # u @ header_of us" by (simp add: header_of_def)
    then show ?thesis using tokens_from_space [OF t(2,1), of "u @ header_of us"] IH
      by (simp add: header_of_def eq)
  qed
qed (simp add: header_of_def)

lemma header_of_plain:
  assumes "list_all plain_word tokens" "c \<in> set (header_of tokens)"
  shows "c \<noteq> CHR '']'' \<and> c \<noteq> CHR 0x0A"
proof -
  have "c = CHR '' '' \<or> (\<exists>t \<in> set tokens. c \<in> set t)" using assms(2) by (auto simp: header_of_def split: if_splits)
  then show ?thesis using assms(1) by (auto simp: list_all_iff plain_word_def is_ws_def)
qed

lemma parse_tagged_update:
  assumes "list_all plain_word tokens" "tokens \<noteq> []"
    and "fs = fold set_field tokens Map.empty" "fs ''from'' = Some sid" "fs ''type'' = Some ty" "sid \<noteq> []" "ty \<noteq> []"
  shows "parse_child_update (Some (update_tag @ header_of tokens @ CHR '']'' # CHR 0x0A # body)) = Some
    \<lparr>chu_session_id = sid, chu_update_type = ty, chu_content = trim body,
     chu_cycle_origin = one_of [''cron'', ''cron_at''] (fs ''cycle''),
     chu_cycle_status = one_of [''quiet'', ''material'', ''blocked''] (fs ''status''),
     chu_verdict = one_of terminal_verdicts (fs ''verdict'')\<rparr>"
proof -
  let ?h = "header_of tokens" let ?t = "update_tag @ ?h @ CHR '']'' # CHR 0x0A # body"
  have plain: "c \<noteq> CHR '']'' \<and> c \<noteq> CHR 0x0A" if "c \<in> set ?h" for c
    using header_of_plain [OF assms(1) that] .
  obtain t ts where "tokens = t # ts" using assms(2) by (cases tokens) auto
  then have h: "?h = CHR '' '' # t @ header_of ts" by (simp add: header_of_def)
  have "takeWhile (\<lambda>c. c \<noteq> CHR '']'') (?h @ CHR '']'' # CHR 0x0A # body) = ?h"
    using plain by (subst takeWhile_append2) auto
  then have header: "update_header ?t = Some ?h"
    using h by (simp add: update_header_def is_ws_def)
  have "CHR 0x0A \<notin> set (update_tag @ ?h @ [CHR '']''])" using plain by (auto simp: update_tag_def)
  from split_on_append [OF this, of body] have "drop 1 (split_on CHR 0x0A ?t) = split_on CHR 0x0A body" by simp
  then show ?thesis using assms(3-7) tokens_of_header [OF assms(1)]
    by (simp add: parse_child_update_def header Let_def join_split_on)
qed

lemma header_of_join: "tokens \<noteq> [] \<Longrightarrow> header_of tokens = CHR '' '' # join '' '' tokens"
proof (induction tokens)
  case (Cons t tokens)
  then show ?case by (cases tokens) (auto simp: header_of_def)
qed simp

lemma show_int_word: "plain_word w \<Longrightarrow> plain_word (w @ show_int i)"
  using show_int_plain by (auto simp: plain_word_def)

lemma plain_word_append: "plain_word v \<Longrightarrow> plain_word w \<Longrightarrow> plain_word (v @ w)"
  by (auto simp: plain_word_def)

lemma header_words [simp]:
  "plain_word ''from=''" "plain_word ''type=''" "plain_word ''iter=''" "plain_word ''verdict=''"
  "plain_word ''cycle=''" "plain_word ''status=''" "plain_word ''completed''" "plain_word ''type=completed''"
  by (simp_all add: plain_word_def is_ws_def)

lemma set_field_simps [simp]:
  "set_field (CHR ''f'' # CHR ''r'' # CHR ''o'' # CHR ''m'' # CHR ''='' # v) fs = fs(''from'' \<mapsto> v)"
  "set_field (CHR ''t'' # CHR ''y'' # CHR ''p'' # CHR ''e'' # CHR ''='' # v) fs = fs(''type'' \<mapsto> v)"
  "set_field (CHR ''i'' # CHR ''t'' # CHR ''e'' # CHR ''r'' # CHR ''='' # v) fs = fs(''iter'' \<mapsto> v)"
  "set_field (CHR ''v'' # CHR ''e'' # CHR ''r'' # CHR ''d'' # CHR ''i'' # CHR ''c'' # CHR ''t'' # CHR ''='' # v) fs = fs(''verdict'' \<mapsto> v)"
  "set_field (CHR ''c'' # CHR ''y'' # CHR ''c'' # CHR ''l'' # CHR ''e'' # CHR ''='' # v) fs = fs(''cycle'' \<mapsto> v)"
  "set_field (CHR ''s'' # CHR ''t'' # CHR ''a'' # CHR ''t'' # CHR ''u'' # CHR ''s'' # CHR ''='' # v) fs = fs(''status'' \<mapsto> v)"
  using set_field_token [of "''from''" v fs] set_field_token [of "''type''" v fs] set_field_token [of "''iter''" v fs]
    set_field_token [of "''verdict''" v fs] set_field_token [of "''cycle''" v fs] set_field_token [of "''status''" v fs]
  by simp_all

lemma parse_terminal_update:
  assumes "plain_word sid" "ty \<in> {''completed'', ''cancelled''}"
  shows "parse_child_update (Some (terminal_child_update sid iteration ty reason)) = Some
    \<lparr>chu_session_id = sid, chu_update_type = ty, chu_content = trim reason, chu_cycle_origin = None,
     chu_cycle_status = None, chu_verdict = Some (if ty = ''completed'' then ''success'' else ''cancelled'')\<rparr>"
proof -
  define verdict where "verdict = (if ty = ''completed'' then ''success'' else ''cancelled'')"
  let ?tokens = "[''from='' @ sid, ''type='' @ ty, ''iter='' @ show_int iteration, ''verdict='' @ verdict]"
  have words: "plain_word ty" "plain_word verdict"
    using assms(2) by (auto simp: plain_word_def verdict_def is_ws_def)
  then have "list_all plain_word ?tokens"
    using assms(1) plain_word_append [OF header_words(1)] plain_word_append [OF header_words(2)]
      plain_word_append [OF header_words(4)] show_int_word [OF header_words(3)]
    by (simp del: append.simps)
  moreover have "terminal_child_update sid iteration ty reason =
      update_tag @ header_of ?tokens @ CHR '']'' # CHR 0x0A # reason"
    by (simp add: terminal_child_update_def update_tag_def header_of_def verdict_def)
  moreover have "verdict \<in> set terminal_verdicts" by (simp add: verdict_def terminal_verdicts_def)
  moreover have "sid \<noteq> []" "ty \<noteq> []" using assms(1) words(1) by (simp_all add: plain_word_def)
  ultimately show ?thesis
    using parse_tagged_update [of ?tokens "fold set_field ?tokens Map.empty" sid ty reason]
    by (simp add: one_of_def verdict_def)
qed

text \<open>
  A child whose shutdown completes it, and which did not do so at its parent's own request (then
  nothing is sent), reports it to a parent that understands it: the report parses as a completion of
  that child, provided its session id is one word of the header, and applying it ends the wait of a
  parent that is not shutting down itself, if the child was the last one awaited, whatever the
  parent's own probe of the child says.
\<close>

theorem child_report_ends_parent_wait:
  assumes "plain_word sid" "do_parent_session_id opts = Some parent" "parent \<noteq> []"
    "requested_by \<noteq> Some parent"
    and "ds_waiting_for_agent_ids s = Some targets" "distinct (map sa_orch_id (ds_sub_agents s))"
    "List.find (\<lambda>a. sa_session_id a = sid) (ds_sub_agents s) = Some child"
    "\<forall>t \<in> set targets. t \<noteq> sa_orch_id child \<longrightarrow> agent_settled (ds_sub_agents s) t"
    "ds_pending_shutdown s = None"
  shows "\<exists>msg u s'. Message_sent parent msg \<in>
      set (fst (complete_session sid opts reason command_id requested_by child_state)) \<and>
    parse_child_update (Some msg) = Some u \<and> chu_session_id u = sid \<and>
    maybe_resolve_agent_wait_completion (snd (apply_child_update u probe s)) = Wait_resolved s' \<and>
    ds_waiting_for_agent_ids s' = None \<and> truthy_str (ds_pending_prompt s')"
proof -
  let ?msg = "terminal_child_update sid (ds_iteration (end_waits child_state)) ''completed'' reason"
  have "Message_sent parent ?msg \<in>
      set (fst (complete_session sid opts reason command_id requested_by child_state))"
    using assms(2-4)
    by (simp add: complete_session_def Let_def followed_by_def notify_parent_of_terminal_state_def
      if_truthy_def)
  moreover from parse_terminal_update [OF assms(1)] obtain u where u: "parse_child_update (Some ?msg) = Some u"
    "chu_session_id u = sid" "chu_update_type u = ''completed''" by force
  moreover have "case maybe_resolve_agent_wait_completion (snd (apply_child_update u probe s)) of
      Still_waiting \<Rightarrow> False | Finalize_shutdown \<Rightarrow> ds_pending_shutdown s \<noteq> None
    | Wait_resolved s'' \<Rightarrow> ds_pending_shutdown s = None \<and> ds_waiting_for_agent_ids s'' = None \<and>
        ds_active_timer s'' = None \<and> ds_pending_child_digest s'' = None \<and> truthy_str (ds_pending_prompt s'')"
    using completion_resolves_wait [OF assms(5,6) _ u(3), of child probe] assms(7,8) u(2)
    unfolding Let_def by blast
  ultimately show ?thesis using assms(9) by (auto split: wait_resolution.splits)
qed

theorem child_report_ends_parent_wait_witness:
  "\<exists>msg u s'. Message_sent ''p'' msg \<in>
      set (fst (complete_session ''a'' (demo_opts\<lparr>do_parent_session_id := Some ''p''\<rparr>) ''ok'' None None new_session_state)) \<and>
    parse_child_update (Some msg) = Some u \<and>
    maybe_resolve_agent_wait_completion (snd (apply_child_update u None
      (demo_parent\<lparr>ds_waiting_for_agent_ids := Some [''session-a'']\<rparr>))) = Wait_resolved s'"
  using child_report_ends_parent_wait [of "''a''" "demo_opts\<lparr>do_parent_session_id := Some ''p''\<rparr>" "''p''" None
      "demo_parent\<lparr>ds_waiting_for_agent_ids := Some [''session-a'']\<rparr>" "[''session-a'']" demo_child
      "''ok''" None new_session_state None]
  by (auto simp: plain_word_def is_ws_def demo_child_def)

end
