(* ===== verification/OrchRegen.thy ===== *)
theory OrchRegen
  imports OrchShutdown
begin

text \<open>
  Commands and session regeneration (\<open>packages/sdk/src/orchestration/lifecycle.ts\<close>, \<open>handleCommand\<close>,
  \<open>runDeterministicDistill\<close>, \<open>advanceRegenPipeline\<close>). A regeneration is a pipeline the run loop
  advances one stage at a time (archive, distill, flip); the flip is a continue-as-new into the next
  transcript epoch. Shown: the gates no command can pass, that the pipeline ends within thirty-five
  advances whatever the activities do, that a failure before the flip leaves the session as it was,
  and what the reborn session starts with. And where it fails: a flip whose model rebind fails has
  already lost the session's timer and changed its model.

  What the activities return is in a record of the model's arguments: \<open>Inl\<close> a thrown error's message,
  \<open>Inr\<close> the parsed value. \<open>utcNow\<close> is read once for a command.
\<close>

section \<open>Commands\<close>

record command_world =
  cw_now :: int
  cw_children :: "child_session list option"
  cw_descendants :: "string list"
  cw_models :: "string + jsval"

definition arg :: "string \<Rightarrow> command_message \<Rightarrow> jsval" where
  "arg k cmd = jget k (cm_args cmd)"

text \<open>\<open>String(x || "")\<close>, \<open>String(x ?? d)\<close>, and \<open>typeof x === "string" && x ? x : undefined\<close>\<close>

definition text_or_empty :: "jsval \<Rightarrow> string" where
  "text_or_empty v = (if truthy v then js_string v else [])"

definition text_or :: "string \<Rightarrow> jsval \<Rightarrow> string" where
  "text_or d v = (if is_nullish v then d else js_string v)"

definition string_arg :: "string \<Rightarrow> command_message \<Rightarrow> string option" where
  "string_arg k cmd = if_truthy (as_string (arg k cmd))"

definition update_state ::
  "(durable_session_state \<Rightarrow> orch_effect list \<times> durable_session_state) \<Rightarrow> durable_session_runtime \<Rightarrow>
   orch_effect list \<times> durable_session_runtime" where
  "update_state f rt = (fst (f (rt_state rt)), rt\<lparr>rt_state := snd (f (rt_state rt))\<rparr>)"

text \<open>Answer the command, then publish a status.\<close>

definition answer_and_publish ::
  "string \<Rightarrow> command_response \<Rightarrow> string \<Rightarrow> config_obj \<Rightarrow> durable_session_state \<Rightarrow>
   orch_effect list \<times> durable_session_state" where
  "answer_and_publish sid response status extra state =
     followed_by (write_command_response sid response state)
       (\<lambda>s. ([publish_status s status extra], s))"

definition optional_arg :: "string \<Rightarrow> command_message \<Rightarrow> jsval \<Rightarrow> jsval" where
  "optional_arg k cmd old =
     (if arg k cmd \<noteq> JUndef
      then (if truthy (arg k cmd) then JStr (js_string (arg k cmd)) else JNull) else old)"

definition or_json_null :: "jsval \<Rightarrow> jsval" where
  "or_json_null v = (if is_nullish v then JNull else v)"

definition set_if_given :: "string \<Rightarrow> command_message \<Rightarrow> jsval \<Rightarrow> config_obj \<Rightarrow> config_obj" where
  "set_if_given k cmd v config = (if arg k cmd \<noteq> JUndef then obj_set k v config else config)"

definition set_model ::
  "int \<Rightarrow> command_message \<Rightarrow> durable_session_runtime \<Rightarrow>
   (orch_effect list \<times> durable_session_runtime) \<times> orchestration_input option" where
  "set_model now cmd rt =
     (let sid = oi_session_id (rt_input rt); state = rt_state rt;
          new_model = trim (text_or_empty (arg ''model'' cmd))
      in if new_model = [] then
           (update_state (answer_and_publish sid
              (command_error (cm_cmd cmd) (cm_id cmd) ''set_model requires a non-empty model'') ''idle'' []) rt,
            None)
         else
           let config = JObj (ds_config state);
               old_model = (if truthy (jget ''model'' config) then jget ''model'' config else JStr ''(default)'');
               old_effort = or_json_null (jget ''reasoningEffort'' config);
               new_effort = optional_arg ''reasoningEffort'' cmd old_effort;
               old_tier = or_json_null (jget ''contextTier'' config);
               new_tier = optional_arg ''contextTier'' cmd old_tier;
               config' = set_if_given ''contextTier'' cmd new_tier
                 (set_if_given ''reasoningEffort'' cmd new_effort
                   (obj_set ''model'' (JStr new_model) (ds_config state)));
               label = (if truthy new_effort then new_model @ '':'' @ js_string new_effort else new_model);
               s1 = capture_model_switch_interrupted_timer now
                 (state\<lparr>ds_config := config', ds_runtime_model_notice := Some
                    (''Runtime model for this turn is '' @ label @
                     ''. If asked what model you are using, answer this value.'')\<rparr>);
               change = [(''oldModel'', old_model), (''newModel'', JStr new_model),
                 (''oldReasoningEffort'', old_effort), (''newReasoningEffort'', new_effort),
                 (''oldContextTier'', old_tier), (''newContextTier'', new_tier)];
               source = (if is_nullish (arg ''source'' cmd) then JStr ''user'' else arg ''source'' cmd);
               r = followed_by
                 ([Session_model_updated new_model (as_string new_effort) (as_string new_tier) (js_string source),
                   Event_recorded sid ''session.model_changed'' (change @ [(''source'', source)])],
                  rt\<lparr>rt_state := s1\<rparr>)
                 (update_state (answer_and_publish sid
                   (command_ok (cm_cmd cmd) (cm_id cmd) (change @ [(''appliesOn'', JStr ''next_turn'')])) ''idle'' []))
           in (r, Some (versioned_continue_as_new now (snd r)
                 (build_continue_input_with_prompt (snd r) (Some (''Continue on '' @ label @ ''.''))
                   (no_overrides\<lparr>ov_bootstrap_prompt := Some True\<rparr>)))))"

definition regen_cooldown_ms :: int where "regen_cooldown_ms = 6 * 60 * 60 * 1000"

text \<open>The gates of \<open>regenerate\<close>, in order; \<open>None\<close> lets the command through.\<close>

definition regen_refusal ::
  "int \<Rightarrow> command_message \<Rightarrow> durable_session_options \<Rightarrow> durable_session_state \<Rightarrow> string option" where
  "regen_refusal now cmd opts state =
     (let source = text_or ''operator'' (arg ''source'' cmd);
          force = (arg ''force'' cmd = JBool True \<and> source = ''operator'')
      in if ds_regen state \<noteq> None then Some ''already_pending''
         else if do_is_system opts then Some ''is_system''
         else if ds_pending_shutdown state \<noteq> None then Some ''shutting_down''
         else if ds_epoch_start_pending state then Some ''epoch_unsettled''
         else if \<not> force \<and> ds_iteration state - ds_epoch_start_iteration state < 5 then Some ''too_young''
         else if (source = ''tool'' \<or> source = ''parent'') \<and> 0 < ds_last_regen_at_ms state \<and>
                 now - ds_last_regen_at_ms state < regen_cooldown_ms then Some ''cooldown''
         else if source = ''tool'' then
           (case normalize_message_sender (cm_sender cmd) of
              Some sender \<Rightarrow> if ms_relation sender \<noteq> Some Owner then Some ''not_owner'' else None
            | None \<Rightarrow> None)
         else if source = ''parent'' then
           (if \<not> truthy_str (cm_requested_by cmd) \<or> cm_requested_by cmd \<noteq> do_parent_session_id opts
            then Some ''not_parent'' else None)
         else None)"

definition requested_regen :: "int \<Rightarrow> command_message \<Rightarrow> regen_state" where
  "requested_regen now cmd =
     (let source = text_or ''operator'' (arg ''source'' cmd)
      in \<lparr>rg_attempt_id = cm_id cmd, rg_stage = Stage_requested, rg_requested_at_ms = now,
          rg_trigger = (if source \<in> {''tool'', ''parent'', ''policy''} then source else ''operator''),
          rg_requested_by = if_truthy (cm_requested_by cmd),
          rg_handoff = map_option (take 4000) (string_arg ''handoff'' cmd),
          rg_instructions = map_option (take 4000) (string_arg ''instructions'' cmd),
          rg_distill_mode =
            (if arg ''distill_mode'' cmd = JStr ''deterministic'' then ''deterministic'' else ''llm''),
          rg_distiller_reasoning_effort = string_arg ''distillerReasoningEffort'' cmd,
          rg_distiller_context_tier = string_arg ''distillerContextTier'' cmd,
          rg_distiller_model = string_arg ''distillerModel'' cmd, rg_distiller_model_resolved = None,
          rg_distiller_session_id = None, rg_distill_started_at_ms = None,
          rg_model = string_arg ''model'' cmd, rg_archive_artifact_id = None,
          rg_package_artifact_id = None, rg_bootstrap = None, rg_selection_strategy = None,
          rg_elided_count = 0, rg_archive_chunk_ids = [], rg_archive_ms = 0, rg_turns_archived = 0,
          rg_compactions_archived = 0, rg_distill_ms = 0, rg_distill_mode_final = None\<rparr>)"

definition null_or_text :: "string option \<Rightarrow> jsval" where
  "null_or_text v = (case v of None \<Rightarrow> JNull | Some s \<Rightarrow> JStr s)"

definition regenerate ::
  "int \<Rightarrow> command_message \<Rightarrow> durable_session_runtime \<Rightarrow> orch_effect list \<times> durable_session_runtime" where
  "regenerate now cmd rt =
     (let sid = oi_session_id (rt_input rt); state = rt_state rt
      in case regen_refusal now cmd (rt_options rt) state of
           Some reason \<Rightarrow> followed_by
             ([Event_recorded sid ''session.regenerate_refused''
                 [(''attemptId'', JStr (cm_id cmd)), (''reason'', JStr reason),
                  (''source'', JStr (text_or ''operator'' (arg ''source'' cmd))),
                  (''requestedBy'', null_or_text (cm_requested_by cmd))]], rt)
             (update_state (answer_and_publish sid (command_error (cm_cmd cmd) (cm_id cmd) reason) ''idle'' []))
         | None \<Rightarrow>
             let regen = requested_regen now cmd
             in followed_by
               ([Event_recorded sid ''session.regenerate_requested''
                   [(''attemptId'', JStr (cm_id cmd)), (''trigger'', JStr (rg_trigger regen)),
                    (''requestedBy'', null_or_text (cm_requested_by cmd)),
                    (''hasHandoff'', JBool (rg_handoff regen \<noteq> None))]],
                rt\<lparr>rt_state := state\<lparr>ds_regen := Some regen\<rparr>\<rparr>)
               (update_state (answer_and_publish sid
                 (command_ok (cm_cmd cmd) (cm_id cmd)
                   [(''accepted'', JBool True), (''attemptId'', JStr (cm_id cmd)),
                    (''fromEpoch'', JNum (of_int (ds_transcript_epoch state))), (''appliesOn'', JStr ''pipeline'')])
                 ''running'' [(''regenStage'', JStr ''requested'')])))"

definition cancel_regen ::
  "command_message \<Rightarrow> durable_session_runtime \<Rightarrow> orch_effect list \<times> durable_session_runtime" where
  "cancel_regen cmd rt =
     (let sid = oi_session_id (rt_input rt); state = rt_state rt
      in case ds_regen state of
           None \<Rightarrow> update_state (answer_and_publish sid
             (command_error (cm_cmd cmd) (cm_id cmd) ''no_regen_pending'') ''idle'' []) rt
         | Some regen \<Rightarrow> followed_by
             (cancel_in_flight_distiller state @
              [Event_recorded sid ''session.regenerate_failed''
                 [(''attemptId'', JStr (rg_attempt_id regen)), (''stage'', JStr ''cancelled''),
                  (''error'', JStr ''cancelled by request'')]],
              rt\<lparr>rt_state := state\<lparr>ds_regen := None\<rparr>\<rparr>)
             (update_state (answer_and_publish sid
               (command_ok (cm_cmd cmd) (cm_id cmd) [(''cancelledAttemptId'', JStr (rg_attempt_id regen))])
               ''idle'' [])))"

definition list_models ::
  "string + jsval \<Rightarrow> command_message \<Rightarrow> durable_session_runtime \<Rightarrow>
   orch_effect list \<times> durable_session_runtime" where
  "list_models models cmd rt =
     (let sid = oi_session_id (rt_input rt); state = rt_state rt;
          response = (case models of
            Inl e \<Rightarrow> command_error (cm_cmd cmd) (cm_id cmd) e
          | Inr v \<Rightarrow> \<lparr>rsp_id = cm_id cmd, rsp_cmd = cm_cmd cmd,
              rsp_result = JObj [(''models'', v), (''currentModel'', jget ''model'' (JObj (ds_config state)))],
              rsp_error = None, rsp_context_usage = None\<rparr>)
      in followed_by
           ([publish_status state ''idle'' [(''cmdProcessing'', JStr (cm_id cmd))]], rt)
           (update_state (answer_and_publish sid response ''idle'' [])))"

definition get_info ::
  "command_message \<Rightarrow> durable_session_runtime \<Rightarrow> orch_effect list \<times> durable_session_runtime" where
  "get_info cmd rt =
     (let sid = oi_session_id (rt_input rt); state = rt_state rt;
          model = jget ''model'' (JObj (ds_config state))
      in update_state (answer_and_publish sid
           \<lparr>rsp_id = cm_id cmd, rsp_cmd = cm_cmd cmd,
            rsp_result = JObj
              [(''model'', if truthy model then model else JStr ''(default)''),
               (''iteration'', JNum (of_int (ds_iteration state))), (''sessionId'', JStr sid),
               (''affinityKey'', JStr (ds_affinity_key state)),
               (''affinityKeyShort'', JStr (take 8 (ds_affinity_key state))),
               (''preserveAffinityOnHydrate'', JBool (ds_preserve_affinity_on_hydrate state)),
               (''needsHydration'', JBool (ds_needs_hydration state)),
               (''blobEnabled'', JBool (ds_blob_enabled state))],
            rsp_error = None, rsp_context_usage = ds_context_usage state\<rparr> ''idle'' []) rt)"

definition shutdown_mode_of :: "string \<Rightarrow> shutdown_mode option" where
  "shutdown_mode_of cmd =
     (if cmd = ''done'' then Some Mode_done else if cmd = ''cancel'' then Some Mode_cancel
      else if cmd = ''delete'' then Some Mode_delete else None)"

text \<open>The third component is the input of a continue-as-new, which ends the execution.\<close>

definition handle_command ::
  "command_world \<Rightarrow> command_message \<Rightarrow> durable_session_runtime \<Rightarrow>
   (orch_effect list \<times> durable_session_runtime) \<times> orchestration_input option" where
  "handle_command w cmd rt0 =
     (let sid = oi_session_id (rt_input rt0);
          received = Event_recorded sid ''session.command_received''
            [(''cmd'', JStr (cm_cmd cmd)), (''id'', JStr (cm_id cmd))];
          plain = (\<lambda>f. (followed_by ([received], rt0) f, None))
      in if cm_cmd cmd = ''set_model'' then
           (followed_by ([received], rt0) (\<lambda>rt. fst (set_model (cw_now w) cmd rt)),
            snd (set_model (cw_now w) cmd rt0))
         else if cm_cmd cmd = ''regenerate'' then plain (regenerate (cw_now w) cmd)
         else if cm_cmd cmd = ''cancel_regen'' then plain (cancel_regen cmd)
         else if cm_cmd cmd = ''list_models'' then plain (list_models (cw_models w) cmd)
         else if cm_cmd cmd = ''get_info'' then plain (get_info cmd)
         else case shutdown_mode_of (cm_cmd cmd) of
           Some mode \<Rightarrow> plain (\<lambda>rt. update_state (begin_graceful_shutdown sid (rt_options rt) (cw_now w)
             (cw_children w) (cw_descendants w) mode cmd) rt)
         | None \<Rightarrow> plain (update_state (answer_and_publish sid
             (command_error (cm_cmd cmd) (cm_id cmd) (''Unknown command: '' @ cm_cmd cmd)) ''idle'' [])))"

section \<open>The pipeline\<close>

definition distiller_session_deadline_ms :: int where "distiller_session_deadline_ms = 300000"
definition distiller_poll_ms :: int where "distiller_poll_ms = 10000"

record regen_world =
  gw_now :: int
  gw_done_at :: int
  gw_archive :: "string + jsval"
  gw_distill :: "string + jsval"
  gw_spawn :: "string + jsval"
  gw_check :: "string + jsval"
  gw_collect :: "string + jsval"
  gw_update_model :: "string option"

text \<open>\<open>Number(x) || 0\<close> on what the activities return, a number or nothing.\<close>

fun number_or_zero :: "jsval \<Rightarrow> rat" where
  "number_or_zero (JNum q) = q"
| "number_or_zero _ = 0"

fun text_items :: "jsval \<Rightarrow> string list" where
  "text_items (JArr xs) = map js_string xs"
| "text_items _ = []"

text \<open>
  One stage: the state after it and its effects, with the error the stage throws, if any. A stage that
  throws has changed what it had changed until then.
\<close>

type_synonym stage_result = "(orch_effect list \<times> durable_session_runtime) \<times> string option"

definition set_regen :: "regen_state \<Rightarrow> durable_session_runtime \<Rightarrow> durable_session_runtime" where
  "set_regen regen rt = rt\<lparr>rt_state := (rt_state rt)\<lparr>ds_regen := Some regen\<rparr>\<rparr>"

definition archive_stage :: "regen_world \<Rightarrow> regen_state \<Rightarrow> durable_session_runtime \<Rightarrow> stage_result" where
  "archive_stage w regen rt =
     (let published = publish_status (rt_state rt) ''running'' [(''regenStage'', JStr ''archiving'')]
      in case gw_archive w of
           Inl e \<Rightarrow> (([published], rt), Some e)
         | Inr archive \<Rightarrow>
             (([published], set_regen (regen
               \<lparr>rg_stage := Stage_archived,
                rg_archive_artifact_id := Some (text_or [] (jget ''archiveArtifactId'' archive)),
                rg_selection_strategy := Some (text_or [] (jget ''selectionStrategy'' archive)),
                rg_elided_count := number_or_zero (jget ''elidedCount'' archive),
                rg_archive_chunk_ids := text_items (jget ''archiveChunkIds'' archive),
                rg_archive_ms := number_or_zero (jget ''archiveMs'' archive),
                rg_turns_archived := number_or_zero (jget ''turnsArchived'' archive),
                rg_compactions_archived := number_or_zero (jget ''compactionsArchived'' archive)\<rparr>) rt), None))"

definition run_deterministic_distill ::
  "regen_world \<Rightarrow> regen_state \<Rightarrow> durable_session_runtime \<Rightarrow> string + durable_session_runtime" where
  "run_deterministic_distill w regen rt =
     (case gw_distill w of
        Inl e \<Rightarrow> Inl e
      | Inr distill \<Rightarrow>
          let bootstrap = text_or [] (jget ''bootstrap'' distill)
          in if bootstrap = [] then Inl ''distill produced no bootstrap''
             else Inr (set_regen (regen
               \<lparr>rg_stage := Stage_distilled,
                rg_package_artifact_id := Some (text_or [] (jget ''packageArtifactId'' distill)),
                rg_bootstrap := Some bootstrap,
                rg_distill_ms := number_or_zero (jget ''distillMs'' distill),
                rg_distiller_model := Some (text_or [] (jget ''distillerModel'' distill)),
                rg_distill_mode_final := Some ''deterministic''\<rparr>) rt))"

definition deterministic_stage ::
  "orch_effect list \<Rightarrow> regen_world \<Rightarrow> regen_state \<Rightarrow> durable_session_runtime \<Rightarrow> stage_result" where
  "deterministic_stage events w regen rt =
     (case run_deterministic_distill w regen rt of
        Inl e \<Rightarrow> ((events, rt), Some e)
      | Inr rt' \<Rightarrow> ((events, rt'), None))"

definition spawn_stage :: "regen_world \<Rightarrow> regen_state \<Rightarrow> durable_session_runtime \<Rightarrow> stage_result" where
  "spawn_stage w regen rt =
     (let published = publish_status (rt_state rt) ''running'' [(''regenStage'', JStr ''distilling'')]
      in if rg_distill_mode regen = ''deterministic'' then deterministic_stage [published] w regen rt
         else case gw_spawn w of
           Inl e \<Rightarrow> (([published], rt), Some e)
         | Inr spawn \<Rightarrow>
             if \<not> truthy (jget ''distillerSessionId'' spawn) then deterministic_stage [published] w regen rt
             else (([published], set_regen (regen
               \<lparr>rg_stage := Stage_distilling,
                rg_distiller_session_id := Some (js_string (jget ''distillerSessionId'' spawn)),
                rg_distiller_model_resolved := Some (text_or ''(default)'' (jget ''distillerModel'' spawn)),
                rg_distill_started_at_ms := Some (gw_now w)\<rparr>) rt), None))"

definition poll_stage :: "regen_world \<Rightarrow> regen_state \<Rightarrow> durable_session_runtime \<Rightarrow> stage_result" where
  "poll_stage w regen rt =
     (let published = publish_status (rt_state rt) ''running''
            [(''regenStage'', JStr ''distilling''),
             (''distillerSessionId'', null_or_text (rg_distiller_session_id regen))];
          started_at = coalesce (rg_distill_started_at_ms regen) (rg_requested_at_ms regen)
      in case gw_check w of
           Inl e \<Rightarrow> (([published], rt), Some e)
         | Inr check \<Rightarrow>
             if jget ''status'' check = JStr ''completed'' then
               (case gw_collect w of
                  Inl e \<Rightarrow> (([published], rt), Some e)
                | Inr collect \<Rightarrow>
                    let bootstrap = text_or [] (jget ''bootstrap'' collect)
                    in if bootstrap = [] then
                         (([published], rt), Some ''distiller collect produced no bootstrap'')
                       else (([published], set_regen (regen
                         \<lparr>rg_stage := Stage_distilled,
                          rg_package_artifact_id := Some (text_or [] (jget ''packageArtifactId'' collect)),
                          rg_bootstrap := Some bootstrap,
                          rg_distiller_model_resolved := Some (text_or
                            (coalesce (rg_distiller_model_resolved regen) ''(default)'')
                            (jget ''distillerModel'' collect)),
                          rg_distill_ms := of_int (max 0 (gw_done_at w - started_at)),
                          rg_distill_mode_final := Some (text_or ''llm'' (jget ''distillMode'' collect))\<rparr>) rt), None))
             else if jget ''status'' check = JStr ''failed'' \<or>
                     gw_now w - started_at > distiller_session_deadline_ms then
               deterministic_stage
                 [published, Distiller_cancelled (coalesce (rg_distiller_session_id regen) [])] w regen rt
             else (([published], rt), None))"

definition if_nonzero_number :: "rat \<Rightarrow> rat option" where
  "if_nonzero_number q = (if q = 0 then None else Some q)"

definition epoch_commit :: "int \<Rightarrow> regen_state \<Rightarrow> pending_epoch_commit" where
  "epoch_commit from_epoch r =
     \<lparr>ec_from_epoch = from_epoch, ec_to_epoch = from_epoch + 1, ec_attempt_id = rg_attempt_id r,
      ec_trigger = rg_trigger r, ec_requested_at_ms = rg_requested_at_ms r,
      ec_archive_artifact_id = if_truthy (rg_archive_artifact_id r),
      ec_archive_chunk_ids = rg_archive_chunk_ids r,
      ec_package_artifact_id = if_truthy (rg_package_artifact_id r),
      ec_turns_archived = if_nonzero_number (rg_turns_archived r),
      ec_compactions_archived = if_nonzero_number (rg_compactions_archived r),
      ec_archive_ms = if_nonzero_number (rg_archive_ms r),
      ec_distill_ms = if_nonzero_number (rg_distill_ms r),
      ec_distill_mode = if_truthy (rg_distill_mode_final r),
      ec_distiller_model = if_truthy (or_else (rg_distiller_model_resolved r) (rg_distiller_model r)),
      ec_distiller_session_id =
        (if truthy_str (rg_distiller_session_id r) \<and> rg_distill_mode_final r = Some ''llm''
         then rg_distiller_session_id r else None)\<rparr>"

definition flip_input :: "int \<Rightarrow> regen_state \<Rightarrow> durable_session_runtime \<Rightarrow> orchestration_input" where
  "flip_input now regen rt =
     (build_continue_input_with_prompt rt (Some (coalesce (rg_bootstrap regen) []))
        (no_overrides\<lparr>ov_bootstrap_prompt := Some True\<rparr>))
       \<lparr>oi_transcript_epoch := Some (ds_transcript_epoch (rt_state rt) + 1),
        oi_epoch_start_pending := True,
        oi_epoch_start_iteration := Some (ds_iteration (rt_state rt)),
        oi_last_regen_at_ms := Some now,
        oi_regen := None,
        oi_context_usage := None,
        oi_shared_preamble_sent := False,
        oi_pending_epoch_commit := Some (epoch_commit (ds_transcript_epoch (rt_state rt)) regen)\<rparr>"

text \<open>The flip: the timer is stashed and the model set before the rebind that can throw.\<close>

definition flip_stage ::
  "regen_world \<Rightarrow> regen_state \<Rightarrow> durable_session_runtime \<Rightarrow> stage_result \<times> orchestration_input option" where
  "flip_stage w regen rt =
     (let published = publish_status (rt_state rt) ''running'' [(''regenStage'', JStr ''flipping'')];
          s1 = capture_model_switch_interrupted_timer (gw_now w) (rt_state rt);
          s2 = (if truthy_str (rg_model regen)
                then s1\<lparr>ds_config := obj_set ''model'' (JStr (the (rg_model regen))) (ds_config s1)\<rparr> else s1);
          failed = (if truthy_str (rg_model regen) then gw_update_model w else None);
          updated = (if truthy_str (rg_model regen)
                     then [Session_model_updated (the (rg_model regen)) None None []] else [])
      in case failed of
           Some e \<Rightarrow> ((([published], rt\<lparr>rt_state := s2\<rparr>), Some e), None)
         | None \<Rightarrow>
             let rt' = rt\<lparr>rt_state := s2\<lparr>ds_runtime_model_notice := None\<rparr>\<rparr>
             in ((([published] @ updated, rt'), None),
                 Some (versioned_continue_as_new (gw_now w) rt' (flip_input (gw_now w) regen rt'))))"

fun stage_text :: "regen_stage \<Rightarrow> string" where
  "stage_text Stage_requested = ''requested''"
| "stage_text Stage_archived = ''archived''"
| "stage_text Stage_distilling = ''distilling''"
| "stage_text Stage_distilled = ''distilled''"
| "stage_text Stage_flipping = ''flipping''"

text \<open>
  The \<open>catch\<close>: the pipeline is cleared and the failure recorded. \<open>runRegenCancelDistiller\<close>, here and in
  a poll, catches its own errors (\<open>session-proxy.ts\<close>), so it is an effect that cannot throw.
\<close>

definition fail_safe ::
  "regen_state \<Rightarrow> string \<Rightarrow> durable_session_runtime \<Rightarrow> orch_effect list \<times> durable_session_runtime" where
  "fail_safe regen e rt =
     (let s = (rt_state rt)\<lparr>ds_regen := None\<rparr>
      in (cancel_in_flight_distiller (rt_state rt) @
          [Event_recorded (oi_session_id (rt_input rt)) ''session.regenerate_failed''
             [(''attemptId'', JStr (rg_attempt_id regen)), (''stage'', JStr (stage_text (rg_stage regen))),
              (''error'', JStr (take 500 e))],
           publish_status s ''idle'' []], rt\<lparr>rt_state := s\<rparr>))"

definition caught :: "regen_state \<Rightarrow> stage_result \<Rightarrow> orch_effect list \<times> durable_session_runtime" where
  "caught regen r = (case snd r of None \<Rightarrow> fst r | Some e \<Rightarrow> followed_by (fst r) (fail_safe regen e))"

text \<open>The last component is the input of the continue-as-new, when the pipeline has flipped.\<close>

definition advance_regen_pipeline ::
  "regen_world \<Rightarrow> durable_session_runtime \<Rightarrow>
   (orch_effect list \<times> durable_session_runtime) \<times> orchestration_input option" where
  "advance_regen_pipeline w rt =
     (case ds_regen (rt_state rt) of
        None \<Rightarrow> (([], rt), None)
      | Some regen \<Rightarrow>
          (case rg_stage regen of
             Stage_requested \<Rightarrow> (caught regen (archive_stage w regen rt), None)
           | Stage_archived \<Rightarrow> (caught regen (spawn_stage w regen rt), None)
           | Stage_distilling \<Rightarrow> (caught regen (poll_stage w regen rt), None)
           | _ \<Rightarrow> (caught regen (fst (flip_stage w regen rt)), snd (flip_stage w regen rt))))"

section \<open>The gates\<close>

lemma write_command_response_regen [simp]:
  "ds_regen (snd (write_command_response sid r s)) = ds_regen s"
  "ds_transcript_epoch (snd (write_command_response sid r s)) = ds_transcript_epoch s"
  by (simp_all add: write_command_response_def Let_def)

lemma answer_and_publish_keeps [simp]:
  "ds_regen (snd (answer_and_publish sid r st extra s)) = ds_regen s"
  "ds_transcript_epoch (snd (answer_and_publish sid r st extra s)) = ds_transcript_epoch s"
  "ds_orchestration_result (snd (answer_and_publish sid r st extra s)) = ds_orchestration_result s"
  by (simp_all add: answer_and_publish_def)

lemma update_state_state [simp]: "rt_state (snd (update_state f rt)) = snd (f (rt_state rt))"
  by (simp add: update_state_def)

lemma regenerate_state:
  "ds_regen (rt_state (snd (fst (handle_command w cmd rt)))) =
     (case regen_refusal (cw_now w) cmd (rt_options rt) (rt_state rt) of
        None \<Rightarrow> Some (requested_regen (cw_now w) cmd) | Some _ \<Rightarrow> ds_regen (rt_state rt))"
  if "cm_cmd cmd = ''regenerate''"
  using that by (simp add: handle_command_def regenerate_def Let_def split: option.split)

text \<open>
  C36. A \<open>regenerate\<close> command that starts a pipeline has passed every gate: no pipeline was pending, the
  session is not a system session, no shutdown is under way and the last flip has proven itself,
  which not even a forced operator command can bypass; only a forced operator command starts one
  within five turns of the epoch's start; a self- or parent-triggered one keeps the six-hour
  cooldown; a self-triggered one carries no sender but the owner, and a parent-triggered one the
  session's own parent.
\<close>

theorem regenerate_gated:
  assumes "cm_cmd cmd = ''regenerate''"
    "ds_regen (rt_state (snd (fst (handle_command w cmd rt)))) \<noteq> ds_regen (rt_state rt)"
  shows "let s = rt_state rt; source = text_or ''operator'' (arg ''source'' cmd)
    in ds_regen s = None \<and> \<not> do_is_system (rt_options rt) \<and> ds_pending_shutdown s = None \<and>
       \<not> ds_epoch_start_pending s \<and>
       (5 \<le> ds_iteration s - ds_epoch_start_iteration s \<or>
        source = ''operator'' \<and> arg ''force'' cmd = JBool True) \<and>
       (source = ''tool'' \<or> source = ''parent'' \<longrightarrow> ds_last_regen_at_ms s \<le> 0 \<or>
          ds_last_regen_at_ms s + regen_cooldown_ms \<le> cw_now w) \<and>
       (source = ''tool'' \<longrightarrow> (\<forall>m. normalize_message_sender (cm_sender cmd) = Some m \<longrightarrow>
          ms_relation m = Some Owner)) \<and>
       (source = ''parent'' \<longrightarrow> truthy_str (cm_requested_by cmd) \<and>
          cm_requested_by cmd = do_parent_session_id (rt_options rt))"
proof -
  have "regen_refusal (cw_now w) cmd (rt_options rt) (rt_state rt) = None"
    using assms regenerate_state [OF assms(1), of w rt] by (auto split: option.splits)
  then show ?thesis
    by (auto simp: regen_refusal_def Let_def split: if_splits option.splits)
qed

definition demo_regen_runtime :: durable_session_runtime where
  "demo_regen_runtime = build_runtime 0 0 0 ''1.0.71'' ((new_session_input ''s1'' [])\<lparr>oi_iteration := Some 9\<rparr>)"

definition demo_command_world :: command_world where
  "demo_command_world = \<lparr>cw_now = 1000, cw_children = None, cw_descendants = [], cw_models = Inl []\<rparr>"

lemma demo_regen_fields:
  "ds_regen (rt_state demo_regen_runtime) = None" "ds_pending_shutdown (rt_state demo_regen_runtime) = None"
  "ds_epoch_start_pending (rt_state demo_regen_runtime) = False" "ds_iteration (rt_state demo_regen_runtime) = 9"
  "ds_epoch_start_iteration (rt_state demo_regen_runtime) = 0" "ds_last_regen_at_ms (rt_state demo_regen_runtime) = 0"
  "do_is_system (rt_options demo_regen_runtime) = False"
  by (simp_all add: demo_regen_runtime_def build_runtime_def create_initial_state_def new_session_input_def
      restore_active_timer_def derive_options_def Let_def)

theorem regenerate_gated_witness:
  "5 \<le> ds_iteration (rt_state demo_regen_runtime) - ds_epoch_start_iteration (rt_state demo_regen_runtime) \<or>
   arg ''force'' (demo_command ''regenerate'') = JBool True"
proof -
  have c: "cm_cmd (demo_command ''regenerate'') = ''regenerate''" by (simp add: demo_command_def)
  have "regen_refusal (cw_now demo_command_world) (demo_command ''regenerate'') (rt_options demo_regen_runtime)
      (rt_state demo_regen_runtime) = None"
    by (simp add: regen_refusal_def demo_regen_fields demo_command_def arg_def text_or_def Let_def)
  then have "ds_regen (rt_state (snd (fst (handle_command demo_command_world (demo_command ''regenerate'')
      demo_regen_runtime)))) \<noteq> ds_regen (rt_state demo_regen_runtime)"
    using regenerate_state [OF c] by (simp add: demo_regen_fields)
  from regenerate_gated [OF c this] show ?thesis by (auto simp: Let_def)
qed

section \<open>A pipeline ends\<close>

definition only_regen :: "durable_session_runtime \<Rightarrow> durable_session_runtime \<Rightarrow> bool" where
  "only_regen rt rt' \<longleftrightarrow> (\<exists>r. rt' = rt\<lparr>rt_state := (rt_state rt)\<lparr>ds_regen := r\<rparr>\<rparr>)"

lemma only_regen_refl: "only_regen rt rt"
  unfolding only_regen_def by (rule exI [of _ "ds_regen (rt_state rt)"]) simp

lemma only_regen_set [simp]: "only_regen rt (set_regen r rt)"
  unfolding only_regen_def set_regen_def by blast

lemma only_regen_fail_safe: "only_regen rt rt' \<Longrightarrow> only_regen rt (snd (fail_safe regen e rt'))"
  by (auto simp: only_regen_def fail_safe_def Let_def)

definition regen_of :: "stage_result \<Rightarrow> regen_state option" where
  "regen_of r = ds_regen (rt_state (snd (fst r)))"

text \<open>What each stage before the flip leaves: the session untouched, the pipeline one stage on.\<close>

lemma deterministic_stage_result:
  "only_regen rt (snd (fst (deterministic_stage ev w regen rt))) \<and>
   (snd (deterministic_stage ev w regen rt) = None \<longrightarrow>
      (\<exists>r. regen_of (deterministic_stage ev w regen rt) = Some r \<and> rg_stage r = Stage_distilled))"
  by (auto simp: deterministic_stage_def run_deterministic_distill_def regen_of_def set_regen_def Let_def
      only_regen_refl only_regen_set [unfolded set_regen_def] split: sum.split)

lemma archive_stage_result:
  "only_regen rt (snd (fst (archive_stage w regen rt))) \<and>
   (snd (archive_stage w regen rt) = None \<longrightarrow>
      (\<exists>r. regen_of (archive_stage w regen rt) = Some r \<and> rg_stage r = Stage_archived))"
  by (auto simp: archive_stage_def regen_of_def set_regen_def Let_def only_regen_refl
      only_regen_set [unfolded set_regen_def] split: sum.split)

lemma spawn_stage_result:
  "only_regen rt (snd (fst (spawn_stage w regen rt))) \<and>
   (snd (spawn_stage w regen rt) = None \<longrightarrow>
      (\<exists>r. regen_of (spawn_stage w regen rt) = Some r \<and>
         (rg_stage r = Stage_distilled \<or>
          rg_stage r = Stage_distilling \<and> rg_distill_started_at_ms r = Some (gw_now w))))"
  using deterministic_stage_result [of rt _ w regen]
  by (auto simp: spawn_stage_def Let_def only_regen_refl split: sum.split)
    (auto simp: regen_of_def set_regen_def)

lemma poll_stage_result:
  assumes "ds_regen (rt_state rt) = Some regen" "rg_stage regen = Stage_distilling"
    "rg_distill_started_at_ms regen = Some st"
  shows "only_regen rt (snd (fst (poll_stage w regen rt))) \<and>
   (snd (poll_stage w regen rt) = None \<longrightarrow>
      (\<exists>r. regen_of (poll_stage w regen rt) = Some r \<and>
         (rg_stage r = Stage_distilled \<or> r = regen \<and> gw_now w \<le> st + distiller_session_deadline_ms)))"
  using assms deterministic_stage_result [of rt _ w regen]
  by (auto simp: poll_stage_def Let_def only_regen_refl regen_of_def not_less split: sum.split option.split)
    (auto simp: set_regen_def)

text \<open>
  The advances of a pending pipeline: each happens some delay after the last, and a poll that finds the
  distiller running sleeps for the poll interval. What the run loop does in between, the drain above
  all and a continue-as-new, is a function of the runtime.
\<close>

definition slept :: "durable_session_runtime \<Rightarrow> durable_session_runtime \<Rightarrow> int" where
  "slept rt rt' =
     (if map_option rg_stage (ds_regen (rt_state rt)) = Some Stage_distilling \<and>
         map_option rg_stage (ds_regen (rt_state rt')) = Some Stage_distilling
      then distiller_poll_ms else 0)"

fun run_regen ::
  "(nat \<times> (durable_session_runtime \<Rightarrow> durable_session_runtime) \<times> regen_world) list \<Rightarrow> int \<Rightarrow>
   durable_session_runtime \<Rightarrow> durable_session_runtime \<times> orchestration_input option" where
  "run_regen [] clock rt = (rt, None)"
| "run_regen ((delay, between, w) # ws) clock rt0 =
     (let rt = between rt0
      in if ds_regen (rt_state rt0) = None then (rt0, None)
         else if ds_regen (rt_state rt) = None then (rt, None)
         else let now = clock + int delay; r = advance_regen_pipeline (w\<lparr>gw_now := now\<rparr>) rt; rt' = snd (fst r)
              in case snd r of
                   Some i \<Rightarrow> (rt', Some i)
                 | None \<Rightarrow> run_regen ws (now + slept rt rt') rt')"

text \<open>What leaves a pending pipeline as it is or clears it, and stays in its epoch.\<close>

definition keeps_pipeline :: "durable_session_runtime \<Rightarrow> durable_session_runtime \<Rightarrow> bool" where
  "keeps_pipeline rt rt' \<longleftrightarrow>
     (ds_regen (rt_state rt') = ds_regen (rt_state rt) \<or> ds_regen (rt_state rt') = None) \<and>
     ds_transcript_epoch (rt_state rt') = ds_transcript_epoch (rt_state rt)"

definition patient :: "(nat \<times> (durable_session_runtime \<Rightarrow> durable_session_runtime) \<times> regen_world) list \<Rightarrow> bool" where
  "patient ws \<longleftrightarrow> (\<forall>(d, f, w) \<in> set ws. \<forall>rt. ds_regen (rt_state rt) \<noteq> None \<longrightarrow> keeps_pipeline rt (f rt))"

text \<open>The number of advances a pipeline still needs at most.\<close>

definition polls_left :: "int \<Rightarrow> int \<Rightarrow> nat" where
  "polls_left st clock = nat ((st + distiller_session_deadline_ms - clock) div distiller_poll_ms + 1)"

fun passes_left :: "int \<Rightarrow> regen_state option \<Rightarrow> nat" where
  "passes_left clock None = 0"
| "passes_left clock (Some r) =
     (case rg_stage r of
        Stage_requested \<Rightarrow> 35
      | Stage_archived \<Rightarrow> 34
      | Stage_distilling \<Rightarrow> 2 + polls_left (coalesce (rg_distill_started_at_ms r) 0) clock
      | _ \<Rightarrow> 1)"

definition pipeline_ok :: "regen_state option \<Rightarrow> bool" where
  "pipeline_ok r \<longleftrightarrow> (\<forall>x. r = Some x \<and> rg_stage x = Stage_distilling \<longrightarrow> rg_distill_started_at_ms x \<noteq> None)"

lemma polls_left_start: "st \<le> clock \<Longrightarrow> polls_left st clock \<le> 31"
  by (simp add: polls_left_def distiller_session_deadline_ms_def distiller_poll_ms_def)

lemma polls_left_running:
  assumes "clock \<le> now" "now \<le> st + distiller_session_deadline_ms"
  shows "polls_left st (now + distiller_poll_ms) < polls_left st clock"
proof -
  let ?a = "st + distiller_session_deadline_ms - now"
  have "(?a - distiller_poll_ms) div distiller_poll_ms = ?a div distiller_poll_ms - 1"
    using div_add_self2 [of distiller_poll_ms "?a - distiller_poll_ms"] by (simp add: distiller_poll_ms_def)
  moreover have "?a div distiller_poll_ms \<le> (st + distiller_session_deadline_ms - clock) div distiller_poll_ms"
    using assms(1) by (intro zdiv_mono1) (simp_all add: distiller_poll_ms_def)
  moreover have "0 \<le> ?a div distiller_poll_ms"
    using assms(2) by (intro pos_imp_zdiv_nonneg_iff [THEN iffD2]) (simp_all add: distiller_poll_ms_def)
  ultimately show ?thesis by (simp add: polls_left_def algebra_simps)
qed

lemma fail_safe_regen [simp]: "ds_regen (rt_state (snd (fail_safe regen e rt))) = None"
  by (simp add: fail_safe_def Let_def)

lemma caught_regen:
  "ds_regen (rt_state (snd (caught regen r))) = (if snd r = None then regen_of r else None)"
  by (auto simp: caught_def regen_of_def split: option.split)

lemma caught_only_regen:
  "only_regen rt (snd (fst r)) \<Longrightarrow> only_regen rt (snd (caught regen r))"
  by (auto simp: caught_def only_regen_fail_safe split: option.split)

text \<open>A pass before the flip changes only the pipeline, and brings its end nearer.\<close>

lemma stage_pass:
  assumes "ds_regen (rt_state rt) = Some regen" "rg_stage regen \<notin> {Stage_distilled, Stage_flipping}"
    "pipeline_ok (Some regen)" "clock \<le> gw_now w"
  shows "snd (advance_regen_pipeline w rt) = None \<and>
    (let rt' = snd (fst (advance_regen_pipeline w rt)); r' = ds_regen (rt_state rt')
     in only_regen rt rt' \<and> pipeline_ok r' \<and>
        passes_left (gw_now w + slept rt rt') r' < passes_left clock (Some regen))"
proof (cases "rg_stage regen")
  case Stage_requested
  then show ?thesis
    using assms archive_stage_result [of rt w regen]
    by (auto simp: advance_regen_pipeline_def Let_def caught_only_regen caught_regen pipeline_ok_def
      split: if_splits)
next
  case Stage_archived
  then have adv: "advance_regen_pipeline w rt = (caught regen (spawn_stage w regen rt), None)"
    using assms(1) by (simp add: advance_regen_pipeline_def)
  have "slept rt rt' = 0" for rt' using assms(1) Stage_archived by (simp add: slept_def)
  then show ?thesis
    using Stage_archived spawn_stage_result [of rt w regen] polls_left_start [of "gw_now w" "gw_now w"]
    by (auto simp: adv Let_def caught_only_regen caught_regen pipeline_ok_def split: if_splits)
next
  case Stage_distilling
  then obtain st where st: "rg_distill_started_at_ms regen = Some st"
    using assms(3) by (auto simp: pipeline_ok_def)
  have adv: "advance_regen_pipeline w rt = (caught regen (poll_stage w regen rt), None)"
    using assms(1) Stage_distilling by (simp add: advance_regen_pipeline_def)
  let ?rt' = "snd (caught regen (poll_stage w regen rt))"
  have poll: "slept rt ?rt' = distiller_poll_ms" if "ds_regen (rt_state ?rt') = Some regen"
    using that assms(1) Stage_distilling by (simp add: slept_def)
  show ?thesis
    using poll_stage_result [OF assms(1) Stage_distilling st, of w] poll Stage_distilling st
      polls_left_running [OF assms(4), of st]
    by (auto simp: adv Let_def caught_only_regen caught_regen pipeline_ok_def split: if_splits)
qed (use assms in auto)

lemma flip_pass:
  assumes "ds_regen (rt_state rt) = Some regen" "rg_stage regen \<in> {Stage_distilled, Stage_flipping}"
  shows "advance_regen_pipeline w rt = (caught regen (fst (flip_stage w regen rt)), snd (flip_stage w regen rt))"
  using assms by (cases "rg_stage regen") (auto simp: advance_regen_pipeline_def)

lemma capture_keeps_epoch [simp]:
  "ds_transcript_epoch (capture_model_switch_interrupted_timer now s) = ds_transcript_epoch s"
  by (auto simp: capture_model_switch_interrupted_timer_def Let_def split: option.split timer_type.split)

lemma flip_stage_result:
  "(case snd (flip_stage w regen rt) of
      Some i \<Rightarrow> oi_transcript_epoch i = Some (ds_transcript_epoch (rt_state rt) + 1) \<and>
        oi_regen i = None \<and> oi_epoch_start_pending i
    | None \<Rightarrow> snd (fst (flip_stage w regen rt)) \<noteq> None) \<and>
   ds_transcript_epoch (rt_state (snd (fst (fst (flip_stage w regen rt))))) = ds_transcript_epoch (rt_state rt)"
  by (auto simp: flip_stage_def Let_def flip_input_def versioned_continue_as_new_def
      split: option.split)

definition pipeline_over :: "int \<Rightarrow> durable_session_runtime \<times> orchestration_input option \<Rightarrow> bool" where
  "pipeline_over epoch r \<longleftrightarrow>
     (case snd r of
        Some i \<Rightarrow> oi_transcript_epoch i = Some (epoch + 1) \<and> oi_regen i = None \<and> oi_epoch_start_pending i
      | None \<Rightarrow> ds_regen (rt_state (fst r)) = None \<and> ds_transcript_epoch (rt_state (fst r)) = epoch)"

lemma only_regen_epoch:
  "only_regen rt rt' \<Longrightarrow> ds_transcript_epoch (rt_state rt') = ds_transcript_epoch (rt_state rt)"
  by (auto simp: only_regen_def)

lemma run_regen_over [simp]: "ds_regen (rt_state rt) = None \<Longrightarrow> run_regen ws clock rt = (rt, None)"
  by (cases ws) auto

lemma run_regen_ends:
  assumes "passes_left clock (ds_regen (rt_state rt)) \<le> length ws" "pipeline_ok (ds_regen (rt_state rt))" "patient ws"
  shows "pipeline_over (ds_transcript_epoch (rt_state rt)) (run_regen ws clock rt)"
  using assms
proof (induction ws arbitrary: clock rt)
  case Nil
  then have "ds_regen (rt_state rt) = None"
    by (cases "ds_regen (rt_state rt)") (auto split: regen_stage.splits)
  then show ?case by (simp add: pipeline_over_def)
next
  case (Cons dw ws)
  obtain delay between w where dw: "dw = (delay, between, w)" by (cases dw)
  let ?rt = "between rt"
  show ?case
  proof (cases "ds_regen (rt_state rt) = None \<or> ds_regen (rt_state ?rt) = None")
    case True
    have "ds_regen (rt_state rt) \<noteq> None \<Longrightarrow> keeps_pipeline rt ?rt"
      using Cons.prems(3) by (auto simp: patient_def dw)
    with True show ?thesis
      by (cases "ds_regen (rt_state rt) = None") (simp_all add: dw pipeline_over_def keeps_pipeline_def Let_def)
  next
    case False
    then obtain regen where Some: "ds_regen (rt_state ?rt) = Some regen" by blast
    have keep: "ds_regen (rt_state rt) = Some regen"
      "ds_transcript_epoch (rt_state ?rt) = ds_transcript_epoch (rt_state rt)"
      using Cons.prems(3) False Some by (auto simp: patient_def dw keeps_pipeline_def)
    let ?w = "w\<lparr>gw_now := clock + int delay\<rparr>"
    let ?r = "advance_regen_pipeline ?w ?rt"
    show ?thesis
    proof (cases "rg_stage regen \<in> {Stage_distilled, Stage_flipping}")
      case True
      let ?f = "flip_stage ?w regen ?rt"
      have adv: "?r = (caught regen (fst ?f), snd ?f)" by (rule flip_pass [OF Some True])
      show ?thesis
      proof (cases "snd ?f")
        case None
        then have "ds_regen (rt_state (snd (fst ?r))) = None"
          using flip_stage_result [of ?w regen ?rt] by (auto simp: adv caught_regen)
        moreover have "ds_transcript_epoch (rt_state (snd (fst ?r))) = ds_transcript_epoch (rt_state rt)"
          using flip_stage_result [of ?w regen ?rt] None keep(2)
          by (auto simp: adv caught_def fail_safe_def Let_def split: option.splits)
        ultimately show ?thesis using Some None keep by (simp add: dw adv pipeline_over_def Let_def)
      next
        case (Some i)
        then show ?thesis
          using flip_stage_result [of ?w regen ?rt] keep \<open>ds_regen (rt_state ?rt) = Some regen\<close>
          by (simp add: dw adv pipeline_over_def Let_def)
      qed
    next
      case False
      have pass: "snd ?r = None" "only_regen ?rt (snd (fst ?r))" "pipeline_ok (ds_regen (rt_state (snd (fst ?r))))"
        "passes_left (clock + int delay + slept ?rt (snd (fst ?r))) (ds_regen (rt_state (snd (fst ?r)))) \<le> length ws"
        using stage_pass [of ?rt regen clock ?w] Some False keep Cons.prems by (auto simp: Let_def)
      have "run_regen (dw # ws) clock rt =
          run_regen ws (clock + int delay + slept ?rt (snd (fst ?r))) (snd (fst ?r))"
        using Some keep pass(1) by (simp add: dw Let_def)
      moreover have "patient ws" using Cons.prems(3) by (simp add: patient_def)
      ultimately show ?thesis
        using Cons.IH [OF pass(4,3)] only_regen_epoch [OF pass(2)] keep(2) by simp
    qed
  qed
qed

text \<open>The commands a drain can bring are such steps: another \<open>regenerate\<close> is refused, \<open>cancel_regen\<close> clears.\<close>

lemma refresh_keeps_pipeline [simp]:
  "ds_regen (refresh_tracked_sub_agents b cs s) = ds_regen s"
  "ds_transcript_epoch (refresh_tracked_sub_agents b cs s) = ds_transcript_epoch s"
  by (auto simp: refresh_tracked_sub_agents_def Let_def split: option.split)

lemma answer_if_keeps_pipeline [simp]:
  "ds_regen (snd (answer_if sid r s)) = ds_regen s"
  "ds_transcript_epoch (snd (answer_if sid r s)) = ds_transcript_epoch s"
  by (auto simp: answer_if_def split: option.split)

lemma ended_keeps_pipeline [simp]:
  "ds_regen (snd (complete_session sid opts r c q s)) = ds_regen s"
  "ds_transcript_epoch (snd (complete_session sid opts r c q s)) = ds_transcript_epoch s"
  "ds_regen (snd (cancel_session sid opts ds r c x q s)) = ds_regen s"
  "ds_transcript_epoch (snd (cancel_session sid opts ds r c x q s)) = ds_transcript_epoch s"
  by (auto simp: complete_session_def cancel_session_def end_waits_def clear_pending_child_digest_def Let_def split: option.split)

lemma shutdown_keeps_regen [simp]:
  "ds_regen (snd (begin_graceful_shutdown sid opts now cs ds m cmd s)) = ds_regen s"
  "ds_transcript_epoch (snd (begin_graceful_shutdown sid opts now cs ds m cmd s)) = ds_transcript_epoch s"
  by (auto simp: begin_graceful_shutdown_def clear_pending_child_digest_def Let_def split: option.split)

lemma capture_keeps_regen [simp]:
  "ds_regen (capture_model_switch_interrupted_timer now s) = ds_regen s"
  by (auto simp: capture_model_switch_interrupted_timer_def Let_def split: option.split timer_type.split)

lemma command_keeps_pipeline:
  assumes "ds_regen (rt_state rt) \<noteq> None"
  shows "keeps_pipeline rt (snd (fst (handle_command w cmd rt)))"
proof -
  have "regen_refusal (cw_now w) cmd (rt_options rt) (rt_state rt) = Some ''already_pending''"
    using assms by (simp add: regen_refusal_def Let_def)
  then have "keeps_pipeline rt (snd (regenerate (cw_now w) cmd rt))"
    by (simp add: keeps_pipeline_def regenerate_def Let_def)
  moreover have "keeps_pipeline rt (snd (fst (set_model (cw_now w) cmd rt)))"
    by (simp add: keeps_pipeline_def set_model_def Let_def)
  moreover have "keeps_pipeline rt (snd (cancel_regen cmd rt))"
    by (auto simp: keeps_pipeline_def cancel_regen_def Let_def split: option.split)
  moreover have "keeps_pipeline rt (snd (list_models (cw_models w) cmd rt))" "keeps_pipeline rt (snd (get_info cmd rt))"
    by (simp_all add: keeps_pipeline_def list_models_def get_info_def Let_def)
  ultimately show ?thesis
    by (auto simp: handle_command_def Let_def split: option.split) (simp_all add: keeps_pipeline_def)
qed

text \<open>
  C5. A requested regeneration ends within thirty-five advances of its pipeline, whatever the archive, the
  distiller and the fallback return, whichever of them throw, and however late the advances come: it
  has flipped into the next epoch, or the pipeline is cleared and the session is in its old epoch.
  What the run loop does between two advances may be anything that leaves the pending pipeline and
  the epoch alone or clears the pipeline, as every command does; a pass that continues as new without
  advancing is such a step, so the bound counts the calls of \<open>advanceRegenPipeline\<close>, not the passes.
\<close>

theorem regen_pipeline_ends:
  assumes "ds_regen (rt_state rt) = Some regen" "rg_stage regen = Stage_requested" "35 \<le> length ws" "patient ws"
  shows "case run_regen ws clock rt of
      (rt', Some i) \<Rightarrow> oi_transcript_epoch i = Some (ds_transcript_epoch (rt_state rt) + 1) \<and>
        oi_regen i = None \<and> oi_epoch_start_pending i
    | (rt', None) \<Rightarrow> ds_regen (rt_state rt') = None \<and>
        ds_transcript_epoch (rt_state rt') = ds_transcript_epoch (rt_state rt)"
  using run_regen_ends [of clock rt ws] assms
  by (auto simp: pipeline_ok_def pipeline_over_def split: prod.splits option.splits)

definition failing_world :: regen_world where
  "failing_world = \<lparr>gw_now = 0, gw_done_at = 0, gw_archive = Inr (JObj []),
     gw_distill = Inr (JObj [(''bootstrap'', JStr ''ground yourself'')]),
     gw_spawn = Inr (JObj [(''distillerSessionId'', JStr ''d1'')]), gw_check = Inr (JObj []),
     gw_collect = Inl ''lost'', gw_update_model = None\<rparr>"

definition requested_runtime :: durable_session_runtime where
  "requested_runtime = demo_regen_runtime\<lparr>rt_state := (rt_state demo_regen_runtime)
     \<lparr>ds_regen := Some (requested_regen 0 (demo_command ''regenerate''))\<rparr>\<rparr>"

text \<open>Between the advances of the instance, a second \<open>regenerate\<close> command comes each time.\<close>

definition pestered :: "durable_session_runtime \<Rightarrow> durable_session_runtime" where
  "pestered rt = snd (fst (handle_command demo_command_world (demo_command ''regenerate'') rt))"

theorem regen_pipeline_ends_witness:
  "case run_regen (replicate 35 (0, pestered, failing_world)) 0 requested_runtime of
     (rt', Some i) \<Rightarrow> oi_regen i = None
   | (rt', None) \<Rightarrow> ds_regen (rt_state rt') = None"
proof -
  let ?ws = "replicate 35 (0, pestered, failing_world)"
  have pat: "patient ?ws" by (auto simp: patient_def pestered_def command_keeps_pipeline)
  have "ds_regen (rt_state requested_runtime) = Some (requested_regen 0 (demo_command ''regenerate''))"
    "rg_stage (requested_regen 0 (demo_command ''regenerate'')) = Stage_requested" "35 \<le> length ?ws"
    by (simp_all only: length_replicate) (simp_all add: requested_runtime_def requested_regen_def Let_def)
  note ends = regen_pipeline_ends [OF this pat, of 0]
  obtain rt' i where r: "run_regen ?ws 0 requested_runtime = (rt', i)" by (rule prod.exhaust)
  show ?thesis using ends unfolding r by (cases i) simp_all
qed

section \<open>A failed attempt\<close>

text \<open>
  Up to the flip an attempt that fails leaves the session as it was but for the cleared pipeline: its
  epoch, model, timers, prompts, children and schedules are untouched, and a later attempt is not
  refused as pending.
\<close>

theorem failed_stage_is_safe:
  assumes "ds_regen (rt_state rt) = Some regen" "rg_stage regen \<notin> {Stage_distilled, Stage_flipping}"
    "ds_regen (rt_state (snd (fst (advance_regen_pipeline w rt)))) = None"
  shows "snd (fst (advance_regen_pipeline w rt)) = rt\<lparr>rt_state := (rt_state rt)\<lparr>ds_regen := None\<rparr>\<rparr>"
proof -
  have "only_regen rt (snd (fst (advance_regen_pipeline w rt)))"
  proof (cases "rg_stage regen")
    case Stage_distilling
    have "only_regen rt (snd (fst (poll_stage w regen rt)))"
      using deterministic_stage_result [of rt _ w regen]
      by (auto simp: poll_stage_def Let_def only_regen_refl split: sum.split option.split)
    then show ?thesis using assms(1) Stage_distilling by (simp add: advance_regen_pipeline_def caught_only_regen)
  qed (use assms archive_stage_result [of rt w regen] spawn_stage_result [of rt w regen] in
      \<open>auto simp: advance_regen_pipeline_def caught_only_regen\<close>)
  then show ?thesis using assms(3) by (auto simp: only_regen_def)
qed

theorem failed_stage_is_safe_witness:
  "snd (fst (advance_regen_pipeline (failing_world\<lparr>gw_archive := Inl ''disk full''\<rparr>) requested_runtime)) =
   requested_runtime\<lparr>rt_state := (rt_state requested_runtime)\<lparr>ds_regen := None\<rparr>\<rparr>"
  by (rule failed_stage_is_safe [of _ "requested_regen 0 (demo_command ''regenerate'')"])
    (simp_all add: requested_runtime_def requested_regen_def failing_world_def advance_regen_pipeline_def
      caught_def archive_stage_def Let_def)

text \<open>
  The flip is not as safe as its fail-safe says: when the model rebind throws, the attempt is cleared
  and the session goes on in its old epoch, but its wait timer is gone (stashed as interrupted, to be
  resumed only after some later turn, which the timer was to start), and the session's model has
  been changed without the rebind.
\<close>

theorem failed_flip_loses_timer:
  assumes "ds_regen (rt_state rt) = Some regen" "rg_stage regen = Stage_distilled"
    "rg_model regen = Some m" "m \<noteq> []" "gw_update_model w = Some e"
    "ds_active_timer (rt_state rt) = Some t" "at_type t = Timer_wait"
  shows "let r = advance_regen_pipeline w rt; s = rt_state (snd (fst r))
    in snd r = None \<and> ds_regen s = None \<and> ds_transcript_epoch s = ds_transcript_epoch (rt_state rt) \<and>
       ds_active_timer s = None \<and> ds_interrupted_wait_timer s \<noteq> None \<and>
       jget ''model'' (JObj (ds_config s)) = JStr m"
proof -
  have "flip_stage w regen rt = ((([publish_status (rt_state rt) ''running'' [(''regenStage'', JStr ''flipping'')]],
      rt\<lparr>rt_state := (capture_model_switch_interrupted_timer (gw_now w) (rt_state rt))
        \<lparr>ds_config := obj_set ''model'' (JStr m)
          (ds_config (capture_model_switch_interrupted_timer (gw_now w) (rt_state rt)))\<rparr>\<rparr>), Some e), None)"
    using assms by (simp add: flip_stage_def Let_def)
  then show ?thesis
    using assms
    by (simp add: advance_regen_pipeline_def caught_def fail_safe_def Let_def
      capture_model_switch_interrupted_timer_def)
qed

definition distilled_runtime :: durable_session_runtime where
  "distilled_runtime = demo_regen_runtime\<lparr>rt_state := (rt_state demo_regen_runtime)
     \<lparr>ds_active_timer := Some (new_timer Timer_wait 0 60000 ''deploy''),
      ds_regen := Some ((requested_regen 0 (demo_command ''regenerate''))
        \<lparr>rg_stage := Stage_distilled, rg_model := Some ''m2'', rg_bootstrap := Some ''ground yourself''\<rparr>)\<rparr>\<rparr>"

theorem failed_flip_loses_timer_witness:
  "ds_active_timer (rt_state (snd (fst (advance_regen_pipeline
     (failing_world\<lparr>gw_update_model := Some ''down''\<rparr>) distilled_runtime)))) = None"
  using failed_flip_loses_timer [of distilled_runtime "(requested_regen 0 (demo_command ''regenerate''))
        \<lparr>rg_stage := Stage_distilled, rg_model := Some ''m2'', rg_bootstrap := Some ''ground yourself''\<rparr>"
      "''m2''" "failing_world\<lparr>gw_update_model := Some ''down''\<rparr>" "''down''"
      "new_timer Timer_wait 0 60000 ''deploy''"]
  by (simp add: distilled_runtime_def new_timer_def Let_def)

section \<open>The reborn session\<close>

text \<open>
  What the next execution starts with after a flip: the following epoch, unsettled until its first
  turn, with the distilled bootstrap as its first prompt, the boundary record to commit, no pipeline,
  no context usage, no timer, but the children, the schedules and the open question of the old one.
  No regeneration is accepted until the epoch has settled.
\<close>

theorem regen_rebirth:
  assumes "ds_regen (rt_state rt) = Some regen" "rg_stage regen = Stage_distilled"
    "gw_update_model w = None"
    "rg_bootstrap regen = Some b" "b \<noteq> []" "extract_prompt_system_context (Some b) = \<lparr>ep_prompt = Some b, ep_system_prompt = None\<rparr>"
    "ds_pending_prompt (rt_state rt) = None" "ds_pending_system_prompt (rt_state rt) = None"
  shows "\<exists>i. snd (advance_regen_pipeline w rt) = Some i \<and>
    (let s = rt_state (build_runtime init_now rv cv ver i)
     in ds_transcript_epoch s = ds_transcript_epoch (rt_state rt) + 1 \<and> ds_epoch_start_pending s \<and>
        ds_pending_prompt s = Some b \<and> ds_bootstrap_prompt s \<and>
        ds_pending_epoch_commit s = Some (epoch_commit (ds_transcript_epoch (rt_state rt)) regen) \<and>
        ds_regen s = None \<and> ds_context_usage s = None \<and> ds_active_timer s = None \<and>
        ds_epoch_start_iteration s = ds_iteration s \<and> ds_last_regen_at_ms s = gw_now w \<and>
        ds_sub_agents s = ds_sub_agents (rt_state rt) \<and>
        ds_cron_schedule s = ds_cron_schedule (rt_state rt) \<and>
        ds_pending_input_question s = ds_pending_input_question (rt_state rt) \<and>
        (\<forall>now cmd opts. regen_refusal now cmd opts s \<noteq> None))"
proof -
  let ?s1 = "capture_model_switch_interrupted_timer (gw_now w) (rt_state rt)"
  have keep: "ds_pending_prompt ?s1 = None" "ds_pending_system_prompt ?s1 = None" "ds_active_timer ?s1 = None"
    "ds_iteration ?s1 = ds_iteration (rt_state rt)" "ds_sub_agents ?s1 = ds_sub_agents (rt_state rt)"
    "ds_cron_schedule ?s1 = ds_cron_schedule (rt_state rt)"
    "ds_pending_input_question ?s1 = ds_pending_input_question (rt_state rt)"
    using assms(7,8)
    by (auto simp: capture_model_switch_interrupted_timer_def Let_def split: option.split timer_type.split)
  obtain s2 where s2: "snd (flip_stage w regen rt) = Some (versioned_continue_as_new (gw_now w)
        (rt\<lparr>rt_state := s2\<rparr>) (flip_input (gw_now w) regen (rt\<lparr>rt_state := s2\<rparr>)))"
      "\<exists>c. s2 = ?s1\<lparr>ds_config := c, ds_runtime_model_notice := None\<rparr>"
  proof (cases "truthy_str (rg_model regen)")
    case True
    then show ?thesis
      using that assms(3) by (simp add: flip_stage_def Let_def) blast
  next
    case False
    have "snd (flip_stage w regen rt) = Some (versioned_continue_as_new (gw_now w)
        (rt\<lparr>rt_state := ?s1\<lparr>ds_runtime_model_notice := None\<rparr>\<rparr>)
        (flip_input (gw_now w) regen (rt\<lparr>rt_state := ?s1\<lparr>ds_runtime_model_notice := None\<rparr>\<rparr>)))"
      using False by (simp add: flip_stage_def Let_def)
    then show ?thesis using that [of "?s1\<lparr>ds_runtime_model_notice := None\<rparr>"] by (metis
        durable_session_state.surjective durable_session_state.update_convs(1))
  qed
  let ?rt2 = "rt\<lparr>rt_state := s2\<rparr>"
  have st: "ds_pending_prompt s2 = None" "ds_pending_system_prompt s2 = None" "ds_active_timer s2 = None"
    "ds_iteration s2 = ds_iteration (rt_state rt)" "ds_sub_agents s2 = ds_sub_agents (rt_state rt)"
    "ds_cron_schedule s2 = ds_cron_schedule (rt_state rt)"
    "ds_pending_input_question s2 = ds_pending_input_question (rt_state rt)"
    "ds_transcript_epoch s2 = ds_transcript_epoch (rt_state rt)"
    using s2(2) keep by auto
  define i where "i = versioned_continue_as_new (gw_now w) ?rt2 (flip_input (gw_now w) regen ?rt2)"
  have adv: "snd (advance_regen_pipeline w rt) = Some i"
    using flip_pass [OF assms(1)] assms(2) s2(1) by (simp add: i_def)
  have i: "oi_transcript_epoch i = Some (ds_transcript_epoch (rt_state rt) + 1)" "oi_epoch_start_pending i"
    "oi_pending_epoch_commit i = Some (epoch_commit (ds_transcript_epoch (rt_state rt)) regen)"
    "oi_regen i = None" "oi_context_usage i = None" "oi_active_timer_state i = None"
    "oi_epoch_start_iteration i = Some (ds_iteration (rt_state rt))" "oi_last_regen_at_ms i = Some (gw_now w)"
    using st by (simp_all add: i_def versioned_continue_as_new_def flip_input_def
      build_continue_input_with_prompt_def build_continue_input_def no_overrides_def Let_def)
  have carried: "oi_iteration i = Some (ds_iteration (rt_state rt))"
    "oi_sub_agents i = Some (ds_sub_agents (rt_state rt))"
    "oi_cron_schedule i = ds_cron_schedule (rt_state rt)"
    "oi_pending_input_question i = ds_pending_input_question (rt_state rt)"
    using st by (simp_all add: i_def versioned_continue_as_new_def flip_input_def
      build_continue_input_with_prompt_def build_continue_input_def no_overrides_def Let_def)
  have prompt: "oi_prompt i = Some b" "oi_bootstrap_prompt i = Some True"
    using st assms(4-6)
    by (simp_all add: i_def versioned_continue_as_new_def flip_input_def build_continue_input_with_prompt_def
      build_continue_input_def Let_def merge_prompt_def no_overrides_def prompt_for_input_def
      carried_prompt_def carried_system_prompt_def bootstrap_for_input_def)
  show ?thesis
    unfolding adv
    by (simp add: build_runtime_def create_initial_state_def Let_def restore_active_timer_def
      regen_refusal_def i carried prompt)
qed

theorem regen_rebirth_witness:
  "\<exists>i. snd (advance_regen_pipeline failing_world distilled_runtime) = Some i \<and>
     ds_transcript_epoch (rt_state (build_runtime 0 0 0 ''1.0.71'' i)) = 1"
proof -
  let ?r = "(requested_regen 0 (demo_command ''regenerate''))
        \<lparr>rg_stage := Stage_distilled, rg_model := Some ''m2'', rg_bootstrap := Some ''ground yourself''\<rparr>"
  have x: "extract_prompt_system_context (Some ''ground yourself'') =
      \<lparr>ep_prompt = Some ''ground yourself'', ep_system_prompt = None\<rparr>" by code_simp
  have "ds_transcript_epoch (rt_state distilled_runtime) = 0" "ds_pending_prompt (rt_state distilled_runtime) = None"
    "ds_pending_system_prompt (rt_state distilled_runtime) = None"
    "ds_regen (rt_state distilled_runtime) = Some ?r"
    by (simp_all add: distilled_runtime_def demo_regen_runtime_def build_runtime_def create_initial_state_def
      new_session_input_def restore_active_timer_def Let_def)
  then show ?thesis
    using regen_rebirth [OF _ _ _ _ _ x, of distilled_runtime ?r failing_world 0 0 0 "''1.0.71''"]
    by (simp add: failing_world_def Let_def) blast
qed

end
