(* ===== verification/OrchDrain.thy ===== *)
theory OrchDrain
  imports OrchQueue OrchRegen PromptContext
begin

text \<open>
  The event loop of a session (\<open>packages/sdk/src/orchestration/queue.ts\<close> and \<open>runtime.ts\<close>):
  \<open>drain\<close> moves messages and fired timers into the FIFO, the sweep before a dispatch looks for
  cancellations once more, \<open>decide\<close> picks the next unit of work and merges queued prompts into one
  turn, and \<open>runLoop\<close> repeats both until the execution ends or continues as new.

  The world of one drain is a sequence of inputs, one for each iteration: the clock, whether the timer
  wins the race, the message that is dequeued and what the activities answer while it is handled. A
  continue-as-new ends the execution, so its input is a result. The turn itself (\<open>processPrompt\<close>) and
  the timer handler (\<open>processTimer\<close>) are results of \<open>decide\<close>, served in \<open>OrchTurn\<close>. The next execution
  starts with \<open>create_runtime\<close>, its startup gates included, and the round trip through a continue-as-new
  is shown for the whole of it.
\<close>

section \<open>What arrives\<close>

record drain_input =
  in_now :: int
  in_fired_at :: int
  in_timer_first :: bool
  in_message :: jsval
  in_probe :: "jsval option"
  in_world :: command_world

record drain_state =
  dr_kv :: fifo_kv
  dr_rt :: durable_session_runtime
  dr_stash :: "fifo_item list"
  dr_seen :: "string set"
  dr_cancelled :: "string set"
  dr_pending_ids :: "string set"
  dr_effects :: "orch_effect list"

datatype drain_flow = Go_on | Break_off | Return | Ended orchestration_input

text \<open>\<open>drain\<close> and the sweep before a dispatch handle a message alike but for the differences below.\<close>

datatype drain_source = In_drain | Before_dispatch

fun source_text :: "drain_source \<Rightarrow> string" where
  "source_text In_drain = ''drain''"
| "source_text Before_dispatch = ''predispatch''"

definition max_drain_per_turn :: nat where "max_drain_per_turn = 50"
definition max_predispatch_sweep :: nat where "max_predispatch_sweep = 50"
definition max_iterations_per_execution :: int where "max_iterations_per_execution = 10"
definition max_history_bytes :: rat where "max_history_bytes = 800 * 1024"
definition history_check_interval :: int where "history_check_interval = 3"

definition drain_start :: "fifo_kv \<Rightarrow> durable_session_runtime \<Rightarrow> drain_state" where
  "drain_start kv rt = \<lparr>dr_kv = kv, dr_rt = rt, dr_stash = [], dr_seen = {}, dr_cancelled = {},
     dr_pending_ids = {}, dr_effects = []\<rparr>"

abbreviation dr_session :: "drain_state \<Rightarrow> durable_session_state" where
  "dr_session d \<equiv> rt_state (dr_rt d)"

definition on_session ::
  "(durable_session_state \<Rightarrow> orch_effect list \<times> durable_session_state) \<Rightarrow> drain_state \<Rightarrow> drain_state" where
  "on_session f d =
     d\<lparr>dr_rt := (dr_rt d)\<lparr>rt_state := snd (f (dr_session d))\<rparr>, dr_effects := dr_effects d @ fst (f (dr_session d))\<rparr>"

definition session_update :: "(durable_session_state \<Rightarrow> durable_session_state) \<Rightarrow> drain_state \<Rightarrow> drain_state" where
  "session_update f = on_session (\<lambda>s. ([], f s))"

definition session_id :: "drain_state \<Rightarrow> string" where
  "session_id d = oi_session_id (rt_input (dr_rt d))"

section \<open>Fields of a message\<close>

definition sender_field :: "jsval \<Rightarrow> jsval" where
  "sender_field msg = (case jget ''sender'' msg of JObj fs \<Rightarrow> JObj fs | JArr xs \<Rightarrow> JArr xs | _ \<Rightarrow> JUndef)"

definition attachment_of :: "jsval \<Rightarrow> prompt_attachment_ref" where
  "attachment_of v = \<lparr>pa_filename = coalesce (as_string (jget ''filename'' v)) [],
     pa_content_type = coalesce (as_string (jget ''contentType'' v)) [],
     pa_size_bytes = (case jget ''sizeBytes'' v of JNum r \<Rightarrow> r | _ \<Rightarrow> 0)\<rparr>"

definition attachments_field :: "jsval \<Rightarrow> prompt_attachment_ref list" where
  "attachments_field msg = sanitize_prompt_attachment_refs
     (case jget ''attachments'' msg of JArr xs \<Rightarrow> Some (map attachment_of xs) | _ \<Rightarrow> None)"

definition command_of :: "jsval \<Rightarrow> command_message" where
  "command_of msg = \<lparr>cm_cmd = coalesce (as_string (jget ''cmd'' msg)) [], cm_id = coalesce (as_string (jget ''id'' msg)) [],
     cm_args = jget ''args'' msg, cm_sender = jget ''sender'' msg,
     cm_requested_by = as_string (jget ''requestedBy'' msg)\<rparr>"

section \<open>Cancellation\<close>

definition prompt_ids_intersect_cancellation :: "durable_session_state \<Rightarrow> string list \<Rightarrow> bool" where
  "prompt_ids_intersect_cancellation state ids \<longleftrightarrow> list_ex (\<lambda>i. i \<in> ds_cancelled_message_ids state) ids"

definition record_cancelled_message_ids ::
  "string list \<Rightarrow> string \<Rightarrow> durable_session_state \<Rightarrow> orch_effect list \<times> durable_session_state" where
  "record_cancelled_message_ids ids reason state =
     (let next_ids = filter (\<lambda>i. i \<noteq> [] \<and> i \<notin> ds_emitted_cancelled_message_ids state) ids
      in if next_ids = [] then ([], state)
         else ([Messages_cancelled next_ids reason],
               state\<lparr>ds_emitted_cancelled_message_ids := ds_emitted_cancelled_message_ids state \<union> set next_ids\<rparr>))"

fun prompt_ids :: "fifo_item \<Rightarrow> string list" where
  "prompt_ids (Prompt_item p) = coalesce (pi_client_message_ids p) []"
| "prompt_ids _ = []"

definition cancelled_item :: "string set \<Rightarrow> fifo_item \<Rightarrow> bool" where
  "cancelled_item cancelled item \<longleftrightarrow> list_ex (\<lambda>i. i \<in> cancelled) (prompt_ids item)"

text \<open>The stash is searched from its end; every prompt with a cancelled id is recorded and dropped.\<close>

definition drop_cancelled :: "string \<Rightarrow> string set \<Rightarrow> drain_state \<Rightarrow> drain_state" where
  "drop_cancelled reason cancelled d =
     fold (\<lambda>item. on_session (record_cancelled_message_ids (prompt_ids item) reason))
       (filter (cancelled_item cancelled) (rev (dr_stash d)))
       (d\<lparr>dr_stash := filter (\<lambda>item. \<not> cancelled_item cancelled item) (dr_stash d)\<rparr>)"

definition receive_cancel :: "drain_source \<Rightarrow> jsval \<Rightarrow> drain_state \<Rightarrow> drain_state" where
  "receive_cancel source msg d =
     (let ids = set (valid_client_message_ids (jget ''cancelPending'' msg));
          d1 = session_update (\<lambda>s. s\<lparr>ds_cancelled_message_ids := ds_cancelled_message_ids s \<union> ids\<rparr>) d
      in case source of
           In_drain \<Rightarrow> drop_cancelled ''drain-stash'' (dr_cancelled d \<union> ids)
             (d1\<lparr>dr_cancelled := dr_cancelled d \<union> ids\<rparr>)
         | Before_dispatch \<Rightarrow> drop_cancelled ''predispatch-stash'' ids d1)"

section \<open>Handling a message\<close>

definition flush_stash :: "drain_state \<Rightarrow> drain_state" where
  "flush_stash d =
     (let (kv, s) = append_prompt_stash_to_fifo (dr_stash d) (dr_kv d, dr_session d)
      in d\<lparr>dr_kv := kv, dr_rt := (dr_rt d)\<lparr>rt_state := s\<rparr>, dr_stash := []\<rparr>)"

definition receive_command :: "drain_input \<Rightarrow> drain_state \<Rightarrow> drain_state \<times> drain_flow" where
  "receive_command i d0 =
     (let d = flush_stash d0;
          r = handle_command (in_world i) (command_of (in_message i)) (dr_rt d);
          d' = d\<lparr>dr_rt := snd (fst r), dr_effects := dr_effects d @ fst (fst r)\<rparr>
      in (d', case snd r of
            Some can_input \<Rightarrow> Ended can_input
          | None \<Rightarrow> if ds_orchestration_result (dr_session d') \<noteq> None \<or> ds_regen (dr_session d') \<noteq> None
                    then Return else Go_on))"

definition update_key :: "child_update \<Rightarrow> string" where
  "update_key u = chu_session_id u @ ''|'' @ chu_update_type u @ ''|'' @ chu_content u"

definition track_update :: "drain_input \<Rightarrow> child_update \<Rightarrow> durable_session_state \<Rightarrow> bool \<times> durable_session_state" where
  "track_update i u state =
     (let expecting = (case List.find (\<lambda>a. sa_session_id a = chu_session_id u) (ds_sub_agents state) of
            Some a \<Rightarrow> sa_expects_report a | None \<Rightarrow> False);
          (tracked, s) = apply_child_update u (in_probe i) state
      in if tracked \<and> ds_pending_shutdown s = None then
           (let s' = buffer_child_update u (cw_now (in_world i)) s
            in (tracked, if expecting then mark_digest_ready_if_all_agents_settled s' else s'))
         else (tracked, s))"

definition receive_child_update :: "drain_input \<Rightarrow> child_update \<Rightarrow> drain_state \<Rightarrow> drain_state" where
  "receive_child_update i u d0 =
     (if update_key u \<in> dr_seen d0 then d0
      else
        let d = d0\<lparr>dr_seen := insert (update_key u) (dr_seen d0)\<rparr>;
            (tracked, s) = track_update i u (dr_session d);
            d1 = session_update (\<lambda>_. s) d
        in if tracked \<and> ds_waiting_for_agent_ids s \<noteq> None then
             (case maybe_resolve_agent_wait_completion s of
                Still_waiting \<Rightarrow> d1
              | Finalize_shutdown \<Rightarrow> on_session (finalize_pending_shutdown (session_id d)
                  (rt_options (dr_rt d)) (cw_descendants (in_world i))) d1
              | Wait_resolved s' \<Rightarrow> session_update (\<lambda>_. s') d)
           else d1)"

definition expected_question :: "jsval \<Rightarrow> durable_session_state \<Rightarrow> jsval" where
  "expected_question msg state =
     (if jget ''expectedQuestion'' msg \<noteq> JUndef then jget ''expectedQuestion'' msg
      else case ds_pending_input_question state of
        Some q \<Rightarrow> JObj [(''question'', jget ''question'' q),
          (''iteration'', if is_nullish (jget ''iteration'' q) then JNum (of_int (ds_iteration state))
                          else jget ''iteration'' q)]
      | None \<Rightarrow> JNull)"

definition receive_answer :: "drain_source \<Rightarrow> jsval \<Rightarrow> drain_state \<Rightarrow> drain_state \<times> drain_flow" where
  "receive_answer source msg d =
     (let state = dr_session d;
          interrupts = (source = In_drain \<and> ds_pending_input_question state \<noteq> None \<and>
            (case ds_active_timer state of
               Some t \<Rightarrow> at_type t = Timer_input_grace \<or> at_type t = Timer_idle | None \<Rightarrow> False));
          d1 = (if interrupts then session_update (\<lambda>s. s\<lparr>ds_active_timer := None\<rparr>) d else d);
          item = Answer_item \<lparr>ai_expected_question = expected_question msg state, ai_answer = jget ''answer'' msg,
            ai_was_freeform = jget ''wasFreeform'' msg, ai_sender = sender_field msg\<rparr>
      in (d1\<lparr>dr_stash := dr_stash d1 @ [item]\<rparr>, if interrupts then Break_off else Go_on))"

definition record_duplicate_prompt ::
  "string \<Rightarrow> string list \<Rightarrow> string list \<Rightarrow> string \<Rightarrow> durable_session_state \<Rightarrow> orch_effect list \<times> durable_session_state" where
  "record_duplicate_prompt sid ids duplicate_ids source state =
     ([Event_recorded sid ''session.message_duplicate_suppressed''
        [(''clientMessageIds'', JArr (map JStr ids)), (''duplicateClientMessageIds'', JArr (map JStr duplicate_ids)),
         (''windowSize'', JNum 20), (''source'', JStr source)]],
      touch_recent_client_message_ids
        (filter (\<lambda>i. i \<in> set (ds_recent_client_message_ids state)) duplicate_ids) state)"

definition prompt_of_message :: "jsval \<Rightarrow> string \<Rightarrow> fifo_item" where
  "prompt_of_message msg prompt =
     (let ids = valid_client_message_ids (jget ''clientMessageIds'' msg); attachments = attachments_field msg
      in Prompt_item \<lparr>pi_prompt = prompt, pi_bootstrap = truthy (jget ''bootstrap'' msg),
           pi_required_tool = if_truthy (as_string (jget ''requiredTool'' msg)),
           pi_client_message_ids = (if ids = [] then None else Some ids), pi_sender = sender_field msg,
           pi_attachments = (if attachments = [] then None else Some attachments)\<rparr>)"

text \<open>Only \<open>drain\<close> interrupts a timer for a prompt and lets a buffered digest ride in it.\<close>

definition stash_prompt :: "drain_source \<Rightarrow> drain_input \<Rightarrow> drain_state \<Rightarrow> drain_state" where
  "stash_prompt source i d =
     (let msg = in_message i; typed = js_string (jget ''prompt'' msg);
          (prompt, s) = (case source of
              In_drain \<Rightarrow> (case admit_prompt (cw_now (in_world i)) typed (dr_session d) of
                (p, s) \<Rightarrow> (coalesce p [], s))
            | Before_dispatch \<Rightarrow> (typed, dr_session d));
          d1 = session_update (\<lambda>_. s) d
      in d1\<lparr>dr_stash := dr_stash d @ [prompt_of_message msg prompt],
            dr_pending_ids := dr_pending_ids d \<union> set (valid_client_message_ids (jget ''clientMessageIds'' msg))\<rparr>)"

definition receive_prompt :: "drain_source \<Rightarrow> drain_input \<Rightarrow> drain_state \<Rightarrow> drain_state" where
  "receive_prompt source i d =
     (let ids = valid_client_message_ids (jget ''clientMessageIds'' (in_message i));
          duplicates = duplicate_client_message_ids (dr_session d) ids (dr_pending_ids d)
      in if prompt_ids_intersect_cancellation (dr_session d) ids
         then on_session (record_cancelled_message_ids ids (source_text source @ ''-incoming'')) d
         else if duplicates \<noteq> []
         then on_session (record_duplicate_prompt (session_id d) ids duplicates (source_text source)) d
         else stash_prompt source i d)"

definition is_cancel :: "jsval \<Rightarrow> bool" where
  "is_cancel msg = (case jget ''cancelPending'' msg of JArr xs \<Rightarrow> xs \<noteq> [] | _ \<Rightarrow> False)"

definition receive :: "drain_source \<Rightarrow> drain_input \<Rightarrow> drain_state \<Rightarrow> drain_state \<times> drain_flow" where
  "receive source i d =
     (let msg = in_message i
      in if \<not> truthy msg then (d, Go_on)
         else if is_cancel msg then (receive_cancel source msg d, Go_on)
         else if jget ''type'' msg = JStr ''cmd'' then receive_command i d
         else case parse_child_update (as_string (jget ''prompt'' msg)) of
           Some u \<Rightarrow> (receive_child_update i u d, Go_on)
         | None \<Rightarrow>
             if jget ''answer'' msg \<noteq> JUndef then receive_answer source msg d
             else if truthy (jget ''prompt'' msg) then (receive_prompt source i d, Go_on)
             else (d, Go_on))"

section \<open>The drain\<close>

text \<open>The active timer fires or the batch window of the digest ends: at once, or by winning the race.\<close>

definition expire :: "timer_candidate \<Rightarrow> int \<Rightarrow> drain_state \<Rightarrow> drain_state \<times> drain_flow" where
  "expire candidate fired_at d =
     (case candidate of
        Active_candidate _ t \<Rightarrow>
          ((session_update (\<lambda>s. s\<lparr>ds_active_timer := None\<rparr>) d)
             \<lparr>dr_stash := dr_stash d @ [Timer_item t fired_at]\<rparr>, Go_on)
      | Digest_candidate _ \<Rightarrow>
          (case ds_pending_child_digest (dr_session d) of
             None \<Rightarrow> (d, Go_on)
           | Some g \<Rightarrow> if cd_updates g = [] then (d, Go_on)
               else (session_update (\<lambda>s. s\<lparr>ds_pending_child_digest := Some (g\<lparr>cd_ready := True\<rparr>)\<rparr>) d, Break_off)))"

definition due_candidate :: "int \<Rightarrow> durable_session_state \<Rightarrow> timer_candidate option" where
  "due_candidate now state = next_timer_candidate (ds_active_timer state) (ds_pending_child_digest state) now
     (child_update_batch_ms (length (ds_sub_agents state))) (pending_child_digest_has_error state)"

definition idle_status :: "durable_session_state \<Rightarrow> orch_effect" where
  "idle_status state =
     (if ds_pending_input_question state \<noteq> None then publish_status state ''input_required'' []
      else case ds_blocked_error state of
        Some e \<Rightarrow> publish_status state ''error'' ([(''error'', JStr (be_message e)), (''retriesExhausted'', JBool True)] @
          (if be_auth_failure e then [(''authFailure'', JBool True)] else []))
      | None \<Rightarrow> publish_status state ''idle'' [])"

definition digest_collecting :: "durable_session_state \<Rightarrow> bool" where
  "digest_collecting state = (case ds_pending_child_digest state of Some g \<Rightarrow> \<not> cd_ready g | None \<Rightarrow> False)"

definition drain_step :: "nat \<Rightarrow> drain_input \<Rightarrow> drain_state \<Rightarrow> drain_state \<times> drain_flow" where
  "drain_step n i d =
     (let state = dr_session d
      in if ds_legacy_pending_message state \<noteq> JUndef then
           receive In_drain (i\<lparr>in_message := ds_legacy_pending_message state\<rparr>)
             (session_update (\<lambda>s. s\<lparr>ds_legacy_pending_message := JUndef\<rparr>) d)
         else if ds_regen state \<noteq> None then
           (if in_timer_first i then (d, Break_off) else receive In_drain i d)
         else if ds_active_timer state \<noteq> None \<or> digest_collecting state then
           (case due_candidate (in_now i) state of
              None \<Rightarrow> (d, Go_on)
            | Some c \<Rightarrow>
                if remaining_ms c = 0 then expire c (in_now i) d
                else if in_timer_first i then expire c (in_fired_at i) d
                else receive In_drain i d)
         else if needs_blocking_dequeue (dr_kv d) state then
           (if 0 < n then (d, Break_off)
            else receive In_drain i (on_session (\<lambda>s. ([idle_status s], s)) d))
         else if in_timer_first i then (d, Break_off) else receive In_drain i d)"

fun drain_loop ::
  "(nat \<Rightarrow> drain_state \<Rightarrow> drain_state \<times> drain_flow) \<Rightarrow> nat \<Rightarrow> nat \<Rightarrow> drain_state \<Rightarrow>
   drain_state \<times> orchestration_input option" where
  "drain_loop step n 0 d = (flush_stash d, None)"
| "drain_loop step n (Suc fuel) d =
     (case step n d of
        (d', Go_on) \<Rightarrow> drain_loop step (Suc n) fuel d'
      | (d', Break_off) \<Rightarrow> (flush_stash d', None)
      | (d', Return) \<Rightarrow> (d', None)
      | (d', Ended can_input) \<Rightarrow> (d', Some can_input))"

definition drain ::
  "(nat \<Rightarrow> drain_input) \<Rightarrow> fifo_kv \<Rightarrow> durable_session_runtime \<Rightarrow> drain_state \<times> orchestration_input option" where
  "drain w kv rt = drain_loop (\<lambda>n. drain_step n (w n)) 0 max_drain_per_turn (drain_start kv rt)"

definition sweep_messages_before_prompt_dispatch ::
  "(nat \<Rightarrow> drain_input) \<Rightarrow> fifo_kv \<Rightarrow> durable_session_runtime \<Rightarrow> drain_state \<times> orchestration_input option" where
  "sweep_messages_before_prompt_dispatch w kv rt =
     drain_loop (\<lambda>n d. if in_timer_first (w n) then (d, Break_off) else receive Before_dispatch (w n) d)
       0 max_predispatch_sweep (drain_start kv rt)"

section \<open>Turns\<close>

record turn_request =
  tr_prompt :: string
  tr_bootstrap :: bool
  tr_required_tool :: "string option"
  tr_client_message_ids :: "string list option"
  tr_cycle_origin :: "string option"
  tr_sender :: "message_sender option"
  tr_attachments :: "prompt_attachment_ref list option"

datatype decision =
    Nothing_to_do
  | Work_done
  | Replay_action jsval
  | Start_turn turn_request
  | Timer_due active_timer int
  | Execution_ended orchestration_input
  | Decide_failed

record decide_world =
  dw_tz_offset :: "string \<Rightarrow> int \<Rightarrow> int"
  dw_now :: int
  dw_sweep :: "nat \<Rightarrow> drain_input"

definition system_turn :: "string \<Rightarrow> turn_request" where
  "system_turn prompt = \<lparr>tr_prompt = prompt, tr_bootstrap = True, tr_required_tool = None,
     tr_client_message_ids = None, tr_cycle_origin = None, tr_sender = None, tr_attachments = None\<rparr>"

section \<open>Queued schedule actions\<close>

definition int_field :: "string \<Rightarrow> jsval \<Rightarrow> int option" where
  "int_field k v = (case jget k v of JNum r \<Rightarrow> Some \<lfloor>r\<rfloor> | _ \<Rightarrow> None)"

definition cron_at_schedule_of :: "jsval \<Rightarrow> cron_at_schedule" where
  "cron_at_schedule_of v = \<lparr>cs_minute = coalesce (int_field ''minute'' v) 0, cs_hour = int_field ''hour'' v,
     cs_day_of_week = int_field ''dayOfWeek'' v, cs_day_of_month = int_field ''dayOfMonth'' v,
     cs_tz = coalesce (as_string (jget ''tz'' v)) [], cs_reason = coalesce (as_string (jget ''reason'' v)) [],
     cs_max_fires = int_field ''maxFires'' v, cs_fires_completed = coalesce (int_field ''firesCompleted'' v) 0,
     cs_last_occurrence_key = as_string (jget ''lastOccurrenceKey'' v),
     cs_next_fire_at_ms = int_field ''nextFireAtMs'' v,
     cs_next_occurrence_key = as_string (jget ''nextOccurrenceKey'' v)\<rparr>"

definition schedule_action_of :: "jsval \<Rightarrow> schedule_action option" where
  "schedule_action_of v =
     (let cancel = (jget ''action'' v = JStr ''cancel'')
      in if jget ''type'' v = JStr ''cron'' then
           Some (if cancel then Cancel_cron
                 else Set_cron (coalesce (int_field ''intervalSeconds'' v) 0) (coalesce (as_string (jget ''reason'' v)) []))
         else if jget ''type'' v = JStr ''cron_at'' then
           Some (if cancel then Cancel_cron_at else Set_cron_at (cron_at_schedule_of (jget ''schedule'' v)))
         else None)"

definition apply_schedule_action ::
  "(string \<Rightarrow> int \<Rightarrow> int) \<Rightarrow> int \<Rightarrow> string option \<Rightarrow> schedule_action \<Rightarrow> durable_session_runtime \<Rightarrow>
   (orch_effect list \<times> durable_session_runtime) option" where
  "apply_schedule_action tz now source action rt =
     (if (case action of Set_cron _ _ \<Rightarrow> True | Cancel_cron \<Rightarrow> True | _ \<Rightarrow> False)
      then Some ([], apply_cron_action action source rt)
      else apply_cron_at_action tz now action source rt)"

text \<open>The remaining actions, and \<open>None\<close> when the next-fire computation throws.\<close>

fun drain_leading_queued_schedule_actions ::
  "(string \<Rightarrow> int \<Rightarrow> int) \<Rightarrow> int \<Rightarrow> string option \<Rightarrow> jsval list \<Rightarrow> durable_session_runtime \<Rightarrow>
   (jsval list \<times> orch_effect list \<times> durable_session_runtime) option" where
  "drain_leading_queued_schedule_actions tz now source [] rt = Some ([], [], rt)"
| "drain_leading_queued_schedule_actions tz now source (v # rest) rt =
     (case schedule_action_of v of
        None \<Rightarrow> Some (v # rest, [], rt)
      | Some action \<Rightarrow>
          (case apply_schedule_action tz now source action rt of
             None \<Rightarrow> None
           | Some (effects, rt1) \<Rightarrow>
               map_option (\<lambda>(left, effects', rt2). (left, effects @ effects', rt2))
                 (drain_leading_queued_schedule_actions tz now source rest rt1)))"

section \<open>Merging queued prompts\<close>

record merged_turn =
  mt_prompt :: string
  mt_bootstrap :: bool
  mt_required_tool :: "string option"
  mt_client_message_ids :: "string list"
  mt_attachments :: "prompt_attachment_ref list"
  mt_sender :: "message_sender option"
  mt_mixed :: bool

definition first_segment :: "prompt_item \<Rightarrow> durable_session_state \<Rightarrow> merged_turn \<times> durable_session_state" where
  "first_segment p state =
     (let (sender, s) = note_message_sender (pi_sender p) state
      in (\<lparr>mt_prompt = apply_sender_attribution s sender (pi_prompt p), mt_bootstrap = pi_bootstrap p,
            mt_required_tool = pi_required_tool p, mt_client_message_ids = coalesce (pi_client_message_ids p) [],
            mt_attachments = sanitize_prompt_attachment_refs (pi_attachments p), mt_sender = sender,
            mt_mixed = False\<rparr>, s))"

definition merge_segment ::
  "prompt_item \<Rightarrow> merged_turn \<Rightarrow> durable_session_state \<Rightarrow> merged_turn \<times> durable_session_state" where
  "merge_segment p m state =
     (let (sender, s) = note_message_sender (pi_sender p) state;
          room = attachments_max_count - length (mt_attachments m)
      in (m\<lparr>mt_prompt := mt_prompt m @ blank_line @ apply_sender_attribution s sender (pi_prompt p),
            mt_bootstrap := mt_bootstrap m \<and> pi_bootstrap p,
            mt_required_tool := or_else (mt_required_tool m) (pi_required_tool p),
            mt_client_message_ids := mt_client_message_ids m @ coalesce (pi_client_message_ids p) [],
            mt_attachments := mt_attachments m @ take room (sanitize_prompt_attachment_refs (pi_attachments p)),
            mt_mixed := mt_mixed m \<or> message_sender_key sender \<noteq> message_sender_key (mt_sender m)\<rparr>, s))"

lemma pop_fifo_item_shrinks:
  "pop_fifo_item kv = Some (item, kv') \<Longrightarrow> length (fifo_items kv') < length (fifo_items kv)"
  using arrival.pop_length [of kv item kv'] by simp

function merge_prompts :: "drain_state \<Rightarrow> merged_turn \<Rightarrow> merged_turn \<times> drain_state" where
  "merge_prompts d m =
     (case pop_fifo_item (dr_kv d) of
        None \<Rightarrow> (m, d)
      | Some (Prompt_item p, kv) \<Rightarrow>
          let d1 = d\<lparr>dr_kv := kv\<rparr>; ids = coalesce (pi_client_message_ids p) []
          in if prompt_ids_intersect_cancellation (dr_session d) ids
             then merge_prompts (on_session (record_cancelled_message_ids ids ''decide-merge'') d1) m
             else if pi_bootstrap p \<noteq> mt_bootstrap m then (m, d\<lparr>dr_kv := prepend_to_fifo (Prompt_item p) kv\<rparr>)
             else merge_prompts (session_update (\<lambda>_. snd (merge_segment p m (dr_session d))) d1)
                    (fst (merge_segment p m (dr_session d)))
      | Some (item, kv) \<Rightarrow> (m, d\<lparr>dr_kv := prepend_to_fifo item kv\<rparr>))"
  by pat_completeness auto
termination
  by (relation "measure (\<lambda>(d, m). length (fifo_items (dr_kv d)))")
    (auto simp: on_session_def session_update_def pop_fifo_item_shrinks)

section \<open>Deciding\<close>

definition process_answer :: "answer_item \<Rightarrow> drain_state \<Rightarrow> decision \<times> drain_state" where
  "process_answer a d =
     (let state = dr_session d; asked = ds_pending_input_question state;
          pending = (case asked of Some q \<Rightarrow> jget ''question'' q | None \<Rightarrow> JUndef);
          iteration = (case asked of
              Some q \<Rightarrow> if is_nullish (jget ''iteration'' q) then JNum (of_int (ds_iteration state)) else jget ''iteration'' q
            | None \<Rightarrow> JNum (of_int (ds_iteration state)));
          expected = ai_expected_question a;
          matches = (expected = JUndef \<or> expected \<noteq> JNull \<and> jget ''question'' expected = pending \<and>
            (jget ''iteration'' expected = JUndef \<or> jget ''iteration'' expected = iteration));
          question = (if matches then pending else JUndef);
          s1 = (if matches then state\<lparr>ds_pending_input_question := None\<rparr> else state);
          (sender, s2) = note_message_sender (ai_sender a) s1;
          display = (case sender of Some m \<Rightarrow> ms_display m | None \<Rightarrow> None);
          answered_by = (if ds_multi_writer s2 \<and> truthy_str display
            then '' (answered by '' @ coalesce display [] @ '')'' else []);
          prompt = (if truthy question
            then ''The user was asked: '' @ quoted (js_string question) @ [CHR 0x0A] @ ''The user responded'' @
              answered_by @ '': '' @ quoted (js_string (ai_answer a))
            else js_string (ai_answer a))
      in (Start_turn \<lparr>tr_prompt = prompt, tr_bootstrap = False, tr_required_tool = None,
            tr_client_message_ids = None, tr_cycle_origin = None, tr_sender = sender, tr_attachments = None\<rparr>,
          session_update (\<lambda>_. maybe_queue_shared_preamble s2) d))"

definition some_list :: "'a list \<Rightarrow> 'a list option" where
  "some_list xs = (if xs = [] then None else Some xs)"

definition merged_request :: "merged_turn \<Rightarrow> durable_session_state \<Rightarrow> turn_request" where
  "merged_request m state = \<lparr>tr_prompt = mt_prompt m, tr_bootstrap = mt_bootstrap m,
     tr_required_tool = (case mt_required_tool m of None \<Rightarrow> ds_pending_required_tool state | Some t \<Rightarrow> Some t),
     tr_client_message_ids = some_list (mt_client_message_ids m), tr_cycle_origin = None,
     tr_sender = (if mt_mixed m then None else mt_sender m), tr_attachments = some_list (mt_attachments m)\<rparr>"

definition start_merged_turn :: "prompt_item \<Rightarrow> drain_state \<Rightarrow> decision \<times> drain_state" where
  "start_merged_turn p d =
     (let (m0, s) = first_segment p (dr_session d);
          (m, d1) = merge_prompts (session_update (\<lambda>_. s) d) m0;
          d2 = session_update maybe_queue_shared_preamble d1
      in (Start_turn (merged_request m (dr_session d2)),
          session_update (\<lambda>s. s\<lparr>ds_pending_required_tool := None\<rparr>) d2))"

definition dispatch_prompt :: "decide_world \<Rightarrow> prompt_item \<Rightarrow> drain_state \<Rightarrow> decision \<times> drain_state" where
  "dispatch_prompt w p d =
     (let ids = coalesce (pi_client_message_ids p) [];
          (swept, ended) = (if ids = [] then (d, None)
            else sweep_messages_before_prompt_dispatch (dw_sweep w) (dr_kv d) (dr_rt d));
          d1 = d\<lparr>dr_kv := dr_kv swept, dr_rt := dr_rt swept,
                 dr_effects := (if ids = [] then dr_effects d else dr_effects d @ dr_effects swept)\<rparr>
      in case ended of
           Some can_input \<Rightarrow> (Execution_ended can_input, d1)
         | None \<Rightarrow>
             if ids \<noteq> [] \<and> ds_orchestration_result (dr_session d1) \<noteq> None then (Work_done, d1)
             else if prompt_ids_intersect_cancellation (dr_session d1) ids
             then (Work_done, on_session (record_cancelled_message_ids ids ''decide-fifo'') d1)
             else start_merged_turn p d1)"

definition dispatch_item :: "decide_world \<Rightarrow> fifo_item \<Rightarrow> drain_state \<Rightarrow> decision \<times> drain_state" where
  "dispatch_item w item d =
     (case item of
        Prompt_item p \<Rightarrow> dispatch_prompt w p d
      | Answer_item a \<Rightarrow> process_answer a d
      | Timer_item t fired_at \<Rightarrow> (Timer_due t fired_at, d)
      | Agents_done_item summary \<Rightarrow> (Work_done, session_update (queue_followup summary) d)
      | Unknown_item _ \<Rightarrow> (Work_done, d))"

definition dispatch_digest :: "decide_world \<Rightarrow> drain_state \<Rightarrow> decision \<times> drain_state" where
  "dispatch_digest w d =
     (case process_pending_child_digest (dw_now w) (dr_session d) of
        (Digest_turn prompt, s) \<Rightarrow> (Start_turn (system_turn prompt), session_update (\<lambda>_. s) d)
      | (Digest_suppressed reason n, s) \<Rightarrow> (Work_done, on_session (\<lambda>_. ([Child_update_suppressed reason n], s)) d)
      | (Digest_empty, s) \<Rightarrow> (Work_done, session_update (\<lambda>_. s) d))"

definition pending_turn :: "durable_session_state \<Rightarrow> turn_request" where
  "pending_turn state = \<lparr>tr_prompt = coalesce (ds_pending_prompt state) [], tr_bootstrap = ds_bootstrap_prompt state,
     tr_required_tool = ds_pending_required_tool state, tr_client_message_ids = None,
     tr_cycle_origin = ds_pending_cycle_origin state, tr_sender = None,
     tr_attachments = some_list (ds_pending_attachments state)\<rparr>"

definition clear_pending_turn :: "durable_session_state \<Rightarrow> durable_session_state" where
  "clear_pending_turn state = state\<lparr>ds_pending_prompt := None, ds_bootstrap_prompt := False,
     ds_pending_required_tool := None, ds_pending_cycle_origin := None, ds_pending_attachments := []\<rparr>"

definition decide_queued :: "decide_world \<Rightarrow> drain_state \<Rightarrow> decision \<times> drain_state" where
  "decide_queued w d =
     (let state = dr_session d
      in if truthy_str (ds_pending_prompt state) \<and> ds_waiting_for_agent_ids state = None
         then (Start_turn (pending_turn state), session_update clear_pending_turn d)
         else case pop_next_dispatch_fifo_item (dr_kv d) of
           Some (item, kv) \<Rightarrow> dispatch_item w item (d\<lparr>dr_kv := kv\<rparr>)
         | None \<Rightarrow>
             if has_ready_pending_child_digest state \<and> ds_waiting_for_agent_ids state = None
             then dispatch_digest w d else (Nothing_to_do, d))"

definition decide :: "decide_world \<Rightarrow> drain_state \<Rightarrow> decision \<times> drain_state" where
  "decide w d =
     (case drain_leading_queued_schedule_actions (dw_tz_offset w) (dw_now w) None
             (ds_pending_tool_actions (dr_session d)) (dr_rt d) of
        None \<Rightarrow> (Decide_failed, d)
      | Some (left, effects, rt) \<Rightarrow>
          let d' = d\<lparr>dr_rt := rt, dr_effects := dr_effects d @ effects\<rparr>
          in (case left of
               action # rest \<Rightarrow>
                 (Replay_action action, session_update (\<lambda>s. s\<lparr>ds_pending_tool_actions := rest\<rparr>) d')
             | [] \<Rightarrow> decide_queued w (session_update (\<lambda>s. s\<lparr>ds_pending_tool_actions := []\<rparr>) d')))"

section \<open>The run loop\<close>

text \<open>
  One pass of \<open>runLoop\<close>. A pass that starts a turn, replays an action or serves a timer hands the
  decision over; the loop goes on after it unless it has set a result.
\<close>

datatype pass_result =
    Loop_again
  | Hand_over decision
  | Finished string
  | Continued_as_new orchestration_input
  | Crashed

record pass_world =
  pw_now :: int
  pw_history_bytes :: "rat option"
  pw_drain :: "nat \<Rightarrow> drain_input"
  pw_regen :: regen_world
  pw_decide :: decide_world

definition plain_continue :: "int \<Rightarrow> drain_state \<Rightarrow> pass_result" where
  "plain_continue now d =
     Continued_as_new (versioned_continue_as_new now (dr_rt d) (build_continue_input (dr_rt d) no_overrides))"

definition finished_or :: "pass_result \<Rightarrow> drain_state \<Rightarrow> pass_result" where
  "finished_or otherwise d =
     (case ds_orchestration_result (dr_session d) of Some r \<Rightarrow> Finished r | None \<Rightarrow> otherwise)"

definition after_decide :: "int \<Rightarrow> decision \<Rightarrow> drain_state \<Rightarrow> pass_result" where
  "after_decide now decision d =
     (case decision of
        Execution_ended can_input \<Rightarrow> Continued_as_new can_input
      | Decide_failed \<Rightarrow> Crashed
      | Nothing_to_do \<Rightarrow> finished_or
          (if ds_active_timer (dr_session d) \<noteq> None \<or> ds_pending_input_question (dr_session d) \<noteq> None
           then Loop_again else plain_continue now d) d
      | Work_done \<Rightarrow> finished_or Loop_again d
      | _ \<Rightarrow> Hand_over decision)"

definition regen_pass :: "pass_world \<Rightarrow> drain_state \<Rightarrow> pass_result \<times> drain_state" where
  "regen_pass w d =
     (let r = advance_regen_pipeline (pw_regen w) (dr_rt d);
          d' = d\<lparr>dr_rt := snd (fst r), dr_effects := dr_effects d @ fst (fst r)\<rparr>
      in (case snd r of Some can_input \<Rightarrow> Continued_as_new can_input | None \<Rightarrow> finished_or Loop_again d', d'))"

definition history_full :: "pass_world \<Rightarrow> int \<Rightarrow> bool" where
  "history_full w n \<longleftrightarrow> n mod history_check_interval = 0 \<and>
     (case pw_history_bytes w of Some b \<Rightarrow> max_history_bytes \<le> b | None \<Rightarrow> False)"

text \<open>One pass of \<open>runLoop\<close>; what precedes the first is \<open>enter_run_loop\<close>.\<close>

definition run_pass :: "pass_world \<Rightarrow> fifo_kv \<Rightarrow> durable_session_runtime \<Rightarrow> pass_result \<times> drain_state" where
  "run_pass w kv rt0 =
     (let n = ds_loop_iteration (rt_state rt0) + 1;
          rt = rt0\<lparr>rt_state := (rt_state rt0)\<lparr>ds_loop_iteration := n\<rparr>\<rparr>
      in if max_iterations_per_execution < n \<or> history_full w n
         then (plain_continue (pw_now w) (drain_start kv rt), drain_start kv rt)
         else case drain (pw_drain w) kv rt of
           (d, Some can_input) \<Rightarrow> (Continued_as_new can_input, d)
         | (d, None) \<Rightarrow>
             if ds_orchestration_result (dr_session d) \<noteq> None then (finished_or Loop_again d, d)
             else if ds_regen (dr_session d) \<noteq> None then regen_pass w d
             else (case decide (pw_decide w) d of (decision, d') \<Rightarrow> (after_decide (pw_now w) decision d', d')))"

section \<open>Starting an execution\<close>

definition apply_legacy_pending_message :: "jsval \<Rightarrow> durable_session_state \<Rightarrow> durable_session_state" where
  "apply_legacy_pending_message msg state =
     (if \<not> truthy msg then state
      else if truthy (jget ''prompt'' msg) \<and> \<not> truthy_str (ds_pending_prompt state) then
        state\<lparr>ds_pending_prompt := Some (js_string (jget ''prompt'' msg)),
          ds_bootstrap_prompt := truthy (jget ''bootstrap'' msg),
          ds_pending_required_tool := as_string (jget ''requiredTool'' msg),
          ds_pending_attachments := attachments_field msg\<rparr>
      else state\<lparr>ds_legacy_pending_message := msg\<rparr>)"

record worker_policy =
  wp_allowlist :: bool
  wp_allow_generic :: bool
  wp_allowed_names :: "string list"

definition policy_rejection :: "durable_session_options \<Rightarrow> orchestration_input \<Rightarrow> worker_policy \<Rightarrow>
    durable_session_state \<Rightarrow> string option" where
  "policy_rejection options input policy state =
     (let agent = oi_agent_id input; names = wp_allowed_names policy
      in if ds_iteration state \<noteq> 0 \<or> truthy_str (do_parent_session_id options) \<or> do_is_system options \<or>
            \<not> wp_allowlist policy then None
         else if \<not> truthy_str agent \<and> \<not> wp_allow_generic policy
         then Some ''[POLICY] Session rejected: generic sessions are not allowed by session creation policy.''
         else if truthy_str agent \<and> names \<noteq> [] \<and> the agent \<notin> set names
         then Some (''[POLICY] Session rejected: agent '' @ quoted (the agent) @ '' is not in the allowed agent list.'')
         else None)"

definition enforce_creation_policy :: "durable_session_options \<Rightarrow> orchestration_input \<Rightarrow> worker_policy \<Rightarrow>
    durable_session_state \<Rightarrow> orch_effect list \<times> durable_session_state" where
  "enforce_creation_policy options input policy state =
     (case policy_rejection options input policy state of
        None \<Rightarrow> ([], state)
      | Some r \<Rightarrow>
          ([publish_status state ''failed'' [(''policyRejected'', JBool True)], Cms_state ''rejected'' None],
           state\<lparr>ds_orchestration_result := Some r\<rparr>))"

text \<open>
  \<open>resolveTopLevelAgentConfig\<close>: a top-level session that names an agent takes the agent's tools, its
  identity and its first required tool, once, before its first turn. \<open>manager.resolveAgentConfig\<close> is an
  activity, a function of the name and the binding it is asked for.
\<close>

record agent_binding =
  ab_package_id :: "string option"
  ab_source :: jsval

record agent_definition =
  ag_name :: string
  ag_namespace :: "string option"
  ag_package_id :: "string option"
  ag_tools :: "string list"
  ag_worker_managed :: bool
  ag_initial_required_tool :: "string option"
  ag_crawler :: bool
  ag_harvester :: bool

type_synonym resolve_agent = "string \<Rightarrow> agent_binding option \<Rightarrow> agent_definition option"

definition config_names :: "config_obj \<Rightarrow> string list" where
  "config_names c = (case jget ''toolNames'' (JObj c) of JArr xs \<Rightarrow> map js_string xs | _ \<Rightarrow> [])"

definition binding_of :: "config_obj \<Rightarrow> agent_binding option" where
  "binding_of c =
     (let package = jget ''boundAgentPackageId'' (JObj c); source = jget ''boundAgentSource'' (JObj c)
      in if truthy package \<or> truthy source
         then Some \<lparr>ab_package_id = (if truthy package then Some (js_string package) else None),
                ab_source = (if truthy source then source else JUndef)\<rparr>
         else None)"

definition asked_name :: "string \<Rightarrow> config_obj \<Rightarrow> string" where
  "asked_name agent_id c =
     (if binding_of c \<noteq> None then text_or agent_id (jget ''boundAgentName'' (JObj c)) else agent_id)"

definition json_option :: "string option \<Rightarrow> jsval" where
  "json_option v = (case v of None \<Rightarrow> JUndef | Some s \<Rightarrow> JStr s)"

definition agent_config :: "agent_definition \<Rightarrow> config_obj \<Rightarrow> config_obj" where
  "agent_config def c0 =
     (let c1 = (if is_nullish (jget ''namedAgentToolAdditions'' (JObj c0))
                then obj_set ''namedAgentToolAdditions''
                  (JArr (map JStr (filter (\<lambda>n. n \<notin> set (ag_tools def)) (config_names c0)))) c0
                else c0);
          name = (if \<not> truthy_str (ag_package_id def) \<and> truthy_str (ag_namespace def)
                  then the (ag_namespace def) @ '':'' @ ag_name def else ag_name def);
          c2 = obj_set ''boundAgentSource''
                 (if truthy_str (ag_package_id def) then JUndef else JStr ''deployment'')
                 (obj_set ''boundAgentPackageId'' (json_option (ag_package_id def))
                   (obj_set ''boundAgentName'' (JStr name) c1));
          merged = first_seen (ag_tools def @ config_names c2);
          c3 = (if merged \<noteq> [] then obj_set ''toolNames'' (JArr (map JStr merged)) c2 else c2);
          c4 = (if ag_crawler def then obj_set ''isCrawler'' (JBool True) c3 else c3)
      in if ag_harvester def then obj_set ''isHarvester'' (JBool True) c4 else c4)"

definition resolve_top_level_agent_config ::
  "durable_session_options \<Rightarrow> orchestration_input \<Rightarrow> resolve_agent \<Rightarrow> durable_session_state \<Rightarrow>
   orch_effect list \<times> durable_session_state" where
  "resolve_top_level_agent_config options input resolve state =
     (if ds_iteration state \<noteq> 0 \<or> truthy_str (do_parent_session_id options) \<or>
         \<not> truthy_str (oi_agent_id input) \<or> do_is_system options then ([], state)
      else let agent_id = the (oi_agent_id input); config = ds_config state
        in case resolve (asked_name agent_id config) (binding_of config) of
             None \<Rightarrow> ([], state)
           | Some def \<Rightarrow>
               if ag_worker_managed def then
                 let message = ''Agent '' @ quoted agent_id @
                       '' is a worker-managed system agent and cannot be started manually. '' @
                       ''If it is missing, the workers likely need to be restarted.''
                 in ([publish_status state ''failed'' [(''workerManagedAgent'', JBool True)],
                      Cms_state ''failed'' (Some message)],
                     state\<lparr>ds_orchestration_result := Some (''[SYSTEM: '' @ message @ '']'')\<rparr>)
               else ([], state\<lparr>ds_config := agent_config def config,
                 ds_pending_required_tool :=
                   (if truthy_str (ag_initial_required_tool def) \<and> \<not> truthy_str (ds_pending_required_tool state)
                    then ag_initial_required_tool def else ds_pending_required_tool state)\<rparr>))"

text \<open>What \<open>createRuntime\<close> reads besides its input.\<close>

record start_world =
  sw_now :: int
  sw_response_version :: int
  sw_command_version :: int
  sw_version :: string
  sw_pending_message :: jsval
  sw_policy :: worker_policy
  sw_resolve :: resolve_agent

definition create_runtime ::
  "start_world \<Rightarrow> orchestration_input \<Rightarrow> orch_effect list \<times> durable_session_runtime" where
  "create_runtime sw input =
     (let rt = build_runtime (sw_now sw) (sw_response_version sw) (sw_command_version sw) (sw_version sw) input;
          s0 = apply_legacy_pending_message (sw_pending_message sw) (rt_state rt);
          gate = enforce_creation_policy (rt_options rt) input (sw_policy sw) s0
      in if ds_orchestration_result (snd gate) \<noteq> None then (fst gate, rt\<lparr>rt_state := snd gate\<rparr>)
         else let resolved = resolve_top_level_agent_config (rt_options rt) input (sw_resolve sw) (snd gate)
              in (fst gate @ fst resolved, rt\<lparr>rt_state := snd resolved\<rparr>))"

text \<open>
  \<open>runLoop\<close> commits a pending epoch boundary before its first pass, and fails the execution when that
  fails. The boundary stays pending until a turn of the epoch has committed.
\<close>

definition enter_run_loop ::
  "bool \<Rightarrow> pass_world \<Rightarrow> fifo_kv \<Rightarrow> durable_session_runtime \<Rightarrow> pass_result \<times> drain_state" where
  "enter_run_loop boundary_committed w kv rt =
     (if ds_pending_epoch_commit (rt_state rt) \<noteq> None \<and> \<not> boundary_committed
      then (Crashed, drain_start kv rt) else run_pass w kv rt)"

section \<open>The next execution\<close>

text \<open>The startup gates are for a top-level session before its first turn.\<close>

definition past_startup :: "durable_session_runtime \<Rightarrow> bool" where
  "past_startup rt \<longleftrightarrow> ds_iteration (rt_state rt) \<noteq> 0 \<or> truthy_str (do_parent_session_id (rt_options rt)) \<or>
     do_is_system (rt_options rt)"

lemma gates_past_startup:
  assumes "ds_iteration s \<noteq> 0 \<or> truthy_str (do_parent_session_id opts) \<or> do_is_system opts"
  shows "enforce_creation_policy opts input policy s = ([], s)"
    "resolve_top_level_agent_config opts input resolve s = ([], s)"
proof -
  have "policy_rejection opts input policy s = None"
    unfolding policy_rejection_def Let_def using assms by (metis (full_types))
  then show "enforce_creation_policy opts input policy s = ([], s)" by (simp add: enforce_creation_policy_def)
  show "resolve_top_level_agent_config opts input resolve s = ([], s)"
    unfolding resolve_top_level_agent_config_def using assms by (metis (full_types))
qed

lemma create_runtime_past_startup:
  fixes sw input
  defines "rt \<equiv> build_runtime (sw_now sw) (sw_response_version sw) (sw_command_version sw) (sw_version sw) input"
  assumes "past_startup rt" "sw_pending_message sw = JUndef" "ds_orchestration_result (rt_state rt) = None"
  shows "create_runtime sw input = ([], rt)"
proof -
  note gates = gates_past_startup [OF assms(2) [unfolded past_startup_def]]
  have "apply_legacy_pending_message (sw_pending_message sw) (rt_state rt) = rt_state rt"
    by (simp add: apply_legacy_pending_message_def assms(3))
  then show ?thesis
    using assms(4) unfolding create_runtime_def rt_def [symmetric] Let_def by (simp add: gates)
qed

text \<open>
  C3. Continue-as-new is a faithful checkpoint of a session that is past its startup (it has had a turn,
  or is a child or a system session) and well-formed (\<open>runtime_ok\<close>: no optional text is empty and the
  bounded collections are within their bounds, the configuration already carries what
  \<open>createInitialState\<close> writes into it, there is a base system message, and the idle timeout is not the
  60 seconds that are read as the default). The runtime that the next execution creates from the carried
  input has the same options, and the same state except for what belongs to one execution (the loop
  and retry counters, the cancelled ids, the last command; \<open>execution_local\<close>), the pending prompt (a
  lone system prompt becomes an internal bootstrap turn; \<open>settle_prompt\<close>), the two response counters read
  back from the store, and the active timer, which is restarted with the time it had left and without
  its budget flag. Sub-agents, schedules, the question, the digest, the budget stash, the epoch and
  regeneration state, the writer tracking and the id window all survive.
\<close>

theorem continue_as_new_roundtrip:
  assumes "runtime_ok rt" "past_startup rt" "sw_pending_message sw = JUndef"
  shows "let started = create_runtime sw
               (versioned_continue_as_new now rt (build_continue_input rt no_overrides))
         in fst started = [] \<and> rt_options (snd started) = rt_options rt \<and>
            rt_state (snd started) = (execution_local (settle_prompt (rt_state rt)))
              \<lparr>ds_last_response_version := sw_response_version sw, ds_last_command_version := sw_command_version sw,
               ds_active_timer := map_option (resume_timer now (sw_now sw)) (ds_active_timer (rt_state rt))\<rparr>"
proof -
  let ?rt' = "build_runtime (sw_now sw) (sw_response_version sw) (sw_command_version sw) (sw_version sw)
      (versioned_continue_as_new now rt (build_continue_input rt no_overrides))"
  note built = continued_runtime [OF assms(1), of "sw_now sw" "sw_response_version sw" "sw_command_version sw"
      "sw_version sw" now, unfolded Let_def]
  have "ds_iteration (rt_state ?rt') = ds_iteration (rt_state rt)" "ds_orchestration_result (rt_state ?rt') = None"
    using built by (simp_all add: execution_local_def settle_prompt_def)
  then have "past_startup ?rt'" using assms(2) built by (simp add: past_startup_def)
  from create_runtime_past_startup [OF this assms(3) \<open>ds_orchestration_result (rt_state ?rt') = None\<close>] built
  show ?thesis by (simp add: Let_def)
qed

definition demo_start :: start_world where
  "demo_start = \<lparr>sw_now = 20000, sw_response_version = 3, sw_command_version = 1, sw_version = ''1.0.79'',
     sw_pending_message = JUndef, sw_policy = \<lparr>wp_allowlist = True, wp_allow_generic = False, wp_allowed_names = []\<rparr>,
     sw_resolve = (\<lambda>_ _. None)\<rparr>"

theorem continue_as_new_roundtrip_witness:
  "let wait = \<lparr>at_deadline_ms = 9000, at_original_duration_ms = 5000, at_reason = ''build'',
         at_type = Timer_wait, at_should_rehydrate = False, at_wait_plan = None, at_content = None,
         at_question = None, at_choices = None, at_allow_freeform = None, at_agent_ids = None,
         at_budget = False\<rparr>;
       rt = demo_runtime\<lparr>rt_state := (rt_state demo_runtime)
              \<lparr>ds_iteration := 4, ds_pending_system_prompt := Some ''note'', ds_active_timer := Some wait\<rparr>\<rparr>;
       rt' = snd (create_runtime demo_start
               (versioned_continue_as_new 7000 rt (build_continue_input rt no_overrides)))
   in ds_pending_prompt (rt_state rt') = Some internal_system_turn_prompt \<and>
      map_option at_deadline_ms (ds_active_timer (rt_state rt')) = Some 22000 \<and>
      ds_last_response_version (rt_state rt') = 3"
proof -
  define wait where "wait = \<lparr>at_deadline_ms = 9000, at_original_duration_ms = 5000, at_reason = ''build'',
         at_type = Timer_wait, at_should_rehydrate = False, at_wait_plan = None, at_content = None,
         at_question = None, at_choices = None, at_allow_freeform = None, at_agent_ids = None,
         at_budget = False\<rparr>"
  define rt where "rt = demo_runtime\<lparr>rt_state := (rt_state demo_runtime)
              \<lparr>ds_iteration := 4, ds_pending_system_prompt := Some ''note'', ds_active_timer := Some wait\<rparr>\<rparr>"
  have ok: "runtime_ok rt" "past_startup rt" "sw_pending_message demo_start = JUndef"
    using demo_runtime_ok
    by (simp_all add: rt_def runtime_ok_def state_ok_def config_settled_def timer_ok_def wait_def filled_def
      past_startup_def demo_start_def)
  have "ds_pending_prompt (rt_state rt) = None"
    by (simp add: rt_def demo_runtime_def build_runtime_def new_session_input_def
        create_initial_state_def restore_active_timer_def Let_def)
  moreover have "ds_active_timer (rt_state rt) = Some wait"
    "ds_pending_system_prompt (rt_state rt) = Some ''note''" by (simp_all add: rt_def)
  ultimately have "rt_state (snd (create_runtime demo_start
        (versioned_continue_as_new 7000 rt (build_continue_input rt no_overrides)))) =
      (execution_local ((rt_state rt)\<lparr>ds_pending_prompt := Some internal_system_turn_prompt,
          ds_bootstrap_prompt := True\<rparr>))
        \<lparr>ds_last_response_version := 3, ds_last_command_version := 1,
         ds_active_timer := Some (resume_timer 7000 20000 wait)\<rparr>"
    using continue_as_new_roundtrip [OF ok, of 7000]
    by (simp add: Let_def settle_prompt_def demo_start_def)
  then show ?thesis
    unfolding Let_def wait_def [symmetric] rt_def [symmetric]
    by (simp add: execution_local_def resume_timer_def) (simp add: wait_def)
qed

text \<open>The continue-as-new of a pass that does nothing else leaves a pending regeneration pending.\<close>

lemma continue_keeps_pipeline:
  assumes "runtime_ok rt" "past_startup rt" "sw_pending_message sw = JUndef"
  shows "keeps_pipeline rt (snd (create_runtime sw
      (versioned_continue_as_new now rt (build_continue_input rt no_overrides))))"
proof -
  let ?rt' = "build_runtime (sw_now sw) (sw_response_version sw) (sw_command_version sw) (sw_version sw)
      (versioned_continue_as_new now rt (build_continue_input rt no_overrides))"
  note built = continued_runtime [OF assms(1), of "sw_now sw" "sw_response_version sw" "sw_command_version sw"
      "sw_version sw" now, unfolded Let_def]
  have st: "ds_iteration (rt_state ?rt') = ds_iteration (rt_state rt)" "ds_orchestration_result (rt_state ?rt') = None"
    "ds_regen (rt_state ?rt') = ds_regen (rt_state rt)"
    "ds_transcript_epoch (rt_state ?rt') = ds_transcript_epoch (rt_state rt)"
    using built by (simp_all add: execution_local_def settle_prompt_def)
  then have "past_startup ?rt'" using assms(2) built by (simp add: past_startup_def)
  from create_runtime_past_startup [OF this assms(3) st(2)] st show ?thesis by (simp add: keeps_pipeline_def)
qed

end
