(* ===== verification/OrchLoop.thy ===== *)
theory OrchLoop
  imports OrchDrain
begin

text \<open>
  What the event loop of theory \<open>OrchDrain\<close> guarantees: which messages become a turn, in which order
  and with whose name, and that a cancelled one does not. And three places where the loop and a
  continue-as-new do not fit: a model switch that arrives in the sweep before a dispatch, a
  cancellation that an execution forgets, and a model switch during a wait for agents.
\<close>

section \<open>What a message's sender changes\<close>

lemma note_sender_keeps_cancelled [simp]:
  "ds_cancelled_message_ids (snd (note_message_sender r s)) = ds_cancelled_message_ids s"
  "ds_emitted_cancelled_message_ids (snd (note_message_sender r s)) = ds_emitted_cancelled_message_ids s"
  by (simp_all add: note_message_sender_def Let_def split: option.split)

lemma maybe_queue_shared_preamble_cancelled [simp]:
  "ds_cancelled_message_ids (maybe_queue_shared_preamble s) = ds_cancelled_message_ids s"
  by (simp add: maybe_queue_shared_preamble_def)

lemma record_cancelled_keeps [simp]:
  "ds_cancelled_message_ids (snd (record_cancelled_message_ids ids r s)) = ds_cancelled_message_ids s"
  by (simp add: record_cancelled_message_ids_def Let_def)

lemma on_session_simps [simp]:
  "rt_state (dr_rt (on_session f d)) = snd (f (rt_state (dr_rt d)))"
  "dr_kv (on_session f d) = dr_kv d" "dr_stash (on_session f d) = dr_stash d"
  "dr_pending_ids (on_session f d) = dr_pending_ids d"
  "rt_state (dr_rt (session_update g d)) = g (rt_state (dr_rt d))"
  "dr_kv (session_update g d) = dr_kv d" "dr_stash (session_update g d) = dr_stash d"
  "dr_pending_ids (session_update g d) = dr_pending_ids d"
  by (simp_all add: on_session_def session_update_def)

lemma segment_keeps [simp]:
  "ds_cancelled_message_ids (snd (merge_segment p m s)) = ds_cancelled_message_ids s"
  "mt_bootstrap (fst (merge_segment p m s)) = (mt_bootstrap m \<and> pi_bootstrap p)"
  "mt_client_message_ids (fst (merge_segment p m s)) =
     mt_client_message_ids m @ coalesce (pi_client_message_ids p) []"
  by (simp_all add: merge_segment_def Let_def split_beta)

lemma first_segment_keeps [simp]:
  "ds_cancelled_message_ids (snd (first_segment p s)) = ds_cancelled_message_ids s"
  "mt_bootstrap (fst (first_segment p s)) = pi_bootstrap p"
  "mt_client_message_ids (fst (first_segment p s)) = coalesce (pi_client_message_ids p) []"
  by (simp_all add: first_segment_def Let_def split_beta)

section \<open>The merge as a run of the queue\<close>

text \<open>
  The prompts a merge takes: those at the front of the queue, with the cancelled ones left out, up to
  the first item that is no prompt or is a kickoff where the turn is not, or the other way round.
\<close>

fun merged_run :: "bool \<Rightarrow> string set \<Rightarrow> fifo_item list \<Rightarrow> prompt_item list" where
  "merged_run b cancelled (Prompt_item p # rest) =
     (if cancelled_item cancelled (Prompt_item p) then merged_run b cancelled rest
      else if pi_bootstrap p \<noteq> b then [] else p # merged_run b cancelled rest)"
| "merged_run b cancelled _ = []"

definition merge_step :: "prompt_item \<Rightarrow> merged_turn \<times> durable_session_state \<Rightarrow> merged_turn \<times> durable_session_state" where
  "merge_step p ms = merge_segment p (fst ms) (snd ms)"

definition forget_emitted :: "durable_session_state \<Rightarrow> durable_session_state" where
  "forget_emitted s = s\<lparr>ds_emitted_cancelled_message_ids := {}\<rparr>"

lemma apply_sender_attribution_forget [simp]:
  "apply_sender_attribution (forget_emitted s) m t = apply_sender_attribution s m t"
  by (simp add: apply_sender_attribution_def forget_emitted_def)

lemma note_message_sender_forget [simp]:
  "note_message_sender r (forget_emitted s) =
     (fst (note_message_sender r s), forget_emitted (snd (note_message_sender r s)))"
  by (simp add: note_message_sender_def forget_emitted_def Let_def split: option.split)

lemma merge_segment_forget [simp]:
  "merge_segment p m (forget_emitted s) = (fst (merge_segment p m s), forget_emitted (snd (merge_segment p m s)))"
  by (simp add: merge_segment_def Let_def split_beta)

lemma record_cancelled_forget [simp]:
  "forget_emitted (snd (record_cancelled_message_ids ids r s)) = forget_emitted s"
  by (simp add: record_cancelled_message_ids_def forget_emitted_def Let_def)

definition merge_result :: "merged_turn \<times> drain_state \<Rightarrow> merged_turn \<times> durable_session_state" where
  "merge_result r = (fst r, forget_emitted (dr_session (snd r)))"

lemma cancelled_item_iff:
  "cancelled_item (ds_cancelled_message_ids s) (Prompt_item p) =
     prompt_ids_intersect_cancellation s (coalesce (pi_client_message_ids p) [])"
  by (simp add: cancelled_item_def prompt_ids_intersect_cancellation_def)

lemma pop_arrival: "pop_fifo_item kv = Some (x, kv') \<Longrightarrow> fifo_items kv = x # fifo_items kv'"
  using arrival.pop_first [of kv x kv'] by simp

lemma pop_arrival_None: "pop_fifo_item kv = None \<Longrightarrow> fifo_items kv = []"
  using arrival.pop_empty [of kv] by simp

declare merge_prompts.simps [simp del]

lemma merge_prompts_run:
  "merge_result (merge_prompts d m) =
     fold merge_step (merged_run (mt_bootstrap m) (ds_cancelled_message_ids (dr_session d)) (fifo_items (dr_kv d)))
       (m, forget_emitted (dr_session d))"
proof (induction d m rule: merge_prompts.induct)
  case (1 d m)
  note unfold = merge_prompts.simps [of d m]
  show ?case
  proof (cases "pop_fifo_item (dr_kv d)")
    case None
    then show ?thesis by (simp add: unfold merge_result_def pop_arrival_None)
  next
    case (Some r)
    obtain item kv where r: "r = (item, kv)" by (cases r)
    note pop = Some [unfolded r] pop_arrival [OF Some [unfolded r]]
    show ?thesis
    proof (cases item)
      case (Prompt_item p)
      note here = pop [unfolded Prompt_item] unfold cancelled_item_iff
      note IH = 1 [OF here(1) refl refl refl refl]
      show ?thesis
      proof (cases "prompt_ids_intersect_cancellation (dr_session d) (coalesce (pi_client_message_ids p) [])")
        case True
        then show ?thesis using IH(1) by (simp add: here)
      next
        case False
        note not_cancelled = this
        show ?thesis
        proof (cases "pi_bootstrap p = mt_bootstrap m")
          case True
          then show ?thesis using IH(2) not_cancelled by (simp add: here merge_step_def)
        next
          case False
          then show ?thesis using not_cancelled by (simp add: here merge_result_def)
        qed
      qed
    qed (use pop in \<open>simp_all add: unfold merge_result_def\<close>)
  qed
qed

lemma forget_emitted_cancelled [simp]:
  "ds_cancelled_message_ids (forget_emitted s) = ds_cancelled_message_ids s"
  by (simp add: forget_emitted_def)

lemma fold_merge_forget:
  "fold merge_step ps (m, forget_emitted s) =
     (fst (fold merge_step ps (m, s)), forget_emitted (snd (fold merge_step ps (m, s))))"
  by (induction ps arbitrary: m s) (simp_all add: merge_step_def split_beta)

lemma merge_run:
  "fst (merge_prompts d m) =
     fst (fold merge_step
       (merged_run (mt_bootstrap m) (ds_cancelled_message_ids (dr_session d)) (fifo_items (dr_kv d)))
       (m, dr_session d))"
  using merge_prompts_run [of d m] by (simp add: merge_result_def fold_merge_forget split_beta prod_eq_iff)

text \<open>
  C28. The merge loop pops, peeks and puts back, and records what it drops. What it builds is the turn of the
  reference: the segments of the run at the front of the queue, added one after the other in arrival
  order (\<open>decide\<close>, \<open>queue.ts\<close>).
\<close>

theorem merge_is_arrival_run:
  "fst (merge_prompts d m) =
     fst (fold merge_step
       (merged_run (mt_bootstrap m) (ds_cancelled_message_ids (dr_session d)) (fifo_items (dr_kv d)))
       (m, dr_session d))"
  by (rule merge_run)

lemma merge_step_cancelled [simp]:
  "ds_cancelled_message_ids (snd (fold merge_step ps ms)) = ds_cancelled_message_ids (snd ms)"
  by (induction ps arbitrary: ms) (simp_all add: merge_step_def)

lemma merge_prompts_cancelled [simp]:
  "ds_cancelled_message_ids (dr_session (snd (merge_prompts d m))) = ds_cancelled_message_ids (dr_session d)"
proof -
  have "ds_cancelled_message_ids (snd (merge_result (merge_prompts d m))) = ds_cancelled_message_ids (dr_session d)"
    unfolding merge_prompts_run by simp
  then show ?thesis by (simp add: merge_result_def)
qed



lemma sanitize_bound: "length (sanitize_prompt_attachment_refs r) \<le> attachments_max_count"
  by (simp add: sanitize_prompt_attachment_refs_def)


section \<open>A turn from the queue\<close>


lemma coalesce_some_list [simp]: "coalesce (some_list xs) [] = xs"
  by (simp add: some_list_def)









lemma initial_attachments_bound:
  "length (ds_pending_attachments (create_initial_state input options)) \<le> attachments_max_count"
  "length (ds_pending_attachments s) \<le> attachments_max_count \<Longrightarrow>
   length (ds_pending_attachments (apply_legacy_pending_message msg s)) \<le> attachments_max_count"
  using sanitize_bound by (simp_all add: create_initial_state_def apply_legacy_pending_message_def attachments_field_def)


definition user_prompt :: "string \<Rightarrow> string \<Rightarrow> fifo_item" where
  "user_prompt mid body = Prompt_item \<lparr>pi_prompt = body, pi_bootstrap = False, pi_required_tool = None,
     pi_client_message_ids = Some [mid], pi_sender = JUndef, pi_attachments = None\<rparr>"


definition quiet_input :: drain_input where
  "quiet_input = \<lparr>in_now = 0, in_fired_at = 0, in_timer_first = True, in_message = JUndef, in_probe = None,
     in_world = demo_command_world\<rparr>"

definition quiet_decide :: decide_world where
  "quiet_decide = \<lparr>dw_tz_offset = (\<lambda>_ _. 0), dw_now = 0, dw_sweep = (\<lambda>_. quiet_input)\<rparr>"

definition demo_session :: durable_session_runtime where
  "demo_session = \<lparr>rt_input = new_session_input ''s1'' [], rt_options = derive_options (new_session_input ''s1'' []),
     rt_state = new_session_state\<lparr>ds_cancelled_message_ids := {''b''}\<rparr>, rt_current_version = ''1.0.75''\<rparr>"



section \<open>A model switch in the sweep\<close>

definition model_switch :: "jsval \<Rightarrow> bool" where
  "model_switch msg \<longleftrightarrow> truthy msg \<and> \<not> is_cancel msg \<and> jget ''type'' msg = JStr ''cmd'' \<and>
     cm_cmd (command_of msg) = ''set_model'' \<and> trim (text_or_empty (arg ''model'' (command_of msg))) \<noteq> []"

lemma append_nothing [simp]: "append_to_fifo [] kv = kv"
  by (simp add: append_to_fifo_def)

lemma flush_nothing [simp]: "dr_stash d = [] \<Longrightarrow> flush_stash d = d"
  by (simp add: flush_stash_def append_prompt_stash_to_fifo_def Let_def)

lemma drain_start_simps [simp]:
  "dr_kv (drain_start kv rt) = kv" "dr_rt (drain_start kv rt) = rt" "dr_stash (drain_start kv rt) = []"
  "dr_effects (drain_start kv rt) = []"
  by (simp_all add: drain_start_def)

lemma switch_ends_execution:
  "cm_cmd cmd = ''set_model'' \<Longrightarrow> trim (text_or_empty (arg ''model'' cmd)) \<noteq> [] \<Longrightarrow>
   \<exists>can_input. snd (handle_command w cmd rt) = Some can_input"
  by (simp add: handle_command_def set_model_def Let_def)

definition commanded :: "drain_input \<Rightarrow> drain_state \<Rightarrow> drain_state" where
  "commanded i d =
     (let r = fst (handle_command (in_world i) (command_of (in_message i)) (dr_rt d))
      in d\<lparr>dr_rt := snd r, dr_effects := dr_effects d @ fst r\<rparr>)"

lemma receive_model_switch:
  assumes "model_switch (in_message i)" "dr_stash d = []"
  shows "\<exists>can_input. receive source i d = (commanded i d, Ended can_input)"
proof -
  obtain can_input where "snd (handle_command (in_world i) (command_of (in_message i)) (dr_rt d)) = Some can_input"
    using switch_ends_execution assms(1) unfolding model_switch_def by blast
  then have "receive_command i d = (commanded i d, Ended can_input)"
    using assms(2) by (simp add: receive_command_def commanded_def Let_def)
  moreover have "receive source i d = receive_command i d"
    using assms(1) by (simp add: receive_def model_switch_def Let_def)
  ultimately show ?thesis by auto
qed

lemma drain_loop_break:
  "step n d = (d', Break_off) \<Longrightarrow> 0 < fuel \<Longrightarrow> drain_loop step n fuel d = (flush_stash d', None)"
  by (cases fuel) auto

lemma drain_loop_ended:
  "step n d = (d', Ended can_input) \<Longrightarrow> 0 < fuel \<Longrightarrow> drain_loop step n fuel d = (d', Some can_input)"
  by (cases fuel) auto

lemma sweep_model_switch:
  assumes "\<not> in_timer_first (w 0)" "model_switch (in_message (w 0))"
  shows "\<exists>can_input. sweep_messages_before_prompt_dispatch w kv rt =
    (commanded (w 0) (drain_start kv rt), Some can_input)"
proof -
  obtain can_input where "receive Before_dispatch (w 0) (drain_start kv rt) = (commanded (w 0) (drain_start kv rt), Ended can_input)"
    using receive_model_switch [OF assms(2)] by fastforce
  then show ?thesis using assms(1)
    by (auto simp: sweep_messages_before_prompt_dispatch_def max_predispatch_sweep_def intro!: drain_loop_ended)
qed

lemma commanded_kv [simp]: "dr_kv (commanded i d) = dr_kv d"
  by (simp add: commanded_def Let_def)

lemma drain_state_kept [simp]: "d\<lparr>dr_rt := dr_rt d, dr_effects := dr_effects d\<rparr> = d"
  by simp

lemma clear_no_actions:
  "ds_pending_tool_actions (dr_session d) = [] \<Longrightarrow> session_update (\<lambda>s. s\<lparr>ds_pending_tool_actions := []\<rparr>) d = d"
  by (simp add: session_update_def on_session_def)

text \<open>
  A prompt that \<open>decide\<close> has popped is lost when the sweep before its dispatch finds a model switch:
  \<open>set_model\<close> continues as new at once, the prompt is no longer in the queue, and the input of the next
  execution is the same whatever it said. Its ids stay among the recent ones, so a retry is a duplicate
  (\<open>sweepMessagesBeforePromptDispatch\<close>, \<open>queue.ts\<close>).
\<close>

theorem predispatch_model_switch_loses_prompt:
  assumes "pop_next_dispatch_fifo_item (dr_kv d) = Some (Prompt_item p, kv)"
    "pi_client_message_ids p = Some ids" "ids \<noteq> []"
    "ds_pending_tool_actions (dr_session d) = []" "ds_pending_prompt (dr_session d) = None"
    "\<not> in_timer_first (dw_sweep w 0)" "model_switch (in_message (dw_sweep w 0))"
  shows "\<exists>can_input d'. decide w d = (Execution_ended can_input, d') \<and> dr_kv d' = kv \<and>
    (\<forall>body. dispatch_prompt w (p\<lparr>pi_prompt := body\<rparr>) (d\<lparr>dr_kv := kv\<rparr>) = (Execution_ended can_input, d'))"
proof -
  define d0 where "d0 = d\<lparr>dr_kv := kv\<rparr>"
  obtain can_input where "sweep_messages_before_prompt_dispatch (dw_sweep w) (dr_kv d0) (dr_rt d0) =
      (commanded (dw_sweep w 0) (drain_start (dr_kv d0) (dr_rt d0)), Some can_input)" (is "_ = (?swept, _)")
    using sweep_model_switch [of "dw_sweep w", OF assms(6,7)] by blast
  then have r: "dispatch_prompt w (p\<lparr>pi_prompt := body\<rparr>) d0 =
      (Execution_ended can_input, d0\<lparr>dr_kv := dr_kv ?swept, dr_rt := dr_rt ?swept,
         dr_effects := dr_effects d0 @ dr_effects ?swept\<rparr>)" for body
    using assms(2,3) by (simp add: dispatch_prompt_def)
  have "decide w d = dispatch_prompt w (p\<lparr>pi_prompt := pi_prompt p\<rparr>) d0"
    using assms(1,4,5) by (simp add: decide_def clear_no_actions decide_queued_def dispatch_item_def d0_def Let_def)
  moreover have "dr_kv ?swept = kv" by (simp add: d0_def)
  ultimately show ?thesis unfolding d0_def [symmetric] r by simp
qed

section \<open>A cancellation forgotten\<close>

lemma drain_start_again:
  "(drain_start kv rt)\<lparr>dr_kv := kv', dr_rt := rt, dr_effects := []\<rparr> = (drain_start kv rt)\<lparr>dr_kv := kv'\<rparr>"
  by (simp add: drain_start_def)

lemma quiet_sweep:
  "in_timer_first (w 0) \<Longrightarrow> sweep_messages_before_prompt_dispatch w kv rt = (drain_start kv rt, None)"
  by (simp add: sweep_messages_before_prompt_dispatch_def max_predispatch_sweep_def drain_loop_break)

lemma single_prompt_dispatch:
  assumes "fifo_items kv = [Prompt_item p]"
  obtains kv' where "pop_next_dispatch_fifo_item kv = Some (Prompt_item p, kv')" "fifo_items kv' = []"
proof -
  obtain x kv' where x: "pop_next_dispatch_fifo_item kv = Some (x, kv')"
    using assms dispatch.pop_empty [of kv] by (cases "pop_next_dispatch_fifo_item kv") auto
  have "fifo_items kv = x # fifo_items kv'"
    using dispatch.pop_urgent [OF x] dispatch.pop_first [OF x] assms by (auto simp: Cons_eq_append_conv)
  then show ?thesis using that x assms by simp
qed

lemma start_merged_turn_alone:
  assumes "fifo_items (dr_kv d) = []"
  shows "\<exists>t d'. start_merged_turn p d = (Start_turn t, d') \<and>
    tr_client_message_ids t = some_list (coalesce (pi_client_message_ids p) [])"
proof -
  have "pop_fifo_item (dr_kv d) = None" using assms arrival.pop_empty [of "dr_kv d"] by simp
  then have "merge_prompts (session_update f d) m = (m, session_update f d)" for f m
    by (simp add: merge_prompts.simps)
  then show ?thesis by (simp add: start_merged_turn_def Let_def split_beta merged_request_def)
qed

definition fresh_dispatch :: "durable_session_state \<Rightarrow> bool" where
  "fresh_dispatch s \<longleftrightarrow> ds_pending_tool_actions s = [] \<and> ds_pending_prompt s = None \<and> ds_orchestration_result s = None"

lemma quiet_dispatch:
  assumes "fifo_items kv = [Prompt_item p]" "pi_client_message_ids p = Some [mid]" "in_timer_first (dw_sweep w 0)"
    "fresh_dispatch (rt_state rt)"
  shows "if mid \<in> ds_cancelled_message_ids (rt_state rt) then fst (decide w (drain_start kv rt)) = Work_done
    else \<exists>t. fst (decide w (drain_start kv rt)) = Start_turn t \<and> tr_client_message_ids t = Some [mid]"
proof -
  obtain kv' where kv': "pop_next_dispatch_fifo_item kv = Some (Prompt_item p, kv')" "fifo_items kv' = []"
    using single_prompt_dispatch [OF assms(1)] .
  define d where "d = (drain_start kv rt)\<lparr>dr_kv := kv'\<rparr>"
  have "decide w (drain_start kv rt) = dispatch_prompt w p d"
    using assms(4) kv'(1)
    by (simp add: fresh_dispatch_def decide_def clear_no_actions decide_queued_def dispatch_item_def Let_def d_def)
      (simp add: drain_start_def)
  also have "\<dots> = (if prompt_ids_intersect_cancellation (rt_state rt) [mid]
      then (Work_done, on_session (record_cancelled_message_ids [mid] ''decide-fifo'') d) else start_merged_turn p d)"
    using assms(2-4) quiet_sweep [of "dw_sweep w"]
    by (simp add: dispatch_prompt_def d_def fresh_dispatch_def drain_start_again)
  finally show ?thesis
    using start_merged_turn_alone [of d p] kv'(2) assms(2)
    by (auto simp: prompt_ids_intersect_cancellation_def d_def some_list_def)
qed

text \<open>The next execution, started on the input of a continue-as-new.\<close>

definition started_on :: "int \<Rightarrow> durable_session_runtime \<Rightarrow> orchestration_input \<Rightarrow> durable_session_runtime" where
  "started_on now rt can_input = build_runtime now (ds_last_response_version (rt_state rt))
     (ds_last_command_version (rt_state rt)) (rt_current_version rt) can_input"

definition continued :: "int \<Rightarrow> int \<Rightarrow> durable_session_runtime \<Rightarrow> durable_session_runtime" where
  "continued t0 t1 rt = started_on t1 rt (versioned_continue_as_new t0 rt (build_continue_input rt no_overrides))"

lemma restore_active_timer_keeps [simp]:
  "ds_cancelled_message_ids (restore_active_timer n i s) = ds_cancelled_message_ids s"
  "ds_pending_tool_actions (restore_active_timer n i s) = ds_pending_tool_actions s"
  "ds_pending_prompt (restore_active_timer n i s) = ds_pending_prompt s"
  "ds_orchestration_result (restore_active_timer n i s) = ds_orchestration_result s"
  "ds_waiting_for_agent_ids (restore_active_timer n i s) = ds_waiting_for_agent_ids s"
  "ds_regen (restore_active_timer n i s) = ds_regen s"
  "ds_pending_input_question (restore_active_timer n i s) = ds_pending_input_question s"
  "ds_pending_child_digest (restore_active_timer n i s) = ds_pending_child_digest s"
  "ds_legacy_pending_message (restore_active_timer n i s) = ds_legacy_pending_message s"
  "ds_loop_iteration (restore_active_timer n i s) = ds_loop_iteration s"
  "oi_active_timer_state i = None \<Longrightarrow> ds_active_timer (restore_active_timer n i s) = ds_active_timer s"
  by (simp_all add: restore_active_timer_def split: option.split)

lemma versioned_continue_keeps [simp]:
  "oi_prompt (versioned_continue_as_new n rt i) = oi_prompt i"
  "oi_pending_tool_actions (versioned_continue_as_new n rt i) = oi_pending_tool_actions i"
  "oi_waiting_for_agent_ids (versioned_continue_as_new n rt i) = oi_waiting_for_agent_ids i"
  "oi_regen (versioned_continue_as_new n rt i) = oi_regen i"
  "oi_pending_input_question (versioned_continue_as_new n rt i) = oi_pending_input_question i"
  "oi_pending_child_digest (versioned_continue_as_new n rt i) = oi_pending_child_digest i"
  "ds_active_timer (rt_state rt) = None \<Longrightarrow>
     oi_active_timer_state (versioned_continue_as_new n rt i) = oi_active_timer_state i"
  by (simp_all add: versioned_continue_as_new_def split: option.split)

lemma started_on_fields:
  "ds_cancelled_message_ids (rt_state (started_on n rt i)) = {}"
  "ds_pending_tool_actions (rt_state (started_on n rt i)) = coalesce (oi_pending_tool_actions i) []"
  "ds_pending_prompt (rt_state (started_on n rt i)) = oi_prompt i"
  "ds_orchestration_result (rt_state (started_on n rt i)) = None"
  "ds_waiting_for_agent_ids (rt_state (started_on n rt i)) = oi_waiting_for_agent_ids i"
  "ds_regen (rt_state (started_on n rt i)) = oi_regen i"
  "ds_pending_input_question (rt_state (started_on n rt i)) = oi_pending_input_question i"
  "ds_pending_child_digest (rt_state (started_on n rt i)) = oi_pending_child_digest i"
  "ds_legacy_pending_message (rt_state (started_on n rt i)) = JUndef"
  "ds_loop_iteration (rt_state (started_on n rt i)) = 0"
  "oi_active_timer_state i = None \<Longrightarrow> ds_active_timer (rt_state (started_on n rt i)) = None"
  by (simp_all add: started_on_def build_runtime_def Let_def create_initial_state_def)

lemma continue_input_fields:
  assumes "ov_rest ov = id"
  shows "oi_prompt (build_continue_input rt ov) = if_truthy (prompt_for_input (rt_state rt) ov)"
    "oi_pending_tool_actions (build_continue_input rt ov) = if_nonempty (ds_pending_tool_actions (rt_state rt))"
    "oi_waiting_for_agent_ids (build_continue_input rt ov) = ds_waiting_for_agent_ids (rt_state rt)"
    "oi_regen (build_continue_input rt ov) = ds_regen (rt_state rt)"
    "oi_pending_input_question (build_continue_input rt ov) = ds_pending_input_question (rt_state rt)"
    "oi_pending_child_digest (build_continue_input rt ov) = ds_pending_child_digest (rt_state rt)"
    "oi_active_timer_state (build_continue_input rt ov) = None"
  using assms by (simp_all add: build_continue_input_def Let_def)

lemma no_overrides_rest [simp]: "ov_rest no_overrides = id"
  by (simp add: no_overrides_def fun_eq_iff)

text \<open>
  A cancellation does not outlive the execution that received it: the queue survives a continue-as-new,
  the set of cancelled ids does not. A queued prompt that the old execution would drop is the new one's
  next turn (\<open>createInitialState\<close> of \<open>state.ts\<close>, \<open>decide\<close>).
\<close>

theorem continue_as_new_forgets_cancellation:
  assumes "fifo_items kv = [Prompt_item p]" "pi_client_message_ids p = Some [mid]" "in_timer_first (dw_sweep w 0)"
    "fresh_dispatch (rt_state rt)" "ds_pending_system_prompt (rt_state rt) = None"
    "mid \<in> ds_cancelled_message_ids (rt_state rt)"
  shows "fst (decide w (drain_start kv rt)) = Work_done \<and>
    (\<exists>t. fst (decide w (drain_start kv (continued t0 t1 rt))) = Start_turn t \<and> tr_client_message_ids t = Some [mid])"
proof -
  have "prompt_for_input (rt_state rt) no_overrides = None"
    using assms(4,5) by (simp add: fresh_dispatch_def prompt_for_input_def carried_prompt_def
        carried_system_prompt_def no_overrides_def)
  then have "fresh_dispatch (rt_state (continued t0 t1 rt))" "ds_cancelled_message_ids (rt_state (continued t0 t1 rt)) = {}"
    using assms(4) by (simp_all add: fresh_dispatch_def continued_def started_on_fields continue_input_fields if_truthy_def)
  then show ?thesis
    using quiet_dispatch [where w = w, OF assms(1-3)] assms(4,6) by (metis empty_iff)
qed

section \<open>A model switch during a wait for agents\<close>

text \<open>
  A session that waits for its agents with a prompt pending and no timer: it has work, so it does not
  block; the work is held until the wait is over; and nothing is left that would end the wait but a
  report of a child.
\<close>

definition held :: "durable_session_state \<Rightarrow> bool" where
  "held s \<longleftrightarrow> ds_waiting_for_agent_ids s \<noteq> None \<and> truthy_str (ds_pending_prompt s) \<and> ds_active_timer s = None \<and>
     ds_regen s = None \<and> ds_pending_tool_actions s = [] \<and> ds_legacy_pending_message s = JUndef \<and>
     ds_orchestration_result s = None \<and> ds_pending_input_question s = None \<and> ds_pending_child_digest s = None"

definition quiet_pass :: "pass_world \<Rightarrow> bool" where
  "quiet_pass w \<longleftrightarrow> in_timer_first (pw_drain w 0)"

lemma held_drain_step:
  assumes "held (dr_session d)" "in_timer_first i"
  shows "drain_step 0 i d = (d, Break_off)"
  using assms by (simp add: held_def drain_step_def needs_blocking_dequeue_def digest_collecting_def Let_def)

lemma held_decide:
  assumes "held (dr_session d)" "fifo_items (dr_kv d) = []"
  shows "decide w d = (Nothing_to_do, d)"
  using assms dispatch.pop_empty [of "dr_kv d"]
  by (simp add: held_def decide_def clear_no_actions decide_queued_def has_ready_pending_child_digest_def Let_def)

lemma held_pass:
  assumes "held (rt_state rt)" "ds_loop_iteration (rt_state rt) = 0" "fifo_items kv = []" "quiet_pass w"
  shows "\<exists>rt'. run_pass w kv rt = (plain_continue (pw_now w) (drain_start kv rt'), drain_start kv rt') \<and>
    held (rt_state rt')"
proof -
  define rt' where "rt' = rt\<lparr>rt_state := (rt_state rt)\<lparr>ds_loop_iteration := 1\<rparr>\<rparr>"
  have held: "held (dr_session (drain_start kv rt'))" using assms(1) by (simp add: rt'_def held_def)
  have "drain (pw_drain w) kv rt' = (drain_start kv rt', None)"
    using held_drain_step [OF held] assms(4)
    by (simp add: drain_def max_drain_per_turn_def quiet_pass_def drain_loop_break)
  moreover have "decide (pw_decide w) (drain_start kv rt') = (Nothing_to_do, drain_start kv rt')"
    using held_decide [OF held] assms(3) by simp
  moreover have "\<not> history_full w 1" by (simp add: history_full_def history_check_interval_def)
  ultimately have "run_pass w kv rt = (after_decide (pw_now w) Nothing_to_do (drain_start kv rt'), drain_start kv rt')"
    using held assms(2) by (simp add: run_pass_def max_iterations_per_execution_def held_def flip: rt'_def)
  moreover have "after_decide (pw_now w) Nothing_to_do (drain_start kv rt') = plain_continue (pw_now w) (drain_start kv rt')"
    using held by (simp add: after_decide_def finished_or_def held_def)
  ultimately show ?thesis using held by auto
qed

lemma truthy_if_truthy [simp]: "truthy_str (if_truthy s) = truthy_str s"
  by (cases s) (simp_all add: if_truthy_def)

lemma held_prompt:
  assumes "truthy_str (ds_pending_prompt s)"
  shows "prompt_for_input s no_overrides = ds_pending_prompt s"
  using assms by (cases "ds_pending_prompt s")
    (simp_all add: prompt_for_input_def carried_prompt_def no_overrides_def)

lemma held_continues:
  assumes "held (rt_state rt)"
  shows "held (rt_state (continued t0 t1 rt))" "ds_loop_iteration (rt_state (continued t0 t1 rt)) = 0"
  using assms held_prompt [of "rt_state rt"]
  by (simp_all add: held_def continued_def started_on_fields continue_input_fields if_nonempty_def)

text \<open>Whole executions, each from the input of the last one's continue-as-new; \<open>None\<close> when one does anything else.\<close>

fun run_executions ::
  "(nat \<Rightarrow> pass_world) \<Rightarrow> fifo_kv \<Rightarrow> nat \<Rightarrow> durable_session_runtime \<Rightarrow> durable_session_runtime option" where
  "run_executions w kv 0 rt = Some rt"
| "run_executions w kv (Suc n) rt =
     (case run_executions w kv n rt of
        None \<Rightarrow> None
      | Some rt' \<Rightarrow>
          (case run_pass (w n) kv rt' of
             (Continued_as_new can_input, d) \<Rightarrow> Some (started_on (pw_now (w n)) (dr_rt d) can_input)
           | _ \<Rightarrow> None))"

lemma held_forever:
  assumes "held (rt_state rt)" "ds_loop_iteration (rt_state rt) = 0" "fifo_items kv = []" "\<And>n. quiet_pass (w n)"
  shows "\<exists>rt'. run_executions w kv n rt = Some rt' \<and> held (rt_state rt') \<and> ds_loop_iteration (rt_state rt') = 0"
proof (induction n)
  case (Suc n)
  then obtain rt' where rt': "run_executions w kv n rt = Some rt'" "held (rt_state rt')" "ds_loop_iteration (rt_state rt') = 0"
    by blast
  obtain rt2 where "run_pass (w n) kv rt' = (plain_continue (pw_now (w n)) (drain_start kv rt2), drain_start kv rt2)"
    "held (rt_state rt2)"
    using held_pass [OF rt'(2,3) assms(3,4)] by blast
  then show ?case using rt'(1) held_continues [of rt2 "pw_now (w n)" "pw_now (w n)"]
    by (simp add: plain_continue_def continued_def)
qed (use assms in simp)

text \<open>All of \<open>held\<close> but the prompt: what the session is like while it waits, its poll timer aside.\<close>

definition only_waiting :: "durable_session_state \<Rightarrow> bool" where
  "only_waiting s \<longleftrightarrow> ds_waiting_for_agent_ids s \<noteq> None \<and> ds_regen s = None \<and> ds_pending_tool_actions s = [] \<and>
     ds_pending_input_question s = None \<and> ds_pending_child_digest s = None"

lemma answer_keeps_waiting [simp]:
  "only_waiting (snd (answer_and_publish sid r st extra s)) = only_waiting s"
  "ds_active_timer (snd (answer_and_publish sid r st extra s)) = ds_active_timer s"
  by (simp_all add: answer_and_publish_def write_command_response_def only_waiting_def Let_def)

lemma capture_keeps_waiting:
  "only_waiting (capture_model_switch_interrupted_timer n s) = only_waiting s"
  "ds_active_timer (capture_model_switch_interrupted_timer n s) = None"
  by (auto simp: capture_model_switch_interrupted_timer_def only_waiting_def Let_def
      split: option.split timer_type.split)

lemma ends_with_bracket: "ends_with [c] (s @ [d]) \<longleftrightarrow> c = d"
  by (simp add: ends_with_def)

lemma extract_plain:
  assumes "s \<noteq> []" "trim s = s" "\<not> starts_with system_open s" "\<not> ends_with '']'' (trim_end s)"
  shows "ep_prompt (extract_prompt_system_context (Some s)) = Some s"
  using assms by (simp add: extract_prompt_system_context_def Let_def split: option.split)

lemma continue_prompt_plain:
  "ep_prompt (extract_prompt_system_context (Some (''Continue on '' @ label @ ''.''))) = Some (''Continue on '' @ label @ ''.'')"
proof (rule extract_plain)
  have t: "trim_end (''Continue on '' @ label @ ''.'') = ''Continue on '' @ label @ ''.''"
    by (simp add: trim_end_def is_ws_def)
  show "\<not> ends_with '']'' (trim_end (''Continue on '' @ label @ ''.''))"
    unfolding t using ends_with_bracket [of "CHR '']''" "''Continue on '' @ label"] by simp
  show "trim (''Continue on '' @ label @ ''.'') = ''Continue on '' @ label @ ''.''"
    by (rule trim_id) (simp add: is_ws_def)
qed (simp_all add: system_open_def)

lemma merge_prompt_truthy: "truthy_str b \<Longrightarrow> truthy_str (merge_prompt a b)"
  by (cases a; cases b) (auto simp: merge_prompt_def)

lemma switched_input:
  fixes rt q
  defines "can_input \<equiv> build_continue_input_with_prompt rt (Some q) (no_overrides\<lparr>ov_bootstrap_prompt := Some True\<rparr>)"
  assumes "ep_prompt (extract_prompt_system_context (Some q)) = Some q" "q \<noteq> []"
    "only_waiting (rt_state rt)" "ds_active_timer (rt_state rt) = None"
  shows "held (rt_state (started_on t1 rt0 (versioned_continue_as_new t0 rt can_input)))"
proof -
  define ov where "ov = no_overrides\<lparr>ov_bootstrap_prompt := Some True,
    ov_prompt := if_truthy (merge_prompt (ds_pending_prompt (rt_state rt)) (Some q)),
    ov_system_prompt := if_truthy (merge_prompt (ds_pending_system_prompt (rt_state rt))
      (ep_system_prompt (extract_prompt_system_context (Some q))))\<rparr>"
  have can_input: "can_input = build_continue_input rt ov"
    by (simp add: can_input_def build_continue_input_with_prompt_def ov_def Let_def no_overrides_def assms(2))
  have ov: "ov_rest ov = id" by (simp add: ov_def)
  have "truthy_str (ov_prompt ov)" using assms(3) by (simp add: ov_def merge_prompt_truthy)
  then have "truthy_str (prompt_for_input (rt_state rt) ov)"
    by (cases "ov_prompt ov") (simp_all add: prompt_for_input_def carried_prompt_def)
  then show ?thesis
    using assms(4,5)
    by (simp add: held_def only_waiting_def can_input started_on_fields continue_input_fields [OF ov] if_nonempty_def)
qed

lemma only_waiting_model [simp]:
  "only_waiting (s\<lparr>ds_config := c, ds_runtime_model_notice := n\<rparr>) = only_waiting s"
  by (simp add: only_waiting_def)

lemma rt_state_updated: "rt_state (rt\<lparr>rt_state := s\<rparr>) = s"
  by simp

lemma set_model_shape:
  assumes "trim (text_or_empty (arg ''model'' cmd)) \<noteq> []"
  shows "\<exists>rt' label.
    snd (set_model now cmd rt) = Some (versioned_continue_as_new now rt'
      (build_continue_input_with_prompt rt' (Some (''Continue on '' @ label @ ''.''))
        (no_overrides\<lparr>ov_bootstrap_prompt := Some True\<rparr>))) \<and>
    only_waiting (rt_state rt') = only_waiting (rt_state rt) \<and> ds_active_timer (rt_state rt') = None"
  apply (simp only: set_model_def Let_def assms if_False followed_by_def update_state_def fst_conv snd_conv)
  apply (intro exI conjI, rule refl)
   apply (simp_all only: rt_state_updated answer_keeps_waiting capture_keeps_waiting only_waiting_model)
  done

lemma model_switch_holds:
  assumes "cm_cmd cmd = ''set_model''" "trim (text_or_empty (arg ''model'' cmd)) \<noteq> []" "only_waiting (rt_state rt)"
    "snd (handle_command w cmd rt) = Some can_input"
  shows "held (rt_state (started_on t1 rt0 can_input))"
proof -
  have "snd (set_model (cw_now w) cmd rt) = Some can_input" using assms(1,4) by (simp add: handle_command_def Let_def)
  then obtain rt' label where c: "can_input = versioned_continue_as_new (cw_now w) rt'
      (build_continue_input_with_prompt rt' (Some (''Continue on '' @ label @ ''.''))
        (no_overrides\<lparr>ov_bootstrap_prompt := Some True\<rparr>))"
    and rt': "only_waiting (rt_state rt')" "ds_active_timer (rt_state rt') = None"
    using set_model_shape [OF assms(2), of "cw_now w" rt] assms(3) by (auto simp only: option.inject)
  show ?thesis unfolding c by (rule switched_input [OF continue_prompt_plain _ rt']) simp
qed

text \<open>
  C40. A model switch during a wait for agents leaves a session that spins: it stops the poll timer, keeps
  the wait and queues a prompt that the wait holds back. While nothing arrives, every execution finds
  work that it may not do, does not block and continues as new at once, so any number of executions
  passes without a turn (\<open>set_model\<close> of \<open>lifecycle.ts\<close>, \<open>decide\<close>, \<open>runLoop\<close>).
\<close>

theorem model_switch_spins:
  assumes "cm_cmd cmd = ''set_model''" "trim (text_or_empty (arg ''model'' cmd)) \<noteq> []" "only_waiting (rt_state rt)"
    "snd (handle_command cw cmd rt) = Some can_input"
    "fifo_items kv = []" "\<forall>k. quiet_pass (w k)"
  shows "\<exists>rt'. run_executions w kv n (started_on t1 rt can_input) = Some rt' \<and> held (rt_state rt')"
proof -
  have "held (rt_state (started_on t1 rt can_input))" by (rule model_switch_holds [OF assms(1-4)])
  moreover have "ds_loop_iteration (rt_state (started_on t1 rt can_input)) = 0" by (simp add: started_on_fields)
  ultimately show ?thesis using held_forever assms(5,6) by blast
qed

section \<open>Examples\<close>

definition switch_message :: jsval where
  "switch_message = JObj [(''type'', JStr ''cmd''), (''cmd'', JStr ''set_model''), (''id'', JStr ''c1''),
     (''args'', JObj [(''model'', JStr ''m2'')])]"

definition alone_queue :: fifo_kv where
  "alone_queue = (\<lambda>i. if i = 0 then Some [user_prompt ''a'' ''one''] else None)"

definition switching_decide :: decide_world where
  "switching_decide = quiet_decide\<lparr>dw_sweep := (\<lambda>_. quiet_input\<lparr>in_timer_first := False, in_message := switch_message\<rparr>)\<rparr>"

theorem predispatch_model_switch_loses_prompt_witness:
  "\<exists>can_input d'. decide switching_decide (drain_start alone_queue demo_session) = (Execution_ended can_input, d') \<and>
     fifo_items (dr_kv d') = []"
proof -
  define p where "p = \<lparr>pi_prompt = ''one'', pi_bootstrap = False, pi_required_tool = None,
     pi_client_message_ids = Some [''a''], pi_sender = JUndef, pi_attachments = None\<rparr>"
  have "fifo_items alone_queue = [user_prompt ''a'' ''one'']" by code_simp
  then have "fifo_items (dr_kv (drain_start alone_queue demo_session)) = [Prompt_item p]"
    by (simp add: user_prompt_def p_def)
  then obtain kv where kv: "pop_next_dispatch_fifo_item (dr_kv (drain_start alone_queue demo_session)) = Some (Prompt_item p, kv)"
    "fifo_items kv = []"
    by (rule single_prompt_dispatch)
  have "ds_pending_tool_actions (dr_session (drain_start alone_queue demo_session)) = []"
    "ds_pending_prompt (dr_session (drain_start alone_queue demo_session)) = None"
    "\<not> in_timer_first (dw_sweep switching_decide 0)" "model_switch (in_message (dw_sweep switching_decide 0))"
    by code_simp+
  then show ?thesis
    using predispatch_model_switch_loses_prompt [OF kv(1), of "[''a'']" switching_decide] kv(2) by (auto simp: p_def)
qed

definition cancelling_session :: durable_session_runtime where
  "cancelling_session = demo_session\<lparr>rt_state := new_session_state\<lparr>ds_cancelled_message_ids := {''a''}\<rparr>\<rparr>"

theorem continue_as_new_forgets_cancellation_witness:
  "fst (decide quiet_decide (drain_start alone_queue cancelling_session)) = Work_done \<and>
   (\<exists>t. fst (decide quiet_decide (drain_start alone_queue (continued 0 1 cancelling_session))) = Start_turn t)"
proof -
  have "fifo_items alone_queue = [user_prompt ''a'' ''one'']" by code_simp
  then have q: "fifo_items alone_queue = [Prompt_item \<lparr>pi_prompt = ''one'', pi_bootstrap = False, pi_required_tool = None,
     pi_client_message_ids = Some [''a''], pi_sender = JUndef, pi_attachments = None\<rparr>]"
    by (simp add: user_prompt_def)
  have "in_timer_first (dw_sweep quiet_decide 0)" "fresh_dispatch (rt_state cancelling_session)"
    "ds_pending_system_prompt (rt_state cancelling_session) = None"
    "''a'' \<in> ds_cancelled_message_ids (rt_state cancelling_session)"
    by code_simp+
  then show ?thesis
    using continue_as_new_forgets_cancellation [OF q, of "''a''" quiet_decide cancelling_session 0 1] by auto
qed

definition waiting_session :: durable_session_runtime where
  "waiting_session = demo_session\<lparr>rt_state := new_session_state\<lparr>ds_waiting_for_agent_ids := Some [''child-1''],
     ds_active_timer := Some (new_timer Timer_agent_poll 30000 30000 ''polling'')\<rparr>\<rparr>"

definition quiet_world :: pass_world where
  "quiet_world = \<lparr>pw_now = 0, pw_history_bytes = None, pw_drain = (\<lambda>_. quiet_input), pw_regen = failing_world,
     pw_decide = quiet_decide\<rparr>"

theorem model_switch_spins_witness:
  "\<exists>can_input rt'. snd (handle_command demo_command_world (command_of switch_message) waiting_session) = Some can_input \<and>
     run_executions (\<lambda>_. quiet_world) (\<lambda>_. None) 1000 (started_on 0 waiting_session can_input) = Some rt'"
proof -
  have c: "cm_cmd (command_of switch_message) = ''set_model''"
    "trim (text_or_empty (arg ''model'' (command_of switch_message))) \<noteq> []" "only_waiting (rt_state waiting_session)"
    "quiet_pass quiet_world"
    by code_simp+
  have q: "fifo_items (\<lambda>_. None) = []" by code_simp
  obtain can_input where i: "snd (handle_command demo_command_world (command_of switch_message) waiting_session) = Some can_input"
    using switch_ends_execution [OF c(1,2)] by blast
  have "\<exists>rt'. run_executions (\<lambda>_. quiet_world) (\<lambda>_. None) 1000 (started_on 0 waiting_session can_input) = Some rt' \<and>
      held (rt_state rt')"
    by (rule model_switch_spins [OF c(1-3) i q]) (simp add: c(4))
  then show ?thesis using i by blast
qed

end
