(* ===== verification/OrchRetry.thy ===== *)
theory OrchRetry
  imports OrchDrain
begin

text \<open>
  What a turn that fails does (\<open>packages/sdk/src/orchestration/turn.ts\<close>, lines 58 to 309; the error
  texts of \<open>utils.ts\<close>; \<open>writeLatestResponse\<close> and \<open>maybeSummarize\<close> of \<open>lifecycle.ts\<close>): the classes of
  errors, the retry by a new execution with its prompt, and the failures that are not retried.

  A step of a turn yields effects, changes the runtime, and goes on, continues as new or throws.
  Every \<open>ctx.utcNow()\<close> of one turn reads \<open>tw_now\<close>, except the one after a retry's sleep.
\<close>

section \<open>Steps of a turn\<close>

datatype turn_flow = Turn_over | Turn_continued orchestration_input | Turn_failed string

type_synonym turn_step = "(orch_effect list \<times> durable_session_runtime) \<times> turn_flow"

definition and_then :: "turn_step \<Rightarrow> (durable_session_runtime \<Rightarrow> turn_step) \<Rightarrow> turn_step" where
  "and_then m f =
     (case m of
        ((effects, rt), Turn_over) \<Rightarrow> ((effects @ fst (fst (f rt)), snd (fst (f rt))), snd (f rt))
      | _ \<Rightarrow> m)"

definition acting ::
  "(durable_session_state \<Rightarrow> orch_effect list \<times> durable_session_state) \<Rightarrow> durable_session_runtime \<Rightarrow> turn_step" where
  "acting f rt = ((fst (f (rt_state rt)), rt\<lparr>rt_state := snd (f (rt_state rt))\<rparr>), Turn_over)"

definition yielding :: "orch_effect list \<Rightarrow> durable_session_runtime \<Rightarrow> turn_step" where
  "yielding effects rt = ((effects, rt), Turn_over)"

definition publishing :: "string \<Rightarrow> config_obj \<Rightarrow> durable_session_runtime \<Rightarrow> turn_step" where
  "publishing status extra rt = yielding [publish_status (rt_state rt) status extra] rt"

text \<open>
  What the runtime answers during a turn: its clock and guids, whether a message to the parent gets
  through, and the children \<open>listChildSessions\<close> returns, \<open>None\<close> if it throws.
\<close>

record turn_world =
  tw_now :: int
  tw_later :: int
  tw_guid :: string
  tw_tz_offset :: "string \<Rightarrow> int \<Rightarrow> int"
  tw_parent_down :: bool
  tw_children :: "child_session list option"

section \<open>Writing the latest response\<close>

text \<open>As with commands, the response counter of the key-value store is the state's copy of it.\<close>

definition write_latest_response ::
  "int \<Rightarrow> config_obj \<Rightarrow> durable_session_state \<Rightarrow> orch_effect list \<times> durable_session_state" where
  "write_latest_response now payload state =
     (let version = ds_last_response_version state + 1
      in ([Response_written version now payload], state\<lparr>ds_last_response_version := version\<rparr>))"

definition release_affinity_for ::
  "string \<Rightarrow> string \<Rightarrow> string \<Rightarrow> config_obj \<Rightarrow> durable_session_state \<Rightarrow>
   orch_effect list \<times> durable_session_state" where
  "release_affinity_for sid new_guid reason event_data state =
     ([Event_recorded sid ''session.affinity_released''
         ([(''reason'', JStr reason), (''snapshotVersion'', JNum (of_int (ds_snapshot_version state)))] @ event_data)],
      state\<lparr>ds_active_timer := None, ds_affinity_key := new_guid\<rparr>)"

definition first_summarize_delay :: int where "first_summarize_delay = 60000"
definition repeat_summarize_delay :: int where "repeat_summarize_delay = 300000"

definition maybe_summarize ::
  "durable_session_options \<Rightarrow> int \<Rightarrow> durable_session_state \<Rightarrow> orch_effect list \<times> durable_session_state" where
  "maybe_summarize options now state =
     (if do_is_system options then ([], state)
      else if ds_next_summarize_at state = 0
      then ([], state\<lparr>ds_next_summarize_at := now + first_summarize_delay\<rparr>)
      else if now < ds_next_summarize_at state then ([], state)
      else ([Session_summarized], state\<lparr>ds_next_summarize_at := now + repeat_summarize_delay\<rparr>))"

section \<open>Classes of errors\<close>

text \<open>\<open>\bphrase\b\<close>, case-insensitive, of a lower-case phrase that begins and ends with word characters.\<close>

definition word_char :: "char \<Rightarrow> bool" where
  "word_char c \<longleftrightarrow> is_digit c \<or> c = CHR ''_'' \<or>
     (let n = of_char c :: nat in 65 \<le> n \<and> n \<le> 90 \<or> 97 \<le> n \<and> n \<le> 122)"

definition lower_ascii :: "char \<Rightarrow> char" where
  "lower_ascii c = (let n = of_char c :: nat in if 65 \<le> n \<and> n \<le> 90 then char_of (n + 32) else c)"

fun has_phrase :: "string \<Rightarrow> bool \<Rightarrow> string \<Rightarrow> bool" where
  "has_phrase phrase after_word [] = False"
| "has_phrase phrase after_word (c # cs) =
     (\<not> after_word \<and> starts_with phrase (map lower_ascii (c # cs)) \<and>
        (case drop (length phrase) (c # cs) of [] \<Rightarrow> True | d # _ \<Rightarrow> \<not> word_char d) \<or>
      has_phrase phrase (word_char c) cs)"

definition is_copilot_connection_closed_error :: "string \<Rightarrow> bool" where
  "is_copilot_connection_closed_error message \<longleftrightarrow> has_phrase ''connection is closed'' False message"

definition is_auth_failure_error :: "string \<Rightarrow> bool" where
  "is_auth_failure_error message \<longleftrightarrow>
     has_phrase ''no authentication info available'' False message \<or>
     has_phrase ''bad credentials'' False message \<or>
     has_phrase ''authentication failed'' False message \<or>
     has_phrase ''unauthorized'' False message \<or>
     has_phrase ''401'' False message"

definition auth_failure_user_hint :: string where
  "auth_failure_user_hint =
     ''GitHub Copilot rejected the authentication token. '' @
     ''Open the Admin Console (portal toolbar 'Admin' button or TUI Shift+A) '' @
     ''to update your GitHub Copilot key, then resend the prompt to retry.''"

definition session_state_missing_prefix :: string where
  "session_state_missing_prefix = ''SESSION_STATE_MISSING:''"

text \<open>\<open>s.slice(s.indexOf(pat) + pat.length)\<close>, if \<open>pat\<close> occurs.\<close>

fun after_first :: "string \<Rightarrow> string \<Rightarrow> string option" where
  "after_first pat [] = (if pat = [] then Some [] else None)"
| "after_first pat (c # cs) =
     (if starts_with pat (c # cs) then Some (drop (length pat) (c # cs)) else after_first pat cs)"

definition missing_state_error :: "string \<Rightarrow> string option" where
  "missing_state_error message = map_option trim (after_first session_state_missing_prefix message)"

section \<open>A model switch that failed inside the turn\<close>

definition current_model_label :: "durable_session_state \<Rightarrow> string" where
  "current_model_label state =
     (let text = (\<lambda>k. case map_of (ds_config state) k of Some (JStr s) \<Rightarrow> s | _ \<Rightarrow> []);
          model = (if text ''model'' = [] then ''(default)'' else text ''model'')
      in if text ''reasoningEffort'' = [] then model else model @ '':'' @ text ''reasoningEffort'')"

text \<open>\<open>/p1|p2|p3/i.test(s)\<close> for lower-case literals.\<close>

fun mentions :: "string list \<Rightarrow> string \<Rightarrow> bool" where
  "mentions pats [] = False"
| "mentions pats (c # cs) =
     (list_ex (\<lambda>p. starts_with p (map lower_ascii (c # cs))) pats \<or> mentions pats cs)"

definition failed_switch_texts :: "string list" where
  "failed_switch_texts =
     [''set_session_model failed'', ''set_session_model is unavailable'', ''set_session_model rejected'']"

text \<open>\<open>a ?? b\<close> on untyped values.\<close>

definition nullish_or :: "jsval \<Rightarrow> jsval \<Rightarrow> jsval" where
  "nullish_or a b = (if is_nullish a then b else a)"

definition tool_result_text :: "jsval \<Rightarrow> string" where
  "tool_result_text data =
     (let result = nullish_or (jget ''result'' data) (jget ''output'' data)
      in case result of
           JStr s \<Rightarrow> s
         | _ \<Rightarrow> js_string (nullish_or (jget ''content'' result) (nullish_or (jget ''detailedContent'' result)
                  (nullish_or (jget ''content'' data) (JStr [])))))"

fun detect_failed_model_switch :: "jsval list \<Rightarrow> string option" where
  "detect_failed_model_switch [] = None"
| "detect_failed_model_switch (event # events) =
     (let content = tool_result_text (jget ''data'' event)
      in if jget ''eventType'' event = JStr ''tool.execution_complete'' \<and> mentions failed_switch_texts content
         then Some (trim content) else detect_failed_model_switch events)"

text \<open>The result's events, none where the field is no array.\<close>

definition result_events :: "jsval \<Rightarrow> jsval list" where
  "result_events result = (case jget ''events'' result of JArr es \<Rightarrow> es | _ \<Rightarrow> [])"

definition capture_failed_model_switch_notice ::
  "jsval \<Rightarrow> durable_session_state \<Rightarrow> string option \<times> durable_session_state" where
  "capture_failed_model_switch_notice result state =
     (if if_truthy (detect_failed_model_switch (result_events result)) = None then (None, state)
      else let label = current_model_label state
           in (Some (''Continue on '' @ label @ ''; the requested model switch failed.''),
               state\<lparr>ds_runtime_model_notice :=
                 Some (''Previous model switch failed; current runtime model is '' @ label @
                   ''. If asked what model you are using, answer this value.'')\<rparr>))"

section \<open>Retrying a turn\<close>

datatype retry_phase = Run_turn_throw | Turn_result_error

fun phase_text :: "retry_phase \<Rightarrow> string" where
  "phase_text Run_turn_throw = ''runTurn.throw''"
| "phase_text Turn_result_error = ''turn.result.error''"

record retry_context =
  rc_source_prompt :: string
  rc_system_only_turn :: bool
  rc_required_tool :: "string option"
  rc_cycle_origin :: "string option"
  rc_phase :: retry_phase

definition max_retries :: int where "max_retries = 3"

definition retry_continue_overrides :: "retry_context \<Rightarrow> durable_session_state \<Rightarrow> continue_overrides" where
  "retry_continue_overrides rc state = no_overrides
     \<lparr>ov_prompt := Some (rc_source_prompt rc),
      ov_bootstrap_prompt :=
        (if rc_phase rc = Run_turn_throw \<and> rc_system_only_turn rc then Some True else None),
      ov_required_tool := if_truthy (rc_required_tool rc),
      ov_cycle_origin := if_truthy (rc_cycle_origin rc),
      ov_rest := (\<lambda>i. i\<lparr>oi_retry_count := Some (ds_retry_count state),
                        oi_needs_hydration := Some (ds_needs_hydration state)\<rparr>)\<rparr>"

definition continue_with :: "int \<Rightarrow> (durable_session_state \<Rightarrow> continue_overrides) \<Rightarrow> durable_session_runtime \<Rightarrow> turn_step" where
  "continue_with now overrides rt =
     (([], rt), Turn_continued (versioned_continue_as_new now rt
        (build_continue_input rt (overrides (rt_state rt)))))"

definition runtime_sid :: "durable_session_runtime \<Rightarrow> string" where
  "runtime_sid rt = oi_session_id (rt_input rt)"

definition releasing :: "turn_world \<Rightarrow> string \<Rightarrow> config_obj \<Rightarrow> durable_session_runtime \<Rightarrow> turn_step" where
  "releasing w reason event_data rt =
     (if ds_blob_enabled (rt_state rt)
      then acting (release_affinity_for (runtime_sid rt) (tw_guid w) reason event_data) rt
      else yielding [] rt)"

definition number_field :: "string \<Rightarrow> int \<Rightarrow> string \<times> jsval" where
  "number_field k n = (k, JNum (of_int n))"

definition retry_event ::
  "string \<Rightarrow> string \<Rightarrow> retry_context \<Rightarrow> int \<Rightarrow> int \<Rightarrow> int \<Rightarrow> config_obj" where
  "retry_event detail error rc attempt maximum delay =
     [(''detail'', JStr detail), (''error'', JStr error), (''phase'', JStr (phase_text (rc_phase rc))),
      number_field ''retryAttempt'' attempt, number_field ''maxRetries'' maximum,
      number_field ''retryDelaySeconds'' delay]"

definition lossy_handoff_event :: "string \<Rightarrow> string \<Rightarrow> string \<Rightarrow> retry_context \<Rightarrow> config_obj" where
  "lossy_handoff_event key message error rc =
     [(key, JStr message), (''error'', JStr error), (''phase'', JStr (phase_text (rc_phase rc))),
      number_field ''retries'' (int copilot_connection_closed_max_retries),
      number_field ''retryDelaySeconds'' (int copilot_connection_closed_retry_delay_seconds),
      (''nextStep'', JStr ''release_affinity_and_resume_on_any_worker'')]"

definition reset_retry_count :: "durable_session_runtime \<Rightarrow> turn_step" where
  "reset_retry_count = acting (\<lambda>s. ([], s\<lparr>ds_retry_count := 0\<rparr>))"

definition handle_connection_closed_retry ::
  "turn_world \<Rightarrow> string \<Rightarrow> retry_context \<Rightarrow> durable_session_runtime \<Rightarrow> turn_step" where
  "handle_connection_closed_retry w error rc rt =
     (let attempt = ds_retry_count (rt_state rt); maximum = int copilot_connection_closed_max_retries;
          delay = int copilot_connection_closed_retry_delay_seconds
      in if attempt \<le> maximum then
           let detail = build_connection_closed_retry_detail (nat attempt)
           in and_then (and_then (and_then
                (publishing ''error'' [(''error'', JStr (error @ '' ('' @ detail @ '')'')),
                   (''recoverableTransportLoss'', JBool True)] rt)
                (releasing w ''error'' (retry_event detail error rc attempt maximum delay)))
                (yielding [Slept (delay * 1000)]))
                (continue_with (tw_later w) (retry_continue_overrides rc))
         else
           let message = build_lossy_handoff_summary error
           in and_then (and_then
                (publishing ''error'' [(''error'', JStr message), (''retriesExhausted'', JBool True),
                   (''lossyHandoff'', JBool True)] rt)
                (yielding [Event_recorded (runtime_sid rt) ''session.lossy_handoff''
                   (lossy_handoff_event ''message'' message error rc)]))
                (\<lambda>rt. if ds_blob_enabled (rt_state rt) then
                   and_then (releasing w ''lossy_handoff'' (lossy_handoff_event ''detail'' message error rc) rt)
                     (continue_with (tw_now w) (\<lambda>s.
                        let ov = retry_continue_overrides rc s
                        in ov\<lparr>ov_rehydration_message := Some (build_lossy_handoff_rehydration_message error),
                              ov_rest := (\<lambda>i. (ov_rest ov i)\<lparr>oi_retry_count := Some 0\<rparr>)\<rparr>))
                 else and_then
                   (publishing ''error'' [(''error'', JStr (message @
                        '' Durable handoff is unavailable because blob persistence is disabled.'')),
                      (''retriesExhausted'', JBool True), (''lossyHandoff'', JBool False)] rt)
                   reset_retry_count))"

text \<open>\<open>15 * Math.pow(2, retryCount - 1)\<close>: a retry is counted before, so the exponent is no less than 0.\<close>

definition retry_delay :: "int \<Rightarrow> int" where
  "retry_delay retry_count = 15 * 2 ^ nat (retry_count - 1)"

definition handle_generic_retry ::
  "turn_world \<Rightarrow> string \<Rightarrow> retry_context \<Rightarrow> durable_session_runtime \<Rightarrow> turn_step" where
  "handle_generic_retry w error rc rt =
     (let attempt = ds_retry_count (rt_state rt);
          exhausted = ''Failed after '' @ show_int max_retries @ '' attempts: '' @ error
      in if max_retries \<le> attempt then
           and_then (and_then
             (publishing ''error'' [(''error'', JStr exhausted), (''retriesExhausted'', JBool True)] rt)
             (yielding [Cms_state ''error'' (Some exhausted)]))
             reset_retry_count
         else
           let delay = retry_delay attempt
           in and_then (and_then (and_then
                (publishing ''error'' [(''error'', JStr (error @ '' (retry '' @ show_int attempt @ ''/'' @
                   show_int max_retries @ '' in '' @ show_int delay @ ''s)''))] rt)
                (releasing w ''error'' (retry_event error error rc attempt max_retries delay)))
                (yielding [Slept (delay * 1000)]))
                (continue_with (tw_later w) (retry_continue_overrides rc)))"

section \<open>Failures that are not retried\<close>

definition error_response :: "string \<Rightarrow> durable_session_state \<Rightarrow> config_obj" where
  "error_response message state =
     [number_field ''iteration'' (ds_iteration state), (''type'', JStr ''error''), (''content'', JStr message)]"

text \<open>The blocked error, its status, the response and the session row, in this order.\<close>

definition project_failure :: "turn_world \<Rightarrow> string \<Rightarrow> bool \<Rightarrow> config_obj \<Rightarrow> durable_session_runtime \<Rightarrow> turn_step" where
  "project_failure w message auth extra rt =
     and_then (and_then (and_then
       (acting (\<lambda>s. ([], s\<lparr>ds_blocked_error := Some \<lparr>be_message = message, be_auth_failure = auth\<rparr>\<rparr>)) rt)
       (publishing ''error'' ([(''error'', JStr message), (''retriesExhausted'', JBool True)] @ extra)))
       (acting (\<lambda>s. write_latest_response (tw_now w) (error_response message s) s)))
       (yielding [Cms_state ''error'' (Some message)])"

definition project_auth_failure :: "turn_world \<Rightarrow> string \<Rightarrow> durable_session_runtime \<Rightarrow> turn_step" where
  "project_auth_failure w error rt =
     and_then (project_failure w (error @ '' '' @ em_dash @ '' '' @ auth_failure_user_hint) True
       [(''authFailure'', JBool True)] rt) reset_retry_count"

definition failed_child_update :: "string \<Rightarrow> int \<Rightarrow> string \<Rightarrow> string" where
  "failed_child_update sid iteration error =
     ''[CHILD_UPDATE from='' @ sid @ '' type=failed iter='' @ show_int iteration @ '' verdict=failed]'' @
     [CHR 0x0A] @ take 2000 error"

definition project_non_retryable_turn_failure :: "turn_world \<Rightarrow> string \<Rightarrow> durable_session_runtime \<Rightarrow> turn_step" where
  "project_non_retryable_turn_failure w error rt =
     and_then (and_then
       (project_failure w error False [(''nonRetryable'', JBool True)] rt)
       (\<lambda>rt. acting (\<lambda>s. case if_truthy (do_parent_session_id (rt_options rt)) of
            Some parent \<Rightarrow>
              if ds_reported_first_completion s \<or> tw_parent_down w then ([], s)
              else ([Message_sent parent (failed_child_update (runtime_sid rt) (ds_iteration s) error)],
                    s\<lparr>ds_reported_first_completion := True\<rparr>)
          | None \<Rightarrow> ([], s)) rt))
       reset_retry_count"

section \<open>Facts about steps\<close>

lemma and_then_simps [simp]:
  "and_then ((es, rt), Turn_over) f = ((es @ fst (fst (f rt)), snd (fst (f rt))), snd (f rt))"
  "and_then ((es, rt), Turn_continued i) f = ((es, rt), Turn_continued i)"
  "and_then ((es, rt), Turn_failed m) f = ((es, rt), Turn_failed m)"
  by (simp_all add: and_then_def)

lemma acting_simps [simp]:
  "snd (acting f rt) = Turn_over"
  "snd (fst (acting f rt)) = rt\<lparr>rt_state := snd (f (rt_state rt))\<rparr>"
  "fst (fst (acting f rt)) = fst (f (rt_state rt))"
  by (simp_all add: acting_def)

lemma and_then_acting [simp]:
  "and_then (acting f rt) g =
     (let r = g (rt\<lparr>rt_state := snd (f (rt_state rt))\<rparr>) in ((fst (f (rt_state rt)) @ fst (fst r), snd (fst r)), snd r))"
  by (simp add: acting_def Let_def)

lemma yielding_simps [simp]:
  "snd (yielding es rt) = Turn_over" "snd (fst (yielding es rt)) = rt" "fst (fst (yielding es rt)) = es"
  by (simp_all add: yielding_def)

lemma and_then_yielding [simp]:
  "and_then (yielding es rt) g = ((es @ fst (fst (g rt)), snd (fst (g rt))), snd (g rt))"
  by (simp add: yielding_def)

end
