(* ===== verification/OrchAgents.thy ===== *)
theory OrchAgents
  imports OrchRetry
begin

text \<open>
  The actions by which an agent manages its sub-agents (\<open>packages/sdk/src/orchestration/agents.ts\<close>,
  lines 157 to 217 and 642 to 1118; \<open>session-list-timestamps.ts\<close>): spawn, message, check, list, wait
  for, complete, cancel and delete. Shown: no action takes a session over fifty running sub-agents or
  two levels of nesting, a child inherits nothing that identifies its parent, and every action leaves
  the agent an answer or a wait.

  A definition that \<open>resolveAgentConfig\<close> returns stays untyped. A call that throws has no effect here.
\<close>

section \<open>What a sub-agent is told\<close>

definition nl :: string where "nl = [CHR 0x0A]"

definition timing_instruction :: "bool \<Rightarrow> string" where
  \<open>timing_instruction agent_is_system = (if agent_is_system then
     ''- For recurring or periodic work, use the `cron` or `cron_at` tool instead of ending '' @
     ''every cycle with `wait`. '' @
     ''Call `cron(seconds=<N>, reason="...")` to start or update the durable recurring '' @
     ''schedule, '' @
     ''or `cron_at(minute=<M>, hour=<H>, tz="...", reason="...")` for wall-clock schedules. '' @
     ''then finish turns normally so the orchestration wakes you automatically on each cron '' @
     ''cycle. '' @ ''Use `wait` only for one-shot delays inside a turn. '' @
     ''Call `cron(action="cancel")` or `cron_at(action="cancel")` only when you intentionally '' @
     ''want to stop the recurring loop.'' @ nl
   else
     ''- For ANY waiting, sleeping, delaying, or scheduling, you MUST use the `wait`, '' @
     ''`wait_on_worker`, `cron`, or `cron_at` tools. '' @
     ''Use `wait` or `wait_on_worker` for one-shot delays. Use `cron` for fixed intervals and '' @
     ''`cron_at` for wall-clock schedules. '' @
     ''Do NOT burn tokens polling inside one LLM turn; after a brief immediate re-check at '' @
     ''most, yield with a durable timer. '' @
     ''NEVER use setTimeout, sleep, setInterval, or any other timing mechanism. '' @
     ''Durable waits survive process restarts.'' @ nl)\<close>

definition spawn_instruction :: "int \<Rightarrow> int \<Rightarrow> string" where
  \<open>spawn_instruction child_nesting_level max_nesting_level =
    (if child_nesting_level < max_nesting_level then
     ''- If your parent task explicitly asks you to spawn sub-agents, delegate, fan out, or '' @
     ''parallelize work, you SHOULD do so within runtime limits instead of collapsing the task '' @
     ''into a direct answer. '' @
     ''If delegation was not explicitly requested, use your judgment and avoid unnecessary '' @
     ''fan-out. '' @ ''You have '' @ show_int (max_nesting_level - child_nesting_level) @
     '' level(s) of nesting remaining. '' @
     ''After spawning, finish the turn normally and let qualifying child updates wake you '' @
     ''according to contract.wakeOn. '' @
     ''Do not schedule wait or cron solely to poll check_agents; use wait_for_agents only when '' @
     ''you need an explicit synchronization barrier.'' @ nl
   else
     ''- You CANNOT spawn sub-agents '' @ em_dash @
     '' you are at the maximum nesting depth. Handle everything directly.'' @ nl)\<close>

definition sub_agent_instructions :: string where
  \<open>sub_agent_instructions =
     ''- Focus exclusively on your assigned task.'' @ nl @
     ''- Your final response will be automatically forwarded to the parent agent.'' @ nl @
     ''- Be thorough but concise '' @ em_dash @
     '' the parent will synthesize results from multiple agents.'' @ nl @
     ''- Do NOT ask the user for input '' @ em_dash @ '' you are autonomous.'' @ nl @
     ''- You are autonomous and goal-driven. If the task implies ongoing monitoring or '' @
     ''follow-through until done, keep yourself alive with durable timers until the goal is '' @
     ''complete or you can no longer make progress.'' @ nl @
     ''- If it is ambiguous whether the task should become a long-running recurring workflow, '' @
     ''report that ambiguity back to the parent instead of guessing or asking the user '' @
     ''directly.'' @ nl @
     ''- When your task is complete, provide a clear summary of your findings/results. Your '' @
     ''final assistant message is automatically forwarded to the parent.'' @ nl @
     ''- After you finish a task you stay ALIVE and idle, ready for the parent to send you a '' @
     ''follow-up via `message_agent`. You are NOT auto-terminated when you produce a final '' @
     ''answer.'' @ nl @
     ''- Only the parent decides when you are no longer needed. The parent will close you with '' @
     ''`complete_agent`, `cancel_agent`, or `delete_agent`. Do not assume you have been shut '' @
     ''down just because you produced a final reply.'' @ nl @
     ''- Prefer using `store_fact` for larger structured context handoffs across your spawn '' @
     ''tree. Put the durable details in facts, then pass fact keys or `read_facts` pointers in '' @
     ''messages/prompts instead of pasting large context blobs. Sibling and cousin agents '' @
     ''under the same root can read your session-scoped facts directly via `read_facts` '' @ em_dash @
     '' you do NOT need to mark them `shared=true` just to share with peers.'' @ nl @
     ''- FILESYSTEM ISOLATION: your parent, siblings, and sub-agents each run on their own '' @
     ''worker pod '' @ em_dash @
     '' they can NEVER see your local files, and yours may vanish on the next turn, after a '' @
     ''durable wait, or on worker restart. The artifact store is the ONLY shared byte channel. '' @
     ''To hand off any file (especially binaries/archives): `write_artifact({fromFile: '' @
     ''"<path>"})` on the producing side, `read_artifact({toFile: "<path>"})` on the consuming '' @
     ''side. Bytes move server-side with a SHA-256 in every result '' @ em_dash @
     '' never read a file just to re-type its bytes as inline content, and never base64 '' @
     ''payloads through messages.'' @ nl @ ''- `write_artifact` returns the artifact:// link '' @
     em_dash @
     '' include it in your response whenever the user or your parent should see the file. Use '' @
     ''`store_fact` for structured state, artifacts for files.'' @ nl @
     ''- If you override a sub-agent model, you MUST first call list_available_models in this '' @
     ''session and use only an exact provider:model value returned there. '' @
     ''NEVER invent, guess, shorten, or reuse a stale model name.'' @ nl @
     ''- Worker-managed system agents are not valid spawn targets. If you expect one and it is '' @
     ''missing, report that the workers likely need to be restarted.'' @ nl\<close>

definition build_sub_agent_system_message ::
  "string \<Rightarrow> int \<Rightarrow> int \<Rightarrow> string \<Rightarrow> bool \<Rightarrow> string \<Rightarrow> string" where
  \<open>build_sub_agent_system_message parent_session_id child_nesting_level max_nesting_level agent_task
      agent_is_system parent_system_message =
     ''[SUB-AGENT CONTEXT]'' @ nl @ ''You are a sub-agent spawned by a parent session (ID: session-'' @
     parent_session_id @ '').'' @ nl @ ''Your nesting level: '' @ show_int child_nesting_level @
     '' (max: '' @ show_int max_nesting_level @ '').'' @ nl @ ''Your task: "'' @ take 500 agent_task @
     ''"'' @ nl @ nl @ ''Instructions:'' @ nl @ sub_agent_instructions @
     timing_instruction agent_is_system @ spawn_instruction child_nesting_level max_nesting_level @
     (if parent_system_message = [] then [] else blank_line @ parent_system_message)\<close>

section \<open>The outside world of an action\<close>

text \<open>
  The results of the activities: \<open>resolveAgentConfig\<close> (\<open>None\<close>: throws), \<open>spawnChildSession\<close> (the error
  or the child's id), \<open>getSessionStatus\<close> parsed (the error, or a value), whether a call to a session
  throws, the parsed \<open>listSessions\<close> (\<open>None\<close>: throws), and \<open>Date.parse\<close>.
\<close>

record agent_world =
  aw_now :: int
  aw_resolve :: "string \<Rightarrow> jsval option"
  aw_spawn :: "string + string"
  aw_status :: "string \<Rightarrow> string + jsval"
  aw_call_error :: "string \<Rightarrow> string option"
  aw_sessions :: "jsval option"
  aw_date_parse :: "string \<Rightarrow> int option"

definition max_sub_agents :: nat where "max_sub_agents = 50"
definition max_nesting_level :: int where "max_nesting_level = 2"

definition text_of :: "string \<Rightarrow> jsval \<Rightarrow> string" where
  "text_of k v = coalesce (as_string (jget k v)) []"

definition system_note :: "string \<Rightarrow> string" where
  "system_note s = ''[SYSTEM: '' @ s @ '']''"

text \<open>The action's answer is queued as the follow-up, and the action is over.\<close>

definition followup :: "string \<Rightarrow> durable_session_runtime \<Rightarrow> turn_step" where
  "followup s = acting (\<lambda>st. ([], queue_followup (system_note s) st))"

definition refused :: "string \<Rightarrow> string \<Rightarrow> string" where
  "refused action why = action @ '' failed '' @ em_dash @ '' '' @ why"

section \<open>spawn_agent\<close>

record spawn_plan =
  sp_task :: string
  sp_system_message :: jsval
  sp_tool_names :: jsval
  sp_is_system :: bool
  sp_title :: "string option"
  sp_title_is_explicit :: bool
  sp_agent_id :: "string option"
  sp_splash :: jsval
  sp_required_tool :: jsval
  sp_bound_name :: "string option"
  sp_bound_package :: "string option"
  sp_layering :: "string option"

definition running_count :: "durable_session_state \<Rightarrow> nat" where
  "running_count state = length (filter (\<lambda>a. sa_status a = ''running'') (ds_sub_agents state))"

definition has_key :: "string \<Rightarrow> jsval \<Rightarrow> bool" where
  "has_key k v = (case v of JObj kvs \<Rightarrow> k \<in> fst ` set kvs | _ \<Rightarrow> False)"

text \<open>The refusals before the agent's definition is looked up.\<close>

definition spawn_refusal :: "durable_session_options \<Rightarrow> jsval \<Rightarrow> durable_session_state \<Rightarrow> string option" where
  "spawn_refusal options result state =
     (if max_nesting_level < do_nesting_level options + 1 then
        Some (refused ''spawn_agent'' (''you are already at nesting level '' @ show_int (do_nesting_level options) @
          '' (max '' @ show_int max_nesting_level @ ''). '' @
          ''Sub-agents at this depth cannot spawn further sub-agents. Handle the task directly instead.''))
      else if max_sub_agents \<le> running_count state then
        Some (refused ''spawn_agent'' (''you already have '' @ show_nat (running_count state) @
          '' running sub-agents (max '' @ show_nat max_sub_agents @ ''). '' @
          ''Wait for some to complete before spawning more.''))
      else if has_key ''requiredTool'' result \<or> has_key ''required_tool'' result then
        Some (refused ''spawn_agent'' (''required_tool is no longer supported by spawn_agent. Use ps_list_agents '' @
          ''to find a suitable named agent, then pass its exact agent_name and your assignment in task.''))
      else None)"

text \<open>The refusals of a definition that was looked up; \<open>null\<close> is no definition.\<close>

definition definition_refusal :: "string \<Rightarrow> jsval \<Rightarrow> jsval \<Rightarrow> string option" where
  "definition_refusal agent_name result agent_def =
     (if \<not> truthy agent_def then
        Some (refused ''spawn_agent'' (''agent '' @ quoted agent_name @
          '' not found. Use ps_list_agents to see available agents.''))
      else if truthy (jget ''system'' agent_def) \<and> jget ''creatable'' agent_def = JBool False then
        Some (refused ''spawn_agent'' (''agent '' @ quoted agent_name @
          '' is a worker-managed system agent and cannot be spawned from a session. '' @
          ''If it is missing, the workers likely need to be restarted.''))
      else if jget ''toolNames'' result \<noteq> JUndef then
        Some (refused ''spawn_agent'' (''tool_names cannot override a bound named-agent definition. '' @
          ''Use a custom task without agent_name, or remove tool_names.''))
      else if jget ''systemMessage'' result \<noteq> JUndef then
        Some (refused ''spawn_agent'' (''system_message cannot override a bound named-agent definition. '' @
          ''Put the bounded assignment in task instead.''))
      else None)"

definition explicit_title :: "jsval \<Rightarrow> string option" where
  "explicit_title result = if_truthy (map_option trim (as_string (jget ''title'' result)))"

definition custom_plan :: "jsval \<Rightarrow> spawn_plan" where
  "custom_plan result = \<lparr>sp_task = text_of ''task'' result, sp_system_message = jget ''systemMessage'' result,
     sp_tool_names = jget ''toolNames'' result, sp_is_system = False, sp_title = explicit_title result,
     sp_title_is_explicit = (explicit_title result \<noteq> None), sp_agent_id = None, sp_splash = JUndef,
     sp_required_tool = JUndef, sp_bound_name = None, sp_bound_package = None, sp_layering = None\<rparr>"

definition named_task :: "jsval \<Rightarrow> jsval \<Rightarrow> string" where
  "named_task result agent_def =
     (if text_of ''task'' result \<noteq> [] then text_of ''task'' result
      else if text_of ''initialPrompt'' agent_def \<noteq> [] then text_of ''initialPrompt'' agent_def
      else ''You are the '' @ text_of ''name'' agent_def @ '' agent. Begin your work.'')"

definition layering_kind :: "jsval \<Rightarrow> string option" where
  "layering_kind agent_def =
     (case jget ''promptLayerKind'' agent_def of
        JStr kind \<Rightarrow> Some kind
      | _ \<Rightarrow> Some (if \<not> truthy (jget ''system'' agent_def) then ''app-agent''
              else if text_of ''namespace'' agent_def \<in> {[], ''pilotswarm''} then ''pilotswarm-system-agent''
              else ''app-system-agent''))"

definition apply_agent_def :: "jsval \<Rightarrow> jsval \<Rightarrow> spawn_plan" where
  "apply_agent_def result agent_def =
     (let package = as_string (jget ''packageId'' agent_def); namespace = text_of ''namespace'' agent_def;
          name = text_of ''name'' agent_def
      in \<lparr>sp_task = named_task result agent_def, sp_system_message = JUndef,
          sp_tool_names = nullish_or (jget ''tools'' agent_def) (JArr []),
          sp_is_system = truthy (jget ''system'' agent_def),
          sp_title = (case explicit_title result of Some t \<Rightarrow> Some t | None \<Rightarrow> as_string (jget ''title'' agent_def)),
          sp_title_is_explicit = (explicit_title result \<noteq> None),
          sp_agent_id = as_string (nullish_or (jget ''id'' agent_def) (jget ''name'' agent_def)),
          sp_splash = jget ''splash'' agent_def, sp_required_tool = jget ''initialRequiredTool'' agent_def,
          sp_bound_name = Some (if \<not> truthy_str package \<and> namespace \<noteq> [] then namespace @ '':'' @ name else name),
          sp_bound_package = package, sp_layering = layering_kind agent_def\<rparr>)"

text \<open>
  The title of a system agent without one: \<open>/You are the \*{0,2}([^*\n]+?)\*{0,2}\s*[\u2014\u2013-]/i\<close> on the task, else
  the same up to a word that ends in "Agent". The capture is lazy: it is the shortest one after which
  the rest of the pattern matches.
\<close>

definition en_dash :: string where "en_dash = [CHR 0xE2, CHR 0x80, CHR 0x93]"

definition after_stars :: "string \<Rightarrow> string option" where
  "after_stars s = (let n = length (takeWhile (\<lambda>c. c = CHR ''*'') s) in if n \<le> 2 then Some (drop n s) else None)"

definition dash_ahead :: "string \<Rightarrow> bool" where
  "dash_ahead s = (case after_stars s of
       None \<Rightarrow> False
     | Some r \<Rightarrow> list_ex (\<lambda>d. starts_with d (dropWhile is_ws r)) [em_dash, en_dash, ''-''])"

fun lazy_capture :: "(string \<Rightarrow> string \<Rightarrow> bool) \<Rightarrow> string \<Rightarrow> string \<Rightarrow> string option" where
  "lazy_capture ok got [] = None"
| "lazy_capture ok got (c # cs) =
     (if c = CHR ''*'' \<or> c = CHR 0x0A then None
      else if ok (got @ [c]) cs then Some (got @ [c]) else lazy_capture ok (got @ [c]) cs)"

definition you_are_the :: string where "you_are_the = ''you are the ''"

fun title_match :: "(string \<Rightarrow> string \<Rightarrow> bool) \<Rightarrow> string \<Rightarrow> string option" where
  "title_match ok [] = None"
| "title_match ok (c # cs) =
     (let here = (if starts_with you_are_the (map lower_ascii (c # cs))
        then Option.bind (after_stars (drop (length you_are_the) (c # cs))) (lazy_capture ok []) else None)
      in case here of Some t \<Rightarrow> Some t | None \<Rightarrow> title_match ok cs)"

definition system_agent_title :: "string \<Rightarrow> string option" where
  "system_agent_title task =
     map_option trim
       (case title_match (\<lambda>_ rest. dash_ahead rest) task of
          Some t \<Rightarrow> Some t
        | None \<Rightarrow> title_match (\<lambda>got _. 5 < length got \<and> ends_with ''agent'' (map lower_ascii got)) task)"

definition titled :: "spawn_plan \<Rightarrow> spawn_plan" where
  "titled p = (if \<not> truthy_str (sp_title p) \<and> sp_is_system p
     then (case system_agent_title (sp_task p) of Some t \<Rightarrow> p\<lparr>sp_title := Some t\<rparr> | None \<Rightarrow> p) else p)"

text \<open>What identifies the parent is not the child's.\<close>

definition parent_only_keys :: "string list" where
  "parent_only_keys = [''boundAgentName'', ''boundAgentPackageId'', ''boundAgentSource'',
     ''namedAgentToolAdditions'', ''childContract'', ''detachedPackageToolPolicy'', ''promptLayering'',
     ''agentIdentity'', ''isCrawler'', ''isHarvester'']"

definition set_when :: "bool \<Rightarrow> string \<Rightarrow> jsval \<Rightarrow> config_obj \<Rightarrow> config_obj" where
  "set_when b k v c = (if b then obj_set k v c else c)"

definition set_text :: "string \<Rightarrow> string option \<Rightarrow> config_obj \<Rightarrow> config_obj" where
  "set_text k v = set_when (truthy_str v) k (JStr (coalesce v []))"

definition set_truthy :: "string \<Rightarrow> jsval \<Rightarrow> config_obj \<Rightarrow> config_obj" where
  "set_truthy k v = set_when (truthy v) k v"

definition tool_names_given :: "jsval \<Rightarrow> bool" where
  "tool_names_given result = (case jget ''toolNames'' result of JArr xs \<Rightarrow> xs \<noteq> [] | JStr s \<Rightarrow> s \<noteq> [] | _ \<Rightarrow> False)"

definition child_config :: "spawn_plan \<Rightarrow> jsval \<Rightarrow> config_obj \<Rightarrow> config_obj" where
  "child_config p result config =
     (set_truthy ''childContract'' (jget ''contract'' result) \<circ>
      set_truthy ''toolNames'' (sp_tool_names p) \<circ>
      set_when (sp_layering p \<noteq> None) ''promptLayering''
        (JObj [(''kind'', JStr (coalesce (sp_layering p) []))]) \<circ>
      obj_set ''detachedPackageToolPolicy''
        (JStr (if truthy_str (sp_bound_name p) \<or> tool_names_given result then ''reject'' else ''drop'')) \<circ>
      set_when (truthy_str (sp_bound_name p) \<and> \<not> truthy_str (sp_bound_package p))
        ''boundAgentSource'' (JStr ''deployment'') \<circ>
      set_text ''boundAgentPackageId'' (sp_bound_package p) \<circ>
      set_text ''boundAgentName'' (sp_bound_name p) \<circ>
      set_truthy ''systemMessage'' (sp_system_message p) \<circ>
      set_when (jget ''contextTier'' result \<noteq> JUndef) ''contextTier'' (jget ''contextTier'' result) \<circ>
      set_truthy ''reasoningEffort'' (jget ''reasoningEffort'' result) \<circ>
      set_truthy ''model'' (jget ''model'' result) \<circ>
      set_when (truthy_str (sp_bound_name p)) ''systemMessage'' JUndef)
       (filter (\<lambda>kv. fst kv \<notin> set parent_only_keys) config)"

definition briefed :: "string \<Rightarrow> int \<Rightarrow> spawn_plan \<Rightarrow> config_obj \<Rightarrow> config_obj" where
  "briefed sid level p config =
     obj_set ''systemMessage'' (JStr (build_sub_agent_system_message sid level max_nesting_level (sp_task p)
       (sp_is_system p) (base_text (coalesce (map_of config ''systemMessage'') JUndef)))) config"

definition spawn_request :: "spawn_plan \<Rightarrow> int \<Rightarrow> config_obj" where
  "spawn_request p level =
     [(''task'', JStr (sp_task p)), number_field ''nestingLevel'' level,
      (''isSystem'', JBool (sp_is_system p))] @
     opt_entry ''title'' (map_option JStr (sp_title p)) @ opt_entry ''agentId'' (map_option JStr (sp_agent_id p)) @
     [(''splash'', sp_splash p), (''titleIsExplicit'', JBool (sp_title_is_explicit p)),
      (''requiredTool'', sp_required_tool p)]"

definition spawned_agent :: "string \<Rightarrow> spawn_plan \<Rightarrow> jsval \<Rightarrow> sub_agent_entry" where
  "spawned_agent child_id p result =
     \<lparr>sa_orch_id = ''session-'' @ child_id, sa_session_id = child_id, sa_task = take 500 (sp_task p),
      sa_status = ''running'', sa_result = None, sa_expects_report = True,
      sa_agent_id = if_truthy (sp_agent_id p), sa_contract = jget ''contract'' result\<rparr>"

definition spawned_note :: "string \<Rightarrow> string \<Rightarrow> spawn_plan \<Rightarrow> string" where
  "spawned_note child_id agent_name p =
     ''Sub-agent spawned successfully.'' @ nl @ ''  Agent ID: session-'' @ child_id @ nl @ ''  '' @
     (if agent_name = [] then [] else ''Agent: '' @ agent_name @ nl @ ''  '') @
     ''Task: '' @ quoted (take 200 (sp_task p)) @ nl @
     ''  The agent is now running autonomously. Continue your work in this SAME turn and keep following '' @
     ''the user's remaining steps. '' @
     ''Do NOT stop just because the child started. If you need to pause, call wait or wait_for_agents explicitly. '' @
     ''You can also use check_agents to poll status, '' @ ''or message_agent to send instructions.''"

definition unqualified_model :: "jsval \<Rightarrow> bool" where
  "unqualified_model result \<longleftrightarrow> text_of ''model'' result \<noteq> [] \<and> CHR '':'' \<notin> set (text_of ''model'' result)"

definition spawn_planned :: "agent_world \<Rightarrow> jsval \<Rightarrow> spawn_plan \<Rightarrow> durable_session_runtime \<Rightarrow> turn_step" where
  "spawn_planned w result plan rt =
     (if unqualified_model result then
        followup (refused ''spawn_agent'' (''model '' @ quoted (text_of ''model'' result) @ '' is not allowed. '' @
          ''When overriding a sub-agent model, first call list_available_models and then use the exact '' @
          ''provider:model value from that list. '' @
          ''If you are unsure, omit model so the sub-agent inherits your current model.'')) rt
      else
        let p = titled plan; level = do_nesting_level (rt_options rt) + 1;
            config = briefed (runtime_sid rt) level p (child_config p result (ds_config (rt_state rt)))
        in case aw_spawn w of
             Inl error \<Rightarrow> followup (''spawn_agent failed: '' @ error) rt
           | Inr child_id \<Rightarrow>
               and_then
                 (acting (\<lambda>s. ([Child_spawned config (spawn_request p level),
                      Event_recorded (runtime_sid rt) ''session.agent_spawned''
                        ([(''childSessionId'', JStr child_id)] @
                         opt_entry ''agentId'' (map_option JStr (if_truthy (sp_agent_id p))) @
                         [(''task'', JStr (take 500 (sp_task p)))])],
                    s\<lparr>ds_sub_agents := ds_sub_agents s @ [spawned_agent child_id p result]\<rparr>)) rt)
                 (followup (spawned_note child_id (text_of ''agentName'' result) p)))"

definition spawn_agent :: "agent_world \<Rightarrow> jsval \<Rightarrow> durable_session_runtime \<Rightarrow> turn_step" where
  "spawn_agent w result rt =
     (let agent_name = text_of ''agentName'' result
      in case spawn_refusal (rt_options rt) result (rt_state rt) of
           Some why \<Rightarrow> followup why rt
         | None \<Rightarrow>
             if agent_name = [] then spawn_planned w result (custom_plan result) rt
             else case aw_resolve w agent_name of
               None \<Rightarrow> (([], rt), Turn_failed ''resolveAgentConfig failed'')
             | Some agent_def \<Rightarrow>
                 (case definition_refusal agent_name result agent_def of
                    Some why \<Rightarrow> followup why rt
                  | None \<Rightarrow> spawn_planned w result (apply_agent_def result agent_def) rt))"

section \<open>Actions on a tracked agent\<close>

text \<open>\<open>{ ...a, ...b }\<close>: the keys of an object, the indices of an array.\<close>

fun spread_from :: "nat \<Rightarrow> jsval list \<Rightarrow> config_obj" where
  "spread_from n [] = []"
| "spread_from n (x # xs) = (show_nat n, x) # spread_from (Suc n) xs"

fun spread :: "jsval \<Rightarrow> config_obj" where
  "spread (JObj kvs) = kvs"
| "spread (JArr xs) = spread_from 0 xs"
| "spread _ = []"

definition merged_contract :: "jsval \<Rightarrow> jsval \<Rightarrow> jsval" where
  "merged_contract contract patch =
     JObj (fold (\<lambda>(k, v). obj_set k v) (spread patch) (fold (\<lambda>(k, v). obj_set k v) (spread contract) []))"

definition patch_contract :: "jsval \<Rightarrow> sub_agent_entry \<Rightarrow> sub_agent_entry" where
  "patch_contract patch a =
     (case patch of
        JObj _ \<Rightarrow> a\<lparr>sa_contract := merged_contract (sa_contract a) patch\<rparr>
      | JArr _ \<Rightarrow> a\<lparr>sa_contract := merged_contract (sa_contract a) patch\<rparr>
      | _ \<Rightarrow> a)"

definition known_agents :: "sub_agent_entry list \<Rightarrow> string" where
  "known_agents agents =
     (let names = join '', '' (map sa_orch_id agents) in if names = [] then ''none'' else names)"

text \<open>Runs the action on the agent it names, or answers that there is none.\<close>

definition on_agent ::
  "string \<Rightarrow> jsval \<Rightarrow> (sub_agent_entry \<Rightarrow> durable_session_runtime \<Rightarrow> turn_step) \<Rightarrow>
   durable_session_runtime \<Rightarrow> turn_step" where
  "on_agent action result f rt =
     (let target = text_of ''agentId'' result; agents = ds_sub_agents (rt_state rt)
      in case find_tracked_agent_by_orch_id agents target of
           None \<Rightarrow> followup (refused action (''agent '' @ quoted target @ '' not found. '' @
                     ''Known agents: '' @ known_agents agents)) rt
         | Some agent \<Rightarrow> f agent rt)"

text \<open>Calls the agent's session and answers with \<open>done\<close>, or with the error the call threw.\<close>

definition calling ::
  "agent_world \<Rightarrow> string \<Rightarrow> sub_agent_entry \<Rightarrow> orch_effect \<Rightarrow> string \<Rightarrow> durable_session_runtime \<Rightarrow> turn_step" where
  "calling w action agent effect done rt =
     (case aw_call_error w (sa_session_id agent) of
        Some error \<Rightarrow> followup (action @ '' failed: '' @ error) rt
      | None \<Rightarrow> and_then (yielding [effect] rt) (followup done))"

definition reason_note :: "jsval \<Rightarrow> string" where
  "reason_note result = (if text_of ''reason'' result = [] then [] else '' Reason: '' @ text_of ''reason'' result)"

definition given_reason :: "jsval \<Rightarrow> string \<Rightarrow> string" where
  "given_reason result fallback = coalesce (as_string (jget ''reason'' result)) fallback"

definition agent_command :: "string \<Rightarrow> string \<Rightarrow> string \<Rightarrow> durable_session_runtime \<Rightarrow> command_message" where
  "agent_command cmd cmd_id reason rt =
     \<lparr>cm_cmd = cmd, cm_id = cmd_id, cm_args = JObj [(''reason'', JStr reason)], cm_sender = JUndef,
      cm_requested_by = Some (runtime_sid rt)\<rparr>"

definition turn_tag :: "string \<Rightarrow> durable_session_runtime \<Rightarrow> string" where
  "turn_tag cmd rt = cmd @ ''-'' @ show_int (ds_iteration (rt_state rt))"

definition session_tag :: "string \<Rightarrow> sub_agent_entry \<Rightarrow> durable_session_runtime \<Rightarrow> string" where
  "session_tag cmd agent rt = turn_tag cmd rt @ ''-'' @ take 8 (sa_session_id agent)"

definition message_agent :: "agent_world \<Rightarrow> jsval \<Rightarrow> durable_session_runtime \<Rightarrow> turn_step" where
  "message_agent w result = on_agent ''message_agent'' result
     (\<lambda>agent rt. and_then
        (acting (\<lambda>s. ([], s\<lparr>ds_sub_agents := update_first (\<lambda>a. sa_orch_id a = sa_orch_id agent)
             (patch_contract (jget ''contractPatch'' result)) (ds_sub_agents s)\<rparr>)) rt)
        (calling w ''message_agent'' agent (Message_sent (sa_session_id agent) (text_of ''message'' result))
          (''Message sent to sub-agent '' @ sa_orch_id agent @ '': '' @
           quoted (take 200 (text_of ''message'' result)) @ ''. '' @
           ''Continue your work in this SAME turn. If you are waiting on the child, call wait_for_agents '' @
           ''explicitly rather than stopping here.'')))"

definition complete_agent :: "agent_world \<Rightarrow> jsval \<Rightarrow> durable_session_runtime \<Rightarrow> turn_step" where
  "complete_agent w result = on_agent ''complete_agent'' result
     (\<lambda>agent rt. calling w ''complete_agent'' agent
        (Command_sent (sa_session_id agent) (agent_command ''done'' (turn_tag ''done'' rt) ''Completed by parent'' rt))
        (''Graceful completion requested for sub-agent '' @ sa_orch_id agent @ ''. '' @
         ''Use check_agents or wait_for_agents to observe final completion.'') rt)"

definition cancel_agent :: "agent_world \<Rightarrow> jsval \<Rightarrow> durable_session_runtime \<Rightarrow> turn_step" where
  "cancel_agent w result = on_agent ''cancel_agent'' result
     (\<lambda>agent rt. calling w ''cancel_agent'' agent
        (Command_sent (sa_session_id agent) (agent_command ''cancel'' (session_tag ''cancel'' agent rt)
           (given_reason result ''Cancelled by parent'') rt))
        (''Graceful cancellation requested for sub-agent '' @ sa_orch_id agent @ ''. '' @
         ''Use check_agents or wait_for_agents to observe final termination.'' @ reason_note result) rt)"

definition delete_ended_agent :: "agent_world \<Rightarrow> jsval \<Rightarrow> sub_agent_entry \<Rightarrow> durable_session_runtime \<Rightarrow> turn_step" where
  "delete_ended_agent w result agent rt =
     (case aw_call_error w (sa_session_id agent) of
        Some error \<Rightarrow> followup (''delete_agent failed: '' @ error) rt
      | None \<Rightarrow> and_then
          (acting (\<lambda>s. ([Session_deleted (sa_session_id agent) (given_reason result ''Deleted by parent'')],
             s\<lparr>ds_sub_agents := filter (\<lambda>a. sa_orch_id a \<noteq> sa_orch_id agent) (ds_sub_agents s)\<rparr>)) rt)
          (followup (''Sub-agent '' @ sa_orch_id agent @ '' has been deleted.'' @ reason_note result)))"

definition delete_agent :: "agent_world \<Rightarrow> jsval \<Rightarrow> durable_session_runtime \<Rightarrow> turn_step" where
  "delete_agent w result = on_agent ''delete_agent'' result
     (\<lambda>agent rt.
        if is_sub_agent_terminal_status (sa_status agent) then delete_ended_agent w result agent rt
        else calling w ''delete_agent'' agent
          (Command_sent (sa_session_id agent) (agent_command ''delete'' (session_tag ''delete'' agent rt)
             (given_reason result ''Deleted by parent'') rt))
          (''Graceful deletion requested for sub-agent '' @ sa_orch_id agent @ ''. '' @
           ''It will cancel its descendants first and then delete itself.'' @ reason_note result) rt)"

section \<open>check_agents and list_sessions\<close>

definition agent_line :: "sub_agent_entry \<Rightarrow> string" where
  "agent_line agent =
     ''  - Agent '' @ sa_orch_id agent @ nl @ ''    Task: '' @ quoted (take 120 (sa_task agent)) @ nl"

definition count_text :: "jsval \<Rightarrow> string" where
  "count_text v = js_string (nullish_or v (JNum 0))"

text \<open>A parsed \<open>null\<close> throws when its status is read.\<close>

definition checked_agent :: "string + jsval \<Rightarrow> sub_agent_entry \<Rightarrow> sub_agent_entry \<times> string" where
  "checked_agent probe agent =
     (case (case probe of Inr JNull \<Rightarrow> Inl ''Cannot read properties of null (reading 'status')'' | _ \<Rightarrow> probe) of
        Inl error \<Rightarrow> (agent, agent_line agent @ ''    Status: unknown (error: '' @ error @ '')'')
      | Inr parsed \<Rightarrow>
          let status = jget ''status'' parsed;
              agent' = (if status \<in> {JStr ''completed'', JStr ''failed'', JStr ''idle''}
                then agent\<lparr>sa_status := (if status = JStr ''failed'' then ''failed'' else ''completed''),
                     sa_result := map_option (take 1000) (get_child_result_from_status parsed (sa_result agent))\<rparr>
                else agent)
          in (agent', agent_line agent @ ''    Status: '' @ js_string status @ nl @
                ''    Iterations: '' @ count_text (jget ''iterations'' parsed) @ nl @
                ''    Output: '' @ coalesce (get_child_result_from_status parsed (sa_result agent')) ''(no output yet)''))"

definition check_agents :: "agent_world \<Rightarrow> durable_session_runtime \<Rightarrow> turn_step" where
  "check_agents w rt =
     (let agents = ds_sub_agents (rt_state rt)
      in if agents = [] then followup ''No sub-agents have been spawned yet.'' rt
         else
           let checked = map (\<lambda>a. checked_agent (aw_status w (sa_session_id a)) a) agents
           in and_then
                (acting (\<lambda>s. ([], s\<lparr>ds_sub_agents := map fst checked\<rparr>)) rt)
                (followup (''Sub-agent status report ('' @ show_nat (length agents) @ '' agents):'' @ nl @
                   join nl (map snd checked))))"

text \<open>\<open>/^\d{4}-\d{2}-\d{2}T.*(?:Z|[+-]\d{2}:\d{2})$/\<close>\<close>

fun digits_at :: "char list \<Rightarrow> string \<Rightarrow> bool" where
  "digits_at [] s = True"
| "digits_at (p # ps) [] = False"
| "digits_at (p # ps) (c # cs) = ((if p = CHR ''d'' then is_digit c else c = p) \<and> digits_at ps cs)"

definition zoned_suffix :: "string \<Rightarrow> bool" where
  "zoned_suffix s \<longleftrightarrow> ends_with ''Z'' s \<or>
     (6 \<le> length s \<and> (let z = slice_last 6 s in digits_at ''+dd:dd'' z \<or> digits_at ''-dd:dd'' z))"

definition zoned_timestamp :: "string \<Rightarrow> bool" where
  "zoned_timestamp s \<longleftrightarrow> digits_at ''dddd-dd-ddT'' s \<and> CHR 0x0A \<notin> set s \<and> zoned_suffix (drop 11 s)"

definition session_timestamp_millis :: "(string \<Rightarrow> int option) \<Rightarrow> jsval \<Rightarrow> int option" where
  "session_timestamp_millis date_parse v =
     (case v of
        JNum r \<Rightarrow> if \<bar>r\<bar> \<le> 8640000000000000 then Some (if 0 \<le> r then \<lfloor>r\<rfloor> else \<lceil>r\<rceil>) else None
      | JStr s \<Rightarrow> if zoned_timestamp s then date_parse s else None
      | _ \<Rightarrow> None)"

definition format_session_timestamp :: "(string \<Rightarrow> int option) \<Rightarrow> jsval \<Rightarrow> string" where
  "format_session_timestamp date_parse v =
     (case session_timestamp_millis date_parse v of Some ms \<Rightarrow> iso_string ms | None \<Rightarrow> ''unknown'')"

definition owner_label :: "jsval \<Rightarrow> string" where
  "owner_label s =
     (let owner = jget ''owner'' s; kind = jget ''ownerKind'' s;
          principal = join '':'' (map js_string (filter truthy [jget ''provider'' owner, jget ''subject'' owner]))
      in if kind = JStr ''system'' then ''system''
         else if kind = JStr ''unowned'' then ''unowned''
         else if truthy (jget ''displayName'' owner) then js_string (jget ''displayName'' owner)
         else if truthy (jget ''email'' owner) then js_string (jget ''email'' owner)
         else if principal \<noteq> [] then principal else ''user'')"

definition session_line :: "(string \<Rightarrow> int option) \<Rightarrow> string \<Rightarrow> jsval \<Rightarrow> string" where
  "session_line date_parse sid s =
     ''  - '' @ js_string (jget ''sessionId'' s) @
     (if jget ''sessionId'' s = JStr sid then '' (this session)'' else []) @ nl @
     ''    Title: '' @ js_string (nullish_or (jget ''title'' s) (JStr ''(untitled)'')) @ nl @
     ''    Owner: '' @ owner_label s @ nl @
     ''    Created: '' @ format_session_timestamp date_parse (jget ''createdAt'' s) @ nl @
     ''    Updated: '' @ format_session_timestamp date_parse (jget ''updatedAt'' s) @ nl @
     ''    Status: '' @ js_string (jget ''status'' s) @ '', Iterations: '' @ count_text (jget ''iterations'' s) @ nl @
     ''    Parent: '' @ js_string (nullish_or (jget ''parentSessionId'' s) (JStr ''none''))"

definition list_sessions :: "agent_world \<Rightarrow> durable_session_runtime \<Rightarrow> turn_step" where
  "list_sessions w rt =
     (case aw_sessions w of
        None \<Rightarrow> (([], rt), Turn_failed ''listSessions failed'')
      | Some (JArr (s # ss)) \<Rightarrow>
          followup (''Active sessions ('' @ show_nat (length (s # ss)) @ ''):'' @ nl @
            join nl (map (session_line (aw_date_parse w) (runtime_sid rt)) (s # ss))) rt
      | Some _ \<Rightarrow> followup ''Active sessions (0). No sessions matched the requested filters.'' rt)"

section \<open>wait_for_agents\<close>

definition named_targets :: "jsval \<Rightarrow> string list" where
  "named_targets result = (case jget ''agentIds'' result of
       JArr ids \<Rightarrow> map js_string ids | _ \<Rightarrow> [])"

definition wait_targets :: "jsval \<Rightarrow> sub_agent_entry list \<Rightarrow> string list" where
  "wait_targets result agents =
     (let running = map sa_orch_id (filter (\<lambda>a. sa_status a = ''running'') agents)
      in if named_targets result \<noteq> [] then named_targets result
         else if running \<noteq> [] then running else map sa_orch_id agents)"

definition agent_poll_ms :: int where "agent_poll_ms = 30000"

definition arm_agent_wait :: "int \<Rightarrow> string list \<Rightarrow> durable_session_state \<Rightarrow> orch_effect list \<times> durable_session_state" where
  "arm_agent_wait now targets state =
     (let s = state\<lparr>ds_waiting_for_agent_ids := Some targets\<rparr>;
          reason = ''waiting for '' @ show_nat (length targets) @ '' agent(s)''
      in ([publish_status s ''waiting'' [(''waitReason'', JStr reason), number_field ''waitStartedAt'' now]],
          s\<lparr>ds_active_timer := Some ((new_timer Timer_agent_poll now agent_poll_ms reason)
              \<lparr>at_agent_ids := Some targets\<rparr>)\<rparr>))"

definition wait_for_agents :: "agent_world \<Rightarrow> jsval \<Rightarrow> durable_session_runtime \<Rightarrow> turn_step" where
  "wait_for_agents w result rt =
     (let agents = ds_sub_agents (rt_state rt); targets = wait_targets result agents
      in if targets = [] then
           followup ''No running sub-agents to wait for. All agents have already completed.'' rt
         else if get_still_running_agent_ids agents targets = [] then
           acting (\<lambda>s. ([], queue_followup (build_wait_for_agents_followup agents targets) s)) rt
         else acting (arm_agent_wait (aw_now w) targets) rt)"

section \<open>Dispatch\<close>

definition handle_sub_agent_action :: "agent_world \<Rightarrow> jsval \<Rightarrow> durable_session_runtime \<Rightarrow> turn_step" where
  "handle_sub_agent_action w result rt =
     (let ty = text_of ''type'' result
      in if ty = ''spawn_agent'' then spawn_agent w result rt
         else if ty = ''message_agent'' then message_agent w result rt
         else if ty = ''check_agents'' then check_agents w rt
         else if ty = ''list_sessions'' then list_sessions w rt
         else if ty = ''wait_for_agents'' then wait_for_agents w result rt
         else if ty = ''complete_agent'' then complete_agent w result rt
         else if ty = ''cancel_agent'' then cancel_agent w result rt
         else if ty = ''delete_agent'' then delete_agent w result rt
         else yielding [] rt)"

section \<open>What every action keeps\<close>

lemma queue_followup_keeps [simp]:
  "ds_sub_agents (queue_followup p s) = ds_sub_agents s" "running_count (queue_followup p s) = running_count s"
  by (simp_all add: queue_followup_def Let_def running_count_def)

lemma followup_simps [simp]:
  "fst (fst (followup t rt)) = []" "snd (followup t rt) = Turn_over"
  "rt_state (snd (fst (followup t rt))) = queue_followup (system_note t) (rt_state rt)"
  by (simp_all add: followup_def)

lemma and_then_followup_field [simp]:
  "and_then (acting f rt) (followup t) =
     ((fst (f (rt_state rt)), rt\<lparr>rt_state := queue_followup (system_note t) (snd (f (rt_state rt)))\<rparr>), Turn_over)"
  by (simp add: followup_def acting_def)

text \<open>A concrete session and worker for the instances below.\<close>

definition demo_spawn :: jsval where
  "demo_spawn = JObj [(''type'', JStr ''spawn_agent''), (''task'', JStr ''count'')]"

definition demo_agent_world :: agent_world where
  "demo_agent_world = \<lparr>aw_now = 0, aw_resolve = (\<lambda>_. None), aw_spawn = Inr ''c1'', aw_status = (\<lambda>_. Inl ''down''),
     aw_call_error = (\<lambda>_. None), aw_sessions = None, aw_date_parse = (\<lambda>_. None)\<rparr>"

definition demo_spawner :: durable_session_runtime where
  "demo_spawner = \<lparr>rt_input = new_session_input ''s1'' [],
     rt_options = derive_options (new_session_input ''s1'' []),
     rt_state = new_session_state\<lparr>ds_config := [(''agentIdentity'', JStr ''crawler-7'')]\<rparr>,
     rt_current_version = ''1.0.79''\<rparr>"

lemma demo_spawns:
  obtains effects rt' config meta where
    "handle_sub_agent_action demo_agent_world demo_spawn demo_spawner = ((effects, rt'), Turn_over)"
    "Child_spawned config meta \<in> set effects" "text_of ''agentName'' demo_spawn = []"
    "running_count (rt_state demo_spawner) \<le> max_sub_agents"
    "spawn_agent demo_agent_world demo_spawn demo_spawner = ((effects, rt'), Turn_over)"
proof -
  have free: "spawn_refusal (rt_options demo_spawner) demo_spawn (rt_state demo_spawner) = None"
    "text_of ''agentName'' demo_spawn = []" "\<not> unqualified_model demo_spawn"
    "text_of ''type'' demo_spawn = ''spawn_agent''" "running_count (rt_state demo_spawner) = 0"
    by code_simp+
  have "aw_spawn demo_agent_world = Inr ''c1''" by (simp add: demo_agent_world_def)
  then show ?thesis using free
    by (intro that) (auto simp: spawn_agent_def spawn_planned_def handle_sub_agent_action_def Let_def prod_eq_iff)
qed

text \<open>A step that spawns no child and leaves no more running sub-agents than there were.\<close>

definition no_more_running :: "durable_session_runtime \<Rightarrow> turn_step \<Rightarrow> bool" where
  "no_more_running rt step \<longleftrightarrow> (\<forall>config meta. Child_spawned config meta \<notin> set (fst (fst step))) \<and>
     running_count (rt_state (snd (fst step))) \<le> running_count (rt_state rt)"

lemma no_more_followup [simp]: "no_more_running rt (followup t rt)"
  by (simp add: no_more_running_def)

lemma no_more_calling:
  assumes "(\<forall>config meta. effect \<noteq> Child_spawned config meta)"
  shows "no_more_running rt (calling w action agent effect answer rt)"
  using assms by (auto simp: no_more_running_def calling_def split: option.split)

lemma no_more_on_agent:
  "(\<And>agent. no_more_running rt (f agent rt)) \<Longrightarrow> no_more_running rt (on_agent action result f rt)"
  by (simp add: on_agent_def Let_def split: option.split)

lemma length_filter_update_first:
  "(\<And>a. P (g a) = P a) \<Longrightarrow> length (filter P (update_first Q g xs)) = length (filter P xs)"
  by (induction xs) auto

lemma patch_contract_status [simp]: "sa_status (patch_contract p a) = sa_status a"
  by (simp add: patch_contract_def split: jsval.split)

lemma no_more_message: "no_more_running rt (message_agent w result rt)"
  unfolding message_agent_def
  by (rule no_more_on_agent)
    (auto simp: no_more_running_def calling_def Let_def running_count_def length_filter_update_first split: option.split)

lemma no_more_delete: "no_more_running rt (delete_agent w result rt)"
proof -
  have "length (filter P (filter Q xs)) \<le> length (filter P xs)" for P Q and xs :: "sub_agent_entry list"
    by (induction xs) auto
  then have "no_more_running rt (delete_ended_agent w result agent rt)" for agent
    by (simp add: no_more_running_def delete_ended_agent_def running_count_def del: filter_filter split: option.split)
  then show ?thesis unfolding delete_agent_def
    by (auto intro!: no_more_on_agent no_more_calling)
qed

lemma checked_running: "sa_status (fst (checked_agent probe a)) = ''running'' \<Longrightarrow> sa_status a = ''running''"
  by (auto simp: checked_agent_def Let_def split: sum.splits jsval.splits if_splits)

lemma length_filter_map_le:
  "(\<And>a. P (f a) \<Longrightarrow> P a) \<Longrightarrow> length (filter P (map f xs)) \<le> length (filter P xs)"
  by (induction xs) (auto simp: le_SucI)

lemma no_more_check: "no_more_running rt (check_agents w rt)"
proof -
  have "length (filter (\<lambda>a. sa_status a = ''running'') (map (\<lambda>a. fst (checked_agent (probe a) a)) xs)) \<le>
      length (filter (\<lambda>a. sa_status a = ''running'') xs)" for probe xs
    by (rule length_filter_map_le) (rule checked_running)
  then show ?thesis
    by (simp add: check_agents_def no_more_running_def Let_def running_count_def comp_def)
qed

lemma no_more_list: "no_more_running rt (list_sessions w rt)"
  by (simp add: list_sessions_def no_more_running_def split: option.split jsval.split list.split)

lemma no_more_wait: "no_more_running rt (wait_for_agents w result rt)"
  by (simp add: wait_for_agents_def no_more_running_def arm_agent_wait_def publish_status_def running_count_def Let_def)

lemma spawn_refusal_None:
  "spawn_refusal options result s = None \<Longrightarrow> running_count s < max_sub_agents \<and> do_nesting_level options < max_nesting_level"
  by (auto simp: spawn_refusal_def split: if_splits)

lemma spawn_planned_cases:
  obtains t where "spawn_planned w result plan rt = followup t rt"
  | child_id e t where
    "spawn_planned w result plan rt =
      (([Child_spawned (briefed (runtime_sid rt) (do_nesting_level (rt_options rt) + 1) (titled plan)
            (child_config (titled plan) result (ds_config (rt_state rt))))
            (spawn_request (titled plan) (do_nesting_level (rt_options rt) + 1)),
         Event_recorded (runtime_sid rt) ''session.agent_spawned'' e],
        rt\<lparr>rt_state := queue_followup (system_note t)
          ((rt_state rt)\<lparr>ds_sub_agents := ds_sub_agents (rt_state rt) @ [spawned_agent child_id (titled plan) result]\<rparr>)\<rparr>),
       Turn_over)"
proof (cases "unqualified_model result")
  case False
  show ?thesis
  proof (cases "aw_spawn w")
    case (Inr child_id)
    show ?thesis
      by (rule that(2) [of _ "spawned_note child_id (text_of ''agentName'' result) (titled plan)" child_id])
        (simp add: spawn_planned_def False Inr Let_def followup_def acting_def)
  qed (use that(1) in \<open>simp add: spawn_planned_def False\<close>)
qed (use that(1) in \<open>simp add: spawn_planned_def\<close>)

lemma spawn_agent_cases:
  obtains t where "spawn_agent w result rt = followup t rt"
  | m where "spawn_agent w result rt = (([], rt), Turn_failed m)"
  | plan where "spawn_agent w result rt = spawn_planned w result plan rt"
    "spawn_refusal (rt_options rt) result (rt_state rt) = None"
    "text_of ''agentName'' result = [] \<longrightarrow> plan = custom_plan result"
proof -
  let ?name = "text_of ''agentName'' result"
  consider why where "spawn_refusal (rt_options rt) result (rt_state rt) = Some why"
    | "spawn_refusal (rt_options rt) result (rt_state rt) = None" "?name = []"
    | "spawn_refusal (rt_options rt) result (rt_state rt) = None" "?name \<noteq> []" "aw_resolve w ?name = None"
    | d why where "spawn_refusal (rt_options rt) result (rt_state rt) = None" "?name \<noteq> []"
      "aw_resolve w ?name = Some d" "definition_refusal ?name result d = Some why"
    | d where "spawn_refusal (rt_options rt) result (rt_state rt) = None" "?name \<noteq> []"
      "aw_resolve w ?name = Some d" "definition_refusal ?name result d = None"
    by (meson option.exhaust)
  then show ?thesis
  proof cases
    case (1 why)
    then show ?thesis using that(1) [of why] by (simp add: spawn_agent_def)
  next
    case 2
    then show ?thesis using that(3) [of "custom_plan result"] by (simp add: spawn_agent_def)
  next
    case 3
    then show ?thesis using that(2) by (simp add: spawn_agent_def)
  next
    case (4 d why)
    then show ?thesis using that(1) [of why] by (simp add: spawn_agent_def)
  next
    case (5 d)
    then show ?thesis using that(3) [of "apply_agent_def result d"] by (simp add: spawn_agent_def)
  qed
qed

lemma map_of_spawn_request [simp]: "map_of (spawn_request p level) ''nestingLevel'' = Some (JNum (of_int level))"
  by (simp add: spawn_request_def number_field_def)

lemma handle_sub_agent_cases:
  obtains "no_more_running rt (handle_sub_agent_action w result rt)"
  | "handle_sub_agent_action w result rt = spawn_agent w result rt"
proof -
  have "no_more_running rt (complete_agent w result rt)" "no_more_running rt (cancel_agent w result rt)"
    unfolding complete_agent_def cancel_agent_def by (auto intro!: no_more_on_agent no_more_calling)
  moreover have "no_more_running rt (yielding [] rt)" by (simp add: no_more_running_def)
  ultimately have "no_more_running rt (handle_sub_agent_action w result rt)"
    if "text_of ''type'' result \<noteq> ''spawn_agent''"
    using that no_more_message no_more_delete no_more_check no_more_list no_more_wait
    by (simp add: handle_sub_agent_action_def Let_def)
  then show ?thesis using that by (cases "text_of ''type'' result = ''spawn_agent''") (auto simp: handle_sub_agent_action_def)
qed

text \<open>
  C31. No action of an agent takes its session over fifty running sub-agents, and no child is spawned
  below the second level of nesting, whatever the action asks for and whatever the worker answers
  (\<open>handleSubAgentAction\<close>, \<open>agents.ts\<close>).
\<close>

theorem spawn_bounds:
  assumes "running_count (rt_state rt) \<le> max_sub_agents"
    and "handle_sub_agent_action w result rt = ((effects, rt'), flow)"
  shows "running_count (rt_state rt') \<le> max_sub_agents \<and>
    (\<forall>config meta. Child_spawned config meta \<in> set effects \<longrightarrow>
      (\<exists>level \<le> max_nesting_level. map_of meta ''nestingLevel'' = Some (JNum (of_int level))))"
proof -
  have kept: ?thesis if "no_more_running rt ((effects, rt'), flow)"
    using that assms(1) by (auto simp: no_more_running_def)
  show ?thesis
  proof (cases rule: handle_sub_agent_cases [of rt w result])
    case 1
    then show ?thesis using kept assms(2) by simp
  next
    case 2
    then have step: "spawn_agent w result rt = ((effects, rt'), flow)" using assms(2) by simp
    show ?thesis
    proof (cases rule: spawn_agent_cases [of w result rt])
      case (1 t)
      then show ?thesis using kept step no_more_followup by metis
    next
      case (2 m)
      then show ?thesis using kept step by (simp add: no_more_running_def)
    next
      case (3 plan)
      note bounds = spawn_refusal_None [OF 3(2)]
      show ?thesis
      proof (cases rule: spawn_planned_cases [of w result plan rt])
        case (1 t)
        then show ?thesis using kept step 3(1) no_more_followup by metis
      next
        case (2 child_id e t)
        then have grown: "running_count (rt_state rt') \<le> Suc (running_count (rt_state rt))"
          and child: "\<forall>config meta. Child_spawned config meta \<in> set effects \<longrightarrow>
            meta = spawn_request (titled plan) (do_nesting_level (rt_options rt) + 1)"
          using step 3(1) by (auto simp: running_count_def spawned_agent_def)
        have "do_nesting_level (rt_options rt) + 1 \<le> max_nesting_level" using bounds by simp
        then have "\<exists>level \<le> max_nesting_level. map_of meta ''nestingLevel'' = Some (JNum (of_int level))"
          if "Child_spawned config meta \<in> set effects" for config meta
          using that child map_of_spawn_request by blast
        then show ?thesis using bounds grown by simp
      qed
    qed
  qed
qed


theorem spawn_bounds_witness:
  "\<exists>effects rt' config meta. handle_sub_agent_action demo_agent_world demo_spawn demo_spawner = ((effects, rt'), Turn_over) \<and>
     Child_spawned config meta \<in> set effects \<and> running_count (rt_state rt') \<le> max_sub_agents \<and>
     (\<exists>level \<le> max_nesting_level. map_of meta ''nestingLevel'' = Some (JNum (of_int level)))"
proof -
  obtain effects rt' config meta where
    spawned: "handle_sub_agent_action demo_agent_world demo_spawn demo_spawner = ((effects, rt'), Turn_over)"
    "Child_spawned config meta \<in> set effects" "text_of ''agentName'' demo_spawn = []"
    "running_count (rt_state demo_spawner) \<le> max_sub_agents"
    "spawn_agent demo_agent_world demo_spawn demo_spawner = ((effects, rt'), Turn_over)"
    by (rule demo_spawns)
  note bounds = spawn_bounds [OF spawned(4,1)]
  have "\<exists>level \<le> max_nesting_level. map_of meta ''nestingLevel'' = Some (JNum (of_int level))"
    by (rule bounds [THEN conjunct2, rule_format, OF spawned(2)])
  with spawned(1,2) bounds [THEN conjunct1] show ?thesis by metis
qed

text \<open>What an action leaves the session with: a follow-up to run, or a wait with its timer armed.\<close>

definition answered :: "durable_session_state \<Rightarrow> bool" where
  "answered s \<longleftrightarrow> truthy_str (ds_pending_prompt s) \<or>
     (\<exists>targets t. targets \<noteq> [] \<and> ds_waiting_for_agent_ids s = Some targets \<and> ds_active_timer s = Some t \<and>
        at_agent_ids t = Some targets \<and> at_type t = Timer_agent_poll)"

definition answers :: "turn_step \<Rightarrow> bool" where
  "answers step \<longleftrightarrow> (snd step = Turn_over \<longrightarrow> answered (rt_state (snd (fst step))))"

lemma answers_followup [simp]: "\<not> is_ws c \<Longrightarrow> answers (followup (c # r) rt)"
  using queue_followup_truthy [of _ c r] by (simp add: answers_def answered_def system_note_def)

lemma refused_Cons: "refused (c # a) why = c # refused a why"
  by (simp add: refused_def)

lemma answers_refused [simp]: "\<not> is_ws c \<Longrightarrow> answers (followup (refused (c # a) why) rt)"
  by (simp add: refused_Cons)

lemma answers_and_then: "(\<And>rt'. answers (f rt')) \<Longrightarrow> answers (and_then m f)"
  by (cases m) (auto simp: answers_def and_then_def split: turn_flow.splits)

lemma answers_calling:
  "\<not> is_ws c \<Longrightarrow> \<not> is_ws d \<Longrightarrow> answers (calling w (c # a) agent effect (d # r) rt)"
  by (auto simp: calling_def simp del: and_then_yielding and_then_acting and_then_followup_field
      intro!: answers_and_then split: option.split)

lemma answers_on_agent:
  "\<not> is_ws c \<Longrightarrow> (\<And>agent. answers (f agent rt)) \<Longrightarrow> answers (on_agent (c # a) result f rt)"
  by (simp add: on_agent_def Let_def split: option.split)

lemma answers_refusals:
  "spawn_refusal options result s = Some why \<Longrightarrow> answers (followup why rt)"
  "definition_refusal name result d = Some why \<Longrightarrow> answers (followup why rt)"
  by (auto simp: spawn_refusal_def definition_refusal_def is_ws_def split: if_splits)

lemma answers_spawn: "answers (spawn_agent w result rt)"
proof -
  have "answers (spawn_planned w result plan rt)" for plan
    by (auto simp: spawn_planned_def Let_def spawned_note_def is_ws_def simp del: and_then_acting and_then_followup_field
        intro!: answers_and_then split: sum.split)
  then show ?thesis
    by (auto simp: spawn_agent_def Let_def answers_refusals answers_def [of "(_, Turn_failed _)"] split: option.split)
qed

lemma answers_wait: "answers (wait_for_agents w result rt)"
proof (cases "wait_targets result (ds_sub_agents (rt_state rt)) = [] \<or>
    get_still_running_agent_ids (ds_sub_agents (rt_state rt)) (wait_targets result (ds_sub_agents (rt_state rt))) = []")
  case True
  have "truthy_str (ds_pending_prompt (queue_followup (build_wait_for_agents_followup as ts) s))" for as ts s
    using followup_shape [of as ts] queue_followup_truthy by blast
  then show ?thesis using True
    by (auto simp: wait_for_agents_def Let_def is_ws_def)
      (simp add: answers_def answered_def acting_def)
next
  case False
  then show ?thesis
    by (auto simp: wait_for_agents_def Let_def arm_agent_wait_def answers_def answered_def acting_def new_timer_def)
qed

lemma answers_reports: "answers (check_agents w rt)" "answers (list_sessions w rt)"
proof -
  show "answers (check_agents w rt)"
    by (auto simp: check_agents_def Let_def is_ws_def simp del: and_then_acting and_then_followup_field
        intro!: answers_and_then)
  show "answers (list_sessions w rt)"
    by (auto simp: list_sessions_def is_ws_def answers_def [of "(_, Turn_failed _)"]
        split: option.split jsval.split list.split)
qed

lemma answers_agent_calls:
  "answers (message_agent w result rt)" "answers (complete_agent w result rt)" "answers (cancel_agent w result rt)"
  "answers (delete_agent w result rt)"
  unfolding message_agent_def complete_agent_def cancel_agent_def delete_agent_def delete_ended_agent_def
  by (auto intro!: answers_on_agent answers_and_then answers_calling simp: is_ws_def
      simp del: and_then_acting and_then_followup_field split: option.split)

text \<open>
  C32. A sub-agent action always answers the model: one of the eight actions that is over leaves a
  follow-up to run, or has the session wait for named agents under a poll timer that holds them; no
  refusal, failed call or empty list is silent (\<open>handleSubAgentAction\<close>, \<open>agents.ts\<close>).
\<close>

theorem action_answers:
  assumes "text_of ''type'' result \<in> {''spawn_agent'', ''message_agent'', ''check_agents'', ''list_sessions'',
      ''wait_for_agents'', ''complete_agent'', ''cancel_agent'', ''delete_agent''}"
    and "handle_sub_agent_action w result rt = ((effects, rt'), Turn_over)"
  shows "answered (rt_state rt')"
proof -
  have "answers (handle_sub_agent_action w result rt)"
    using assms(1) answers_spawn answers_wait answers_reports answers_agent_calls
    by (auto simp: handle_sub_agent_action_def)
  then show ?thesis using assms(2) by (simp add: answers_def)
qed


theorem action_answers_witness:
  "answered (rt_state (snd (fst (handle_sub_agent_action demo_agent_world (JObj [(''type'', JStr ''check_agents'')]) demo_spawner))))"
proof (rule action_answers)
  show "text_of ''type'' (JObj [(''type'', JStr ''check_agents'')]) \<in> {''spawn_agent'', ''message_agent'',
      ''check_agents'', ''list_sessions'', ''wait_for_agents'', ''complete_agent'', ''cancel_agent'', ''delete_agent''}"
    by code_simp
  show "handle_sub_agent_action demo_agent_world (JObj [(''type'', JStr ''check_agents'')]) demo_spawner =
      ((fst (fst (handle_sub_agent_action demo_agent_world (JObj [(''type'', JStr ''check_agents'')]) demo_spawner)),
        snd (fst (handle_sub_agent_action demo_agent_world (JObj [(''type'', JStr ''check_agents'')]) demo_spawner))), Turn_over)"
    by (simp add: prod_eq_iff handle_sub_agent_action_def text_of_def check_agents_def demo_spawner_def Let_def)
qed

section \<open>What a child takes from its parent\<close>

lemma map_of_without: "map_of (filter (\<lambda>kv. fst kv \<notin> set parent_only_keys) c) k = (if k \<in> set parent_only_keys then None else map_of c k)"
  by (induction c) auto

lemma parent_only: "k \<in> set parent_only_keys \<longleftrightarrow> k = ''boundAgentName'' \<or> k = ''boundAgentPackageId'' \<or>
    k = ''boundAgentSource'' \<or> k = ''namedAgentToolAdditions'' \<or> k = ''childContract'' \<or>
    k = ''detachedPackageToolPolicy'' \<or> k = ''promptLayering'' \<or> k = ''agentIdentity'' \<or> k = ''isCrawler'' \<or>
    k = ''isHarvester''"
  by (auto simp: parent_only_keys_def)

lemma map_of_set_when [simp]: "map_of (set_when b k v c) j = (if b \<and> j = k then Some v else map_of c j)"
  by (simp add: set_when_def)

lemma map_of_child_config:
  "map_of (child_config p result c) ''agentIdentity'' = None"
  "map_of (child_config p result c) ''isCrawler'' = None"
  "map_of (child_config p result c) ''isHarvester'' = None"
  "map_of (child_config p result c) ''namedAgentToolAdditions'' = None"
  "map_of (child_config p result c) ''childContract'' =
     (if truthy (jget ''contract'' result) then Some (jget ''contract'' result) else None)"
  "map_of (child_config p result c) ''detachedPackageToolPolicy'' =
     Some (JStr (if truthy_str (sp_bound_name p) \<or> tool_names_given result then ''reject'' else ''drop''))"
  "map_of (child_config p result c) ''boundAgentName'' =
     (if truthy_str (sp_bound_name p) then Some (JStr (coalesce (sp_bound_name p) [])) else None)"
  "map_of (child_config p result c) ''boundAgentPackageId'' =
     (if truthy_str (sp_bound_package p) then Some (JStr (coalesce (sp_bound_package p) [])) else None)"
  "map_of (child_config p result c) ''boundAgentSource'' =
     (if truthy_str (sp_bound_name p) \<and> \<not> truthy_str (sp_bound_package p) then Some (JStr ''deployment'') else None)"
  "map_of (child_config p result c) ''promptLayering'' =
     (if sp_layering p \<noteq> None then Some (JObj [(''kind'', JStr (coalesce (sp_layering p) []))]) else None)"
  by (simp_all add: child_config_def set_truthy_def set_text_def map_of_without del: not_None_eq)
    (simp_all add: parent_only)


text \<open>
  C33. A spawned child does not take over what its parent is: its configuration never carries the
  parent's agent identity, its crawler and harvester roles or its added tools, its contract is the
  one the action gave, and a child without an agent name is bound to no agent definition and no prompt
  layer; a child never keeps an unresolved tool policy (\<open>handleSubAgentAction\<close>, \<open>agents.ts\<close>).
\<close>

theorem child_inherits_no_identity:
  assumes "Child_spawned config meta \<in> set (fst (fst (spawn_agent w result rt)))"
  shows "map_of config ''agentIdentity'' = None \<and> map_of config ''isCrawler'' = None \<and>
    map_of config ''isHarvester'' = None \<and> map_of config ''namedAgentToolAdditions'' = None \<and>
    map_of config ''childContract'' = (if truthy (jget ''contract'' result) then Some (jget ''contract'' result) else None) \<and>
    map_of config ''detachedPackageToolPolicy'' \<in> {Some (JStr ''reject''), Some (JStr ''drop'')} \<and>
    (text_of ''agentName'' result = [] \<longrightarrow>
       map_of config ''boundAgentName'' = None \<and> map_of config ''boundAgentPackageId'' = None \<and>
       map_of config ''boundAgentSource'' = None \<and> map_of config ''promptLayering'' = None)"
proof (cases rule: spawn_agent_cases [of w result rt])
  case (3 plan)
  have custom: "sp_bound_name (titled (custom_plan result)) = None" "sp_bound_package (titled (custom_plan result)) = None"
    "sp_layering (titled (custom_plan result)) = None"
    by (simp_all add: titled_def custom_plan_def)
  show ?thesis
  proof (cases rule: spawn_planned_cases [of w result plan rt])
    case (2 child_id e t)
    then have config: "config = briefed (runtime_sid rt) (do_nesting_level (rt_options rt) + 1) (titled plan)
        (child_config (titled plan) result (ds_config (rt_state rt)))"
      using assms 3(1) by simp
    have "map_of config k = map_of (child_config (titled plan) result (ds_config (rt_state rt))) k"
      if "k \<noteq> ''systemMessage''" for k using that by (simp add: config briefed_def)
    then show ?thesis using custom 3(3) by (simp add: map_of_child_config)
  qed (use assms 3(1) in simp)
qed (use assms in simp_all)


theorem child_inherits_no_identity_witness:
  "map_of (ds_config (rt_state demo_spawner)) ''agentIdentity'' = Some (JStr ''crawler-7'') \<and>
   (\<exists>config meta. Child_spawned config meta \<in> set (fst (fst (spawn_agent demo_agent_world demo_spawn demo_spawner))) \<and>
      map_of config ''agentIdentity'' = None \<and> map_of config ''boundAgentName'' = None)"
proof -
  obtain effects rt' config meta where
    spawned: "handle_sub_agent_action demo_agent_world demo_spawn demo_spawner = ((effects, rt'), Turn_over)"
    "Child_spawned config meta \<in> set effects" "text_of ''agentName'' demo_spawn = []"
    "running_count (rt_state demo_spawner) \<le> max_sub_agents"
    "spawn_agent demo_agent_world demo_spawn demo_spawner = ((effects, rt'), Turn_over)"
    by (rule demo_spawns)
  then have child: "Child_spawned config meta \<in> set (fst (fst (spawn_agent demo_agent_world demo_spawn demo_spawner)))"
    by simp
  have "map_of (ds_config (rt_state demo_spawner)) ''agentIdentity'' = Some (JStr ''crawler-7'')"
    by (simp add: demo_spawner_def)
  then show ?thesis using child_inherits_no_identity [OF child] spawned(3) child by blast
qed

end
