(* ===== verification/OrchResult.thy ===== *)
theory OrchResult
  imports OrchAgents
begin

text \<open>
  What a turn's result does (\<open>handleTurnResult\<close> and its helpers, \<open>packages/sdk/src/orchestration/turn.ts\<close>,
  lines 939 to 1417): the response and the report to the parent, the schedules, the wait with its
  timer, the question, the sub-agent actions, and the errors.

  A result is the parsed value of the activity; seconds are whole. A completed turn's content and a
  wait's reason are strings, as the result's type says.
\<close>

section \<open>Rewriting a result\<close>

definition with_field :: "string \<Rightarrow> jsval \<Rightarrow> jsval \<Rightarrow> jsval" where
  "with_field k v result = (case result of JObj kvs \<Rightarrow> JObj (obj_set k v kvs) | _ \<Rightarrow> result)"

definition result_type :: "jsval \<Rightarrow> string" where
  "result_type = text_of ''type''"

definition coerce_child_question_to_wait :: "durable_session_options \<Rightarrow> jsval \<Rightarrow> jsval" where
  "coerce_child_question_to_wait options result =
     (if result_type result = ''completed'' \<and> truthy_str (do_parent_session_id options) \<and>
         starts_with ''question for parent:'' (map lower_ascii (trim (text_of ''content'' result)))
      then JObj [(''type'', JStr ''wait''), number_field ''seconds'' 60,
        (''reason'', JStr ''waiting for parent answer''), (''content'', JStr (trim (text_of ''content'' result))),
        (''model'', jget ''model'' result)]
      else result)"

definition is_budget_refusal :: "jsval \<Rightarrow> bool" where
  "is_budget_refusal result \<longleftrightarrow> result_type result = ''wait'' \<and> jget ''budget'' result = JBool True"

definition synthesize_wait_interrupt_reply_if_needed ::
  "string \<Rightarrow> durable_session_state \<Rightarrow> jsval \<Rightarrow> orch_effect list \<times> jsval" where
  "synthesize_wait_interrupt_reply_if_needed sid state result =
     (if Option.bind (ds_interrupted_wait_timer state) iw_interrupt_kind = Some ''user'' \<and>
         result_type result \<in> {''completed'', ''wait''} \<and> trim (text_of ''content'' result) = []
      then ([Event_recorded sid ''assistant.message''
               [(''content'', JStr ''I'm here. Resuming the timer.''), (''synthetic'', JBool True),
                (''reason'', JStr ''wait_interrupt_empty_reply'')]],
            with_field ''content'' (JStr ''I'm here. Resuming the timer.'') result)
      else ([], result))"

section \<open>The stash of prompts the budget gate refused\<close>

definition provider_budget_wake_prompt :: string where
  "provider_budget_wake_prompt =
     ''[SYSTEM: The budget that paused this session has changed. '' @
     ''The user did not send a new message. Continue with your task.]''"

definition stash_key :: "string list \<Rightarrow> string \<Rightarrow> string" where
  "stash_key ids prompt = (if ids \<noteq> [] then join '','' ids else prompt)"

definition entry_key :: "budget_stashed_prompt \<Rightarrow> string" where
  "entry_key e = stash_key (coalesce (bs_client_message_ids e) []) (bs_prompt e)"

text \<open>Nobody's words: the guards of \<open>stashBudgetRefusedPrompt\<close>.\<close>

definition nobodys_words :: "string \<Rightarrow> bool" where
  "nobodys_words prompt \<longleftrightarrow> prompt = [] \<or> starts_with ''[system:'' (map lower_ascii prompt) \<or>
     prompt = provider_budget_wake_prompt \<or> prompt = internal_system_turn_prompt"

definition stash_bare :: "string \<Rightarrow> string" where
  "stash_bare source_prompt = trim (fst (split_system_context_block (Some source_prompt)))"

definition require_tool :: "string option \<Rightarrow> budget_stashed_prompt \<Rightarrow> budget_stashed_prompt" where
  "require_tool tool e =
     (if \<not> truthy_str (bs_required_tool e) \<and> truthy_str tool then e\<lparr>bs_required_tool := tool\<rparr> else e)"

definition stash_budget_refused_prompt ::
  "string \<Rightarrow> string \<Rightarrow> string list option \<Rightarrow> bool \<Rightarrow> string option \<Rightarrow> durable_session_state \<Rightarrow>
   orch_effect list \<times> durable_session_state" where
  "stash_budget_refused_prompt sid source_prompt client_message_ids is_bootstrap required_tool state =
     (let prompt = stash_bare source_prompt;
          ids = filter (\<lambda>i. i \<noteq> []) (coalesce client_message_ids []);
          key = stash_key ids prompt; stash = coalesce (ds_budget_stash state) []
      in if nobodys_words prompt then ([], state)
         else if \<exists>e \<in> set stash. entry_key e = key then
           ([], state\<lparr>ds_budget_stash := Some (update_first (\<lambda>e. entry_key e = key) (require_tool required_tool) stash)\<rparr>)
         else
           ([Event_recorded sid ''user.message''
               ([(''content'', JStr prompt)] @
                (if ids = [] then [] else [(''clientMessageIds'', JArr (map JStr ids))]) @
                [(''budgetQueued'', JBool True)] @
                (if is_bootstrap
                 then [(''sender'', JObj [(''kind'', JStr ''system''), (''display'', JStr ''agent kickoff'')])]
                 else []))],
            state\<lparr>ds_budget_stash := Some (stash @
              [\<lparr>bs_prompt = prompt, bs_client_message_ids = some_list ids,
                bs_required_tool = if_truthy required_tool\<rparr>])\<rparr>))"

section \<open>Reporting to the parent\<close>

definition child_contract :: "durable_session_state \<Rightarrow> jsval" where
  "child_contract state = coalesce (map_of (ds_config state) ''childContract'') JUndef"

definition decision_json :: "parent_wake_decision \<Rightarrow> config_obj" where
  "decision_json d = [(''wake'', JBool (wake d)), (''policy'', JStr (policy_text (wd_policy d))),
     (''classification'', JStr (classification_text (wd_classification d))), (''reason'', JStr (wd_reason d))]"

definition suppressed_update :: "string \<Rightarrow> string \<Rightarrow> config_obj \<Rightarrow> parent_wake_decision \<Rightarrow> orch_effect" where
  "suppressed_update sid update_type extra d =
     Event_recorded sid ''session.child_update_suppressed''
       ([(''direction'', JStr ''child_to_parent''), (''updateType'', JStr update_type)] @ extra @ decision_json d)"

definition cycle_status :: "jsval \<Rightarrow> jsval" where
  "cycle_status result = jget ''status'' (jget ''cycleReport'' result)"

definition report_summary :: "jsval \<Rightarrow> string" where
  "report_summary result =
     (let summary = text_of ''summary'' (jget ''cycleReport'' result)
      in if summary \<noteq> [] then summary else text_of ''content'' result)"

definition completed_update :: "jsval \<Rightarrow> string option \<Rightarrow> child_update_snapshot" where
  "completed_update result cycle_origin =
     (let status = cycle_status result
      in \<lparr>cu_kind = Completed, cu_summary = Some (report_summary result),
          cu_result = (if status = JStr ''blocked'' then JObj [(''verdict'', JStr ''blocked'')] else JUndef),
          cu_material = (if status = JStr ''material'' \<or> status = JStr ''blocked'' then JBool True
                         else if status = JStr ''quiet'' then JBool False else JUndef),
          cu_cyclic = (if truthy_str cycle_origin then JBool True else JUndef),
          cu_wait_is_heartbeat = JUndef\<rparr>)"

definition completed_message :: "string \<Rightarrow> int \<Rightarrow> jsval \<Rightarrow> string option \<Rightarrow> string" where
  "completed_message sid iteration result cycle_origin =
     ''[CHILD_UPDATE '' @
     join '' '' ([''from='' @ sid, ''type=completed'', ''iter='' @ show_int iteration] @
       (if truthy_str cycle_origin then [''cycle='' @ the cycle_origin] else []) @
       (if truthy (cycle_status result) then [''status='' @ js_string (cycle_status result)] else [])) @
     '']'' @ nl @ take 2000 (report_summary result)"

definition cycle_fields :: "jsval \<Rightarrow> string option \<Rightarrow> config_obj" where
  "cycle_fields result cycle_origin =
     [(''cycleOrigin'', case cycle_origin of Some c \<Rightarrow> JStr c | None \<Rightarrow> JUndef),
      (''cycleReport'', jget ''cycleReport'' result)]"

text \<open>A completed turn's report, and whether a system sub-agent without a schedule goes on at once.\<close>

definition report_completed ::
  "turn_world \<Rightarrow> string \<Rightarrow> string \<Rightarrow> jsval \<Rightarrow> string option \<Rightarrow> durable_session_state \<Rightarrow>
   orch_effect list \<times> durable_session_state" where
  "report_completed w sid parent result cycle_origin state =
     (let d = should_wake_parent_for_child_update
            \<lparr>pw_update = completed_update result cycle_origin, pw_contract = child_contract state\<rparr>;
          first_report = (\<not> truthy_str cycle_origin \<and> \<not> ds_reported_first_completion state)
      in if wake d \<or> first_report then
           ((if tw_parent_down w then []
             else [Message_sent parent (completed_message sid (ds_iteration state) result cycle_origin)]),
            state\<lparr>ds_reported_first_completion := True\<rparr>)
         else ([suppressed_update sid ''completed'' (cycle_fields result cycle_origin) d], state))"

definition wait_notice :: "jsval \<Rightarrow> int \<Rightarrow> string" where
  "wait_notice result seconds =
     (if text_of ''content'' result \<noteq> [] then take 2000 (text_of ''content'' result)
      else ''[wait: '' @ text_of ''reason'' result @ '' ('' @ show_int seconds @ ''s)]'')"

definition report_wait ::
  "turn_world \<Rightarrow> string \<Rightarrow> string \<Rightarrow> jsval \<Rightarrow> string \<Rightarrow> durable_session_state \<Rightarrow> orch_effect list" where
  "report_wait w sid parent result notice state =
     (let d = should_wake_parent_for_child_update
            \<lparr>pw_update = \<lparr>cu_kind = Wait, cu_summary = Some notice, cu_result = JUndef,
               cu_material = (if jget ''material'' result = JBool True then JBool True else JUndef),
               cu_cyclic = JUndef, cu_wait_is_heartbeat = JBool True\<rparr>, pw_contract = child_contract state\<rparr>
      in if wake d then
           (if tw_parent_down w then []
            else [Message_sent parent (''[CHILD_UPDATE from='' @ sid @ '' type=wait iter='' @
                    show_int (ds_iteration state) @ '']'' @ nl @ notice)])
         else [suppressed_update sid ''wait'' [] d])"

section \<open>The kinds of results\<close>

definition continue_after_turn :: "turn_world \<Rightarrow> durable_session_runtime \<Rightarrow> turn_step" where
  "continue_after_turn w rt =
     (case schedule_post_turn_continuation (tw_tz_offset w) (rt_options rt) (tw_guid w) (tw_now w) (rt_state rt) of
        None \<Rightarrow> (([], rt), Turn_failed ''cron_at next-fire computation did not return a fire time'')
      | Some (effects, s) \<Rightarrow> ((effects, rt\<lparr>rt_state := s\<rparr>), Turn_over))"

definition response :: "durable_session_state \<Rightarrow> string \<Rightarrow> config_obj \<Rightarrow> jsval \<Rightarrow> config_obj" where
  "response state ty extra result =
     [number_field ''iteration'' (ds_iteration state), (''type'', JStr ty)] @ extra @
     [(''model'', jget ''model'' result)]"

definition finish_completed ::
  "turn_world \<Rightarrow> jsval \<Rightarrow> string option \<Rightarrow> durable_session_runtime \<Rightarrow> turn_step" where
  "finish_completed w result cycle_origin rt =
     (case if_truthy (do_parent_session_id (rt_options rt)) of
        None \<Rightarrow> continue_after_turn w rt
      | Some parent \<Rightarrow> and_then
          (acting (report_completed w (runtime_sid rt) parent result cycle_origin) rt)
          (\<lambda>rt. if oi_is_system (rt_input rt) = Some True \<and> ds_cron_schedule (rt_state rt) = None \<and>
                   ds_cron_at_schedule (rt_state rt) = None
                then yielding [] rt else continue_after_turn w rt))"

definition handle_completed ::
  "turn_world \<Rightarrow> jsval \<Rightarrow> string option \<Rightarrow> durable_session_runtime \<Rightarrow> turn_step" where
  "handle_completed w result cycle_origin rt =
     and_then
       (acting (\<lambda>s. write_latest_response (tw_now w)
          (response s ''completed'' [(''content'', jget ''content'' result)] result) s) rt)
       (\<lambda>rt. case if_truthy (as_string (jget ''forceContinuePrompt'' result)) of
          Some p \<Rightarrow> (([], rt), Turn_continued (versioned_continue_as_new (tw_now w) rt
             (build_continue_input_with_prompt rt (Some p) (no_overrides\<lparr>ov_bootstrap_prompt := Some True\<rparr>))))
        | None \<Rightarrow> finish_completed w result cycle_origin rt)"

definition handle_schedule_result ::
  "turn_world \<Rightarrow> jsval \<Rightarrow> string \<Rightarrow> durable_session_runtime \<Rightarrow> turn_step" where
  "handle_schedule_result w result source_prompt rt =
     (case Option.bind (schedule_action_of result)
             (\<lambda>action. apply_schedule_action (tw_tz_offset w) (tw_now w) (Some source_prompt) action rt) of
        None \<Rightarrow> (([], rt), Turn_failed ''cron_at next-fire computation failed'')
      | Some (effects, rt') \<Rightarrow> ((effects, rt'), Turn_over))"

definition result_seconds :: "jsval \<Rightarrow> int" where
  "result_seconds result = coalesce (int_field ''seconds'' result) 0"

text \<open>From the hold-or-release plan of the wait to its timer.\<close>

definition arm_wait ::
  "turn_world \<Rightarrow> durable_session_options \<Rightarrow> string \<Rightarrow> jsval \<Rightarrow> durable_session_state \<Rightarrow>
   orch_effect list \<times> durable_session_state" where
  "arm_wait w options sid result state =
     (let seconds = result_seconds result; now = tw_now w; reason = text_of ''reason'' result;
          content = text_of ''content'' result;
          release = plan_hold_release (ds_blob_enabled state) (of_int seconds) (of_int (do_idle_timeout options));
          preserve = JBool (\<not> release)
      in followed_by (release_if release (tw_guid w) ''timer'' state)
           (\<lambda>s. followed_by
              (if content = [] then ([], s)
               else write_latest_response now (response s ''wait''
                 [(''content'', JStr content), (''waitReason'', JStr reason), number_field ''waitSeconds'' seconds,
                  number_field ''waitStartedAt'' now] result) s)
           (\<lambda>s. ([publish_status s ''waiting'' (wait_extra seconds reason now @ [(''preserveWorkerAffinity'', preserve)]),
                  Event_recorded sid ''session.wait_started''
                    [number_field ''seconds'' seconds, (''reason'', JStr reason), (''preserveAffinity'', preserve)]],
                 s\<lparr>ds_active_timer := Some ((new_timer Timer_wait now (seconds * 1000) reason)
                   \<lparr>at_content := as_string (jget ''content'' result),
                    at_budget := (jget ''budget'' result = JBool True)\<rparr>)\<rparr>))))"

definition handle_wait ::
  "turn_world \<Rightarrow> jsval \<Rightarrow> string \<Rightarrow> string list option \<Rightarrow> bool \<Rightarrow> string option \<Rightarrow>
   durable_session_runtime \<Rightarrow> turn_step" where
  "handle_wait w result source_prompt client_message_ids is_bootstrap required_tool rt0 =
     (let rt = ensure_task_context (Some source_prompt)
            (rt0\<lparr>rt_state := (rt_state rt0)\<lparr>ds_interrupted_wait_timer := None\<rparr>\<rparr>);
          sid = runtime_sid rt
      in and_then (and_then
           (if is_budget_refusal result
            then acting (stash_budget_refused_prompt sid source_prompt client_message_ids is_bootstrap required_tool) rt
            else yielding [] rt)
           (\<lambda>rt. case if_truthy (do_parent_session_id (rt_options rt)) of
              None \<Rightarrow> yielding [] rt
            | Some parent \<Rightarrow> yielding (report_wait w sid parent result
                (wait_notice result (result_seconds result)) (rt_state rt)) rt))
           (\<lambda>rt. acting (arm_wait w (rt_options rt) sid result) rt))"

definition question_of :: "jsval \<Rightarrow> config_obj" where
  "question_of result = [(''question'', jget ''question'' result), (''choices'', jget ''choices'' result),
     (''allowFreeform'', jget ''allowFreeform'' result)]"

definition text_list :: "jsval \<Rightarrow> string list option" where
  "text_list v = (case v of JArr xs \<Rightarrow> Some (map js_string xs) | _ \<Rightarrow> None)"

definition input_hold_seconds :: "durable_session_options \<Rightarrow> int" where
  "input_hold_seconds options = (if 0 < do_idle_timeout options then do_idle_timeout options else 1800)"

definition input_hold_timer :: "durable_session_options \<Rightarrow> int \<Rightarrow> active_timer" where
  "input_hold_timer options now =
     new_timer Timer_idle now (input_hold_seconds options * 1000) ''idle timeout (input required)''"

definition input_grace_timer :: "durable_session_options \<Rightarrow> int \<Rightarrow> jsval \<Rightarrow> active_timer" where
  "input_grace_timer options now result =
     (new_timer Timer_input_grace now (do_input_grace_period options * 1000) ''input grace period'')
       \<lparr>at_question := as_string (jget ''question'' result), at_choices := text_list (jget ''choices'' result),
        at_allow_freeform := optional_boolean (jget ''allowFreeform'' result)\<rparr>"

definition handle_input_required :: "turn_world \<Rightarrow> jsval \<Rightarrow> durable_session_runtime \<Rightarrow> turn_step" where
  "handle_input_required w result rt =
     (let options = rt_options rt; now = tw_now w
      in and_then
           (acting (\<lambda>s. write_latest_response now (response s ''input_required'' (question_of result) result) s) rt)
           (acting (\<lambda>s.
              let s1 = s\<lparr>ds_pending_input_question :=
                    Some (JObj (number_field ''iteration'' (ds_iteration s) # question_of result))\<rparr>
              in ([publish_status s1 ''input_required'' []],
                  if \<not> ds_blob_enabled s1 \<or> do_input_grace_period options < 0 then s1
                  else s1\<lparr>ds_active_timer := Some
                    (if do_input_grace_period options = 0 then input_hold_timer options now
                     else input_grace_timer options now result)\<rparr>))))"

definition stopped_event :: "string \<Rightarrow> jsval \<Rightarrow> int \<Rightarrow> config_obj \<Rightarrow> string list option \<Rightarrow> orch_effect" where
  "stopped_event sid reason turn_index interrupt ids =
     Event_recorded sid ''session.turn_stopped''
       ([(''reason'', reason), number_field ''turnIndex'' turn_index] @ interrupt @
        (if coalesce ids [] = [] then [] else [(''clientMessageIds'', JArr (map JStr (coalesce ids [])))]))"

definition handle_stopped :: "turn_world \<Rightarrow> jsval \<Rightarrow> string list option \<Rightarrow> durable_session_runtime \<Rightarrow> turn_step" where
  "handle_stopped w result client_message_ids rt =
     and_then
       (acting (\<lambda>s. ([stopped_event (runtime_sid rt)
            (nullish_or (jget ''reason'' result) (JStr ''Stopped by user'')) (ds_iteration s - 1)
            [(''interrupt'', JStr ''turn-result'')] client_message_ids, Cms_state ''idle'' None],
          s\<lparr>ds_retry_count := 0\<rparr>)) rt)
       (continue_after_turn w)"

text \<open>The projection of a missing session state: the row says "failed" and the orchestration ends.\<close>

definition fatal_failure :: "string \<Rightarrow> durable_session_runtime \<Rightarrow> turn_step" where
  "fatal_failure error rt =
     and_then (and_then
       (publishing ''failed'' [(''error'', JStr error), (''fatal'', JBool True)] rt)
       (yielding [Cms_state ''failed'' (Some error)]))
       (\<lambda>rt. (([], rt), Turn_failed error))"

definition count_retry :: "durable_session_runtime \<Rightarrow> turn_step" where
  "count_retry = acting (\<lambda>s. ([], s\<lparr>ds_retry_count := ds_retry_count s + 1\<rparr>))"

definition retry_by_kind :: "turn_world \<Rightarrow> string \<Rightarrow> retry_context \<Rightarrow> durable_session_runtime \<Rightarrow> turn_step" where
  "retry_by_kind w message rc rt = and_then (count_retry rt)
     (if is_copilot_connection_closed_error message then handle_connection_closed_retry w message rc
      else handle_generic_retry w message rc)"

definition handle_error_result ::
  "turn_world \<Rightarrow> jsval \<Rightarrow> string \<Rightarrow> string option \<Rightarrow> string option \<Rightarrow> durable_session_runtime \<Rightarrow> turn_step" where
  "handle_error_result w result source_prompt cycle_origin required_tool rt =
     (let message = text_of ''message'' result
      in case missing_state_error message of
           Some fatal \<Rightarrow> fatal_failure fatal rt
         | None \<Rightarrow>
             if is_auth_failure_error message then project_auth_failure w message rt
             else if jget ''retryable'' result = JBool False
             then project_non_retryable_turn_failure w message rt
             else retry_by_kind w message
               \<lparr>rc_source_prompt = source_prompt, rc_system_only_turn = False, rc_required_tool = required_tool,
                rc_cycle_origin = cycle_origin, rc_phase = Turn_result_error\<rparr> rt)"

definition sub_agent_actions :: "string list" where
  "sub_agent_actions = [''spawn_agent'', ''message_agent'', ''check_agents'', ''list_sessions'',
     ''wait_for_agents'', ''complete_agent'', ''cancel_agent'', ''delete_agent'']"

record turn_source =
  src_prompt :: string
  src_cycle_origin :: "string option"
  src_client_message_ids :: "string list option"
  src_is_bootstrap :: bool
  src_required_tool :: "string option"

definition dispatch_result ::
  "turn_world \<Rightarrow> agent_world \<Rightarrow> jsval \<Rightarrow> turn_source \<Rightarrow> durable_session_runtime \<Rightarrow> turn_step" where
  "dispatch_result w aw result src rt =
     (let ty = result_type result
      in if ty = ''completed'' then handle_completed w result (src_cycle_origin src) rt
         else if ty = ''cron'' \<or> ty = ''cron_at'' then handle_schedule_result w result (src_prompt src) rt
         else if ty = ''wait'' then handle_wait w result (src_prompt src) (src_client_message_ids src)
           (src_is_bootstrap src) (src_required_tool src) rt
         else if ty = ''input_required'' then handle_input_required w result rt
         else if ty = ''stopped'' then handle_stopped w result (src_client_message_ids src) rt
         else if ty \<in> set sub_agent_actions then handle_sub_agent_action aw result rt
         else if ty = ''error''
         then handle_error_result w result (src_prompt src) (src_cycle_origin src) (src_required_tool src) rt
         else yielding [] rt)"

definition handle_turn_result ::
  "turn_world \<Rightarrow> agent_world \<Rightarrow> jsval \<Rightarrow> turn_source \<Rightarrow> durable_session_runtime \<Rightarrow> turn_step" where
  "handle_turn_result w aw result0 src rt =
     (let coerced = coerce_child_question_to_wait (rt_options rt) result0;
          gated = is_budget_refusal coerced;
          (effects, result) = (if gated then ([], coerced)
            else synthesize_wait_interrupt_reply_if_needed (runtime_sid rt) (rt_state rt) coerced)
      in and_then
           (acting (\<lambda>s. (effects, if gated then s else s\<lparr>ds_budget_stash := None\<rparr>)) rt)
           (dispatch_result w aw result src))"

end
