(* ===== verification/OrchTurn.thy ===== *)
theory OrchTurn
  imports OrchResult
begin

text \<open>
  A turn from prompt to result (\<open>processPrompt\<close>, \<open>normalizeRacedTurnValue\<close>, \<open>handleTurnStopped\<close> and
  \<open>processTimer\<close> of \<open>packages/sdk/src/orchestration/turn.ts\<close>): preparing the prompt, the legacy hydrate
  loop, the race of the turn against a stop, the bookkeeping of its outcome, and what a fired timer
  starts. \<open>full_pass\<close> is the pass of the run loop with the turn it hands over.

  The raced value, the hydrate attempts and the abort's outcome are what the runtime answers;
  \<open>JSON.parse\<close> is \<open>dp_parse\<close>, on the text of a worker.
\<close>

section \<open>JSON text\<close>

definition hex_digit :: "nat \<Rightarrow> char" where
  "hex_digit d = (if d < 10 then digit_char d else char_of (87 + d))"

definition escaped :: "char \<Rightarrow> string" where
  "escaped c =
     (if c = CHR 0x22 \<or> c = CHR 0x5C then [CHR 0x5C, c]
      else if c = CHR 0x08 then [CHR 0x5C, CHR ''b'']
      else if c = CHR 0x09 then [CHR 0x5C, CHR ''t'']
      else if c = CHR 0x0A then [CHR 0x5C, CHR ''n'']
      else if c = CHR 0x0C then [CHR 0x5C, CHR ''f'']
      else if c = CHR 0x0D then [CHR 0x5C, CHR ''r'']
      else if of_char c < (32 :: nat)
      then [CHR 0x5C, CHR ''u'', CHR ''0'', CHR ''0'', hex_digit (of_char c div 16), hex_digit (of_char c mod 16)]
      else [c])"

definition string_text :: "string \<Rightarrow> string" where
  "string_text s = [CHR 0x22] @ concat (map escaped s) @ [CHR 0x22]"

function json_text :: "jsval \<Rightarrow> string" where
  "json_text JUndef = ''null''"
| "json_text JNull = ''null''"
| "json_text (JBool b) = (if b then ''true'' else ''false'')"
| "json_text (JNum q) = number_text q"
| "json_text JNaN = ''null''"
| "json_text (JInf b) = ''null''"
| "json_text (JStr s) = string_text s"
| "json_text (JArr xs) = ''['' @ join '','' (map json_text xs) @ '']''"
| "json_text (JObj kvs) =
     (let present = filter (\<lambda>kv. snd kv \<noteq> JUndef) kvs
      in ''{'' @ join '','' (map (\<lambda>kv. string_text (fst kv) @ '':'' @ json_text (snd kv)) present) @ ''}'')"
  by pat_completeness auto
termination
  by (relation "measure size") (auto simp: less_Suc_eq_le size_list_estimation' size_entry)

section \<open>What the runtime answers\<close>

datatype raced = Stop_won jsval | Turn_value jsval | Turn_threw string

record dispatch_world =
  dp_turn :: turn_world
  dp_agents :: agent_world
  dp_hydrate :: "nat \<Rightarrow> string \<times> string option"
  dp_turn_key :: string
  dp_raced :: raced
  dp_abort :: "string + jsval"
  dp_record_error :: "string option"
  dp_parse :: "string \<Rightarrow> jsval option"
  dp_probe :: "string \<Rightarrow> jsval option"
  dp_descendants :: "string list"

section \<open>Preparing the prompt\<close>

record prepared_turn =
  pt_prompt :: string
  pt_bootstrap :: bool
  pt_system_only :: bool

definition legacy_hydration :: "durable_session_state \<Rightarrow> bool" where
  "legacy_hydration state \<longleftrightarrow> ds_needs_hydration state \<and> ds_blob_enabled state"

definition prepare_prompt ::
  "string \<Rightarrow> bool \<Rightarrow> durable_session_state \<Rightarrow> prepared_turn \<times> durable_session_state" where
  "prepare_prompt text_in is_bootstrap state0 =
     (let (wrapped, s0) = (if legacy_hydration state0 \<and> text_in \<noteq> []
            then wrap_with_resume_context text_in None state0 else (text_in, state0));
          extracted = extract_prompt_system_context (Some wrapped);
          prompt = coalesce (ep_prompt extracted) [];
          note1 = merge_prompt (ds_pending_system_prompt s0) (ep_system_prompt extracted);
          s1 = s0\<lparr>ds_pending_system_prompt := None\<rparr>;
          (note, s2) = (if prompt \<noteq> [] \<and> truthy_str (ds_runtime_model_notice s1)
            then (merge_prompt note1 (ds_runtime_model_notice s1), s1\<lparr>ds_runtime_model_notice := None\<rparr>)
            else (note1, s1));
          system_only = (prompt = [] \<and> truthy_str note);
          user_turn = (if system_only then internal_system_turn_prompt else prompt);
          config = obj_set ''systemContextInPrompt'' (JBool True)
            (obj_set ''turnSystemPrompt'' (case note of Some n \<Rightarrow> JStr n | None \<Rightarrow> JUndef) (ds_config s2))
      in (\<lparr>pt_prompt = append_system_context_block user_turn note,
            pt_bootstrap = (is_bootstrap \<or> system_only), pt_system_only = system_only\<rparr>,
          s2\<lparr>ds_config := config\<rparr>))"

section \<open>The hydrate loop\<close>

definition absent_blob :: "string \<Rightarrow> bool" where
  "absent_blob message \<longleftrightarrow>
     list_ex (\<lambda>p. after_first p message \<noteq> None)
       [''blob does not exist'', ''BlobNotFound'', ''Session archive not found'', ''404'']"

definition hydrate_done :: "durable_session_state \<Rightarrow> durable_session_state" where
  "hydrate_done state = state\<lparr>ds_needs_hydration := False, ds_preserve_affinity_on_hydrate := False\<rparr>"

definition hydrate_error :: "string \<Rightarrow> bool \<Rightarrow> durable_session_state \<Rightarrow> orch_effect" where
  "hydrate_error message exhausted state = publish_status state ''error''
     ((''error'', JStr message) # (if exhausted then [(''retriesExhausted'', JBool True)] else []))"

definition hydrate_delay :: "nat \<Rightarrow> int" where "hydrate_delay attempt = 10 * 2 ^ (attempt - 1)"

text \<open>\<open>left\<close> attempts of \<open>MAX_RETRIES\<close> remain, the next is number \<open>attempt\<close>.\<close>

fun hydrate_loop ::
  "(nat \<Rightarrow> string \<times> string option) \<Rightarrow> nat \<Rightarrow> nat \<Rightarrow> durable_session_state \<Rightarrow>
   orch_effect list \<times> durable_session_state" where
  "hydrate_loop outcome attempt 0 state = ([], state)"
| "hydrate_loop outcome attempt (Suc left) state =
     (let (guid, error) = outcome attempt;
          s = (if ds_preserve_affinity_on_hydrate state then state else state\<lparr>ds_affinity_key := guid\<rparr>);
          call = [Hydrated (ds_affinity_key s)]
      in case error of
           None \<Rightarrow> (call, hydrate_done s)
         | Some message \<Rightarrow>
             if absent_blob message then (call, hydrate_done s)
             else if left = 0 then
               (call @ [hydrate_error (''Hydrate failed after '' @ show_int max_retries @ '' attempts: '' @ message) True s], s)
             else
               (let delay = hydrate_delay attempt; (effects, s') = hydrate_loop outcome (Suc attempt) left s
                in (call @ [hydrate_error (''Hydrate failed: '' @ message @ '' (retry '' @ show_nat attempt @ ''/'' @
                      show_int max_retries @ '' in '' @ show_int delay @ ''s)'') False s, Slept (delay * 1000)] @ effects, s')))"

section \<open>Dispatching the turn\<close>

definition stashed_tool :: "durable_session_state \<Rightarrow> string option" where
  "stashed_tool state = Option.bind
     (List.find (\<lambda>e. truthy_str (bs_required_tool e)) (coalesce (ds_budget_stash state) [])) bs_required_tool"

definition texts :: "string \<Rightarrow> string list option \<Rightarrow> config_obj" where
  "texts k v = (if coalesce v [] = [] then [] else [(k, JArr (map JStr (coalesce v [])))])"

definition turn_meta ::
  "durable_session_options \<Rightarrow> turn_request \<Rightarrow> string \<Rightarrow> durable_session_state \<Rightarrow> config_obj" where
  "turn_meta options req turn_key state =
     opt_entry ''parentSessionId'' (map_option JStr (if_truthy (do_parent_session_id options))) @
     [number_field ''nestingLevel'' (do_nesting_level options)] @
     (if 0 < ds_transcript_epoch state then [number_field ''transcriptEpoch'' (ds_transcript_epoch state)] else []) @
     (if ds_epoch_start_pending state then [(''epochStart'', JBool True)] else []) @
     opt_entry ''requiredTool'' (map_option JStr (if_truthy (tr_required_tool req))) @
     opt_entry ''cycleOrigin'' (map_option JStr (if_truthy (tr_cycle_origin req))) @
     [number_field ''retryCount'' (ds_retry_count state)] @
     texts ''clientMessageIds'' (tr_client_message_ids req) @
     texts ''stashedPrompts'' (map_option (map bs_prompt) (ds_budget_stash state)) @
     opt_entry ''sender'' (map_option sender_json (tr_sender req)) @
     (if coalesce (tr_attachments req) [] = [] then []
      else [(''attachments'', JArr (map attachment_json (coalesce (tr_attachments req) [])))]) @
     (if turn_key = [] then [] else [(''snapshot'', JObj [(''turnKey'', JStr turn_key)])])"

definition normalize_raced_turn_value :: "(string \<Rightarrow> jsval option) \<Rightarrow> jsval \<Rightarrow> string + jsval" where
  "normalize_raced_turn_value parse value =
     (case (case value of JStr s \<Rightarrow> parse s | _ \<Rightarrow> Some value) of
        None \<Rightarrow> Inl (js_string value)
      | Some v \<Rightarrow>
          (case jget ''type'' v of
             JStr _ \<Rightarrow> Inr v
           | _ \<Rightarrow> Inl (case value of JStr s \<Rightarrow> s | _ \<Rightarrow> json_text value)))"

section \<open>The rebirth after a regeneration\<close>

definition snapshot_number :: "jsval \<Rightarrow> rat option" where
  "snapshot_number result = (case jget ''snapshotVersion'' result of JNum r \<Rightarrow> Some r | _ \<Rightarrow> None)"

definition rebirth_proven :: "durable_session_state \<Rightarrow> jsval \<Rightarrow> bool" where
  "rebirth_proven state result \<longleftrightarrow>
     (case snapshot_number result of Some v \<Rightarrow> 1 \<le> v | None \<Rightarrow> False) \<or>
     \<not> ds_blob_enabled state \<and> result_type result \<noteq> ''error'' \<and> result_type result \<noteq> ''stopped''"

definition number_entry :: "string \<Rightarrow> rat option \<Rightarrow> config_obj" where
  "number_entry k v = (case v of Some r \<Rightarrow> if r \<noteq> 0 then [(k, JNum r)] else [] | None \<Rightarrow> [])"

definition regenerated_record :: "int \<Rightarrow> pending_epoch_commit \<Rightarrow> config_obj" where
  "regenerated_record now c =
     [number_field ''epoch'' (ec_to_epoch c), (''attemptId'', JStr (ec_attempt_id c)),
      (''stats'', JObj
        ([(''kind'', JStr ''regen''), number_field ''fromEpoch'' (ec_from_epoch c),
          number_field ''toEpoch'' (ec_to_epoch c), (''trigger'', JStr (ec_trigger c))] @
         number_entry ''archiveMs'' (ec_archive_ms c) @ number_entry ''distillMs'' (ec_distill_ms c) @
         number_entry ''turnsArchived'' (ec_turns_archived c) @
         number_entry ''compactionsArchived'' (ec_compactions_archived c) @
         opt_entry ''distillMode'' (map_option JStr (if_truthy (ec_distill_mode c))) @
         opt_entry ''distillerModel'' (map_option JStr (if_truthy (ec_distiller_model c))) @
         opt_entry ''distillerSessionId'' (map_option JStr (if_truthy (ec_distiller_session_id c))) @
         [number_field ''totalMs'' (max 0 (now - ec_requested_at_ms c))]))]"

definition prove_rebirth :: "int \<Rightarrow> jsval \<Rightarrow> durable_session_state \<Rightarrow> orch_effect list \<times> durable_session_state" where
  "prove_rebirth now result state =
     (case ds_pending_epoch_commit state of
        Some c \<Rightarrow>
          if ds_epoch_start_pending state \<and> rebirth_proven state result
          then ([Epoch_regenerated (regenerated_record now c)],
                state\<lparr>ds_epoch_start_pending := False, ds_pending_epoch_commit := None\<rparr>)
          else ([], state)
      | None \<Rightarrow> ([], state))"

section \<open>After the turn\<close>

definition clear_turn_system_prompt :: "durable_session_state \<Rightarrow> durable_session_state" where
  "clear_turn_system_prompt state = state\<lparr>ds_config := obj_set ''turnSystemPrompt'' JUndef (ds_config state)\<rparr>"

definition adopt_version :: "string \<Rightarrow> jsval \<Rightarrow> durable_session_state \<Rightarrow> orch_effect list \<times> durable_session_state" where
  "adopt_version sid result state =
     (case int_field ''snapshotVersion'' result of
        None \<Rightarrow> ([], state)
      | Some adopted \<Rightarrow>
          let prior = ds_snapshot_version state
          in ((if 0 < prior \<and> (prior + 1 < adopted \<or> adopted < prior)
               then [Event_recorded sid ''session.snapshot_lineage_jump''
                 [number_field ''from'' prior, number_field ''to'' adopted,
                  (''direction'', JStr (if adopted < prior then ''backward'' else ''forward''))]]
               else []),
              state\<lparr>ds_snapshot_version := adopted\<rparr>))"

definition forced_continue :: "string option \<Rightarrow> jsval \<Rightarrow> jsval" where
  "forced_continue prompt result =
     (case prompt of
        Some p \<Rightarrow> if result_type result = ''completed'' then with_field ''forceContinuePrompt'' (JStr p) result else result
      | None \<Rightarrow> result)"

definition queued_actions :: "jsval \<Rightarrow> jsval list" where
  "queued_actions result = (case jget ''queuedActions'' result of JArr xs \<Rightarrow> xs | _ \<Rightarrow> [])"

text \<open>The bookkeeping between the result and its dispatch.\<close>

definition settle_result ::
  "turn_world \<Rightarrow> jsval \<Rightarrow> durable_session_runtime \<Rightarrow> (orch_effect list \<times> jsval) \<times> durable_session_state" where
  "settle_result w result0 rt =
     (let s0 = clear_turn_system_prompt (rt_state rt);
          s1 = (if result_type result0 = ''error'' then s0 else s0\<lparr>ds_retry_count := 0\<rparr>);
          (jump, s2) = adopt_version (runtime_sid rt) result0 s1;
          s3 = s2\<lparr>ds_context_usage := update_context_usage_from_events (ds_context_usage s2)
                 (result_events result0) (of_int (tw_now w))\<rparr>;
          (forced, s4) = capture_failed_model_switch_notice result0 s3;
          s5 = (if is_budget_refusal result0 then s4 else s4\<lparr>ds_iteration := ds_iteration s4 + 1\<rparr>);
          (summary, s6) = maybe_summarize (rt_options rt) (tw_now w) s5;
          s7 = refresh_tracked_sub_agents True (tw_children w) s6
      in ((jump @ summary, forced_continue forced result0),
          s7\<lparr>ds_pending_tool_actions := ds_pending_tool_actions s7 @ queued_actions result0\<rparr>))"

definition drain_schedules :: "turn_world \<Rightarrow> string \<Rightarrow> durable_session_runtime \<Rightarrow> turn_step" where
  "drain_schedules w source rt =
     (case drain_leading_queued_schedule_actions (tw_tz_offset w) (tw_now w) (Some source)
             (ds_pending_tool_actions (rt_state rt)) rt of
        None \<Rightarrow> (([], rt), Turn_failed ''cron_at next-fire computation failed'')
      | Some (left, effects, rt') \<Rightarrow>
          ((effects, rt'\<lparr>rt_state := (rt_state rt')\<lparr>ds_pending_tool_actions := left\<rparr>\<rparr>), Turn_over))"

definition finish_turn ::
  "dispatch_world \<Rightarrow> jsval \<Rightarrow> turn_source \<Rightarrow> durable_session_runtime \<Rightarrow> turn_step" where
  "finish_turn dw result0 src rt =
     (let w = dp_turn dw; ((effects, result), s) = settle_result w result0 rt
      in and_then (and_then
           (yielding effects (rt\<lparr>rt_state := s\<rparr>))
           (drain_schedules w (src_prompt src)))
           (handle_turn_result w (dp_agents dw) result src))"

text \<open>The catch block: the turn threw, or its race returned an error.\<close>

definition turn_threw ::
  "turn_world \<Rightarrow> string \<Rightarrow> turn_source \<Rightarrow> bool \<Rightarrow> durable_session_runtime \<Rightarrow> turn_step" where
  "turn_threw w message src system_only rt0 =
     (let rt = rt0\<lparr>rt_state := clear_turn_system_prompt (rt_state rt0)\<rparr>
      in case missing_state_error message of
           Some fatal \<Rightarrow> fatal_failure fatal rt
         | None \<Rightarrow>
             if is_auth_failure_error message then project_auth_failure w message rt
             else retry_by_kind w message
               \<lparr>rc_source_prompt = src_prompt src, rc_system_only_turn = system_only,
                rc_required_tool = src_required_tool src, rc_cycle_origin = src_cycle_origin src,
                rc_phase = Run_turn_throw\<rparr> rt)"

section \<open>A turn that was stopped\<close>

definition stop_event :: "(string \<Rightarrow> jsval option) \<Rightarrow> jsval \<Rightarrow> jsval" where
  "stop_event parse raw = (case raw of JStr s \<Rightarrow> coalesce (parse s) JUndef | _ \<Rightarrow> raw)"

definition abort_fields :: "string + jsval \<Rightarrow> jsval \<times> config_obj" where
  "abort_fields outcome =
     (case outcome of
        Inl error \<Rightarrow> (JStr ''no_active_turn'', [(''detail'', JStr (''abortTurn failed: '' @ error))])
      | Inr v \<Rightarrow> (nullish_or (jget ''outcome'' v) (JStr ''unknown''),
          if truthy (jget ''detail'' v) then [(''detail'', jget ''detail'' v)] else []))"

definition stop_answer :: "string \<Rightarrow> jsval \<times> config_obj \<Rightarrow> int \<Rightarrow> command_response" where
  "stop_answer cmd_id aborted turn_index =
     \<lparr>rsp_id = cmd_id, rsp_cmd = ''stop_turn'',
      rsp_result = JObj ([(''outcome'', JStr (if fst aborted = JStr ''stop_forced'' then ''stop_forced'' else ''stopped'')),
        number_field ''turnIndex'' turn_index] @ snd aborted),
      rsp_error = None, rsp_context_usage = None\<rparr>"

definition stop_turn :: "string \<Rightarrow> jsval \<Rightarrow> string + jsval \<Rightarrow> string list option \<Rightarrow> durable_session_state \<Rightarrow>
  orch_effect list \<times> durable_session_state" where
  "stop_turn sid event outcome client_message_ids state0 =
     (let given = text_of ''reason'' event; reason = (if given = [] then ''Stopped by user'' else given);
          index = ds_iteration state0; aborted = abort_fields outcome;
          state = (clear_turn_system_prompt state0)\<lparr>ds_retry_count := 0, ds_iteration := index + 1\<rparr>
      in followed_by
           ([Turn_aborted reason index,
             stopped_event sid (JStr reason) index ((''interrupt'', fst aborted) # snd aborted) client_message_ids,
             Event_recorded sid ''system.message'' [(''content'', JStr ''Turn stopped by user.'')],
             Cms_state ''idle'' None], state)
           (answer_if sid (if text_of ''id'' event = [] then None
              else Some (stop_answer (text_of ''id'' event) aborted index))))"

definition handle_turn_stopped ::
  "dispatch_world \<Rightarrow> jsval \<Rightarrow> string list option \<Rightarrow> durable_session_runtime \<Rightarrow> turn_step" where
  "handle_turn_stopped dw raw client_message_ids rt =
     and_then
       (acting (stop_turn (runtime_sid rt) (stop_event (dp_parse dw) raw) (dp_abort dw) client_message_ids) rt)
       (continue_after_turn (dp_turn dw))"

section \<open>processPrompt\<close>

definition run_turn_outcome ::
  "dispatch_world \<Rightarrow> turn_source \<Rightarrow> bool \<Rightarrow> durable_session_runtime \<Rightarrow> turn_step" where
  "run_turn_outcome dw src system_only rt =
     (case (case dp_raced dw of Stop_won v \<Rightarrow> Inr None | Turn_threw m \<Rightarrow> Inl m
              | Turn_value v \<Rightarrow> (case normalize_raced_turn_value (dp_parse dw) v of Inl m \<Rightarrow> Inl m | Inr r \<Rightarrow> Inr (Some r))) of
        Inl message \<Rightarrow> turn_threw (dp_turn dw) message src system_only rt
      | Inr None \<Rightarrow> handle_turn_stopped dw (case dp_raced dw of Stop_won v \<Rightarrow> v | _ \<Rightarrow> JUndef)
          (src_client_message_ids src) rt
      | Inr (Some result) \<Rightarrow>
          let (effects, s) = prove_rebirth (tw_now (dp_turn dw)) result (rt_state rt); rt1 = rt\<lparr>rt_state := s\<rparr>
          in (case (if effects = [] then None else dp_record_error dw) of
               Some error \<Rightarrow> turn_threw (dp_turn dw) error src system_only rt1
             | None \<Rightarrow> and_then (yielding effects rt1) (finish_turn dw result src)))"

definition dispatch_turn :: "dispatch_world \<Rightarrow> turn_request \<Rightarrow> prepared_turn \<Rightarrow> durable_session_runtime \<Rightarrow> turn_step" where
  "dispatch_turn dw req p rt =
     (let s = rt_state rt; key = (if ds_blob_enabled s then dp_turn_key dw else [])
      in and_then
           (yielding
             ((if map_of (ds_config s) ''agentIdentity'' = Some (JStr ''facts-manager'') then [] else [Knowledge_index_loaded]) @
              [publish_status s ''running'' [number_field ''iteration'' (ds_iteration s + 1)],
               Turn_dispatched (pt_prompt p) (pt_bootstrap p) (ds_iteration s) (turn_meta (rt_options rt) req key s)]) rt)
           (run_turn_outcome dw
             \<lparr>src_prompt = pt_prompt p, src_cycle_origin = tr_cycle_origin req,
              src_client_message_ids = tr_client_message_ids req, src_is_bootstrap = pt_bootstrap p,
              src_required_tool = tr_required_tool req\<rparr> (pt_system_only p)))"

definition process_prompt :: "dispatch_world \<Rightarrow> turn_request \<Rightarrow> durable_session_runtime \<Rightarrow> turn_step" where
  "process_prompt dw req0 rt =
     (let req = req0\<lparr>tr_required_tool := or_null (tr_required_tool req0) (stashed_tool (rt_state rt))\<rparr>;
          (p, s0) = prepare_prompt (tr_prompt req) (tr_bootstrap req) (rt_state rt);
          (effects, s) = (if legacy_hydration s0 then hydrate_loop (dp_hydrate dw) 1 (nat max_retries) s0 else ([], s0))
      in and_then (yielding effects (rt\<lparr>rt_state := s\<rparr>))
           (if legacy_hydration s0 \<and> ds_needs_hydration s then yielding [] else dispatch_turn dw req p))"

section \<open>processTimer\<close>

definition user_less_turn :: "string \<Rightarrow> bool \<Rightarrow> string option \<Rightarrow> turn_request" where
  "user_less_turn prompt bootstrap origin = \<lparr>tr_prompt = prompt, tr_bootstrap = bootstrap,
     tr_required_tool = None, tr_client_message_ids = None, tr_cycle_origin = origin, tr_sender = None,
     tr_attachments = None\<rparr>"

text \<open>A prompt with the buffered digest of the children.\<close>

definition with_digest :: "string \<Rightarrow> string \<Rightarrow> durable_session_state \<Rightarrow> string \<times> durable_session_state" where
  "with_digest prompt fallback state =
     (let (p, s) = flush_pending_child_digest_into_prompt (Some prompt) state in (coalesce p fallback, s))"

definition wait_over_prompt :: "active_timer \<Rightarrow> durable_session_state \<Rightarrow> string \<times> string" where
  "wait_over_prompt t state =
     (let prompt = ''The '' @ show_int (round_sec (at_original_duration_ms t)) @
            '' second wait is now complete. Continue with your task.'';
          note = join '' '' (filter (\<lambda>p. p \<noteq> [])
            [if at_reason t = [] then [] else ''Wait reason: '' @ quoted (at_reason t) @ ''.'',
             if truthy_str (ds_task_context state)
             then ''Original user request: '' @ quoted (coalesce (ds_task_context state) []) @ ''.'' else [],
             ''Resume the interrupted task now.'', ''Do not treat this as a new unrelated user request.'',
             ''Do not call wait() again for the delay that already finished.''])
      in (coalesce (append_system_context (Some prompt) (Some note)) prompt, prompt))"

definition cycle_guidance :: string where
  "cycle_guidance =
     ''If this cycle finds material changes or blockers that should wake your parent, call '' @
     ''report_cycle(status='material' or status='blocked', summary='...') before finishing. '' @
     ''If nothing material changed, do NOT call report_cycle at all '' @ em_dash @ '' just end the turn silently. '' @
     ''Do not emit report_cycle(status='quiet') on an uneventful cycle, and never write a tool call as text.''"

definition resume_or_plain :: "bool \<Rightarrow> string \<Rightarrow> string \<Rightarrow> durable_session_state \<Rightarrow> string \<times> durable_session_state" where
  "resume_or_plain rehydrate extra plain state =
     (if rehydrate then
        (let (p, s) = wrap_with_resume_context ''Resume your recurring task.'' (Some extra) state in with_digest p plain s)
      else with_digest plain plain state)"

definition cron_turn :: "cron_schedule \<Rightarrow> bool \<Rightarrow> durable_session_state \<Rightarrow> string \<times> durable_session_state" where
  "cron_turn cron rehydrate state =
     (let lead = ''Scheduled cron wake-up for: '' @ quoted (sched_reason cron) @ ''. ''
      in resume_or_plain rehydrate (lead @ cycle_guidance)
           (''[SYSTEM: '' @ lead @ ''Resume your recurring task. '' @ cycle_guidance @ '']'') state)"

definition cron_at_turn :: "cron_at_schedule \<Rightarrow> int \<Rightarrow> bool \<Rightarrow> durable_session_state \<Rightarrow> string \<times> durable_session_state" where
  "cron_at_turn schedule scheduled_at rehydrate state =
     (let lead = ''Scheduled wall-clock cron wake-up for '' @ quoted (cs_reason schedule) @ ''. '' @
            ''Schedule: '' @ describe_cron_at schedule @ ''. Scheduled fire: '' @ iso_string scheduled_at @ ''. ''
      in resume_or_plain rehydrate (lead @ cycle_guidance)
           (''[SYSTEM: '' @ lead @ ''Resume your recurring task now. '' @ cycle_guidance @ '']'') state)"

definition fired_schedule :: "cron_at_schedule \<Rightarrow> cron_at_schedule" where
  "fired_schedule schedule = schedule
     \<lparr>cs_fires_completed := cs_fires_completed schedule + 1,
      cs_last_occurrence_key := (if truthy_str (cs_next_occurrence_key schedule)
        then cs_next_occurrence_key schedule else cs_last_occurrence_key schedule),
      cs_next_fire_at_ms := None, cs_next_occurrence_key := None\<rparr>"

definition final_fire :: "cron_at_schedule \<Rightarrow> bool" where
  "final_fire fired \<longleftrightarrow> (case cs_max_fires fired of Some m \<Rightarrow> m \<le> cs_fires_completed fired | None \<Rightarrow> False)"

definition opt_number :: "string \<Rightarrow> int option \<Rightarrow> string \<times> jsval" where
  "opt_number k v = (k, case v of Some n \<Rightarrow> JNum (of_int n) | None \<Rightarrow> JUndef)"

definition cron_at_fired_event :: "string \<Rightarrow> cron_at_schedule \<Rightarrow> int \<Rightarrow> orch_effect" where
  "cron_at_fired_event sid c scheduled_at =
     Event_recorded sid ''session.cron_at_fired''
       [(''scheduledAt'', JStr (iso_string scheduled_at)),
        (''occurrenceKey'', case cs_next_occurrence_key c of Some k \<Rightarrow> JStr k | None \<Rightarrow> JUndef),
        (''tz'', JStr (cs_tz c)), number_field ''minute'' (cs_minute c), opt_number ''hour'' (cs_hour c),
        opt_number ''dayOfWeek'' (cs_day_of_week c), opt_number ''dayOfMonth'' (cs_day_of_month c),
        number_field ''firesCompleted'' (cs_fires_completed c + 1)]"

definition fire_cron_at :: "string \<Rightarrow> cron_at_schedule \<Rightarrow> int \<Rightarrow> durable_session_state \<Rightarrow>
  orch_effect list \<times> durable_session_state" where
  "fire_cron_at sid c scheduled_at state =
     (let fired = fired_schedule c
      in ([cron_at_fired_event sid c scheduled_at] @ (if final_fire fired then [Cron_at_completed fired] else []),
          state\<lparr>ds_cron_at_schedule := (if final_fire fired then None else Some fired)\<rparr>))"

definition turn_with ::
  "dispatch_world \<Rightarrow> bool \<Rightarrow> string option \<Rightarrow> (durable_session_state \<Rightarrow> string \<times> durable_session_state) \<Rightarrow>
   durable_session_runtime \<Rightarrow> turn_step" where
  "turn_with dw bootstrap origin build rt =
     (let (prompt, s) = build (rt_state rt)
      in process_prompt dw (user_less_turn prompt bootstrap origin) (rt\<lparr>rt_state := s\<rparr>))"

definition process_timer :: "dispatch_world \<Rightarrow> active_timer \<Rightarrow> durable_session_runtime \<Rightarrow> turn_step" where
  "process_timer dw t rt =
     (let sid = runtime_sid rt; w = dp_turn dw
      in case at_type t of
           Timer_wait \<Rightarrow> and_then
             (yielding [Event_recorded sid ''session.wait_completed''
                [number_field ''seconds'' (round_sec (at_original_duration_ms t))]] rt)
             (turn_with dw False None (\<lambda>s. with_digest (fst (wait_over_prompt t s)) (snd (wait_over_prompt t s)) s))
         | Timer_cron \<Rightarrow>
             (case ds_cron_schedule (rt_state rt) of
                None \<Rightarrow> yielding [] rt
              | Some cron \<Rightarrow> and_then
                  (yielding [Event_recorded sid ''session.cron_fired'' []] rt)
                  (turn_with dw True (Some ''cron'') (cron_turn cron (at_should_rehydrate t))))
         | Timer_cron_at \<Rightarrow>
             (case ds_cron_at_schedule (rt_state rt) of
                None \<Rightarrow> yielding [] rt
              | Some c \<Rightarrow>
                  let scheduled_at = coalesce (cs_next_fire_at_ms c) (at_deadline_ms t)
                  in and_then (acting (fire_cron_at sid c scheduled_at) rt)
                       (turn_with dw True (Some ''cron_at'') (cron_at_turn c scheduled_at (at_should_rehydrate t))))
         | Timer_idle \<Rightarrow> acting (release_affinity (tw_guid w) ''idle'') rt
         | Timer_agent_poll \<Rightarrow>
             acting (process_agent_poll sid (rt_options rt) (tw_now w) (dp_probe dw) (dp_descendants dw)) rt
         | Timer_input_grace \<Rightarrow>
             acting (\<lambda>s. ([], s\<lparr>ds_active_timer := Some (input_hold_timer (rt_options rt) (tw_now w))\<rparr>)) rt)"

section \<open>A pass of the loop with its turn\<close>

definition serve_decision :: "dispatch_world \<Rightarrow> decision \<Rightarrow> durable_session_runtime \<Rightarrow> turn_step" where
  "serve_decision dw decision rt =
     (case decision of
        Start_turn req \<Rightarrow> process_prompt dw req rt
      | Timer_due t fired_at \<Rightarrow> process_timer dw t rt
      | Replay_action action \<Rightarrow> handle_turn_result (dp_turn dw) (dp_agents dw) action
          \<lparr>src_prompt = [], src_cycle_origin = None, src_client_message_ids = None, src_is_bootstrap = False,
           src_required_tool = None\<rparr> rt
      | _ \<Rightarrow> yielding [] rt)"

definition after_turn :: "turn_step \<Rightarrow> drain_state \<Rightarrow> pass_result \<times> drain_state" where
  "after_turn step d =
     (let d' = d\<lparr>dr_rt := snd (fst step), dr_effects := dr_effects d @ fst (fst step)\<rparr>
      in (case snd step of
            Turn_over \<Rightarrow> finished_or Loop_again d'
          | Turn_continued i \<Rightarrow> Continued_as_new i
          | Turn_failed _ \<Rightarrow> Crashed, d'))"

definition full_pass :: "pass_world \<Rightarrow> dispatch_world \<Rightarrow> fifo_kv \<Rightarrow> durable_session_runtime \<Rightarrow> pass_result \<times> drain_state" where
  "full_pass pw dw kv rt =
     (case run_pass pw kv rt of
        (Hand_over decision, d) \<Rightarrow> after_turn (serve_decision dw decision (dr_rt d)) d
      | r \<Rightarrow> r)"

text \<open>A concrete world for the instances of the theories above this one: one worker, one outcome.\<close>

definition demo_turn_world :: turn_world where
  "demo_turn_world = \<lparr>tw_now = 0, tw_later = 1, tw_guid = ''g1'', tw_tz_offset = (\<lambda>_ _. 0), tw_parent_down = False,
     tw_children = Some []\<rparr>"

definition demo_dispatch :: "raced \<Rightarrow> dispatch_world" where
  "demo_dispatch outcome = \<lparr>dp_turn = demo_turn_world, dp_agents = demo_agent_world,
     dp_hydrate = (\<lambda>_. (''g2'', None)), dp_turn_key = ''k1'', dp_raced = outcome, dp_abort = Inl ''no turn'',
     dp_record_error = None, dp_parse = (\<lambda>_. None), dp_probe = (\<lambda>_. None), dp_descendants = []\<rparr>"

definition demo_request :: turn_request where
  "demo_request = \<lparr>tr_prompt = ''hello'', tr_bootstrap = False, tr_required_tool = None,
     tr_client_message_ids = Some [''m1''], tr_cycle_origin = None, tr_sender = None, tr_attachments = None\<rparr>"

lemma demo_errors:
  "is_copilot_connection_closed_error ''boom'' = False" "missing_state_error ''boom'' = None"
  "is_auth_failure_error ''boom'' = False" "is_copilot_connection_closed_error ''Connection is closed.'' = True"
  "missing_state_error ''Connection is closed.'' = None" "is_auth_failure_error ''Connection is closed.'' = False"
  by code_simp+

end
