(* ===== verification/OrchTurnLoop.thy ===== *)
theory OrchTurnLoop
  imports OrchTurn OrchLoop
begin

text \<open>
  What the turns of theory \<open>OrchTurn\<close> guarantee across executions.
\<close>

section \<open>What a turn leaves alone\<close>

text \<open>What the end of a turn and the next execution depend on.\<close>

definition retry_view where
  "retry_view s = ((ds_retry_count s, ds_blob_enabled s, ds_cron_schedule s, ds_active_timer s),
     (ds_pending_tool_actions s, ds_pending_prompt s, ds_pending_child_digest s, ds_legacy_pending_message s))"

lemma retry_view_eq:
  "retry_view s = retry_view t \<longleftrightarrow> ds_retry_count s = ds_retry_count t \<and> ds_blob_enabled s = ds_blob_enabled t \<and>
     ds_cron_schedule s = ds_cron_schedule t \<and> ds_active_timer s = ds_active_timer t \<and>
     ds_pending_tool_actions s = ds_pending_tool_actions t \<and> ds_pending_prompt s = ds_pending_prompt t \<and>
     ds_pending_child_digest s = ds_pending_child_digest t \<and>
     ds_legacy_pending_message s = ds_legacy_pending_message t"
  by (auto simp: retry_view_def)

lemma prepare_prompt_view [simp]: "retry_view (snd (prepare_prompt p b s)) = retry_view s"
  by (simp add: prepare_prompt_def wrap_with_resume_context_def retry_view_def Let_def split_beta split: option.split)

lemma legacy_after_prepare [simp]: "legacy_hydration (snd (prepare_prompt p b s)) = legacy_hydration s"
  by (simp add: prepare_prompt_def wrap_with_resume_context_def legacy_hydration_def Let_def split_beta split: option.split)

lemma hydrate_loop_view [simp]: "retry_view (snd (hydrate_loop out n k s)) = retry_view s"
proof (induction k arbitrary: n s)
  case (Suc k)
  have "retry_view (hydrate_done s) = retry_view s"
    "retry_view (s\<lparr>ds_affinity_key := g\<rparr>) = retry_view s"
    "retry_view (hydrate_done (s\<lparr>ds_affinity_key := g\<rparr>)) = retry_view s" for s g
    by (simp_all add: hydrate_done_def retry_view_def)
  then show ?case by (simp add: Let_def split_beta Suc split: option.split)
qed simp

lemma clear_prompt_view [simp]: "retry_view (clear_turn_system_prompt s) = retry_view s"
  by (simp add: clear_turn_system_prompt_def retry_view_def)

section \<open>Retries end\<close>

definition counted :: "int \<Rightarrow> turn_step \<Rightarrow> bool" where
  "counted n step \<longleftrightarrow>
     (\<forall>i. snd step = Turn_continued i \<longrightarrow> n + 1 < max_retries \<and> oi_retry_count i = Some (n + 1))"

lemma counted_and_then:
  "(\<And>i. snd m \<noteq> Turn_continued i) \<Longrightarrow> (snd m = Turn_over \<Longrightarrow> counted n (f (snd (fst m)))) \<Longrightarrow> counted n (and_then m f)"
  by (cases m; cases "fst m"; cases "snd m") (auto simp: counted_def)

lemma counted_over [simp]: "counted n (x, Turn_over)" "counted n (x, Turn_failed m)"
  by (simp_all add: counted_def)

lemma releasing_over [simp]: "snd (releasing w r e rt) = Turn_over"
  by (simp add: releasing_def)

lemma and_then_releasing [simp]:
  "and_then (releasing w r e rt) f =
     (let m = fst (releasing w r e rt) in ((fst m @ fst (fst (f (snd m))), snd (fst (f (snd m)))), snd (f (snd m))))"
  by (simp add: releasing_def Let_def acting_def)

lemma releasing_retry_count [simp]:
  "ds_retry_count (rt_state (snd (fst (releasing w r e rt)))) = ds_retry_count (rt_state rt)"
  by (simp add: releasing_def release_affinity_for_def)

lemma continue_with_retry_count:
  "snd (continue_with now (retry_continue_overrides rc) rt) = Turn_continued i \<Longrightarrow>
   oi_retry_count i = Some (ds_retry_count (rt_state rt))"
  by (auto simp: continue_with_def versioned_continue_as_new_def build_continue_input_def retry_continue_overrides_def
      Let_def split: option.split)

lemma counted_generic:
  assumes "ds_retry_count (rt_state rt) = n + 1"
  shows "counted n (handle_generic_retry w e rc rt)"
  using assms
  by (auto simp: counted_def handle_generic_retry_def Let_def publishing_def reset_retry_count_def
      dest!: continue_with_retry_count)

lemma counted_retry:
  "\<not> is_copilot_connection_closed_error m \<Longrightarrow> counted (ds_retry_count (rt_state rt)) (retry_by_kind w m rc rt)"
  by (simp add: retry_by_kind_def count_retry_def acting_def and_then_def counted_def [of _ "((_, _), _)"])
    (use counted_generic in \<open>force simp: counted_def\<close>)

lemma project_failure_over [simp]: "snd (project_failure w m a e rt) = Turn_over"
  by (simp add: project_failure_def publishing_def Let_def)

lemma projected_over [simp]:
  "snd (project_auth_failure w m rt) = Turn_over"
  "snd (project_non_retryable_turn_failure w m rt) = Turn_over"
proof -
  have over: "snd (and_then m f) = Turn_over" if "snd m = Turn_over" "\<And>rt. snd (f rt) = Turn_over" for m f
    using that by (cases m; cases "fst m") auto
  show "snd (project_auth_failure w m rt) = Turn_over" "snd (project_non_retryable_turn_failure w m rt) = Turn_over"
    unfolding project_auth_failure_def project_non_retryable_turn_failure_def reset_retry_count_def
    by (auto intro!: over)
qed

lemma fatal_failed: "snd (fatal_failure m rt) = Turn_failed m"
  by (simp add: fatal_failure_def publishing_def)

lemma counted_threw:
  assumes "\<not> is_copilot_connection_closed_error m"
  shows "counted (ds_retry_count (rt_state rt)) (turn_threw w m src b rt)"
proof -
  let ?rt = "rt\<lparr>rt_state := clear_turn_system_prompt (rt_state rt)\<rparr>"
  have "ds_retry_count (rt_state ?rt) = ds_retry_count (rt_state rt)"
    using clear_prompt_view [of "rt_state rt"] by (simp add: retry_view_def)
  then show ?thesis
    using counted_retry [OF assms, of ?rt]
    by (auto simp: turn_threw_def Let_def counted_def fatal_failed split: option.split)
qed

lemma counted_error_result:
  assumes "\<not> is_copilot_connection_closed_error (text_of ''message'' r)"
  shows "counted (ds_retry_count (rt_state rt)) (handle_error_result w r p og tool rt)"
  using counted_retry [OF assms]
  by (auto simp: handle_error_result_def Let_def counted_def fatal_failed split: option.split)

lemma error_result_kept:
  assumes "result_type r = ''error''"
  shows "coerce_child_question_to_wait options r = r" "\<not> is_budget_refusal r"
    "synthesize_wait_interrupt_reply_if_needed sid s r = ([], r)" "forced_continue f r = r"
  using assms by (simp_all add: coerce_child_question_to_wait_def is_budget_refusal_def
      synthesize_wait_interrupt_reply_if_needed_def forced_continue_def split: option.split)

lemma handle_error_turn_result:
  assumes "result_type r = ''error''"
  shows "handle_turn_result w aw r src rt =
    and_then (acting (\<lambda>s. ([], s\<lparr>ds_budget_stash := None\<rparr>)) rt)
      (handle_error_result w r (src_prompt src) (src_cycle_origin src) (src_required_tool src))"
  using assms
  by (simp add: handle_turn_result_def error_result_kept dispatch_result_def sub_agent_actions_def Let_def)

lemma adopt_version_retry [simp]: "ds_retry_count (snd (adopt_version sid r s)) = ds_retry_count s"
  by (simp add: adopt_version_def Let_def split: option.split)

lemma failed_switch_retry [simp]:
  "ds_retry_count (snd (capture_failed_model_switch_notice r s)) = ds_retry_count s"
  by (simp add: capture_failed_model_switch_notice_def Let_def)

lemma summarize_retry [simp]: "ds_retry_count (snd (maybe_summarize opts now s)) = ds_retry_count s"
  by (simp add: maybe_summarize_def)

lemma refresh_retry [simp]: "ds_retry_count (refresh_tracked_sub_agents b c s) = ds_retry_count s"
  by (simp add: refresh_tracked_sub_agents_def split: option.split)

lemma clear_prompt_retry [simp]: "ds_retry_count (clear_turn_system_prompt s) = ds_retry_count s"
  by (simp add: clear_turn_system_prompt_def)

lemma settle_error_retry:
  "result_type r = ''error'' \<Longrightarrow> ds_retry_count (snd (settle_result w r rt)) = ds_retry_count (rt_state rt)"
  by (simp add: settle_result_def Let_def split_beta)

lemma settle_error_result:
  "result_type r = ''error'' \<Longrightarrow> snd (fst (settle_result w r rt)) = r"
  by (simp add: settle_result_def Let_def split_beta error_result_kept)

lemma schedule_action_retry:
  "apply_schedule_action tz now source action rt = Some (es, rt') \<Longrightarrow>
   ds_retry_count (rt_state rt') = ds_retry_count (rt_state rt)"
  by (auto simp: apply_schedule_action_def apply_cron_action_def apply_cron_at_action_def ensure_task_context_def
      Let_def split: schedule_action.splits if_splits option.splits)

lemma drain_leading_retry:
  "drain_leading_queued_schedule_actions tz now source vs rt = Some (rest, es, rt') \<Longrightarrow>
   ds_retry_count (rt_state rt') = ds_retry_count (rt_state rt)"
proof (induction vs arbitrary: rt es)
  case (Cons v vs)
  then show ?case by (auto split: option.splits prod.splits dest!: schedule_action_retry)
qed simp

lemma drain_schedules_cases:
  obtains rt' es where "drain_schedules w source rt = ((es, rt'), Turn_over)"
      "ds_retry_count (rt_state rt') = ds_retry_count (rt_state rt)"
  | m where "drain_schedules w source rt = (([], rt), Turn_failed m)"
  using drain_leading_retry
  by (cases "drain_leading_queued_schedule_actions (tw_tz_offset w) (tw_now w) (Some source)
        (ds_pending_tool_actions (rt_state rt)) rt")
    (auto simp: drain_schedules_def)

lemma counted_finish:
  assumes "result_type r = ''error''" "\<not> is_copilot_connection_closed_error (text_of ''message'' r)"
  shows "counted (ds_retry_count (rt_state rt)) (finish_turn dw r src rt)"
proof -
  let ?w = "dp_turn dw"
  let ?rt = "rt\<lparr>rt_state := snd (settle_result ?w r rt)\<rparr>"
  have retry: "ds_retry_count (rt_state ?rt) = ds_retry_count (rt_state rt)"
    using settle_error_retry [OF assms(1)] by simp
  have after: "ds_retry_count (rt_state rt') + 1 < max_retries \<and>
      oi_retry_count i = Some (ds_retry_count (rt_state rt') + 1)"
    if "snd (handle_turn_result ?w (dp_agents dw) r src rt') = Turn_continued i" for rt' i
    using that counted_error_result [OF assms(2), of "rt'\<lparr>rt_state := (rt_state rt')\<lparr>ds_budget_stash := None\<rparr>\<rparr>"]
    by (simp add: handle_error_turn_result [OF assms(1)] Let_def counted_def)
  show ?thesis
    using settle_error_result [OF assms(1), of ?w rt] retry
    by (cases rule: drain_schedules_cases [of ?w "src_prompt src" ?rt])
      (auto simp: finish_turn_def Let_def split_beta yielding_def and_then_def counted_def dest!: after)
qed

text \<open>A turn that fails, by throwing or by its result, of anything but a closed connection.\<close>

definition failing :: "dispatch_world \<Rightarrow> bool" where
  "failing dw \<longleftrightarrow>
     (case dp_raced dw of
        Stop_won v \<Rightarrow> False
      | Turn_threw m \<Rightarrow> \<not> is_copilot_connection_closed_error m
      | Turn_value v \<Rightarrow>
          (case normalize_raced_turn_value (dp_parse dw) v of
             Inl m \<Rightarrow> \<not> is_copilot_connection_closed_error m
           | Inr r \<Rightarrow> result_type r = ''error'' \<and> \<not> is_copilot_connection_closed_error (text_of ''message'' r))) \<and>
     (case dp_record_error dw of None \<Rightarrow> True | Some m \<Rightarrow> \<not> is_copilot_connection_closed_error m)"

lemma prove_rebirth_retry [simp]: "ds_retry_count (snd (prove_rebirth now r s)) = ds_retry_count s"
  by (simp add: prove_rebirth_def split: option.split)

lemma counted_outcome:
  assumes "failing dw"
  shows "counted (ds_retry_count (rt_state rt)) (run_turn_outcome dw src b rt)"
proof -
  have counted: "counted n step \<Longrightarrow> counted n (and_then (yielding es rt) (\<lambda>_. step))" for n step es and rt :: durable_session_runtime
    by (simp add: counted_def)
  show ?thesis
  proof (cases "dp_raced dw")
    case (Turn_threw m)
    then show ?thesis using assms counted_threw by (simp add: failing_def run_turn_outcome_def)
  next
    case (Turn_value v)
    show ?thesis
    proof (cases "normalize_raced_turn_value (dp_parse dw) v")
      case (Inl m)
      then show ?thesis using assms Turn_value counted_threw by (simp add: failing_def run_turn_outcome_def)
    next
      case (Inr r)
      then have r: "result_type r = ''error''" "\<not> is_copilot_connection_closed_error (text_of ''message'' r)"
        using assms Turn_value by (simp_all add: failing_def)
      let ?rt = "rt\<lparr>rt_state := snd (prove_rebirth (tw_now (dp_turn dw)) r (rt_state rt))\<rparr>"
      have "counted (ds_retry_count (rt_state rt)) (finish_turn dw r src ?rt)"
        using counted_finish [OF r, of ?rt] by simp
      moreover have "dp_record_error dw = Some m \<Longrightarrow> counted (ds_retry_count (rt_state rt))
          (turn_threw (dp_turn dw) m src b ?rt)" for m
        using counted_threw [of m ?rt] assms by (simp add: failing_def)
      ultimately show ?thesis using Turn_value Inr
        by (auto simp: run_turn_outcome_def Let_def split_beta counted_def split: option.split)
    qed
  qed (use assms in \<open>simp add: failing_def\<close>)
qed

lemma counted_process_prompt:
  assumes "failing dw"
  shows "counted (ds_retry_count (rt_state rt)) (process_prompt dw req rt)"
proof -
  let ?s0 = "snd (prepare_prompt (tr_prompt req) (tr_bootstrap req) (rt_state rt))"
  let ?s = "if legacy_hydration (rt_state rt) then snd (hydrate_loop (dp_hydrate dw) 1 (nat max_retries) ?s0) else ?s0"
  have "retry_view ?s = retry_view (rt_state rt)" by simp
  then have retry: "ds_retry_count ?s = ds_retry_count (rt_state rt)" by (simp only: retry_view_eq)
  have "counted (ds_retry_count (rt_state rt)) (dispatch_turn dw r p (rt\<lparr>rt_state := ?s\<rparr>))" for r p
    using counted_outcome [OF assms, of "rt\<lparr>rt_state := ?s\<rparr>"] retry
    by (auto simp: dispatch_turn_def Let_def counted_def)
  then show ?thesis by (auto simp: process_prompt_def Let_def split_beta counted_def)
qed

text \<open>
  The executions a turn takes: while it continues as new, the next execution runs the pending turn of
  its input.
\<close>

fun run_retries :: "dispatch_world list \<Rightarrow> turn_request \<Rightarrow> durable_session_runtime \<Rightarrow> turn_step list" where
  "run_retries [] req rt = []"
| "run_retries (dw # dws) req rt =
     (let step = process_prompt dw req rt
      in step # (case snd step of
           Turn_continued i \<Rightarrow>
             (let rt' = started_on (tw_later (dp_turn dw)) (snd (fst step)) i; s = rt_state rt'
              in run_retries dws (pending_turn s) (rt'\<lparr>rt_state := clear_pending_turn s\<rparr>))
         | _ \<Rightarrow> []))"

lemma started_retry_count: "ds_retry_count (rt_state (started_on n rt i)) = coalesce (oi_retry_count i) 0"
  by (simp add: started_on_def build_runtime_def Let_def create_initial_state_def restore_active_timer_def split: option.split)

text \<open>
  C6. A failing turn is tried at most three times: whatever each attempt fails with, by throwing or by
  an error result, short of a closed connection, the executions that retry it are at most three, one
  less for every retry already counted, and at least one (\<open>processPrompt\<close>, \<open>handleGenericRetry\<close>).
\<close>

theorem retries_end:
  assumes "\<forall>dw \<in> set dws. failing dw" "0 \<le> ds_retry_count (rt_state rt)"
  shows "length (run_retries dws req rt) \<le> nat (max 1 (max_retries - ds_retry_count (rt_state rt)))"
  using assms
proof (induction dws arbitrary: req rt)
  case (Cons dw dws)
  show ?case
  proof (cases "snd (process_prompt dw req rt)")
    case (Turn_continued i)
    let ?rt = "started_on (tw_later (dp_turn dw)) (snd (fst (process_prompt dw req rt))) i"
    let ?next = "?rt\<lparr>rt_state := clear_pending_turn (rt_state ?rt)\<rparr>"
    have i: "ds_retry_count (rt_state rt) + 1 < max_retries" "oi_retry_count i = Some (ds_retry_count (rt_state rt) + 1)"
      using counted_process_prompt [of dw rt req] Turn_continued Cons.prems(1) by (simp_all add: counted_def)
    have counts: "ds_retry_count (rt_state ?next) = ds_retry_count (rt_state rt) + 1"
      using i(2) by (simp add: clear_pending_turn_def started_retry_count)
    have "length (run_retries dws (pending_turn (rt_state ?rt)) ?next) \<le>
        nat (max 1 (max_retries - ds_retry_count (rt_state ?next)))"
      by (rule Cons.IH) (use Cons.prems counts in auto)
    then show ?thesis using Turn_continued i(1) counts by (simp add: Let_def)
  qed (simp_all add: Let_def)
qed simp

theorem retries_end_witness:
  "length (run_retries (replicate 9 (demo_dispatch (Turn_threw ''boom''))) demo_request demo_session) \<le> 3"
proof -
  have "failing (demo_dispatch (Turn_threw ''boom''))" by (simp add: failing_def demo_dispatch_def demo_errors)
  moreover have "ds_retry_count (rt_state demo_session) = 0" by code_simp
  ultimately show ?thesis
    using retries_end [of "replicate 9 (demo_dispatch (Turn_threw ''boom''))" demo_session demo_request]
    by (simp add: max_retries_def)
qed

section \<open>Where retries do not end, and what they leave behind\<close>

lemma and_then_no_effects: "and_then (yielding [] rt) f = f rt"
  by simp

lemma process_prompt_dispatches:
  assumes "\<not> ds_needs_hydration (rt_state rt)"
  obtains req' p start where "process_prompt dw req rt = dispatch_turn dw req' p start"
    "retry_view (rt_state start) = retry_view (rt_state rt)" "\<not> ds_needs_hydration (rt_state start)"
proof -
  let ?s0 = "snd (prepare_prompt (tr_prompt req) (tr_bootstrap req) (rt_state rt))"
  have "\<not> legacy_hydration (rt_state rt)" using assms by (simp add: legacy_hydration_def)
  moreover have "\<not> ds_needs_hydration ?s0"
    using assms by (simp add: prepare_prompt_def wrap_with_resume_context_def Let_def split_beta split: option.split)
  ultimately show ?thesis
    by (intro that [where start = "rt\<lparr>rt_state := ?s0\<rparr>"])
      (simp_all add: process_prompt_def Let_def split_beta and_then_no_effects del: and_then_yielding)
qed

lemma process_threw:
  assumes "dp_raced dw = Turn_threw m" "\<not> ds_needs_hydration (rt_state rt)"
  obtains effects start src b where
    "process_prompt dw req rt = and_then (yielding effects start) (turn_threw (dp_turn dw) m src b)"
    "retry_view (rt_state start) = retry_view (rt_state rt)" "\<not> ds_needs_hydration (rt_state start)"
proof -
  obtain req' p start where start: "process_prompt dw req rt = dispatch_turn dw req' p start"
    "retry_view (rt_state start) = retry_view (rt_state rt)" "\<not> ds_needs_hydration (rt_state start)"
    using process_prompt_dispatches [OF assms(2)] .
  have "run_turn_outcome dw src b = turn_threw (dp_turn dw) m src b" for src b
    using assms(1) by (simp add: run_turn_outcome_def fun_eq_iff)
  then show ?thesis using start(2,3) by (auto intro!: that simp only: start(1) dispatch_turn_def Let_def)
qed

text \<open>An error that is retried: no missing state, no failure of the credentials.\<close>

definition retried :: "string \<Rightarrow> bool" where
  "retried m \<longleftrightarrow> missing_state_error m = None \<and> \<not> is_auth_failure_error m"

lemma releasing_keeps:
  "ds_blob_enabled (rt_state (snd (fst (releasing w r e rt)))) = ds_blob_enabled (rt_state rt)"
  "ds_needs_hydration (rt_state (snd (fst (releasing w r e rt)))) = ds_needs_hydration (rt_state rt)"
  by (simp_all add: releasing_def release_affinity_for_def)

lemma closed_connection_continues:
  assumes "ds_blob_enabled (rt_state rt)" "\<not> ds_needs_hydration (rt_state rt)"
  shows "\<exists>i. snd (handle_connection_closed_retry w m rc rt) = Turn_continued i \<and>
    oi_blob_enabled i = Some True \<and> oi_needs_hydration i = Some False"
proof -
  have "\<exists>i. snd (continue_with now (retry_continue_overrides rc) rt') = Turn_continued i \<and>
      oi_blob_enabled i = Some True \<and> oi_needs_hydration i = Some False"
    if "ds_blob_enabled (rt_state rt')" "\<not> ds_needs_hydration (rt_state rt')" for now rt'
    using that by (simp add: continue_with_def versioned_continue_as_new_def build_continue_input_def Let_def
        retry_continue_overrides_def split: option.split)
  moreover have "\<exists>i. snd (continue_with now (\<lambda>s. let ov = retry_continue_overrides rc s
        in ov\<lparr>ov_rehydration_message := x, ov_rest := (\<lambda>i. (ov_rest ov i)\<lparr>oi_retry_count := Some 0\<rparr>)\<rparr>) rt') = Turn_continued i \<and>
      oi_blob_enabled i = Some True \<and> oi_needs_hydration i = Some False"
    if "ds_blob_enabled (rt_state rt')" "\<not> ds_needs_hydration (rt_state rt')" for now rt' x
    using that by (simp add: continue_with_def versioned_continue_as_new_def build_continue_input_def Let_def
        retry_continue_overrides_def split: option.split)
  ultimately show ?thesis using assms
    by (simp add: handle_connection_closed_retry_def Let_def publishing_def releasing_keeps)
qed

lemma started_blob:
  "oi_blob_enabled i = Some b \<Longrightarrow> ds_blob_enabled (rt_state (started_on n rt i)) = b"
  "oi_needs_hydration i = Some h \<Longrightarrow> ds_needs_hydration (rt_state (started_on n rt i)) = h"
  by (simp_all add: started_on_def build_runtime_def Let_def create_initial_state_def restore_active_timer_def split: option.split)

text \<open>
  A closed connection is retried for ever on a session with a snapshot store: after three retries
  the turn is handed to another worker with the count back at zero, so however long the connection
  stays closed, every execution continues as new with the same prompt; the status has said
  "retriesExhausted" since the fourth (\<open>handleConnectionClosedRetry\<close>, \<open>turn.ts\<close>).
\<close>

theorem closed_connection_never_ends:
  assumes "\<forall>dw \<in> set dws. \<exists>m. dp_raced dw = Turn_threw m \<and> retried m \<and> is_copilot_connection_closed_error m"
    and "ds_blob_enabled (rt_state rt)" "\<not> ds_needs_hydration (rt_state rt)"
  shows "length (run_retries dws req rt) = length dws"
  using assms
proof (induction dws arbitrary: req rt)
  case (Cons dw dws)
  then obtain m where m: "dp_raced dw = Turn_threw m" "retried m" "is_copilot_connection_closed_error m" by auto
  obtain effects start src b where step:
    "process_prompt dw req rt = and_then (yielding effects start) (turn_threw (dp_turn dw) m src b)"
    "retry_view (rt_state start) = retry_view (rt_state rt)" "\<not> ds_needs_hydration (rt_state start)"
    using process_threw [OF m(1) Cons.prems(3)] .
  let ?rt = "start\<lparr>rt_state := (clear_turn_system_prompt (rt_state start))\<lparr>ds_retry_count := ds_retry_count (rt_state start) + 1\<rparr>\<rparr>"
  have "ds_blob_enabled (rt_state ?rt)" "\<not> ds_needs_hydration (rt_state ?rt)"
    using step(2,3) Cons.prems(2) by (simp_all add: retry_view_eq clear_turn_system_prompt_def)
  then obtain i where i: "snd (process_prompt dw req rt) = Turn_continued i" "oi_blob_enabled i = Some True"
    "oi_needs_hydration i = Some False"
    using closed_connection_continues [of ?rt] m(2,3) step(1)
    by (fastforce simp: turn_threw_def retried_def retry_by_kind_def count_retry_def Let_def)
  let ?next = "started_on (tw_later (dp_turn dw)) (snd (fst (process_prompt dw req rt))) i"
  have "length (run_retries dws (pending_turn (rt_state ?next)) (?next\<lparr>rt_state := clear_pending_turn (rt_state ?next)\<rparr>)) =
      length dws"
    by (rule Cons.IH) (use Cons.prems i(2,3) in \<open>simp_all add: clear_pending_turn_def started_blob\<close>)
  then show ?case using i(1) by (simp add: Let_def)
qed simp

theorem closed_connection_never_ends_witness:
  "length (run_retries (replicate 9 (demo_dispatch (Turn_threw ''Connection is closed.''))) demo_request
     (demo_session\<lparr>rt_state := new_session_state\<lparr>ds_blob_enabled := True, ds_needs_hydration := False\<rparr>\<rparr>)) = 9"
  using closed_connection_never_ends [of "replicate 9 (demo_dispatch (Turn_threw ''Connection is closed.''))"
      "demo_session\<lparr>rt_state := new_session_state\<lparr>ds_blob_enabled := True, ds_needs_hydration := False\<rparr>\<rparr>" demo_request]
  by (simp add: demo_dispatch_def retried_def demo_errors)

text \<open>
  A turn that throws for the third time ends a recurring schedule without a word (an error that is
  retried, not of a closed connection, in a session that was hydrated and had nothing else to do): the
  session keeps the schedule, but no timer is armed, and with nothing queued the loop blocks on the
  message queue with no deadline (\<open>processPrompt\<close>, \<open>handleGenericRetry\<close>; \<open>schedulePostTurnContinuation\<close>,
  which is not called, \<open>turn.ts\<close>).
\<close>

theorem exhausted_retries_stop_the_schedule:
  assumes "dp_raced dw = Turn_threw m" "retried m" "\<not> is_copilot_connection_closed_error m"
    and "ds_retry_count (rt_state rt) = max_retries - 1" "\<not> ds_needs_hydration (rt_state rt)"
    and "ds_cron_schedule (rt_state rt) = Some c" "needs_blocking_dequeue kv (rt_state rt)"
  shows "case process_prompt dw req rt of
    ((effects, rt'), flow) \<Rightarrow> flow = Turn_over \<and> ds_cron_schedule (rt_state rt') = Some c \<and>
      ds_active_timer (rt_state rt') = None \<and> needs_blocking_dequeue kv (rt_state rt')"
proof -
  obtain effects start src b where step:
    "process_prompt dw req rt = and_then (yielding effects start) (turn_threw (dp_turn dw) m src b)"
    "retry_view (rt_state start) = retry_view (rt_state rt)"
    using process_threw [OF assms(1,5)] by metis
  let ?s = "(clear_turn_system_prompt (rt_state start))\<lparr>ds_retry_count := 0\<rparr>"
  have "ds_retry_count (rt_state start) = max_retries - 1" using step(2) assms(4) by (simp add: retry_view_eq)
  then have "snd (process_prompt dw req rt) = Turn_over" "rt_state (snd (fst (process_prompt dw req rt))) = ?s"
    using assms(2,3) unfolding step(1)
    by (simp_all add: turn_threw_def retried_def retry_by_kind_def count_retry_def handle_generic_retry_def
        publishing_def reset_retry_count_def Let_def)
  moreover have "ds_cron_schedule ?s = Some c" "needs_blocking_dequeue kv ?s" "ds_active_timer ?s = None"
    using step(2) assms(6,7)
    by (simp_all add: retry_view_eq clear_turn_system_prompt_def needs_blocking_dequeue_def has_ready_pending_child_digest_def)
  ultimately show ?thesis by (simp add: split_beta)
qed

theorem exhausted_retries_stop_the_schedule_witness:
  "let cron = \<lparr>sched_interval_seconds = 60, sched_reason = ''poll''\<rparr>;
       rt = demo_session\<lparr>rt_state := new_session_state\<lparr>ds_retry_count := 2, ds_cron_schedule := Some cron\<rparr>\<rparr>
   in case process_prompt (demo_dispatch (Turn_threw ''boom'')) demo_request rt of
        ((effects, rt'), flow) \<Rightarrow> flow = Turn_over \<and> ds_cron_schedule (rt_state rt') = Some cron \<and>
          ds_active_timer (rt_state rt') = None \<and> needs_blocking_dequeue (\<lambda>_. None) (rt_state rt')"
  unfolding Let_def
proof (rule exhausted_retries_stop_the_schedule)
  let ?s = "new_session_state\<lparr>ds_retry_count := 2, ds_cron_schedule := Some \<lparr>sched_interval_seconds = 60, sched_reason = ''poll''\<rparr>\<rparr>"
  show "dp_raced (demo_dispatch (Turn_threw ''boom'')) = Turn_threw ''boom''" by (simp add: demo_dispatch_def)
  show "retried ''boom''" "\<not> is_copilot_connection_closed_error ''boom''" by (simp_all add: retried_def demo_errors)
  have "\<not> ds_needs_hydration ?s" "needs_blocking_dequeue (\<lambda>_. None) ?s" by code_simp+
  then show "\<not> ds_needs_hydration (rt_state (demo_session\<lparr>rt_state := ?s\<rparr>))"
    "needs_blocking_dequeue (\<lambda>_. None) (rt_state (demo_session\<lparr>rt_state := ?s\<rparr>))" by simp_all
qed (simp_all add: max_retries_def)

end
