(* ===== verification/OrchOutcome.thy ===== *)
theory OrchOutcome
  imports OrchTurnLoop
begin

text \<open>
  What becomes of a turn's outcome: the prompts the budget gate refused, the report of a completed
  child to its parent, and the task a session remembers.
\<close>

section \<open>Prompts the budget gate refused\<close>



text \<open>A turn's prompt as its author wrote it, and the ids its author knows it by.\<close>

definition bare_words :: "turn_source \<Rightarrow> string" where
  "bare_words src = trim (fst (split_system_context_block (Some (src_prompt src))))"

definition message_ids :: "turn_source \<Rightarrow> string list" where
  "message_ids src = filter (\<lambda>i. i \<noteq> []) (coalesce (src_client_message_ids src) [])"

text \<open>Two turns bring the same message when their ids are the same, or with no ids their words.\<close>

definition source_key :: "turn_source \<Rightarrow> string" where
  "source_key src = (if message_ids src \<noteq> [] then join '','' (message_ids src) else bare_words src)"


fun first_by :: "('a \<Rightarrow> 'k) \<Rightarrow> 'a list \<Rightarrow> 'a list" where
  "first_by f [] = []"
| "first_by f (x # xs) = x # filter (\<lambda>y. f y \<noteq> f x) (first_by f xs)"


text \<open>What is kept of a prompt (but for the tool it requires), and how it is recorded in the transcript.\<close>

definition kept_as :: "turn_source \<Rightarrow> string \<times> string list option" where
  "kept_as src = (bare_words src, if message_ids src = [] then None else Some (message_ids src))"



fun view_key :: "string \<times> string list option \<Rightarrow> string" where
  "view_key (p, ids) = stash_key (coalesce ids []) p"

text \<open>The durable records of the person's words.\<close>

definition user_messages :: "orch_effect list \<Rightarrow> orch_effect list" where
  "user_messages effects = filter (\<lambda>e. case e of Event_recorded _ ty _ \<Rightarrow> ty = ''user.message'' | _ \<Rightarrow> False) effects"

lemma user_messages_append [simp]: "user_messages (xs @ ys) = user_messages xs @ user_messages ys"
  by (simp add: user_messages_def)


lemma kept_key [simp]: "view_key (kept_as src) = source_key src"
  by (simp add: kept_as_def source_key_def stash_key_def)

lemma first_by_filter: "first_by f (filter (\<lambda>x. P (f x)) xs) = filter (\<lambda>x. P (f x)) (first_by f xs)"
proof (induction xs)
  case (Cons x xs)
  have "filter (\<lambda>y. f y \<noteq> f x) (filter (\<lambda>y. P (f y)) (first_by f xs)) =
      filter (\<lambda>y. P (f y)) (filter (\<lambda>y. f y \<noteq> f x) (first_by f xs))"
    by (simp add: conj_commute)
  moreover have "\<not> P (f x) \<Longrightarrow> filter (\<lambda>y. P (f y)) (filter (\<lambda>y. f y \<noteq> f x) (first_by f xs)) =
      filter (\<lambda>y. P (f y)) (first_by f xs)"
    by (auto intro!: filter_cong)
  ultimately show ?case using Cons by simp
qed simp





lemma ensure_task_context_stash [simp]:
  "ds_budget_stash (rt_state (ensure_task_context p rt)) = ds_budget_stash (rt_state rt)"
  by (simp add: ensure_task_context_def Let_def)

lemma ensure_task_context_input [simp]: "rt_input (ensure_task_context p rt) = rt_input rt"
  by (simp add: ensure_task_context_def Let_def)









lemma retry_input:
  assumes "ds_retry_count (rt_state rt) < max_retries" "ds_pending_prompt (rt_state rt) = None"
  shows "\<exists>i. snd (handle_generic_retry w m rc rt) = Turn_continued i \<and>
    oi_prompt i = if_truthy (Some (rc_source_prompt rc)) \<and>
    oi_budget_stash i = Option.bind (ds_budget_stash (rt_state rt)) if_nonempty"
proof -
  have input: "\<exists>i. snd (continue_with now (retry_continue_overrides rc) rt') = Turn_continued i \<and>
      oi_prompt i = if_truthy (Some (rc_source_prompt rc)) \<and>
      oi_budget_stash i = Option.bind (ds_budget_stash (rt_state rt')) if_nonempty" for now rt'
    by (simp add: continue_with_def versioned_continue_as_new_def build_continue_input_def Let_def
        retry_continue_overrides_def prompt_for_input_def carried_prompt_def split: option.split)
  have kept: "ds_budget_stash (rt_state (snd (fst (releasing w r e rt')))) = ds_budget_stash (rt_state rt')" for r e rt'
    by (simp add: releasing_def release_affinity_for_def)
  show ?thesis using assms(1) input kept
    by (simp add: handle_generic_retry_def Let_def publishing_def) metis
qed

text \<open>
  A turn that returns an error loses the prompts the budget gate had refused before it: they rode
  in the failed turn only, the stash is cleared as for a turn that reached the model, and the retry
  carries the turn's own prompt and no stash. The same error thrown keeps the stash
  (\<open>handleTurnResult\<close>, \<open>processPrompt\<close>, \<open>turn.ts\<close>).
\<close>

theorem returned_error_drops_stash:
  assumes "result_type r = ''error''" "text_of ''message'' r = m" "retried m" "\<not> is_copilot_connection_closed_error m"
    and "jget ''retryable'' r \<noteq> JBool False"
    and "ds_retry_count (rt_state rt) + 1 < max_retries" "ds_pending_prompt (rt_state rt) = None"
  shows "(\<exists>i. snd (handle_turn_result w aw r src rt) = Turn_continued i \<and>
      oi_prompt i = if_truthy (Some (src_prompt src)) \<and> oi_budget_stash i = None) \<and>
    (\<exists>i. snd (turn_threw w m src b rt) = Turn_continued i \<and>
      oi_prompt i = if_truthy (Some (src_prompt src)) \<and>
      oi_budget_stash i = Option.bind (ds_budget_stash (rt_state rt)) if_nonempty)"
proof -
  note m = assms(3) [unfolded retried_def] assms(4)
  have counted: "\<exists>i. snd (retry_by_kind w m rc rt') = Turn_continued i \<and>
      oi_prompt i = if_truthy (Some (rc_source_prompt rc)) \<and>
      oi_budget_stash i = Option.bind (ds_budget_stash (rt_state rt')) if_nonempty"
    if "ds_retry_count (rt_state rt') = ds_retry_count (rt_state rt)" "ds_pending_prompt (rt_state rt') = None" for rc rt'
  proof -
    let ?rt = "rt'\<lparr>rt_state := (rt_state rt')\<lparr>ds_retry_count := ds_retry_count (rt_state rt') + 1\<rparr>\<rparr>"
    show ?thesis using retry_input [of ?rt w m rc] that assms(6) m(2)
      by (simp add: retry_by_kind_def count_retry_def Let_def)
  qed
  have "snd (handle_turn_result w aw r src rt) = snd (retry_by_kind w m
      \<lparr>rc_source_prompt = src_prompt src, rc_system_only_turn = False, rc_required_tool = src_required_tool src,
       rc_cycle_origin = src_cycle_origin src, rc_phase = Turn_result_error\<rparr>
      (rt\<lparr>rt_state := (rt_state rt)\<lparr>ds_budget_stash := None\<rparr>\<rparr>))"
    using assms(2,5) m by (simp add: handle_error_turn_result [OF assms(1)] handle_error_result_def Let_def)
  moreover have "snd (turn_threw w m src b rt) = snd (retry_by_kind w m
      \<lparr>rc_source_prompt = src_prompt src, rc_system_only_turn = b, rc_required_tool = src_required_tool src,
       rc_cycle_origin = src_cycle_origin src, rc_phase = Run_turn_throw\<rparr>
      (rt\<lparr>rt_state := clear_turn_system_prompt (rt_state rt)\<rparr>))"
    using m by (simp add: turn_threw_def Let_def)
  ultimately show ?thesis
    using counted [of "rt\<lparr>rt_state := (rt_state rt)\<lparr>ds_budget_stash := None\<rparr>\<rparr>"]
      counted [of "rt\<lparr>rt_state := clear_turn_system_prompt (rt_state rt)\<rparr>"] assms(7)
    by (fastforce simp: clear_turn_system_prompt_def)
qed

theorem returned_error_drops_stash_witness:
  "let src = \<lparr>src_prompt = ''hello'', src_cycle_origin = None, src_client_message_ids = Some [''m1''],
         src_is_bootstrap = False, src_required_tool = None\<rparr>;
       entry = \<lparr>bs_prompt = ''earlier'', bs_client_message_ids = None, bs_required_tool = None\<rparr>;
       rt = demo_session\<lparr>rt_state := new_session_state\<lparr>ds_budget_stash := Some [entry]\<rparr>\<rparr>
   in (\<exists>i. snd (handle_turn_result demo_turn_world demo_agent_world
          (JObj [(''type'', JStr ''error''), (''message'', JStr ''boom'')]) src rt) = Turn_continued i \<and> oi_budget_stash i = None) \<and>
      (\<exists>i. snd (turn_threw demo_turn_world ''boom'' src False rt) = Turn_continued i \<and> oi_budget_stash i = Some [entry])"
proof -
  let ?src = "\<lparr>src_prompt = ''hello'', src_cycle_origin = None, src_client_message_ids = Some [''m1''],
         src_is_bootstrap = False, src_required_tool = None\<rparr>"
  let ?entry = "\<lparr>bs_prompt = ''earlier'', bs_client_message_ids = None, bs_required_tool = None\<rparr>"
  let ?rt = "demo_session\<lparr>rt_state := new_session_state\<lparr>ds_budget_stash := Some [?entry]\<rparr>\<rparr>"
  let ?r = "JObj [(''type'', JStr ''error''), (''message'', JStr ''boom'')]"
  have "ds_retry_count new_session_state = 0" "ds_pending_prompt new_session_state = None" by code_simp+
  then show ?thesis
    using returned_error_drops_stash [where r = ?r and m = "''boom''" and rt = ?rt and src = ?src and b = False and w = demo_turn_world and aw = demo_agent_world]
    by (simp add: result_type_def text_of_def retried_def demo_errors max_retries_def if_nonempty_def Let_def) blast
qed

section \<open>A completed child and its parent\<close>

text \<open>The tokens of a completed child's message: a report of a recurring cycle names the cycle and its status.\<close>

definition completed_tokens :: "string \<Rightarrow> int \<Rightarrow> jsval \<Rightarrow> string option \<Rightarrow> string list" where
  "completed_tokens sid iteration result cycle_origin =
     [''from='' @ sid, ''type=completed'', ''iter='' @ show_int iteration] @
     (if truthy_str cycle_origin then [''cycle='' @ the cycle_origin] else []) @
     (if truthy (cycle_status result) then [''status='' @ js_string (cycle_status result)] else [])"

lemma completed_message_tokens:
  "completed_message sid iteration result cycle_origin =
     update_tag @ header_of (completed_tokens sid iteration result cycle_origin) @
     CHR '']'' # CHR 0x0A # take 2000 (report_summary result)"
proof -
  have "completed_tokens sid iteration result cycle_origin \<noteq> []" by (simp add: completed_tokens_def)
  from header_of_join [OF this] show ?thesis
    by (simp add: completed_message_def completed_tokens_def update_tag_def nl_def)
qed

definition reported_status :: "jsval \<Rightarrow> bool" where
  "reported_status result \<longleftrightarrow> cycle_status result \<in> {JUndef, JStr ''quiet'', JStr ''material'', JStr ''blocked''}"

text \<open>The report of a completed turn parses as what it says: the child, the cycle and its status, the summary.\<close>

lemma parse_completed_message:
  assumes "plain_word sid" "cycle_origin \<in> {None, Some ''cron'', Some ''cron_at''}" "reported_status result"
  shows "parse_child_update (Some (completed_message sid iteration result cycle_origin)) = Some
    \<lparr>chu_session_id = sid, chu_update_type = ''completed'', chu_content = trim (take 2000 (report_summary result)),
     chu_cycle_origin = cycle_origin, chu_cycle_status = as_string (cycle_status result), chu_verdict = None\<rparr>"
proof -
  let ?tokens = "completed_tokens sid iteration result cycle_origin"
  have "plain_word ''cron''" "plain_word ''cron_at''" "plain_word ''quiet''" "plain_word ''material''"
    "plain_word ''blocked''"
    by (simp_all add: plain_word_def is_ws_def)
  then have "truthy_str cycle_origin \<Longrightarrow> plain_word (the cycle_origin)"
    "truthy (cycle_status result) \<Longrightarrow> plain_word (js_string (cycle_status result))"
    using assms(2,3) by (auto simp: reported_status_def simp del: plain_word_def)
  then have words: "truthy_str cycle_origin \<Longrightarrow> plain_word (''cycle='' @ the cycle_origin)"
    "truthy (cycle_status result) \<Longrightarrow> plain_word (''status='' @ js_string (cycle_status result))"
    "plain_word (''from='' @ sid)" "plain_word (''iter='' @ show_int iteration)"
    using assms(1) plain_word_append header_words show_int_word by blast+
  have plain: "list_all plain_word ?tokens"
    using words by (simp add: completed_tokens_def del: append.simps)
  have cycle: "one_of [''cron'', ''cron_at''] (fold set_field ?tokens Map.empty ''cycle'') = cycle_origin"
    using assms(2) by (auto simp: completed_tokens_def one_of_def)
  have status: "one_of [''quiet'', ''material'', ''blocked''] (fold set_field ?tokens Map.empty ''status'') =
      as_string (cycle_status result)"
    using assms(3) by (auto simp: completed_tokens_def reported_status_def one_of_def)
  have fields: "fold set_field ?tokens Map.empty ''from'' = Some sid" "fold set_field ?tokens Map.empty ''type'' = Some ''completed''"
    "one_of terminal_verdicts (fold set_field ?tokens Map.empty ''verdict'') = None" "?tokens \<noteq> []"
    by (simp_all add: completed_tokens_def one_of_def)
  show ?thesis
    using parse_tagged_update [OF plain fields(4) refl fields(1,2), of "take 2000 (report_summary result)"] assms(1)
    by (simp add: completed_message_tokens cycle status fields(3) plain_word_def)
qed

lemma handle_completed_reports:
  assumes "do_parent_session_id (rt_options rt) = Some parent" "parent \<noteq> []" "\<not> tw_parent_down w"
    "\<not> truthy_str (as_string (jget ''forceContinuePrompt'' result))"
    and "\<not> ds_reported_first_completion (rt_state rt)"
  shows "Message_sent parent (completed_message (runtime_sid rt) (ds_iteration (rt_state rt)) result None)
    \<in> set (fst (fst (handle_completed w result None rt)))"
  using assms
  by (simp add: handle_completed_def finish_completed_def report_completed_def if_truthy_def
      write_latest_response_def runtime_sid_def Let_def)

text \<open>
  A completed first task is heard: when a child that has reported no completion yet handles the
  result of a completed turn outside a schedule (\<open>handle_completed\<close>, no forced continuation), and its
  parent can be reached, it sends the parent a report whatever contract the parent gave it and whatever
  the wake policy says of the content. The report parses as a completion of that child carrying its
  summary (the session id being one word of the header), and applying it ends the wait of a parent
  that is not shutting down, if the child was the last one it awaited (\<open>handleTurnResult\<close>, \<open>turn.ts\<close>;
  \<open>applyChildUpdate\<close>, \<open>agents.ts\<close>). A report that cannot be sent is not repeated: the child counts
  it as made.
\<close>

theorem first_completion_reported:
  assumes "do_parent_session_id (rt_options rt) = Some parent" "parent \<noteq> []" "\<not> tw_parent_down w"
    "\<not> truthy_str (as_string (jget ''forceContinuePrompt'' result))" "reported_status result"
    "\<not> ds_reported_first_completion (rt_state rt)" "plain_word (runtime_sid rt)"
    and "ds_waiting_for_agent_ids s = Some targets" "distinct (map sa_orch_id (ds_sub_agents s))"
    "List.find (\<lambda>a. sa_session_id a = runtime_sid rt) (ds_sub_agents s) = Some child"
    "\<forall>t \<in> set targets. t \<noteq> sa_orch_id child \<longrightarrow> agent_settled (ds_sub_agents s) t"
    "ds_pending_shutdown s = None"
  shows "\<exists>msg u s'. Message_sent parent msg \<in> set (fst (fst (handle_completed w result None rt))) \<and>
    parse_child_update (Some msg) = Some u \<and> chu_session_id u = runtime_sid rt \<and>
    chu_content u = trim (take 2000 (report_summary result)) \<and>
    maybe_resolve_agent_wait_completion (snd (apply_child_update u probe s)) = Wait_resolved s' \<and>
    ds_waiting_for_agent_ids s' = None \<and> ds_active_timer s' = None \<and> truthy_str (ds_pending_prompt s')"
proof -
  define iteration where "iteration = ds_iteration (rt_state rt)"
  have sent: "Message_sent parent (completed_message (runtime_sid rt) iteration result None)
      \<in> set (fst (fst (handle_completed w result None rt)))"
    using handle_completed_reports [OF assms(1-4,6)] by (simp add: iteration_def)
  define u where "u = \<lparr>chu_session_id = runtime_sid rt, chu_update_type = ''completed'',
    chu_content = trim (take 2000 (report_summary result)), chu_cycle_origin = None,
    chu_cycle_status = as_string (cycle_status result), chu_verdict = None\<rparr>"
  have parsed: "parse_child_update (Some (completed_message (runtime_sid rt) iteration result None)) = Some u"
    unfolding u_def by (rule parse_completed_message [OF assms(7) _ assms(5)]) simp
  have u: "chu_session_id u = runtime_sid rt" "chu_update_type u = ''completed''"
    "chu_content u = trim (take 2000 (report_summary result))"
    by (simp_all add: u_def)
  have "List.find (\<lambda>a. sa_session_id a = chu_session_id u) (ds_sub_agents s) = Some child"
    using assms(10) u(1) by simp
  note resolved = completion_resolves_wait [OF assms(8,9) this u(2) assms(11), of probe, unfolded Let_def, THEN conjunct2]
  have "case maybe_resolve_agent_wait_completion (snd (apply_child_update u probe s)) of
      Still_waiting \<Rightarrow> False | Finalize_shutdown \<Rightarrow> ds_pending_shutdown s \<noteq> None
    | Wait_resolved s'' \<Rightarrow> ds_pending_shutdown s = None \<and> ds_waiting_for_agent_ids s'' = None \<and>
        ds_active_timer s'' = None \<and> ds_pending_child_digest s'' = None \<and> truthy_str (ds_pending_prompt s'')"
    by (rule resolved)
  then obtain s' where "maybe_resolve_agent_wait_completion (snd (apply_child_update u probe s)) = Wait_resolved s'"
    "ds_waiting_for_agent_ids s' = None" "ds_active_timer s' = None" "truthy_str (ds_pending_prompt s')"
    using assms(12)
    by (cases "maybe_resolve_agent_wait_completion (snd (apply_child_update u probe s))") simp_all
  then show ?thesis using sent parsed u by blast
qed

theorem first_completion_reported_witness:
  "let child = demo_session\<lparr>rt_input := new_session_input ''a'' [],
         rt_options := demo_opts\<lparr>do_parent_session_id := Some ''p''\<rparr>\<rparr>;
       result = JObj [(''type'', JStr ''completed''), (''content'', JStr ''done'')];
       parent = demo_parent\<lparr>ds_waiting_for_agent_ids := Some [''session-a'']\<rparr>
   in \<exists>msg u s'. Message_sent ''p'' msg \<in> set (fst (fst (handle_completed demo_turn_world result None child))) \<and>
        parse_child_update (Some msg) = Some u \<and>
        maybe_resolve_agent_wait_completion (snd (apply_child_update u None parent)) = Wait_resolved s' \<and>
        ds_waiting_for_agent_ids s' = None"
proof -
  let ?child = "demo_session\<lparr>rt_input := new_session_input ''a'' [],
      rt_options := demo_opts\<lparr>do_parent_session_id := Some ''p''\<rparr>\<rparr>"
  let ?parent = "demo_parent\<lparr>ds_waiting_for_agent_ids := Some [''session-a'']\<rparr>"
  let ?result = "JObj [(''type'', JStr ''completed''), (''content'', JStr ''done'')]"
  have sid: "runtime_sid ?child = ''a''" "\<not> ds_reported_first_completion (rt_state ?child)" "reported_status ?result"
    by (simp_all add: runtime_sid_def) code_simp+
  show ?thesis
    using first_completion_reported [where rt = ?child and parent = "''p''" and w = demo_turn_world and result = ?result and s = ?parent and targets = "[''session-a'']" and child = demo_child and probe = None] sid
    by (simp add: Let_def demo_turn_world_def plain_word_def is_ws_def demo_child_def) blast
qed

end
