(* ===== verification/CanvasStore.thy ===== *)
theory CanvasStore
  imports Prelude "HOL-Library.List_Lexorder" "HOL-Library.Char_ord"
begin

text \<open>
  The rows of one canvas in the key-value store of migration 0064 (\<open>cms-migrations.ts\<close>): the SQL functions
  \<open>cms_canvas_kv_write\<close>, \<open>_get\<close>, \<open>_list\<close>, \<open>_stats\<close> over the table \<open>canvas_kv\<close>, as the catalog (\<open>cms.ts\<close>)
  calls them, and connections that run the write function side by side.

  The table is the association list of the canvas's rows, one per key (its primary key). Deletes are
  tombstones. A write runs three statements. The first reads the row and locks it until the function
  returns; a row that does not exist yet cannot be locked, so others may insert it in between. The second
  counts the other rows, the third upserts. Each statement sees the committed rows of its own moment.
\<close>

section \<open>Rows\<close>

record kv_row =
  kr_value :: jsval
  kr_rev :: int
  kr_deleted :: bool

type_synonym kv_table = "(string \<times> kv_row) list"

record kv_limits =
  kl_max_keys :: nat
  kl_max_bytes :: nat
  kl_max_value_bytes :: nat

record kv_request =
  rq_key :: string
  rq_value :: "jsval option"
  rq_if_match :: "int option"

datatype kv_status = Written | Deleted | Not_found | Conflict | Too_large | Quota_keys | Quota_bytes

record kv_outcome =
  ko_status :: kv_status
  ko_rev :: int
  ko_size :: "nat option"

text \<open>The ping of a write on the live channel: the value rides along when it is small.\<close>

record kv_ping =
  kp_key :: string
  kp_rev :: int
  kp_delete :: bool
  kp_value :: "jsval option"

text \<open>
  What the database computes: the stored size of a value, the size of a ping that carries it, and the
  collation's sort key of a text.
\<close>

record kv_db =
  db_octets :: "jsval \<Rightarrow> nat"
  db_ping_octets :: "string \<Rightarrow> int \<Rightarrow> jsval \<Rightarrow> nat"
  db_sort_key :: "string \<Rightarrow> string"

text \<open>What the first statement reads: \<open>v_found\<close>, \<open>v_live\<close> and \<open>COALESCE(v_rev, 0)\<close>.\<close>

record kv_seen =
  sn_found :: bool
  sn_live :: bool
  sn_rev :: int

definition row_seen :: "kv_table \<Rightarrow> string \<Rightarrow> kv_seen" where
  "row_seen t key =
     (case map_of t key of
        Some r \<Rightarrow> \<lparr>sn_found = True, sn_live = \<not> kr_deleted r, sn_rev = kr_rev r\<rparr>
      | None \<Rightarrow> \<lparr>sn_found = False, sn_live = False, sn_rev = 0\<rparr>)"

fun put_row :: "string \<Rightarrow> kv_row \<Rightarrow> kv_table \<Rightarrow> kv_table" where
  "put_row key r [] = [(key, r)]"
| "put_row key r ((k, q) # t) = (if k = key then (key, r) # t else (k, q) # put_row key r t)"

definition live_rows :: "kv_table \<Rightarrow> kv_table" where
  "live_rows t = filter (\<lambda>(k, r). \<not> kr_deleted r) t"

definition other_rows :: "string \<Rightarrow> kv_table \<Rightarrow> kv_table" where
  "other_rows key t = filter (\<lambda>(k, r). k \<noteq> key) (live_rows t)"

definition rows_bytes :: "kv_db \<Rightarrow> kv_table \<Rightarrow> nat" where
  "rows_bytes db t = sum_list (map (\<lambda>(k, r). db_octets db (kr_value r)) t)"

section \<open>Writing\<close>

text \<open>\<open>p_if_match\<close>: none is no check, 0 claims a key that is not live, N wants the live row at revision N.\<close>

definition cas_conflict :: "int option \<Rightarrow> bool \<Rightarrow> int \<Rightarrow> bool" where
  "cas_conflict if_match live current =
     (case if_match of
        None \<Rightarrow> False
      | Some n \<Rightarrow> n = 0 \<and> live \<or> n \<noteq> 0 \<and> (\<not> live \<or> current \<noteq> n))"

definition refusal :: "kv_status \<Rightarrow> kv_seen \<Rightarrow> nat option \<Rightarrow> kv_outcome" where
  "refusal status seen octets = \<lparr>ko_status = status, ko_rev = sn_rev seen, ko_size = octets\<rparr>"

text \<open>The checks against the other live rows; a row that was live already does not count as a new key.\<close>

definition kv_budget :: "kv_limits \<Rightarrow> kv_db \<Rightarrow> string \<Rightarrow> jsval \<Rightarrow> kv_seen \<Rightarrow> kv_table \<Rightarrow> kv_outcome + nat" where
  "kv_budget lims db key v seen t =
     (let octets = db_octets db v; others = other_rows key t
      in if kl_max_value_bytes lims < octets then Inl (refusal Too_large seen (Some octets))
         else if \<not> sn_live seen \<and> kl_max_keys lims < length others + 1 then Inl (refusal Quota_keys seen (Some octets))
         else if kl_max_bytes lims < rows_bytes db others + octets then Inl (refusal Quota_bytes seen (Some octets))
         else Inr octets)"

definition put_ping :: "kv_db \<Rightarrow> string \<Rightarrow> int \<Rightarrow> jsval \<Rightarrow> kv_ping" where
  "put_ping db key new v = \<lparr>kp_key = key, kp_rev = new, kp_delete = False,
     kp_value = (if db_ping_octets db key new v \<le> 7000 then Some v else None)\<rparr>"

text \<open>The insert, or on conflict with an existing row the update, which a claim makes only over a tombstone.\<close>

definition kv_upsert ::
  "kv_db \<Rightarrow> string \<Rightarrow> jsval \<Rightarrow> int option \<Rightarrow> kv_seen \<Rightarrow> nat \<Rightarrow> kv_table \<Rightarrow> kv_outcome \<times> kv_table \<times> kv_ping list" where
  "kv_upsert db key v if_match seen octets t =
     (let now = row_seen t key; new = sn_rev now + 1
      in if if_match = Some 0 \<and> sn_live now then (refusal Conflict seen (Some octets), t, [])
         else (\<lparr>ko_status = Written, ko_rev = new, ko_size = Some octets\<rparr>,
               put_row key \<lparr>kr_value = v, kr_rev = new, kr_deleted = False\<rparr> t, [put_ping db key new v]))"

definition kv_tombstone :: "string \<Rightarrow> kv_table \<Rightarrow> kv_outcome \<times> kv_table \<times> kv_ping list" where
  "kv_tombstone key t =
     (case map_of t key of
        Some r \<Rightarrow>
          (\<lparr>ko_status = Deleted, ko_rev = kr_rev r + 1, ko_size = Some 0\<rparr>,
           put_row key (r\<lparr>kr_rev := kr_rev r + 1, kr_deleted := True\<rparr>) t,
           [\<lparr>kp_key = key, kp_rev = kr_rev r + 1, kp_delete = True, kp_value = None\<rparr>])
      | None \<Rightarrow> (refusal Not_found (row_seen t key) None, t, []))"

text \<open>The first statement's verdict: done already (a conflict, a delete), or a value still to store.\<close>

definition kv_open :: "kv_request \<Rightarrow> kv_table \<Rightarrow> (kv_outcome \<times> kv_table \<times> kv_ping list) + jsval" where
  "kv_open rq t =
     (let seen = row_seen t (rq_key rq)
      in if cas_conflict (rq_if_match rq) (sn_live seen) (sn_rev seen) then Inl (refusal Conflict seen None, t, [])
         else case rq_value rq of
           None \<Rightarrow> Inl (if sn_live seen then kv_tombstone (rq_key rq) t else (refusal Not_found seen None, t, []))
         | Some v \<Rightarrow> Inr v)"

text \<open>\<open>cms_canvas_kv_write\<close> with nobody else at the table.\<close>

definition canvas_kv_write ::
  "kv_limits \<Rightarrow> kv_db \<Rightarrow> kv_request \<Rightarrow> kv_table \<Rightarrow> kv_outcome \<times> kv_table \<times> kv_ping list" where
  "canvas_kv_write lims db rq t =
     (case kv_open rq t of
        Inl finished \<Rightarrow> finished
      | Inr v \<Rightarrow>
          let seen = row_seen t (rq_key rq)
          in case kv_budget lims db (rq_key rq) v seen t of
               Inl out \<Rightarrow> (out, t, [])
             | Inr octets \<Rightarrow> kv_upsert db (rq_key rq) v (rq_if_match rq) seen octets t)"

section \<open>Reading\<close>

definition canvas_kv_get :: "kv_table \<Rightarrow> string \<Rightarrow> kv_row option" where
  "canvas_kv_get t key = (case map_of t key of Some r \<Rightarrow> if kr_deleted r then None else Some r | None \<Rightarrow> None)"

definition page_limit :: "int option \<Rightarrow> nat" where
  "page_limit limit = nat (max 1 (min (coalesce limit 200) 200))"

definition listed :: "kv_db \<Rightarrow> string option \<Rightarrow> string option \<Rightarrow> string \<Rightarrow> bool" where
  "listed db prefix after_key key \<longleftrightarrow>
     (case prefix of None \<Rightarrow> True | Some p \<Rightarrow> take (length p) key = p) \<and>
     (case after_key of None \<Rightarrow> True | Some a \<Rightarrow> db_sort_key db a < db_sort_key db key)"

definition canvas_kv_list :: "kv_db \<Rightarrow> kv_table \<Rightarrow> string option \<Rightarrow> int option \<Rightarrow> string option \<Rightarrow> kv_table" where
  "canvas_kv_list db t prefix limit after_key =
     take (page_limit limit)
       (sort_key (db_sort_key db \<circ> fst) (filter (\<lambda>(k, r). listed db prefix after_key k) (live_rows t)))"

definition canvas_kv_stats :: "kv_db \<Rightarrow> kv_table \<Rightarrow> nat \<times> nat" where
  "canvas_kv_stats db t = (length (live_rows t), rows_bytes db (live_rows t))"

section \<open>Connections side by side\<close>

datatype kv_stage =
    At_budget kv_seen jsval
  | At_upsert kv_seen jsval nat

fun stage_seen :: "kv_stage \<Rightarrow> kv_seen" where
  "stage_seen (At_budget seen v) = seen"
| "stage_seen (At_upsert seen v octets) = seen"

record kv_sys =
  sy_table :: kv_table
  sy_conns :: "(nat \<times> kv_request \<times> kv_stage) list"
  sy_replies :: "(kv_request \<times> kv_outcome) list"

datatype kv_event = Open_write nat kv_request | Count_rows nat | Upsert_row nat

text \<open>A row lock is held by the connection that found the row, until its function returns.\<close>

definition row_locked :: "kv_sys \<Rightarrow> nat \<Rightarrow> string \<Rightarrow> bool" where
  "row_locked s c key \<longleftrightarrow>
     list_ex (\<lambda>(c', rq, stage). c' \<noteq> c \<and> rq_key rq = key \<and> sn_found (stage_seen stage)) (sy_conns s)"

definition leave_conn :: "nat \<Rightarrow> kv_request \<Rightarrow> kv_outcome \<Rightarrow> kv_table \<Rightarrow> kv_sys \<Rightarrow> kv_sys" where
  "leave_conn c rq out t s =
     s\<lparr>sy_table := t, sy_conns := filter (\<lambda>(c', p). c' \<noteq> c) (sy_conns s), sy_replies := sy_replies s @ [(rq, out)]\<rparr>"

text \<open>One statement of one connection; none when it has to wait or is not where the event wants it.\<close>

fun kv_step :: "kv_limits \<Rightarrow> kv_db \<Rightarrow> kv_event \<Rightarrow> kv_sys \<Rightarrow> kv_sys option" where
  "kv_step lims db (Open_write c rq) s =
     (if c \<in> fst ` set (sy_conns s) \<or> row_locked s c (rq_key rq) then None
      else case kv_open rq (sy_table s) of
        Inl (out, t, pings) \<Rightarrow> Some (leave_conn c rq out t s)
      | Inr v \<Rightarrow>
          Some (s\<lparr>sy_conns := (c, rq, At_budget (row_seen (sy_table s) (rq_key rq)) v) # sy_conns s\<rparr>))"
| "kv_step lims db (Count_rows c) s =
     (case map_of (sy_conns s) c of
        Some (rq, At_budget seen v) \<Rightarrow>
          (case kv_budget lims db (rq_key rq) v seen (sy_table s) of
             Inl out \<Rightarrow> Some (leave_conn c rq out (sy_table s) s)
           | Inr octets \<Rightarrow>
               Some (s\<lparr>sy_conns := (c, rq, At_upsert seen v octets) # filter (\<lambda>(c', p). c' \<noteq> c) (sy_conns s)\<rparr>))
      | _ \<Rightarrow> None)"
| "kv_step lims db (Upsert_row c) s =
     (case map_of (sy_conns s) c of
        Some (rq, At_upsert seen v octets) \<Rightarrow>
          if row_locked s c (rq_key rq) then None
          else (case kv_upsert db (rq_key rq) v (rq_if_match rq) seen octets (sy_table s) of
                  (out, t, pings) \<Rightarrow> Some (leave_conn c rq out t s))
      | _ \<Rightarrow> None)"

fun kv_run :: "kv_limits \<Rightarrow> kv_db \<Rightarrow> kv_event list \<Rightarrow> kv_sys \<Rightarrow> kv_sys option" where
  "kv_run lims db [] s = Some s"
| "kv_run lims db (e # es) s = (case kv_step lims db e s of None \<Rightarrow> None | Some s' \<Rightarrow> kv_run lims db es s')"

definition idle_at :: "kv_table \<Rightarrow> kv_sys" where
  "idle_at t = \<lparr>sy_table = t, sy_conns = [], sy_replies = []\<rparr>"

section \<open>The table as versioned registers\<close>

text \<open>
  What the store promises: every key is a register with a revision that only grows and a value or nothing;
  a write that is admitted replaces exactly the revision it named.
\<close>

type_synonym kv_registers = "string \<Rightarrow> int \<times> jsval option"

definition register_view :: "kv_table \<Rightarrow> kv_registers" where
  "register_view t key =
     (case map_of t key of
        Some r \<Rightarrow> (kr_rev r, if kr_deleted r then None else Some (kr_value r))
      | None \<Rightarrow> (0, None))"

definition register_write :: "kv_request \<Rightarrow> kv_registers \<Rightarrow> (int \<times> kv_registers) option" where
  "register_write rq regs =
     (case regs (rq_key rq) of
        (current, held) \<Rightarrow>
          if cas_conflict (rq_if_match rq) (held \<noteq> None) current \<or> rq_value rq = None \<and> held = None then None
          else Some (current + 1, regs(rq_key rq := (current + 1, rq_value rq))))"

fun register_run :: "kv_request list \<Rightarrow> kv_registers \<Rightarrow> (int list \<times> kv_registers) option" where
  "register_run [] regs = Some ([], regs)"
| "register_run (rq # rqs) regs =
     (case register_write rq regs of
        None \<Rightarrow> None
      | Some (new, regs') \<Rightarrow> map_option (\<lambda>(news, regs''). (new # news, regs'')) (register_run rqs regs'))"

definition took_effect :: "(kv_request \<times> kv_outcome) list \<Rightarrow> (kv_request \<times> kv_outcome) list" where
  "took_effect replies = filter (\<lambda>(rq, out). ko_status out \<in> {Written, Deleted}) replies"

section \<open>Rows, one per key\<close>

lemma map_of_put_row [simp]: "map_of (put_row key r t) = (map_of t)(key \<mapsto> r)"
  by (induction key r t rule: put_row.induct) (auto simp: fun_eq_iff)

lemma keys_put_row: "fst ` set (put_row key r t) = insert key (fst ` set t)"
  by (induction key r t rule: put_row.induct) auto

lemma distinct_put_row: "distinct (map fst t) \<Longrightarrow> distinct (map fst (put_row key r t))"
  using keys_put_row by (induction key r t rule: put_row.induct) (auto simp: keys_put_row)

lemma map_of_filter_conns [simp]:
  "map_of (filter (\<lambda>(c', p). c' \<noteq> c) conns) c' = (if c' = c then None else map_of conns c')"
  by (induction conns) auto

lemma other_rows_put_row: "other_rows key (put_row key r t) = other_rows key t"
  by (induction key r t rule: put_row.induct) (auto simp: other_rows_def live_rows_def)

lemma live_rows_no_key: "key \<notin> fst ` set t \<Longrightarrow> other_rows key t = live_rows t"
  by (induction t) (auto simp: other_rows_def live_rows_def)

text \<open>Summing over the live rows is summing over the others and the row of the key.\<close>

lemma live_rows_split:
  assumes "distinct (map fst t)"
  shows "sum_list (map g (live_rows t)) =
         sum_list (map g (other_rows key t)) +
         (case map_of t key of Some r \<Rightarrow> if kr_deleted r then 0 else g (key, r) | None \<Rightarrow> (0 :: nat))"
  using assms
proof (induction t)
  case (Cons p t)
  obtain k r where p: "p = (k, r)" by (cases p)
  show ?case
  proof (cases "k = key")
    case True
    then have "map_of t key = None" "other_rows key t = live_rows t"
      using Cons.prems p by (auto simp: map_of_eq_None_iff live_rows_no_key)
    then show ?thesis using p True by (auto simp: live_rows_def other_rows_def)
  next
    case False
    then show ?thesis using Cons p by (auto simp: live_rows_def other_rows_def)
  qed
qed (simp add: live_rows_def other_rows_def)

lemma length_live_rows:
  "distinct (map fst t) \<Longrightarrow>
   length (live_rows t) = length (other_rows key t) + (if sn_live (row_seen t key) then 1 else 0)"
  using live_rows_split [of t "\<lambda>_. 1" key]
  by (auto simp: sum_list_triv row_seen_def split: option.splits)

lemma bytes_live_rows:
  "distinct (map fst t) \<Longrightarrow>
   rows_bytes db (live_rows t) = rows_bytes db (other_rows key t) +
     (case map_of t key of Some r \<Rightarrow> if kr_deleted r then 0 else db_octets db (kr_value r) | None \<Rightarrow> 0)"
  using live_rows_split [of t "\<lambda>(k, r). db_octets db (kr_value r)" key]
  by (cases "map_of t key") (simp_all add: rows_bytes_def)

section \<open>One writer\<close>

definition within_quota :: "kv_limits \<Rightarrow> kv_db \<Rightarrow> kv_table \<Rightarrow> bool" where
  "within_quota lims db t \<longleftrightarrow>
     distinct (map fst t) \<and> length (live_rows t) \<le> kl_max_keys lims \<and>
     rows_bytes db (live_rows t) \<le> kl_max_bytes lims \<and>
     (\<forall>(k, r) \<in> set (live_rows t). db_octets db (kr_value r) \<le> kl_max_value_bytes lims)"

text \<open>Without other writers every write keeps the canvas within its limits.\<close>

lemma put_within_quota:
  assumes "within_quota lims db t" "kv_budget lims db key v (row_seen t key) t = Inr n"
  shows "within_quota lims db (put_row key \<lparr>kr_value = v, kr_rev = new, kr_deleted = False\<rparr> t)" (is "within_quota _ _ ?t")
proof -
  have d: "distinct (map fst ?t)" using assms(1) by (simp add: within_quota_def distinct_put_row)
  have fits: "db_octets db v \<le> kl_max_value_bytes lims"
    "sn_live (row_seen t key) \<or> length (other_rows key t) + 1 \<le> kl_max_keys lims"
    "rows_bytes db (other_rows key t) + db_octets db v \<le> kl_max_bytes lims"
    using assms(2) by (auto simp: kv_budget_def Let_def split: if_splits)
  have "length (live_rows ?t) \<le> kl_max_keys lims"
    using length_live_rows [OF d, of key] length_live_rows [of t key] fits(2) assms(1)
    by (auto simp: other_rows_put_row within_quota_def split: if_splits)
  moreover have "rows_bytes db (live_rows ?t) \<le> kl_max_bytes lims"
    using bytes_live_rows [OF d, of db key] fits(3) by (simp add: other_rows_put_row)
  moreover have "(k, r) \<in> set (live_rows ?t) \<Longrightarrow> k = key \<and> kr_value r = v \<or> (k, r) \<in> set (live_rows t)" for k r
    using d assms(1) map_of_eq_Some_iff [OF d, of k r] map_of_eq_Some_iff [of t k r]
    by (auto simp: live_rows_def within_quota_def split: if_splits)
  ultimately show ?thesis using d fits(1) assms(1) by (fastforce simp: within_quota_def)
qed

lemma tombstone_within_quota:
  assumes "within_quota lims db t"
  shows "within_quota lims db (put_row key (r\<lparr>kr_rev := new, kr_deleted := True\<rparr>) t)" (is "within_quota _ _ ?t")
proof -
  have d: "distinct (map fst ?t)" using assms by (simp add: within_quota_def distinct_put_row)
  have "length (live_rows ?t) \<le> length (live_rows t)"
    using length_live_rows [OF d, of key] length_live_rows [of t key] assms
    by (auto simp: other_rows_put_row within_quota_def row_seen_def)
  moreover have "rows_bytes db (live_rows ?t) \<le> rows_bytes db (live_rows t)"
    using bytes_live_rows [OF d, of db key] bytes_live_rows [of t db key] assms
    by (auto simp: other_rows_put_row within_quota_def)
  moreover have "(k, q) \<in> set (live_rows ?t) \<Longrightarrow> (k, q) \<in> set (live_rows t)" for k q
    using d assms map_of_eq_Some_iff [OF d, of k q] map_of_eq_Some_iff [of t k q]
    by (auto simp: live_rows_def within_quota_def split: if_splits)
  ultimately show ?thesis using d assms by (fastforce simp: within_quota_def)
qed

lemma write_within_quota:
  assumes "within_quota lims db t" "canvas_kv_write lims db rq t = (out, t', pings)"
  shows "within_quota lims db t'"
  using assms put_within_quota [OF assms(1)] tombstone_within_quota [OF assms(1)]
  by (auto simp: canvas_kv_write_def kv_open_def kv_upsert_def kv_tombstone_def Let_def
      split: if_splits option.splits sum.splits)

section \<open>Every write against the registers\<close>

lemma row_seen_register:
  "register_view t key = (v, held) \<Longrightarrow> sn_rev (row_seen t key) = v \<and> sn_live (row_seen t key) = (held \<noteq> None)"
  by (auto simp: register_view_def row_seen_def split: option.splits if_splits)

lemma register_view_put_row:
  "register_view (put_row key r t) =
   (register_view t)(key := (kr_rev r, if kr_deleted r then None else Some (kr_value r)))"
  by (auto simp: register_view_def fun_eq_iff)

lemma open_finished:
  assumes "kv_open rq t = Inl (out, t', pings)"
  shows "ko_status out \<in> {Written, Deleted} \<and> register_write rq (register_view t) = Some (ko_rev out, register_view t')
         \<or> ko_status out \<notin> {Written, Deleted} \<and> t' = t"
proof -
  obtain current held where reg: "register_view t (rq_key rq) = (current, held)" by (metis surj_pair)
  show ?thesis
    using assms row_seen_register [OF reg] reg
    by (cases "map_of t (rq_key rq)")
      (auto simp: kv_open_def Let_def refusal_def kv_tombstone_def register_write_def register_view_put_row row_seen_def
        register_view_def split: if_splits option.splits)
qed

lemma open_to_store:
  "kv_open rq t = Inr v \<longleftrightarrow>
   rq_value rq = Some v \<and>
   \<not> cas_conflict (rq_if_match rq) (sn_live (row_seen t (rq_key rq))) (sn_rev (row_seen t (rq_key rq)))"
  by (auto simp: kv_open_def Let_def split: option.splits)

lemma upsert_register:
  assumes "kv_upsert db (rq_key rq) v (rq_if_match rq) seen n t = (out, t', pings)" "rq_value rq = Some v"
    "\<not> cas_conflict (rq_if_match rq) (sn_live seen) (sn_rev seen)"
    "sn_live seen \<Longrightarrow> row_seen t (rq_key rq) = seen"
  shows "ko_status out \<in> {Written, Deleted} \<and> register_write rq (register_view t) = Some (ko_rev out, register_view t')
         \<or> ko_status out \<notin> {Written, Deleted} \<and> t' = t"
proof -
  obtain current held where reg: "register_view t (rq_key rq) = (current, held)" by (metis surj_pair)
  show ?thesis
    using assms row_seen_register [OF reg] reg
    by (auto simp: kv_upsert_def Let_def refusal_def register_write_def register_view_put_row cas_conflict_def
        split: if_splits option.splits)
qed

lemma register_run_append:
  "register_run rqs regs = Some (news, regs') \<Longrightarrow> register_write rq regs' = Some (new, regs'') \<Longrightarrow>
   register_run (rqs @ [rq]) regs = Some (news @ [new], regs'')"
  by (induction rqs arbitrary: regs news) (auto split: option.splits prod.splits)

lemma open_frame: "kv_open rq t = Inl (out, t', pings) \<Longrightarrow> k \<noteq> rq_key rq \<Longrightarrow> map_of t' k = map_of t k"
  by (auto simp: kv_open_def kv_tombstone_def Let_def split: if_splits option.splits)

lemma upsert_frame:
  "kv_upsert db key v if_match seen n t = (out, t', pings) \<Longrightarrow> k \<noteq> key \<Longrightarrow> map_of t' k = map_of t k"
  by (auto simp: kv_upsert_def Let_def split: if_splits)

section \<open>Interleaved writes are one sequence of register writes\<close>

fun stage_value :: "kv_stage \<Rightarrow> jsval" where
  "stage_value (At_budget seen v) = v"
| "stage_value (At_upsert seen v octets) = v"

text \<open>A connection that holds its row's lock still sees the row as it is.\<close>

definition conn_ok :: "kv_table \<Rightarrow> kv_request \<Rightarrow> kv_stage \<Rightarrow> bool" where
  "conn_ok t rq stage \<longleftrightarrow>
     (let seen = stage_seen stage
      in rq_value rq = Some (stage_value stage) \<and> \<not> cas_conflict (rq_if_match rq) (sn_live seen) (sn_rev seen) \<and>
         (sn_live seen \<longrightarrow> sn_found seen) \<and> (sn_found seen \<longrightarrow> row_seen t (rq_key rq) = seen))"

definition replies_linear :: "kv_table \<Rightarrow> kv_sys \<Rightarrow> bool" where
  "replies_linear t0 s \<longleftrightarrow>
     register_run (map fst (took_effect (sy_replies s))) (register_view t0) =
       Some (map (ko_rev \<circ> snd) (took_effect (sy_replies s)), register_view (sy_table s))"

definition conns_ok :: "kv_sys \<Rightarrow> bool" where
  "conns_ok s \<longleftrightarrow>
     distinct (map fst (sy_conns s)) \<and>
     (\<forall>(c, rq, stage) \<in> set (sy_conns s).
        conn_ok (sy_table s) rq stage \<and> (sn_found (stage_seen stage) \<longrightarrow> \<not> row_locked s c (rq_key rq)))"

lemma row_locked_iff:
  "row_locked s c key \<longleftrightarrow>
   (\<exists>c' rq stage. (c', rq, stage) \<in> set (sy_conns s) \<and> c' \<noteq> c \<and> rq_key rq = key \<and> sn_found (stage_seen stage))"
  by (auto simp: row_locked_def list_ex_iff)

lemma took_effect_append:
  "took_effect (xs @ [(rq, out)]) = took_effect xs @ (if ko_status out \<in> {Written, Deleted} then [(rq, out)] else [])"
  by (simp add: took_effect_def)

lemma leave_replies_linear:
  assumes "replies_linear t0 s"
    "ko_status out \<in> {Written, Deleted} \<and>
       register_write rq (register_view (sy_table s)) = Some (ko_rev out, register_view t')
     \<or> ko_status out \<notin> {Written, Deleted} \<and> t' = sy_table s"
  shows "replies_linear t0 (leave_conn c rq out t' s)"
  using assms register_run_append
  by (auto simp: replies_linear_def leave_conn_def took_effect_append)

lemma leave_conns_ok:
  assumes ok: "conns_ok s" and frame: "\<And>k. k \<noteq> rq_key rq \<Longrightarrow> map_of t' k = map_of (sy_table s) k"
    and unlocked: "row_locked s c (rq_key rq) \<Longrightarrow> t' = sy_table s"
  shows "conns_ok (leave_conn c rq out t' s)"
proof -
  have same: "row_seen t' (rq_key rq') = row_seen (sy_table s) (rq_key rq')"
    if "(c', rq', stage) \<in> set (sy_conns s)" "c' \<noteq> c" "sn_found (stage_seen stage)" for c' rq' stage
  proof (cases "rq_key rq' = rq_key rq")
    case True
    then have "row_locked s c (rq_key rq)" using that by (auto simp: row_locked_iff)
    then show ?thesis using unlocked by simp
  qed (simp add: row_seen_def frame)
  have "distinct (map fst (filter (\<lambda>(c', p). c' \<noteq> c) (sy_conns s)))"
    using ok by (auto simp: conns_ok_def intro: distinct_map_filter)
  moreover have "conn_ok t' rq' stage \<and> (sn_found (stage_seen stage) \<longrightarrow> \<not> row_locked (leave_conn c rq out t' s) c' (rq_key rq'))"
    if "(c', rq', stage) \<in> set (sy_conns s)" "c' \<noteq> c" for c' rq' stage
    using ok that same [OF that]
    by (fastforce simp: conns_ok_def conn_ok_def Let_def row_locked_iff leave_conn_def)
  ultimately show ?thesis by (auto simp: conns_ok_def leave_conn_def)
qed

lemma join_conns_ok:
  assumes "conns_ok s" "c \<notin> fst ` set (sy_conns s)" "\<not> row_locked s c (rq_key rq)" "conn_ok (sy_table s) rq stage"
  shows "conns_ok (s\<lparr>sy_conns := (c, rq, stage) # sy_conns s\<rparr>)"
  using assms by (fastforce simp: conns_ok_def row_locked_iff)

lemma advance_conns_ok:
  assumes "conns_ok s" "map_of (sy_conns s) c = Some (rq, stage)" "stage_seen stage' = stage_seen stage"
    "stage_value stage' = stage_value stage"
  shows "conns_ok (s\<lparr>sy_conns := (c, rq, stage') # filter (\<lambda>(c', p). c' \<noteq> c) (sy_conns s)\<rparr>)"
proof -
  have mem: "(c, rq, stage) \<in> set (sy_conns s)" using assms(2) by (rule map_of_SomeD)
  have "distinct (map fst (filter (\<lambda>(c', p). c' \<noteq> c) (sy_conns s)))"
    using assms(1) by (auto simp: conns_ok_def intro: distinct_map_filter)
  then show ?thesis
    using assms mem by (fastforce simp: conns_ok_def conn_ok_def Let_def row_locked_iff)
qed

lemma found_conn_ok:
  assumes "conns_ok s" "map_of (sy_conns s) c = Some (rq, stage)"
  shows "conn_ok (sy_table s) rq stage"
  using assms map_of_SomeD by (fastforce simp: conns_ok_def)

lemma kv_step_invariant:
  assumes "conns_ok s" "replies_linear t0 s" "kv_step lims db e s = Some s'"
  shows "conns_ok s' \<and> replies_linear t0 s'"
proof (cases e)
  case (Open_write c rq)
  show ?thesis
  proof (cases "kv_open rq (sy_table s)")
    case (Inl p)
    obtain out t' pings where p: "p = (out, t', pings)" by (cases p)
    then have opened: "kv_open rq (sy_table s) = Inl (out, t', pings)" using Inl by simp
    have s': "s' = leave_conn c rq out t' s" "\<not> row_locked s c (rq_key rq)"
      using assms(3) Open_write Inl p by (auto split: if_splits)
    show ?thesis unfolding s'
      using leave_conns_ok [OF assms(1) open_frame [OF opened]] leave_replies_linear [OF assms(2) open_finished [OF opened]] s'(2)
      by blast
  next
    case (Inr v)
    then have "s' = s\<lparr>sy_conns := (c, rq, At_budget (row_seen (sy_table s) (rq_key rq)) v) # sy_conns s\<rparr>"
      "c \<notin> fst ` set (sy_conns s)" "\<not> row_locked s c (rq_key rq)"
      using assms(3) Open_write by (auto split: if_splits)
    moreover have "conn_ok (sy_table s) rq (At_budget (row_seen (sy_table s) (rq_key rq)) v)"
      using Inr unfolding open_to_store
      by (auto simp: conn_ok_def row_seen_def split: option.splits)
    ultimately show ?thesis using join_conns_ok [OF assms(1)] assms(2) by (auto simp: replies_linear_def)
  qed
next
  case (Count_rows c)
  then obtain rq seen v where at: "map_of (sy_conns s) c = Some (rq, At_budget seen v)"
    using assms(3) by (auto split: option.splits kv_stage.splits)
  show ?thesis
  proof (cases "kv_budget lims db (rq_key rq) v seen (sy_table s)")
    case (Inl out)
    then have s': "s' = leave_conn c rq out (sy_table s) s" using assms(3) Count_rows at by simp
    have "ko_status out \<notin> {Written, Deleted}"
      using Inl by (auto simp: kv_budget_def Let_def refusal_def split: if_splits)
    then show ?thesis unfolding s'
      using leave_conns_ok [OF assms(1), of rq "sy_table s"] leave_replies_linear [OF assms(2), of out rq "sy_table s"]
      by blast
  next
    case (Inr n)
    then have "s' = s\<lparr>sy_conns := (c, rq, At_upsert seen v n) # filter (\<lambda>(c', p). c' \<noteq> c) (sy_conns s)\<rparr>"
      using assms(3) Count_rows at by simp
    then show ?thesis using advance_conns_ok [OF assms(1) at, of "At_upsert seen v n"] assms(2)
      by (auto simp: replies_linear_def)
  qed
next
  case (Upsert_row c)
  then obtain rq seen v n where at: "map_of (sy_conns s) c = Some (rq, At_upsert seen v n)"
    and free: "\<not> row_locked s c (rq_key rq)"
    using assms(3) by (auto split: option.splits kv_stage.splits if_splits)
  obtain out t' pings where up: "kv_upsert db (rq_key rq) v (rq_if_match rq) seen n (sy_table s) = (out, t', pings)"
    by (metis surj_pair)
  have s': "s' = leave_conn c rq out t' s" using assms(3) Upsert_row at free up by simp
  have "conn_ok (sy_table s) rq (At_upsert seen v n)" by (rule found_conn_ok [OF assms(1) at])
  then have "rq_value rq = Some v" "\<not> cas_conflict (rq_if_match rq) (sn_live seen) (sn_rev seen)"
    "sn_live seen \<Longrightarrow> row_seen (sy_table s) (rq_key rq) = seen"
    by (simp_all add: conn_ok_def Let_def)
  from upsert_register [OF up this] show ?thesis unfolding s'
    using leave_conns_ok [OF assms(1) upsert_frame [OF up]] leave_replies_linear [OF assms(2)] free by blast
qed

lemma kv_run_invariant:
  "conns_ok s \<Longrightarrow> replies_linear t0 s \<Longrightarrow> kv_run lims db es s = Some s' \<Longrightarrow> conns_ok s' \<and> replies_linear t0 s'"
  by (induction es arbitrary: s) (auto split: option.splits dest: kv_step_invariant)

lemma idle_at_ok: "conns_ok (idle_at t) \<and> replies_linear t (idle_at t)"
  by (simp add: idle_at_def conns_ok_def replies_linear_def took_effect_def)

lemma run_replies_linear:
  assumes "kv_run lims db es (idle_at t) = Some s"
  shows "replies_linear t s"
  using kv_run_invariant [OF _ _ assms, of t] idle_at_ok by blast

text \<open>
  C11. However the statements of the connections interleave, the writes that took effect are, in the order of their
  replies, one run of the versioned registers: each reply's revision is the register's next one, each write that named a
  revision replaced exactly that one, a claim found nothing, and the table ends as the registers do.
\<close>

theorem interleaved_writes_linearize:
  assumes "kv_run lims db es (idle_at t) = Some s"
  shows "register_run (map fst (took_effect (sy_replies s))) (register_view t) =
         Some (map (ko_rev \<circ> snd) (took_effect (sy_replies s)), register_view (sy_table s))"
  using run_replies_linear [OF assms] by (simp only: replies_linear_def)

text \<open>Two connections claim the same absent key and a third deletes and overwrites: one run of it, evaluated.\<close>

definition tiny_db :: kv_db where
  "tiny_db = \<lparr>db_octets = (\<lambda>v. length (js_string v)), db_ping_octets = (\<lambda>key new v. 100), db_sort_key = (\<lambda>k. k)\<rparr>"

definition put_of :: "string \<Rightarrow> string \<Rightarrow> int option \<Rightarrow> kv_request" where
  "put_of key v if_match = \<lparr>rq_key = key, rq_value = Some (JStr v), rq_if_match = if_match\<rparr>"

definition racing_claims :: "kv_event list" where
  "racing_claims =
     [Open_write 0 (put_of ''a'' ''x'' (Some 0)), Open_write 1 (put_of ''a'' ''y'' (Some 0)), Count_rows 1,
      Count_rows 0, Upsert_row 1, Upsert_row 0, Open_write 0 (put_of ''a'' ''z'' (Some 1)), Count_rows 0, Upsert_row 0]"

definition tiny_limits :: kv_limits where
  "tiny_limits = \<lparr>kl_max_keys = 1, kl_max_bytes = 100, kl_max_value_bytes = 10\<rparr>"

lemmas store_eval = tiny_db_def put_of_def racing_claims_def tiny_limits_def idle_at_def kv_open_def row_seen_def
  cas_conflict_def kv_budget_def other_rows_def live_rows_def rows_bytes_def kv_upsert_def leave_conn_def
  row_locked_def refusal_def put_ping_def kv_tombstone_def Let_def

lemma racing_claims_replies:
  "map_option (\<lambda>s. map (\<lambda>(rq, out). (ko_status out, ko_rev out)) (sy_replies s))
     (kv_run tiny_limits tiny_db racing_claims (idle_at [])) = Some [(Written, 1), (Conflict, 0), (Written, 2)]"
  by (simp add: store_eval)

theorem interleaved_writes_linearize_witness:
  "\<exists>s. kv_run tiny_limits tiny_db racing_claims (idle_at []) = Some s \<and>
       register_run (map fst (took_effect (sy_replies s))) (register_view []) =
         Some (map (ko_rev \<circ> snd) (took_effect (sy_replies s)), register_view (sy_table s))"
proof -
  obtain s where run: "kv_run tiny_limits tiny_db racing_claims (idle_at []) = Some s"
    using racing_claims_replies by (auto simp: map_option_case split: option.splits)
  with interleaved_writes_linearize [OF run] show ?thesis by blast
qed

section \<open>No lost updates\<close>

lemma register_write_grows:
  assumes "register_write rq regs = Some (new, regs')"
  shows "fst (regs key) \<le> fst (regs' key) \<and> fst (regs' (rq_key rq)) = fst (regs (rq_key rq)) + 1"
  using assms by (auto simp: register_write_def split: prod.splits if_splits)

lemma register_run_split:
  "register_run (xs @ rq # ys) regs = Some out \<Longrightarrow>
   \<exists>news mid new after. register_run xs regs = Some (news, mid) \<and> register_write rq mid = Some (new, after)"
proof (induction xs arbitrary: regs out)
  case (Cons x xs)
  then obtain new regs' out' where "register_write x regs = Some (new, regs')" "register_run (xs @ rq # ys) regs' = Some out'"
    by (auto split: option.splits)
  then show ?case using Cons.IH [of regs' out'] by auto
qed (auto split: option.splits prod.splits)

lemma register_run_grows:
  "register_run rqs regs = Some (news, regs') \<Longrightarrow>
   fst (regs key) \<le> fst (regs' key) \<and> (key \<in> rq_key ` set rqs \<longrightarrow> fst (regs key) < fst (regs' key))"
proof (induction rqs arbitrary: regs news)
  case (Cons rq rqs)
  then obtain new mid news' where mid: "register_write rq regs = Some (new, mid)" "register_run rqs mid = Some (news', regs')"
    by (auto split: option.splits)
  show ?case
    using register_write_grows [OF mid(1), of key] Cons.IH [OF mid(2)] by auto
qed simp

lemma register_write_named:
  "register_write rq regs = Some (new, regs') \<Longrightarrow> rq_if_match rq = Some n \<Longrightarrow> n \<noteq> 0 \<Longrightarrow>
   fst (regs (rq_key rq)) = n \<and> snd (regs (rq_key rq)) \<noteq> None"
  by (auto simp: register_write_def cas_conflict_def split: prod.splits if_splits)

text \<open>
  C16. A write that names the revision its caller read takes effect only if nobody wrote the key in between, in any
  interleaving, also through deletes and new claims: it replaces exactly the row the caller read.
\<close>

theorem named_revision_replaces_what_was_read:
  assumes "kv_run lims db es (idle_at t) = Some s" "took_effect (sy_replies s) = xs @ (rq, out) # ys"
    "canvas_kv_get t (rq_key rq) = Some r" "rq_if_match rq = Some (kr_rev r)" "kr_rev r \<noteq> 0"
  shows "rq_key rq \<notin> (rq_key \<circ> fst) ` set xs"
proof
  assume written: "rq_key rq \<in> (rq_key \<circ> fst) ` set xs"
  have run: "register_run (map fst xs @ rq # map fst ys) (register_view t) =
             Some (map (ko_rev \<circ> snd) (took_effect (sy_replies s)), register_view (sy_table s))"
    using run_replies_linear [OF assms(1)] by (simp add: replies_linear_def assms(2))
  obtain news mid new after where at: "register_run (map fst xs) (register_view t) = Some (news, mid)"
    "register_write rq mid = Some (new, after)"
    using register_run_split [OF run] by blast
  have "fst (register_view t (rq_key rq)) = kr_rev r"
    using assms(3) by (auto simp: canvas_kv_get_def register_view_def split: option.splits if_splits)
  moreover have "fst (register_view t (rq_key rq)) < fst (mid (rq_key rq))"
    using register_run_grows [OF at(1), of "rq_key rq"] written by (auto simp: image_comp)
  ultimately show False using register_write_named [OF at(2) assms(4,5)] by simp
qed

theorem named_revision_replaces_what_was_read_witness:
  "\<exists>s xs out. kv_run tiny_limits tiny_db
       [Open_write 0 (put_of ''a'' ''x'' (Some 3)), Open_write 1 (put_of ''b'' ''y'' None), Count_rows 1, Count_rows 0,
        Upsert_row 0] (idle_at [(''a'', \<lparr>kr_value = JStr ''w'', kr_rev = 3, kr_deleted = False\<rparr>)]) = Some s \<and>
     took_effect (sy_replies s) = xs @ [(put_of ''a'' ''x'' (Some 3), out)] \<and> ko_rev out = 4 \<and>
     ''a'' \<notin> (rq_key \<circ> fst) ` set xs"
proof -
  let ?t = "[(''a'', \<lparr>kr_value = JStr ''w'', kr_rev = 3, kr_deleted = False\<rparr>)]"
  let ?es = "[Open_write 0 (put_of ''a'' ''x'' (Some 3)), Open_write 1 (put_of ''b'' ''y'' None), Count_rows 1, Count_rows 0,
        Upsert_row 0]"
  let ?out = "\<lparr>ko_status = Written, ko_rev = 4, ko_size = Some 1\<rparr>"
  have "\<exists>s. kv_run tiny_limits tiny_db ?es (idle_at ?t) = Some s \<and>
       took_effect (sy_replies s) = [] @ (put_of ''a'' ''x'' (Some 3), ?out) # []"
    by (simp add: store_eval took_effect_def)
  then obtain s where run: "kv_run tiny_limits tiny_db ?es (idle_at ?t) = Some s"
    and eff: "took_effect (sy_replies s) = [] @ (put_of ''a'' ''x'' (Some 3), ?out) # []" by blast
  have "rq_key (put_of ''a'' ''x'' (Some 3)) \<notin> (rq_key \<circ> fst) ` set ([] :: (kv_request \<times> kv_outcome) list)"
    by (rule named_revision_replaces_what_was_read
          [OF run eff, where r = "\<lparr>kr_value = JStr ''w'', kr_rev = 3, kr_deleted = False\<rparr>"]) (simp_all add: put_of_def canvas_kv_get_def)
  with run eff show ?thesis by (fastforce simp: put_of_def)
qed

section \<open>How far writers side by side can pass the key limit\<close>

definition live_keys :: "kv_table \<Rightarrow> string set" where
  "live_keys t = fst ` set (live_rows t)"

fun counted :: "kv_stage \<Rightarrow> bool" where
  "counted (At_budget seen v) = False"
| "counted (At_upsert seen v octets) = True"

definition counted_keys :: "kv_sys \<Rightarrow> string set" where
  "counted_keys s = (rq_key \<circ> fst \<circ> snd) ` {p \<in> set (sy_conns s). counted (snd (snd p))}"

fun event_conn :: "kv_event \<Rightarrow> nat" where
  "event_conn (Open_write c rq) = c"
| "event_conn (Count_rows c) = c"
| "event_conn (Upsert_row c) = c"

text \<open>The keys there are and the keys already counted in are at most the limit and one per other writer.\<close>

definition overshoot_inv :: "nat \<Rightarrow> kv_limits \<Rightarrow> kv_sys \<Rightarrow> bool" where
  "overshoot_inv w lims s \<longleftrightarrow>
     distinct (map fst (sy_table s)) \<and> fst ` set (sy_conns s) \<subseteq> {..<w} \<and> conns_ok s \<and>
     card (live_keys (sy_table s) \<union> counted_keys s) \<le> kl_max_keys lims + (w - 1)"

lemma counted_keys_mono:
  "set (sy_conns s') \<subseteq> set (sy_conns s) \<Longrightarrow> counted_keys s' \<subseteq> counted_keys s"
  unfolding counted_keys_def by (rule image_mono) auto

lemma finite_counted_keys [simp]: "finite (counted_keys s)"
  unfolding counted_keys_def by (rule finite_imageI, rule finite_subset [of _ "set (sy_conns s)"]) auto

lemma finite_live_keys [simp]: "finite (live_keys t)"
  by (simp add: live_keys_def)

lemma live_keys_iff: "distinct (map fst t) \<Longrightarrow> key \<in> live_keys t \<longleftrightarrow> sn_live (row_seen t key)"
proof -
  assume d: "distinct (map fst t)"
  have "key \<in> live_keys t \<longleftrightarrow> (\<exists>r. map_of t key = Some r \<and> \<not> kr_deleted r)"
    using d by (force simp: live_keys_def live_rows_def)
  then show ?thesis by (auto simp: row_seen_def split: option.splits)
qed

lemma card_live_keys: "distinct (map fst t) \<Longrightarrow> card (live_keys t) = length (live_rows t)"
proof -
  assume "distinct (map fst t)"
  then have "distinct (map fst (live_rows t))" by (auto simp: live_rows_def intro: distinct_map_filter)
  then show ?thesis using distinct_card [of "map fst (live_rows t)"] by (simp add: live_keys_def)
qed

lemma counted_keys_leave: "counted_keys (leave_conn c rq out t s) \<subseteq> counted_keys s"
  by (rule counted_keys_mono) (auto simp: leave_conn_def)

lemma leave_overshoot:
  assumes "overshoot_inv w lims s" "conns_ok (leave_conn c rq out t s)" "distinct (map fst t)"
    "live_keys t \<subseteq> live_keys (sy_table s) \<union> counted_keys s"
  shows "overshoot_inv w lims (leave_conn c rq out t s)"
proof -
  have "live_keys t \<union> counted_keys (leave_conn c rq out t s) \<subseteq> live_keys (sy_table s) \<union> counted_keys s"
    using assms(4) counted_keys_leave by blast
  then have "card (live_keys t \<union> counted_keys (leave_conn c rq out t s)) \<le> card (live_keys (sy_table s) \<union> counted_keys s)"
    by (intro card_mono) simp_all
  then show ?thesis using assms by (auto simp: overshoot_inv_def leave_conn_def)
qed

lemma open_live:
  "kv_open rq t = Inl (out, t', pings) \<Longrightarrow> sn_live (row_seen t' k) \<Longrightarrow> sn_live (row_seen t k)"
  by (auto simp: kv_open_def kv_tombstone_def Let_def row_seen_def split: if_splits option.splits)

lemma open_live_keys:
  assumes "kv_open rq t = Inl (out, t', pings)" "distinct (map fst t)"
  shows "distinct (map fst t') \<and> live_keys t' \<subseteq> live_keys t"
proof -
  have "distinct (map fst t')"
    using assms by (auto simp: kv_open_def kv_tombstone_def Let_def distinct_put_row split: if_splits option.splits)
  then show ?thesis using assms(2) open_live [OF assms(1)] by (auto simp: live_keys_iff)
qed

lemma upsert_live_keys:
  assumes "kv_upsert db key v if_match seen n t = (out, t', pings)" "distinct (map fst t)"
  shows "distinct (map fst t') \<and> live_keys t' \<subseteq> insert key (live_keys t)"
proof -
  have d: "distinct (map fst t')" using assms by (auto simp: kv_upsert_def Let_def distinct_put_row split: if_splits)
  have "k \<noteq> key \<Longrightarrow> sn_live (row_seen t' k) \<Longrightarrow> sn_live (row_seen t k)" for k
    using upsert_frame [OF assms(1), of k] by (simp add: row_seen_def)
  then have "k \<in> live_keys t' \<Longrightarrow> k \<in> insert key (live_keys t)" for k using d assms(2) by (simp add: live_keys_iff) blast
  with d show ?thesis by blast
qed

lemma counted_keys_card: "fst ` set (sy_conns s) \<subseteq> C \<Longrightarrow> finite C \<Longrightarrow> distinct (map fst (sy_conns s)) \<Longrightarrow> card (counted_keys s) \<le> card C"
proof -
  assume sub: "fst ` set (sy_conns s) \<subseteq> C" "finite C" and ok: "distinct (map fst (sy_conns s))"
  have "counted_keys s \<subseteq> (rq_key \<circ> fst \<circ> snd) ` set (sy_conns s)" by (auto simp: counted_keys_def)
  then have "card (counted_keys s) \<le> card ((rq_key \<circ> fst \<circ> snd) ` set (sy_conns s))" by (intro card_mono) simp_all
  also have "\<dots> \<le> length (sy_conns s)" using card_image_le [of "set (sy_conns s)"] card_length le_trans by blast
  also have "\<dots> = card (fst ` set (sy_conns s))" using ok distinct_card [of "map fst (sy_conns s)"] by simp
  also have "\<dots> \<le> card C" using sub by (intro card_mono)
  finally show ?thesis .
qed

text \<open>A connection counted in now: its key is there, or it is one more than the keys there are.\<close>

lemma count_overshoot:
  assumes inv: "overshoot_inv w lims s" and at: "map_of (sy_conns s) c = Some (rq, At_budget seen v)"
    and budget: "kv_budget lims db (rq_key rq) v seen (sy_table s) = Inr n"
    and s': "s' = s\<lparr>sy_conns := (c, rq, At_upsert seen v n) # filter (\<lambda>(c', p). c' \<noteq> c) (sy_conns s)\<rparr>"
    and ok: "conns_ok s'"
  shows "overshoot_inv w lims s'"
proof -
  let ?key = "rq_key rq" and ?t = "sy_table s"
  let ?rest = "s\<lparr>sy_conns := filter (\<lambda>(c', p). c' \<noteq> c) (sy_conns s)\<rparr>"
  have d: "distinct (map fst ?t)" and w: "fst ` set (sy_conns s) \<subseteq> {..<w}" and c: "c < w"
    using inv map_of_SomeD [OF at] by (auto simp: overshoot_inv_def)
  have keys: "counted_keys s' = insert ?key (counted_keys ?rest)" by (force simp: counted_keys_def s' case_prod_beta)
  have fewer: "counted_keys ?rest \<subseteq> counted_keys s" by (rule counted_keys_mono) auto
  have "distinct (map fst (sy_conns ?rest))" using ok by (simp add: conns_ok_def s')
  moreover have "fst ` set (sy_conns ?rest) \<subseteq> {..<w} - {c}" using w by force
  ultimately have rest: "card (counted_keys ?rest) \<le> w - 1"
    using counted_keys_card [of ?rest "{..<w} - {c}"] c by simp
  have "card (live_keys ?t \<union> counted_keys s') \<le> kl_max_keys lims + (w - 1)"
  proof (cases "sn_live seen")
    case True
    then have "sn_live (row_seen ?t ?key)"
      using inv found_conn_ok [of s c rq "At_budget seen v"] at by (simp add: overshoot_inv_def conn_ok_def Let_def)
    then have "live_keys ?t \<union> counted_keys s' \<subseteq> live_keys ?t \<union> counted_keys s"
      using d fewer keys by (auto simp: live_keys_iff)
    then have "card (live_keys ?t \<union> counted_keys s') \<le> card (live_keys ?t \<union> counted_keys s)"
      by (intro card_mono) simp_all
    then show ?thesis using inv by (simp add: overshoot_inv_def)
  next
    case False
    then have "length (other_rows ?key ?t) + 1 \<le> kl_max_keys lims"
      using budget by (auto simp: kv_budget_def Let_def split: if_splits)
    then have "card (insert ?key (live_keys ?t)) \<le> kl_max_keys lims"
      using length_live_rows [OF d, of ?key] card_live_keys [OF d] d
      by (auto simp: card_insert_if live_keys_iff split: if_splits)
    moreover have "live_keys ?t \<union> counted_keys s' = insert ?key (live_keys ?t) \<union> counted_keys ?rest" by (auto simp: keys)
    ultimately show ?thesis using rest card_Un_le [of "insert ?key (live_keys ?t)" "counted_keys ?rest"] by simp
  qed
  then show ?thesis using inv ok c by (auto simp: overshoot_inv_def s')
qed

lemma kv_step_overshoot:
  assumes inv: "overshoot_inv w lims s" and step: "kv_step lims db e s = Some s'" and w: "event_conn e < w"
    and ok: "conns_ok s'"
  shows "overshoot_inv w lims s'"
proof (cases e)
  case (Open_write c rq)
  show ?thesis
  proof (cases "kv_open rq (sy_table s)")
    case (Inl p)
    obtain out t' pings where p: "p = (out, t', pings)" by (cases p)
    then have "s' = leave_conn c rq out t' s" using step Open_write Inl by (auto split: if_splits)
    moreover have "distinct (map fst t') \<and> live_keys t' \<subseteq> live_keys (sy_table s)"
      using open_live_keys Inl p inv by (auto simp: overshoot_inv_def)
    ultimately show ?thesis using leave_overshoot [OF inv] ok by blast
  next
    case (Inr v)
    then have s': "s' = s\<lparr>sy_conns := (c, rq, At_budget (row_seen (sy_table s) (rq_key rq)) v) # sy_conns s\<rparr>"
      using step Open_write by (auto split: if_splits)
    then have "{p \<in> set (sy_conns s'). counted (snd (snd p))} = {p \<in> set (sy_conns s). counted (snd (snd p))}" by auto
    then have "counted_keys s' = counted_keys s" by (simp only: counted_keys_def)
    with s' show ?thesis using inv ok w Open_write by (auto simp: overshoot_inv_def)
  qed
next
  case (Count_rows c)
  then obtain rq seen v where at: "map_of (sy_conns s) c = Some (rq, At_budget seen v)"
    using step by (auto split: option.splits kv_stage.splits)
  show ?thesis
  proof (cases "kv_budget lims db (rq_key rq) v seen (sy_table s)")
    case (Inl out)
    then have "s' = leave_conn c rq out (sy_table s) s" using step Count_rows at by simp
    then show ?thesis using leave_overshoot [OF inv, of c rq out "sy_table s"] ok inv by (auto simp: overshoot_inv_def)
  next
    case (Inr n)
    then show ?thesis using count_overshoot [OF inv at Inr _ ok] step Count_rows at by simp
  qed
next
  case (Upsert_row c)
  then obtain rq seen v n where at: "map_of (sy_conns s) c = Some (rq, At_upsert seen v n)"
    using step by (auto split: option.splits kv_stage.splits if_splits)
  obtain out t' pings where up: "kv_upsert db (rq_key rq) v (rq_if_match rq) seen n (sy_table s) = (out, t', pings)"
    by (metis surj_pair)
  have s': "s' = leave_conn c rq out t' s" using step Upsert_row at up by (auto split: if_splits)
  have "rq_key rq \<in> counted_keys s" using map_of_SomeD [OF at] by (force simp: counted_keys_def)
  moreover have "distinct (map fst t') \<and> live_keys t' \<subseteq> insert (rq_key rq) (live_keys (sy_table s))"
    using upsert_live_keys [OF up] inv by (simp add: overshoot_inv_def)
  ultimately show ?thesis using leave_overshoot [OF inv, of c rq out t'] ok s' by auto
qed

lemma kv_run_overshoot:
  assumes "overshoot_inv w lims s" "replies_linear t0 s" "kv_run lims db es s = Some s'" "\<And>e. e \<in> set es \<Longrightarrow> event_conn e < w"
  shows "overshoot_inv w lims s'"
  using assms
proof (induction es arbitrary: s)
  case (Cons e es)
  then obtain s1 where s1: "kv_step lims db e s = Some s1" "kv_run lims db es s1 = Some s'"
    by (auto split: option.splits)
  moreover have "conns_ok s1 \<and> replies_linear t0 s1"
    using kv_step_invariant [OF _ Cons.prems(2) s1(1)] Cons.prems(1) by (simp add: overshoot_inv_def)
  ultimately show ?case using Cons.IH [of s1] kv_step_overshoot [OF Cons.prems(1) s1(1)] Cons.prems(4) by auto
qed simp

text \<open>
  C19. The key limit is checked against rows counted earlier, so writers side by side can pass it, but only by one key
  per additional connection: with \<open>w\<close> connections a canvas never holds more than the limit and \<open>w - 1\<close> keys, and a
  single connection never passes it.
\<close>

theorem live_keys_bounded_by_writers:
  assumes "kv_run lims db es (idle_at t) = Some s" "\<forall>e \<in> set es. event_conn e < w"
    "distinct (map fst t)" "length (live_rows t) \<le> kl_max_keys lims"
  shows "length (live_rows (sy_table s)) \<le> kl_max_keys lims + (w - 1)"
proof -
  have "overshoot_inv w lims (idle_at t)"
    using assms(3,4) idle_at_ok [of t] card_live_keys [OF assms(3)]
    by (auto simp: overshoot_inv_def idle_at_def counted_keys_def)
  then have inv: "overshoot_inv w lims s"
    using kv_run_overshoot [of w lims "idle_at t" t] assms(1,2) idle_at_ok by blast
  then have "card (live_keys (sy_table s)) \<le> card (live_keys (sy_table s) \<union> counted_keys s)"
    by (intro card_mono) simp_all
  then show ?thesis using inv card_live_keys [of "sy_table s"] by (simp add: overshoot_inv_def)
qed

text \<open>Two connections, a limit of one key, two keys stored: the bound is reached.\<close>

definition racing_puts :: "kv_event list" where
  "racing_puts =
     [Open_write 0 (put_of ''a'' ''x'' None), Open_write 1 (put_of ''b'' ''y'' None), Count_rows 0, Count_rows 1,
      Upsert_row 0, Upsert_row 1]"

theorem side_by_side_puts_pass_the_key_limit:
  "map_option (\<lambda>s. (kl_max_keys tiny_limits, map fst (live_rows (sy_table s)), map (ko_status \<circ> snd) (sy_replies s)))
     (kv_run tiny_limits tiny_db racing_puts (idle_at [])) = Some (1, [''a'', ''b''], [Written, Written])"
  by (simp add: store_eval racing_puts_def)

theorem live_keys_bounded_by_writers_witness:
  "\<exists>s. kv_run tiny_limits tiny_db racing_puts (idle_at []) = Some s \<and>
       length (live_rows (sy_table s)) \<le> kl_max_keys tiny_limits + (2 - 1)"
proof -
  obtain s where run: "kv_run tiny_limits tiny_db racing_puts (idle_at []) = Some s"
    using side_by_side_puts_pass_the_key_limit by (auto simp: map_option_case split: option.splits)
  have "length (live_rows (sy_table s)) \<le> kl_max_keys tiny_limits + (2 - 1)"
    by (rule live_keys_bounded_by_writers [OF run]) (simp_all add: racing_puts_def live_rows_def)
  with run show ?thesis by blast
qed

section \<open>Pages\<close>

text \<open>What one page is taken from: the live rows with the prefix, in the collation's order.\<close>

definition listing :: "kv_db \<Rightarrow> kv_table \<Rightarrow> string option \<Rightarrow> kv_table" where
  "listing db t prefix = sort_key (db_sort_key db \<circ> fst) (filter (\<lambda>(k, r). listed db prefix None k) (live_rows t))"

text \<open>A caller that passes the last key of a full page on as the cursor of the next, at most \<open>n\<close> times.\<close>

fun walk_pages :: "nat \<Rightarrow> kv_db \<Rightarrow> kv_table \<Rightarrow> string option \<Rightarrow> int option \<Rightarrow> string option \<Rightarrow> kv_table option" where
  "walk_pages 0 db t prefix limit after_key = None"
| "walk_pages (Suc n) db t prefix limit after_key =
     (let page = canvas_kv_list db t prefix limit after_key
      in if length page = page_limit limit
         then map_option (\<lambda>rest. page @ rest) (walk_pages n db t prefix limit (Some (fst (last page))))
         else Some page)"

definition past :: "kv_db \<Rightarrow> string option \<Rightarrow> (string \<times> kv_row) \<Rightarrow> bool" where
  "past db after_key p = (case after_key of None \<Rightarrow> True | Some a \<Rightarrow> db_sort_key db a < db_sort_key db (fst p))"

lemma canvas_kv_list_eq:
  "canvas_kv_list db t prefix limit after_key = take (page_limit limit) (filter (past db after_key) (listing db t prefix))"
proof -
  have "filter (\<lambda>(k, r). listed db prefix after_key k) (live_rows t) =
        filter (past db after_key) (filter (\<lambda>(k, r). listed db prefix None k) (live_rows t))"
    by (auto simp: listed_def past_def case_prod_beta intro!: filter_cong split: option.splits)
  then show ?thesis by (simp add: canvas_kv_list_def listing_def filter_sort)
qed

lemma page_limit_pos [simp]: "0 < page_limit limit"
  by (simp add: page_limit_def)

text \<open>In a list with strictly growing sort keys, what lies past an element is what follows it.\<close>

lemma filter_past_split:
  assumes "sorted_wrt (\<lambda>p q. db_sort_key db (fst p) < db_sort_key db (fst q)) (xs @ p # ys)"
  shows "filter (past db (Some (fst p))) (xs @ p # ys) = ys"
proof -
  have "\<forall>q \<in> set xs. \<not> past db (Some (fst p)) q" "\<forall>q \<in> set ys. past db (Some (fst p)) q"
    using assms by (auto simp: past_def sorted_wrt_append dest: order.asym)
  then show ?thesis by (simp add: past_def filter_empty_conv)
qed

lemma listing_strict:
  assumes "distinct (map fst t)" "inj (db_sort_key db)"
  shows "sorted_wrt (\<lambda>p q. db_sort_key db (fst p) < db_sort_key db (fst q)) (listing db t prefix)"
proof -
  have "distinct (map fst (filter (\<lambda>(k, r). listed db prefix None k) (live_rows t)))"
    using assms(1) by (simp add: live_rows_def distinct_map_filter)
  then have "distinct (map fst (listing db t prefix))"
    by (simp add: listing_def distinct_map)
  then have "distinct (map (db_sort_key db \<circ> fst) (listing db t prefix))"
    using assms(2) by (simp add: distinct_map comp_inj_on inj_on_subset)
  moreover have "sorted (map (db_sort_key db \<circ> fst) (listing db t prefix))"
    by (simp add: listing_def)
  ultimately have "sorted_wrt (<) (map (db_sort_key db \<circ> fst) (listing db t prefix))"
    by (simp only: strict_sorted_iff)
  then show ?thesis by (simp add: sorted_wrt_map)
qed

lemma walk_pages_rest:
  assumes "sorted_wrt (\<lambda>p q. db_sort_key db (fst p) < db_sort_key db (fst q)) (listing db t prefix)"
    "listing db t prefix = xs @ ys" "filter (past db after_key) (listing db t prefix) = ys" "length ys < n"
  shows "walk_pages n db t prefix limit after_key = Some ys"
  using assms(2-)
proof (induction n arbitrary: xs ys after_key)
  case (Suc n)
  let ?l = "page_limit limit"
  have page: "canvas_kv_list db t prefix limit after_key = take ?l ys"
    using Suc.prems(2) by (simp add: canvas_kv_list_eq)
  show ?case
  proof (cases "length (take ?l ys) = ?l")
    case True
    then have ne: "take ?l ys \<noteq> []" using page_limit_pos [of limit] by (metis less_nat_zero_code list.size(3))
    let ?p = "last (take ?l ys)"
    have "ys = (butlast (take ?l ys) @ [?p]) @ drop ?l ys"
      using ne by simp
    then have all: "listing db t prefix = (xs @ butlast (take ?l ys)) @ ?p # drop ?l ys"
      using Suc.prems(1) by simp
    have "filter (past db (Some (fst ?p))) (listing db t prefix) = drop ?l ys"
      unfolding all by (rule filter_past_split) (metis all assms(1))
    moreover have "?l \<le> length ys" using True by (simp add: min_def split: if_splits)
    then have "length (drop ?l ys) < n"
      using Suc.prems(3) page_limit_pos [of limit] unfolding length_drop by linarith
    ultimately have "walk_pages n db t prefix limit (Some (fst ?p)) = Some (drop ?l ys)"
      using Suc.IH [of "xs @ take ?l ys" "drop ?l ys"] Suc.prems(1) by simp
    then show ?thesis using True page by (simp add: Let_def)
  next
    case False
    then have "take ?l ys = ys" by simp
    then show ?thesis using False page by (simp add: Let_def)
  qed
qed simp

text \<open>
  C20. Following the cursor from page to page ends and returns every live row whose key has the prefix, each exactly once and in
  order, whatever the page size; the collation has to tell different keys apart.
\<close>

theorem pages_list_every_live_row_once:
  assumes "distinct (map fst t)" "inj (db_sort_key db)" "length (live_rows t) < n"
  shows "\<exists>rows. walk_pages n db t prefix limit None = Some rows \<and> distinct (map fst rows) \<and>
     sorted (map (db_sort_key db \<circ> fst) rows) \<and>
     (\<forall>key r. (key, r) \<in> set rows \<longleftrightarrow> canvas_kv_get t key = Some r \<and> starts_with (coalesce prefix []) key)"
proof -
  let ?rows = "listing db t prefix"
  have "length ?rows \<le> length (live_rows t)" by (simp add: listing_def)
  then have "length ?rows < n" using assms(3) by simp
  moreover have "filter (past db None) ?rows = ?rows" by (simp add: past_def)
  ultimately have walk: "walk_pages n db t prefix limit None = Some ?rows"
    using walk_pages_rest [OF listing_strict [OF assms(1,2)], of prefix "[]" ?rows None n limit] by simp
  have "distinct (map fst (filter (\<lambda>(k, r). listed db prefix None k) (live_rows t)))"
    using assms(1) by (simp add: live_rows_def distinct_map_filter)
  then have "distinct (map fst ?rows)" by (simp add: listing_def distinct_map)
  moreover have "(key, r) \<in> set ?rows \<longleftrightarrow> canvas_kv_get t key = Some r \<and> starts_with (coalesce prefix []) key" for key r
  proof -
    have "take (length p) key = p \<longleftrightarrow> starts_with p key" for p
      by (metis append_eq_conv_conj append_take_drop_id starts_with_iff)
    then have "listed db prefix None key \<longleftrightarrow> starts_with (coalesce prefix []) key"
      by (cases prefix) (simp_all add: listed_def)
    moreover have "canvas_kv_get t key = Some r \<longleftrightarrow> (key, r) \<in> set (live_rows t)"
      using map_of_eq_Some_iff [OF assms(1), of key r]
      by (auto simp: live_rows_def canvas_kv_get_def split: option.splits if_splits)
    ultimately show ?thesis by (auto simp: listing_def)
  qed
  moreover have "sorted (map (db_sort_key db \<circ> fst) ?rows)" by (simp add: listing_def)
  ultimately show ?thesis using walk by blast
qed

theorem pages_list_every_live_row_once_witness:
  "\<exists>rows. walk_pages 4 tiny_db [(''b'', \<lparr>kr_value = JNull, kr_rev = 1, kr_deleted = False\<rparr>),
       (''a'', \<lparr>kr_value = JNull, kr_rev = 2, kr_deleted = False\<rparr>)] (Some []) (Some 1) None = Some rows \<and>
     map fst rows = [''a'', ''b'']"
proof -
  let ?t = "[(''b'', \<lparr>kr_value = JNull, kr_rev = 1, kr_deleted = False\<rparr>),
       (''a'', \<lparr>kr_value = JNull, kr_rev = 2, kr_deleted = False\<rparr>)]"
  have "distinct (map fst ?t)" "inj (db_sort_key tiny_db)" "length (live_rows ?t) < 4"
    by (simp_all add: live_rows_def tiny_db_def)
  from pages_list_every_live_row_once [OF this, of "Some []" "Some 1"]
  obtain rows where walk: "walk_pages 4 tiny_db ?t (Some []) (Some 1) None = Some rows" by blast
  then show ?thesis
    by (auto simp: numeral_eq_Suc canvas_kv_list_def live_rows_def listed_def page_limit_def tiny_db_def Let_def)
qed

end
