(* ===== verification/JsNumber.thy ===== *)
theory JsNumber
  imports Prelude
begin

text \<open>
  \<open>Number(x)\<close> and \<open>Number.isInteger\<close> of the language's standard library, on untyped values: the import policy
  reads octets with it, the canvas store slots, revisions and page sizes.
\<close>

section \<open>Numbers from untyped values\<close>

text \<open>\<open>Number(s)\<close> on a trimmed string: decimal literals, the prefixed integers and \<open>Infinity\<close>.\<close>

definition decimal_exponent :: "string \<Rightarrow> int option" where
  "decimal_exponent s =
     (let digits = (case s of [] \<Rightarrow> [] | c # r \<Rightarrow> if c = CHR ''-'' \<or> c = CHR ''+'' then r else s)
      in if digits = [] \<or> \<not> list_all is_digit digits then None
         else Some (if hd s = CHR ''-'' then - int (digits_val 0 digits) else int (digits_val 0 digits)))"

definition decimal_number :: "string \<Rightarrow> rat option" where
  "decimal_number s =
     (let whole = takeWhile is_digit s; r1 = dropWhile is_digit s;
          (frac, r2) = (case r1 of
             c # r \<Rightarrow> if c = CHR ''.'' then (takeWhile is_digit r, dropWhile is_digit r) else ([], r1)
           | [] \<Rightarrow> ([], r1));
          m = of_nat (digits_val 0 (whole @ frac)) / 10 ^ length frac
      in if whole @ frac = [] then None
         else case r2 of
           [] \<Rightarrow> Some m
         | c # e \<Rightarrow>
             if c = CHR ''e'' \<or> c = CHR ''E'' then
               map_option (\<lambda>x. if 0 \<le> x then m * 10 ^ nat x else m / 10 ^ nat (- x)) (decimal_exponent e)
             else None)"

definition radix_digit :: "char \<Rightarrow> nat" where
  "radix_digit c =
     (let n = of_char c :: nat
      in if 48 \<le> n \<and> n \<le> 57 then n - 48 else if 97 \<le> n \<and> n \<le> 102 then n - 87
         else if 65 \<le> n \<and> n \<le> 70 then n - 55 else 99)"

definition radix_number :: "nat \<Rightarrow> string \<Rightarrow> rat option" where
  "radix_number base s =
     (if s = [] \<or> list_ex (\<lambda>c. base \<le> radix_digit c) s then None
      else Some (of_nat (foldl (\<lambda>a c. a * base + radix_digit c) 0 s)))"

definition string_number :: "string \<Rightarrow> jsval" where
  "string_number s =
     (let num = (\<lambda>r. case r of None \<Rightarrow> JNaN | Some q \<Rightarrow> JNum q)
      in case s of
           [] \<Rightarrow> JNum 0
         | c # r \<Rightarrow>
             if c = CHR ''0'' \<and> r \<noteq> [] \<and> hd r \<in> {CHR ''x'', CHR ''X''} then num (radix_number 16 (tl r))
             else if c = CHR ''0'' \<and> r \<noteq> [] \<and> hd r \<in> {CHR ''o'', CHR ''O''} then num (radix_number 8 (tl r))
             else if c = CHR ''0'' \<and> r \<noteq> [] \<and> hd r \<in> {CHR ''b'', CHR ''B''} then num (radix_number 2 (tl r))
             else let body = (if c = CHR ''-'' \<or> c = CHR ''+'' then r else s)
                  in if body = ''Infinity'' then JInf (c = CHR ''-'')
                     else num (map_option (\<lambda>q. if c = CHR ''-'' then - q else q) (decimal_number body)))"

fun js_number :: "jsval \<Rightarrow> jsval" where
  "js_number JUndef = JNaN"
| "js_number JNull = JNum 0"
| "js_number (JBool b) = JNum (if b then 1 else 0)"
| "js_number (JNum q) = JNum q"
| "js_number JNaN = JNaN"
| "js_number (JInf neg) = JInf neg"
| "js_number (JStr s) = string_number (trim s)"
| "js_number (JArr xs) = string_number (trim (js_string (JArr xs)))"
| "js_number (JObj kvs) = JNaN"

text \<open>\<open>Number.isInteger(n)\<close>, with the integer.\<close>

fun js_integer :: "jsval \<Rightarrow> int option" where
  "js_integer (JNum q) = (if of_int \<lfloor>q\<rfloor> = q then Some \<lfloor>q\<rfloor> else None)"
| "js_integer _ = None"

section \<open>Decimal text\<close>

lemma decimal_digits: "ds \<noteq> [] \<Longrightarrow> list_all is_digit ds \<Longrightarrow> decimal_number ds = Some (of_nat (digits_val 0 ds))"
  by (simp add: decimal_number_def Let_def list_all_iff takeWhile_eq_all_conv [THEN iffD2] dropWhile_eq_Nil_conv [THEN iffD2])

text \<open>A string of digits reads as its decimal value, also with leading zeros.\<close>

lemma string_number_digits:
  assumes "ds \<noteq> []" "list_all is_digit ds"
  shows "string_number ds = JNum (of_nat (digits_val 0 ds))"
proof -
  have other: "is_digit x \<Longrightarrow>
      x \<notin> {CHR ''-'', CHR ''+'', CHR ''I'', CHR ''x'', CHR ''X'', CHR ''o'', CHR ''O'', CHR ''b'', CHR ''B''}" for x
    by (auto simp: is_digit_def)
  obtain c r where ds: "ds = c # r" using assms(1) by (cases ds) auto
  have c: "c \<noteq> CHR ''-''" "c \<noteq> CHR ''+''" "c \<noteq> CHR ''I''"
    using assms(2) ds other [of c] by (simp_all add: list_all_iff)
  have r: "(c = CHR ''0'' \<and> r \<noteq> [] \<and> hd r \<in> {CHR ''x'', CHR ''X''}) = False"
    "(c = CHR ''0'' \<and> r \<noteq> [] \<and> hd r \<in> {CHR ''o'', CHR ''O''}) = False"
    "(c = CHR ''0'' \<and> r \<noteq> [] \<and> hd r \<in> {CHR ''b'', CHR ''B''}) = False"
    using assms(2) ds other [of "hd r"] by (cases r; simp add: list_all_iff)+
  show ?thesis
    unfolding string_number_def ds list.case Let_def r using c decimal_digits [OF assms] ds by simp
qed

end
