(* ===== verification/CanvasKv.thy ===== *)
theory CanvasKv
  imports CanvasStore JsNumber
begin

text \<open>
  The one place every write and read of a canvas's key-value store passes (\<open>canvas-kv.ts\<close>): the key grammar,
  who may write, the reserved prefixes, author-bound rows, the cap on requests and the stamped envelope. The
  manifest's \<open>kv\<close> block is normalized as in \<open>canvas-app-manifest.ts\<close>.

  The store the chokepoint calls is the interface \<open>CanvasKvStore\<close>, for one session and slot (all calls of a request name
  the same): a record of functions over the store's state, with the laws a store keeps as a locale, interpreted on
  the table of migration 0064. Between the read of a row and its write other writers may be at the store; what they do there is
  an argument of the operation.
\<close>

section \<open>Principals and viewers\<close>

datatype by_kind = By_user | By_link | By_agent

record kv_by =
  by_kind :: by_kind
  by_id :: string
  by_label :: jsval

datatype canvas_principal =
    User_principal string string bool "string option"
  | Agent_principal string
  | Link_principal string "string option" bool

datatype kv_relation = Rel_owner | Rel_admin | Rel_collaborator | Rel_viewer | Rel_link | Rel_agent

datatype kv_access = Access_owner | Access_readers | Access_link

datatype share_access = Share_read | Share_write

datatype session_visibility = Visible_private | Visible_shared_read | Visible_shared_write

text \<open>The fields of the access snapshot the chokepoint reads.\<close>

record access_snapshot =
  as_is_owner :: bool
  as_share :: "share_access option"
  as_visibility :: session_visibility

record kv_manifest =
  mk_viewers_write :: bool
  mk_shared :: "string list"

record kv_viewer =
  vw_by :: kv_by
  vw_relation :: kv_relation
  vw_can_write :: bool
  vw_policy :: kv_access
  vw_manifest :: "kv_manifest option"
  vw_privileged :: bool

definition label_value :: "string option \<Rightarrow> jsval" where
  "label_value l = (case l of None \<Rightarrow> JNull | Some s \<Rightarrow> JStr s)"

fun principal_by :: "canvas_principal \<Rightarrow> kv_by" where
  "principal_by (User_principal provider subject admin label) =
     \<lparr>by_kind = By_user, by_id = provider @ ''/'' @ subject, by_label = label_value label\<rparr>"
| "principal_by (Agent_principal session) =
     \<lparr>by_kind = By_agent, by_id = ''agent:'' @ session, by_label = JStr ''agent''\<rparr>"
| "principal_by (Link_principal writer label enabled) =
     \<lparr>by_kind = By_link, by_id = writer, by_label = label_value label\<rparr>"

definition normalize_kv_manifest :: "jsval \<Rightarrow> kv_manifest option" where
  "normalize_kv_manifest raw =
     (if \<not> is_plain_object raw then None
      else Some \<lparr>mk_viewers_write = (jget ''write'' raw = JStr ''viewers''),
        mk_shared =
          (case jget ''shared'' raw of
             JArr gs \<Rightarrow>
               take 32 (map trim (filter (\<lambda>g. trim g \<noteq> [] \<and> length g \<le> 200) (List.map_filter as_string gs)))
           | _ \<Rightarrow> [])\<rparr>)"

definition manifest_opens :: "kv_manifest option \<Rightarrow> bool" where
  "manifest_opens m = (case m of None \<Rightarrow> False | Some k \<Rightarrow> mk_viewers_write k)"

text \<open>A targeted share, else what the session's visibility grants every signed-in user.\<close>

definition effective_share :: "access_snapshot option \<Rightarrow> share_access option" where
  "effective_share snap =
     (case Option.bind snap as_share of
        Some a \<Rightarrow> Some a
      | None \<Rightarrow>
          (case (case snap of None \<Rightarrow> Visible_private | Some s \<Rightarrow> as_visibility s) of
             Visible_shared_write \<Rightarrow> Some Share_write
           | Visible_shared_read \<Rightarrow> Some Share_read
           | Visible_private \<Rightarrow> None))"

fun resolve_viewer ::
  "canvas_principal \<Rightarrow> access_snapshot option \<Rightarrow> (kv_access \<times> jsval) option \<Rightarrow> kv_viewer" where
  "resolve_viewer who snap settings =
     (let policy = (case settings of None \<Rightarrow> Access_owner | Some (p, m) \<Rightarrow> p);
          manifest = normalize_kv_manifest (case settings of None \<Rightarrow> JUndef | Some (p, m) \<Rightarrow> m);
          by = principal_by who;
          viewer = (\<lambda>rel writes priv. \<lparr>vw_by = by, vw_relation = rel, vw_can_write = writes, vw_policy = policy,
                      vw_manifest = manifest, vw_privileged = priv\<rparr>)
      in case who of
           Agent_principal session \<Rightarrow> viewer Rel_agent True True
         | Link_principal writer label enabled \<Rightarrow>
             viewer Rel_link (policy = Access_link \<and> enabled \<and> manifest_opens manifest) False
         | User_principal provider subject admin label \<Rightarrow>
             let owner = (case snap of None \<Rightarrow> False | Some s \<Rightarrow> as_is_owner s);
                 share = effective_share snap;
                 rel = (if owner then Rel_owner else if admin then Rel_admin
                        else if share \<noteq> None then Rel_collaborator else Rel_viewer);
                 privileged = (owner \<or> admin \<or> share = Some Share_write);
                 admitted = ((policy = Access_readers \<or> policy = Access_link) \<and> manifest_opens manifest)
             in viewer rel (privileged \<or> share = Some Share_read \<and> admitted) privileged)"

section \<open>The rules for one key\<close>

fun contains_text :: "string \<Rightarrow> string \<Rightarrow> bool" where
  "contains_text p [] = (p = [])"
| "contains_text p (c # cs) = (starts_with p (c # cs) \<or> contains_text p cs)"

definition key_char :: "char \<Rightarrow> bool" where
  "key_char c \<longleftrightarrow>
     c \<in> set ''ABCDEFGHIJKLMNOPQRSTUVWXYZabcdefghijklmnopqrstuvwxyz0123456789._/-''"

definition validate_key :: "jsval \<Rightarrow> string option" where
  "validate_key v =
     (case v of
        JStr key \<Rightarrow>
          if key = [] then Some ''key is required''
          else if 200 < length key then Some ''key exceeds 200 characters''
          else if \<not> list_all key_char key then Some ''key may contain only letters, digits, . _ / -''
          else if starts_with ''/'' key then Some ''key may not start with /''
          else if contains_text ''..'' key then Some ''key may not contain ..''
          else None
      | _ \<Rightarrow> Some ''key is required'')"

definition validate_slot :: "jsval \<Rightarrow> int option" where
  "validate_slot slot =
     (case js_integer (js_number slot) of Some n \<Rightarrow> if 1 \<le> n \<and> n \<le> 5 then Some n else None | None \<Rightarrow> None)"

definition glob_matches :: "string \<Rightarrow> string \<Rightarrow> bool" where
  "glob_matches glob key \<longleftrightarrow>
     (if glob = ''*'' then True
      else if ends_with ''/*'' glob then starts_with (butlast glob) key \<or> key = butlast (butlast glob)
      else if ends_with ''*'' glob then starts_with (butlast glob) key
      else glob = key)"

datatype kv_code = Forbidden | Code_conflict | Invalid_key | Invalid_request | Code_too_large | Code_quota | Code_not_found

datatype kv_decision = Admit jsval bool | Refuse kv_code string

record kv_op =
  op_delete :: bool
  op_key :: string
  op_value :: jsval

text \<open>\<open>{ ...value, [k]: v }\<close>\<close>

fun obj_set :: "string \<Rightarrow> jsval \<Rightarrow> jsval \<Rightarrow> jsval" where
  "obj_set k v (JObj kvs) = JObj (if k \<in> fst ` set kvs then map (\<lambda>(k', v'). if k' = k then (k, v) else (k', v')) kvs
                                  else kvs @ [(k, v)])"
| "obj_set k v x = x"

text \<open>The prefix rules; \<open>cfg\<close> and \<open>evt\<close> name the key itself too.\<close>

definition prefix_refusal :: "kv_viewer \<Rightarrow> string \<Rightarrow> string option" where
  "prefix_refusal viewer key =
     (let mine = ''ui/'' @ by_id (vw_by viewer)
      in if key = ''cfg'' \<or> starts_with ''cfg/'' key then
           (if vw_relation viewer \<in> {Rel_owner, Rel_admin, Rel_agent} then None
            else Some ''cfg/* is owner-and-agent writable'')
         else if key = ''evt'' \<or> starts_with ''evt/'' key then
           (if vw_relation viewer \<in> {Rel_owner, Rel_agent} then None
            else Some ''evt/* is written by the session, not by viewers'')
         else if starts_with ''ui/'' key then
           (if key \<noteq> mine \<and> \<not> starts_with (mine @ ''/'') key \<and> \<not> vw_privileged viewer
            then Some (''ui/* rows belong to their writer; yours are '' @ mine) else None)
         else None)"

definition shares_key :: "kv_viewer \<Rightarrow> string \<Rightarrow> bool" where
  "shares_key viewer key =
     (case vw_manifest viewer of None \<Rightarrow> False | Some m \<Rightarrow> list_ex (\<lambda>g. glob_matches g key) (mk_shared m))"

text \<open>The cap on requests, in the code's two steps.\<close>

definition cap_request :: "kv_viewer \<Rightarrow> string \<Rightarrow> jsval \<Rightarrow> jsval \<times> bool" where
  "cap_request viewer key value =
     (if starts_with ''req/'' key \<and> \<not> vw_privileged viewer \<and> is_plain_object value then
        let status = jget ''status'' value;
            (v1, c1) = (if status \<notin> {JStr ''suggested'', JStr ''done'', JStr ''failed''}
                        then (obj_set ''status'' (JStr ''suggested'') value, True) else (value, False))
        in if status \<in> {JStr ''done'', JStr ''failed''} then (obj_set ''status'' (JStr ''suggested'') v1, True)
           else (v1, c1)
      else (value, False))"

text \<open>The author of the existing row, none when there is no row.\<close>

definition decide_write :: "kv_viewer \<Rightarrow> kv_op \<Rightarrow> kv_by option \<Rightarrow> kv_decision" where
  "decide_write viewer op existing =
     (let key = op_key op
      in if \<not> vw_can_write viewer then Refuse Forbidden ''you can view this canvas but not write it''
         else case prefix_refusal viewer key of
           Some text \<Rightarrow> Refuse Forbidden text
         | None \<Rightarrow>
             if \<not> vw_privileged viewer \<and>
                (case existing of None \<Rightarrow> False | Some b \<Rightarrow> by_id b \<noteq> by_id (vw_by viewer)) \<and> \<not> shares_key viewer key
             then Refuse Forbidden ''this row was written by someone else; the app does not share that key''
             else if op_delete op then Admit JUndef False
             else (case cap_request viewer key (op_value op) of (v, capped) \<Rightarrow> Admit v capped))"

section \<open>Rows and envelopes\<close>

record kv_entry =
  en_key :: string
  en_v :: jsval
  en_by :: kv_by
  en_at :: string
  en_rev :: int

fun is_object :: "jsval \<Rightarrow> bool" where
  "is_object (JArr xs) = True"
| "is_object (JObj kvs) = True"
| "is_object v = False"

text \<open>\<open>x ?? null\<close>\<close>

definition or_null :: "jsval \<Rightarrow> jsval" where
  "or_null v = (if is_nullish v then JNull else v)"

definition row_by :: "jsval \<Rightarrow> kv_by" where
  "row_by value =
     (let by = jget ''by'' value; kind = jget ''kind'' by
      in if is_object by
         then \<lparr>by_kind = (if kind = JStr ''link'' then By_link else if kind = JStr ''agent'' then By_agent else By_user),
               by_id = (if is_nullish (jget ''id'' by) then [] else js_string (jget ''id'' by)),
               by_label = or_null (jget ''label'' by)\<rparr>
         else \<lparr>by_kind = By_user, by_id = [], by_label = JNull\<rparr>)"

definition row_to_entry :: "string \<Rightarrow> jsval \<times> int \<Rightarrow> kv_entry" where
  "row_to_entry key row =
     (case row of (value, current) \<Rightarrow>
        \<lparr>en_key = key, en_v = jget ''v'' value, en_by = row_by value,
         en_at = (let at_v = jget ''at'' value in if is_nullish at_v then [] else js_string at_v), en_rev = current\<rparr>)"

fun kind_text :: "by_kind \<Rightarrow> string" where
  "kind_text By_user = ''user''"
| "kind_text By_link = ''link''"
| "kind_text By_agent = ''agent''"

definition envelope :: "jsval \<Rightarrow> kv_by \<Rightarrow> string \<Rightarrow> jsval" where
  "envelope v by now =
     JObj [(''v'', if v = JUndef then JNull else v),
           (''by'', JObj [(''kind'', JStr (kind_text (by_kind by))), (''id'', JStr (by_id by)), (''label'', by_label by)]),
           (''at'', JStr now)]"

section \<open>The store-facing surface\<close>

text \<open>\<open>CanvasKvStore\<close> for one session and slot, over the store's state.\<close>

record 's kv_store =
  so_access :: "'s \<Rightarrow> string \<times> string \<Rightarrow> access_snapshot option"
  so_settings :: "'s \<Rightarrow> (kv_access \<times> jsval) option"
  so_get :: "'s \<Rightarrow> string \<Rightarrow> (jsval \<times> int) option"
  so_list :: "'s \<Rightarrow> string option \<Rightarrow> int \<Rightarrow> string option \<Rightarrow> (string \<times> jsval \<times> int) list"
  so_write :: "kv_limits \<Rightarrow> kv_request \<Rightarrow> 's \<Rightarrow> kv_outcome \<times> 's"

definition canvas_limits :: kv_limits where
  "canvas_limits = \<lparr>kl_max_keys = 1000, kl_max_bytes = 2 * 1024 * 1024, kl_max_value_bytes = 16 * 1024\<rparr>"

definition snapshot_visible :: "canvas_principal \<Rightarrow> access_snapshot \<Rightarrow> bool" where
  "snapshot_visible who snap \<longleftrightarrow>
     as_is_owner snap \<or> (case who of User_principal p s admin l \<Rightarrow> admin | _ \<Rightarrow> False) \<or> as_share snap \<noteq> None \<or>
     as_visibility snap \<in> {Visible_shared_read, Visible_shared_write}"

definition viewer_for :: "'s kv_store \<Rightarrow> jsval \<Rightarrow> canvas_principal \<Rightarrow> 's \<Rightarrow> (kv_code \<times> string) + kv_viewer" where
  "viewer_for store slot who s =
     (if validate_slot slot = None then Inl (Invalid_request, ''slot must be an integer 1-5'')
      else case who of
        User_principal provider subject admin label \<Rightarrow>
          (case so_access store s (provider, subject) of
             None \<Rightarrow> Inl (Code_not_found, ''session not found'')
           | Some snap \<Rightarrow>
               if snapshot_visible who snap then Inr (resolve_viewer who (Some snap) (so_settings store s))
               else Inl (Forbidden, ''not visible''))
      | _ \<Rightarrow> Inr (resolve_viewer who None (so_settings store s)))"

record kv_query =
  qy_prefix :: jsval
  qy_limit :: jsval
  qy_after :: jsval
  qy_key :: jsval

record kv_read_result =
  rd_entries :: "kv_entry list"
  rd_next_after :: "string option"
  rd_viewer :: kv_viewer

text \<open>\<open>Math.max(1, Math.min(200, Math.floor(Number(l) || 200)))\<close>\<close>

definition query_limit :: "jsval \<Rightarrow> int" where
  "query_limit l =
     (case js_number l of
        JNum q \<Rightarrow> if q = 0 then 200 else max 1 (min 200 \<lfloor>q\<rfloor>)
      | JInf neg \<Rightarrow> if neg then 1 else 200
      | _ \<Rightarrow> 200)"

definition read_canvas_kv ::
  "'s kv_store \<Rightarrow> jsval \<Rightarrow> canvas_principal \<Rightarrow> kv_query \<Rightarrow> 's \<Rightarrow> (kv_code \<times> string) + kv_read_result" where
  "read_canvas_kv store slot who q s =
     (case viewer_for store slot who s of
        Inl e \<Rightarrow> Inl e
      | Inr viewer \<Rightarrow>
          if truthy (qy_key q) then
            (case validate_key (qy_key q) of
               Some bad \<Rightarrow> Inl (Invalid_key, bad)
             | None \<Rightarrow>
                 let key = js_string (qy_key q)
                 in Inr \<lparr>rd_entries = (case so_get store s key of None \<Rightarrow> [] | Some row \<Rightarrow> [row_to_entry key row]),
                         rd_next_after = None, rd_viewer = viewer\<rparr>)
          else
            let prefix = as_string (qy_prefix q)
            in if truthy_str prefix \<and> (200 < length (the prefix) \<or> \<not> list_all key_char (the prefix))
               then Inl (Invalid_key, ''prefix may contain only letters, digits, . _ / -'')
               else
                 let limit = query_limit (qy_limit q);
                     rows = so_list store s prefix limit (if_truthy (as_string (qy_after q)))
                 in Inr \<lparr>rd_entries = map (\<lambda>(k, row). row_to_entry k row) rows,
                         rd_next_after = (if int (length rows) = limit then Some (fst (last rows)) else None),
                         rd_viewer = viewer\<rparr>)"

record kv_result =
  kx_key :: string
  kx_ok :: bool
  kx_rev :: "int option"
  kx_capped :: bool
  kx_code :: "kv_code option"

definition refused :: "string \<Rightarrow> kv_code \<Rightarrow> kv_result" where
  "refused key code = \<lparr>kx_key = key, kx_ok = False, kx_rev = None, kx_capped = False, kx_code = Some code\<rparr>"

definition outcome_result :: "string \<Rightarrow> bool \<Rightarrow> kv_outcome \<Rightarrow> kv_result" where
  "outcome_result key capped out =
     (let done_with = (\<lambda>c. \<lparr>kx_key = key, kx_ok = True, kx_rev = Some (ko_rev out), kx_capped = c, kx_code = None\<rparr>)
      in case ko_status out of
           Written \<Rightarrow> done_with capped
         | Deleted \<Rightarrow> done_with capped
         | Not_found \<Rightarrow> done_with False
         | Conflict \<Rightarrow> (refused key Code_conflict)\<lparr>kx_rev := Some (ko_rev out)\<rparr>
         | Too_large \<Rightarrow> refused key Code_too_large
         | Quota_keys \<Rightarrow> refused key Code_quota
         | Quota_bytes \<Rightarrow> refused key Code_quota)"

text \<open>\<open>ifMatch\<close>: absent, or a non-negative integer; anything else is refused.\<close>

definition parse_if_match :: "jsval \<Rightarrow> int option option" where
  "parse_if_match v =
     (if is_nullish v then Some None
      else case js_integer (js_number v) of
        None \<Rightarrow> None
      | Some n \<Rightarrow> if n < 0 then None else Some (Some n))"

text \<open>
  The iteration of one op: what the checks make of it before the store is read, and the op as it is carried out.
  \<open>others\<close> is what other writers do to the store between the read of the row and the write.
\<close>

definition parse_op :: "jsval \<Rightarrow> kv_result + kv_op \<times> int option" where
  "parse_op raw =
     (let shown = (if is_nullish (jget ''key'' raw) then [] else js_string (jget ''key'' raw))
      in case validate_key (jget ''key'' raw) of
           Some bad \<Rightarrow> Inl (refused shown Invalid_key)
         | None \<Rightarrow>
             if jget ''op'' raw \<noteq> JStr ''put'' \<and> jget ''op'' raw \<noteq> JStr ''delete'' then Inl (refused shown Invalid_request)
             else case parse_if_match (jget ''ifMatch'' raw) of
               None \<Rightarrow> Inl (refused shown Invalid_request)
             | Some if_match \<Rightarrow>
                 Inr (\<lparr>op_delete = (jget ''op'' raw = JStr ''delete''), op_key = shown, op_value = jget ''value'' raw\<rparr>,
                      if_match))"

definition carry_out ::
  "'s kv_store \<Rightarrow> kv_viewer \<Rightarrow> string \<Rightarrow> ('s \<Rightarrow> 's) \<Rightarrow> kv_op \<Rightarrow> int option \<Rightarrow> 's \<Rightarrow> kv_result \<times> 's" where
  "carry_out store viewer now others op if_match s =
     (let key = op_key op; existing = map_option (\<lambda>row. en_by (row_to_entry key row)) (so_get store s key)
      in case decide_write viewer op existing of
           Refuse code text \<Rightarrow> (refused key code, others s)
         | Admit v capped \<Rightarrow>
             (case so_write store canvas_limits
                     \<lparr>rq_key = key,
                      rq_value = (if op_delete op then None else Some (envelope v (vw_by viewer) now)),
                      rq_if_match = if_match\<rparr> (others s) of
                (out, s') \<Rightarrow> (outcome_result key capped out, s')))"

definition write_op ::
  "'s kv_store \<Rightarrow> kv_viewer \<Rightarrow> string \<Rightarrow> ('s \<Rightarrow> 's) \<Rightarrow> jsval \<Rightarrow> 's \<Rightarrow> kv_result \<times> 's" where
  "write_op store viewer now others raw s =
     (case parse_op raw of
        Inl result \<Rightarrow> (result, others s)
      | Inr (op, if_match) \<Rightarrow> carry_out store viewer now others op if_match s)"

fun write_ops ::
  "'s kv_store \<Rightarrow> kv_viewer \<Rightarrow> (jsval \<times> string \<times> ('s \<Rightarrow> 's)) list \<Rightarrow> 's \<Rightarrow> kv_result list \<times> 's" where
  "write_ops store viewer [] s = ([], s)"
| "write_ops store viewer ((raw, now, others) # ops) s =
     (case write_op store viewer now others raw s of
        (r, s') \<Rightarrow> (case write_ops store viewer ops s' of (rs, s'') \<Rightarrow> (r # rs, s'')))"

definition write_canvas_kv ::
  "'s kv_store \<Rightarrow> jsval \<Rightarrow> canvas_principal \<Rightarrow> (jsval \<times> string \<times> ('s \<Rightarrow> 's)) list \<Rightarrow> 's \<Rightarrow>
   ((kv_code \<times> string) + kv_result list \<times> kv_viewer) \<times> 's" where
  "write_canvas_kv store slot who ops s =
     (case viewer_for store slot who s of
        Inl e \<Rightarrow> (Inl e, s)
      | Inr viewer \<Rightarrow> (case write_ops store viewer (take 50 ops) s of (rs, s') \<Rightarrow> (Inr (rs, viewer), s')))"

section \<open>The laws of a store\<close>

locale canvas_store =
  fixes store :: "'s kv_store"
  assumes write_frame:
      "so_write store lims rq s = (out, s') \<Longrightarrow> k \<noteq> rq_key rq \<Longrightarrow> so_get store s' k = so_get store s k"
    and write_refused:
      "so_write store lims rq s = (out, s') \<Longrightarrow> ko_status out \<notin> {Written, Deleted} \<Longrightarrow> so_get store s' k = so_get store s k"
    and write_stored:
      "so_write store lims rq s = (out, s') \<Longrightarrow> ko_status out = Written \<Longrightarrow>
       \<exists>v. rq_value rq = Some v \<and> so_get store s' (rq_key rq) = Some (v, ko_rev out)"
    and write_removed:
      "so_write store lims rq s = (out, s') \<Longrightarrow> ko_status out = Deleted \<Longrightarrow> so_get store s' (rq_key rq) = None"
    and write_named:
      "so_write store lims rq s = (out, s') \<Longrightarrow> ko_status out \<in> {Written, Deleted} \<Longrightarrow> rq_if_match rq = Some n \<Longrightarrow>
       if n = 0 then so_get store s (rq_key rq) = None else \<exists>v. so_get store s (rq_key rq) = Some (v, n)"

section \<open>What a writer may change\<close>

definition under :: "string \<Rightarrow> string \<Rightarrow> bool" where
  "under p key \<longleftrightarrow> key = p \<or> starts_with (p @ ''/'') key"

definition row_author :: "jsval \<times> int \<Rightarrow> string" where
  "row_author row = by_id (row_by (fst row))"

text \<open>
  Going from one row (or none) to another at a key is allowed to a viewer: the key is well formed and outside
  the prefixes reserved for others, an unprivileged viewer is admitted by both switches, replaces only rows of their own or at a shared key, and
  leaves a request as suggested; the row left behind carries the viewer's identity.
\<close>

definition change_allowed :: "kv_viewer \<Rightarrow> string \<Rightarrow> (jsval \<times> int) option \<Rightarrow> (jsval \<times> int) option \<Rightarrow> bool" where
  "change_allowed viewer key old new \<longleftrightarrow>
     vw_can_write viewer \<and> validate_key (JStr key) = None \<and>
     (under ''cfg'' key \<longrightarrow> vw_relation viewer \<in> {Rel_owner, Rel_admin, Rel_agent}) \<and>
     (under ''evt'' key \<longrightarrow> vw_relation viewer \<in> {Rel_owner, Rel_agent}) \<and>
     (\<not> vw_privileged viewer \<longrightarrow>
        (starts_with ''ui/'' key \<longrightarrow> under (''ui/'' @ by_id (vw_by viewer)) key) \<and>
        (\<forall>row. old = Some row \<longrightarrow> row_author row = by_id (vw_by viewer) \<or> shares_key viewer key)) \<and>
     (\<forall>v n. new = Some (v, n) \<longrightarrow>
        by_kind (row_by v) = by_kind (vw_by viewer) \<and> by_id (row_by v) = by_id (vw_by viewer) \<and>
        (\<not> vw_privileged viewer \<and> starts_with ''req/'' key \<and> is_plain_object (jget ''v'' v) \<longrightarrow>
           jget ''status'' (jget ''v'' v) = JStr ''suggested''))"

lemma row_by_envelope [simp]:
  "by_kind (row_by (envelope v by now)) = by_kind by" "by_id (row_by (envelope v by now)) = by_id by"
  "jget ''v'' (envelope v by now) = (if v = JUndef then JNull else v)"
  by (cases "by_kind by"; simp add: row_by_def envelope_def)+

lemma map_of_map_set:
  "map_of (map (\<lambda>(k', v'). if k' = k then (k, v) else (k', v')) kvs) k = (if k \<in> fst ` set kvs then Some v else None)"
  by (induction kvs) (simp_all add: case_prod_beta image_iff)

lemma jget_obj_set [simp]: "is_plain_object x \<Longrightarrow> jget k (obj_set k v x) = v"
  by (cases x) (auto simp: map_of_map_set map_add_def split: option.splits dest!: map_of_SomeD intro: rev_image_eqI)

lemma is_plain_object_obj_set [simp]: "is_plain_object (obj_set k v x) = is_plain_object x"
  by (cases x) auto

lemma cap_request_suggested:
  assumes "cap_request viewer key value = (v, capped)" "starts_with ''req/'' key" "\<not> vw_privileged viewer"
    "is_plain_object (if v = JUndef then JNull else v)"
  shows "jget ''status'' v = JStr ''suggested''"
  using assms by (auto simp: cap_request_def Let_def split: if_splits prod.splits)

lemma decide_write_allowed:
  assumes "decide_write viewer op (map_option (\<lambda>row. en_by (row_to_entry (op_key op) row)) old) = Admit v capped"
    "validate_key (JStr (op_key op)) = None"
  shows "change_allowed viewer (op_key op) old None"
    and "\<not> op_delete op \<Longrightarrow> change_allowed viewer (op_key op) old (Some (envelope v (vw_by viewer) now, n))"
proof -
  have prefix: "vw_can_write viewer" "prefix_refusal viewer (op_key op) = None"
    using assms(1) by (auto simp: decide_write_def Let_def split: if_splits option.splits)
  have cfg: "under ''cfg'' (op_key op) \<longrightarrow> vw_relation viewer \<in> {Rel_owner, Rel_admin, Rel_agent}"
    using prefix(2) by (auto simp: prefix_refusal_def under_def split: if_splits)
  have "under ''evt'' (op_key op) \<Longrightarrow> \<not> under ''cfg'' (op_key op)" by (auto simp: under_def starts_with_iff)
  then have evt: "under ''evt'' (op_key op) \<longrightarrow> vw_relation viewer \<in> {Rel_owner, Rel_agent}"
    using prefix(2) by (auto simp: prefix_refusal_def under_def split: if_splits)
  have "starts_with ''ui/'' (op_key op) \<Longrightarrow> \<not> under ''cfg'' (op_key op) \<and> \<not> under ''evt'' (op_key op)"
    by (auto simp: under_def starts_with_iff)
  then have ui: "\<not> vw_privileged viewer \<longrightarrow> starts_with ''ui/'' (op_key op) \<longrightarrow>
      under (''ui/'' @ by_id (vw_by viewer)) (op_key op)"
    using prefix(2) by (auto simp: prefix_refusal_def under_def Let_def split: if_splits)
  have author: "\<not> vw_privileged viewer \<longrightarrow>
      (\<forall>row. old = Some row \<longrightarrow> row_author row = by_id (vw_by viewer) \<or> shares_key viewer (op_key op))"
    using assms(1) prefix by (auto simp: decide_write_def Let_def row_author_def row_to_entry_def split: if_splits option.splits)
  show "change_allowed viewer (op_key op) old None"
    using prefix(1) assms(2) cfg evt ui author by (simp add: change_allowed_def)
  show "change_allowed viewer (op_key op) old (Some (envelope v (vw_by viewer) now, n))" if put: "\<not> op_delete op"
  proof -
    have "cap_request viewer (op_key op) (op_value op) = (v, capped)"
      using assms(1) put by (auto simp: decide_write_def Let_def split: if_splits option.splits prod.splits)
    from cap_request_suggested [OF this] show ?thesis
      using prefix(1) assms(2) cfg evt ui author by (auto simp: change_allowed_def)
  qed
qed

lemma change_allowed_trans:
  "change_allowed viewer key a b \<Longrightarrow> change_allowed viewer key b c \<Longrightarrow> change_allowed viewer key a c"
  by (simp add: change_allowed_def)

lemma parse_op_key: "parse_op raw = Inr (op, if_match) \<Longrightarrow> validate_key (JStr (op_key op)) = None"
  by (cases "jget ''key'' raw") (auto simp: parse_op_def validate_key_def Let_def split: if_splits option.splits)

context canvas_store begin

text \<open>One op: whatever others did in between, the change it makes is allowed from the row it checked.\<close>

lemma carry_out_effect:
  assumes "carry_out store viewer now others op if_match s = (result, s')" "validate_key (JStr (op_key op)) = None"
    "so_get store s' key \<noteq> so_get store (others s) key"
  shows "key = op_key op \<and> change_allowed viewer key (so_get store s key) (so_get store s' key) \<and>
    (\<forall>n. if_match = Some n \<longrightarrow>
       (if n = 0 then so_get store (others s) key = None else \<exists>v. so_get store (others s) key = Some (v, n)))"
proof -
  let ?old = "map_option (\<lambda>row. en_by (row_to_entry (op_key op) row)) (so_get store s (op_key op))"
  obtain v capped where admit: "decide_write viewer op ?old = Admit v capped"
    using assms(1,3) by (cases "decide_write viewer op ?old") (auto simp: carry_out_def Let_def)
  let ?rq = "\<lparr>rq_key = op_key op, rq_value = (if op_delete op then None else Some (envelope v (vw_by viewer) now)),
              rq_if_match = if_match\<rparr>"
  obtain out where out: "so_write store canvas_limits ?rq (others s) = (out, s')"
    using assms(1) admit by (auto simp: carry_out_def Let_def split: prod.splits)
  have key: "key = op_key op" using write_frame [OF out] assms(3) by fastforce
  have status: "ko_status out \<in> {Written, Deleted}" using write_refused [OF out] assms(3) by blast
  have "change_allowed viewer (op_key op) (so_get store s (op_key op)) (so_get store s' (op_key op))"
  proof (cases "ko_status out = Written")
    case True
    then show ?thesis using write_stored [OF out] decide_write_allowed(2) [OF admit assms(2)]
      by (auto split: if_splits)
  next
    case False
    then show ?thesis using write_removed [OF out] status decide_write_allowed(1) [OF admit assms(2)] by auto
  qed
  then show ?thesis using key write_named [OF out status] by auto
qed

text \<open>A batch nobody interferes with.\<close>

lemma write_op_effect:
  assumes "write_op store viewer now (\<lambda>s. s) raw s = (result, s')" "so_get store s' key \<noteq> so_get store s key"
  shows "change_allowed viewer key (so_get store s key) (so_get store s' key)"
  using assms carry_out_effect [of viewer now "\<lambda>s. s"] parse_op_key
  by (fastforce simp: write_op_def split: sum.splits prod.splits)

lemma write_ops_effect:
  assumes "write_ops store viewer ops s = (results, s')" "\<forall>(raw, now, others) \<in> set ops. others = (\<lambda>s. s)"
  shows "so_get store s' key = so_get store s key \<or> change_allowed viewer key (so_get store s key) (so_get store s' key)"
  using assms
proof (induction ops arbitrary: s results)
  case (Cons p ops)
  obtain raw now where p: "p = (raw, now, \<lambda>s. s)" using Cons.prems(2) by (cases p) auto
  obtain r s1 rs where one: "write_op store viewer now (\<lambda>s. s) raw s = (r, s1)" "write_ops store viewer ops s1 = (rs, s')"
    using Cons.prems(1) p by (auto split: prod.splits)
  show ?case
    using write_op_effect [OF one(1), of key] Cons.IH [OF one(2)] Cons.prems(2) change_allowed_trans by fastforce
qed simp

end

section \<open>The table of migration 0064 as the store\<close>

record canvas_state =
  cs_table :: kv_table
  cs_access :: "string \<times> string \<Rightarrow> access_snapshot option"
  cs_settings :: "(kv_access \<times> jsval) option"

definition sql_store :: "kv_db \<Rightarrow> canvas_state kv_store" where
  "sql_store db = \<lparr>
     so_access = cs_access,
     so_settings = cs_settings,
     so_get = (\<lambda>s key. map_option (\<lambda>r. (kr_value r, kr_rev r)) (canvas_kv_get (cs_table s) key)),
     so_list = (\<lambda>s prefix limit after_key.
        map (\<lambda>(k, r). (k, kr_value r, kr_rev r)) (canvas_kv_list db (cs_table s) prefix (Some limit) after_key)),
     so_write = (\<lambda>lims rq s. case canvas_kv_write lims db rq (cs_table s) of (out, t, pings) \<Rightarrow> (out, s\<lparr>cs_table := t\<rparr>))\<rparr>"

lemma sql_store_simps [simp]:
  "so_access (sql_store db) = cs_access" "so_settings (sql_store db) = cs_settings"
  "so_get (sql_store db) s key = map_option (\<lambda>r. (kr_value r, kr_rev r)) (canvas_kv_get (cs_table s) key)"
  "so_write (sql_store db) lims rq s = (case canvas_kv_write lims db rq (cs_table s) of (out, t, pings) \<Rightarrow> (out, s\<lparr>cs_table := t\<rparr>))"
  by (simp_all add: sql_store_def)

lemma canvas_kv_get_register:
  "map_option (\<lambda>r. (kr_value r, kr_rev r)) (canvas_kv_get t key) =
   (case register_view t key of (n, None) \<Rightarrow> None | (n, Some v) \<Rightarrow> Some (v, n))"
  by (auto simp: canvas_kv_get_def register_view_def split: option.splits)

lemma canvas_kv_write_cases:
  assumes "canvas_kv_write lims db rq t = (out, t', pings)"
  shows "ko_status out \<in> {Written, Deleted} \<and> register_write rq (register_view t) = Some (ko_rev out, register_view t')
         \<or> ko_status out \<notin> {Written, Deleted} \<and> t' = t"
proof (cases "kv_open rq t")
  case (Inl p)
  then show ?thesis using assms open_finished [of rq t out t' pings] by (simp add: canvas_kv_write_def)
next
  case (Inr v)
  show ?thesis
  proof (cases "kv_budget lims db (rq_key rq) v (row_seen t (rq_key rq)) t")
    case (Inl refused)
    then show ?thesis using assms Inr
      by (auto simp: canvas_kv_write_def kv_budget_def refusal_def Let_def split: if_splits)
  next
    case budget: (Inr n)
    then show ?thesis using assms Inr upsert_register open_to_store
      by (fastforce simp: canvas_kv_write_def Let_def)
  qed
qed

text \<open>The status says what was asked for.\<close>

lemma canvas_kv_write_status:
  assumes "canvas_kv_write lims db rq t = (out, t', pings)"
  shows "(ko_status out = Written \<longrightarrow> rq_value rq \<noteq> None) \<and> (ko_status out = Deleted \<longrightarrow> rq_value rq = None)"
  using assms
  by (auto simp: canvas_kv_write_def kv_open_def kv_budget_def kv_upsert_def kv_tombstone_def refusal_def Let_def
      split: if_splits option.splits sum.splits)

lemma register_write_at:
  "register_write rq regs = Some (new, regs') \<Longrightarrow> regs' = regs(rq_key rq := (new, rq_value rq))"
  by (auto simp: register_write_def split: prod.splits if_splits)

interpretation sql: canvas_store "sql_store db"
proof
  fix lims rq s out s' k
  assume "so_write (sql_store db) lims rq s = (out, s')"
  then obtain t pings where w: "canvas_kv_write lims db rq (cs_table s) = (out, t, pings)" and s': "s' = s\<lparr>cs_table := t\<rparr>"
    by (auto split: prod.splits)
  note eff = canvas_kv_write_cases [OF w]
  show "k \<noteq> rq_key rq \<Longrightarrow> so_get (sql_store db) s' k = so_get (sql_store db) s k"
    using eff by (auto simp: s' canvas_kv_get_register dest!: register_write_at)
  show "ko_status out \<notin> {Written, Deleted} \<Longrightarrow> so_get (sql_store db) s' k = so_get (sql_store db) s k"
    using eff by (auto simp: s')
  show "ko_status out = Written \<Longrightarrow> \<exists>v. rq_value rq = Some v \<and> so_get (sql_store db) s' (rq_key rq) = Some (v, ko_rev out)"
    using eff canvas_kv_write_status [OF w] by (auto simp: s' canvas_kv_get_register dest!: register_write_at)
  show "ko_status out = Deleted \<Longrightarrow> so_get (sql_store db) s' (rq_key rq) = None"
    using eff canvas_kv_write_status [OF w] by (auto simp: s' canvas_kv_get_register dest!: register_write_at)
  show "if n = 0 then so_get (sql_store db) s (rq_key rq) = None else \<exists>v. so_get (sql_store db) s (rq_key rq) = Some (v, n)"
    if "ko_status out \<in> {Written, Deleted}" "rq_if_match rq = Some n" for n
    using eff that by (auto simp: canvas_kv_get_register register_write_def cas_conflict_def split: prod.splits if_splits option.splits)
qed

lemma viewer_for_resolved:
  "viewer_for store slot who s = Inr viewer \<Longrightarrow> \<exists>snap. viewer = resolve_viewer who snap (so_settings store s)"
  by (auto simp: viewer_for_def simp del: resolve_viewer.simps split: if_splits canvas_principal.splits option.splits)

lemma resolve_viewer_by: "vw_by (resolve_viewer who snap settings) = principal_by who"
  by (cases who) (simp_all add: Let_def)

lemma resolve_viewer_switches:
  assumes "vw_can_write (resolve_viewer who snap settings)" "\<not> vw_privileged (resolve_viewer who snap settings)"
  shows "vw_policy (resolve_viewer who snap settings) \<noteq> Access_owner \<and>
         manifest_opens (vw_manifest (resolve_viewer who snap settings))"
  using assms by (cases who) (auto simp: Let_def)

section \<open>Writers stay in their rows\<close>

text \<open>
  C12. A batch of writes on the table, by whoever is let in and with no other writer in between: every row it changes, it was
  allowed to change from the row that was there before the batch, and the row it leaves carries the writer's identity. An
  unprivileged writer got there only by both switches, the owner's policy and the app's manifest.
\<close>

theorem writers_stay_in_their_rows:
  assumes "write_canvas_kv (sql_store db) slot who ops s = (Inr (results, viewer), s')"
    "\<forall>(raw, now, others) \<in> set ops. others = (\<lambda>s. s)"
    "so_get (sql_store db) s' key \<noteq> so_get (sql_store db) s key"
  shows "change_allowed viewer key (so_get (sql_store db) s key) (so_get (sql_store db) s' key) \<and>
         vw_by viewer = principal_by who \<and>
         (vw_privileged viewer \<or> vw_policy viewer \<noteq> Access_owner \<and> manifest_opens (vw_manifest viewer))"
proof -
  obtain rs where v: "viewer_for (sql_store db) slot who s = Inr viewer"
    and ops: "write_ops (sql_store db) viewer (take 50 ops) s = (rs, s')"
    using assms(1) by (auto simp: write_canvas_kv_def split: sum.splits prod.splits)
  have "\<forall>(raw, now, others) \<in> set (take 50 ops). others = (\<lambda>s. s)" using assms(2) by (meson in_set_takeD)
  then have allowed: "change_allowed viewer key (so_get (sql_store db) s key) (so_get (sql_store db) s' key)"
    using sql.write_ops_effect [OF ops] assms(3) by blast
  moreover obtain snap where viewer: "viewer = resolve_viewer who snap (cs_settings s)"
    using viewer_for_resolved [OF v] by auto
  moreover have "vw_can_write viewer" using allowed by (simp add: change_allowed_def)
  ultimately show ?thesis
    using resolve_viewer_by [of who snap] resolve_viewer_switches [of who snap "cs_settings s"] by blast
qed

text \<open>A canvas of the owner ann: bob reads the session, the policy and the app let readers write.\<close>

definition shared_canvas :: "kv_table \<Rightarrow> canvas_state" where
  "shared_canvas t = \<lparr>cs_table = t,
     cs_access = (\<lambda>_. Some \<lparr>as_is_owner = False, as_share = Some Share_read, as_visibility = Visible_private\<rparr>),
     cs_settings = Some (Access_readers, JObj [(''write'', JStr ''viewers'')])\<rparr>"

definition bob :: canvas_principal where
  "bob = User_principal ''dev'' ''bob'' False None"

definition raw_put :: "string \<Rightarrow> jsval \<Rightarrow> jsval" where
  "raw_put key v = JObj [(''op'', JStr ''put''), (''key'', JStr key), (''value'', v)]"

lemmas canvas_eval = write_canvas_kv_def viewer_for_def shared_canvas_def bob_def raw_put_def write_op_def parse_op_def
  carry_out_def decide_write_def prefix_refusal_def cap_request_def validate_key_def key_char_def validate_slot_def
  snapshot_visible_def normalize_kv_manifest_def manifest_opens_def effective_share_def shares_key_def envelope_def
  row_to_entry_def row_by_def parse_if_match_def outcome_result_def refused_def sql_store_def canvas_kv_write_def
  canvas_limits_def label_value_def canvas_kv_get_def or_null_def

theorem writers_stay_in_their_rows_witness:
  "\<exists>results viewer s'. write_canvas_kv (sql_store tiny_db) (JNum 1) bob
       [(raw_put ''req/1'' (JObj [(''status'', JStr ''queued'')]), ''now'', \<lambda>s. s),
        (raw_put ''cfg/x'' (JStr ''x''), ''now'', \<lambda>s. s)] (shared_canvas []) = (Inr (results, viewer), s') \<and>
     map kx_ok results = [True, False] \<and>
     change_allowed viewer ''req/1'' None (so_get (sql_store tiny_db) s' ''req/1'')"
proof -
  let ?ops = "[(raw_put ''req/1'' (JObj [(''status'', JStr ''queued'')]), ''now'', \<lambda>s. s),
        (raw_put ''cfg/x'' (JStr ''x''), ''now'', \<lambda>s. s)]"
  have "\<exists>results viewer s'. write_canvas_kv (sql_store tiny_db) (JNum 1) bob ?ops (shared_canvas []) =
       (Inr (results, viewer), s') \<and> map kx_ok results = [True, False] \<and> so_get (sql_store tiny_db) s' ''req/1'' \<noteq> None"
    by (simp add: canvas_eval store_eval)
  then obtain results viewer s' where w: "write_canvas_kv (sql_store tiny_db) (JNum 1) bob ?ops (shared_canvas []) =
       (Inr (results, viewer), s')" and ok: "map kx_ok results = [True, False]"
    and new: "so_get (sql_store tiny_db) s' ''req/1'' \<noteq> None" by (elim exE conjE) (rule that)
  have old: "so_get (sql_store tiny_db) (shared_canvas []) ''req/1'' = None" by (simp add: canvas_eval)
  have alone: "\<forall>(raw, now, others) \<in> set ?ops. others = (\<lambda>s. s)" by simp
  have differ: "so_get (sql_store tiny_db) s' ''req/1'' \<noteq> so_get (sql_store tiny_db) (shared_canvas []) ''req/1''"
    unfolding old by (rule new)
  from writers_stay_in_their_rows [OF w alone differ]
  have "change_allowed viewer ''req/1'' None (so_get (sql_store tiny_db) s' ''req/1'')" unfolding old by (rule conjunct1)
  with w ok show ?thesis by (intro exI conjI)
qed

section \<open>Other writers between the read and the write\<close>

lemma register_run_same_revision:
  "register_run rqs regs = Some (news, regs') \<Longrightarrow> fst (regs' key) = fst (regs key) \<Longrightarrow> regs' key = regs key"
proof (induction rqs arbitrary: regs news)
  case (Cons rq rqs)
  then obtain new mid news' where mid: "register_write rq regs = Some (new, mid)" "register_run rqs mid = Some (news', regs')"
    by (auto split: option.splits)
  have "key \<noteq> rq_key rq"
    using register_write_grows [OF mid(1), of key] register_run_grows [OF mid(2), of key] Cons.prems(2) by auto
  then show ?case using Cons.IH [OF mid(2)] register_write_at [OF mid(1)] Cons.prems(2) by simp
qed simp

text \<open>
  C23. A write that names the revision of the row the author check read, or claims the key, keeps to the rules whatever the other
  connections do between that read and the write: the row it replaces is the one that was checked.
\<close>

theorem guarded_writes_stay_in_their_rows:
  assumes "write_op (sql_store db) viewer now others raw s = (result, s')" "parse_op raw = Inr (op, Some n)"
    "n = 0 \<or> map_option snd (so_get (sql_store db) s (op_key op)) = Some n"
    "kv_run lims db es (idle_at (cs_table s)) = Some sys" "others s = s\<lparr>cs_table := sy_table sys\<rparr>"
    "so_get (sql_store db) s' key \<noteq> so_get (sql_store db) (others s) key"
  shows "change_allowed viewer key (so_get (sql_store db) (others s) key) (so_get (sql_store db) s' key)"
proof -
  have "carry_out (sql_store db) viewer now others op (Some n) s = (result, s')"
    using assms(1,2) by (simp add: write_op_def)
  note eff = sql.carry_out_effect [OF this parse_op_key [OF assms(2)] assms(6)]
  have allowed: "change_allowed viewer key (so_get (sql_store db) s key) (so_get (sql_store db) s' key)"
    and key: "key = op_key op"
    and at: "if n = 0 then so_get (sql_store db) (others s) key = None
        else \<exists>v. so_get (sql_store db) (others s) key = Some (v, n)"
    using eff by blast+
  show ?thesis
  proof (cases "n = 0")
    case True
    then show ?thesis using allowed at by (simp add: change_allowed_def)
  next
    case False
    then obtain v v' where rows: "so_get (sql_store db) (others s) key = Some (v', n)" "so_get (sql_store db) s key = Some (v, n)"
      using at assms(3) key by auto
    have "register_view (sy_table sys) key = register_view (cs_table s) key"
      using register_run_same_revision [OF run_replies_linear [OF assms(4), unfolded replies_linear_def], of key] rows
      by (auto simp: assms(5) canvas_kv_get_register split: prod.splits option.splits)
    then show ?thesis using allowed rows by (auto simp: assms(5) canvas_kv_get_register split: prod.splits option.splits)
  qed
qed

definition ann_row :: "string \<times> kv_row" where
  "ann_row = (''app/n'', \<lparr>kr_value = envelope (JStr ''hers'') (principal_by (User_principal ''dev'' ''ann'' False None)) ''t'',
                kr_rev = 1, kr_deleted = False\<rparr>)"

definition ann_writes :: "canvas_state \<Rightarrow> canvas_state" where
  "ann_writes s = s\<lparr>cs_table := [ann_row]\<rparr>"

text \<open>bob's unguarded put or delete of a key that ann writes between the author check and the write: it replaces her row, at a key the
  app does not share. With her row already there when bob's op starts, the same op is refused.\<close>

theorem stale_author_check_replaces_anothers_row:
  "(case write_canvas_kv (sql_store tiny_db) (JNum 1) bob [(raw_put ''app/n'' (JStr ''his''), ''now'', ann_writes)]
          (shared_canvas []) of
      (Inr (results, viewer), s') \<Rightarrow>
        map kx_ok results = [True] \<and> \<not> shares_key viewer ''app/n'' \<and>
        so_get (sql_store tiny_db) (ann_writes (shared_canvas [])) ''app/n'' = Some (kr_value (snd ann_row), 1) \<and>
        map_option row_author (so_get (sql_store tiny_db) s' ''app/n'') = Some ''dev/bob''
    | (Inl e, s') \<Rightarrow> False) \<and>
   (case write_canvas_kv (sql_store tiny_db) (JNum 1) bob [(raw_put ''app/n'' (JStr ''his''), ''now'', \<lambda>s. s)]
          (shared_canvas [ann_row]) of
      (Inr (results, viewer), s') \<Rightarrow>
        map kx_code results = [Some Forbidden] \<and> so_get (sql_store tiny_db) s' ''app/n'' = Some (kr_value (snd ann_row), 1)
    | (Inl e, s') \<Rightarrow> False)"
  by (simp add: canvas_eval store_eval ann_row_def ann_writes_def row_author_def)

definition after_race :: kv_table where
  "after_race = [(''a'', \<lparr>kr_value = JStr ''z'', kr_rev = 2, kr_deleted = False\<rparr>)]"

definition bob_viewer :: kv_viewer where
  "bob_viewer = resolve_viewer bob (cs_access (shared_canvas []) ([], [])) (cs_settings (shared_canvas []))"

definition bob_claim :: jsval where
  "bob_claim = JObj [(''op'', JStr ''put''), (''key'', JStr ''n''), (''value'', JStr ''his''), (''ifMatch'', JNum 0)]"

theorem guarded_writes_stay_in_their_rows_witness:
  "\<exists>result s'. write_op (sql_store tiny_db) bob_viewer ''now'' (\<lambda>s. s\<lparr>cs_table := after_race\<rparr>) bob_claim (shared_canvas []) =
       (result, s') \<and> kx_ok result \<and>
     change_allowed bob_viewer ''n'' None (so_get (sql_store tiny_db) s' ''n'')"
proof -
  let ?others = "\<lambda>s. s\<lparr>cs_table := after_race\<rparr>"
  let ?op = "\<lparr>op_delete = False, op_key = ''n'', op_value = JStr ''his''\<rparr>"
  have "\<exists>sys. kv_run tiny_limits tiny_db racing_claims (idle_at (cs_table (shared_canvas []))) = Some sys \<and>
       sy_table sys = after_race"
    by (simp add: store_eval after_race_def shared_canvas_def)
  then obtain sys where run: "kv_run tiny_limits tiny_db racing_claims (idle_at (cs_table (shared_canvas []))) = Some sys"
    and table: "sy_table sys = after_race" by blast
  have "\<exists>result s'. write_op (sql_store tiny_db) bob_viewer ''now'' ?others bob_claim (shared_canvas []) = (result, s') \<and>
       kx_ok result \<and> so_get (sql_store tiny_db) s' ''n'' \<noteq> None"
    by (simp add: canvas_eval store_eval after_race_def bob_viewer_def bob_claim_def)
  then obtain result s' where w: "write_op (sql_store tiny_db) bob_viewer ''now'' ?others bob_claim (shared_canvas []) =
       (result, s')" and ok: "kx_ok result" and new: "so_get (sql_store tiny_db) s' ''n'' \<noteq> None"
    by (elim exE conjE) (rule that)
  have parse: "parse_op bob_claim = Inr (?op, Some 0)" by (simp add: canvas_eval bob_claim_def)
  have old: "so_get (sql_store tiny_db) (?others (shared_canvas [])) ''n'' = None"
    by (simp add: after_race_def canvas_kv_get_def)
  have at: "?others (shared_canvas []) = (shared_canvas [])\<lparr>cs_table := sy_table sys\<rparr>" by (simp add: table)
  have differ: "so_get (sql_store tiny_db) s' ''n'' \<noteq> so_get (sql_store tiny_db) (?others (shared_canvas [])) ''n''"
    unfolding old by (rule new)
  have "change_allowed bob_viewer ''n'' (so_get (sql_store tiny_db) (?others (shared_canvas [])) ''n'')
      (so_get (sql_store tiny_db) s' ''n'')"
    by (rule guarded_writes_stay_in_their_rows [OF w parse _ run at differ]) simp
  with w ok show ?thesis unfolding old by (intro exI conjI)
qed

end
