(* ===== verification/ImportPolicy.thy ===== *)
theory ImportPolicy
  imports JsNumber "HOL-Library.Word" "HOL-Library.Sublist"
begin

text \<open>
  The import policy of agent packages (\<open>agent-package-import-policy.ts\<close>), its allowlist, address and path checks,
  and the guarded fetch that asks it again on every hop (\<open>agent-package-import-fetch.ts\<close>).

  The platform's URL parser, its resolver and its \<open>fetch\<close> are arguments: the parser as a function from a text to the parsed
  URL, the others as what they answer at each hop. A text here is its UTF-8 encoding, so that percent-decoding, which
  yields characters beyond Latin-1, stays in the model's strings: the code looks at ASCII characters only, which
  occur in the encoding of no other character. The texts of refusals are the constructors of a datatype.
\<close>

section \<open>Percent-decoding\<close>

definition hex_digit :: "char \<Rightarrow> bool" where
  "hex_digit c \<longleftrightarrow> radix_digit c < 16"

text \<open>The byte of a \<open>%XX\<close> at the head, with the rest.\<close>

fun take_escape :: "string \<Rightarrow> (nat \<times> string) option" where
  "take_escape (p # a # b # r) =
     (if p = CHR ''%'' \<and> hex_digit a \<and> hex_digit b then Some (16 * radix_digit a + radix_digit b, r) else None)"
| "take_escape s = None"

text \<open>How many continuation bytes follow a leading byte, and the bounds of the first of them.\<close>

definition utf8_lead :: "nat \<Rightarrow> (nat \<times> nat \<times> nat) option" where
  "utf8_lead b =
     (if b < 0x80 then Some (0, 0x80, 0xBF)
      else if 0xC2 \<le> b \<and> b \<le> 0xDF then Some (1, 0x80, 0xBF)
      else if b = 0xE0 then Some (2, 0xA0, 0xBF)
      else if b = 0xED then Some (2, 0x80, 0x9F)
      else if 0xE1 \<le> b \<and> b \<le> 0xEF then Some (2, 0x80, 0xBF)
      else if b = 0xF0 then Some (3, 0x90, 0xBF)
      else if 0xF1 \<le> b \<and> b \<le> 0xF3 then Some (3, 0x80, 0xBF)
      else if b = 0xF4 then Some (3, 0x80, 0x8F)
      else None)"

fun take_continuation :: "nat \<Rightarrow> nat \<Rightarrow> nat \<Rightarrow> string \<Rightarrow> (string \<times> string) option" where
  "take_continuation 0 lo hi s = Some ([], s)"
| "take_continuation (Suc n) lo hi s =
     (case take_escape s of
        None \<Rightarrow> None
      | Some (b, r) \<Rightarrow>
          if lo \<le> b \<and> b \<le> hi
          then map_option (\<lambda>(bs, r'). (char_of b # bs, r')) (take_continuation n 0x80 0xBF r)
          else None)"

lemma take_escape_shorter: "take_escape s = Some (b, r) \<Longrightarrow> length r < length s"
  by (induction s rule: take_escape.induct) (auto split: if_splits)

lemma take_continuation_shorter: "take_continuation n lo hi s = Some (bs, r) \<Longrightarrow> length r \<le> length s"
proof (induction n arbitrary: lo hi s bs)
  case (Suc n)
  then obtain b r1 bs' where e: "take_escape s = Some (b, r1)" "take_continuation n 0x80 0xBF r1 = Some (bs', r)"
    by (auto split: option.splits prod.splits if_splits)
  show ?case using Suc.IH [OF e(2)] take_escape_shorter [OF e(1)] by simp
qed simp

text \<open>\<open>decodeURIComponent\<close>; none is its URIError.\<close>

function decode_uri :: "string \<Rightarrow> string option" where
  "decode_uri [] = Some []"
| "decode_uri (c # s) =
     (if c \<noteq> CHR ''%'' then map_option (\<lambda>t. c # t) (decode_uri s)
      else case take_escape (c # s) of
        None \<Rightarrow> None
      | Some (b, r) \<Rightarrow>
          (case utf8_lead b of
             None \<Rightarrow> None
           | Some (n, lo, hi) \<Rightarrow>
               (case take_continuation n lo hi r of
                  None \<Rightarrow> None
                | Some (bs, r') \<Rightarrow> map_option (\<lambda>t. char_of b # bs @ t) (decode_uri r'))))"
  by pat_completeness auto
termination
  by (relation "measure length") (auto dest!: take_escape_shorter take_continuation_shorter)

section \<open>Paths\<close>

fun decode_passes :: "nat \<Rightarrow> string \<Rightarrow> string" where
  "decode_passes 0 s = s"
| "decode_passes (Suc n) s =
     (case decode_uri s of
        None \<Rightarrow> s
      | Some t \<Rightarrow> if t = s then s else decode_passes n t)"

definition fold_backslash :: "string \<Rightarrow> string" where
  "fold_backslash s = map (\<lambda>c. if c = CHR 0x5C then CHR ''/'' else c) s"

fun walk_segments :: "string list \<Rightarrow> string list \<Rightarrow> string list" where
  "walk_segments out [] = out"
| "walk_segments out (seg # segs) =
     (if seg = [] \<or> seg = ''.'' then walk_segments out segs
      else if seg = ''..'' then walk_segments (butlast out) segs
      else walk_segments (out @ [seg]) segs)"

definition decoded_path :: "string \<Rightarrow> string" where
  "decoded_path raw = fold_backslash (decode_passes 3 (if raw = [] then ''/'' else raw))"

definition path_segments :: "string \<Rightarrow> string list" where
  "path_segments raw = walk_segments [] (split_on (CHR ''/'') (decoded_path raw))"

definition normalize_path :: "string \<Rightarrow> string" where
  "normalize_path raw =
     (let out = path_segments raw
      in ''/'' @ join ''/'' out @ (if ends_with ''/'' (decoded_path raw) \<and> out \<noteq> [] then ''/'' else []))"

definition path_prefix_matches :: "string \<Rightarrow> string \<Rightarrow> bool" where
  "path_prefix_matches request pre =
     (let p = (if ends_with ''/'' pre then butlast pre else pre)
      in p = [] \<or> p = ''/'' \<or> request = p \<or> starts_with (p @ ''/'') request)"

definition normalize_host :: "string \<Rightarrow> string" where
  "normalize_host host = (let h = to_lower host in if ends_with ''.'' h then butlast h else h)"

section \<open>The allowlist\<close>

record url =
  u_protocol :: string
  u_username :: string
  u_password :: string
  u_hostname :: string
  u_port :: string
  u_pathname :: string
  u_href :: string

record allow_entry =
  ae_host :: string
  ae_port :: "string option"
  ae_path_prefix :: string
  ae_raw :: string

definition base_allowlist :: "string list" where
  "base_allowlist =
     [''https://github.com/affandar/pilotswarm/'',
      ''https://raw.githubusercontent.com/affandar/pilotswarm/'',
      ''https://codeload.github.com/affandar/pilotswarm/'']"

definition parse_allow_entry :: "(string \<Rightarrow> url option) \<Rightarrow> jsval \<Rightarrow> allow_entry option" where
  "parse_allow_entry parse raw =
     (case raw of
        JStr s \<Rightarrow>
          if trim s = [] then None
          else (case parse (trim s) of
            None \<Rightarrow> None
          | Some u \<Rightarrow>
              if u_protocol u \<noteq> ''https:'' then None
              else if u_username u \<noteq> [] \<or> u_password u \<noteq> [] then None
              else let host = normalize_host (u_hostname u)
                   in if host = [] then None
                      else Some \<lparr>ae_host = host, ae_port = (if u_port u = [] then None else Some (u_port u)),
                                 ae_path_prefix = normalize_path (u_pathname u), ae_raw = trim s\<rparr>)
      | _ \<Rightarrow> None)"

datatype policy_error = Bad_json | Bad_mode jsval | Bad_list | Bad_entry jsval

record import_policy =
  ip_entries :: "allow_entry list"
  ip_replace :: bool
  ip_config_path :: "string option"

text \<open>The configuration file: none when there is no path or no file, else its parsed text, none when it is not JSON.\<close>

fun collect_entries :: "(string \<Rightarrow> url option) \<Rightarrow> jsval list \<Rightarrow> policy_error + allow_entry list" where
  "collect_entries parse [] = Inr []"
| "collect_entries parse (raw # raws) =
     (case parse_allow_entry parse raw of
        None \<Rightarrow> Inl (Bad_entry raw)
      | Some e \<Rightarrow> map_sum id (\<lambda>es. e # es) (collect_entries parse raws))"

definition load_import_policy ::
  "(string \<Rightarrow> url option) \<Rightarrow> (string \<times> jsval option) option \<Rightarrow> policy_error + import_policy" where
  "load_import_policy parse config =
     (let base = List.map_filter (\<lambda>s. parse_allow_entry parse (JStr s)) base_allowlist
      in case config of
           None \<Rightarrow> Inr \<lparr>ip_entries = base, ip_replace = False, ip_config_path = None\<rparr>
         | Some (path, None) \<Rightarrow> Inl Bad_json
         | Some (path, Some parsed) \<Rightarrow>
             let cfg = jget ''import'' parsed;
                 mode = (if is_nullish (jget ''mode'' cfg) then JStr ''append'' else jget ''mode'' cfg);
                 raw_list = jget ''allowlist'' cfg
             in if mode \<noteq> JStr ''append'' \<and> mode \<noteq> JStr ''replace'' then Inl (Bad_mode mode)
                else (case (if is_nullish raw_list then Some [] else case raw_list of JArr xs \<Rightarrow> Some xs | _ \<Rightarrow> None) of
                        None \<Rightarrow> Inl Bad_list
                      | Some raws \<Rightarrow>
                          map_sum id (\<lambda>configured.
                            \<lparr>ip_entries = (if mode = JStr ''replace'' then configured else base @ configured),
                             ip_replace = (mode = JStr ''replace''), ip_config_path = Some path\<rparr>)
                            (collect_entries parse raws)))"

section \<open>Addresses and hosts\<close>

definition all_digits :: "string \<Rightarrow> bool" where
  "all_digits s \<longleftrightarrow> s \<noteq> [] \<and> list_all is_digit s"

definition hex_literal :: "string \<Rightarrow> bool" where
  "hex_literal s \<longleftrightarrow> starts_with ''0x'' s \<and> drop 2 s \<noteq> [] \<and> list_all hex_digit (drop 2 s)"

text \<open>\<open>[a, b]\<close> of a dotted quad, each an integer octet by \<open>Number\<close>.\<close>

definition blocked_octets :: "int \<Rightarrow> int \<Rightarrow> bool" where
  "blocked_octets a b \<longleftrightarrow>
     a = 0 \<or> a = 10 \<or> a = 127 \<or> a = 169 \<and> b = 254 \<or> a = 172 \<and> 16 \<le> b \<and> b \<le> 31 \<or> a = 192 \<and> b = 168 \<or>
     a = 100 \<and> 64 \<le> b \<and> b \<le> 127 \<or> a = 192 \<and> b = 0 \<or> 224 \<le> a"

definition blocked_v4 :: "string \<Rightarrow> bool" where
  "blocked_v4 addr =
     (let nums = map (\<lambda>part. js_integer (js_number (JStr part))) (split_on (CHR ''.'') addr)
      in if length nums \<noteq> 4 then True
         else if list_ex (\<lambda>n. case n of None \<Rightarrow> True | Some i \<Rightarrow> i < 0 \<or> 255 < i) nums then True
         else blocked_octets (the (nums ! 0)) (the (nums ! 1)))"

text \<open>\<open>/^f[cd][0-9a-f]{2}:/\<close> and \<open>/^fe[89ab][0-9a-f]:/\<close>, on a lower-cased text.\<close>

definition unique_local :: "string \<Rightarrow> bool" where
  "unique_local s \<longleftrightarrow>
     (case s of f # x # a # b # c # r \<Rightarrow>
        f = CHR ''f'' \<and> (x = CHR ''c'' \<or> x = CHR ''d'') \<and> hex_digit a \<and> hex_digit b \<and> c = CHR '':''
      | _ \<Rightarrow> False)"

definition link_local :: "string \<Rightarrow> bool" where
  "link_local s \<longleftrightarrow>
     (case s of f # e # a # b # c # r \<Rightarrow>
        f = CHR ''f'' \<and> e = CHR ''e'' \<and> a \<in> {CHR ''8'', CHR ''9'', CHR ''a'', CHR ''b''} \<and> hex_digit b \<and> c = CHR '':''
      | _ \<Rightarrow> False)"

definition mapped_v4 :: "string \<Rightarrow> string option" where
  "mapped_v4 s =
     (let r = drop 7 s
      in if starts_with ''::ffff:'' s \<and> length (split_on (CHR ''.'') r) = 4 \<and> list_all all_digits (split_on (CHR ''.'') r)
         then Some r else None)"

definition strip_brackets :: "string \<Rightarrow> string" where
  "strip_brackets s =
     (let t = (if starts_with ''['' s then tl s else s) in if ends_with '']'' t then butlast t else t)"

definition is_blocked_address :: "string \<Rightarrow> bool" where
  "is_blocked_address address =
     (let addr = to_lower (trim address)
      in if addr = [] then True
         else if CHR '':'' \<in> set addr then
           (let bare = strip_brackets addr
            in if bare = ''::1'' \<or> bare = ''::'' then True
               else if unique_local bare then True
               else if link_local bare then True
               else case mapped_v4 bare of Some v4 \<Rightarrow> blocked_v4 v4 | None \<Rightarrow> False)
         else blocked_v4 addr)"

definition is_suspicious_host :: "string \<Rightarrow> bool" where
  "is_suspicious_host host =
     (let h = normalize_host host; parts = split_on (CHR ''.'') h
      in if h = [] then True
         else if all_digits h then True
         else if hex_literal h then True
         else if starts_with ''0'' h \<and> all_digits (tl h) then True
         else if 1 < length parts \<and> length parts < 4 \<and> list_all all_digits parts then True
         else length parts = 4 \<and> list_all (\<lambda>p. hex_literal p \<or> all_digits p) parts \<and>
              list_ex (\<lambda>p. starts_with ''0x'' p \<or> starts_with ''0'' p \<and> tl p \<noteq> [] \<and> is_digit (hd (tl p))) parts)"

section \<open>The decision\<close>

datatype refusal_reason = No_url | Not_a_url | Not_https string | Has_credentials | Numeric_host string | Off_the_list

datatype url_decision = Allowed string | Refused refusal_reason "string option"

definition entry_permits :: "url \<Rightarrow> allow_entry \<Rightarrow> bool" where
  "entry_permits u e \<longleftrightarrow>
     ae_host e = normalize_host (u_hostname u) \<and> coalesce (ae_port e) [] = u_port u \<and>
     path_prefix_matches (normalize_path (u_pathname u)) (ae_path_prefix e)"

text \<open>\<open>redacted\<close> is the URL without its credentials.\<close>

definition check_import_url ::
  "(string \<Rightarrow> url option) \<Rightarrow> (url \<Rightarrow> string) \<Rightarrow> string \<Rightarrow> import_policy \<Rightarrow> url_decision" where
  "check_import_url parse redacted raw policy =
     (if trim raw = [] then Refused No_url None
      else case parse (trim raw) of
        None \<Rightarrow> Refused Not_a_url None
      | Some u \<Rightarrow>
          if u_protocol u \<noteq> ''https:'' then Refused (Not_https (u_protocol u)) (Some (u_href u))
          else if u_username u \<noteq> [] \<or> u_password u \<noteq> [] then Refused Has_credentials (Some (redacted u))
          else if is_suspicious_host (normalize_host (u_hostname u))
            then Refused (Numeric_host (normalize_host (u_hostname u))) (Some (u_href u))
          else if list_ex (entry_permits u) (ip_entries policy) then Allowed (u_href u)
          else Refused Off_the_list (Some (u_href u)))"

section \<open>The guarded fetch\<close>

record import_limits =
  il_max_bytes :: nat
  il_max_redirects :: nat

definition import_fetch_limits :: import_limits where
  "import_fetch_limits = \<lparr>il_max_bytes = 2 * 1024 * 1024, il_max_redirects = 3\<rparr>"

record response =
  rs_status :: int
  rs_location :: "string option"
  rs_content_length :: "string option"
  rs_chunks :: "nat list list"

text \<open>What the resolver and \<open>fetch\<close> answer at one hop; none is a rejected promise.\<close>

record hop_world =
  hw_lookup :: "string \<Rightarrow> string list option"
  hw_fetch :: "string \<Rightarrow> response option"

text \<open>The platform's URL parser: of an absolute URL, without credentials, and of a reference against a base (its \<open>href\<close>).\<close>

record platform =
  pf_parse :: "string \<Rightarrow> url option"
  pf_redacted :: "url \<Rightarrow> string"
  pf_resolve :: "string \<Rightarrow> string \<Rightarrow> string option"

datatype fetch_refusal =
    Url_refused nat refusal_reason
  | Lookup_failed string
  | No_addresses string
  | Not_public string string
  | No_location int
  | Http_status int
  | Declared_too_large
  | Body_too_large
  | Too_many_redirects

datatype fetch_end =
    Fetched "nat list" string "string list"
  | Import_refused fetch_refusal "string option"
  | Other_error

definition assert_resolves_publicly :: "(string \<Rightarrow> string list option) \<Rightarrow> string \<Rightarrow> fetch_refusal + string list" where
  "assert_resolves_publicly lookup hostname =
     (case lookup hostname of
        None \<Rightarrow> Inl (Lookup_failed hostname)
      | Some addresses \<Rightarrow>
          if addresses = [] then Inl (No_addresses hostname)
          else case find is_blocked_address addresses of
            Some a \<Rightarrow> Inl (Not_public hostname a)
          | None \<Rightarrow> Inr addresses)"

fun read_capped :: "nat \<Rightarrow> nat list \<Rightarrow> nat list list \<Rightarrow> nat list option" where
  "read_capped max_bytes got [] = Some got"
| "read_capped max_bytes got (chunk # chunks) =
     (if max_bytes < length got + length chunk then None else read_capped max_bytes (got @ chunk) chunks)"

definition declared_over :: "nat \<Rightarrow> string option \<Rightarrow> bool" where
  "declared_over max_bytes header =
     (case js_number (JStr (coalesce header [])) of JNum q \<Rightarrow> of_nat max_bytes < q | _ \<Rightarrow> False)"

text \<open>
  The loop from hop \<open>hop\<close> with \<open>n\<close> rounds left; \<open>hops\<close> are the URLs handed to \<open>fetch\<close> so far, returned beside the result
  whatever that is.
\<close>

fun import_hops ::
  "platform \<Rightarrow> import_policy \<Rightarrow> import_limits \<Rightarrow> (nat \<Rightarrow> hop_world) \<Rightarrow> nat \<Rightarrow> nat \<Rightarrow> string \<Rightarrow> string list \<Rightarrow>
   fetch_end \<times> string list" where
  "import_hops pf policy lims world 0 hop current hops =
     (Import_refused Too_many_redirects (if hops = [] then None else Some (last hops)), hops)"
| "import_hops pf policy lims world (Suc n) hop current hops =
     (case check_import_url (pf_parse pf) (pf_redacted pf) current policy of
        Refused reason at_url \<Rightarrow> (Import_refused (Url_refused hop reason) at_url, hops)
      | Allowed href \<Rightarrow>
          (case pf_parse pf href of
             None \<Rightarrow> (Other_error, hops)
           | Some u \<Rightarrow>
               (case assert_resolves_publicly (hw_lookup (world hop)) (u_hostname u) of
                  Inl refusal \<Rightarrow> (Import_refused refusal None, hops)
                | Inr addresses \<Rightarrow>
                    let hops' = hops @ [u_href u]
                    in case hw_fetch (world hop) (u_href u) of
                         None \<Rightarrow> (Other_error, hops')
                       | Some r \<Rightarrow>
                           if 300 \<le> rs_status r \<and> rs_status r < 400 then
                             (if \<not> truthy_str (rs_location r)
                              then (Import_refused (No_location (rs_status r)) (Some (u_href u)), hops')
                              else case pf_resolve pf (the (rs_location r)) (u_href u) of
                                None \<Rightarrow> (Other_error, hops')
                              | Some target \<Rightarrow> import_hops pf policy lims world n (hop + 1) target hops')
                           else if \<not> (200 \<le> rs_status r \<and> rs_status r < 300)
                             then (Import_refused (Http_status (rs_status r)) (Some (u_href u)), hops')
                           else if declared_over (il_max_bytes lims) (rs_content_length r)
                             then (Import_refused Declared_too_large (Some (u_href u)), hops')
                           else case read_capped (il_max_bytes lims) [] (rs_chunks r) of
                             None \<Rightarrow> (Import_refused Body_too_large (Some (u_href u)), hops')
                           | Some bytes \<Rightarrow> (Fetched bytes (u_href u) hops', hops'))))"

definition guarded_import_fetch ::
  "platform \<Rightarrow> import_policy \<Rightarrow> import_limits \<Rightarrow> (nat \<Rightarrow> hop_world) \<Rightarrow> string \<Rightarrow> fetch_end \<times> string list" where
  "guarded_import_fetch pf policy lims world raw =
     import_hops pf policy lims world (il_max_redirects lims + 1) 0 raw []"

section \<open>Every hop is permitted\<close>

text \<open>
  A URL handed to \<open>fetch\<close>: it is the serialization of a parsed https URL without credentials, whose host and port are an
  entry's and whose path the entry's prefix covers, and all the addresses its host resolved to at that hop are public.
\<close>

definition hop_permitted :: "platform \<Rightarrow> import_policy \<Rightarrow> hop_world \<Rightarrow> string \<Rightarrow> bool" where
  "hop_permitted pf policy w href \<longleftrightarrow>
     (\<exists>u e addresses.
        pf_parse pf href = Some u \<and> u_href u = href \<and> u_protocol u = ''https:'' \<and> u_username u = [] \<and> u_password u = [] \<and>
        \<not> is_suspicious_host (normalize_host (u_hostname u)) \<and> e \<in> set (ip_entries policy) \<and>
        ae_host e = normalize_host (u_hostname u) \<and> coalesce (ae_port e) [] = u_port u \<and>
        path_prefix_matches (normalize_path (u_pathname u)) (ae_path_prefix e) \<and>
        hw_lookup w (u_hostname u) = Some addresses \<and> addresses \<noteq> [] \<and> (\<forall>a \<in> set addresses. \<not> is_blocked_address a))"

lemma resolves_publicly:
  "assert_resolves_publicly lookup hostname = Inr addresses \<Longrightarrow>
   lookup hostname = Some addresses \<and> addresses \<noteq> [] \<and> (\<forall>a \<in> set addresses. \<not> is_blocked_address a)"
  by (auto simp: assert_resolves_publicly_def find_None_iff split: option.splits if_splits)

lemma check_allowed:
  "check_import_url parse redacted raw policy = Allowed href \<Longrightarrow>
   \<exists>u e. parse (trim raw) = Some u \<and> u_href u = href \<and> u_protocol u = ''https:'' \<and> u_username u = [] \<and> u_password u = [] \<and>
     \<not> is_suspicious_host (normalize_host (u_hostname u)) \<and> e \<in> set (ip_entries policy) \<and> entry_permits u e"
  by (auto simp: check_import_url_def list_ex_iff split: option.splits if_splits)

lemma read_capped_bound: "length got \<le> m \<Longrightarrow> read_capped m got chunks = Some bytes \<Longrightarrow> length bytes \<le> m"
  by (induction m got chunks rule: read_capped.induct) (auto split: if_splits)

lemma import_hops_permitted:
  assumes parser: "\<And>s u. pf_parse pf s = Some u \<Longrightarrow> pf_parse pf (u_href u) = Some u"
    and run: "import_hops pf policy lims world n (length hops) current hops = (result, contacted)"
    and before: "\<forall>i < length hops. hop_permitted pf policy (world i) (hops ! i)"
  shows "length contacted \<le> length hops + n \<and> (\<forall>i < length contacted. hop_permitted pf policy (world i) (contacted ! i)) \<and>
    (\<forall>bytes final visited. result = Fetched bytes final visited \<longrightarrow>
       length bytes \<le> il_max_bytes lims \<and> visited = contacted \<and> contacted \<noteq> [] \<and> final = last contacted)"
  using run before
proof (induction n arbitrary: current hops)
  case (Suc n)
  show ?case
  proof (cases "check_import_url (pf_parse pf) (pf_redacted pf) current policy")
    case (Refused reason at_url)
    then show ?thesis using Suc.prems by auto
  next
    case (Allowed href)
    then obtain u e where u: "pf_parse pf (trim current) = Some u" "u_href u = href" "u_protocol u = ''https:''"
      "u_username u = []" "u_password u = []" "\<not> is_suspicious_host (normalize_host (u_hostname u))"
      "e \<in> set (ip_entries policy)" "entry_permits u e"
      using check_allowed by blast
    then have again: "pf_parse pf href = Some u" using parser by blast
    show ?thesis
    proof (cases "assert_resolves_publicly (hw_lookup (world (length hops))) (u_hostname u)")
      case (Inl refusal)
      then show ?thesis using Suc.prems Allowed again by auto
    next
      case (Inr addresses)
      have "hop_permitted pf policy (world (length hops)) href"
        unfolding hop_permitted_def
        using u again resolves_publicly [OF Inr] by (auto simp: entry_permits_def)
      then have hops': "\<forall>i < length (hops @ [href]). hop_permitted pf policy (world i) ((hops @ [href]) ! i)"
        using Suc.prems(2) by (auto simp: nth_append less_Suc_eq)
      show ?thesis
      proof (cases "\<exists>target. import_hops pf policy lims world n (length (hops @ [href])) target (hops @ [href]) = (result, contacted)")
        case True
        then obtain target where "import_hops pf policy lims world n (length (hops @ [href])) target (hops @ [href]) = (result, contacted)" ..
        from Suc.IH [OF this hops'] show ?thesis by auto
      next
        case False
        then have "contacted = hops @ [href] \<and> (\<forall>bytes final visited. result = Fetched bytes final visited \<longrightarrow>
            length bytes \<le> il_max_bytes lims \<and> visited = contacted \<and> final = href)"
          using Suc.prems(1) Allowed again u(2) Inr
          by (auto simp: Let_def split: option.splits if_splits dest!: read_capped_bound [rotated])
        then show ?thesis using hops' by auto
      qed
    qed
  qed
qed auto

text \<open>
  C13. Whatever the servers and the resolver answer: at most one more URL than the redirects allowed is ever handed to
  \<open>fetch\<close>, each of them is permitted by the policy and resolved publicly at its hop, and a package that is returned is within the
  cap and came from the last of them. The parser reads a URL's own serialization back as that URL.
\<close>

theorem every_hop_is_permitted:
  assumes "\<And>s u. pf_parse pf s = Some u \<Longrightarrow> pf_parse pf (u_href u) = Some u"
    "guarded_import_fetch pf policy lims world raw = (result, contacted)"
  shows "length contacted \<le> il_max_redirects lims + 1 \<and>
    (\<forall>i < length contacted. hop_permitted pf policy (world i) (contacted ! i)) \<and>
    (\<forall>bytes final visited. result = Fetched bytes final visited \<longrightarrow>
       length bytes \<le> il_max_bytes lims \<and> visited = contacted \<and> contacted \<noteq> [] \<and> final = last contacted)"
  using import_hops_permitted [OF assms(1), where hops = "[]" and n = "il_max_redirects lims + 1"] assms(2)
  by (simp add: guarded_import_fetch_def)

section \<open>Prefixes on segment boundaries\<close>

text \<open>The text of a list of segments, each behind its slash.\<close>

definition render :: "string list \<Rightarrow> string" where
  "render segs = concat (map (\<lambda>s. CHR ''/'' # s) segs)"

definition plain_segment :: "string \<Rightarrow> bool" where
  "plain_segment s \<longleftrightarrow> s \<noteq> [] \<and> s \<noteq> ''.'' \<and> s \<noteq> ''..'' \<and> CHR ''/'' \<notin> set s"

lemma walk_segments_plain:
  "\<forall>s \<in> set out. plain_segment s \<Longrightarrow> \<forall>s \<in> set segs. CHR ''/'' \<notin> set s \<Longrightarrow> \<forall>s \<in> set (walk_segments out segs). plain_segment s"
proof (induction out segs rule: walk_segments.induct)
  case (2 out seg segs)
  have "\<forall>s \<in> set (butlast out). plain_segment s" using "2.prems"(1) by (meson in_set_butlastD)
  note butlast = this
  consider "seg = [] \<or> seg = ''.''" | "\<not> (seg = [] \<or> seg = ''.'')" "seg = ''..''" | "\<not> (seg = [] \<or> seg = ''.'')" "seg \<noteq> ''..''"
    by blast
  then show ?case
  proof cases
    case 1
    then show ?thesis using "2.IH"(1) "2.prems" by simp
  next
    case 2
    then show ?thesis using "2.IH"(2) "2.prems" butlast by simp
  next
    case 3
    then have "plain_segment seg" using "2.prems"(2) by (simp add: plain_segment_def)
    then have "\<forall>s \<in> set (out @ [seg]). plain_segment s" using "2.prems"(1) by simp
    from "2.IH"(3) [OF 3 this] "2.prems"(2) show ?thesis by (simp only: walk_segments.simps 3 if_False list.set) blast
  qed
qed simp

lemma path_segments_plain: "s \<in> set (path_segments raw) \<Longrightarrow> plain_segment s"
  using walk_segments_plain [of "[]" "split_on (CHR ''/'') (decoded_path raw)"] split_on_no_sep_parts
  by (auto simp: path_segments_def)

lemma render_join: "segs \<noteq> [] \<Longrightarrow> ''/'' @ join ''/'' segs = render segs"
  by (induction segs rule: induct_list012) (auto simp: render_def)

lemma normalize_path_render:
  "path_segments raw \<noteq> [] \<Longrightarrow> \<exists>t \<in> {[], ''/''}. normalize_path raw = render (path_segments raw) @ t"
  using render_join by (auto simp: normalize_path_def Let_def)

lemma normalize_path_root: "path_segments raw = [] \<Longrightarrow> normalize_path raw = ''/''"
  by (simp add: normalize_path_def)

lemma split_at_slash:
  assumes "s @ x = s' @ y" "CHR ''/'' \<notin> set s" "CHR ''/'' \<notin> set s'" "x = [] \<or> hd x = CHR ''/''" "y = [] \<or> hd y = CHR ''/''"
  shows "s = s' \<and> x = y"
proof -
  have cut: "takeWhile (\<lambda>c. c \<noteq> CHR ''/'') (s @ x) = s" if "CHR ''/'' \<notin> set s" "x = [] \<or> hd x = CHR ''/''" for s x :: string
    using that by (induction s) (cases x; auto)+
  have "s = s'" using cut [OF assms(2,4)] cut [OF assms(3,5)] assms(1) by simp
  with assms(1) show ?thesis by simp
qed

lemma hd_render: "render segs @ t = [] \<or> hd (render segs @ t) = CHR ''/''" if "t = [] \<or> hd t = CHR ''/''"
  using that by (cases segs) (auto simp: render_def)

text \<open>One rendered path continues another exactly when its segments do.\<close>

lemma render_prefix:
  assumes "\<forall>s \<in> set as. plain_segment s" "\<forall>s \<in> set bs. plain_segment s" "t = [] \<or> t = ''/''"
  shows "(\<exists>r. (r = [] \<or> hd r = CHR ''/'') \<and> render as @ t = render bs @ r) \<longleftrightarrow> prefix bs as"
  using assms(1,2)
proof (induction bs arbitrary: as)
  case Nil
  show ?case using hd_render [of t as] assms(3) by (auto simp: render_def)
next
  case (Cons b bs)
  show ?case
  proof (cases as)
    case Nil
    have "b \<noteq> []" using Cons.prems(2) by (simp add: plain_segment_def)
    then show ?thesis using assms(3) Nil by (auto simp: render_def)
  next
    case as: (Cons a as')
    have slash: "CHR ''/'' \<notin> set a" "CHR ''/'' \<notin> set b" using Cons.prems as by (simp_all add: plain_segment_def)
    have t: "t = [] \<or> hd t = CHR ''/''" using assms(3) by auto
    have "render as @ t = render (b # bs) @ r \<longleftrightarrow> a = b \<and> render as' @ t = render bs @ r" if "r = [] \<or> hd r = CHR ''/''" for r
    proof
      assume "render as @ t = render (b # bs) @ r"
      then have "a @ (render as' @ t) = b @ (render bs @ r)" by (simp add: as render_def)
      then show "a = b \<and> render as' @ t = render bs @ r"
        by (rule split_at_slash [OF _ slash hd_render [OF t] hd_render [OF that]])
    qed (auto simp: as render_def)
    then have "(\<exists>r. (r = [] \<or> hd r = CHR ''/'') \<and> render as @ t = render (b # bs) @ r) \<longleftrightarrow>
        a = b \<and> (\<exists>r. (r = [] \<or> hd r = CHR ''/'') \<and> render as' @ t = render bs @ r)" by blast
    also have "\<dots> \<longleftrightarrow> prefix (b # bs) as" using Cons.IH [of as'] Cons.prems as by auto
    finally show ?thesis .
  qed
qed

lemma ends_with_slash: "ends_with ''/'' x \<longleftrightarrow> x \<noteq> [] \<and> last x = CHR ''/''"
  by (cases x rule: rev_cases) (auto simp: ends_with_def)

lemma render_no_slash_end: "\<forall>s \<in> set segs. plain_segment s \<Longrightarrow> segs \<noteq> [] \<Longrightarrow> render segs \<noteq> [] \<and> \<not> ends_with ''/'' (render segs) \<and> render segs \<noteq> ''/''"
proof (induction segs rule: rev_induct)
  case (snoc s segs)
  then have s: "s \<noteq> []" "CHR ''/'' \<notin> set s" by (auto simp: plain_segment_def)
  have eq: "render (segs @ [s]) = render segs @ CHR ''/'' # s" by (simp add: render_def)
  have "last (render (segs @ [s])) \<noteq> CHR ''/''" using s eq by (metis last_ConsR last_appendR last_in_set list.distinct(1))
  moreover have "render (segs @ [s]) \<noteq> []" by (simp add: eq)
  ultimately show ?case unfolding ends_with_slash by (metis last.simps)
qed simp

lemma segment_prefix:
  "path_prefix_matches (normalize_path request) (normalize_path entry) \<longleftrightarrow> prefix (path_segments entry) (path_segments request)"
proof (cases "path_segments entry = []")
  case True
  then show ?thesis by (simp add: normalize_path_root path_prefix_matches_def ends_with_def Let_def)
next
  case False
  let ?p = "render (path_segments entry)"
  have plain: "\<forall>s \<in> set (path_segments raw). plain_segment s" for raw using path_segments_plain by blast
  note p = render_no_slash_end [OF plain False]
  have cut: "(if ends_with ''/'' (normalize_path entry) then butlast (normalize_path entry) else normalize_path entry) = ?p"
    using normalize_path_render [OF False] p by (auto simp: ends_with_slash butlast_append)
  obtain t where t: "t = [] \<or> t = ''/''" and req: "normalize_path request = render (path_segments request) @ t"
  proof (cases "path_segments request = []")
    case True
    then show ?thesis using that [of "''/''"] by (simp add: normalize_path_root render_def)
  next
    case False
    then show ?thesis using normalize_path_render [OF False] that by blast
  qed
  have "path_prefix_matches (normalize_path request) (normalize_path entry) \<longleftrightarrow>
        (\<exists>r. (r = [] \<or> hd r = CHR ''/'') \<and> normalize_path request = ?p @ r)"
    using p unfolding path_prefix_matches_def Let_def cut
    by (auto simp: starts_with_iff) (metis list.collapse)
  then show ?thesis using render_prefix [OF plain plain t] by (simp add: req)
qed

text \<open>
  C21. On normalized paths the string comparison is the comparison of segments: a request path is inside an entry's prefix
  exactly when the prefix's segments begin the request's, whatever escapes, dots, backslashes and
  trailing slashes either was written with.
\<close>

theorem path_prefix_is_segment_prefix:
  "path_prefix_matches (normalize_path request) (normalize_path entry) \<longleftrightarrow> prefix (path_segments entry) (path_segments request)"
  by (rule segment_prefix)

section \<open>Blocked addresses as ranges\<close>

unbundle bit_operations_syntax

definition dotted :: "nat \<Rightarrow> nat \<Rightarrow> nat \<Rightarrow> nat \<Rightarrow> string" where
  "dotted a b c d = join ''.'' (map show_nat [a, b, c, d])"

definition v4_word :: "nat \<Rightarrow> nat \<Rightarrow> nat \<Rightarrow> nat \<Rightarrow> 32 word" where
  "v4_word a b c d = of_nat (((a * 256 + b) * 256 + c) * 256 + d)"

text \<open>
  The ranges of the code's comments as networks: this network, RFC 1918, loopback, link-local, CGNAT, multicast and
  reserved. The code refuses the whole of \<open>192.0.0.0/16\<close>, of which only the first \<open>/24\<close> is for protocol assignments.
\<close>

definition blocked_networks :: "(32 word \<times> nat) list" where
  "blocked_networks =
     [(v4_word 0 0 0 0, 8), (v4_word 10 0 0 0, 8), (v4_word 127 0 0 0, 8), (v4_word 169 254 0 0, 16),
      (v4_word 172 16 0 0, 12), (v4_word 192 168 0 0, 16), (v4_word 100 64 0 0, 10), (v4_word 192 0 0 0, 16),
      (v4_word 224 0 0 0, 3)]"

definition in_network :: "32 word \<Rightarrow> 32 word \<times> nat \<Rightarrow> bool" where
  "in_network w net = (w AND NOT (mask (32 - snd net)) = fst net)"

lemma and_not_mask_nat: "(w :: 32 word) AND NOT (mask k) = v \<longleftrightarrow> unat w div 2 ^ k * 2 ^ k = unat v"
proof -
  have "w AND NOT (mask k) = push_bit k (drop_bit k w)"
    by (rule bit_word_eqI) (auto simp: bit_simps)
  moreover have "unat (push_bit k (drop_bit k w)) = unat w div 2 ^ k * 2 ^ k"
  proof -
    have "unat w div 2 ^ k * 2 ^ k \<le> unat w" by simp
    also have "\<dots> < 2 ^ 32" using unsigned_less [of w, where ?'a = nat] by simp
    finally have less: "unat w div 2 ^ k * 2 ^ k < 2 ^ LENGTH(32)" by simp
    have "unat (push_bit k (drop_bit k w)) = take_bit LENGTH(32) (push_bit k (unat (drop_bit k w)))"
      by (rule unsigned_push_bit_eq)
    also have "unat (drop_bit k w) = unat w div 2 ^ k"
      unfolding unsigned_drop_bit_eq drop_bit_eq_div [where ?'a = nat]
      using unsigned_less [of w, where ?'a = nat] by (simp add: take_bit_nat_eq_self)
    also have "take_bit LENGTH(32) (push_bit k (unat w div 2 ^ k)) = unat w div 2 ^ k * 2 ^ k"
      unfolding push_bit_eq_mult by (rule take_bit_nat_eq_self [OF less])
    finally show ?thesis .
  qed
  ultimately show ?thesis by (metis word_unat_eq_iff)
qed

lemma unat_v4_word:
  "a < 256 \<Longrightarrow> b < 256 \<Longrightarrow> c < 256 \<Longrightarrow> d < 256 \<Longrightarrow> unat (v4_word a b c d) = ((a * 256 + b) * 256 + c) * 256 + d"
  unfolding v4_word_def unsigned_of_nat by (simp add: take_bit_nat_eq_self)

text \<open>A network of at most 16 bits is decided by the first two octets.\<close>

lemma in_network_half:
  assumes "a < 256" "b < 256" "c < 256" "d < 256" "p < 256" "q < 256" "l \<le> 16"
  shows "in_network (v4_word a b c d) (v4_word p q 0 0, l) \<longleftrightarrow>
         (a * 256 + b) div 2 ^ (16 - l) * 2 ^ (16 - l) = p * 256 + q"
proof -
  let ?h = "a * 256 + b" and ?j = "16 - l"
  have k: "32 - l = 16 + ?j" using assms(7) by simp
  have "(((a * 256 + b) * 256 + c) * 256 + d) div 2 ^ 16 = ?h" using assms by simp
  then have "(((a * 256 + b) * 256 + c) * 256 + d) div 2 ^ (32 - l) = ?h div 2 ^ ?j"
    unfolding k power_add div_mult2_eq by simp
  then have "in_network (v4_word a b c d) (v4_word p q 0 0, l) \<longleftrightarrow> ?h div 2 ^ ?j * 2 ^ (32 - l) = (p * 256 + q) * 2 ^ 16"
    using assms by (simp add: in_network_def and_not_mask_nat unat_v4_word mult.commute)
  also have "\<dots> \<longleftrightarrow> ?h div 2 ^ ?j * 2 ^ ?j * 2 ^ 16 = (p * 256 + q) * 2 ^ 16"
    unfolding k power_add by (simp only: ac_simps)
  also have "\<dots> \<longleftrightarrow> ?h div 2 ^ ?j * 2 ^ ?j = p * 256 + q" by (simp only: mult_cancel2) simp
  finally show ?thesis .
qed

lemma in_network_octets:
  assumes "a < 256" "b < 256" "c < 256" "d < 256"
  shows "list_ex (in_network (v4_word a b c d)) blocked_networks \<longleftrightarrow> blocked_octets (int a) (int b)"
proof -
  note half = in_network_half [OF assms]
  have n8: "(a * 256 + b) div 256 * 256 = p * 256 \<longleftrightarrow> a = p" for p using assms(2) by simp
  have n16: "a * 256 + b = p * 256 + q \<longleftrightarrow> a = p \<and> b = q" if "q < 256" for p q
  proof -
    have "(a * 256 + b) mod 256 = b" "(p * 256 + q) mod 256 = q" using assms(2) that by simp_all
    then show ?thesis by (metis add_right_cancel mult_cancel2 zero_neq_numeral)
  qed
  have cut: "h div k * k = m * k \<longleftrightarrow> m * k \<le> h \<and> h < m * k + k" if "0 < k" for h k m :: nat
  proof -
    have "h div k * k \<le> h" "h < h div k * k + k"
      using dividend_less_div_times [OF that, of h] by (simp_all add: add.commute)
    moreover have "m * k \<le> h \<Longrightarrow> h < m * k + k \<Longrightarrow> h div k = m"
      by (rule div_nat_eqI) (simp_all add: add.commute mult.commute)
    ultimately show ?thesis by auto
  qed
  have octet: "p * 256 + lo \<le> a * 256 + b \<and> a * 256 + b < p * 256 + hi \<longleftrightarrow> a = p \<and> lo \<le> b \<and> b < hi" if "hi \<le> 256" for p lo hi
  proof (cases a p rule: linorder_cases)
    case less
    then have "a * 256 + b < p * 256 + lo" using assms(2) by linarith
    then show ?thesis using less by linarith
  next
    case greater
    then have "p * 256 + hi \<le> a * 256 + b" using that by linarith
    then show ?thesis using greater by linarith
  qed simp
  have n12: "(a * 256 + b) div 16 * 16 = 172 * 256 + 16 \<longleftrightarrow> a = 172 \<and> 16 \<le> b \<and> b \<le> 31"
    using cut [of 16 "a * 256 + b" 2753] octet [of 32 172 16] by simp linarith
  have n10: "(a * 256 + b) div 64 * 64 = 100 * 256 + 64 \<longleftrightarrow> a = 100 \<and> 64 \<le> b \<and> b \<le> 127"
    using cut [of 64 "a * 256 + b" 401] octet [of 128 100 64] by simp linarith
  have n3: "(a * 256 + b) div 8192 * 8192 = 224 * 256 \<longleftrightarrow> 224 \<le> a"
    using cut [of 8192 "a * 256 + b" 7] assms(1,2) by auto
  have nets: "in_network (v4_word a b c d) (v4_word 0 0 0 0, 8) \<longleftrightarrow> a = 0"
    "in_network (v4_word a b c d) (v4_word 10 0 0 0, 8) \<longleftrightarrow> a = 10"
    "in_network (v4_word a b c d) (v4_word 127 0 0 0, 8) \<longleftrightarrow> a = 127"
    "in_network (v4_word a b c d) (v4_word 169 254 0 0, 16) \<longleftrightarrow> a = 169 \<and> b = 254"
    "in_network (v4_word a b c d) (v4_word 172 16 0 0, 12) \<longleftrightarrow> a = 172 \<and> 16 \<le> b \<and> b \<le> 31"
    "in_network (v4_word a b c d) (v4_word 192 168 0 0, 16) \<longleftrightarrow> a = 192 \<and> b = 168"
    "in_network (v4_word a b c d) (v4_word 100 64 0 0, 10) \<longleftrightarrow> a = 100 \<and> 64 \<le> b \<and> b \<le> 127"
    "in_network (v4_word a b c d) (v4_word 192 0 0 0, 16) \<longleftrightarrow> a = 192 \<and> b = 0"
    "in_network (v4_word a b c d) (v4_word 224 0 0 0, 3) \<longleftrightarrow> 224 \<le> a"
    using n8 [of 0] n8 [of 10] n8 [of 127] n16 [of 254 169] n12 n16 [of 168 192] n10 n16 [of 0 192] n3 by (simp_all add: half)
  show ?thesis unfolding blocked_networks_def list_ex_iff by (simp add: nets blocked_octets_def)
qed

lemma show_nat_all_digits: "show_nat n \<noteq> [] \<and> list_all is_digit (show_nat n)"
  using show_nat_digits by (auto simp: list_all_iff)

lemma is_digit_other: "is_digit x \<Longrightarrow> x \<notin> {CHR ''.'', CHR '':'', CHR '' ''} \<and> lower_char x = x \<and> \<not> is_ws x"
  by (auto simp: is_digit_def lower_char_def is_ws_def)

lemma split_dotted: "split_on (CHR ''.'') (dotted a b c d) = map show_nat [a, b, c, d]"
  unfolding dotted_def using is_digit_other show_nat_digits by (intro split_on_join) auto

lemma octet_of_show_nat: "js_integer (js_number (JStr (show_nat n))) = Some (int n)"
proof -
  have "\<not> is_ws x" if "x \<in> set (show_nat n)" for x using that is_digit_other show_nat_digits by blast
  then have "trim (show_nat n) = show_nat n" by (simp add: trim_id)
  then show ?thesis using string_number_digits [of "show_nat n"] show_nat_all_digits [of n] by (simp add: digits_val_show_nat)
qed

lemma dotted_chars: "x \<in> set (dotted a b c d) \<Longrightarrow> is_digit x \<or> x = CHR ''.''"
  by (auto simp: dotted_def dest: show_nat_digits)

lemma blocked_v4_dotted:
  assumes "a < 256" "b < 256" "c < 256" "d < 256"
  shows "blocked_v4 (dotted a b c d) = blocked_octets (int a) (int b)"
  unfolding blocked_v4_def split_dotted list.map octet_of_show_nat Let_def using assms by simp

text \<open>
  C22. For every IPv4 address in dotted decimal, the check on its octets is membership of the 32-bit address in the blocked
  networks, prefix by prefix.
\<close>

theorem blocked_addresses_are_the_networks:
  assumes "a < 256" "b < 256" "c < 256" "d < 256"
  shows "is_blocked_address (dotted a b c d) \<longleftrightarrow> list_ex (in_network (v4_word a b c d)) blocked_networks"
proof -
  have dot: "\<not> is_ws (CHR ''.'')" "lower_char (CHR ''.'') = CHR ''.''" by (simp_all add: is_ws_def lower_char_def)
  have plain: "\<not> is_ws x \<and> lower_char x = x \<and> x \<noteq> CHR '':''" if "x \<in> set (dotted a b c d)" for x
    using dotted_chars [OF that] is_digit_other [of x] dot by auto
  have ne: "dotted a b c d \<noteq> []" by (simp add: dotted_def)
  have "trim (dotted a b c d) = dotted a b c d" using plain ne by (simp add: trim_id)
  moreover have "to_lower (dotted a b c d) = dotted a b c d" unfolding to_lower_def by (rule map_idI) (use plain in blast)
  moreover have "CHR '':'' \<notin> set (dotted a b c d)" using plain by blast
  ultimately have "is_blocked_address (dotted a b c d) = blocked_v4 (dotted a b c d)"
    by (simp only: is_blocked_address_def Let_def ne if_False)
  also have "\<dots> = blocked_octets (int a) (int b)"
    by (rule blocked_v4_dotted [OF assms])
  finally show ?thesis using in_network_octets [OF assms] by simp
qed

theorem blocked_addresses_are_the_networks_witness:
  "is_blocked_address (dotted 169 254 169 254) \<and> \<not> is_blocked_address (dotted 140 82 112 3)"
  using blocked_addresses_are_the_networks [of 169 254 169 254] blocked_addresses_are_the_networks [of 140 82 112 3]
    in_network_octets [of 169 254 169 254] in_network_octets [of 140 82 112 3]
  by (simp add: blocked_octets_def)

section \<open>Where the entries come from\<close>

lemma collect_entries_exact: "collect_entries parse raws = Inr es \<Longrightarrow> map (parse_allow_entry parse) raws = map Some es"
proof (induction raws arbitrary: es)
  case (Cons raw raws)
  then obtain e where e: "parse_allow_entry parse raw = Some e" by (cases "parse_allow_entry parse raw") simp_all
  with Cons.prems obtain es' where es: "collect_entries parse raws = Inr es'" "es = e # es'"
    by (cases "collect_entries parse raws") simp_all
  show ?case using e es(2) Cons.IH [OF es(1)] by simp
qed simp

text \<open>What the configuration file says: the texts of \<open>import.allowlist\<close>, and whether it is to replace the base list.\<close>

definition configured_texts :: "(string \<times> jsval option) option \<Rightarrow> jsval list" where
  "configured_texts config =
     (case config of
        Some (path, Some parsed) \<Rightarrow> (case jget ''allowlist'' (jget ''import'' parsed) of JArr xs \<Rightarrow> xs | _ \<Rightarrow> [])
      | _ \<Rightarrow> [])"

definition asks_to_replace :: "(string \<times> jsval option) option \<Rightarrow> bool" where
  "asks_to_replace config =
     (case config of
        Some (path, Some parsed) \<Rightarrow> jget ''mode'' (jget ''import'' parsed) = JStr ''replace''
      | _ \<Rightarrow> False)"

definition url_of :: "(string \<Rightarrow> url option) \<Rightarrow> jsval \<Rightarrow> url option" where
  "url_of parse listed = (case listed of JStr s \<Rightarrow> if trim s = [] then None else parse (trim s) | _ \<Rightarrow> None)"

definition plain_https :: "url \<Rightarrow> bool" where
  "plain_https u \<longleftrightarrow> u_protocol u = ''https:'' \<and> u_username u = [] \<and> u_password u = [] \<and> normalize_host (u_hostname u) \<noteq> []"

text \<open>An entry is the URL of the listed text: it permits the same host and port and the paths below the URL's, and nothing else.\<close>

definition is_entry_of :: "(string \<Rightarrow> url option) \<Rightarrow> jsval \<Rightarrow> allow_entry \<Rightarrow> bool" where
  "is_entry_of parse listed e \<longleftrightarrow>
     (\<exists>u. url_of parse listed = Some u \<and> plain_https u \<and>
        (\<forall>v. entry_permits v e \<longleftrightarrow>
           normalize_host (u_hostname v) = normalize_host (u_hostname u) \<and> u_port v = u_port u \<and>
           prefix (path_segments (u_pathname u)) (path_segments (u_pathname v))))"

text \<open>The base list, as far as the platform parses it as plain https URLs.\<close>

definition base_texts :: "(string \<Rightarrow> url option) \<Rightarrow> jsval list" where
  "base_texts parse = filter (\<lambda>t. case url_of parse t of None \<Rightarrow> False | Some u \<Rightarrow> plain_https u) (map JStr base_allowlist)"

lemma parse_allow_entry_some:
  "(parse_allow_entry parse t \<noteq> None) = (case url_of parse t of None \<Rightarrow> False | Some u \<Rightarrow> plain_https u)"
  by (auto simp: parse_allow_entry_def url_of_def plain_https_def Let_def split: jsval.split option.split)

lemma parsed_is_entry: "parse_allow_entry parse t = Some e \<Longrightarrow> is_entry_of parse t e"
proof -
  assume p: "parse_allow_entry parse t = Some e"
  then obtain u where u: "url_of parse t = Some u" "plain_https u"
    using parse_allow_entry_some [of parse t] by (auto split: option.splits)
  then have e: "ae_host e = normalize_host (u_hostname u)" "coalesce (ae_port e) [] = u_port u"
    "ae_path_prefix e = normalize_path (u_pathname u)"
    using p by (auto simp: parse_allow_entry_def url_of_def plain_https_def Let_def split: jsval.splits if_splits)
  have "entry_permits v e \<longleftrightarrow> normalize_host (u_hostname v) = normalize_host (u_hostname u) \<and> u_port v = u_port u \<and>
      prefix (path_segments (u_pathname u)) (path_segments (u_pathname v))" for v
    using segment_prefix by (auto simp: entry_permits_def e)
  with u show ?thesis unfolding is_entry_of_def by blast
qed

lemma map_filter_entries:
  "list_all2 (is_entry_of parse) (filter (\<lambda>t. parse_allow_entry parse t \<noteq> None) ts) (List.map_filter (parse_allow_entry parse) ts)"
  using parsed_is_entry by (induction ts) (auto simp: map_filter_simps split: option.split)

lemma parsed_entries:
  "map (parse_allow_entry parse) ts = map Some es \<Longrightarrow> list_all2 (is_entry_of parse) ts es"
  using parsed_is_entry by (induction ts arbitrary: es) auto

lemma loaded_entries:
  assumes "load_import_policy parse config = Inr policy"
    "base = List.map_filter (\<lambda>s. parse_allow_entry parse (JStr s)) base_allowlist"
  shows "ip_replace policy = asks_to_replace config \<and>
    (\<exists>configured. ip_entries policy = (if asks_to_replace config then configured else base @ configured) \<and>
      map (parse_allow_entry parse) (configured_texts config) = map Some configured)"
proof (cases config)
  case None
  then show ?thesis using assms by (auto simp: load_import_policy_def configured_texts_def asks_to_replace_def Let_def)
next
  case (Some pc)
  obtain path parsed where pc: "pc = (path, parsed)" by (cases pc)
  obtain v where parsed: "parsed = Some v"
    using assms Some pc by (cases parsed) (auto simp: load_import_policy_def Let_def)
  let ?list = "jget ''allowlist'' (jget ''import'' v)" and ?mode = "jget ''mode'' (jget ''import'' v)"
  obtain raws where raws: "configured_texts config = raws"
    "(if is_nullish ?list then Some [] else case ?list of JArr xs \<Rightarrow> Some xs | _ \<Rightarrow> None) = Some raws"
    using assms Some pc parsed
    by (cases ?list) (auto simp: load_import_policy_def configured_texts_def Let_def split: if_splits)
  then obtain es where es: "collect_entries parse raws = Inr es"
    using assms Some pc parsed
    by (cases "collect_entries parse raws") (auto simp: load_import_policy_def Let_def split: if_splits)
  have mode: "((if is_nullish ?mode then JStr ''append'' else ?mode) = JStr ''replace'') = asks_to_replace config"
    using Some pc parsed by (auto simp: asks_to_replace_def)
  have "ip_entries policy = (if asks_to_replace config then es else base @ es) \<and> ip_replace policy = asks_to_replace config"
    using assms Some pc parsed raws(2) es unfolding mode [symmetric]
    by (auto simp: load_import_policy_def Let_def split: if_splits)
  then show ?thesis using raws(1) collect_entries_exact [OF es] by blast
qed

text \<open>
  C25. A policy that loads is exactly what was listed: the base list, unless the file asks to replace it (by default it adds
  to it), followed by the file's texts, one entry for each text and in order, none skipped. Each entry is the https URL without
  credentials that its text, trimmed, parses to: it permits the requests for that host and port whose path segments begin
  with the URL's, all of them and no other.
\<close>

theorem loaded_policy_is_what_was_listed:
  assumes "load_import_policy parse config = Inr policy"
  shows "ip_replace policy = asks_to_replace config \<and>
    list_all2 (is_entry_of parse)
      ((if asks_to_replace config then [] else base_texts parse) @ configured_texts config) (ip_entries policy)"
proof -
  let ?base = "List.map_filter (\<lambda>s. parse_allow_entry parse (JStr s)) base_allowlist"
  have base: "?base = List.map_filter (parse_allow_entry parse) (map JStr base_allowlist)"
    by (simp add: map_filter_def filter_map comp_def)
  have entries: "list_all2 (is_entry_of parse) (base_texts parse) ?base"
    unfolding base base_texts_def parse_allow_entry_some [symmetric] by (rule map_filter_entries)
  obtain configured where configured: "ip_replace policy = asks_to_replace config"
    "ip_entries policy = (if asks_to_replace config then configured else ?base @ configured)"
    "list_all2 (is_entry_of parse) (configured_texts config) configured"
    using loaded_entries [OF assms refl] parsed_entries by blast
  then show ?thesis using list_all2_appendI [OF entries configured(3)] by simp
qed

section \<open>What the checks do not see\<close>

text \<open>An address of a private host in the mapped form's hexadecimal writing, and behind the NAT64 prefix: neither is blocked, while
  the dotted writing of the first is.\<close>

theorem hexadecimal_mapped_address_is_not_blocked:
  "is_blocked_address ''::ffff:169.254.169.254'' \<and> \<not> is_blocked_address ''::ffff:a9fe:a9fe'' \<and>
   \<not> is_blocked_address ''64:ff9b::a9fe:a9fe''"
proof -
  have quad: "''169.254.169.254'' = dotted 169 254 169 254" by code_simp
  have "blocked_v4 ''169.254.169.254''" unfolding quad by (subst blocked_v4_dotted) (simp_all add: blocked_octets_def)
  then show ?thesis
    by (simp add: is_blocked_address_def trim_def trim_start_def trim_end_def is_ws_def to_lower_def lower_char_def
        strip_brackets_def ends_with_def unique_local_def link_local_def mapped_v4_def hex_digit_def radix_digit_def
        all_digits_def is_digit_def Let_def)
qed

text \<open>A parser for the URLs of one host, as the platform parses them.\<close>

definition github_parse :: "string \<Rightarrow> url option" where
  "github_parse s =
     (if starts_with ''https://github.com/'' s
      then Some \<lparr>u_protocol = ''https:'', u_username = [], u_password = [], u_hostname = ''github.com'', u_port = [],
                 u_pathname = drop 18 s, u_href = s\<rparr>
      else None)"

definition github_policy :: import_policy where
  "github_policy = \<lparr>ip_entries = List.map_filter (\<lambda>s. parse_allow_entry github_parse (JStr s)) base_allowlist,
                    ip_replace = False, ip_config_path = None\<rparr>"

lemma github_policy_loaded: "load_import_policy github_parse None = Inr github_policy"
  by (simp add: load_import_policy_def github_policy_def)

definition encoded_url :: string where
  "encoded_url = ''https://github.com/evil/x/..%2f..%2faffandar/pilotswarm/y''"

definition replacing_config :: "(string \<times> jsval option) option" where
  "replacing_config = Some (''pilotswarm.json'', Some (JObj [(''import'', JObj [(''mode'', JStr ''replace''),
     (''allowlist'', JArr [JStr '' https://github.com/acme/agents ''])])]))"

theorem loaded_policy_is_what_was_listed_witness:
  "case load_import_policy github_parse replacing_config of
     Inl e \<Rightarrow> False
   | Inr policy \<Rightarrow> ip_replace policy \<and>
       list_all2 (is_entry_of github_parse) [JStr '' https://github.com/acme/agents ''] (ip_entries policy)"
proof -
  have "case load_import_policy github_parse replacing_config of Inl e \<Rightarrow> False | Inr policy \<Rightarrow> True" by code_simp
  then obtain policy where p: "load_import_policy github_parse replacing_config = Inr policy"
    by (cases "load_import_policy github_parse replacing_config") auto
  have "asks_to_replace replacing_config" "configured_texts replacing_config = [JStr '' https://github.com/acme/agents '']"
    by (simp_all add: asks_to_replace_def configured_texts_def replacing_config_def)
  then show ?thesis using loaded_policy_is_what_was_listed [OF p] p by simp
qed

text \<open>
  The decision is made on the decoded path, the request on the path as written: an encoded slash moves a path of another
  repository inside the prefix, and the URL that is allowed and fetched still names the other repository.
\<close>

theorem encoded_slash_leaves_the_prefix:
  "check_import_url github_parse u_href encoded_url github_policy = Allowed encoded_url \<and>
   map_option (\<lambda>u. take 3 (split_on (CHR ''/'') (u_pathname u))) (github_parse encoded_url) = Some [[], ''evil'', ''x''] \<and>
   map_option (\<lambda>u. path_segments (u_pathname u)) (github_parse encoded_url) = Some [''affandar'', ''pilotswarm'', ''y'']"
  by code_simp

definition github_world :: "nat \<Rightarrow> hop_world" where
  "github_world hop = \<lparr>
     hw_lookup = (\<lambda>host. Some [dotted 140 82 112 3]),
     hw_fetch = (\<lambda>href. Some \<lparr>rs_status = (if hop = 0 then 302 else 200), rs_location = Some ''next'', rs_content_length = Some ''3'',
                               rs_chunks = [[1, 2], [3]]\<rparr>)\<rparr>"

definition github_platform :: platform where
  "github_platform = \<lparr>pf_parse = github_parse, pf_redacted = u_href,
     pf_resolve = (\<lambda>location base. Some (base @ location))\<rparr>"

definition small_limits :: import_limits where
  "small_limits = \<lparr>il_max_bytes = 3, il_max_redirects = 1\<rparr>"

theorem every_hop_is_permitted_witness:
  "\<exists>result contacted. guarded_import_fetch github_platform github_policy small_limits github_world
       ''https://github.com/affandar/pilotswarm/'' = (result, contacted) \<and> length contacted = 2 \<and>
     (\<exists>final. result = Fetched [1, 2, 3] final contacted) \<and>
     hop_permitted github_platform github_policy (github_world 1) (contacted ! 1)"
proof -
  have parser: "\<And>s u. pf_parse github_platform s = Some u \<Longrightarrow> pf_parse github_platform (u_href u) = Some u"
    by (auto simp: github_platform_def github_parse_def split: if_splits)
  have run: "map_prod (\<lambda>r. case r of Fetched bytes final visited \<Rightarrow> Some (bytes, length visited) | _ \<Rightarrow> None) length
     (guarded_import_fetch github_platform github_policy small_limits github_world
       ''https://github.com/affandar/pilotswarm/'') = (Some ([1, 2, 3], 2), 2)"
    by code_simp
  obtain result contacted where fetch: "guarded_import_fetch github_platform github_policy small_limits github_world
       ''https://github.com/affandar/pilotswarm/'' = (result, contacted)" by (metis surj_pair)
  with run obtain final visited where r: "result = Fetched [1, 2, 3] final visited" "length contacted = 2"
    by (auto split: fetch_end.splits)
  from every_hop_is_permitted [OF parser fetch] r show ?thesis using fetch by (intro exI conjI) auto
qed

end
