(* ===== verification/SchemaMigrator.thy ===== *)
theory SchemaMigrator
  imports Prelude "HOL-Library.Word"
begin

text \<open>
  The migration runner of the SQL schemas (\<open>pg-migrator.ts\<close>): the checks on the definitions, the key of the
  advisory lock, and any number of workers running \<open>runMigrations\<close> against one schema, statement by statement, with
  their failures: a statement the server refuses, a connection that dies, and a statement that took effect although
  its reply was lost.

  What a statement does to the schema is the database's; the model records which statements took effect, in order. Workers may
  carry different lists, as the binaries of a rolling deployment do.
\<close>

section \<open>Definitions\<close>

text \<open>
  The body of a validated migration. An entry's type makes \<open>steps\<close> an array or absent, and the two tests on it agree there:
  validation asks \<open>Array.isArray\<close>, the runner whether it is truthy. A value outside the type, neither an array nor falsy beside a
  SQL text, would pass validation and be iterated by the runner; it is read as absent here.
\<close>

datatype migration_body = Sql string | Steps "string list"

record migration =
  mg_version :: string
  mg_name :: string
  mg_body :: migration_body

datatype migration_error = No_version | Duplicate_version string | No_name | Not_one_mode | Empty_sql | No_steps | Bad_step

definition nonblank :: "jsval \<Rightarrow> bool" where
  "nonblank v \<longleftrightarrow> (case v of JStr s \<Rightarrow> trim s \<noteq> [] | _ \<Rightarrow> False)"

fun validate_from :: "string list \<Rightarrow> jsval list \<Rightarrow> migration_error + migration list" where
  "validate_from seen [] = Inr []"
| "validate_from seen (m # ms) =
     (let version = jget ''version'' m; name = jget ''name'' m; sql = jget ''sql'' m; steps = jget ''steps'' m;
          has_sql = (as_string sql \<noteq> None);
          listed = (case steps of JArr xs \<Rightarrow> Some xs | _ \<Rightarrow> None)
      in if \<not> nonblank version then Inl No_version
         else let v = js_string version
         in if v \<in> set seen then Inl (Duplicate_version v)
         else if \<not> nonblank name then Inl No_name
         else if has_sql = (listed \<noteq> None) then Inl Not_one_mode
         else if has_sql \<and> \<not> nonblank sql then Inl Empty_sql
         else if listed = Some [] then Inl No_steps
         else if (case listed of None \<Rightarrow> False | Some xs \<Rightarrow> list_ex (\<lambda>s. \<not> nonblank s) xs) then Inl Bad_step
         else map_sum id (\<lambda>rest.
                \<lparr>mg_version = v, mg_name = js_string name,
                 mg_body = (case listed of None \<Rightarrow> Sql (js_string sql) | Some xs \<Rightarrow> Steps (map js_string xs))\<rparr> # rest)
                (validate_from (seen @ [v]) ms))"

definition validate_migration_entries :: "jsval list \<Rightarrow> migration_error + migration list" where
  "validate_migration_entries ms = validate_from [] ms"

text \<open>\<open>((hash << 5) - hash + c) | 0\<close> over the schema's characters; the lock key is the hash as a signed number.\<close>

fun hash_chars :: "32 word \<Rightarrow> string \<Rightarrow> 32 word" where
  "hash_chars h [] = h"
| "hash_chars h (c # cs) = hash_chars (push_bit 5 h - h + of_nat (of_char c)) cs"

definition hash_schema_name :: "string \<Rightarrow> int \<Rightarrow> int" where
  "hash_schema_name schema seed = (if schema = [] then seed else sint (hash_chars (of_int seed) schema))"

section \<open>Workers\<close>

datatype mig_phase =
    Polling
  | Setting_up
  | Applying "string list" "migration list"
  | In_transaction "string list" migration "migration list"
  | In_steps "string list" migration "string list" "migration list"
  | Unlocking bool
  | Finished bool

text \<open>What took effect: the transaction of a \<open>sql\<close> migration, or one step of the others.\<close>

datatype mig_effect = Committed string string | Stepped string string

record mig_state =
  mi_lock :: "nat option"
  mi_applied :: "string list"
  mi_log :: "mig_effect list"
  mi_phase :: "nat \<Rightarrow> mig_phase"

definition set_phase :: "nat \<Rightarrow> mig_phase \<Rightarrow> mig_state \<Rightarrow> mig_state" where
  "set_phase w p s = s\<lparr>mi_phase := (mi_phase s)(w := p)\<rparr>"

text \<open>
  The statement a worker is at, when it succeeds. The log gets what took effect: the transaction of a \<open>sql\<close> migration with
  its commit, a step at once. An insert of a version that is recorded already violates the primary key.
\<close>

fun mig_next :: "(nat \<Rightarrow> migration list) \<Rightarrow> nat \<Rightarrow> mig_phase \<Rightarrow> mig_state \<Rightarrow> mig_state" where
  "mig_next progs w Polling s =
     (if mi_lock s = None then set_phase w Setting_up (s\<lparr>mi_lock := Some w\<rparr>) else s)"
| "mig_next progs w Setting_up s = set_phase w (Applying (mi_applied s) (progs w)) s"
| "mig_next progs w (Applying applied []) s = set_phase w (Unlocking True) s"
| "mig_next progs w (Applying applied (m # ms)) s =
     (if mg_version m \<in> set applied then set_phase w (Applying applied ms) s
      else case mg_body m of
        Sql sql \<Rightarrow> set_phase w (In_transaction applied m ms) s
      | Steps steps \<Rightarrow> set_phase w (In_steps applied m steps ms) s)"
| "mig_next progs w (In_transaction applied m ms) s =
     (if mg_version m \<in> set (mi_applied s) then set_phase w (Unlocking False) s
      else set_phase w (Applying applied ms)
        (s\<lparr>mi_applied := mi_applied s @ [mg_version m],
           mi_log := mi_log s @ (case mg_body m of Sql sql \<Rightarrow> [Committed (mg_version m) sql] | Steps steps \<Rightarrow> [])\<rparr>))"
| "mig_next progs w (In_steps applied m (step # steps) ms) s =
     set_phase w (In_steps applied m steps ms) (s\<lparr>mi_log := mi_log s @ [Stepped (mg_version m) step]\<rparr>)"
| "mig_next progs w (In_steps applied m [] ms) s =
     (if mg_version m \<in> set (mi_applied s) then set_phase w (Unlocking False) s
      else set_phase w (Applying applied ms) (s\<lparr>mi_applied := mi_applied s @ [mg_version m]\<rparr>))"
| "mig_next progs w (Unlocking ok) s =
     set_phase w (Finished ok) (if mi_lock s = Some w then s\<lparr>mi_lock := None\<rparr> else s)"
| "mig_next progs w (Finished ok) s = s"

text \<open>
  A statement the server refuses: outside the unlock the error propagates through \<open>finally\<close>, with a rollback where a
  transaction was open; the unlock's own failure is swallowed, and the lock stays with the pooled connection.
\<close>

fun mig_fail :: "nat \<Rightarrow> mig_phase \<Rightarrow> mig_state \<Rightarrow> mig_state" where
  "mig_fail w (Unlocking ok) s = set_phase w (Finished ok) s"
| "mig_fail w (Finished ok) s = s"
| "mig_fail w p s = set_phase w (Unlocking False) s"

text \<open>The end of a worker's connection: the server rolls back what was open and releases its lock.\<close>

definition mig_disconnect :: "nat \<Rightarrow> mig_state \<Rightarrow> mig_state" where
  "mig_disconnect w s =
     (let freed = (if mi_lock s = Some w then s\<lparr>mi_lock := None\<rparr> else s)
      in case mi_phase s w of Finished ok \<Rightarrow> freed | _ \<Rightarrow> set_phase w (Finished False) freed)"

datatype mig_event = Statement nat | Refused_statement nat | Disconnect nat | Reply_lost nat

fun mig_step :: "(nat \<Rightarrow> migration list) \<Rightarrow> mig_event \<Rightarrow> mig_state \<Rightarrow> mig_state" where
  "mig_step progs (Statement w) s = mig_next progs w (mi_phase s w) s"
| "mig_step progs (Refused_statement w) s = mig_fail w (mi_phase s w) s"
| "mig_step progs (Disconnect w) s = mig_disconnect w s"
| "mig_step progs (Reply_lost w) s = mig_disconnect w (mig_next progs w (mi_phase s w) s)"

definition mig_run :: "(nat \<Rightarrow> migration list) \<Rightarrow> mig_event list \<Rightarrow> mig_state \<Rightarrow> mig_state" where
  "mig_run progs es s = foldl (\<lambda>s e. mig_step progs e s) s es"

definition mig_start :: "string list \<Rightarrow> mig_state" where
  "mig_start applied = \<lparr>mi_lock = None, mi_applied = applied, mi_log = [], mi_phase = (\<lambda>_. Polling)\<rparr>"

section \<open>Validated lists\<close>

lemma validate_from_distinct:
  "validate_from seen ms = Inr out \<Longrightarrow> distinct (map mg_version out) \<and> set (map mg_version out) \<inter> set seen = {} \<and>
   (\<forall>m \<in> set out. trim (mg_version m) \<noteq> [] \<and> (\<forall>steps. mg_body m = Steps steps \<longrightarrow> steps \<noteq> []))"
proof (induction ms arbitrary: seen out)
  case (Cons m ms)
  let ?v = "js_string (jget ''version'' m)"
  obtain rest m' where rest: "validate_from (seen @ [?v]) ms = Inr rest" "out = m' # rest" "mg_version m' = ?v"
    "?v \<notin> set seen" "nonblank (jget ''version'' m)" "\<forall>steps. mg_body m' = Steps steps \<longrightarrow> steps \<noteq> []"
    using Cons.prems
    by (cases "validate_from (seen @ [?v]) ms") (auto simp: Let_def split: if_splits option.splits jsval.splits)
  have "trim ?v \<noteq> []" using rest(5) by (auto simp: nonblank_def split: jsval.splits)
  then show ?case using Cons.IH [OF rest(1)] rest by auto
qed simp

definition validated :: "(nat \<Rightarrow> migration list) \<Rightarrow> bool" where
  "validated progs \<longleftrightarrow> (\<forall>w. \<exists>entries. validate_migration_entries entries = Inr (progs w))"

lemma validated_distinct: "validated progs \<Longrightarrow> \<forall>w. distinct (map mg_version (progs w))"
  using validate_from_distinct unfolding validated_def validate_migration_entries_def by blast

section \<open>The workers' invariant\<close>

fun holding :: "mig_phase \<Rightarrow> bool" where
  "holding Setting_up = True"
| "holding (Applying applied ms) = True"
| "holding (In_transaction applied m ms) = True"
| "holding (In_steps applied m steps ms) = True"
| "holding p = False"

text \<open>What a phase says of the migrations it read: the versions recorded since are none of those still to come.\<close>

definition up_to_date :: "string list \<Rightarrow> migration list \<Rightarrow> mig_state \<Rightarrow> bool" where
  "up_to_date applied ms s \<longleftrightarrow>
     set applied \<subseteq> set (mi_applied s) \<and> (\<forall>m \<in> set ms. mg_version m \<in> set (mi_applied s) \<longrightarrow> mg_version m \<in> set applied)"

definition records_all :: "migration list \<Rightarrow> mig_state \<Rightarrow> bool" where
  "records_all ms s \<longleftrightarrow> mg_version ` set ms \<subseteq> set (mi_applied s)"

fun phase_ok :: "migration list \<Rightarrow> mig_state \<Rightarrow> mig_phase \<Rightarrow> bool" where
  "phase_ok prog s (Applying applied ms) =
     (up_to_date applied ms s \<and> (\<exists>done_ms. prog = done_ms @ ms \<and> records_all done_ms s))"
| "phase_ok prog s (In_transaction applied m ms) =
     (up_to_date applied (m # ms) s \<and> mg_version m \<notin> set applied \<and> (\<exists>sql. mg_body m = Sql sql) \<and>
      (\<exists>done_ms. prog = done_ms @ m # ms \<and> records_all done_ms s))"
| "phase_ok prog s (In_steps applied m todo ms) =
     (up_to_date applied (m # ms) s \<and> mg_version m \<notin> set applied \<and>
      (\<exists>ran. mg_body m = Steps (ran @ todo) \<and> (\<exists>before. mi_log s = before @ map (Stepped (mg_version m)) ran)) \<and>
      (\<exists>done_ms. prog = done_ms @ m # ms \<and> records_all done_ms s))"
| "phase_ok prog s (Unlocking ok) = (ok \<longrightarrow> records_all prog s)"
| "phase_ok prog s (Finished ok) = (ok \<longrightarrow> records_all prog s)"
| "phase_ok prog s p = True"

fun committed_version :: "mig_effect \<Rightarrow> string option" where
  "committed_version (Committed v sql) = Some v"
| "committed_version (Stepped v sql) = None"

definition committed_versions :: "mig_effect list \<Rightarrow> string list" where
  "committed_versions effects = List.map_filter committed_version effects"

text \<open>A version is recorded with all its work in the effects: its transaction, or its steps one after the other.\<close>

definition recorded_with_work :: "(nat \<Rightarrow> migration list) \<Rightarrow> mig_effect list \<Rightarrow> string \<Rightarrow> bool" where
  "recorded_with_work progs effects v \<longleftrightarrow>
     (\<exists>w m. m \<in> set (progs w) \<and> mg_version m = v \<and>
        (case mg_body m of
           Sql sql \<Rightarrow> Committed v sql \<in> set effects
         | Steps steps \<Rightarrow> \<exists>before after. effects = before @ map (Stepped v) steps @ after))"

definition migrations_inv :: "(nat \<Rightarrow> migration list) \<Rightarrow> string list \<Rightarrow> mig_state \<Rightarrow> bool" where
  "migrations_inv progs old s \<longleftrightarrow>
     (\<forall>w. holding (mi_phase s w) \<longrightarrow> mi_lock s = Some w) \<and>
     (\<forall>w. phase_ok (progs w) s (mi_phase s w)) \<and>
     distinct (mi_applied s) \<and> set old \<subseteq> set (mi_applied s) \<and>
     distinct (committed_versions (mi_log s)) \<and>
     set (committed_versions (mi_log s)) \<subseteq> set (mi_applied s) - set old \<and>
     (\<forall>v \<in> set (mi_applied s) - set old. recorded_with_work progs (mi_log s) v)"

lemma committed_versions_append [simp]: "committed_versions (xs @ ys) = committed_versions xs @ committed_versions ys"
  by (simp add: committed_versions_def map_filter_def)

lemma committed_versions_Stepped [simp]: "committed_versions (map (Stepped v) steps) = []"
  by (induction steps) (simp_all add: committed_versions_def map_filter_def)

lemma committed_versions_simps [simp]:
  "committed_versions [] = []" "committed_versions [Committed v sql] = [v]" "committed_versions [Stepped v sql] = []"
  by (simp_all add: committed_versions_def map_filter_def)

lemma recorded_with_work_mono: "recorded_with_work progs effects v \<Longrightarrow> recorded_with_work progs (effects @ later) v"
  unfolding recorded_with_work_def by (fastforce split: migration_body.splits)

text \<open>A worker that does not hold the lock is unmoved by what the others record.\<close>

lemma phase_ok_other:
  "\<not> holding p \<Longrightarrow> phase_ok prog s p \<Longrightarrow> set (mi_applied s) \<subseteq> set (mi_applied s') \<Longrightarrow> phase_ok prog s' p"
  by (cases p) (auto simp: records_all_def)

lemma phase_ok_cong:
  "mi_applied s' = mi_applied s \<Longrightarrow> mi_log s' = mi_log s \<Longrightarrow> phase_ok prog s' p = phase_ok prog s p"
  by (cases p) (simp_all add: records_all_def up_to_date_def)

text \<open>One worker moves; what is recorded changes only in the hands of the lock's holder.\<close>

lemma migrations_inv_update:
  assumes inv: "migrations_inv progs old s" and phase: "mi_phase s' = (mi_phase s)(w := p)"
    and lock: "holding p \<longrightarrow> mi_lock s' = Some w" "mi_lock s' = mi_lock s \<or> mi_lock s = None \<or> mi_lock s = Some w"
    and same: "mi_applied s' = mi_applied s \<and> mi_log s' = mi_log s \<or> mi_lock s = Some w"
    and ok: "phase_ok (progs w) s' p"
    and grown: "distinct (mi_applied s')" "set (mi_applied s) \<subseteq> set (mi_applied s')" "distinct (committed_versions (mi_log s'))"
      "set (committed_versions (mi_log s')) \<subseteq> set (mi_applied s') - set old"
      "\<forall>v \<in> set (mi_applied s') - set old. recorded_with_work progs (mi_log s') v"
  shows "migrations_inv progs old s'"
proof -
  have others_lock: "mi_lock s' = Some w'" if "holding (mi_phase s w')" "w' \<noteq> w" for w'
    using inv that lock(2) by (auto simp: migrations_inv_def)
  have others_ok: "phase_ok (progs w') s' (mi_phase s w')" if "w' \<noteq> w" for w'
  proof (cases "holding (mi_phase s w')")
    case True
    then have "mi_lock s = Some w'" using inv by (simp add: migrations_inv_def)
    then have "mi_applied s' = mi_applied s \<and> mi_log s' = mi_log s" using same that by auto
    then have "phase_ok (progs w') s' (mi_phase s w') = phase_ok (progs w') s (mi_phase s w')" by (intro phase_ok_cong) simp_all
    then show ?thesis using inv by (simp add: migrations_inv_def)
  next
    case False
    then show ?thesis using phase_ok_other [OF False _ grown(2)] inv by (simp add: migrations_inv_def)
  qed
  have "holding (mi_phase s' w') \<longrightarrow> mi_lock s' = Some w'" "phase_ok (progs w') s' (mi_phase s' w')" for w'
    using lock(1) ok others_lock [of w'] others_ok [of w'] by (cases "w' = w"; simp add: phase)+
  moreover have "set old \<subseteq> set (mi_applied s')" using inv grown(2) unfolding migrations_inv_def by blast
  ultimately show ?thesis using grown unfolding migrations_inv_def by blast
qed

lemmas migrations_invD = migrations_inv_def [THEN iffD1]

text \<open>A move that records nothing.\<close>

lemma migrations_inv_move:
  assumes "migrations_inv progs old s" "phase_ok (progs w) s p" "holding p \<longrightarrow> mi_lock s' = Some w"
    "mi_lock s' = mi_lock s \<or> mi_lock s = None \<or> mi_lock s = Some w"
    "mi_applied s' = mi_applied s" "mi_log s' = mi_log s" "mi_phase s' = (mi_phase s)(w := p)"
  shows "migrations_inv progs old s'"
proof (rule migrations_inv_update [OF assms(1,7,3,4)])
  show "phase_ok (progs w) s' p" using assms(2) phase_ok_cong [OF assms(5,6)] by simp
  show "mi_applied s' = mi_applied s \<and> mi_log s' = mi_log s \<or> mi_lock s = Some w" using assms(5,6) by blast
qed (use migrations_invD [OF assms(1)] in \<open>unfold assms(5,6), blast+\<close>)

text \<open>A version of a validated list is recorded by its holder, with its work.\<close>

lemma migrations_inv_record:
  assumes inv: "migrations_inv progs old s" and held: "mi_lock s = Some w"
    and new: "mg_version m \<notin> set (mi_applied s)" "m \<in> set (progs w)"
    and s': "mi_phase s' = (mi_phase s)(w := p)" "mi_lock s' = Some w" "mi_applied s' = mi_applied s @ [mg_version m]"
      "mi_log s' = mi_log s @ work"
    and work: "case mg_body m of
        Sql sql \<Rightarrow> work = [Committed (mg_version m) sql]
      | Steps steps \<Rightarrow> work = [] \<and> (\<exists>before. mi_log s = before @ map (Stepped (mg_version m)) steps)"
    and ok: "phase_ok (progs w) s' p"
  shows "migrations_inv progs old s'"
proof (rule migrations_inv_update [OF inv s'(1) _ _ _ ok])
  have old: "mg_version m \<notin> set old" "mg_version m \<notin> set (committed_versions (mi_log s))"
    using inv new(1) by (auto simp: migrations_inv_def)
  show "distinct (mi_applied s')" "set (mi_applied s) \<subseteq> set (mi_applied s')" using inv new(1) s'(3) by (auto simp: migrations_inv_def)
  show "distinct (committed_versions (mi_log s'))" "set (committed_versions (mi_log s')) \<subseteq> set (mi_applied s') - set old"
    using inv old work s'(3,4) by (auto simp: migrations_inv_def split: migration_body.splits)
  have "recorded_with_work progs (mi_log s') (mg_version m)"
  proof (cases "mg_body m")
    case (Sql sql)
    then show ?thesis using new(2) work s'(4) by (auto simp: recorded_with_work_def intro!: exI [of _ w] bexI [of _ m])
  next
    case (Steps steps)
    then obtain before where "mi_log s' = before @ map (Stepped (mg_version m)) steps @ []" using work s'(4) by auto
    then show ?thesis unfolding recorded_with_work_def using new(2) Steps
      by (intro exI [of _ w] exI [of _ m]) (simp only: migration_body.case, blast)
  qed
  then show "\<forall>v \<in> set (mi_applied s') - set old. recorded_with_work progs (mi_log s') v"
    using inv recorded_with_work_mono s'(3,4) by (auto simp: migrations_inv_def)
qed (use held s'(2) in auto)

lemma set_phase_simps [simp]:
  "mi_lock (set_phase w p s) = mi_lock s" "mi_applied (set_phase w p s) = mi_applied s"
  "mi_log (set_phase w p s) = mi_log s" "mi_phase (set_phase w p s) = (mi_phase s)(w := p)"
  by (simp_all add: set_phase_def)

text \<open>After one version is recorded the rest of a validated list is still up to date.\<close>

lemma up_to_date_record:
  assumes "up_to_date applied (m # ms) s" "distinct (map mg_version (done_ms @ m # ms))"
    "mi_applied s' = mi_applied s @ [mg_version m]"
  shows "up_to_date applied ms s'"
  using assms by (auto simp: up_to_date_def image_iff)

lemma mig_record_inv:
  assumes inv: "migrations_inv progs old s" and lists: "distinct (map mg_version (progs w))"
    and at: "mi_phase s w = p" "p = In_transaction applied m ms \<or> p = In_steps applied m [] ms"
  shows "mg_version m \<notin> set (mi_applied s) \<and> migrations_inv progs old (mig_next progs w p s)"
proof -
  have ok: "phase_ok (progs w) s p" and lock: "mi_lock s = Some w"
    using inv at by (auto simp: migrations_inv_def)
  then obtain done_ms where prog: "progs w = done_ms @ m # ms" "records_all done_ms s" and fresh: "up_to_date applied (m # ms) s"
    "mg_version m \<notin> set applied"
    using at(2) by auto
  have new: "mg_version m \<notin> set (mi_applied s)" using fresh by (auto simp: up_to_date_def)
  let ?s = "mig_next progs w p s"
  have app: "mi_applied ?s = mi_applied s @ [mg_version m]" "mi_lock ?s = Some w"
    "mi_phase ?s = (mi_phase s)(w := Applying applied ms)"
    using at(2) new lock by auto
  have "records_all (done_ms @ [m]) ?s" using prog(2) app(1) by (auto simp: records_all_def)
  then have after: "phase_ok (progs w) ?s (Applying applied ms)"
    using up_to_date_record [OF fresh(1) _ app(1), of done_ms] lists prog(1) by (auto simp: records_all_def)
  have "migrations_inv progs old ?s"
    using at(2)
  proof
    assume p: "p = In_transaction applied m ms"
    obtain sql where "mg_body m = Sql sql" using ok p by auto
    then show ?thesis
      using migrations_inv_record [OF inv lock new _ app(3,2,1) _ _ after, of "[Committed (mg_version m) sql]"] p new prog(1) by simp
  next
    assume p: "p = In_steps applied m [] ms"
    obtain steps where "mg_body m = Steps steps" "\<exists>before. mi_log s = before @ map (Stepped (mg_version m)) steps" using ok p by auto
    then show ?thesis
      using migrations_inv_record [OF inv lock new _ app(3,2,1) _ _ after, of "[]"] p new prog(1) by simp
  qed
  with new show ?thesis by simp
qed

lemma mig_apply_inv:
  assumes inv: "migrations_inv progs old s" and at: "mi_phase s w = Applying applied (m # ms)"
  shows "migrations_inv progs old (mig_next progs w (Applying applied (m # ms)) s)"
proof -
  have "phase_ok (progs w) s (Applying applied (m # ms))" "holding (Applying applied (m # ms)) \<longrightarrow> mi_lock s = Some w"
    using migrations_invD [OF inv] at by metis+
  then obtain done_ms where lock: "mi_lock s = Some w" and fresh: "up_to_date applied (m # ms) s"
    and prog: "progs w = done_ms @ m # ms" "records_all done_ms s"
    by auto
  note move = migrations_inv_move [OF inv]
  show ?thesis
  proof (cases "mg_version m \<in> set applied")
    case True
    have "up_to_date applied ms s" using fresh by (simp add: up_to_date_def)
    moreover have "progs w = (done_ms @ [m]) @ ms" "records_all (done_ms @ [m]) s"
      using prog True fresh by (auto simp: records_all_def up_to_date_def)
    ultimately have "phase_ok (progs w) s (Applying applied ms)" using phase_ok.simps(1) by blast
    then show ?thesis using move [of w "Applying applied ms"] lock True by simp
  next
    case False
    show ?thesis
    proof (cases "mg_body m")
      case (Sql sql)
      then have "phase_ok (progs w) s (In_transaction applied m ms)" using prog fresh False by auto
      then show ?thesis using move [of w "In_transaction applied m ms"] lock False Sql by simp
    next
      case (Steps steps)
      then have "phase_ok (progs w) s (In_steps applied m steps ms)" using prog fresh False by auto
      then show ?thesis using move [of w "In_steps applied m steps ms"] lock False Steps by simp
    qed
  qed
qed

lemma mig_next_inv:
  assumes inv: "migrations_inv progs old s" and lists: "distinct (map mg_version (progs w))" and at: "mi_phase s w = p"
  shows "migrations_inv progs old (mig_next progs w p s)"
proof -
  have ok: "phase_ok (progs w) s p" and lock: "holding p \<Longrightarrow> mi_lock s = Some w"
    using inv at by (auto simp: migrations_inv_def)
  note move = migrations_inv_move [OF inv]
  show ?thesis
  proof (cases p)
    case Polling
    then show ?thesis using inv move [of w Setting_up "set_phase w Setting_up (s\<lparr>mi_lock := Some w\<rparr>)"] by simp
  next
    case Setting_up
    have "phase_ok (progs w) s (Applying (mi_applied s) (progs w))" by (simp add: up_to_date_def records_all_def)
    then show ?thesis using move [of w "Applying (mi_applied s) (progs w)"] lock Setting_up by simp
  next
    case (Applying applied ms)
    show ?thesis
    proof (cases ms)
      case Nil
      then have "phase_ok (progs w) s (Unlocking True)" using ok Applying by auto
      then show ?thesis using move [of w "Unlocking True"] Applying Nil by simp
    next
      case (Cons m rest)
      then show ?thesis using mig_apply_inv [OF inv] at Applying by blast
    qed
  next
    case (In_transaction applied m ms)
    then show ?thesis using mig_record_inv [OF inv lists at] by blast
  next
    case steps: (In_steps applied m todo ms)
    show ?thesis
    proof (cases todo)
      case Nil
      then show ?thesis using mig_record_inv [OF inv lists at] steps by blast
    next
      case (Cons step rest)
      let ?s = "mig_next progs w p s"
      have s': "mi_phase ?s = (mi_phase s)(w := In_steps applied m rest ms)" "mi_lock ?s = mi_lock s"
        "mi_applied ?s = mi_applied s" "mi_log ?s = mi_log s @ [Stepped (mg_version m) step]"
        by (simp_all add: steps Cons)
      obtain ran before where ran: "mg_body m = Steps (ran @ todo)" "mi_log s = before @ map (Stepped (mg_version m)) ran"
        using ok steps by auto
      have "mg_body m = Steps ((ran @ [step]) @ rest)" "mi_log ?s = before @ map (Stepped (mg_version m)) (ran @ [step])"
        using ran s'(4) Cons by simp_all
      moreover have "up_to_date applied (m # ms) s" "mg_version m \<notin> set applied"
        "\<exists>done_ms. progs w = done_ms @ m # ms \<and> records_all done_ms s"
        using ok steps by simp_all
      then have "up_to_date applied (m # ms) ?s" "mg_version m \<notin> set applied"
        "\<exists>done_ms. progs w = done_ms @ m # ms \<and> records_all done_ms ?s"
        using s'(3) by (simp_all add: up_to_date_def records_all_def)
      ultimately have after: "phase_ok (progs w) ?s (In_steps applied m rest ms)" unfolding phase_ok.simps by blast
      show ?thesis
        by (rule migrations_inv_update [OF inv s'(1) _ _ _ after])
          (use inv lock steps s' recorded_with_work_mono in \<open>auto simp: migrations_inv_def\<close>)
    qed
  next
    case (Unlocking fine)
    then show ?thesis
      using ok move [of w "Finished fine" "mig_next progs w p s"] by simp
  next
    case (Finished fine)
    then show ?thesis using inv by simp
  qed
qed

lemma mig_fail_inv:
  assumes inv: "migrations_inv progs old s" and at: "mi_phase s w = p"
  shows "migrations_inv progs old (mig_fail w p s)"
proof -
  have ok: "phase_ok (progs w) s p" using inv at by (auto simp: migrations_inv_def)
  note move = migrations_inv_move [OF inv]
  have stop: "migrations_inv progs old (set_phase w (Unlocking False) s)" using move [of w "Unlocking False"] by simp
  show ?thesis
  proof (cases p)
    case (Unlocking fine)
    then show ?thesis using ok move [of w "Finished fine" "set_phase w (Finished fine) s"] by simp
  qed (use stop inv in simp_all)
qed

lemma mig_disconnect_inv:
  assumes inv: "migrations_inv progs old s"
  shows "migrations_inv progs old (mig_disconnect w s)"
proof -
  let ?freed = "if mi_lock s = Some w then s\<lparr>mi_lock := None\<rparr> else s"
  have ok: "phase_ok (progs w) s (mi_phase s w)" using inv by (simp add: migrations_inv_def)
  have move: "migrations_inv progs old s'"
    if "phase_ok (progs w) s p" "\<not> holding p" "mi_lock s' = mi_lock ?freed" "mi_applied s' = mi_applied s" "mi_log s' = mi_log s"
      "mi_phase s' = (mi_phase s)(w := p)" for p s'
    by (rule migrations_inv_move [OF inv that(1) _ _ that(4,5,6)]) (use that in \<open>auto split: if_splits\<close>)
  show ?thesis
  proof (cases "\<exists>fine. mi_phase s w = Finished fine")
    case True
    then obtain fine where p: "mi_phase s w = Finished fine" ..
    then show ?thesis using ok move [of "Finished fine" ?freed] by (auto simp: mig_disconnect_def Let_def fun_upd_idem)
  next
    case False
    then have "mig_disconnect w s = set_phase w (Finished False) ?freed"
      by (auto simp: mig_disconnect_def Let_def split: mig_phase.splits)
    then show ?thesis using move [of "Finished False" "set_phase w (Finished False) ?freed"] by simp
  qed
qed

lemma mig_run_inv:
  assumes "migrations_inv progs old s" "\<forall>w. distinct (map mg_version (progs w))"
  shows "migrations_inv progs old (mig_run progs es s)"
  using assms(1)
proof (induction es arbitrary: s)
  case (Cons e es)
  have "migrations_inv progs old (mig_step progs e s)"
    using Cons.prems assms(2) mig_next_inv mig_fail_inv mig_disconnect_inv by (cases e) auto
  then show ?case using Cons.IH by (simp add: mig_run_def)
qed (simp add: mig_run_def)

lemma mig_start_inv: "distinct old \<Longrightarrow> migrations_inv progs old (mig_start old)"
  by (simp add: migrations_inv_def mig_start_def)

section \<open>Each migration once, with all its work\<close>

text \<open>
  C14. Any number of workers with validated lists, statements refused, connections lost and replies lost at any point: no version
  is recorded twice, no \<open>sql\<close> migration is committed twice or again when it was recorded before, a
  version that is recorded has its transaction committed or all its steps run one after the other, and at most one
  worker is inside at a time.
\<close>

theorem migrations_apply_once:
  assumes "validated progs" "distinct old" "s = mig_run progs es (mig_start old)"
  shows "distinct (mi_applied s) \<and> distinct (committed_versions (mi_log s)) \<and>
    set (committed_versions (mi_log s)) \<inter> set old = {} \<and>
    (\<forall>v \<in> set (mi_applied s) - set old. recorded_with_work progs (mi_log s) v) \<and>
    (\<forall>w w'. holding (mi_phase s w) \<and> holding (mi_phase s w') \<longrightarrow> w = w')"
proof -
  have inv: "migrations_inv progs old s"
    unfolding assms(3) by (rule mig_run_inv [OF mig_start_inv [OF assms(2)] validated_distinct [OF assms(1)]])
  moreover have "w = w'" if "holding (mi_phase s w)" "holding (mi_phase s w')" for w w'
    using inv that unfolding migrations_inv_def by (metis option.inject)
  ultimately show ?thesis unfolding migrations_inv_def by blast
qed

text \<open>A worker that ends well has every version of its list recorded, also those another worker applied.\<close>

lemma finished_records_all:
  assumes "\<forall>w. distinct (map mg_version (progs w))" "distinct old" "s = mig_run progs es (mig_start old)"
    "mi_phase s w = Finished True"
  shows "mg_version ` set (progs w) \<subseteq> set (mi_applied s)"
proof -
  have "phase_ok (progs w) s (mi_phase s w)"
    using mig_run_inv [OF mig_start_inv [OF assms(2)] assms(1), of es] unfolding migrations_inv_def assms(3) by blast
  then show ?thesis using assms(4) by (simp add: records_all_def)
qed

section \<open>Every start completes\<close>

definition migration_work :: "migration \<Rightarrow> nat" where
  "migration_work m = (case mg_body m of Sql sql \<Rightarrow> 2 | Steps steps \<Rightarrow> 2 + length steps)"

fun phase_work :: "migration list \<Rightarrow> mig_phase \<Rightarrow> nat" where
  "phase_work prog Polling = 4 + sum_list (map migration_work prog)"
| "phase_work prog Setting_up = 3 + sum_list (map migration_work prog)"
| "phase_work prog (Applying applied ms) = 2 + sum_list (map migration_work ms)"
| "phase_work prog (In_transaction applied m ms) = 3 + sum_list (map migration_work ms)"
| "phase_work prog (In_steps applied m todo ms) = 3 + length todo + sum_list (map migration_work ms)"
| "phase_work prog (Unlocking ok) = 1"
| "phase_work prog (Finished ok) = 0"

fun on_course :: "mig_phase \<Rightarrow> bool" where
  "on_course (Unlocking ok) = ok"
| "on_course (Finished ok) = ok"
| "on_course p = True"

text \<open>A statement of a worker that can have the lock brings it nearer its good end.\<close>

lemma mig_next_progress:
  assumes inv: "migrations_inv progs old s" and lists: "distinct (map mg_version (progs w))"
    and free: "mi_lock s = None \<or> mi_lock s = Some w" and course: "on_course (mi_phase s w)"
    and polling: "mi_phase s w = Polling \<Longrightarrow> mi_lock s = None"
  shows "\<exists>p. mi_phase (mig_next progs w (mi_phase s w) s) w = p \<and> on_course p \<and> p \<noteq> Polling \<and>
     (mi_lock (mig_next progs w (mi_phase s w) s) = None \<or> mi_lock (mig_next progs w (mi_phase s w) s) = Some w) \<and>
     (phase_work (progs w) p < phase_work (progs w) (mi_phase s w) \<or> mi_phase s w = Finished True)"
proof (cases "mi_phase s w")
  case Polling
  then show ?thesis using polling by simp
next
  case Setting_up
  then show ?thesis using free by simp
next
  case (Applying applied ms)
  then show ?thesis using free by (cases ms) (auto simp: migration_work_def split: migration_body.splits)
next
  case (In_transaction applied m ms)
  then have "mg_version m \<notin> set (mi_applied s)" using mig_record_inv [OF inv lists In_transaction] by blast
  then show ?thesis using In_transaction free by simp
next
  case (In_steps applied m todo ms)
  show ?thesis
  proof (cases todo)
    case Nil
    then have "mg_version m \<notin> set (mi_applied s)" using mig_record_inv [OF inv lists refl] In_steps by blast
    then show ?thesis using In_steps Nil free by simp
  next
    case (Cons step rest)
    then show ?thesis using In_steps free by simp
  qed
next
  case (Unlocking ok)
  then show ?thesis using course free by auto
next
  case (Finished ok)
  then show ?thesis using course free by simp
qed

lemma mig_run_finishes:
  assumes "migrations_inv progs old s" "distinct (map mg_version (progs w))"
    "mi_lock s = None \<or> mi_lock s = Some w" "on_course (mi_phase s w)" "mi_phase s w = Polling \<Longrightarrow> mi_lock s = None"
    "phase_work (progs w) (mi_phase s w) \<le> n"
  shows "mi_phase (mig_run progs (replicate n (Statement w)) s) w = Finished True"
  using assms
proof (induction n arbitrary: s)
  case 0
  then show ?case by (cases "mi_phase s w") (auto simp: mig_run_def)
next
  case (Suc n)
  let ?s = "mig_next progs w (mi_phase s w) s"
  have inv: "migrations_inv progs old ?s" using mig_next_inv [OF Suc.prems(1,2) refl] .
  obtain p where p: "mi_phase ?s w = p" "on_course p" "p \<noteq> Polling" "mi_lock ?s = None \<or> mi_lock ?s = Some w"
    "phase_work (progs w) p < phase_work (progs w) (mi_phase s w) \<or> mi_phase s w = Finished True"
    using mig_next_progress [OF Suc.prems(1-5)] by blast
  have "phase_work (progs w) p \<le> n"
    using p(1,5) Suc.prems(6) by auto
  then have "mi_phase (mig_run progs (replicate n (Statement w)) ?s) w = Finished True"
    using Suc.IH [OF inv Suc.prems(2)] p by blast
  then show ?case by (simp add: mig_run_def)
qed

text \<open>
  C17. Whatever happened before, a failed or dead worker in the middle of a migration included: once the lock is free, a worker that
  starts and whose statements succeed ends well after a number of statements fixed by its list, and its whole list
  is then recorded.
\<close>

theorem next_worker_completes:
  assumes "validated progs" "distinct old" "s = mig_run progs es (mig_start old)"
    "mi_lock s = None" "mi_phase s w = Polling"
    "s' = mig_run progs (replicate (4 + sum_list (map migration_work (progs w))) (Statement w)) s"
  shows "mi_phase s' w = Finished True \<and> mg_version ` set (progs w) \<subseteq> set (mi_applied s')"
proof -
  note versions = validated_distinct [OF assms(1)]
  have inv: "migrations_inv progs old s" unfolding assms(3) by (rule mig_run_inv [OF mig_start_inv [OF assms(2)] versions])
  have ended: "mi_phase s' w = Finished True"
    unfolding assms(6) by (rule mig_run_finishes [OF inv spec [OF versions]]) (simp_all add: assms(4,5))
  have "s' = mig_run progs (es @ replicate (4 + sum_list (map migration_work (progs w))) (Statement w)) (mig_start old)"
    unfolding assms(3,6) mig_run_def by simp
  from finished_records_all [OF versions assms(2) this ended] ended show ?thesis by blast
qed

text \<open>Two workers of different binaries: the first dies after its steps' first statement, the second applies all.\<close>

definition two_binaries :: "nat \<Rightarrow> migration list" where
  "two_binaries w =
     [\<lparr>mg_version = ''1'', mg_name = ''init'', mg_body = Sql ''create''\<rparr>,
      \<lparr>mg_version = ''2'', mg_name = ''index'', mg_body = Steps [''drop'', ''index'']\<rparr>] @
     (if w = 0 then [] else [\<lparr>mg_version = ''3'', mg_name = ''more'', mg_body = Sql ''alter''\<rparr>])"

definition two_binaries_entries :: "bool \<Rightarrow> jsval list" where
  "two_binaries_entries newer =
     [JObj [(''version'', JStr ''1''), (''name'', JStr ''init''), (''sql'', JStr ''create'')],
      JObj [(''version'', JStr ''2''), (''name'', JStr ''index''), (''steps'', JArr [JStr ''drop'', JStr ''index''])]] @
     (if newer then [JObj [(''version'', JStr ''3''), (''name'', JStr ''more''), (''sql'', JStr ''alter'')]] else [])"

lemma two_binaries_validated: "validated two_binaries"
proof -
  have "validate_migration_entries (two_binaries_entries False) = Inr (two_binaries 0) \<and>
      validate_migration_entries (two_binaries_entries True) = Inr (two_binaries 1)" by code_simp
  moreover have "two_binaries w = two_binaries (if w = 0 then 0 else 1)" for w by (simp add: two_binaries_def)
  ultimately show ?thesis unfolding validated_def by metis
qed

definition first_dies :: "mig_event list" where
  "first_dies = [Statement 0, Statement 1, Statement 0, Statement 0, Statement 0, Statement 0, Statement 0, Disconnect 0]"

theorem next_worker_completes_witness:
  "mi_log (mig_run two_binaries first_dies (mig_start [])) = [Committed ''1'' ''create'', Stepped ''2'' ''drop''] \<and>
   (let s = mig_run two_binaries (replicate (4 + sum_list (map migration_work (two_binaries 1))) (Statement 1))
              (mig_run two_binaries first_dies (mig_start []))
    in mi_phase s 1 = Finished True \<and> mg_version ` set (two_binaries 1) \<subseteq> set (mi_applied s))"
proof -
  let ?s = "mig_run two_binaries first_dies (mig_start [])"
  have "mi_log ?s = [Committed ''1'' ''create'', Stepped ''2'' ''drop''] \<and> mi_lock ?s = None \<and> mi_phase ?s 1 = Polling"
    by (simp add: mig_run_def first_dies_def mig_start_def two_binaries_def set_phase_def mig_disconnect_def)
  then show ?thesis
    using next_worker_completes [OF two_binaries_validated, of "[]" ?s first_dies 1] by (simp add: Let_def)
qed

theorem migrations_apply_once_witness:
  "(let s = mig_run two_binaries (first_dies @ replicate 20 (Statement 1)) (mig_start [])
    in mi_applied s = [''1'', ''2'', ''3''] \<and>
       mi_log s = [Committed ''1'' ''create'', Stepped ''2'' ''drop'', Stepped ''2'' ''drop'', Stepped ''2'' ''index'', Committed ''3'' ''alter''] \<and>
       distinct (committed_versions (mi_log s)))"
proof -
  let ?s = "mig_run two_binaries (first_dies @ replicate 20 (Statement 1)) (mig_start [])"
  have "mi_applied ?s = [''1'', ''2'', ''3''] \<and>
       mi_log ?s = [Committed ''1'' ''create'', Stepped ''2'' ''drop'', Stepped ''2'' ''drop'', Stepped ''2'' ''index'', Committed ''3'' ''alter'']"
    by (simp add: mig_run_def first_dies_def mig_start_def two_binaries_def set_phase_def mig_disconnect_def numeral_eq_Suc)
  then show ?thesis using migrations_apply_once [OF two_binaries_validated, of "[]" ?s "first_dies @ replicate 20 (Statement 1)"]
    by (simp add: Let_def)
qed

section \<open>The lock key\<close>

text \<open>The hash is the value of the name's characters as a polynomial in 31, the seed as the leading coefficient, wrapped to a signed 32-bit number.\<close>

fun hash_value :: "int \<Rightarrow> string \<Rightarrow> int" where
  "hash_value h [] = h"
| "hash_value h (c # cs) = hash_value (31 * h + of_char c) cs"

lemma hash_chars_value: "hash_chars (of_int h) cs = of_int (hash_value h cs)"
proof (induction cs arbitrary: h)
  case (Cons c cs)
  have step: "push_bit 5 (of_int h :: 32 word) - of_int h + of_nat (of_char c) = of_int (31 * h + of_char c)"
    by (simp add: push_bit_eq_mult of_nat_of_char of_int_of_char)
  show ?case unfolding hash_chars.simps step hash_value.simps by (rule Cons)
qed simp

theorem lock_key_is_wrapped_polynomial:
  "schema \<noteq> [] \<Longrightarrow> hash_schema_name schema seed = signed_take_bit 31 (hash_value seed schema)"
  by (simp add: hash_schema_name_def hash_chars_value signed_of_int)

end
