(* ===== verification/NativeTasks.thy ===== *)
theory NativeTasks
  imports Prelude
begin

text \<open>
  Which external tools a native sub-task of the agent runtime may call, and how calls are attributed to it
  (\<open>native-task-policy.ts\<close>): the checks on the declarations, the tools handed to the tasks, and the access object of one CLI
  handle, which learns from the runtime's events who started which call and runs each child's call once.

  Events and identities are untyped values (identities compare as primitives). What a tool's handler does is outside; the model
  says when it runs and for whom.
\<close>

section \<open>The lists\<close>

definition native_task_names :: "string list" where
  "native_task_names = [''swarm-explore'', ''swarm-task'']"

definition forbidden_tools :: "string list" where
  "forbidden_tools =
    [''task'', ''spawn_agent'', ''create_agent_session'', ''message_agent_session'', ''manage_agent_session'',
     ''send_session_message'', ''reply_session_message'', ''complete_agent'', ''wait'', ''ask_user'',
     ''create_session'', ''send_message'', ''send_and_wait'', ''stop_session'', ''delete_session'',
     ''restart_session'', ''fork_session'', ''write_agent'', ''manage_schedule'', ''run_factory'',
     ''factories_manage'', ''schedule'', ''cron'', ''wait_on_worker'', ''cron_at'', ''report_cycle'',
     ''set_session_model'', ''regenerate_context'', ''regenerate_agent'', ''message_agent'',
     ''wait_for_agents'', ''cancel_agent'', ''delete_agent'', ''manage_embedder'',
     ''manage_system_session_model'', ''force_terminate_session'', ''cleanup_session'',
     ''prune_orchestrations'', ''start_pod_process'', ''bash'', ''powershell'', ''view'', ''rg'', ''grep'',
     ''glob'', ''read_bash'', ''list_bash'', ''stop_bash'', ''stop_powershell'']"

definition synchronous_tools :: "string list" where
  "synchronous_tools =
    [''adopt_legacy_system_github_key'', ''bulk_store_facts'', ''canvas_kv'', ''check_agents'',
     ''context_health'', ''delete_fact'', ''diff_agent_versions'', ''draw_canvas'', ''facts_force_purge'',
     ''facts_purge_tombstones'', ''facts_read_uncrawled'', ''facts_search'', ''facts_set_crawled'',
     ''facts_similar'', ''facts_tombstone_stats'', ''find_canvas_app'', ''get_cluster_feature_flags'',
     ''get_legacy_provider_migration_status'', ''get_model_defaults'', ''get_my_feature_flags'',
     ''get_provider_defaults'', ''get_provider_status'', ''get_provider_usage'', ''get_provider_usage_agents'',
     ''get_provider_usage_grid'', ''get_provider_usage_summary'', ''get_user_feature_flags'',
     ''graph_archive_namespace'', ''graph_delete_edge'', ''graph_delete_namespace'', ''graph_delete_node'',
     ''graph_get_namespace'', ''graph_list_namespaces'', ''graph_merge_nodes'', ''graph_neighbourhood'',
     ''graph_remove_evidence'', ''graph_search_edges'', ''graph_search_nodes'', ''graph_stats'',
     ''graph_upsert_edge'', ''graph_upsert_namespace'', ''graph_upsert_node'', ''import_agent_package'',
     ''list_agent_packages'', ''list_all_sessions'', ''list_artifacts'', ''list_available_models'',
     ''list_feature_flag_changes'', ''list_feature_flag_users'', ''list_feature_flags'',
     ''list_orchestrations_by_status'', ''list_paused_sessions'', ''list_providers'', ''list_sessions'',
     ''load_skill'', ''manage_provider'', ''pin_agent_package_version'', ''propose_agent_patch'',
     ''provider_hold'', ''ps_list_agents'', ''publish_agent_package'', ''publish_canvas_app'',
     ''read_agent_events'', ''read_agent_package'', ''read_agent_package_file'', ''read_artifact'',
     ''read_canvas'', ''read_embedder_status'', ''read_execution_history'', ''read_facts'',
     ''read_facts_tombstone_stats'', ''read_fleet_graph_node_usage'', ''read_fleet_retrieval_usage'',
     ''read_fleet_skill_usage'', ''read_fleet_stats'', ''read_orchestration_stats'',
     ''read_session_facts_stats'', ''read_session_graph_edge_search_usage'', ''read_session_graph_node_usage'',
     ''read_session_graph_searches'', ''read_session_info'', ''read_session_metric_summary'',
     ''read_session_retrieval_usage'', ''read_session_skill_usage'', ''read_session_tokens_by_model'',
     ''read_session_tree_facts_stats'', ''read_session_tree_retrieval_usage'',
     ''read_session_tree_skill_usage'', ''read_session_tree_stats'', ''read_shared_facts_stats'',
     ''read_user_stats'', ''reset_cluster_feature_flag'', ''search_skills'', ''set_agent_package_enabled'',
     ''set_cluster_feature_flag'', ''set_model_default'', ''set_my_feature_flag'', ''set_provider_allowance'',
     ''set_provider_default'', ''set_provider_limit'', ''set_provider_system_use'',
     ''set_system_model_default'', ''set_user_feature_flag'', ''show_artifact'', ''show_canvas'',
     ''stage_agent_package_edit'', ''store_fact'', ''unset_my_feature_flag'', ''unset_user_feature_flag'',
     ''update_canvas'', ''write_artifact'']"

section \<open>Declarations\<close>

definition word_char :: "char \<Rightarrow> bool" where
  "word_char c \<longleftrightarrow>
     c \<in> set ''ABCDEFGHIJKLMNOPQRSTUVWXYZabcdefghijklmnopqrstuvwxyz0123456789_.-''"

text \<open>\<open>/^[\w.-]+(?:\/[\w.-]+)?$/\<close>\<close>

definition exact_tool_name :: "string \<Rightarrow> bool" where
  "exact_tool_name t \<longleftrightarrow>
     (let parts = split_on (CHR ''/'') t
      in length parts \<le> 2 \<and> list_all (\<lambda>p. p \<noteq> [] \<and> list_all word_char p) parts)"

datatype declaration_error = Not_a_mapping | Unknown_task string | Not_exact_names string | Prohibited_tool string

definition prohibited :: "string \<Rightarrow> bool" where
  "prohibited t \<longleftrightarrow> t \<in> set forbidden_tools \<or> last (split_on (CHR ''/'') t) \<in> set forbidden_tools"

fun validate_tasks :: "(string \<times> jsval) list \<Rightarrow> declaration_error option" where
  "validate_tasks [] = None"
| "validate_tasks ((task, tools) # rest) =
     (if task \<notin> set native_task_names then Some (Unknown_task task)
      else case tools of
        JArr ts \<Rightarrow>
          if list_ex (\<lambda>t. case as_string t of None \<Rightarrow> True | Some n \<Rightarrow> \<not> exact_tool_name n) ts then Some (Not_exact_names task)
          else if list_ex (\<lambda>t. case as_string t of None \<Rightarrow> False | Some n \<Rightarrow> prohibited n) ts then Some (Prohibited_tool task)
          else validate_tasks rest
      | _ \<Rightarrow> Some (Not_exact_names task))"

definition validate_native_task_tools :: "jsval \<Rightarrow> declaration_error option" where
  "validate_native_task_tools v = (case v of JObj kvs \<Rightarrow> validate_tasks kvs | _ \<Rightarrow> Some Not_a_mapping)"

section \<open>The tools of a task\<close>

text \<open>An MCP entry \<open>server/tool\<close> is granted when the parent's configuration of the server lists the tool or all.\<close>

definition mcp_grants :: "(string \<times> jsval) list \<Rightarrow> string \<Rightarrow> string \<Rightarrow> bool" where
  "mcp_grants mcp server tool \<longleftrightarrow>
     (case map_of mcp server of
        None \<Rightarrow> False
      | Some config \<Rightarrow>
          truthy config \<and>
          (case jget ''tools'' config of
             JArr ts \<Rightarrow> JStr ''*'' \<in> set ts \<or> JStr tool \<in> set ts
           | _ \<Rightarrow> False))"

definition grants :: "string list \<Rightarrow> string list \<Rightarrow> (string \<times> jsval) list \<Rightarrow> string \<Rightarrow> bool" where
  "grants available reserved mcp name \<longleftrightarrow>
     (if CHR ''/'' \<notin> set name
      then name \<in> set available \<and> (name \<notin> set reserved \<or> name \<in> set synchronous_tools)
      else mcp_grants mcp (split_on (CHR ''/'') name ! 0) (split_on (CHR ''/'') name ! 1))"

definition declared_tools :: "jsval \<Rightarrow> string \<Rightarrow> string list" where
  "declared_tools declarations task =
     (case jget task declarations of JArr ts \<Rightarrow> List.map_filter as_string ts | _ \<Rightarrow> [])"

definition task_tools :: "jsval \<Rightarrow> string list \<Rightarrow> string list \<Rightarrow> (string \<times> jsval) list \<Rightarrow> string \<Rightarrow> string list" where
  "task_tools declarations available reserved mcp task =
     (if task \<in> set native_task_names then filter (grants available reserved mcp) (declared_tools declarations task) else [])"

text \<open>The servers copied to a task, each with the tools granted of it, in the order of their first grant.\<close>

fun add_server_tool :: "string \<Rightarrow> string \<Rightarrow> (string \<times> string list) list \<Rightarrow> (string \<times> string list) list" where
  "add_server_tool server tool [] = [(server, [tool])]"
| "add_server_tool server tool ((s, ts) # rest) =
     (if s = server then (s, ts @ [tool]) # rest else (s, ts) # add_server_tool server tool rest)"

definition task_servers ::
  "jsval \<Rightarrow> string list \<Rightarrow> string list \<Rightarrow> (string \<times> jsval) list \<Rightarrow> string \<Rightarrow> (string \<times> string list) list" where
  "task_servers declarations available reserved mcp task =
     foldl (\<lambda>servers name.
        add_server_tool (split_on (CHR ''/'') name ! 0) (split_on (CHR ''/'') name ! 1) servers) []
       (filter (\<lambda>name. CHR ''/'' \<in> set name) (task_tools declarations available reserved mcp task))"

section \<open>The access object\<close>

record native_access =
  na_tools :: "string \<Rightarrow> string list"
  na_servers :: "string \<Rightarrow> (string \<times> string list) list"
  na_children :: "(jsval \<times> string) list"
  na_calls :: "(jsval \<times> jsval \<times> jsval) list"
  na_results :: "string list"

definition native_access_new ::
  "jsval \<Rightarrow> string list \<Rightarrow> string list \<Rightarrow> (string \<times> jsval) list \<Rightarrow> declaration_error + native_access" where
  "native_access_new declarations available reserved mcp =
     (case validate_native_task_tools declarations of
        Some e \<Rightarrow> Inl e
      | None \<Rightarrow> Inr \<lparr>na_tools = task_tools declarations available reserved mcp,
                     na_servers = task_servers declarations available reserved mcp,
                     na_children = [], na_calls = [], na_results = []\<rparr>)"

definition map_set :: "'k \<Rightarrow> 'v \<Rightarrow> ('k \<times> 'v) list \<Rightarrow> ('k \<times> 'v) list" where
  "map_set k v m = (k, v) # filter (\<lambda>(k', v'). k' \<noteq> k) m"

definition observe :: "jsval \<Rightarrow> native_access \<Rightarrow> native_access" where
  "observe event a =
     (let kind = jget ''type'' event; data = jget ''data'' event; agent = jget ''agentId'' event;
          call_id = jget ''toolCallId'' data
      in if kind = JStr ''tool.execution_start'' \<and> truthy call_id then
           (case map_of (na_calls a) call_id of
              Some (owner, tool) \<Rightarrow>
                if owner \<noteq> agent \<or> tool \<noteq> jget ''toolName'' data
                then a\<lparr>na_calls := map_set call_id (JStr ''unknown'', JStr []) (na_calls a)\<rparr>
                else a\<lparr>na_calls := map_set call_id (agent, jget ''toolName'' data) (na_calls a)\<rparr>
            | None \<Rightarrow> a\<lparr>na_calls := map_set call_id (agent, jget ''toolName'' data) (na_calls a)\<rparr>)
         else if kind = JStr ''subagent.started'' \<and> truthy agent \<and> \<not> truthy (jget ''parentId'' data) \<and>
                 jget ''executionMode'' data = JStr ''sync'' \<and>
                 (case jget ''agentName'' data of JStr n \<Rightarrow> n \<in> set native_task_names | _ \<Rightarrow> False)
           then a\<lparr>na_children := map_set agent (js_string (jget ''agentName'' data)) (na_children a)\<rparr>
         else if kind \<in> {JStr ''subagent.completed'', JStr ''subagent.failed''} \<and> truthy agent
           then a\<lparr>na_children := filter (\<lambda>(k, v). k \<noteq> agent) (na_children a)\<rparr>
         else if kind \<in> {JStr ''session.idle'', JStr ''session.error'', JStr ''abort''} \<and> \<not> truthy agent
           then a\<lparr>na_children := [], na_calls := [], na_results := []\<rparr>
         else a)"

definition allows :: "native_access \<Rightarrow> jsval \<Rightarrow> string \<Rightarrow> bool" where
  "allows a session tool \<longleftrightarrow>
     (case map_of (na_children a) session of None \<Rightarrow> False | Some task \<Rightarrow> tool \<in> set (na_tools a task))"

text \<open>\<open>t.replace("/", "-")\<close> replaces the first slash.\<close>

fun replace_slash :: "string \<Rightarrow> string" where
  "replace_slash [] = []"
| "replace_slash (c # cs) = (if c = CHR ''/'' then CHR ''-'' # cs else c # replace_slash cs)"

definition allows_hook :: "native_access \<Rightarrow> jsval \<Rightarrow> string \<Rightarrow> bool" where
  "allows_hook a session tool \<longleftrightarrow>
     allows a session tool \<or>
     (case map_of (na_children a) session of
        None \<Rightarrow> False
      | Some task \<Rightarrow> list_ex (\<lambda>t. CHR ''/'' \<in> set t \<and> replace_slash t = tool) (na_tools a task))"

text \<open>What an invocation comes to: rejected, run for the root, run for a child, or the child's earlier result again.\<close>

datatype invoke_end = Rejected | Ran_for_root string | Ran_for_child jsval string jsval | Shared_result

record invocation =
  iv_call_id :: jsval
  iv_session :: jsval

definition invoke :: "string \<Rightarrow> invocation \<Rightarrow> jsval \<Rightarrow> native_access \<Rightarrow> invoke_end \<times> native_access" where
  "invoke tool iv parent a =
     (let call = map_of (na_calls a) (iv_call_id iv);
          announced = (case call of None \<Rightarrow> JUndef | Some (owner, t) \<Rightarrow> owner);
          owner = (if is_nullish announced then (if iv_session iv \<noteq> parent then iv_session iv else JUndef) else announced)
      in if (case call of None \<Rightarrow> True | Some (ow, t) \<Rightarrow> t \<noteq> JStr tool) \<or> truthy owner \<and> \<not> allows a owner tool
         then (Rejected, a)
         else if \<not> truthy owner then (Ran_for_root tool, a)
         else let key = js_string owner @ '':'' @ js_string (iv_call_id iv)
              in if key \<in> set (na_results a) then (Shared_result, a)
                 else (Ran_for_child owner tool (iv_call_id iv), a\<lparr>na_results := key # na_results a\<rparr>))"

section \<open>A handle's life\<close>

datatype native_step = Event jsval | Call string invocation jsval

fun native_run :: "native_step list \<Rightarrow> native_access \<Rightarrow> invoke_end list \<times> native_access" where
  "native_run [] a = ([], a)"
| "native_run (Event e # steps) a = native_run steps (observe e a)"
| "native_run (Call tool iv parent # steps) a =
     (case invoke tool iv parent a of
        (r, a') \<Rightarrow> (case native_run steps a' of (rs, a'') \<Rightarrow> (r # rs, a'')))"

text \<open>The events that forget everything: the root session is idle, failed or aborted.\<close>

fun clears :: "native_step \<Rightarrow> bool" where
  "clears (Event e) \<longleftrightarrow>
     jget ''type'' e \<in> {JStr ''session.idle'', JStr ''session.error'', JStr ''abort''} \<and> \<not> truthy (jget ''agentId'' e)"
| "clears (Call tool iv parent) \<longleftrightarrow> False"

definition announces :: "jsval \<Rightarrow> jsval \<Rightarrow> bool" where
  "announces call_id e \<longleftrightarrow>
     jget ''type'' e = JStr ''tool.execution_start'' \<and> jget ''toolCallId'' (jget ''data'' e) = call_id \<and> truthy call_id"

lemma observe_tools [simp]: "na_tools (observe e a) = na_tools a"
  by (auto simp: observe_def Let_def split: option.splits prod.splits)

lemma observe_results: "\<not> clears (Event e) \<Longrightarrow> na_results (observe e a) = na_results a"
  by (auto simp: observe_def Let_def split: option.splits prod.splits)

lemma invoke_simps:
  assumes "invoke tool iv parent a = (r, a')"
  shows "na_tools a' = na_tools a \<and> na_calls a' = na_calls a \<and> na_children a' = na_children a \<and> set (na_results a) \<subseteq> set (na_results a')"
  using assms by (auto simp: invoke_def Let_def split: if_splits option.splits)

lemma map_of_native_set [simp]: "map_of (map_set k v m) = (map_of m)(k \<mapsto> v)"
proof -
  have "map_of (filter (\<lambda>(k', v'). k' \<noteq> k) m) x = (if x = k then None else map_of m x)" for x
    by (induction m) auto
  then show ?thesis by (auto simp: map_set_def)
qed

lemma native_run_call:
  assumes "native_run (Call tool iv parent # steps) a = (results, a')"
  shows "\<exists>r a1 rs. invoke tool iv parent a = (r, a1) \<and> native_run steps a1 = (rs, a') \<and> results = r # rs"
  using assms by (auto split: prod.splits)

lemma native_run_append:
  "native_run (xs @ ys) a = (results, c) \<Longrightarrow>
   \<exists>rs mid rs'. native_run xs a = (rs, mid) \<and> native_run ys mid = (rs', c)"
proof (induction xs a arbitrary: results rule: native_run.induct)
  case (3 tool iv parent steps a)
  obtain r a1 rs where one: "invoke tool iv parent a = (r, a1)" "native_run (steps @ ys) a1 = (rs, c)"
    using native_run_call [of tool iv parent "steps @ ys" a results c] "3.prems" by auto
  show ?case using "3.IH" [OF one(1) [symmetric] one(2)] one(1) by auto
qed auto

text \<open>What a run for a child rests on.\<close>

lemma invoke_child:
  assumes "invoke tool iv parent a = (Ran_for_child owner t call_id, a')"
  shows "t = tool \<and> call_id = iv_call_id iv \<and> allows a owner tool \<and> truthy owner \<and>
    (\<exists>announced. map_of (na_calls a) call_id = Some (announced, JStr tool) \<and>
       (announced = owner \<or> is_nullish announced \<and> owner = iv_session iv \<and> iv_session iv \<noteq> parent)) \<and>
    js_string owner @ '':'' @ js_string call_id \<notin> set (na_results a) \<and>
    na_results a' = (js_string owner @ '':'' @ js_string call_id) # na_results a"
  using assms by (auto simp: invoke_def Let_def split: if_splits option.splits)

section \<open>A worked handle\<close>

definition sample_declarations :: jsval where
  "sample_declarations = JObj [(''swarm-task'', JArr [JStr ''read_facts'', JStr ''docs/search''])]"

definition sample_mcp :: "(string \<times> jsval) list" where
  "sample_mcp = [(''docs'', JObj [(''tools'', JArr [JStr ''*''])])]"

definition child_starts :: jsval where
  "child_starts =
     JObj [(''type'', JStr ''subagent.started''), (''agentId'', JStr ''c1''),
           (''data'', JObj [(''agentName'', JStr ''swarm-task''), (''executionMode'', JStr ''sync'')])]"

definition child_call :: "string \<Rightarrow> string \<Rightarrow> string \<Rightarrow> jsval" where
  "child_call agent call_id tool =
     JObj [(''type'', JStr ''tool.execution_start''), (''agentId'', JStr agent),
           (''data'', JObj [(''toolCallId'', JStr call_id), (''toolName'', JStr tool)])]"

definition root_invocation :: "string \<Rightarrow> invocation" where
  "root_invocation call_id = \<lparr>iv_call_id = JStr call_id, iv_session = JStr ''root''\<rparr>"

definition sample_access :: native_access where
  "sample_access =
     (case native_access_new sample_declarations [''read_facts''] [] sample_mcp of
        Inr a \<Rightarrow> a
      | Inl e \<Rightarrow> \<lparr>na_tools = (\<lambda>task. []), na_servers = (\<lambda>task. []), na_children = [], na_calls = [], na_results = []\<rparr>)"

lemma sample_access_new:
  "native_access_new sample_declarations [''read_facts''] [] sample_mcp = Inr sample_access"
proof -
  have "validate_native_task_tools sample_declarations = None" by code_simp
  then show ?thesis by (simp add: sample_access_def native_access_new_def)
qed

section \<open>Children run declared tools only\<close>

lemma as_string_Some: "as_string v = Some n \<Longrightarrow> v = JStr n"
  by (cases v) simp_all

lemma validate_tasks_clean:
  "validate_tasks kvs = None \<Longrightarrow> (task, tools) \<in> set kvs \<Longrightarrow>
   task \<in> set native_task_names \<and>
   (\<exists>ts. tools = JArr ts \<and> (\<forall>t \<in> set ts. \<exists>n. t = JStr n \<and> exact_tool_name n \<and> \<not> prohibited n))"
proof (induction kvs rule: validate_tasks.induct)
  case (2 task' tools' rest)
  show ?case
    using 2 as_string_Some by (auto simp: list_ex_iff split: if_splits jsval.splits option.splits) blast+
qed simp

lemma task_tools_clean:
  assumes "validate_native_task_tools declarations = None" "t \<in> set (task_tools declarations available reserved mcp task)"
  shows "task \<in> set native_task_names \<and> t \<in> set (declared_tools declarations task) \<and> grants available reserved mcp t \<and>
    exact_tool_name t \<and> \<not> prohibited t"
proof -
  have t: "task \<in> set native_task_names" "t \<in> set (declared_tools declarations task)" "grants available reserved mcp t"
    using assms(2) by (auto simp: task_tools_def split: if_splits)
  obtain kvs where kvs: "declarations = JObj kvs" "validate_tasks kvs = None"
    using assms(1) by (auto simp: validate_native_task_tools_def split: jsval.splits)
  obtain ts where ts: "jget task declarations = JArr ts" "JStr t \<in> set ts"
    using t(2) as_string_Some by (cases "jget task declarations") (auto simp: declared_tools_def map_filter_def)
  then have "(task, JArr ts) \<in> set kvs" using kvs(1) by (auto split: option.splits dest: map_of_SomeD)
  then show ?thesis using validate_tasks_clean [OF kvs(2)] ts(2) t by fastforce
qed

lemma native_run_tools: "native_run steps a = (results, a') \<Longrightarrow> na_tools a' = na_tools a"
  by (induction steps a arbitrary: results a' rule: native_run.induct) (auto split: prod.splits dest: invoke_simps)

text \<open>
  C15. After whatever events and calls: a tool runs on behalf of a child only if the child is running a task now, the call was announced
  for that tool, and the tool is declared for that task by its exact name, is none of the prohibited ones, and is the
  parent's to give: a tool the parent has that is not reserved, or reserved and reviewed, or one its MCP server lists.
\<close>

theorem children_run_declared_tools:
  assumes "native_access_new declarations available reserved mcp = Inr a" "native_run steps a = (results, s)"
    "invoke tool iv parent s = (Ran_for_child owner t call_id, s')"
  shows "\<exists>task announced. map_of (na_children s) owner = Some task \<and> map_of (na_calls s) call_id = Some (announced, JStr t) \<and>
    t \<in> set (declared_tools declarations task) \<and> grants available reserved mcp t \<and>
    exact_tool_name t \<and> t \<notin> set forbidden_tools \<and> last (split_on (CHR ''/'') t) \<notin> set forbidden_tools"
proof -
  have valid: "validate_native_task_tools declarations = None" and tools: "na_tools s = task_tools declarations available reserved mcp"
    using assms(1) native_run_tools [OF assms(2)] by (auto simp: native_access_new_def split: option.splits)
  have run: "t = tool" "allows s owner tool" "\<exists>announced. map_of (na_calls s) call_id = Some (announced, JStr tool)"
    using invoke_child [OF assms(3)] by blast+
  then obtain task where task: "map_of (na_children s) owner = Some task" "t \<in> set (task_tools declarations available reserved mcp task)"
    using tools by (auto simp: allows_def split: option.splits)
  from task_tools_clean [OF valid task(2)] task(1) run show ?thesis by (auto simp: prohibited_def)
qed

theorem children_run_declared_tools_witness:
  "\<exists>s s'. native_run [Event child_starts, Event (child_call ''c1'' ''call-1'' ''docs/search'')] sample_access = ([], s) \<and>
     invoke ''docs/search'' (root_invocation ''call-1'') (JStr ''root'') s =
       (Ran_for_child (JStr ''c1'') ''docs/search'' (JStr ''call-1''), s') \<and>
     ''docs/search'' \<notin> set forbidden_tools"
proof -
  let ?steps = "[Event child_starts, Event (child_call ''c1'' ''call-1'' ''docs/search'')]"
  obtain results s where run: "native_run ?steps sample_access = (results, s)" by (metis surj_pair)
  have "fst (native_run ?steps sample_access) = []" by code_simp
  then have results: "results = []" using run by simp
  obtain r s' where call: "invoke ''docs/search'' (root_invocation ''call-1'') (JStr ''root'') s = (r, s')" by (metis surj_pair)
  have "fst (invoke ''docs/search'' (root_invocation ''call-1'') (JStr ''root'') (snd (native_run ?steps sample_access))) =
      Ran_for_child (JStr ''c1'') ''docs/search'' (JStr ''call-1'')" by code_simp
  then have r: "r = Ran_for_child (JStr ''c1'') ''docs/search'' (JStr ''call-1'')" using run call by simp
  from children_run_declared_tools [OF sample_access_new run call [unfolded r]] run call r results show ?thesis by blast
qed

section \<open>Each call once\<close>

fun child_key :: "invoke_end \<Rightarrow> string option" where
  "child_key (Ran_for_child owner t call_id) = Some (js_string owner @ '':'' @ js_string call_id)"
| "child_key r = None"

text \<open>
  C18. Until the root session is idle, fails or aborts, no call of a child runs its handler twice, nor one that ran before.
\<close>

theorem child_calls_run_once:
  assumes "native_run steps a = (results, a')" "\<forall>step \<in> set steps. \<not> clears step"
  shows "distinct (List.map_filter child_key results) \<and> set (List.map_filter child_key results) \<inter> set (na_results a) = {}"
  using assms
proof (induction steps a arbitrary: results a' rule: native_run.induct)
  case (2 e steps a)
  then show ?case using observe_results [of e a] by auto
next
  case (3 tool iv parent steps a)
  obtain r a1 rs where one: "invoke tool iv parent a = (r, a1)" "native_run steps a1 = (rs, a')" "results = r # rs"
    using native_run_call [OF "3.prems"(1)] by blast
  have rest: "distinct (List.map_filter child_key rs) \<and> set (List.map_filter child_key rs) \<inter> set (na_results a1) = {}"
    using "3.IH" [OF one(1) [symmetric] one(2)] "3.prems"(2) by simp
  have grow: "set (na_results a) \<subseteq> set (na_results a1)" using invoke_simps [OF one(1)] by blast
  show ?case
  proof (cases "child_key r")
    case None
    then show ?thesis using rest grow one(3) by (auto simp: map_filter_def)
  next
    case (Some key)
    then obtain owner t call_id where r: "r = Ran_for_child owner t call_id" "key = js_string owner @ '':'' @ js_string call_id"
      by (cases r) auto
    have "key \<notin> set (na_results a)" "na_results a1 = key # na_results a"
      using invoke_child [of tool iv parent a owner t call_id a1] one(1) r by auto
    then show ?thesis using rest one(3) Some by (auto simp: map_filter_def)
  qed
qed (simp add: map_filter_def)

text \<open>The request arrives twice: the tool runs once, the second invocation shares its result.\<close>

definition called_twice :: "native_step list" where
  "called_twice =
     [Event child_starts, Event (child_call ''c1'' ''call-1'' ''read_facts''),
      Call ''read_facts'' (root_invocation ''call-1'') (JStr ''root''),
      Call ''read_facts'' (root_invocation ''call-1'') (JStr ''root'')]"

theorem child_calls_run_once_witness:
  "\<exists>s. native_run called_twice sample_access = ([Ran_for_child (JStr ''c1'') ''read_facts'' (JStr ''call-1''), Shared_result], s) \<and>
     distinct (List.map_filter child_key [Ran_for_child (JStr ''c1'') ''read_facts'' (JStr ''call-1''), Shared_result])"
proof -
  obtain results s where run: "native_run called_twice sample_access = (results, s)" by (metis surj_pair)
  have "fst (native_run called_twice sample_access) = [Ran_for_child (JStr ''c1'') ''read_facts'' (JStr ''call-1''), Shared_result]"
    by code_simp
  then have results: "results = [Ran_for_child (JStr ''c1'') ''read_facts'' (JStr ''call-1''), Shared_result]" using run by simp
  have clear: "\<forall>step \<in> set called_twice. \<not> clears step" by code_simp
  from child_calls_run_once [OF run clear] run results show ?thesis by blast
qed

section \<open>A call announced twice differently\<close>

definition disputed :: "jsval \<Rightarrow> native_access \<Rightarrow> bool" where
  "disputed call_id a \<longleftrightarrow> map_of (na_calls a) call_id = Some (JStr ''unknown'', JStr [])"

lemma observe_disputed: "disputed call_id a \<Longrightarrow> \<not> clears (Event e) \<Longrightarrow> disputed call_id (observe e a)"
  by (auto simp: disputed_def observe_def Let_def split: option.splits prod.splits)

lemma native_run_disputed:
  "native_run steps a = (results, a') \<Longrightarrow> \<forall>step \<in> set steps. \<not> clears step \<Longrightarrow> disputed call_id a \<Longrightarrow> disputed call_id a'"
proof (induction steps a arbitrary: results a' rule: native_run.induct)
  case (2 e steps a)
  then show ?case using observe_disputed by auto
next
  case (3 tool iv parent steps a)
  obtain r a1 rs where one: "invoke tool iv parent a = (r, a1)" "native_run steps a1 = (rs, a')"
    using native_run_call [OF "3.prems"(1)] by blast
  have "disputed call_id a1" using invoke_simps [OF one(1)] "3.prems"(3) by (simp add: disputed_def)
  then show ?case using "3.IH" [OF one(1) [symmetric] one(2)] "3.prems"(2) by simp
qed simp

lemma observe_announced:
  "announces call_id e \<Longrightarrow> map_of (na_calls (observe e a)) call_id =
     (case map_of (na_calls a) call_id of
        None \<Rightarrow> Some (jget ''agentId'' e, jget ''toolName'' (jget ''data'' e))
      | Some (owner, tool) \<Rightarrow>
          if owner \<noteq> jget ''agentId'' e \<or> tool \<noteq> jget ''toolName'' (jget ''data'' e) then Some (JStr ''unknown'', JStr [])
          else Some (jget ''agentId'' e, jget ''toolName'' (jget ''data'' e)))"
  by (auto simp: announces_def observe_def Let_def split: option.splits prod.splits)

lemma observe_elsewhere:
  assumes "\<not> announces call_id e" "\<not> clears (Event e)"
  shows "map_of (na_calls (observe e a)) call_id = map_of (na_calls a) call_id"
proof (cases "jget ''type'' e = JStr ''tool.execution_start'' \<and> truthy (jget ''toolCallId'' (jget ''data'' e))")
  case True
  then have "jget ''toolCallId'' (jget ''data'' e) \<noteq> call_id" using assms(1) by (auto simp: announces_def)
  with True show ?thesis by (simp add: observe_def Let_def split: option.split)
next
  case False
  moreover from assms(2) have "\<not> (jget ''type'' e \<in> {JStr ''session.idle'', JStr ''session.error'', JStr ''abort''} \<and>
    \<not> truthy (jget ''agentId'' e))" by simp
  ultimately have "na_calls (observe e a) = na_calls a" by (simp only: observe_def Let_def if_False) simp
  then show ?thesis by simp
qed

lemma observe_keeps:
  assumes "\<not> clears (Event e)" "map_of (na_calls a) call_id = Some (owner, tool)"
  shows "map_of (na_calls (observe e a)) call_id = Some (owner, tool) \<or> disputed call_id (observe e a)"
proof (cases "announces call_id e")
  case True
  show ?thesis using observe_announced [OF True, of a] assms(2) by (simp add: disputed_def split: if_splits)
next
  case False
  show ?thesis using observe_elsewhere [OF False assms(1), of a] assms(2) by simp
qed

text \<open>What is known of an announced call until it is forgotten: its announcement, or that it is disputed.\<close>

lemma native_run_announced:
  "native_run steps a = (results, a') \<Longrightarrow> \<forall>step \<in> set steps. \<not> clears step \<Longrightarrow>
   map_of (na_calls a) call_id = Some (owner, tool) \<Longrightarrow>
   map_of (na_calls a') call_id = Some (owner, tool) \<or> disputed call_id a'"
proof (induction steps a arbitrary: results a' rule: native_run.induct)
  case (2 e steps a)
  have run: "native_run steps (observe e a) = (results, a')" and keep: "\<not> clears (Event e)" "\<forall>step \<in> set steps. \<not> clears step"
    using "2.prems"(1,2) by simp_all
  from observe_keeps [OF keep(1) "2.prems"(3)] show ?case
  proof
    assume "map_of (na_calls (observe e a)) call_id = Some (owner, tool)"
    then show ?thesis using "2.IH" [OF run keep(2)] by blast
  next
    assume "disputed call_id (observe e a)"
    then show ?thesis using native_run_disputed [OF run keep(2)] by blast
  qed
next
  case (3 t iv parent steps a)
  obtain r a1 rs where one: "invoke t iv parent a = (r, a1)" "native_run steps a1 = (rs, a')"
    using native_run_call [OF "3.prems"(1)] by blast
  have "map_of (na_calls a1) call_id = Some (owner, tool)" using invoke_simps [OF one(1)] "3.prems"(3) by simp
  then show ?case using "3.IH" [OF one(1) [symmetric] one(2)] "3.prems"(2) by simp
qed simp

lemma disputed_rejected: "disputed (iv_call_id iv) a \<Longrightarrow> tool \<noteq> [] \<Longrightarrow> invoke tool iv parent a = (Rejected, a)"
  by (auto simp: disputed_def invoke_def Let_def)

text \<open>
  C24. A call id that two starts announce for different agents or tools belongs to nobody: every invocation with it is rejected, the
  root's too, until the root session is idle, fails or aborts.
\<close>

theorem disputed_call_is_rejected:
  assumes "announces call_id e1" "announces call_id e2"
    "jget ''agentId'' e1 \<noteq> jget ''agentId'' e2 \<or> jget ''toolName'' (jget ''data'' e1) \<noteq> jget ''toolName'' (jget ''data'' e2)"
    "native_run (Event e1 # between @ Event e2 # later) a = (results, s)" "\<forall>step \<in> set (between @ later). \<not> clears step"
    "iv_call_id iv = call_id" "tool \<noteq> []"
  shows "invoke tool iv parent s = (Rejected, s)"
proof -
  obtain mid rs rs' where mid: "native_run between (observe e1 a) = (rs, mid)" "native_run later (observe e2 mid) = (rs', s)"
    using assms(4) native_run_append [of between "Event e2 # later" "observe e1 a" results s] by auto
  obtain owner t where at: "map_of (na_calls (observe e1 a)) call_id = Some (owner, t)"
    "(owner, t) = (jget ''agentId'' e1, jget ''toolName'' (jget ''data'' e1)) \<or> disputed call_id (observe e1 a)"
    using observe_announced [OF assms(1), of a] by (auto simp: disputed_def split: option.splits prod.splits if_splits)
  have "map_of (na_calls mid) call_id = Some (owner, t) \<or> disputed call_id mid"
    using native_run_announced [OF mid(1) _ at(1)] assms(5) by simp
  then have "disputed call_id (observe e2 mid)"
    using at assms(3) observe_announced [OF assms(2), of mid] by (auto simp: disputed_def split: if_splits)
  then have "disputed call_id s" using native_run_disputed [OF mid(2)] assms(5) by simp
  then show ?thesis using disputed_rejected assms(6,7) by blast
qed

theorem disputed_call_is_rejected_witness:
  "\<exists>s. native_run [Event child_starts, Event (child_call ''c1'' ''call-1'' ''read_facts''),
       Event (child_call ''c2'' ''call-1'' ''read_facts'')] sample_access = ([], s) \<and>
     invoke ''read_facts'' (root_invocation ''call-1'') (JStr ''root'') s = (Rejected, s)"
proof -
  let ?e1 = "child_call ''c1'' ''call-1'' ''read_facts''" and ?e2 = "child_call ''c2'' ''call-1'' ''read_facts''"
  obtain s where run: "native_run (Event ?e1 # [] @ Event ?e2 # []) (observe child_starts sample_access) = ([], s)" by simp
  have "announces (JStr ''call-1'') ?e1 \<and> announces (JStr ''call-1'') ?e2 \<and> jget ''agentId'' ?e1 \<noteq> jget ''agentId'' ?e2"
    by code_simp
  then have "invoke ''read_facts'' (root_invocation ''call-1'') (JStr ''root'') s = (Rejected, s)"
    using disputed_call_is_rejected [OF _ _ _ run, of "JStr ''call-1''" "root_invocation ''call-1''"]
    by (simp add: root_invocation_def)
  then show ?thesis using run by simp
qed

end
