(* ===== verification/PackageTar.thy ===== *)
theory PackageTar
  imports Prelude "HOL-Library.Multiset" "HOL-Library.List_Lexorder" "HOL-Library.Char_ord"
begin

text \<open>
  The archive of an agent package (\<open>agent-package-format.ts\<close>): the deterministic ustar writer, the strict reader, extraction below a
  directory, and the packing of a directory tree. A buffer is a list of bytes, and a byte is a \<open>char\<close>.

  The compressor, the hash and the file system's answers are parameters. Node decodes \<open>ascii\<close> by clearing the high bit. Paths are
  POSIX paths, and names are lists of Latin-1 characters; packing refuses those outside printable ASCII. A directory is a tree
  that does not change while it is walked.
\<close>

section \<open>Octal numbers\<close>

fun show_octal :: "nat \<Rightarrow> string" where
  "show_octal n = (if n < 8 then [digit_char n] else show_octal (n div 8) @ [digit_char (n mod 8)])"

declare show_octal.simps [simp del]

definition is_octal :: "char \<Rightarrow> bool" where
  "is_octal c \<longleftrightarrow> c \<in> set ''01234567''"

fun octal_val :: "nat \<Rightarrow> string \<Rightarrow> nat" where
  "octal_val acc [] = acc"
| "octal_val acc (c # cs) = octal_val (acc * 8 + (of_char c - 48)) cs"

text \<open>\<open>parseInt(s, 8)\<close>; none is \<open>NaN\<close>.\<close>

definition parse_octal :: "string \<Rightarrow> int option" where
  "parse_octal s =
     (let t = trim_start s;
          (negative, digits) = (case t of [] \<Rightarrow> (False, [])
            | c # r \<Rightarrow> if c = CHR ''-'' then (True, r) else if c = CHR ''+'' then (False, r) else (False, t));
          ds = takeWhile is_octal digits
      in if ds = [] then None else Some (if negative then - int (octal_val 0 ds) else int (octal_val 0 ds)))"

section \<open>Header blocks\<close>

definition tar_block :: nat where "tar_block = 512"

abbreviation NUL :: char where "NUL \<equiv> CHR 0x00"

record tar_entry =
  te_name :: string
  te_body :: "string option"
  te_mode :: nat

definition write_at :: "nat \<Rightarrow> string \<Rightarrow> string \<Rightarrow> string" where
  "write_at off bs h = take off h @ bs @ drop (off + length bs) h"

definition header_checksum :: "string \<Rightarrow> nat" where
  "header_checksum h = (\<Sum>i < tar_block. if 148 \<le> i \<and> i < 156 then 32 else of_char (h ! i))"

definition write_octal :: "nat \<Rightarrow> nat \<Rightarrow> string option" where
  "write_octal len value =
     (let text = pad_start (len - 1) (show_octal value)
      in if len - 1 < length text then None else Some (text @ [NUL]))"

text \<open>\<open>Buffer.byteLength\<close>: UTF-8 takes two bytes for the upper half of Latin-1.\<close>

definition byte_length :: "string \<Rightarrow> nat" where
  "byte_length s = sum_list (map (\<lambda>c. if of_char c < (128 :: nat) then 1 else 2) s)"

text \<open>The last slash that leaves both parts short enough; none is the error.\<close>

fun split_at_slash :: "nat \<Rightarrow> string \<Rightarrow> (string \<times> string) option" where
  "split_at_slash 0 name = None"
| "split_at_slash (Suc i) name =
     (if name ! Suc i = CHR ''/'' \<and> byte_length (drop (Suc (Suc i)) name) \<le> 100 \<and> byte_length (take (Suc i) name) \<le> 155
      then Some (take (Suc i) name, drop (Suc (Suc i)) name)
      else split_at_slash i name)"

definition split_ustar_name :: "string \<Rightarrow> (string \<times> string) option" where
  "split_ustar_name name = (if byte_length name \<le> 100 then Some ([], name) else split_at_slash (length name - 1) name)"

definition header_fields :: "string \<Rightarrow> string \<Rightarrow> bool \<Rightarrow> string \<Rightarrow> string \<Rightarrow> string \<Rightarrow> string \<Rightarrow> string" where
  "header_fields prefix name dir mode zero8 size12 zero12 =
     foldl (\<lambda>h (off, bs). write_at off bs h) (replicate tar_block NUL)
       [(0, name), (100, mode), (108, zero8), (116, zero8), (124, size12), (136, zero12), (156, if dir then ''5'' else ''0''),
        (257, ''ustar''), (262, [NUL]), (263, ''00''), (345, prefix)]"

definition with_checksum :: "string \<Rightarrow> string" where
  "with_checksum h =
     write_at 155 '' '' (write_at 154 [NUL] (write_at 148 (pad_start 6 (show_octal (header_checksum h))) h))"

definition tar_header :: "tar_entry \<Rightarrow> string option" where
  "tar_header e =
     Option.bind (split_ustar_name (te_name e)) (\<lambda>(prefix, name).
     Option.bind (write_octal 8 (te_mode e)) (\<lambda>mode.
     Option.bind (write_octal 8 0) (\<lambda>zero8.
     Option.bind (write_octal 12 (case te_body e of None \<Rightarrow> 0 | Some b \<Rightarrow> length b)) (\<lambda>size12.
     Option.bind (write_octal 12 0) (\<lambda>zero12.
       Some (with_checksum (header_fields prefix name (ends_with ''/'' (te_name e)) mode zero8 size12 zero12)))))))"

definition tar_body :: "string option \<Rightarrow> string" where
  "tar_body body =
     (case body of None \<Rightarrow> []
      | Some b \<Rightarrow> b @ (if length b mod tar_block = 0 then [] else replicate (tar_block - length b mod tar_block) NUL))"

fun tar_entries :: "tar_entry list \<Rightarrow> string option" where
  "tar_entries [] = Some []"
| "tar_entries (e # es) =
     Option.bind (tar_header e) (\<lambda>h. map_option (\<lambda>rest. h @ tar_body (te_body e) @ rest) (tar_entries es))"

definition build_tar :: "tar_entry list \<Rightarrow> string option" where
  "build_tar es = map_option (\<lambda>t. t @ replicate (tar_block * 2) NUL) (tar_entries es)"

section \<open>Reading\<close>

datatype tar_error =
    Checksum_mismatch string | Invalid_size string | Type_not_allowed string | Directory_with_body string
  | Not_relative string | Escapes_root string | Empty_segment string | Body_truncated string | Not_gzip

definition ascii_text :: "string \<Rightarrow> string" where
  "ascii_text bs = map (\<lambda>c. char_of (of_char c mod (128 :: nat))) bs"

text \<open>\<open>replace(/\0.*$/, "")\<close>: the dot does not match a line terminator.\<close>

fun strip_nul :: "string \<Rightarrow> string" where
  "strip_nul [] = []"
| "strip_nul (c # cs) =
     (if c = NUL \<and> CHR 0x0A \<notin> set cs \<and> CHR 0x0D \<notin> set cs then [] else c # strip_nul cs)"

definition header_field :: "nat \<Rightarrow> nat \<Rightarrow> string \<Rightarrow> string" where
  "header_field first stop h = ascii_text (take (stop - first) (drop first h))"

definition header_name :: "string \<Rightarrow> string" where
  "header_name h =
     (let raw = strip_nul (header_field 0 100 h); prefix = strip_nul (header_field 345 500 h)
      in if prefix = [] then raw else prefix @ ''/'' @ raw)"

definition header_size :: "string \<Rightarrow> int option" where
  "header_size h =
     (let text = trim (strip_nul (header_field 124 136 h)) in parse_octal (if text = [] then ''0'' else text))"

definition recorded_checksum :: "string \<Rightarrow> int option" where
  "recorded_checksum h =
     parse_octal (rev (dropWhile (\<lambda>c. c = NUL \<or> c = CHR '' '') (rev (header_field 148 156 h))))"

definition drive_letter :: "string \<Rightarrow> bool" where
  "drive_letter name =
     (case name of c # d # _ \<Rightarrow> d = CHR '':'' \<and> c \<in> set ''ABCDEFGHIJKLMNOPQRSTUVWXYZabcdefghijklmnopqrstuvwxyz'' | _ \<Rightarrow> False)"

definition drop_last_slash :: "string \<Rightarrow> string" where
  "drop_last_slash name = (if ends_with ''/'' name then butlast name else name)"

definition assert_safe_path :: "string \<Rightarrow> tar_error option" where
  "assert_safe_path name =
     (if name = [] \<or> starts_with ''/'' name \<or> CHR 0x5C \<in> set name \<or> drive_letter name then Some (Not_relative name)
      else let parts = split_on (CHR ''/'') name
        in if ''..'' \<in> set parts then Some (Escapes_root name)
           else if [] \<in> set parts \<and> [] \<in> set (split_on (CHR ''/'') (drop_last_slash name)) then Some (Empty_segment name)
           else None)"

text \<open>What one header comes to: an error, or the name, whether it is a directory, and the size.\<close>

definition read_header :: "string \<Rightarrow> tar_error + string \<times> bool \<times> nat" where
  "read_header h =
     (let name = header_name h; flag = h ! 156
      in if recorded_checksum h \<noteq> Some (int (header_checksum h)) then Inl (Checksum_mismatch name)
         else case header_size h of
           None \<Rightarrow> Inl (Invalid_size name)
         | Some n \<Rightarrow>
             if n < 0 then Inl (Invalid_size name)
             else if flag \<noteq> CHR ''0'' \<and> flag \<noteq> CHR ''5'' then Inl (Type_not_allowed name)
             else if flag = CHR ''5'' \<and> n \<noteq> 0 then Inl (Directory_with_body name)
             else case assert_safe_path name of
               Some e \<Rightarrow> Inl e
             | None \<Rightarrow> Inr (name, flag = CHR ''5'', nat n))"

function read_tar :: "string \<Rightarrow> tar_error + (string \<times> string) list" where
  "read_tar tar =
     (if length tar < tar_block \<or> list_all (\<lambda>c. c = NUL) (take tar_block tar) then Inr []
      else case read_header (take tar_block tar) of
        Inl e \<Rightarrow> Inl e
      | Inr (name, dir, n) \<Rightarrow>
          if dir then read_tar (drop tar_block tar)
          else if length (drop tar_block tar) < n then Inl (Body_truncated name)
          else case read_tar (drop (tar_block + (n + tar_block - 1) div tar_block * tar_block) tar) of
            Inl e \<Rightarrow> Inl e
          | Inr files \<Rightarrow> Inr ((name, take n (drop tar_block tar)) # files))"
  by pat_completeness auto
termination
  by (relation "measure length") (auto simp: tar_block_def not_less)

declare read_tar.simps [simp del]

section \<open>Lemmas on octal numbers\<close>

lemma is_octal_digit_char [simp]: "d < 8 \<Longrightarrow> is_octal (digit_char d)"
proof -
  assume "d < 8"
  then have "d \<in> {0, 1, 2, 3, 4, 5, 6, 7}" by auto
  then show ?thesis by (elim insertE) (simp_all add: is_octal_def digit_char_def char_of_def bit_Suc_0_iff)
qed

lemma octal_val_append: "octal_val acc (xs @ ys) = octal_val (octal_val acc xs) ys"
  by (induction xs arbitrary: acc) auto

lemma octal_val_show [simp]: "octal_val 0 (show_octal n) = n"
proof (induction n rule: show_octal.induct)
  case (1 n)
  show ?case
  proof (cases "n < 8")
    case True
    then show ?thesis by (simp add: show_octal.simps)
  next
    case False
    with "1.IH" have "octal_val 0 (show_octal (n div 8)) = n div 8" by simp
    with False show ?thesis by (subst show_octal.simps) (simp add: octal_val_append)
  qed
qed

lemma show_octal_digits: "list_all is_octal (show_octal n)"
proof (induction n rule: show_octal.induct)
  case (1 n)
  then show ?case by (subst show_octal.simps) simp
qed

lemma show_octal_not_Nil [simp]: "show_octal n \<noteq> []"
  by (subst show_octal.simps) simp

lemma length_show_octal: "n < 8 ^ k \<Longrightarrow> 0 < k \<Longrightarrow> length (show_octal n) \<le> k"
proof (induction n arbitrary: k rule: show_octal.induct)
  case (1 n)
  show ?case
  proof (cases "n < 8")
    case True
    then show ?thesis using "1.prems" by (simp add: show_octal.simps)
  next
    case False
    then obtain j where k: "k = Suc j" "0 < j" using "1.prems" by (cases k; cases "k = 1") auto
    then have "n div 8 < 8 ^ j" using "1.prems"(1) by (simp add: less_mult_imp_div_less mult.commute)
    then show ?thesis using "1.IH" [OF False, of j] k False by (subst show_octal.simps) simp
  qed
qed

lemma octal_val_pad [simp]: "octal_val 0 (pad_start w s) = octal_val 0 s"
proof -
  have "octal_val 0 (replicate n (CHR ''0'')) = 0" for n by (induction n) simp_all
  then show ?thesis by (simp add: pad_start_def octal_val_append)
qed

lemma pad_octal_digits: "list_all is_octal (pad_start w (show_octal n))"
proof -
  have "is_octal (CHR ''0'')" by (simp add: is_octal_def)
  then show ?thesis using show_octal_digits [of n] by (auto simp: pad_start_def list_all_iff)
qed

lemma pad_octal_not_Nil [simp]: "pad_start w (show_octal n) \<noteq> []"
  by (simp add: pad_start_def)

lemma length_pad_octal: "n < 8 ^ w \<Longrightarrow> 0 < w \<Longrightarrow> length (pad_start w (show_octal n)) = w"
  using length_show_octal [of n w] by (simp add: pad_start_def)

lemma ascii_char: "of_char c < (128 :: nat) \<Longrightarrow> char_of (of_char c mod (128 :: nat)) = c"
  by simp

lemma octal_not_blank: "is_octal c \<Longrightarrow> \<not> is_ws c \<and> c \<noteq> NUL \<and> c \<noteq> CHR '' '' \<and> c \<noteq> CHR ''-'' \<and> c \<noteq> CHR ''+'' \<and>
   of_char c < (128 :: nat) \<and> c \<noteq> CHR 0x0A \<and> c \<noteq> CHR 0x0D"
  by (auto simp: is_octal_def is_ws_def)

lemma parse_octal_digits:
  assumes "list_all is_octal s" "s \<noteq> []"
  shows "parse_octal s = Some (int (octal_val 0 s))"
proof -
  have all: "takeWhile is_octal s = s" using assms(1) by (simp add: list_all_iff)
  obtain c cs where c: "s = c # cs" "is_octal c" using assms by (cases s) auto
  then have "trim_start s = s" using octal_not_blank [of c] by (simp add: trim_start_def)
  then show ?thesis using c(1) octal_not_blank [OF c(2)] all by (simp add: parse_octal_def Let_def)
qed

section \<open>What a written header reads as\<close>

lemma length_write_at [simp]: "off + length bs \<le> length h \<Longrightarrow> length (write_at off bs h) = length h"
  by (simp add: write_at_def)

lemma nth_write_at:
  "off + length bs \<le> length h \<Longrightarrow>
   write_at off bs h ! i = (if off \<le> i \<and> i < off + length bs then bs ! (i - off) else h ! i)"
  by (auto simp: write_at_def nth_append)

lemma slice_write_same:
  "off + length bs \<le> length h \<Longrightarrow> length bs \<le> n \<Longrightarrow>
   take n (drop off (write_at off bs h)) = bs @ take (n - length bs) (drop (off + length bs) h)"
  by (simp add: write_at_def)

lemma slice_write_other:
  "off + length bs \<le> length h \<Longrightarrow> a + n \<le> off \<or> off + length bs \<le> a \<Longrightarrow>
   take n (drop a (write_at off bs h)) = take n (drop a h)"
  by (rule nth_equalityI) (auto simp: nth_write_at)

text \<open>The layout of a header whose parts fit.\<close>

definition parts_fit :: "string \<Rightarrow> string \<Rightarrow> string \<Rightarrow> string \<Rightarrow> string \<Rightarrow> string \<Rightarrow> bool" where
  "parts_fit prefix name mode zero8 size12 zero12 \<longleftrightarrow>
     length name \<le> 100 \<and> length prefix \<le> 155 \<and> length mode = 8 \<and> length zero8 = 8 \<and> length size12 = 12 \<and> length zero12 = 12"

lemma length_header_fields:
  "parts_fit prefix name mode zero8 size12 zero12 \<Longrightarrow>
   length (header_fields prefix name dir mode zero8 size12 zero12) = 512"
  by (simp add: header_fields_def parts_fit_def tar_block_def)

lemma header_fields_slices:
  fixes dir :: bool
  assumes "parts_fit prefix name mode zero8 size12 zero12"
  defines "h \<equiv> header_fields prefix name dir mode zero8 size12 zero12"
  shows "take 100 h = name @ replicate (100 - length name) NUL"
    "take 155 (drop 345 h) = prefix @ replicate (155 - length prefix) NUL"
    "take 12 (drop 124 h) = size12"
    "h ! 156 = (if dir then CHR ''5'' else CHR ''0'')"
  using assms(1)
  by (simp_all add: h_def header_fields_def parts_fit_def tar_block_def slice_write_same slice_write_other
      slice_write_same [where off = 0, simplified] slice_write_other [where a = 0, simplified] nth_write_at)

lemma header_checksum_cong:
  "(\<And>i. i < 512 \<Longrightarrow> \<not> (148 \<le> i \<and> i < 156) \<Longrightarrow> h ! i = h' ! i) \<Longrightarrow> header_checksum h = header_checksum h'"
  unfolding header_checksum_def tar_block_def by (rule sum.cong) auto

lemma header_checksum_bound: "header_checksum h < 8 ^ 6"
proof -
  have "header_checksum h \<le> (\<Sum>i < tar_block. 255)"
    unfolding header_checksum_def
  proof (rule sum_mono)
    fix i
    have "of_char (h ! i) < (256 :: nat)" by simp
    then have "of_char (h ! i) \<le> (255 :: nat)" by linarith
    then show "(if 148 \<le> i \<and> i < 156 then 32 else of_char (h ! i)) \<le> (255 :: nat)" by simp
  qed
  then show ?thesis by (simp add: tar_block_def)
qed

lemma with_checksum_slices:
  assumes "length h = 512"
  shows "length (with_checksum h) = 512"
    "a + n \<le> 148 \<or> 156 \<le> a \<Longrightarrow> take n (drop a (with_checksum h)) = take n (drop a h)"
    "\<not> (148 \<le> i \<and> i < 156) \<Longrightarrow> with_checksum h ! i = h ! i"
    "take 8 (drop 148 (with_checksum h)) = pad_start 6 (show_octal (header_checksum h)) @ [NUL, CHR '' '']"
    "header_checksum (with_checksum h) = header_checksum h"
proof -
  let ?t = "pad_start 6 (show_octal (header_checksum h))"
  have t: "length ?t = 6" by (rule length_pad_octal [OF header_checksum_bound]) simp
  show len: "length (with_checksum h) = 512" using assms t by (simp add: with_checksum_def)
  show "a + n \<le> 148 \<or> 156 \<le> a \<Longrightarrow> take n (drop a (with_checksum h)) = take n (drop a h)"
    using assms t by (auto simp: with_checksum_def slice_write_other)
  show other: "with_checksum h ! i = h ! i" if "\<not> (148 \<le> i \<and> i < 156)" for i
    using assms t that by (auto simp: with_checksum_def nth_write_at)
  show "take 8 (drop 148 (with_checksum h)) = ?t @ [NUL, CHR '' '']"
  proof (rule nth_equalityI)
    show "length (take 8 (drop 148 (with_checksum h))) = length (?t @ [NUL, CHR '' ''])" using len t by simp
  next
    fix i assume "i < length (take 8 (drop 148 (with_checksum h)))"
    then have "i < 6 \<or> i = 6 \<or> i = 7" using len by auto
    then show "take 8 (drop 148 (with_checksum h)) ! i = (?t @ [NUL, CHR '' '']) ! i"
      using assms t len by (auto simp: with_checksum_def nth_write_at nth_append)
  qed
  show "header_checksum (with_checksum h) = header_checksum h" by (rule header_checksum_cong) (rule other)
qed

section \<open>Reading back\<close>

definition printable :: "string \<Rightarrow> bool" where
  "printable s \<longleftrightarrow> list_all (\<lambda>c. 32 \<le> (of_char c :: nat) \<and> (of_char c :: nat) \<le> 126) s"

lemma printable_char:
  assumes "printable s" "c \<in> set s"
  shows "c \<noteq> NUL \<and> of_char c < (128 :: nat)"
  using assms by (auto simp: printable_def list_all_iff)

lemma ascii_text_id: "(\<And>c. c \<in> set s \<Longrightarrow> of_char c < (128 :: nat)) \<Longrightarrow> ascii_text s = s"
  unfolding ascii_text_def by (rule map_idI) simp

lemma strip_nul_pad: "NUL \<notin> set s \<Longrightarrow> strip_nul (s @ replicate n NUL) = s"
  by (induction s) (cases n; auto)+

lemma byte_length_ge: "length s \<le> byte_length s"
  unfolding byte_length_def by (induction s) auto

lemma split_at_slash_Some:
  "split_at_slash i name = Some (p, r) \<Longrightarrow> i < length name \<Longrightarrow>
   byte_length r \<le> 100 \<and> byte_length p \<le> 155 \<and> p \<noteq> [] \<and> name = p @ ''/'' @ r"
proof (induction i name rule: split_at_slash.induct)
  case (2 i name)
  show ?case
  proof (cases "name ! Suc i = CHR ''/'' \<and> byte_length (drop (Suc (Suc i)) name) \<le> 100 \<and> byte_length (take (Suc i) name) \<le> 155")
    case False
    then have "split_at_slash i name = Some (p, r)" using "2.prems"(1) by auto
    then show ?thesis using "2.IH" [OF False] "2.prems"(2) by simp
  next
    case True
    then have at: "name ! Suc i = CHR ''/''" "p = take (Suc i) name" "r = drop (Suc (Suc i)) name"
        "byte_length r \<le> 100" "byte_length p \<le> 155"
      using "2.prems"(1) by auto
    have "take (Suc i) name @ CHR ''/'' # drop (Suc (Suc i)) name = name"
      using id_take_nth_drop [OF "2.prems"(2), symmetric] unfolding at(1) .
    moreover have "take (Suc i) name \<noteq> []" using "2.prems"(2) by auto
    ultimately show ?thesis using at(2-5) by simp
  qed
qed simp

lemma split_ustar_name_Some:
  assumes "split_ustar_name name = Some (p, r)"
  shows "length r \<le> 100 \<and> length p \<le> 155 \<and> name = (if p = [] then r else p @ ''/'' @ r)"
proof (cases "byte_length name \<le> 100")
  case True
  then show ?thesis using assms byte_length_ge [of name] by (auto simp: split_ustar_name_def)
next
  case False
  then have "name \<noteq> []" by (auto simp: byte_length_def)
  then have "length name - 1 < length name" by simp
  from split_at_slash_Some [OF _ this] False assms byte_length_ge [of p] byte_length_ge [of r] show ?thesis
    by (fastforce simp: split_ustar_name_def)
qed

lemma write_octal_Some:
  assumes "write_octal w v = Some text" "1 < w"
  shows "length text = w \<and> text = pad_start (w - 1) (show_octal v) @ [NUL]"
  using assms by (auto simp: write_octal_def Let_def pad_start_def split: if_splits)

text \<open>An octal field of a header is read as the number that was written.\<close>

lemma octal_field_reads:
  "trim (strip_nul (ascii_text (pad_start w (show_octal v) @ [NUL]))) = pad_start w (show_octal v)"
proof -
  let ?t = "pad_start w (show_octal v)"
  have oct: "is_octal c" if "c \<in> set ?t" for c using pad_octal_digits [of w v] that by (auto simp: list_all_iff)
  have "ascii_text (?t @ [NUL]) = ?t @ replicate 1 NUL"
    by (rule trans [OF ascii_text_id]) (use oct octal_not_blank in auto)
  moreover have "strip_nul (?t @ replicate 1 NUL) = ?t" by (rule strip_nul_pad) (use oct octal_not_blank in blast)
  moreover have "trim ?t = ?t"
    by (rule trim_id) (use oct octal_not_blank pad_octal_not_Nil [of w v] in auto)
  ultimately show ?thesis by simp
qed

lemma checksum_field_reads:
  "parse_octal (rev (dropWhile (\<lambda>c. c = NUL \<or> c = CHR '' '') (rev (ascii_text (pad_start w (show_octal v) @ [NUL, CHR '' '']))))) = Some (int v)"
proof -
  let ?t = "pad_start w (show_octal v)"
  have oct: "is_octal c" if "c \<in> set ?t" for c using pad_octal_digits [of w v] that by (auto simp: list_all_iff)
  have field: "ascii_text (?t @ [NUL, CHR '' '']) = ?t @ [NUL, CHR '' '']"
    by (rule ascii_text_id) (use oct octal_not_blank in auto)
  have "rev ?t \<noteq> []" by simp
  then obtain c cs where "rev ?t = c # cs" by (cases "rev ?t") auto
  moreover from this have "c \<in> set ?t" by (metis list.set_intros(1) set_rev)
  ultimately have "dropWhile (\<lambda>c. c = NUL \<or> c = CHR '' '') (rev ?t) = rev ?t" using oct octal_not_blank by auto
  then have "rev (dropWhile (\<lambda>c. c = NUL \<or> c = CHR '' '') (rev (?t @ [NUL, CHR '' '']))) = ?t" by simp
  then show ?thesis using parse_octal_digits [OF pad_octal_digits, of w v] field by simp
qed

definition entry_size :: "tar_entry \<Rightarrow> nat" where
  "entry_size e = (case te_body e of None \<Rightarrow> 0 | Some b \<Rightarrow> length b)"

definition is_dir :: "tar_entry \<Rightarrow> bool" where
  "is_dir e \<longleftrightarrow> ends_with ''/'' (te_name e)"

text \<open>An entry as packing makes them: a printable name, and a body for files only.\<close>

definition good_entry :: "tar_entry \<Rightarrow> bool" where
  "good_entry e \<longleftrightarrow> printable (te_name e) \<and> (is_dir e \<longleftrightarrow> te_body e = None)"

lemma tar_header_reads:
  assumes "tar_header e = Some h" "good_entry e"
  shows "length h = 512 \<and> \<not> list_all (\<lambda>c. c = NUL) h \<and>
    read_header h = (case assert_safe_path (te_name e) of Some err \<Rightarrow> Inl err | None \<Rightarrow> Inr (te_name e, is_dir e, entry_size e))"
proof -
  obtain prefix name mode zero8 size12 zero12 where
    split: "split_ustar_name (te_name e) = Some (prefix, name)" and
    octal: "write_octal 8 (te_mode e) = Some mode" "write_octal 8 0 = Some zero8" "write_octal 12 (entry_size e) = Some size12"
      "write_octal 12 0 = Some zero12" and
    h: "h = with_checksum (header_fields prefix name (is_dir e) mode zero8 size12 zero12)"
    using assms(1) by (auto simp: tar_header_def bind_eq_Some_conv entry_size_def is_dir_def)
  let ?f = "header_fields prefix name (is_dir e) mode zero8 size12 zero12"
  note parts = split_ustar_name_Some [OF split]
  have fit: "parts_fit prefix name mode zero8 size12 zero12"
    using parts octal write_octal_Some by (simp add: parts_fit_def)
  note slices = header_fields_slices [OF fit, of "is_dir e"] and sealed = with_checksum_slices [OF length_header_fields [OF fit, of "is_dir e"]]
  have flag: "h ! 156 = (if is_dir e then CHR ''5'' else CHR ''0'')" using sealed(3) [of 156] slices(4) h by simp
  have len: "length h = 512" using sealed(1) h by simp
  then have nonzero: "\<not> list_all (\<lambda>c. c = NUL) h"
    using flag nth_mem [of 156 h] by (auto simp: list_all_iff split: if_splits)
  have chars: "c \<noteq> NUL \<and> of_char c < (128 :: nat)" if "c \<in> set name \<union> set prefix" for c
    using that parts assms(2) printable_char [of "te_name e" c] by (auto simp: good_entry_def split: if_splits)
  have reads: "strip_nul (ascii_text (s @ replicate n NUL)) = s" if "set s \<subseteq> set name \<union> set prefix" for s n
  proof -
    have "ascii_text (s @ replicate n NUL) = s @ replicate n NUL" by (rule ascii_text_id) (use that chars in auto)
    moreover have "NUL \<notin> set s" using that chars by blast
    ultimately show ?thesis by (simp add: strip_nul_pad)
  qed
  have "header_name h = te_name e"
    using sealed(2) [of 0 100] sealed(2) [of 345 155] slices(1,2) reads [of name] reads [of prefix] parts h
    by (simp add: header_name_def header_field_def Let_def)
  moreover have "header_size h = Some (int (entry_size e))"
  proof -
    have field: "header_field 124 136 h = ascii_text (pad_start 11 (show_octal (entry_size e)) @ [NUL])"
      using sealed(2) [of 124 12] slices(3) h write_octal_Some [OF octal(3)] by (simp add: header_field_def)
    show ?thesis
      unfolding header_size_def field octal_field_reads Let_def
      using parse_octal_digits [OF pad_octal_digits, of 11 "entry_size e"] by simp
  qed
  moreover have "recorded_checksum h = Some (int (header_checksum h))"
    using sealed(4,5) h by (simp add: recorded_checksum_def header_field_def checksum_field_reads)
  ultimately show ?thesis
    using len nonzero flag assms(2)
    by (auto simp: read_header_def good_entry_def Let_def entry_size_def split: option.splits)
qed

lemma tar_body_length:
  "length (tar_body (Some b)) = (length b + 512 - 1) div 512 * 512 \<and> take (length b) (tar_body (Some b)) = b"
proof -
  have "(n + 512 - 1) div 512 * 512 = n + (if n mod 512 = 0 then 0 else 512 - n mod 512)" for n :: nat
  proof (cases "n mod 512 = 0")
    case True
    then have "512 dvd n" by (simp add: dvd_eq_mod_eq_0)
    then obtain k where "n = 512 * k" by (rule dvdE)
    then show ?thesis by simp
  next
    case False
    define q r where "q = n div 512" and "r = n mod 512"
    have n: "n = q * 512 + r" "r < 512" "r \<noteq> 0" using False by (simp_all add: q_def r_def)
    have "n + 512 - 1 = (r - 1) + (q + 1) * 512" using n by simp
    moreover have "((r - 1) + (q + 1) * 512) div 512 = q + 1" using n(2) by (subst div_mult_self1) simp_all
    ultimately have "(n + 512 - 1) div 512 * 512 = q * 512 + 512" by simp
    then show ?thesis using n False by (simp add: r_def [symmetric])
  qed
  then show ?thesis by (simp add: tar_body_def tar_block_def)
qed

definition entry_files :: "tar_entry list \<Rightarrow> (string \<times> string) list" where
  "entry_files es = List.map_filter (\<lambda>e. map_option (Pair (te_name e)) (te_body e)) es"

lemma entry_files_simps [simp]:
  "entry_files [] = []"
  "entry_files (e # es) = (case te_body e of None \<Rightarrow> entry_files es | Some b \<Rightarrow> (te_name e, b) # entry_files es)"
  by (simp_all add: entry_files_def map_filter_def split: option.split)

lemma read_tar_entries:
  "tar_entries es = Some t \<Longrightarrow> list_all good_entry es \<Longrightarrow>
   read_tar (t @ replicate 1024 NUL) =
     (case find (\<lambda>e. assert_safe_path (te_name e) \<noteq> None) es of
        Some e \<Rightarrow> Inl (the (assert_safe_path (te_name e)))
      | None \<Rightarrow> Inr (entry_files es))"
proof (induction es arbitrary: t)
  case Nil
  then show ?case by (subst read_tar.simps) (simp add: tar_block_def list_all_iff)
next
  case (Cons e es)
  obtain h rest where h: "tar_header e = Some h" and rest: "tar_entries es = Some rest" and
    t: "t = h @ tar_body (te_body e) @ rest"
    using Cons.prems(1) by (auto simp: bind_eq_Some_conv)
  have good: "good_entry e" "list_all good_entry es" using Cons.prems(2) by simp_all
  have head: "length h = 512" "\<not> list_all (\<lambda>c. c = NUL) h"
    "read_header h = (case assert_safe_path (te_name e) of Some err \<Rightarrow> Inl err | None \<Rightarrow> Inr (te_name e, is_dir e, entry_size e))"
    using tar_header_reads [OF h good(1)] by blast+
  let ?z = "replicate 1024 NUL" and ?body = "tar_body (te_body e)"
  have first: "take 512 (t @ ?z) = h" "drop 512 (t @ ?z) = ?body @ rest @ ?z" "\<not> length (t @ ?z) < 512"
    using head(1) t by simp_all
  show ?case
  proof (cases "assert_safe_path (te_name e)")
    case unsafe: (Some err)
    then have "read_tar (t @ ?z) = Inl err"
      unfolding read_tar.simps [of "t @ ?z"] tar_block_def first(1) using first(3) head(2,3) by simp
    then show ?thesis using unsafe by simp
  next
    case safe: None
    have jump: "drop (512 + n) (t @ ?z) = drop n (?body @ rest @ ?z)" for n
      using first(2) by (metis add.commute drop_drop)
    have step: "read_tar (t @ ?z) =
        (if is_dir e then read_tar (?body @ rest @ ?z)
         else if length (?body @ rest @ ?z) < entry_size e then Inl (Body_truncated (te_name e))
         else case read_tar (drop ((entry_size e + 512 - 1) div 512 * 512) (?body @ rest @ ?z)) of
              Inl e \<Rightarrow> Inl e
            | Inr files \<Rightarrow> Inr ((te_name e, take (entry_size e) (?body @ rest @ ?z)) # files))"
      unfolding read_tar.simps [of "t @ ?z"] tar_block_def first(1,2) jump using first(3) head(2,3) safe by simp
    note IH = Cons.IH [OF rest good(2)]
    show ?thesis
    proof (cases "te_body e")
      case None
      then have "is_dir e" using good(1) by (simp add: good_entry_def)
      then show ?thesis using step IH None safe by (simp add: tar_body_def split: option.split)
    next
      case (Some b)
      then have plain: "\<not> is_dir e" "entry_size e = length b" using good(1) by (simp_all add: good_entry_def entry_size_def)
      have body: "length ?body = (length b + 512 - 1) div 512 * 512" "take (length b) ?body = b" "length b \<le> length ?body"
        using tar_body_length [of b] Some by (simp_all add: tar_body_def)
      have skip: "drop ((length b + 512 - 1) div 512 * 512) (?body @ rest @ ?z) = rest @ ?z" unfolding body(1) [symmetric] by simp
      have took: "take (length b) (?body @ rest @ ?z) = b" using body(2,3) by simp
      have "\<not> length (?body @ rest @ ?z) < length b" using body(3) by simp
      then have "read_tar (t @ ?z) = (case read_tar (rest @ ?z) of Inl e \<Rightarrow> Inl e | Inr files \<Rightarrow> Inr ((te_name e, b) # files))"
        unfolding step plain(2) skip took using plain(1) by simp
      then show ?thesis unfolding IH using Some safe by (simp split: option.split)
    qed
  qed
qed

section \<open>Packing a directory\<close>

datatype tree_node = File string | Folder "(string \<times> tree_node) list" | Symlink | Special

definition pack_ignores :: "string list" where
  "pack_ignores = [''.git'', ''.DS_Store'', ''.pilotswarm-meta.json'']"

text \<open>Each directory's names without the ignored ones, sorted; what \<open>readdir\<close> answers comes in any order.\<close>

primrec sort_node :: "tree_node \<Rightarrow> tree_node" where
  "sort_node (File b) = File b"
| "sort_node (Folder es) = Folder (sort_key fst (filter (\<lambda>(n, t). n \<notin> set pack_ignores) (map (map_prod id sort_node) es)))"
| "sort_node Symlink = Symlink"
| "sort_node Special = Special"

definition sorted_names :: "(string \<times> tree_node) list \<Rightarrow> (string \<times> tree_node) list" where
  "sorted_names es = sort_key fst (filter (\<lambda>(n, t). n \<notin> set pack_ignores) (map (map_prod id sort_node) es))"

datatype node_kind = Kind_file string | Kind_dir | Kind_link | Kind_special

fun kind_of :: "tree_node \<Rightarrow> node_kind" where
  "kind_of (File b) = Kind_file b"
| "kind_of (Folder es) = Kind_dir"
| "kind_of Symlink = Kind_link"
| "kind_of Special = Kind_special"

definition child_path :: "string \<Rightarrow> string \<Rightarrow> string" where
  "child_path dir name = (if dir = [] then name else dir @ ''/'' @ name)"

fun visit :: "string \<Rightarrow> (string \<times> tree_node) list \<Rightarrow> (string \<times> node_kind) list" where
  "visit dir [] = []"
| "visit dir ((name, node) # rest) =
     (child_path dir name, kind_of node) #
     (case node of Folder es \<Rightarrow> visit (child_path dir name) es | _ \<Rightarrow> []) @ visit dir rest"

record package_walk =
  pw_files :: "(string \<times> string option) list"
  pw_symlinks :: "string list"
  pw_non_ascii :: "string list"

fun walked_file :: "string \<times> node_kind \<Rightarrow> (string \<times> string option) option" where
  "walked_file (rel, Kind_file b) = Some (rel, Some b)"
| "walked_file (rel, Kind_dir) = Some (rel @ ''/'', None)"
| "walked_file (rel, k) = None"

definition walk_package_dir :: "(string \<times> tree_node) list \<Rightarrow> package_walk" where
  "walk_package_dir es =
     (let seen = visit [] (sorted_names es)
      in \<lparr>pw_files = sort_key fst (List.map_filter walked_file seen),
          pw_symlinks = map fst (filter (\<lambda>(rel, k). k = Kind_link) seen),
          pw_non_ascii = filter (\<lambda>rel. \<not> printable rel) (map fst seen)\<rparr>)"

record pack_platform =
  pp_gzip :: "string \<Rightarrow> string"
  pp_gunzip :: "nat \<Rightarrow> string \<Rightarrow> string option"
  pp_sha256 :: "string \<Rightarrow> string"

record packed_package =
  pk_targz :: string
  pk_sha256 :: string
  pk_raw_bytes :: nat
  pk_file_count :: nat

datatype pack_error = Has_symlinks "string list" | Has_non_ascii "string list" | Raw_too_large | Path_or_size_too_long | Compressed_too_large

definition max_compressed_bytes :: nat where "max_compressed_bytes = 16 * 1024 * 1024"

definition max_raw_bytes :: nat where "max_raw_bytes = 128 * 1024 * 1024"

definition max_tar_bytes :: nat where "max_tar_bytes = max_raw_bytes + 64 * 1024 * 1024"

text \<open>The running sum of the sizes; none once it passes the limit.\<close>

fun raw_bytes :: "nat \<Rightarrow> (string \<times> string option) list \<Rightarrow> nat option" where
  "raw_bytes sofar [] = Some sofar"
| "raw_bytes sofar ((rel, body) # rest) =
     (let sofar' = sofar + (case body of None \<Rightarrow> 0 | Some b \<Rightarrow> length b)
      in if max_raw_bytes < sofar' then None else raw_bytes sofar' rest)"

definition packed_entry :: "string \<times> string option \<Rightarrow> tar_entry" where
  "packed_entry f = \<lparr>te_name = fst f, te_body = snd f, te_mode = (if snd f = None then 493 else 420)\<rparr>"

definition normalize_gzip :: "string \<Rightarrow> string" where
  "normalize_gzip z = write_at 9 [CHR 0x03] (write_at 4 (replicate 4 NUL) z)"

definition pack_agent_package :: "pack_platform \<Rightarrow> (string \<times> tree_node) list \<Rightarrow> pack_error + packed_package" where
  "pack_agent_package pf es =
     (let walk = walk_package_dir es; files = pw_files walk
      in if pw_symlinks walk \<noteq> [] then Inl (Has_symlinks (pw_symlinks walk))
         else if pw_non_ascii walk \<noteq> [] then Inl (Has_non_ascii (pw_non_ascii walk))
         else case raw_bytes 0 files of
           None \<Rightarrow> Inl Raw_too_large
         | Some raw \<Rightarrow>
             (case build_tar (map packed_entry files) of
                None \<Rightarrow> Inl Path_or_size_too_long
              | Some tar \<Rightarrow>
                  let targz = normalize_gzip (pp_gzip pf tar)
                  in if max_compressed_bytes < length targz then Inl Compressed_too_large
                     else Inr \<lparr>pk_targz = targz, pk_sha256 = pp_sha256 pf tar, pk_raw_bytes = raw,
                               pk_file_count = length (filter (\<lambda>f. snd f \<noteq> None) files)\<rparr>))"

definition read_agent_package :: "pack_platform \<Rightarrow> string \<Rightarrow> tar_error + (string \<times> string) list" where
  "read_agent_package pf targz = (case pp_gunzip pf max_tar_bytes targz of None \<Rightarrow> Inl Not_gzip | Some tar \<Rightarrow> read_tar tar)"

definition agent_package_tar_sha256 :: "pack_platform \<Rightarrow> string \<Rightarrow> string option" where
  "agent_package_tar_sha256 pf targz = map_option (pp_sha256 pf) (pp_gunzip pf max_tar_bytes targz)"

section \<open>Extraction\<close>

text \<open>\<open>path.resolve(base, name)\<close> for an absolute base, given as its segments.\<close>

fun resolve_segments :: "string list \<Rightarrow> string list \<Rightarrow> string list" where
  "resolve_segments out [] = out"
| "resolve_segments out (seg # segs) =
     (if seg = [] \<or> seg = ''.'' then resolve_segments out segs
      else if seg = ''..'' then resolve_segments (butlast out) segs
      else resolve_segments (out @ [seg]) segs)"

definition resolve_path :: "string list \<Rightarrow> string \<Rightarrow> string list" where
  "resolve_path base name =
     resolve_segments (if starts_with ''/'' name then [] else base) (split_on (CHR ''/'') name)"

definition absolute :: "string list \<Rightarrow> string" where
  "absolute segs = ''/'' @ join ''/'' segs"

datatype fs_call = Mkdir string | Write_file string string

datatype extract_end = Extracted | Unreadable tar_error | Escapes_destination string | Fs_failed fs_call

text \<open>The calls made, in order; \<open>fails\<close> says which the file system refuses, and the first refused one ends the extraction.\<close>

fun extract_entries :: "(fs_call \<Rightarrow> bool) \<Rightarrow> string list \<Rightarrow> (string \<times> string) list \<Rightarrow> fs_call list \<times> extract_end" where
  "extract_entries fails base [] = ([], Extracted)"
| "extract_entries fails base ((name, body) # rest) =
     (let segs = resolve_path base name; target = absolute segs;
          mk = Mkdir (absolute (butlast segs)); wr = Write_file target body
      in if target \<noteq> absolute base \<and> \<not> starts_with (absolute base @ ''/'') target then ([], Escapes_destination name)
         else if fails mk then ([mk], Fs_failed mk)
         else if fails wr then ([mk, wr], Fs_failed wr)
         else case extract_entries fails base rest of (calls, result) \<Rightarrow> (mk # wr # calls, result))"

definition extract_agent_package ::
  "pack_platform \<Rightarrow> (fs_call \<Rightarrow> bool) \<Rightarrow> string list \<Rightarrow> string \<Rightarrow> fs_call list \<times> extract_end" where
  "extract_agent_package pf fails base targz =
     (case read_agent_package pf targz of Inl e \<Rightarrow> ([], Unreadable e) | Inr files \<Rightarrow> extract_entries fails base files)"

section \<open>What a directory holds\<close>

definition valid_name :: "string \<Rightarrow> bool" where
  "valid_name n \<longleftrightarrow> n \<noteq> [] \<and> CHR ''/'' \<notin> set n \<and> n \<noteq> ''.'' \<and> n \<noteq> ''..''"

primrec valid_node :: "tree_node \<Rightarrow> bool" where
  "valid_node (File b) = True"
| "valid_node (Folder es) =
     (distinct (map fst es) \<and> list_all (\<lambda>(n, ok). valid_name n \<and> ok) (map (map_prod id valid_node) es))"
| "valid_node Symlink = True"
| "valid_node Special = True"

definition valid_tree :: "(string \<times> tree_node) list \<Rightarrow> bool" where
  "valid_tree es \<longleftrightarrow> distinct (map fst es) \<and> (\<forall>(n, t) \<in> set es. valid_name n \<and> valid_node t)"

lemma valid_node_Folder [simp]: "valid_node (Folder es) = valid_tree es"
  by (auto simp: valid_tree_def list_all_iff)

declare valid_node.simps(2) [simp del]

text \<open>The node at a path, none of whose segments is ignored.\<close>

fun lookup_path :: "string list \<Rightarrow> (string \<times> tree_node) list \<Rightarrow> tree_node option" where
  "lookup_path [] es = None"
| "lookup_path [n] es = map_of es n"
| "lookup_path (n # path) es = (case map_of es n of Some (Folder es') \<Rightarrow> lookup_path path es' | _ \<Rightarrow> None)"

definition kind_at :: "(string \<times> tree_node) list \<Rightarrow> string list \<Rightarrow> node_kind option" where
  "kind_at es path = (if set path \<inter> set pack_ignores = {} then map_option kind_of (lookup_path path es) else None)"

lemma sort_node_Folder [simp]: "sort_node (Folder es) = Folder (sorted_names es)"
  by (simp add: sorted_names_def)

declare sort_node.simps(2) [simp del]

lemma kind_of_sort_node [simp]: "kind_of (sort_node t) = kind_of t"
  by (cases t) simp_all

lemma sorted_names_set: "set (sorted_names es) = {(n, sort_node t) | n t. (n, t) \<in> set es \<and> n \<notin> set pack_ignores}"
  by (force simp: sorted_names_def)

lemma sorted_names_distinct: "distinct (map fst es) \<Longrightarrow> distinct (map fst (sorted_names es))"
proof -
  assume "distinct (map fst es)"
  then have "distinct (map fst (map (map_prod id sort_node) es))" by (simp add: comp_def)
  then have "distinct (map fst (filter (\<lambda>(n, t). n \<notin> set pack_ignores) (map (map_prod id sort_node) es)))"
    by (rule distinct_map_filter)
  then show ?thesis unfolding sorted_names_def distinct_map by simp
qed

lemma map_of_sorted_names:
  assumes "distinct (map fst es)"
  shows "map_of (sorted_names es) n = (if n \<in> set pack_ignores then None else map_option sort_node (map_of es n))"
proof -
  have "map_of (sorted_names es) n = Some t \<longleftrightarrow> n \<notin> set pack_ignores \<and> (\<exists>t'. map_of es n = Some t' \<and> t = sort_node t')" for t
    using assms sorted_names_distinct [OF assms] by (auto simp: map_of_eq_Some_iff sorted_names_set)
  then show ?thesis by (cases "map_of (sorted_names es) n"; cases "map_of es n") auto
qed

lemma valid_tree_child: "valid_tree es \<Longrightarrow> map_of es n = Some (Folder es') \<Longrightarrow> valid_tree es'"
proof -
  assume "valid_tree es" "map_of es n = Some (Folder es')"
  then have "valid_node (Folder es')"
    by (auto simp: valid_tree_def [of es] simp del: valid_node_Folder dest!: map_of_SomeD)
  then show ?thesis by simp
qed

lemma lookup_sorted:
  "valid_tree es \<Longrightarrow> map_option kind_of (lookup_path path (sorted_names es)) = kind_at es path"
proof (induction path es rule: lookup_path.induct)
  case (2 n es)
  then show ?case by (auto simp: kind_at_def map_of_sorted_names valid_tree_def option.map_comp comp_def)
next
  case (3 n m path es)
  have dist: "distinct (map fst es)" using "3.prems" by (simp add: valid_tree_def)
  show ?case
  proof (cases "\<exists>es'. map_of es n = Some (Folder es')")
    case True
    then obtain es' where es': "map_of es n = Some (Folder es')" ..
    then have "valid_tree es'" by (rule valid_tree_child [OF "3.prems"])
    then have "map_option kind_of (lookup_path (m # path) (sorted_names es')) = kind_at es' (m # path)"
      using "3.IH" [OF es'] by simp
    then show ?thesis using es'
      by (cases "lookup_path (m # path) (sorted_names es')")
        (auto simp: kind_at_def map_of_sorted_names [OF dist] split: if_splits)
  next
    case False
    then show ?thesis
      by (auto simp: kind_at_def map_of_sorted_names [OF dist] split: option.splits tree_node.splits)
  qed
qed (simp add: kind_at_def)

text \<open>The visit in terms of paths.\<close>

definition path_text :: "string \<Rightarrow> string list \<Rightarrow> string" where
  "path_text dir path = child_path dir (join ''/'' path)"

lemma path_text_Cons: "name \<noteq> [] \<Longrightarrow> path \<noteq> [] \<Longrightarrow> path_text (child_path dir name) path = path_text dir (name # path)"
  by (cases path) (auto simp: path_text_def child_path_def)

lemma valid_sort_node: "valid_node t \<Longrightarrow> valid_node (sort_node t)"
proof (induction t)
  case (Folder es)
  have "valid_name n \<and> valid_node t" if "(n, t) \<in> set (sorted_names es)" for n t
    using that Folder by (auto simp: sorted_names_set valid_tree_def)
  then show ?case using Folder.prems sorted_names_distinct [of es] by (auto simp: valid_tree_def)
qed simp_all

lemma valid_sorted_names: "valid_tree es \<Longrightarrow> valid_tree (sorted_names es)"
  using valid_sort_node [of "Folder es"] by simp

lemma lookup_Cons:
  "lookup_path path ((name, node) # rest) =
     (if path = [] then None
      else if hd path = name then (if tl path = [] then Some node else case node of Folder es \<Rightarrow> lookup_path (tl path) es | _ \<Rightarrow> None)
      else lookup_path path rest)"
proof (cases path)
  case (Cons n p)
  then show ?thesis by (cases p) (auto split: tree_node.split)
qed simp

lemma lookup_absent: "n \<notin> fst ` set es \<Longrightarrow> lookup_path (n # path) es = None"
proof -
  assume "n \<notin> fst ` set es"
  then have "map_of es n = None" by (simp add: map_of_eq_None_iff)
  then show ?thesis by (cases path) simp_all
qed

lemma lookup_valid: "valid_tree es \<Longrightarrow> lookup_path path es = Some node \<Longrightarrow> path \<noteq> [] \<and> (\<forall>s \<in> set path. valid_name s)"
proof (induction path es rule: lookup_path.induct)
  case (2 n es)
  then show ?case by (auto simp: valid_tree_def dest: map_of_SomeD)
next
  case (3 n m path es)
  then obtain es' where es': "map_of es n = Some (Folder es')" "lookup_path (m # path) es' = Some node"
    by (auto split: option.splits tree_node.splits)
  then have "\<forall>s \<in> set (m # path). valid_name s" using "3.IH" [OF es'(1)] valid_tree_child [OF "3.prems"(1) es'(1)] by blast
  moreover have "valid_name n" using "3.prems"(1) es'(1) by (auto simp: valid_tree_def dest: map_of_SomeD)
  ultimately show ?case by simp
qed simp

lemma visit_mem:
  "valid_tree es \<Longrightarrow> (rel, k) \<in> set (visit dir es) \<longleftrightarrow>
   (\<exists>path node. lookup_path path es = Some node \<and> rel = path_text dir path \<and> k = kind_of node)"
proof (induction dir es rule: visit.induct)
  case (1 dir)
  then show ?case by (auto elim: lookup_path.elims)
next
  case (2 dir name node rest)
  have valid: "valid_name name" "valid_tree rest" "\<And>es. node = Folder es \<Longrightarrow> valid_tree es" "name \<notin> fst ` set rest"
    using "2.prems" by (auto simp: valid_tree_def)
  have sub: "(rel, k) \<in> set (case node of Folder es \<Rightarrow> visit (child_path dir name) es | _ \<Rightarrow> []) \<longleftrightarrow>
      (\<exists>es p node'. node = Folder es \<and> lookup_path p es = Some node' \<and> rel = path_text dir (name # p) \<and> k = kind_of node')"
    using "2.IH"(1) valid(1,3) lookup_valid path_text_Cons [of name]
    by (cases node) (auto simp: valid_name_def, (metis lookup_valid)+)
  have split: "(\<exists>path node'. lookup_path path ((name, node) # rest) = Some node' \<and> Q path node') \<longleftrightarrow>
      Q [name] node \<or> (\<exists>es p node'. node = Folder es \<and> lookup_path p es = Some node' \<and> Q (name # p) node') \<or>
      (\<exists>p node'. lookup_path p rest = Some node' \<and> Q p node')" for Q
  proof
    assume "\<exists>path node'. lookup_path path ((name, node) # rest) = Some node' \<and> Q path node'"
    then obtain path node' where path: "lookup_path path ((name, node) # rest) = Some node'" "Q path node'" by blast
    then obtain n p where "path = n # p" by (cases path) auto
    with path show "Q [name] node \<or> (\<exists>es p node'. node = Folder es \<and> lookup_path p es = Some node' \<and> Q (name # p) node') \<or>
      (\<exists>p node'. lookup_path p rest = Some node' \<and> Q p node')"
      by (auto simp: lookup_Cons split: if_splits tree_node.splits)
  next
    assume "Q [name] node \<or> (\<exists>es p node'. node = Folder es \<and> lookup_path p es = Some node' \<and> Q (name # p) node') \<or>
      (\<exists>p node'. lookup_path p rest = Some node' \<and> Q p node')"
    then consider "Q [name] node" | es p node' where "node = Folder es" "lookup_path p es = Some node'" "Q (name # p) node'"
      | p node' where "lookup_path p rest = Some node'" "Q p node'" by blast
    then show "\<exists>path node'. lookup_path path ((name, node) # rest) = Some node' \<and> Q path node'"
    proof cases
      case 1
      then show ?thesis by (intro exI [of _ "[name]"]) (simp add: lookup_Cons)
    next
      case 2
      then have "p \<noteq> []" by auto
      with 2 show ?thesis by (intro exI [of _ "name # p"]) (simp add: lookup_Cons)
    next
      case 3
      then have "p \<noteq> []" "hd p \<noteq> name" using lookup_absent [OF valid(4)] by (auto, cases p, auto)
      with 3 show ?thesis by (intro exI [of _ p]) (simp add: lookup_Cons)
    qed
  qed
  show ?case
    unfolding split using sub "2.IH"(2) [OF valid(2)] by (auto simp: path_text_def)
qed

section \<open>What packing walks\<close>

lemma child_path_inj: "child_path dir a = child_path dir b \<Longrightarrow> a = b"
  by (simp add: child_path_def split: if_splits)

lemma path_text_inj:
  assumes "path_text dir p = path_text dir q" "p \<noteq> []" "q \<noteq> []" "\<forall>s \<in> set p. valid_name s" "\<forall>s \<in> set q. valid_name s"
  shows "p = q"
proof -
  have "join ''/'' p = join ''/'' q" using assms(1) child_path_inj unfolding path_text_def by blast
  then have "split_on (CHR ''/'') (join ''/'' p) = split_on (CHR ''/'') (join ''/'' q)" by simp
  then show ?thesis using assms(2-5) by (simp add: split_on_join valid_name_def)
qed

lemma visit_distinct: "valid_tree es \<Longrightarrow> distinct (map fst (visit dir es))"
proof (induction dir es rule: visit.induct)
  case (2 dir name node rest)
  have valid: "valid_name name" "valid_tree rest" "name \<notin> fst ` set rest" "\<And>es. node = Folder es \<Longrightarrow> valid_tree es"
    using "2.prems" by (auto simp: valid_tree_def)
  let ?sub = "case node of Folder es \<Rightarrow> visit (child_path dir name) es | _ \<Rightarrow> []"
  have sub: "\<exists>p. p \<noteq> [] \<and> (\<forall>s \<in> set p. valid_name s) \<and> rel = path_text dir (name # p)" if "rel \<in> fst ` set ?sub" for rel
  proof -
    obtain es k where node: "node = Folder es" "(rel, k) \<in> set (visit (child_path dir name) es)"
      using \<open>rel \<in> fst ` set ?sub\<close> by (cases node) auto
    then obtain p n where p: "lookup_path p es = Some n" "rel = path_text (child_path dir name) p"
      using visit_mem [OF valid(4)] by blast
    then show ?thesis
      using lookup_valid [OF valid(4) [OF node(1)] p(1)] path_text_Cons [of name p dir] valid(1)
      by (auto simp: valid_name_def)
  qed
  have others: "\<exists>p. p \<noteq> [] \<and> hd p \<noteq> name \<and> (\<forall>s \<in> set p. valid_name s) \<and> rel = path_text dir p" if "rel \<in> fst ` set (visit dir rest)" for rel
  proof -
    obtain p n where p: "lookup_path p rest = Some n" "rel = path_text dir p"
      using \<open>rel \<in> fst ` set (visit dir rest)\<close> visit_mem [OF valid(2)] by fastforce
    moreover have "hd p \<noteq> name" using lookup_absent [OF valid(3)] lookup_valid [OF valid(2) p(1)] p(1) by (cases p) auto
    ultimately show ?thesis using lookup_valid [OF valid(2) p(1)] by blast
  qed
  have top: "child_path dir name = path_text dir [name]" by (simp add: path_text_def)
  have "child_path dir name \<notin> fst ` set ?sub"
    using sub path_text_inj [of dir "[name]"] valid(1) unfolding top by fastforce
  moreover have "child_path dir name \<notin> fst ` set (visit dir rest)"
    using others path_text_inj [of dir "[name]"] valid(1) unfolding top by fastforce
  moreover have "fst ` set ?sub \<inter> fst ` set (visit dir rest) = {}"
  proof (rule ccontr)
    assume "fst ` set ?sub \<inter> fst ` set (visit dir rest) \<noteq> {}"
    then obtain rel where rel: "rel \<in> fst ` set ?sub" "rel \<in> fst ` set (visit dir rest)" by blast
    obtain p where p: "p \<noteq> []" "\<forall>s \<in> set p. valid_name s" "rel = path_text dir (name # p)" using sub [OF rel(1)] by blast
    obtain q where q: "q \<noteq> []" "hd q \<noteq> name" "\<forall>s \<in> set q. valid_name s" "rel = path_text dir q" using others [OF rel(2)] by blast
    have "name # p = q" by (rule path_text_inj [of dir]) (use p q valid(1) in auto)
    then show False using q(2) by auto
  qed
  moreover have "distinct (map fst ?sub)" using "2.IH"(1) valid(4) by (cases node) auto
  ultimately show ?case using "2.IH"(2) [OF valid(2)] by (auto simp: image_Un)
qed simp

text \<open>The visit of a package sees each path that is not ignored, once.\<close>

lemma package_visit_mem:
  assumes "valid_tree es"
  shows "(rel, k) \<in> set (visit [] (sorted_names es)) \<longleftrightarrow> (\<exists>path. kind_at es path = Some k \<and> rel = join ''/'' path)"
  unfolding visit_mem [OF valid_sorted_names [OF assms]] lookup_sorted [OF assms, symmetric] path_text_def child_path_def by auto

lemma kind_at_valid:
  assumes "valid_tree es" "kind_at es path = Some k"
  shows "path \<noteq> [] \<and> (\<forall>s \<in> set path. valid_name s)"
  using assms lookup_valid [OF assms(1)] by (auto simp: kind_at_def split: if_splits)

lemma join_valid:
  assumes "path \<noteq> []" "\<forall>s \<in> set path. valid_name s"
  shows "join ''/'' path \<noteq> [] \<and> hd (join ''/'' path) \<noteq> CHR ''/'' \<and> last (join ''/'' path) \<noteq> CHR ''/''"
  using assms
proof (induction path rule: induct_list012)
  case (2 x)
  then have x: "x \<noteq> []" "CHR ''/'' \<notin> set x" by (simp_all add: valid_name_def)
  then have "hd x \<noteq> CHR ''/''" "last x \<noteq> CHR ''/''" using hd_in_set [OF x(1)] last_in_set [OF x(1)] by metis+
  then show ?case using x by simp
next
  case (3 x y zs)
  have x: "x \<noteq> []" "CHR ''/'' \<notin> set x" using "3.prems"(2) by (simp_all add: valid_name_def)
  have rest: "join ''/'' (y # zs) \<noteq> [] \<and> last (join ''/'' (y # zs)) \<noteq> CHR ''/''" using "3.IH"(2) "3.prems"(2) by simp
  have "join ''/'' (x # y # zs) = x @ ''/'' @ join ''/'' (y # zs)" by simp
  moreover have "hd x \<noteq> CHR ''/''" using hd_in_set [OF x(1)] x(2) by metis
  ultimately show ?case using x(1) rest by (simp del: join.simps)
qed simp

lemma walked_file_Some:
  "walked_file (rel, k) = Some (name, body) \<longleftrightarrow>
   (\<exists>b. k = Kind_file b \<and> name = rel \<and> body = Some b) \<or> k = Kind_dir \<and> name = rel @ ''/'' \<and> body = None"
  by (cases k) auto

lemma set_of_map_filter: "set (List.map_filter f xs) = {y. \<exists>x \<in> set xs. f x = Some y}"
  by (force simp: map_filter_def)

lemma walked_file_name:
  "walked_file (rel, k) \<noteq> None \<Longrightarrow> fst (the (walked_file (rel, k))) = (if k = Kind_dir then rel @ ''/'' else rel)"
  by (cases k) simp_all

definition walked_files :: "(string \<times> tree_node) list \<Rightarrow> (string \<times> string option) list" where
  "walked_files es = List.map_filter walked_file (visit [] (sorted_names es))"

lemma walked_files_mem:
  assumes "valid_tree es"
  shows "(name, body) \<in> set (walked_files es) \<longleftrightarrow>
    (\<exists>path. (\<exists>b. kind_at es path = Some (Kind_file b) \<and> name = join ''/'' path \<and> body = Some b) \<or>
            kind_at es path = Some Kind_dir \<and> name = join ''/'' path @ ''/'' \<and> body = None)"
proof -
  have "(name, body) \<in> set (walked_files es) \<longleftrightarrow>
      (\<exists>rel k. (rel, k) \<in> set (visit [] (sorted_names es)) \<and> walked_file (rel, k) = Some (name, body))"
    by (simp add: walked_files_def set_of_map_filter Bex_def del: walked_file.simps)
  then show ?thesis unfolding package_visit_mem [OF assms] walked_file_Some by auto
qed

lemma map_filter_distinct_keys:
  assumes "distinct (map fst xs)" "\<And>x y. x \<in> set xs \<Longrightarrow> y \<in> set xs \<Longrightarrow> f x \<noteq> None \<Longrightarrow> f y \<noteq> None \<Longrightarrow>
    fst (the (f x)) = fst (the (f y)) \<Longrightarrow> fst x = fst y"
  shows "distinct (map fst (List.map_filter f xs))"
  using assms
proof (induction xs)
  case (Cons x xs)
  show ?case
  proof (cases "f x")
    case None
    then show ?thesis using Cons by (simp add: map_filter_def)
  next
    case (Some y)
    have "fst y \<notin> fst ` set (List.map_filter f xs)"
    proof
      assume "fst y \<in> fst ` set (List.map_filter f xs)"
      then obtain x' y' where x': "x' \<in> set xs" "f x' = Some y'" "fst y' = fst y" by (auto simp: set_of_map_filter)
      then have "fst x' = fst x" using Cons.prems(2) [of x' x] Some by simp
      then show False using Cons.prems(1) x'(1) by (metis distinct.simps(2) image_eqI list.set_map list.simps(9))
    qed
    moreover have "List.map_filter f (x # xs) = y # List.map_filter f xs" using Some by (simp add: map_filter_def)
    moreover have "distinct (map fst (List.map_filter f xs))"
    proof (rule Cons.IH)
      show "distinct (map fst xs)" using Cons.prems(1) by simp
      show "fst u = fst v" if "u \<in> set xs" "v \<in> set xs" "f u \<noteq> None" "f v \<noteq> None" "fst (the (f u)) = fst (the (f v))" for u v
        using Cons.prems(2) [OF _ _ that(3-5)] that(1,2) by simp
    qed
    ultimately show ?thesis by simp
  qed
qed (simp add: map_filter_def)

lemma walked_files_distinct:
  assumes "valid_tree es"
  shows "distinct (map fst (walked_files es))"
  unfolding walked_files_def
proof (rule map_filter_distinct_keys [OF visit_distinct [OF valid_sorted_names [OF assms]]])
  fix x y
  assume xy: "x \<in> set (visit [] (sorted_names es))" "y \<in> set (visit [] (sorted_names es))"
    "walked_file x \<noteq> None" "walked_file y \<noteq> None" "fst (the (walked_file x)) = fst (the (walked_file y))"
  have plain: "rel \<noteq> r @ ''/''" if seen: "(rel, k) \<in> set (visit [] (sorted_names es))" for rel k r
  proof -
    obtain path where path: "kind_at es path = Some k" "rel = join ''/'' path"
      using iffD1 [OF package_visit_mem [OF assms] seen] by (elim exE conjE)
    have "last rel \<noteq> CHR ''/''"
      unfolding path(2) using join_valid [of path] kind_at_valid [OF assms path(1)] by (elim conjE) simp
    then show ?thesis by auto
  qed
  obtain rx kx ry ky where "x = (rx, kx)" "y = (ry, ky)" by (metis surj_pair)
  then have names: "(if kx = Kind_dir then rx @ ''/'' else rx) = (if ky = Kind_dir then ry @ ''/'' else ry)"
    using xy(3-5) walked_file_name by metis
  have "rx \<noteq> ry @ ''/''" "ry \<noteq> rx @ ''/''" using plain xy(1,2) \<open>x = (rx, kx)\<close> \<open>y = (ry, ky)\<close> by blast+
  then have "rx = ry" using names by (simp split: if_splits)
  then show "fst x = fst y" using \<open>x = (rx, kx)\<close> \<open>y = (ry, ky)\<close> by simp
qed

lemma sort_key_fst_unique:
  assumes "distinct (map fst xs)" "distinct (map fst ys)" "set xs = set ys"
  shows "sort_key fst xs = sort_key fst (ys :: ('a :: linorder \<times> 'b) list)"
proof (rule sort_key_inj_key_eq)
  have "distinct xs" "distinct ys" using assms(1,2) distinct_map by blast+
  then show "mset xs = mset (sort_key fst ys)" using assms(3) set_eq_iff_mset_eq_distinct by fastforce
  show "inj_on fst (set xs)" using assms(1) distinct_map by blast
qed simp

section \<open>Same content, same package\<close>

definition package_files :: "(string \<times> tree_node) list \<Rightarrow> (string \<times> string option) list" where
  "package_files es = sort_key fst (walked_files es)"

lemma pack_agent_package_cases:
  assumes "pack_agent_package pf es = Inr p"
  shows "\<exists>raw tar. (\<forall>(rel, k) \<in> set (visit [] (sorted_names es)). k \<noteq> Kind_link \<and> printable rel) \<and>
    raw_bytes 0 (package_files es) = Some raw \<and> build_tar (map packed_entry (package_files es)) = Some tar \<and>
    length (normalize_gzip (pp_gzip pf tar)) \<le> max_compressed_bytes \<and>
    p = \<lparr>pk_targz = normalize_gzip (pp_gzip pf tar), pk_sha256 = pp_sha256 pf tar, pk_raw_bytes = raw,
         pk_file_count = length (filter (\<lambda>f. snd f \<noteq> None) (package_files es))\<rparr>"
  using assms
  by (auto simp: pack_agent_package_def walk_package_dir_def package_files_def walked_files_def Let_def filter_empty_conv
      split: if_splits option.splits)

lemma pack_agent_package_intro:
  assumes "\<forall>(rel, k) \<in> set (visit [] (sorted_names es)). k \<noteq> Kind_link \<and> printable rel"
    "raw_bytes 0 (package_files es) = Some raw" "build_tar (map packed_entry (package_files es)) = Some tar"
    "length (normalize_gzip (pp_gzip pf tar)) \<le> max_compressed_bytes"
  shows "pack_agent_package pf es = Inr \<lparr>pk_targz = normalize_gzip (pp_gzip pf tar), pk_sha256 = pp_sha256 pf tar, pk_raw_bytes = raw,
         pk_file_count = length (filter (\<lambda>f. snd f \<noteq> None) (package_files es))\<rparr>"
proof -
  have "map fst (filter (\<lambda>(rel, k). k = Kind_link) (visit [] (sorted_names es))) = []"
    "filter (\<lambda>rel. \<not> printable rel) (map fst (visit [] (sorted_names es))) = []"
    using assms(1) by (auto simp: filter_empty_conv)
  then show ?thesis
    using assms(2-4) by (simp add: pack_agent_package_def walk_package_dir_def package_files_def walked_files_def Let_def)
qed

text \<open>
  C9. Packing is canonical: of two directories with the same files, links and directories outside the ignored names, in whatever order
  their listings come, where one packs, the other packs to the same archive bytes, with the same hash and the same counts
  (\<open>packAgentPackage\<close>, \<open>walkPackageDir\<close>, \<open>buildTar\<close>).
\<close>

theorem same_content_same_package:
  assumes "valid_tree es" "valid_tree es'" "kind_at es = kind_at es'" "pack_agent_package pf es = Inr p"
  shows "pack_agent_package pf es' = Inr p"
proof -
  have seen: "set (visit [] (sorted_names es)) = set (visit [] (sorted_names es'))"
    using package_visit_mem [OF assms(1)] package_visit_mem [OF assms(2)] assms(3) by auto
  have "set (walked_files es) = set (walked_files es')"
    using walked_files_mem [OF assms(1)] walked_files_mem [OF assms(2)] assms(3) by auto
  then have "package_files es = package_files es'"
    unfolding package_files_def by (rule sort_key_fst_unique [OF walked_files_distinct [OF assms(1)] walked_files_distinct [OF assms(2)]])
  with seen show ?thesis using pack_agent_package_cases [OF assms(4)] pack_agent_package_intro [of es'] by auto
qed

section \<open>What packing makes is read back\<close>

definition readable_path :: "string \<Rightarrow> bool" where
  "readable_path rel \<longleftrightarrow> CHR 0x5C \<notin> set rel \<and> \<not> drive_letter rel"

lemma assert_safe_valid:
  assumes "path \<noteq> []" "\<forall>s \<in> set path. valid_name s" "name = join ''/'' path \<or> name = join ''/'' path @ ''/''"
  shows "assert_safe_path name = (if readable_path (join ''/'' path) then None else Some (Not_relative name))"
proof -
  let ?rel = "join ''/'' path"
  have rel: "?rel \<noteq> []" "hd ?rel \<noteq> CHR ''/''" "last ?rel \<noteq> CHR ''/''" using join_valid [OF assms(1,2)] by auto
  have parts: "split_on (CHR ''/'') ?rel = path" by (rule split_on_join) (use assms(1,2) in \<open>auto simp: valid_name_def\<close>)
  have slashed: "split_on (CHR ''/'') (?rel @ ''/'') = path @ [[]]"
  proof -
    have ends: "join ''/'' (p @ [[]]) = join ''/'' p @ ''/''" if "p \<noteq> []" for p
      using that by (induction p rule: induct_list012) simp_all
    have plain: "CHR ''/'' \<notin> set w" if w: "w \<in> set (path @ [[]])" for w
    proof (cases "w = []")
      case False
      then have "w \<in> set path" using w by simp
      then show ?thesis using bspec [OF assms(2)] unfolding valid_name_def by blast
    qed simp
    have "split_on (CHR ''/'') (join ''/'' (path @ [[]])) = path @ [[]]"
      by (rule split_on_join) (simp, erule plain)
    then show ?thesis unfolding ends [OF assms(1)] .
  qed
  have names: "''..'' \<notin> set path" "[] \<notin> set path" using assms(2) by (auto simp: valid_name_def)
  have drive: "drive_letter (?rel @ ''/'') = drive_letter ?rel"
    using rel(1) by (cases ?rel; cases "tl ?rel") (auto simp: drive_letter_def)
  have start: "\<not> starts_with ''/'' ?rel" "\<not> starts_with ''/'' (?rel @ ''/'')" using rel(1,2) by (cases ?rel; auto)+
  have drop: "drop_last_slash (?rel @ ''/'') = ?rel" by (auto simp: drop_last_slash_def ends_with_iff)
  from assms(3) show ?thesis
  proof
    assume "name = ?rel"
    then show ?thesis using rel(1) start(1) parts names by (auto simp: assert_safe_path_def readable_path_def Let_def)
  next
    assume "name = ?rel @ ''/''"
    then show ?thesis using start(2) parts slashed names drive drop by (auto simp: assert_safe_path_def readable_path_def Let_def)
  qed
qed

lemma package_files_path:
  assumes "valid_tree es" "(name, body) \<in> set (package_files es)"
  obtains path k where "kind_at es path = Some k" "path \<noteq> []" "\<forall>s \<in> set path. valid_name s"
    "name = join ''/'' path \<and> body \<noteq> None \<or> name = join ''/'' path @ ''/'' \<and> body = None"
proof -
  obtain path where path: "(\<exists>b. kind_at es path = Some (Kind_file b) \<and> name = join ''/'' path \<and> body = Some b) \<or>
            kind_at es path = Some Kind_dir \<and> name = join ''/'' path @ ''/'' \<and> body = None"
    using assms(2) walked_files_mem [OF assms(1)] by (auto simp: package_files_def)
  then obtain k where "kind_at es path = Some k" by blast
  with path show ?thesis using that kind_at_valid [OF assms(1)] by blast
qed

lemma packed_entries_good:
  assumes "valid_tree es" "\<forall>(rel, k) \<in> set (visit [] (sorted_names es)). k \<noteq> Kind_link \<and> printable rel"
  shows "list_all good_entry (map packed_entry (package_files es))"
proof -
  have "good_entry (packed_entry (name, body))" if entry: "(name, body) \<in> set (package_files es)" for name body
  proof -
    obtain path k where path: "kind_at es path = Some k" "path \<noteq> []" "\<forall>s \<in> set path. valid_name s"
      "name = join ''/'' path \<and> body \<noteq> None \<or> name = join ''/'' path @ ''/'' \<and> body = None"
      by (rule package_files_path [OF assms(1) entry])
    have "(join ''/'' path, k) \<in> set (visit [] (sorted_names es))" using path(1) package_visit_mem [OF assms(1)] by blast
    then have "printable (join ''/'' path)" using assms(2) by blast
    then have "printable name" using path(4) by (auto simp: printable_def)
    moreover have "ends_with ''/'' name \<longleftrightarrow> body = None"
      using path(4) join_valid [OF path(2,3)] by (auto simp: ends_with_iff)
    ultimately show ?thesis by (simp add: good_entry_def packed_entry_def is_dir_def)
  qed
  then show ?thesis by (auto simp: list_all_iff)
qed

definition gzip_restores :: "pack_platform \<Rightarrow> bool" where
  "gzip_restores pf \<longleftrightarrow> (\<forall>n t u. pp_gunzip pf n (normalize_gzip (pp_gzip pf t)) = Some u \<longrightarrow> u = t)"

definition listed_files :: "(string \<times> string option) list \<Rightarrow> (string \<times> string) list" where
  "listed_files fs = List.map_filter (\<lambda>(n, b). map_option (Pair n) b) fs"

lemma entry_files_packed: "entry_files (map packed_entry fs) = listed_files fs"
  by (induction fs) (auto simp: listed_files_def packed_entry_def map_filter_def split: option.split)

lemma read_packed:
  assumes "gzip_restores pf" "valid_tree es" "pack_agent_package pf es = Inr p" "pp_gunzip pf max_tar_bytes (pk_targz p) \<noteq> None"
  shows "agent_package_tar_sha256 pf (pk_targz p) = Some (pk_sha256 p) \<and>
    read_agent_package pf (pk_targz p) =
      (case find (\<lambda>f. assert_safe_path (fst f) \<noteq> None) (package_files es) of
         Some f \<Rightarrow> Inl (the (assert_safe_path (fst f)))
       | None \<Rightarrow> Inr (listed_files (package_files es)))"
proof -
  obtain raw tar where pack: "\<forall>(rel, k) \<in> set (visit [] (sorted_names es)). k \<noteq> Kind_link \<and> printable rel"
      "build_tar (map packed_entry (package_files es)) = Some tar"
      "pk_targz p = normalize_gzip (pp_gzip pf tar)" "pk_sha256 p = pp_sha256 pf tar"
    using pack_agent_package_cases [OF assms(3)] by auto
  have gz: "pp_gunzip pf max_tar_bytes (pk_targz p) = Some tar"
    using assms(1,4) pack(3) by (auto simp: gzip_restores_def)
  obtain t where t: "tar_entries (map packed_entry (package_files es)) = Some t" "tar = t @ replicate 1024 NUL"
    using pack(2) by (auto simp: build_tar_def tar_block_def)
  have "find (\<lambda>e. assert_safe_path (te_name e) \<noteq> None) (map packed_entry fs) =
      map_option packed_entry (find (\<lambda>f. assert_safe_path (fst f) \<noteq> None) fs)" for fs
    by (induction fs) (auto simp: packed_entry_def)
  then show ?thesis
    using read_tar_entries [OF t(1) packed_entries_good [OF assms(2) pack(1)]] gz t(2) pack(4) entry_files_packed
    by (simp add: read_agent_package_def agent_package_tar_sha256_def packed_entry_def option.case_eq_if option.map_sel)
qed

section \<open>Extraction below the destination\<close>

lemma resolve_segments_plain:
  "''..'' \<notin> set segs \<Longrightarrow> resolve_segments out segs = out @ filter (\<lambda>s. s \<noteq> [] \<and> s \<noteq> ''.'') segs"
  by (induction out segs rule: resolve_segments.induct) auto

lemma join_append: "xs \<noteq> [] \<Longrightarrow> ys \<noteq> [] \<Longrightarrow> join sep (xs @ ys) = join sep xs @ sep @ join sep ys"
proof (induction xs rule: induct_list012)
  case (2 x)
  then show ?case by (cases ys) simp_all
qed simp_all

lemma below_base: "base \<noteq> [] \<Longrightarrow> absolute (base @ segs) = absolute base \<or> starts_with (absolute base @ ''/'') (absolute (base @ segs))"
  by (cases "segs = []") (simp_all add: absolute_def join_append starts_with_iff)

definition plain_segments :: "string \<Rightarrow> string list" where
  "plain_segments name = filter (\<lambda>s. s \<noteq> [] \<and> s \<noteq> ''.'') (split_on (CHR ''/'') name)"

lemma resolve_safe:
  assumes "assert_safe_path name = None"
  shows "resolve_path base name = base @ plain_segments name"
proof -
  have "\<not> starts_with ''/'' name" "''..'' \<notin> set (split_on (CHR ''/'') name)"
    using assms by (auto simp: assert_safe_path_def Let_def split: if_splits)
  then show ?thesis by (simp add: resolve_path_def resolve_segments_plain plain_segments_def)
qed

lemma read_tar_safe: "read_tar tar = Inr files \<Longrightarrow> (name, body) \<in> set files \<Longrightarrow> assert_safe_path name = None"
proof (induction tar arbitrary: files rule: read_tar.induct)
  case (1 tar)
  note unfolded = "1.prems"(1) [unfolded read_tar.simps [of tar]]
  show ?case
  proof (cases "length tar < tar_block \<or> list_all (\<lambda>c. c = NUL) (take tar_block tar)")
    case True
    then show ?thesis using unfolded "1.prems"(2) by simp
  next
    case more: False
    show ?thesis
    proof (cases "read_header (take tar_block tar)")
      case (Inl e)
      then show ?thesis using unfolded more by simp
    next
      case (Inr r)
      obtain nm dir n where r: "r = (nm, dir, n)" by (cases r)
      have safe: "assert_safe_path nm = None"
        using Inr r by (auto simp: read_header_def Let_def split: if_splits option.splits)
      note IH = "1.IH" [OF more Inr r [symmetric] refl]
      show ?thesis
      proof (cases dir)
        case True
        then show ?thesis using unfolded more Inr r IH(1) "1.prems"(2) by simp
      next
        case False
        then have fits: "\<not> length (drop tar_block tar) < n"
          using unfolded more Inr r by (auto split: if_splits)
        then obtain rest where rest: "read_tar (drop (tar_block + (n + tar_block - 1) div tar_block * tar_block) tar) = Inr rest"
            "files = (nm, take n (drop tar_block tar)) # rest"
          using unfolded more Inr r False by (auto split: sum.splits)
        then show ?thesis using IH(2) [OF False fits rest(1)] "1.prems"(2) safe by auto
      qed
    qed
  qed
qed

lemma extract_entries_below:
  assumes "base \<noteq> []" "\<forall>(name, body) \<in> set files. assert_safe_path name = None" "extract_entries fails base files = (calls, result)"
  shows "(\<forall>name. result \<noteq> Escapes_destination name) \<and>
    (\<forall>dest body. Write_file dest body \<in> set calls \<longrightarrow>
       (\<exists>name. (name, body) \<in> set files \<and> dest = absolute (base @ plain_segments name)))"
  using assms(2,3)
proof (induction files arbitrary: calls result)
  case (Cons f rest)
  obtain name body where f: "f = (name, body)" by (cases f)
  then have segs: "resolve_path base name = base @ plain_segments name" using Cons.prems(1) by (simp add: resolve_safe)
  obtain calls' result' where rec: "extract_entries fails base rest = (calls', result')" by (metis surj_pair)
  have IH: "(\<forall>name. result' \<noteq> Escapes_destination name) \<and>
      (\<forall>dest body. Write_file dest body \<in> set calls' \<longrightarrow> (\<exists>name. (name, body) \<in> set rest \<and> dest = absolute (base @ plain_segments name)))"
    using Cons.IH [OF _ rec] Cons.prems(1) by simp
  let ?segs = "base @ plain_segments name"
  let ?mk = "Mkdir (absolute (butlast ?segs))" and ?wr = "Write_file (absolute ?segs) body"
  have "(calls, result) =
      (if fails ?mk then ([?mk], Fs_failed ?mk) else if fails ?wr then ([?mk, ?wr], Fs_failed ?wr) else (?mk # ?wr # calls', result'))"
    using Cons.prems(2) below_base [OF assms(1), of "plain_segments name"] unfolding f extract_entries.simps Let_def segs rec
    by (auto split: if_splits)
  then consider "calls = [?mk]" "result = Fs_failed ?mk" | "calls = [?mk, ?wr]" "result = Fs_failed ?wr"
    | "calls = ?mk # ?wr # calls'" "result = result'" by (auto split: if_splits)
  then show ?case
  proof cases
    case 2
    then show ?thesis unfolding f by auto
  next
    case 3
    then show ?thesis using IH unfolding f by (simp, blast)
  qed simp
qed simp

text \<open>
  C10. Whatever bytes are given as a package and whatever calls the file system refuses: extraction below a directory other than the
  file system's own top never gets as far as an entry that escapes, since the reader has refused it before anything is written, and
  each file is written at the destination's path followed by segments, none of them empty, a dot or two dots
  (\<open>readAgentPackageTarGz\<close>, \<open>assertSafeRelativePath\<close>, \<open>extractAgentPackageTarGz\<close>). The paths are the ones in the calls: a link
  that stands in the destination beforehand is not considered.
\<close>

theorem extraction_stays_inside:
  assumes "base \<noteq> []" "extract_agent_package pf fails base targz = (calls, result)"
  shows "(\<forall>name. result \<noteq> Escapes_destination name) \<and>
    (\<forall>dest body. Write_file dest body \<in> set calls \<longrightarrow>
       (\<exists>segs. dest = absolute (base @ segs) \<and> (\<forall>s \<in> set segs. s \<noteq> [] \<and> s \<noteq> ''.'' \<and> s \<noteq> ''..'' \<and> CHR ''/'' \<notin> set s)))"
proof (cases "read_agent_package pf targz")
  case (Inl e)
  then show ?thesis using assms(2) by (auto simp: extract_agent_package_def)
next
  case (Inr files)
  have safe: "\<forall>(name, body) \<in> set files. assert_safe_path name = None"
    using Inr read_tar_safe by (auto simp: read_agent_package_def split: option.splits)
  have run: "extract_entries fails base files = (calls, result)" using assms(2) Inr by (simp add: extract_agent_package_def)
  note below = extract_entries_below [OF assms(1) safe run]
  have "\<forall>s \<in> set (plain_segments name). s \<noteq> [] \<and> s \<noteq> ''.'' \<and> s \<noteq> ''..'' \<and> CHR ''/'' \<notin> set s" if "(name, body) \<in> set files" for name body
    using bspec [OF safe that] split_on_no_sep_parts
    by (auto simp: plain_segments_def assert_safe_path_def Let_def split: if_splits)
  then show ?thesis using below by blast
qed

section \<open>The unpacked directory is the packed one\<close>

lemma listed_files_mem:
  assumes "valid_tree es"
  shows "(name, body) \<in> set (listed_files (package_files es)) \<longleftrightarrow>
    (\<exists>path. kind_at es path = Some (Kind_file body) \<and> name = join ''/'' path)"
proof -
  have "(name, body) \<in> set (listed_files (package_files es)) \<longleftrightarrow> (name, Some body) \<in> set (walked_files es)"
    by (force simp: listed_files_def set_of_map_filter package_files_def)
  then show ?thesis using walked_files_mem [OF assms, of name "Some body"] by simp
qed

lemma plain_segments_join:
  assumes "path \<noteq> []" "\<forall>s \<in> set path. valid_name s"
  shows "plain_segments (join ''/'' path) = path"
proof -
  have "split_on (CHR ''/'') (join ''/'' path) = path" by (rule split_on_join) (use assms in \<open>auto simp: valid_name_def\<close>)
  then show ?thesis using assms(2) by (auto simp: plain_segments_def valid_name_def filter_id_conv)
qed

lemma extract_entries_all:
  assumes "base \<noteq> []"
  shows "\<forall>(name, body) \<in> set files. assert_safe_path name = None \<Longrightarrow>
    \<exists>calls. extract_entries (\<lambda>_. False) base files = (calls, Extracted) \<and>
      (\<forall>dest body. Write_file dest body \<in> set calls \<longleftrightarrow> (\<exists>name. (name, body) \<in> set files \<and> dest = absolute (base @ plain_segments name)))"
proof (induction files)
  case (Cons f files)
  obtain name body where f: "f = (name, body)" by (cases f)
  then have segs: "resolve_path base name = base @ plain_segments name" using Cons.prems by (simp add: resolve_safe)
  obtain calls where "extract_entries (\<lambda>_. False) base files = (calls, Extracted)"
      "\<And>dest body. Write_file dest body \<in> set calls \<longleftrightarrow> (\<exists>name. (name, body) \<in> set files \<and> dest = absolute (base @ plain_segments name))"
    using Cons by auto
  then show ?case using below_base [OF assms, of "plain_segments name"] f segs by (auto simp: Let_def)
qed simp

text \<open>
  C8. What is unpacked is what was packed: for a directory that packs, none of whose paths has a backslash or begins with a drive letter
  (the reader refuses those), and whose archive fits the reader's limit, extraction to a file system that refuses nothing writes the
  directory's files that are not ignored, each with its bytes at its path, and no other; and the hash computed from the package is
  the one recorded at packing (\<open>packAgentPackage\<close>, \<open>readAgentPackageTarGz\<close>, \<open>extractAgentPackageTarGz\<close>,
  \<open>agentPackageTarSha256\<close>). Decompression is assumed to give back what was compressed.
\<close>

theorem unpacked_is_packed:
  assumes "gzip_restores pf" "valid_tree es" "pack_agent_package pf es = Inr p"
    "pp_gunzip pf max_tar_bytes (pk_targz p) \<noteq> None" "\<forall>path k. kind_at es path = Some k \<longrightarrow> readable_path (join ''/'' path)"
    "base \<noteq> []"
  shows "\<exists>calls. extract_agent_package pf (\<lambda>_. False) base (pk_targz p) = (calls, Extracted) \<and>
    (\<forall>dest body. Write_file dest body \<in> set calls \<longleftrightarrow>
       (\<exists>path. kind_at es path = Some (Kind_file body) \<and> dest = absolute (base @ path))) \<and>
    agent_package_tar_sha256 pf (pk_targz p) = Some (pk_sha256 p)"
proof -
  have safe: "assert_safe_path name = None" if entry: "(name, body) \<in> set (package_files es)" for name body
  proof -
    obtain path k where path: "kind_at es path = Some k" "path \<noteq> []" "\<forall>s \<in> set path. valid_name s"
      "name = join ''/'' path \<and> body \<noteq> None \<or> name = join ''/'' path @ ''/'' \<and> body = None"
      by (rule package_files_path [OF assms(2) entry])
    then show ?thesis using assert_safe_valid [OF path(2,3), of name] assms(5) by auto
  qed
  then have "find (\<lambda>f. assert_safe_path (fst f) \<noteq> None) (package_files es) = None" by (auto simp: find_None_iff)
  then have read: "read_agent_package pf (pk_targz p) = Inr (listed_files (package_files es))"
      "agent_package_tar_sha256 pf (pk_targz p) = Some (pk_sha256 p)"
    using read_packed [OF assms(1-4)] by simp_all
  have "\<forall>(name, body) \<in> set (listed_files (package_files es)). assert_safe_path name = None"
    using safe by (auto simp: listed_files_def set_of_map_filter)
  from extract_entries_all [OF assms(6) this] obtain calls where calls:
    "extract_entries (\<lambda>_. False) base (listed_files (package_files es)) = (calls, Extracted)"
    "\<forall>dest body. Write_file dest body \<in> set calls \<longleftrightarrow>
       (\<exists>name. (name, body) \<in> set (listed_files (package_files es)) \<and> dest = absolute (base @ plain_segments name))" by blast
  have "(\<exists>name. (name, body) \<in> set (listed_files (package_files es)) \<and> dest = absolute (base @ plain_segments name)) \<longleftrightarrow>
      (\<exists>path. kind_at es path = Some (Kind_file body) \<and> dest = absolute (base @ path))" for dest body
    unfolding listed_files_mem [OF assms(2)] using plain_segments_join kind_at_valid [OF assms(2)] by metis
  then show ?thesis using calls read by (simp add: extract_agent_package_def)
qed

text \<open>
  Packing refuses links and characters outside printable ASCII, and nothing else about names: a directory with a backslash or a
  drive letter in a path packs as well, and the package that is published cannot be read by anybody.
\<close>

theorem unreadable_name_is_packed:
  assumes "gzip_restores pf" "valid_tree es" "pack_agent_package pf es = Inr p"
    "pp_gunzip pf max_tar_bytes (pk_targz p) \<noteq> None" "kind_at es path = Some k" "\<not> readable_path (join ''/'' path)" "k \<noteq> Kind_special"
  shows "\<exists>name. read_agent_package pf (pk_targz p) = Inl (Not_relative name)"
proof -
  obtain raw tar where seen: "\<forall>(rel, k) \<in> set (visit [] (sorted_names es)). k \<noteq> Kind_link \<and> printable rel"
    using pack_agent_package_cases [OF assms(3)] by blast
  note valid = kind_at_valid [OF assms(2,5)]
  have "(join ''/'' path, k) \<in> set (visit [] (sorted_names es))" using assms(5) package_visit_mem [OF assms(2)] by blast
  then have "k \<noteq> Kind_link" using seen by blast
  then obtain name body where entry: "(name, body) \<in> set (package_files es)" "name = join ''/'' path \<or> name = join ''/'' path @ ''/''"
    using assms(5,7) walked_files_mem [OF assms(2)] by (cases k) (auto simp: package_files_def)
  then have "assert_safe_path (fst (name, body)) \<noteq> None" using assert_safe_valid valid assms(6) by auto
  then have "find (\<lambda>f. assert_safe_path (fst f) \<noteq> None) (package_files es) \<noteq> None" using entry(1) unfolding find_None_iff by blast
  then obtain f where f: "find (\<lambda>f. assert_safe_path (fst f) \<noteq> None) (package_files es) = Some f" by (meson not_None_eq)
  then have mem: "f \<in> set (package_files es)" "assert_safe_path (fst f) \<noteq> None" by (auto simp: find_Some_iff)
  obtain p' k' where p': "p' \<noteq> []" "\<forall>s \<in> set p'. valid_name s" "fst f = join ''/'' p' \<or> fst f = join ''/'' p' @ ''/''"
    using package_files_path [OF assms(2), of "fst f" "snd f"] mem(1) by (metis prod.collapse)
  then have "assert_safe_path (fst f) = Some (Not_relative (fst f))" using assert_safe_valid [of p' "fst f"] mem(2) by (auto split: if_splits)
  then show ?thesis using read_packed [OF assms(1-4)] f by simp
qed

section \<open>Worked packages\<close>

text \<open>A platform that stores instead of compressing, and packages of a few short files.\<close>

definition stored :: pack_platform where
  "stored = \<lparr>pp_gzip = (\<lambda>t. replicate 10 NUL @ t),
     pp_gunzip = (\<lambda>n z. if length z \<le> n + 10 then Some (drop 10 z) else None),
     pp_sha256 = take 32\<rparr>"

lemma stored_gunzip: "pp_gunzip stored n (normalize_gzip (pp_gzip stored t)) = (if length t \<le> n then Some t else None)"
  by (simp add: stored_def normalize_gzip_def write_at_def)

lemma stored_restores: "gzip_restores stored"
  by (simp add: gzip_restores_def stored_gunzip)

lemma write_octal_fits: "v < 8 ^ (w - 1) \<Longrightarrow> 1 < w \<Longrightarrow> write_octal w v \<noteq> None"
  using length_pad_octal [of v "w - 1"] by (simp add: write_octal_def Let_def)

lemma tar_entries_fit:
  "list_all (\<lambda>e. good_entry e \<and> byte_length (te_name e) \<le> 100 \<and> te_mode e < 8 ^ 7 \<and> entry_size e \<le> 512) es \<Longrightarrow>
   \<exists>t. tar_entries es = Some t \<and> length t \<le> 1024 * length es"
proof (induction es)
  case (Cons e es)
  then have e: "good_entry e" "byte_length (te_name e) \<le> 100" "te_mode e < 8 ^ 7" "entry_size e \<le> 512" by simp_all
  obtain t where t: "tar_entries es = Some t" "length t \<le> 1024 * length es" using Cons by auto
  have "tar_header e \<noteq> None"
    using e write_octal_fits [of "te_mode e" 8] write_octal_fits [of 0 8] write_octal_fits [of 0 12] write_octal_fits [of "entry_size e" 12]
    by (auto simp: tar_header_def split_ustar_name_def entry_size_def)
  then obtain h where h: "tar_header e = Some h" by blast
  have "length (tar_body (te_body e)) \<le> 512"
    using e(4) tar_body_length by (auto simp: entry_size_def tar_body_def tar_block_def split: option.splits)
  then show ?case using h t tar_header_reads [OF h e(1)] by simp
qed simp

lemma small_package_packs:
  assumes "valid_tree es" "list_all (\<lambda>(rel, k). k \<noteq> Kind_link \<and> printable rel) (visit [] (sorted_names es))"
    "list_all (\<lambda>(n, b). byte_length n \<le> 100 \<and> length (coalesce b []) \<le> 512) (package_files es)" "length (package_files es) \<le> 100"
    "raw_bytes 0 (package_files es) \<noteq> None"
  shows "\<exists>p. pack_agent_package stored es = Inr p \<and> pp_gunzip stored max_tar_bytes (pk_targz p) \<noteq> None"
proof -
  have seen: "\<forall>(rel, k) \<in> set (visit [] (sorted_names es)). k \<noteq> Kind_link \<and> printable rel" using assms(2) by (simp add: list_all_iff)
  let ?es = "map packed_entry (package_files es)"
  have "list_all (\<lambda>e. good_entry e \<and> byte_length (te_name e) \<le> 100 \<and> te_mode e < 8 ^ 7 \<and> entry_size e \<le> 512) ?es"
    using assms(3) packed_entries_good [OF assms(1) seen]
    by (auto simp: list_all_iff packed_entry_def entry_size_def coalesce_eq split: option.splits)
  then obtain t where t: "tar_entries ?es = Some t" "length t \<le> 1024 * length (package_files es)" using tar_entries_fit by force
  let ?tar = "t @ replicate 1024 NUL"
  have tar: "build_tar ?es = Some ?tar" "length ?tar \<le> 200000" using t assms(4) by (simp_all add: build_tar_def tar_block_def)
  obtain raw where raw: "raw_bytes 0 (package_files es) = Some raw" using assms(5) by blast
  have "length (normalize_gzip (pp_gzip stored ?tar)) \<le> max_compressed_bytes"
    using tar(2) by (simp add: stored_def normalize_gzip_def write_at_def max_compressed_bytes_def)
  from pack_agent_package_intro [OF seen raw tar(1) this] show ?thesis
    using tar(2) by (simp add: stored_gunzip max_tar_bytes_def max_raw_bytes_def)
qed

lemma small_raw_bytes_from:
  "sofar + sum_list (map (\<lambda>f. length (coalesce (snd f) [])) fs) \<le> max_raw_bytes \<Longrightarrow> raw_bytes sofar fs \<noteq> None"
proof (induction sofar fs rule: raw_bytes.induct)
  case (2 sofar rel body rest)
  then show ?case by (cases body) (simp_all add: Let_def)
qed simp

lemma small_raw_bytes:
  assumes "map (\<lambda>(n, b). (n, length (coalesce b []))) fs = sizes" "sum_list (map snd sizes) \<le> max_raw_bytes"
  shows "raw_bytes 0 fs \<noteq> None"
proof -
  have "map snd sizes = map (\<lambda>f. length (coalesce (snd f) [])) fs" unfolding assms(1) [symmetric] by (simp add: case_prod_beta)
  then show ?thesis using small_raw_bytes_from [of 0 fs] assms(2) by simp
qed

definition sample_package :: "(string \<times> tree_node) list" where
  "sample_package =
     [(''plugin.json'', File ''{}''), (''.git'', Folder [(''HEAD'', File ''x'')]), (''agents'', Folder [(''a.agent.md'', File ''hi'')])]"

lemma sample_package_valid: "valid_tree sample_package"
  by (simp add: valid_tree_def sample_package_def valid_name_def)

lemma sample_packs: "\<exists>p. pack_agent_package stored sample_package = Inr p \<and> pp_gunzip stored max_tar_bytes (pk_targz p) \<noteq> None"
proof (rule small_package_packs [OF sample_package_valid])
  show "list_all (\<lambda>(rel, k). k \<noteq> Kind_link \<and> printable rel) (visit [] (sorted_names sample_package))" by code_simp
  show "list_all (\<lambda>(n, b). byte_length n \<le> 100 \<and> length (coalesce b []) \<le> 512) (package_files sample_package)" by code_simp
  show "length (package_files sample_package) \<le> 100" by code_simp
  have "map (\<lambda>(n, b). (n, length (coalesce b []))) (package_files sample_package) = [(''agents/'', 0), (''agents/a.agent.md'', 2), (''plugin.json'', 2)]"
    by code_simp
  then show "raw_bytes 0 (package_files sample_package) \<noteq> None" by (rule small_raw_bytes) (simp add: max_raw_bytes_def)
qed

lemma sample_readable: "kind_at sample_package path = Some k \<Longrightarrow> readable_path (join ''/'' path)"
proof -
  assume "kind_at sample_package path = Some k"
  then have "join ''/'' path \<in> set (map fst (visit [] (sorted_names sample_package)))"
    using package_visit_mem [OF sample_package_valid] by force
  moreover have "list_all readable_path (map fst (visit [] (sorted_names sample_package)))" by code_simp
  ultimately show ?thesis unfolding list_all_iff by blast
qed

theorem unpacked_is_packed_witness:
  "\<exists>p calls. pack_agent_package stored sample_package = Inr p \<and>
     extract_agent_package stored (\<lambda>_. False) [''srv''] (pk_targz p) = (calls, Extracted) \<and>
     Write_file ''/srv/agents/a.agent.md'' ''hi'' \<in> set calls \<and> Write_file ''/srv/.git/HEAD'' ''x'' \<notin> set calls"
proof -
  obtain p where p: "pack_agent_package stored sample_package = Inr p" "pp_gunzip stored max_tar_bytes (pk_targz p) \<noteq> None"
    using sample_packs by blast
  have readable: "\<forall>path k. kind_at sample_package path = Some k \<longrightarrow> readable_path (join ''/'' path)" using sample_readable by blast
  obtain calls where calls: "extract_agent_package stored (\<lambda>_. False) [''srv''] (pk_targz p) = (calls, Extracted)"
      "\<And>dest body. Write_file dest body \<in> set calls \<longleftrightarrow>
         (\<exists>path. kind_at sample_package path = Some (Kind_file body) \<and> dest = absolute ([''srv''] @ path))"
    using unpacked_is_packed [OF stored_restores sample_package_valid p readable, of "[''srv'']"] by auto
  have "kind_at sample_package [''agents'', ''a.agent.md''] = Some (Kind_file ''hi'')"
    by (simp add: kind_at_def sample_package_def pack_ignores_def)
  then have "Write_file ''/srv/agents/a.agent.md'' ''hi'' \<in> set calls"
    unfolding calls(2) by (intro exI [of _ "[''agents'', ''a.agent.md'']"]) (simp add: absolute_def)
  moreover have "Write_file ''/srv/.git/HEAD'' ''x'' \<notin> set calls"
  proof
    assume "Write_file ''/srv/.git/HEAD'' ''x'' \<in> set calls"
    then obtain path where path: "kind_at sample_package path = Some (Kind_file ''x'')" "''/srv/.git/HEAD'' = absolute ([''srv''] @ path)"
      unfolding calls(2) by blast
    have "(join ''/'' path, Kind_file ''x'') \<in> set (visit [] (sorted_names sample_package))"
      using path(1) package_visit_mem [OF sample_package_valid] by blast
    moreover have "list_all (\<lambda>(rel, k). k \<noteq> Kind_file ''x'') (visit [] (sorted_names sample_package))" by code_simp
    ultimately show False by (auto simp: list_all_iff)
  qed
  ultimately show ?thesis using p(1) calls(1) by blast
qed

text \<open>The same package listed in another order.\<close>

theorem same_content_same_package_witness:
  "\<exists>p. pack_agent_package stored sample_package = Inr p \<and> pack_agent_package stored (rev sample_package) = Inr p"
proof -
  obtain p where p: "pack_agent_package stored sample_package = Inr p" using sample_packs by blast
  have "map_of (rev sample_package) n = map_of sample_package n" for n by (simp add: sample_package_def)
  then have "lookup_path path (rev sample_package) = lookup_path path sample_package" for path
    by (cases "(path, sample_package)" rule: lookup_path.cases) simp_all
  then have "kind_at sample_package = kind_at (rev sample_package)" by (intro ext) (simp add: kind_at_def)
  moreover have "valid_tree (rev sample_package)" using sample_package_valid by (simp add: valid_tree_def rev_map [symmetric])
  ultimately show ?thesis using same_content_same_package [OF sample_package_valid _ _ p] p by blast
qed

text \<open>A name with a backslash, and an archive made to escape.\<close>

definition backslash_package :: "(string \<times> tree_node) list" where
  "backslash_package = [([CHR ''a'', CHR 0x5C, CHR ''b''], File ''x'')]"

lemma backslash_packs: "\<exists>p. pack_agent_package stored backslash_package = Inr p \<and> pp_gunzip stored max_tar_bytes (pk_targz p) \<noteq> None"
proof (rule small_package_packs)
  show "valid_tree backslash_package" by (simp add: valid_tree_def backslash_package_def valid_name_def)
  show "list_all (\<lambda>(rel, k). k \<noteq> Kind_link \<and> printable rel) (visit [] (sorted_names backslash_package))" by code_simp
  show "list_all (\<lambda>(n, b). byte_length n \<le> 100 \<and> length (coalesce b []) \<le> 512) (package_files backslash_package)" by code_simp
  show "length (package_files backslash_package) \<le> 100" by code_simp
  have "map (\<lambda>(n, b). (n, length (coalesce b []))) (package_files backslash_package) = [([CHR ''a'', CHR 0x5C, CHR ''b''], 1)]"
    by code_simp
  then show "raw_bytes 0 (package_files backslash_package) \<noteq> None" by (rule small_raw_bytes) (simp add: max_raw_bytes_def)
qed

theorem unreadable_name_is_packed_witness:
  "\<exists>p name. pack_agent_package stored backslash_package = Inr p \<and> read_agent_package stored (pk_targz p) = Inl (Not_relative name)"
proof -
  obtain p where p: "pack_agent_package stored backslash_package = Inr p" "pp_gunzip stored max_tar_bytes (pk_targz p) \<noteq> None"
    using backslash_packs by blast
  have valid: "valid_tree backslash_package" by (simp add: valid_tree_def backslash_package_def valid_name_def)
  have "kind_at backslash_package [[CHR ''a'', CHR 0x5C, CHR ''b'']] = Some (Kind_file ''x'')"
    by (simp add: kind_at_def backslash_package_def pack_ignores_def)
  then show ?thesis
    using unreadable_name_is_packed [OF stored_restores valid p] p(1) by (fastforce simp: readable_path_def)
qed

definition escaping_entry :: tar_entry where
  "escaping_entry = \<lparr>te_name = ''../../etc/passwd'', te_body = Some ''x'', te_mode = 420\<rparr>"

theorem extraction_stays_inside_witness:
  "\<exists>tar result. build_tar [escaping_entry] = Some tar \<and>
     extract_agent_package stored (\<lambda>_. False) [''srv''] (normalize_gzip (pp_gzip stored tar)) = ([], result) \<and>
     result = Unreadable (Escapes_root ''../../etc/passwd'') \<and> result \<noteq> Escapes_destination ''../../etc/passwd''"
proof -
  have good: "list_all (\<lambda>e. good_entry e \<and> byte_length (te_name e) \<le> 100 \<and> te_mode e < 8 ^ 7 \<and> entry_size e \<le> 512) [escaping_entry]"
  proof -
    have "good_entry escaping_entry \<and> byte_length (te_name escaping_entry) \<le> 100" by code_simp
    then show ?thesis by (simp add: escaping_entry_def entry_size_def)
  qed
  obtain t where t: "tar_entries [escaping_entry] = Some t" "length t \<le> 1024" using tar_entries_fit [OF good] by auto
  have unsafe: "assert_safe_path (te_name escaping_entry) = Some (Escapes_root ''../../etc/passwd'')" by code_simp
  let ?tar = "t @ replicate 1024 NUL"
  have "read_tar ?tar = Inl (Escapes_root ''../../etc/passwd'')"
    using read_tar_entries [OF t(1)] good unsafe by simp
  then have run: "extract_agent_package stored (\<lambda>_. False) [''srv''] (normalize_gzip (pp_gzip stored ?tar)) =
      ([], Unreadable (Escapes_root ''../../etc/passwd''))"
    using t(2) by (simp add: extract_agent_package_def read_agent_package_def stored_gunzip max_tar_bytes_def max_raw_bytes_def)
  moreover have "build_tar [escaping_entry] = Some ?tar" using t(1) by (simp add: build_tar_def tar_block_def)
  ultimately show ?thesis using extraction_stays_inside [OF _ run] by blast
qed

end
