(* ===== verification/Spec2Isabelle.thy ===== *)
theory Spec2Isabelle
  imports
    AgentFqn TranscriptSelection SnapshotCluster SessionLifecycle ProviderBudgets OrchLoop OrchOutcome
    CanvasKv ImportPolicy SchemaMigrator NativeTasks PackageTar
begin

text \<open>
  PilotSwarm runs language-model sessions as durable orchestrations: each session is a deterministic
  generator whose history a workflow engine (duroxide) replays, whose turns run as activities on any
  worker, and whose local state travels between workers as snapshots in a store. This development
  models the parts of \<open>packages/sdk/src\<close> that decide: what a session does next, what it remembers,
  which copy of its files is the truth, and what the rest of the system is told. All line references
  are to that directory.

  \<^bold>\<open>Layers and theories.\<close>
    \<^item> \<open>Prelude\<close>, \<open>JsDate\<close>: untyped JSON values, the string operations of the language, dates.
    \<^item> \<open>MessageSender\<close> (\<open>message-sender.ts\<close>): the identity of a message's writer.
    \<^item> \<open>ChildNotifications\<close> (\<open>child-notifications.ts\<close>): does a child's update wake its parent.
    \<^item> \<open>SessionStatus\<close> (\<open>session-status.ts\<close>, \<open>wait-affinity.ts\<close>, the row sync of \<open>management-client.ts\<close>):
      the status a reader sees, and how a stored row is corrected towards it.
    \<^item> \<open>ProviderBudgets\<close> (\<open>provider-budgets.ts\<close>): how long a session out of budget sleeps and why.
    \<^item> \<open>AgentFqn\<close> (\<open>agent-fqn.ts\<close>): references to agent packages.
    \<^item> \<open>CronAt\<close> (\<open>cron-at.ts\<close>): validation of wall-clock schedules and the next time they fire.
    \<^item> \<open>TranscriptSelection\<close> (\<open>transcript-selection.ts\<close>): which messages survive a regeneration.
    \<^item> \<open>SnapshotProtocol\<close> (\<open>snapshot-protocol.ts\<close>): markers and sentinels of a session directory, the
      archive, and the contract of a snapshot store as the locale \<open>versioned_store\<close>.
    \<^item> \<open>SnapshotStore\<close> (\<open>session-store.ts\<close>): the filesystem store, interpreting the contract; its commit and its
      hydration with any one operation of the file system failing.
    \<^item> \<open>SnapshotCluster\<close>: several workers committing to one store, the lock directory between them (\<open>withCasLock\<close>: its
      owner's token, its age, its reaping), errors, time-outs, and crashes between file operations.
    \<^item> \<open>SessionLifecycle\<close> (\<open>session-lifecycle.ts\<close>): the preamble and the commit around a turn, proved
      for any store that keeps the contract (locale \<open>lifecycle_client\<close>) and instantiated on the
      filesystem store.
    \<^item> \<open>OrchUtils\<close>, \<open>OrchState\<close>, \<open>OrchTracking\<close>, \<open>OrchContinue\<close>, \<open>OrchChildren\<close>, \<open>OrchTimers\<close>
      (\<open>orchestration/utils.ts\<close>, \<open>state.ts\<close>, \<open>lifecycle.ts\<close>, \<open>agents.ts\<close>, \<open>queue.ts\<close>, \<open>turn.ts\<close>,
      \<open>runtime.ts\<close>): prompts and their system context, context usage, the state of a session and its
      construction, the writers and message ids it tracks, continue-as-new, its children and their
      digest, its timers and the continuation after a turn.
    \<^item> \<open>PromptContext\<close> (\<open>prompt-system-context.ts\<close>, \<open>applySenderAttribution\<close>): who may speak as the system.
    \<^item> \<open>OrchQueue\<close> (\<open>orchestration/queue.ts\<close>): the message queue in its twenty key-value buckets.
    \<^item> \<open>OrchShutdown\<close> (\<open>agents.ts\<close>, the agent poll of \<open>turn.ts\<close>): graceful shutdown of a session and its children.
    \<^item> \<open>OrchRegen\<close> (\<open>lifecycle.ts\<close>): the commands and the regeneration pipeline.
    \<^item> \<open>OrchDrain\<close>, \<open>OrchLoop\<close> (\<open>queue.ts\<close>, \<open>runtime.ts\<close>): drain, the sweep before a dispatch, decide, the start of an
      execution with its gates (\<open>create_runtime\<close>, \<open>enter_run_loop\<close>), a pass of the run loop, whole executions; and what
      the loop guarantees.
    \<^item> \<open>OrchRetry\<close> (\<open>turn.ts\<close>, \<open>utils.ts\<close>): the error classifiers, the two retry policies, failures that are not
      retried. A step of a turn is a \<open>turn_step\<close>: its effects, the runtime after it, and whether the turn goes
      on, continued as new, or crashed the execution.
    \<^item> \<open>OrchAgents\<close> (\<open>agents.ts\<close>, \<open>session-list-timestamps.ts\<close>): the eight sub-agent actions, the configuration
      and the system message of a spawned child.
    \<^item> \<open>OrchResult\<close> (\<open>turn.ts\<close>): the dispatch of a turn's result, the report to the parent, waits, questions,
      the prompts the budget gate refused.
    \<^item> \<open>OrchTurn\<close> (\<open>turn.ts\<close>, \<open>queue.ts\<close>, \<open>runtime.ts\<close>): the turn itself, from the preparation of its prompt through the
      race with a stop to the settling of its result; the fired timers; a pass of the loop with its turn.
    \<^item> \<open>OrchTurnLoop\<close>, \<open>OrchOutcome\<close>: what turns guarantee across executions, and to the prompts and the parent
      behind them.
    \<^item> \<open>CanvasStore\<close> (migration 0064 of \<open>cms-migrations.ts\<close>): the key-value table of a canvas and the SQL
      functions over it, one writer alone and several connections statement by statement under row locks.
    \<^item> \<open>JsNumber\<close>: the number an untyped value converts to.
    \<^item> \<open>CanvasKv\<close> (\<open>canvas-kv.ts\<close>, the \<open>kv\<close> block of \<open>canvas-app-manifest.ts\<close>): who may read and write a canvas,
      proved for any store that keeps the contract (locale \<open>canvas_store\<close>) and instantiated on the table.
    \<^item> \<open>ImportPolicy\<close> (\<open>agent-package-import-policy.ts\<close>, \<open>agent-package-import-fetch.ts\<close>): from which URLs a package
      may be fetched, and the fetch that asks again at every redirect.
    \<^item> \<open>SchemaMigrator\<close> (\<open>pg-migrator.ts\<close>): the versioned migrations of a schema, run by several workers
      that may fail or die at any statement.
    \<^item> \<open>NativeTasks\<close> (\<open>native-task-policy.ts\<close>): the external tools a native sub-task may call, and whose call it is.
    \<^item> \<open>PackageTar\<close> (\<open>agent-package-format.ts\<close>): the archive of an agent package, byte by byte: packing a directory, the
      strict reader, extraction.

  \<^bold>\<open>How they meet.\<close> The orchestration theories share one state record (\<open>durable_session_state\<close>, the
  source's \<open>DurableSessionState\<close>); a turn's activity runs the preamble and the commit of
  \<open>SessionLifecycle\<close> against the store of \<open>SnapshotStore\<close>, and reports the version that
  \<open>OrchContinue\<close> carries across executions; a parent's digest (\<open>OrchChildren\<close>) asks
  \<open>ChildNotifications\<close>; the schedules \<open>OrchTimers\<close> arms come from \<open>CronAt\<close>. A pass of the run loop
  (\<open>run_pass\<close>) drains the messages of its world into the queue, hands commands to \<open>handle_command\<close>,
  child updates to \<open>apply_child_update\<close> and \<open>buffer_child_update\<close>, and prompts to \<open>admit_prompt\<close>; then either the
  regeneration pipeline advances a stage or \<open>decide\<close> picks the next work, which \<open>full_pass\<close> runs: a turn is
  \<open>process_prompt\<close> with the outcome of its activity in the world record, its result goes to
  \<open>handle_turn_result\<close>, a sub-agent action from there to \<open>handle_sub_agent_action\<close>, a fired timer to
  \<open>process_timer\<close>. The canvas, import, migration, native-task and package theories stand beside the orchestration: the portal,
  the workers' start and the tools call them. \<open>CanvasKv\<close> reaches the table of \<open>CanvasStore\<close> through the locale
  \<open>canvas_store\<close>, and \<open>SchemaMigrator\<close> is what installs that table. A continue-as-new is a value, the input on which \<open>create_runtime\<close> starts the next execution:
  \<open>build_runtime\<close> (\<open>OrchContinue\<close>) restores the state and the timer, then the two gates of \<open>OrchDrain\<close> run.

  \<^bold>\<open>What is shown.\<close> Snapshots: no interleaving of writers and crashes tears one while the lock excludes, and an error
  at any file operation leaves a chain's head old or new; a committed turn is recognised by every retry until the chain moves on,
  the next worker starts warm. Sessions: a continue-as-new loses nothing it promises to carry;
  a graceful shutdown that no prompt interrupts ends within twelve polls and a regeneration within thirty-five advances,
  whatever the children and the distiller do; a child's terminal report ends its parent's wait; queued messages
  are served in order, the interactive ones first, and the merge of queued prompts is the run at the
  front of the queue without the cancelled ones; no collaborator speaks as the system in a turn of collaborators. Turns: a failing
  turn is tried at most three times, over executions; a prompt the budget gate refuses is kept once and
  rides in the next turn; the first turn a child completes reaches its parent; a session never runs more
  than fifty children or spawns below the second level, a child takes over nothing of its parent's identity,
  and every action of an agent is answered. Canvases: writers side by side act as one after the other on
  versioned registers, a write that names a revision replaces exactly that revision, an unprivileged writer changes
  only what both switches and the author rule allow, the pages of a listing have every live row once. Imports: each URL
  contacted was permitted by an entry and resolved to public addresses only. Migrations: a version is
  applied once with all its work, and the next worker completes what another left. Native tasks: a child runs
  declared tools only, each announced call once. Packages: the same content is the same archive, what is unpacked is what was
  packed, and no archive, whoever made it, is written outside its destination. And where the
  code does not keep what it promises, a theorem exhibits it: two waiters that reap one
  lock and both commit, a model switch that spins a waiting
  session or loses a prompt, a cancellation that a continue-as-new forgets, a prompt that wedges a
  shutdown, a wait that is not resumed, a closed connection that is retried for ever, a schedule that a
  failed turn ends, refused prompts that a returned error drops, concurrent writers that pass the key limit of a
  canvas, an author check made stale by another writer, a mapped address and an encoded slash the import policy does not see, words
  of a collaborator that a merge with the owner's lets speak as the system, a package that nobody can read.

  \<^bold>\<open>Conventions.\<close> A thrown error is a value of a sum or \<open>None\<close>. Time, random ids and what an activity
  returns are arguments. Strings are lists of Latin-1 characters; a constant text of the source
  with a character beyond that holds its UTF-8 bytes. Numbers are exact (\<open>int\<close>, \<open>rat\<close>); the
  32-bit jitter hash is modelled on \<open>32 word\<close>. \<open>Date\<close>, \<open>Intl\<close> time zones (an offset function), the
  archiver and the SDK are parameters with their documented behaviour as named assumptions.
  Recursion is structural or has a measure; the loops with a constant bound in the source (400
  candidates of a schedule, three commit attempts, three hydrations, fifty messages of a drain, three decodings of a
  path, four hops of an import) keep that bound as fuel. The size of a JSON value, the collation of the database, the
  URL parser, DNS and the servers are parameters of the canvas and import theories; the compressor, the hash and the refusals of
  the file system of the package theory. \<open>JSON.stringify\<close> of a recorded turn result is \<open>json_copy\<close>: what is not JSON is dropped
  or becomes \<open>null\<close>.

  \<^bold>\<open>Not modelled\<close>, and why: the activity that runs a turn (it calls the SDK; its outcome is
  an argument), the frozen copies of older orchestration
  versions, the catalog beyond the canvas key-value functions (SQL), the validation of package manifests
  and the staging of their layouts, the session manager and proxy, the workers, clients, tools, MCP
  servers, the portal and the terminal UI (I/O and rendering over the parts above).
\<close>

end
